(* ===== verification/Prelude.thy ===== *)
theory Prelude
  imports Main "HOL-Library.Word" "HOL-Library.Monad_Syntax"
begin

unbundle bit_operations_syntax

text \<open>
  What every component shares: the machine integers of the code as words, the byte order
  conversions of the Rust standard library, slices and in-place copies of byte buffers,
  results and options as monads, and masked bit fields, the contract that every
  control-field accessor of the frames obeys.

  A Rust \<open>Result<T, E>\<close> is \<open>'e + 't\<close> (\<open>Inl\<close> the error), an \<open>Option<T>\<close> is
  \<open>'t option\<close>, \<open>Vec<u8>\<close> and \<open>&[u8]\<close> are \<open>u8 list\<close>, \<open>usize\<close> is \<open>nat\<close>.
  A function that may panic returns an \<open>option\<close> whose \<open>None\<close> is the panic.
\<close>

type_synonym u8 = "8 word"
type_synonym u16 = "16 word"
type_synonym u32 = "32 word"
type_synonym u64 = "64 word"

named_theorems byte_simps "byte order conversions and their inverses"
named_theorems len_simps "lengths of encoded messages"
named_theorems result_simps "unfolding results and options"

section \<open>Results\<close>

fun bind_res :: "'e + 'a \<Rightarrow> ('a \<Rightarrow> 'e + 'b) \<Rightarrow> 'e + 'b" where
  "bind_res (Inl e) f = Inl e"
| "bind_res (Inr a) f = f a"

lemma bind_res_Inr_iff [result_simps]:
  "bind_res r f = Inr b \<longleftrightarrow> (\<exists>a. r = Inr a \<and> f a = Inr b)"
  by (cases r) auto

definition ok_or :: "'a option \<Rightarrow> 'e \<Rightarrow> 'e + 'a" where
  "ok_or x e = (case x of None \<Rightarrow> Inl e | Some a \<Rightarrow> Inr a)"

lemma ok_or_simps [simp]: "ok_or None e = Inl e" "ok_or (Some a) e = Inr a"
  by (simp_all add: ok_or_def)

lemma bind_eq_Some [result_simps]:
  "Option.bind x f = Some b \<longleftrightarrow> (\<exists>a. x = Some a \<and> f a = Some b)"
  by (cases x) auto

section \<open>Byte order\<close>

definition be16 :: "u8 \<Rightarrow> u8 \<Rightarrow> u16" where
  "be16 a b = push_bit 8 (ucast a) OR ucast b"

definition to_be16 :: "u16 \<Rightarrow> u8 list" where
  "to_be16 w = [ucast (drop_bit 8 w), ucast w]"

definition be32 :: "u8 \<Rightarrow> u8 \<Rightarrow> u8 \<Rightarrow> u8 \<Rightarrow> u32" where
  "be32 a b c d = push_bit 24 (ucast a) OR push_bit 16 (ucast b) OR push_bit 8 (ucast c) OR ucast d"

definition to_be32 :: "u32 \<Rightarrow> u8 list" where
  "to_be32 w = [ucast (drop_bit 24 w), ucast (drop_bit 16 w), ucast (drop_bit 8 w), ucast w]"

definition le32 :: "u8 \<Rightarrow> u8 \<Rightarrow> u8 \<Rightarrow> u8 \<Rightarrow> u32" where
  "le32 a b c d = be32 d c b a"

definition to_le32 :: "u32 \<Rightarrow> u8 list" where
  "to_le32 w = rev (to_be32 w)"

lemma be16_split [byte_simps, simp]:
  "be16 (ucast (drop_bit 8 w)) (ucast w) = w"
  unfolding be16_def by (rule bit_word_eqI) (auto simp: bit_simps)

lemma be16_hi [byte_simps, simp]: "ucast (drop_bit 8 (be16 a b)) = a"
  unfolding be16_def by (rule bit_word_eqI) (auto simp: bit_simps dest: bit_imp_le_length)

lemma be16_lo [byte_simps, simp]: "ucast (be16 a b) = b"
  unfolding be16_def by (rule bit_word_eqI) (auto simp: bit_simps)

lemma be16_eq_iff [simp]: "be16 a b = be16 c d \<longleftrightarrow> a = c \<and> b = d"
  by (metis be16_hi be16_lo)

lemma to_be16_be16 [byte_simps, simp]: "to_be16 (be16 a b) = [a, b]"
  by (simp add: to_be16_def)

lemma length_to_be16 [len_simps, simp]: "length (to_be16 w) = 2"
  by (simp add: to_be16_def)

lemma be32_split [byte_simps, simp]:
  "be32 (ucast (drop_bit 24 w)) (ucast (drop_bit 16 w)) (ucast (drop_bit 8 w)) (ucast w) = w"
  unfolding be32_def
proof (rule bit_word_eqI, goal_cases)
  case (1 n)
  then consider "n < 8" | "8 \<le> n" "n < 16" | "16 \<le> n" "n < 24" | "24 \<le> n" "n < 32"
    by fastforce
  then show ?case
    by cases (auto simp: bit_simps)
qed

lemma be32_bytes [byte_simps, simp]:
  "ucast (drop_bit 24 (be32 a b c d)) = a" "ucast (drop_bit 16 (be32 a b c d)) = b"
  "ucast (drop_bit 8 (be32 a b c d)) = c" "ucast (be32 a b c d) = d"
  unfolding be32_def
  by (rule bit_word_eqI; auto simp: bit_simps dest: bit_imp_le_length)+

lemma to_be32_be32 [byte_simps, simp]: "to_be32 (be32 a b c d) = [a, b, c, d]"
  by (simp add: to_be32_def)

lemma length_to_be32 [len_simps, simp]: "length (to_be32 w) = 4"
  by (simp add: to_be32_def)

lemma length_to_le32 [len_simps, simp]: "length (to_le32 w) = 4"
  by (simp add: to_le32_def)

lemma to_le32_eq:
  "to_le32 w = [ucast w, ucast (drop_bit 8 w), ucast (drop_bit 16 w), ucast (drop_bit 24 w)]"
  by (simp add: to_le32_def to_be32_def)

lemma le32_split [byte_simps, simp]:
  "le32 (ucast w) (ucast (drop_bit 8 w)) (ucast (drop_bit 16 w)) (ucast (drop_bit 24 w)) = w"
  by (simp add: le32_def)

section \<open>Ranges\<close>

lemma unat_bounds [simp]:
  "unat (w8::u8) < 256" "unat (w8::u8) \<le> 255" "unat (w16::u16) < 65536" "unat (w16::u16) \<le> 65535"
  using unsigned_less [of w8, where ?'a = nat] unsigned_less [of w16, where ?'a = nat] by auto

lemma unat_octet: "n < 256 \<Longrightarrow> unat (of_nat n :: u8) = n"
  by (simp add: unat_of_nat)

lemma unat_u32_bound: "unat (w::u32) < 4294967296"
  using unsigned_less [of w, where ?'a = nat] by simp

lemma le_mask_and: "(w::'a::len word) \<le> mask k \<longleftrightarrow> w AND mask k = w"
proof
  assume "w \<le> mask k"
  then have "uint w \<le> mask (min LENGTH('a) k)"
    by (simp add: word_le_def uint_mask_eq)
  then have "uint w < 2 ^ min LENGTH('a) k"
    by (simp add: mask_eq_exp_minus_1)
  also have "(2::int) ^ min LENGTH('a) k \<le> 2 ^ k"
    by (rule power_increasing) auto
  finally have "uint w < 2 ^ k" .
  then show "w AND mask k = w"
    by (simp add: mask_eq_iff)
next
  assume "w AND mask k = w"
  then show "w \<le> mask k" by (metis word_and_le1)
qed

lemma le_mask_bits: "(w::'a::len word) \<le> mask k \<Longrightarrow> bit w n \<Longrightarrow> n < k"
  by (auto simp: le_mask_and dest!: arg_cong [where f = "\<lambda>x. bit x n"]) (auto simp: bit_simps)

lemma and_mask_le: "w AND mask k \<le> (mask k :: 'a::len word)"
  by (rule word_and_le1)

section \<open>Buffers\<close>

text \<open>
  \<open>buf[start..][..len]\<close>, \<open>buf[off..].copy_from_slice(src)\<close> (in range) and
  \<open>Vec::resize\<close>.
\<close>

definition buf_slice :: "nat \<Rightarrow> nat \<Rightarrow> 'a list \<Rightarrow> 'a list" where
  "buf_slice start stop xs = take (stop - start) (drop start xs)"

definition buf_write :: "nat \<Rightarrow> 'a list \<Rightarrow> 'a list \<Rightarrow> 'a list" where
  "buf_write off src xs = take off xs @ src @ drop (off + length src) xs"

definition vec_resize :: "nat \<Rightarrow> 'a \<Rightarrow> 'a list \<Rightarrow> 'a list" where
  "vec_resize n x xs = take n xs @ replicate (n - length xs) x"

lemma length_buf_slice [len_simps, simp]:
  "length (buf_slice a b xs) = min (b - a) (length xs - a)"
  by (simp add: buf_slice_def min.commute)

lemma length_buf_write [len_simps, simp]:
  "off + length src \<le> length xs \<Longrightarrow> length (buf_write off src xs) = length xs"
  by (simp add: buf_write_def)

lemma length_vec_resize [len_simps, simp]: "length (vec_resize n x xs) = n"
  by (simp add: vec_resize_def)

lemma buf_write_nil [simp]: "buf_write off [] xs = xs"
  by (simp add: buf_write_def)

lemma buf_write_at: "length a = off \<Longrightarrow> length w = n \<Longrightarrow> n \<le> m \<Longrightarrow>
    buf_write off w (a @ replicate m x) = (a @ w) @ replicate (m - n) x"
  by (simp add: buf_write_def)

lemma slice_write_same [simp]:
  "off + length src \<le> length xs \<Longrightarrow> buf_slice off (off + length src) (buf_write off src xs) = src"
  by (simp add: buf_slice_def buf_write_def)

lemma nth_buf_write_other:
  "off + length src \<le> length xs \<Longrightarrow> i < off \<or> off + length src \<le> i \<Longrightarrow> buf_write off src xs ! i = xs ! i"
  by (auto simp: buf_write_def nth_append)

lemma nth_buf_write_in:
  "off + length src \<le> length xs \<Longrightarrow> off \<le> i \<Longrightarrow> i < off + length src \<Longrightarrow> buf_write off src xs ! i = src ! (i - off)"
  by (auto simp: buf_write_def nth_append)

lemma vec_resize_id [simp]: "vec_resize (length xs) x xs = xs"
  by (simp add: vec_resize_def)

lemma take_vec_resize: "n \<le> length xs \<Longrightarrow> n \<le> m \<Longrightarrow> take n (vec_resize m x xs) = take n xs"
  by (simp add: vec_resize_def min_def)

lemma u8_eq_bits:
  "(a::u8) = b \<longleftrightarrow>
     (bit a 0 \<longleftrightarrow> bit b 0) \<and> (bit a 1 \<longleftrightarrow> bit b 1) \<and> (bit a 2 \<longleftrightarrow> bit b 2) \<and> (bit a 3 \<longleftrightarrow> bit b 3) \<and>
     (bit a 4 \<longleftrightarrow> bit b 4) \<and> (bit a 5 \<longleftrightarrow> bit b 5) \<and> (bit a 6 \<longleftrightarrow> bit b 6) \<and> (bit a 7 \<longleftrightarrow> bit b 7)"
proof -
  have "n < 8 \<longleftrightarrow> n \<in> set [0, 1, 2, 3, 4, 5, 6, 7]" for n :: nat
    by auto
  then have "(\<forall>n<8. P n) \<longleftrightarrow> (\<forall>n\<in>set [0, 1, 2, 3, 4, 5, 6, 7]. P n)" for P :: "nat \<Rightarrow> bool"
    by blast
  moreover have "a = b \<longleftrightarrow> (\<forall>n<8. bit a n \<longleftrightarrow> bit b n)"
    by (auto simp: bit_eq_iff [of a b])
  ultimately show ?thesis by simp
qed

section \<open>Masked bit fields\<close>

text \<open>
  \<open>(old & !MASK) | value\<close>, the update of one field of a control octet. A value inside the
  m is what the field reads afterwards, and a field with a disjoint m is untouched.
\<close>

definition set_masked :: "u8 \<Rightarrow> u8 \<Rightarrow> u8 \<Rightarrow> u8" where
  "set_masked m v old = (old AND NOT m) OR v"

lemma and_eq_self_iff: "v AND m = v \<longleftrightarrow> (\<forall>n. bit v n \<longrightarrow> bit m n)" for v m :: "'a::len word"
  by (auto simp: bit_eq_iff bit_simps dest: bit_imp_le_length)

lemma and_eq_0_iff: "v AND m = 0 \<longleftrightarrow> (\<forall>n. \<not> (bit v n \<and> bit m n))" for v m :: "'a::len word"
  by (auto simp: bit_eq_iff bit_simps dest: bit_imp_le_length)

lemma masked_same: "v AND m = v \<Longrightarrow> set_masked m v old AND m = v"
  unfolding set_masked_def and_eq_self_iff by (rule bit_word_eqI) (auto simp: bit_simps)

lemma masked_other:
  "v AND m = v \<Longrightarrow> m AND other = 0 \<Longrightarrow> set_masked m v old AND other = old AND other"
  unfolding set_masked_def and_eq_self_iff and_eq_0_iff
  by (rule bit_word_eqI) (auto simp: bit_simps)

end
