(* ===== verification/Wire_Types.thy ===== *)
theory Wire_Types
  imports Prelude
begin

text \<open>
  Frame-level enumerations and service codes (\<open>knx-rs-core/src/types.rs\<close>,
  \<open>knx-rs-core/src/message.rs\<close>): the control-field enumerations with their discriminants
  and \<open>TryFrom<u8>\<close> decoders, the cEMI message codes, the transport PDU types and the
  application services with their ten-bit APCI codes.
\<close>

datatype InvalidWireValue = InvalidWireValue

section \<open>Control field enumerations\<close>

datatype FrameFormat = Extended | Standard
datatype Priority = System | Normal | Urgent | Low
datatype AckType = DontCare | Requested
datatype AddressType = AddrIndividual | AddrGroup
datatype Repetition = WasRepeated | WasNotRepeated
datatype SystemBroadcast = SysSystem | SysBroadcast
datatype Confirm = NoError | ConfirmError
datatype DptMedium = Tp1 | Pl110 | Rf | Ip

fun frame_format_u8 :: "FrameFormat \<Rightarrow> u8" where
  "frame_format_u8 Extended = 0x00" | "frame_format_u8 Standard = 0x80"

fun priority_u8 :: "Priority \<Rightarrow> u8" where
  "priority_u8 System = 0x00" | "priority_u8 Normal = 0x04"
| "priority_u8 Urgent = 0x08" | "priority_u8 Low = 0x0C"

fun ack_type_u8 :: "AckType \<Rightarrow> u8" where
  "ack_type_u8 DontCare = 0x00" | "ack_type_u8 Requested = 0x02"

fun address_type_u8 :: "AddressType \<Rightarrow> u8" where
  "address_type_u8 AddrIndividual = 0x00" | "address_type_u8 AddrGroup = 0x80"

fun repetition_u8 :: "Repetition \<Rightarrow> u8" where
  "repetition_u8 WasRepeated = 0x00" | "repetition_u8 WasNotRepeated = 0x20"

fun system_broadcast_u8 :: "SystemBroadcast \<Rightarrow> u8" where
  "system_broadcast_u8 SysSystem = 0x00" | "system_broadcast_u8 SysBroadcast = 0x10"

fun confirm_u8 :: "Confirm \<Rightarrow> u8" where
  "confirm_u8 NoError = 0x00" | "confirm_u8 ConfirmError = 0x01"

definition CTRL1_FRAME_FORMAT_MASK :: u8 where "CTRL1_FRAME_FORMAT_MASK = 0x80"
definition CTRL1_REPETITION_MASK :: u8 where "CTRL1_REPETITION_MASK = 0x20"
definition CTRL1_SYSTEM_BROADCAST_MASK :: u8 where "CTRL1_SYSTEM_BROADCAST_MASK = 0x10"
definition CTRL1_PRIORITY_MASK :: u8 where "CTRL1_PRIORITY_MASK = 0x0C"
definition CTRL1_ACK_MASK :: u8 where "CTRL1_ACK_MASK = 0x02"
definition CTRL1_CONFIRM_MASK :: u8 where "CTRL1_CONFIRM_MASK = 0x01"
definition CTRL2_ADDRESS_TYPE_MASK :: u8 where "CTRL2_ADDRESS_TYPE_MASK = 0x80"
definition CTRL2_HOP_COUNT_MASK :: u8 where "CTRL2_HOP_COUNT_MASK = 0x70"
definition CTRL2_HOP_COUNT_SHIFT :: nat where "CTRL2_HOP_COUNT_SHIFT = 4"
definition HOP_COUNT_VALUE_MASK :: u8 where "HOP_COUNT_VALUE_MASK = 0x07"

lemmas control_masks = CTRL1_FRAME_FORMAT_MASK_def CTRL1_REPETITION_MASK_def
  CTRL1_SYSTEM_BROADCAST_MASK_def CTRL1_PRIORITY_MASK_def CTRL1_ACK_MASK_def CTRL1_CONFIRM_MASK_def
  CTRL2_ADDRESS_TYPE_MASK_def CTRL2_HOP_COUNT_MASK_def CTRL2_HOP_COUNT_SHIFT_def
  HOP_COUNT_VALUE_MASK_def

definition priority_try_from :: "u8 \<Rightarrow> InvalidWireValue + Priority" where
  "priority_try_from v =
     (let b = v AND CTRL1_PRIORITY_MASK in
      if b = 0x00 then Inr System else if b = 0x04 then Inr Normal
      else if b = 0x08 then Inr Urgent else if b = 0x0C then Inr Low else Inl InvalidWireValue)"

definition frame_format_try_from :: "u8 \<Rightarrow> InvalidWireValue + FrameFormat" where
  "frame_format_try_from v =
     (let b = v AND CTRL1_FRAME_FORMAT_MASK in
      if b = 0x00 then Inr Extended else if b = 0x80 then Inr Standard else Inl InvalidWireValue)"

definition address_type_try_from :: "u8 \<Rightarrow> InvalidWireValue + AddressType" where
  "address_type_try_from v =
     (let b = v AND CTRL2_ADDRESS_TYPE_MASK in
      if b = 0x00 then Inr AddrIndividual else if b = 0x80 then Inr AddrGroup else Inl InvalidWireValue)"

definition dpt_medium_try_from :: "u8 \<Rightarrow> InvalidWireValue + DptMedium" where
  "dpt_medium_try_from v =
     (if v = 0x00 then Inr Tp1 else if v = 0x01 then Inr Pl110
      else if v = 0x02 then Inr Rf else if v = 0x05 then Inr Ip else Inl InvalidWireValue)"

definition unwrap_or :: "'e + 'a \<Rightarrow> 'a \<Rightarrow> 'a" where
  "unwrap_or r d = (case r of Inl _ \<Rightarrow> d | Inr a \<Rightarrow> a)"

lemma unwrap_or_simps [simp]: "unwrap_or (Inl e) d = d" "unwrap_or (Inr a) d = a"
  by (simp_all add: unwrap_or_def)

text \<open>
  The decoders of masked fields never fail: the \<open>unwrap_or\<close> defaults of the frame accessors
  are unreachable.
\<close>

lemma priority_try_from_total: "\<exists>p. priority_try_from v = Inr p"
  by (simp add: priority_try_from_def control_masks u8_eq_bits bit_and_iff Let_def)

lemma frame_format_try_from_total: "\<exists>p. frame_format_try_from v = Inr p"
  by (simp add: frame_format_try_from_def control_masks u8_eq_bits bit_and_iff Let_def)

lemma address_type_try_from_total: "\<exists>p. address_type_try_from v = Inr p"
  by (simp add: address_type_try_from_def control_masks u8_eq_bits bit_and_iff Let_def)

section \<open>cEMI message codes\<close>

datatype MessageCode =
    LDataReq | LDataCon | LDataInd
  | PropReadReq | PropReadCon | PropWriteReq | PropWriteCon | PropInfoInd
  | FuncPropCommandReq | FuncPropStateReadReq | FuncPropCon | ResetReq | ResetInd

fun message_code_u8 :: "MessageCode \<Rightarrow> u8" where
  "message_code_u8 LDataReq = 0x11" | "message_code_u8 LDataCon = 0x2E"
| "message_code_u8 LDataInd = 0x29" | "message_code_u8 PropReadReq = 0xFC"
| "message_code_u8 PropReadCon = 0xFB" | "message_code_u8 PropWriteReq = 0xF6"
| "message_code_u8 PropWriteCon = 0xF5" | "message_code_u8 PropInfoInd = 0xF7"
| "message_code_u8 FuncPropCommandReq = 0xF8" | "message_code_u8 FuncPropStateReadReq = 0xF9"
| "message_code_u8 FuncPropCon = 0xFA" | "message_code_u8 ResetReq = 0xF1"
| "message_code_u8 ResetInd = 0xF0"

definition message_code_try_from :: "u8 \<Rightarrow> InvalidWireValue + MessageCode" where
  "message_code_try_from v =
     (if v = 0x11 then Inr LDataReq else if v = 0x2E then Inr LDataCon
      else if v = 0x29 then Inr LDataInd else if v = 0xFC then Inr PropReadReq
      else if v = 0xFB then Inr PropReadCon else if v = 0xF6 then Inr PropWriteReq
      else if v = 0xF5 then Inr PropWriteCon else if v = 0xF7 then Inr PropInfoInd
      else if v = 0xF8 then Inr FuncPropCommandReq else if v = 0xF9 then Inr FuncPropStateReadReq
      else if v = 0xFA then Inr FuncPropCon else if v = 0xF1 then Inr ResetReq
      else if v = 0xF0 then Inr ResetInd else Inl InvalidWireValue)"

lemma message_code_u8_inverse [simp]: "message_code_try_from (message_code_u8 c) = Inr c"
  by (cases c) (simp_all add: message_code_try_from_def)

lemma message_code_try_from_iff:
  "message_code_try_from v = Inr c \<longleftrightarrow> v = message_code_u8 c"
proof
  show "message_code_try_from v = Inr c \<Longrightarrow> v = message_code_u8 c"
    by (auto simp: message_code_try_from_def split: if_splits)
qed simp

section \<open>Transport PDU types\<close>

datatype TpduType =
    DataBroadcast | DataGroup | DataIndividual | DataConnected | Connect | Disconnect | Ack | Nack

end
