(* ===== verification/Address.thy ===== *)
theory Address
  imports Prelude
begin

text \<open>
  KNX addresses (\<open>knx-rs-core/src/address.rs\<close>): the 16-bit individual and group addresses,
  their component constructors and accessors, their wire bytes, and the textual notations
  \<open>area.line.device\<close>, \<open>main/middle/sub\<close> and \<open>main/sub\<close> with Rust's \<open>Display\<close> and
  \<open>FromStr\<close>. Strings are lists of bytes; integer parsing is that of Rust's
  \<open>str::parse\<close> for unsigned integers (an optional plus sign, decimal digits, overflow is an
  error).
\<close>

datatype AddressParseError = InvalidFormat | InvalidSegment | OutOfRange

datatype IndividualAddress = IndividualAddress (ia_raw: u16)

datatype GroupAddress = GroupAddress (ga_raw: u16)

datatype DestinationAddress = DestIndividual IndividualAddress | DestGroup GroupAddress

section \<open>Unsigned integers as text\<close>

fun parse_digits :: "nat \<Rightarrow> nat \<Rightarrow> string \<Rightarrow> nat option" where
  "parse_digits mx acc [] = Some acc"
| "parse_digits mx acc (c # cs) =
     (let d = of_char c - (48::nat) in
      if 48 \<le> (of_char c :: nat) \<and> (of_char c :: nat) \<le> 57 \<and> acc * 10 + d \<le> mx
      then parse_digits mx (acc * 10 + d) cs else None)"

definition parse_uint :: "nat \<Rightarrow> string \<Rightarrow> nat option" where
  "parse_uint mx s =
     (case s of [] \<Rightarrow> None
      | c # cs \<Rightarrow> if c = CHR ''+'' then (if cs = [] then None else parse_digits mx 0 cs)
                  else parse_digits mx 0 s)"

definition parse_u8 :: "string \<Rightarrow> AddressParseError + u8" where
  "parse_u8 s = (case parse_uint 255 s of None \<Rightarrow> Inl InvalidSegment | Some n \<Rightarrow> Inr (of_nat n))"

definition parse_u16 :: "string \<Rightarrow> AddressParseError + u16" where
  "parse_u16 s = (case parse_uint 65535 s of None \<Rightarrow> Inl InvalidSegment | Some n \<Rightarrow> Inr (of_nat n))"

fun show_nat :: "nat \<Rightarrow> string" where
  "show_nat n = (if n < 10 then [char_of (48 + n)] else show_nat (n div 10) @ [char_of (48 + n mod 10)])"

declare show_nat.simps [simp del]

text \<open>\<open>str::splitn(n, c)\<close>: at most \<open>n\<close> pieces, the last one takes the rest.\<close>

fun splitn :: "nat \<Rightarrow> char \<Rightarrow> string \<Rightarrow> string list" where
  "splitn 0 c s = []"
| "splitn (Suc 0) c s = [s]"
| "splitn (Suc (Suc n)) c s =
     (case dropWhile (\<lambda>x. x \<noteq> c) s of [] \<Rightarrow> [s]
      | _ # r \<Rightarrow> takeWhile (\<lambda>x. x \<noteq> c) s # splitn (Suc n) c r)"

definition is_digit :: "char \<Rightarrow> bool" where
  "is_digit c \<longleftrightarrow> 48 \<le> (of_char c :: nat) \<and> (of_char c :: nat) \<le> 57"

lemma show_nat_digits: "c \<in> set (show_nat n) \<Longrightarrow> is_digit c"
proof (induction n rule: show_nat.induct)
  case (1 n)
  then show ?case
    by (subst (asm) (2) show_nat.simps) (auto simp: is_digit_def split: if_splits)
qed

lemma show_nat_not_Nil [simp]: "show_nat n \<noteq> []"
  by (simp add: show_nat.simps [of n])

lemma parse_digits_snoc:
  "parse_digits mx acc xs = Some m \<Longrightarrow>
   parse_digits mx acc (xs @ [c]) = parse_digits mx m [c]"
  by (induction xs arbitrary: acc) (auto simp: Let_def split: if_splits)

lemma parse_show_nat: "n \<le> mx \<Longrightarrow> parse_digits mx 0 (show_nat n) = Some n"
proof (induction n rule: show_nat.induct)
  case (1 n)
  show ?case
  proof (cases "n < 10")
    case True
    then show ?thesis using "1.prems" by (simp add: show_nat.simps [of n])
  next
    case False
    then have "parse_digits mx 0 (show_nat (n div 10)) = Some (n div 10)"
      using 1 by simp
    then have "parse_digits mx 0 (show_nat n) = parse_digits mx (n div 10) [char_of (48 + n mod 10)]"
      using False by (simp add: show_nat.simps [of n] parse_digits_snoc)
    also have "\<dots> = Some n"
      using "1.prems" by (simp add: Let_def)
    finally show ?thesis .
  qed
qed

lemma digit_not_punct: "is_digit c \<Longrightarrow> c \<noteq> CHR ''+'' \<and> c \<noteq> CHR ''.'' \<and> c \<noteq> CHR ''/''"
  by (auto simp: is_digit_def)

lemma parse_uint_show_nat: "n \<le> mx \<Longrightarrow> parse_uint mx (show_nat n) = Some n"
  using parse_show_nat [of n mx] show_nat_digits [of _ n]
  by (auto simp: parse_uint_def split: list.splits dest: digit_not_punct)

lemma parse_u8_show [simp]: "parse_u8 (show_nat (unat (w::u8))) = Inr w"
  by (simp add: parse_u8_def parse_uint_show_nat)

lemma parse_u16_show [simp]: "parse_u16 (show_nat (unat (w::u16))) = Inr w"
  by (simp add: parse_u16_def parse_uint_show_nat)

lemma splitn_last [simp]: "c \<notin> set s \<Longrightarrow> splitn (Suc n) c s = [s]"
  proof (cases n)
  case (Suc m)
  assume "c \<notin> set s"
  then have "dropWhile (\<lambda>x. x \<noteq> c) s = []" by auto
  then show ?thesis unfolding Suc by (simp only: splitn.simps list.case)
qed simp

declare splitn.simps(3) [simp del]

lemma splitn_step [simp]:
  assumes "c \<notin> set s"
  shows "splitn (Suc (Suc n)) c (s @ c # r) = s # splitn (Suc n) c r"
proof -
  have "takeWhile (\<lambda>x. x \<noteq> c) (s @ c # r) = s" and "dropWhile (\<lambda>x. x \<noteq> c) (s @ c # r) = c # r"
    using assms by (induction s) auto
  then show ?thesis by (simp add: splitn.simps(3))
qed

lemma punct_notin_show [simp]: "CHR ''.'' \<notin> set (show_nat n)" "CHR ''/'' \<notin> set (show_nat n)"
  using show_nat_digits digit_not_punct by blast+

section \<open>Individual addresses\<close>

definition IA_NIBBLE_MASK :: u8 where "IA_NIBBLE_MASK = 0x0F"

definition ia_new :: "u8 \<Rightarrow> u8 \<Rightarrow> u8 \<Rightarrow> AddressParseError + IndividualAddress" where
  "ia_new area line device =
     (if area > IA_NIBBLE_MASK \<or> line > IA_NIBBLE_MASK then Inl OutOfRange
      else Inr (IndividualAddress (push_bit 12 (ucast area) OR push_bit 8 (ucast line) OR ucast device)))"

definition ia_area :: "IndividualAddress \<Rightarrow> u8" where
  "ia_area a = ucast (drop_bit 12 (ia_raw a)) AND IA_NIBBLE_MASK"

definition ia_line :: "IndividualAddress \<Rightarrow> u8" where
  "ia_line a = ucast (drop_bit 8 (ia_raw a)) AND IA_NIBBLE_MASK"

definition ia_device :: "IndividualAddress \<Rightarrow> u8" where
  "ia_device a = ucast (ia_raw a AND 0xFF)"

definition ia_to_bytes :: "IndividualAddress \<Rightarrow> u8 list" where
  "ia_to_bytes a = to_be16 (ia_raw a)"

definition ia_from_bytes :: "u8 \<Rightarrow> u8 \<Rightarrow> IndividualAddress" where
  "ia_from_bytes b0 b1 = IndividualAddress (be16 b0 b1)"

definition ia_display :: "IndividualAddress \<Rightarrow> string" where
  "ia_display a =
     show_nat (unat (ia_area a)) @ ''.'' @ show_nat (unat (ia_line a)) @ ''.'' @ show_nat (unat (ia_device a))"

text \<open>The segments are taken one by one, so a missing one is a format error and a bad one stops.\<close>

definition next_segment :: "string list \<Rightarrow> AddressParseError + (u8 \<times> string list)" where
  "next_segment parts =
     (case parts of [] \<Rightarrow> Inl InvalidFormat
      | s # rest \<Rightarrow> bind_res (parse_u8 s) (\<lambda>v. Inr (v, rest)))"

definition ia_from_str :: "string \<Rightarrow> AddressParseError + IndividualAddress" where
  "ia_from_str s =
     bind_res (next_segment (splitn 3 (CHR ''.'') s)) (\<lambda>(area, p1).
     bind_res (next_segment p1) (\<lambda>(line, p2).
     bind_res (next_segment p2) (\<lambda>(device, p3).
       if p3 \<noteq> [] then Inl InvalidFormat else ia_new area line device)))"

section \<open>Group addresses\<close>

definition GA_MAIN_MASK :: u8 where "GA_MAIN_MASK = 0x1F"
definition GA_MIDDLE_MASK :: u8 where "GA_MIDDLE_MASK = 0x07"
definition GA_SUB2_MASK :: u16 where "GA_SUB2_MASK = 0x07FF"

definition ga_new_3level :: "u8 \<Rightarrow> u8 \<Rightarrow> u8 \<Rightarrow> AddressParseError + GroupAddress" where
  "ga_new_3level mn middle sub =
     (if mn > GA_MAIN_MASK \<or> middle > GA_MIDDLE_MASK then Inl OutOfRange
      else Inr (GroupAddress (push_bit 11 (ucast mn) OR push_bit 8 (ucast middle) OR ucast sub)))"

definition ga_new_2level :: "u8 \<Rightarrow> u16 \<Rightarrow> AddressParseError + GroupAddress" where
  "ga_new_2level mn sub =
     (if mn > GA_MAIN_MASK \<or> sub > GA_SUB2_MASK then Inl OutOfRange
      else Inr (GroupAddress (push_bit 11 (ucast mn) OR sub)))"

definition ga_main :: "GroupAddress \<Rightarrow> u8" where
  "ga_main a = ucast (drop_bit 11 (ga_raw a)) AND GA_MAIN_MASK"

definition ga_middle :: "GroupAddress \<Rightarrow> u8" where
  "ga_middle a = ucast (drop_bit 8 (ga_raw a)) AND GA_MIDDLE_MASK"

definition ga_sub :: "GroupAddress \<Rightarrow> u8" where
  "ga_sub a = ucast (ga_raw a AND 0xFF)"

definition ga_sub_2level :: "GroupAddress \<Rightarrow> u16" where
  "ga_sub_2level a = ga_raw a AND GA_SUB2_MASK"

definition ga_to_bytes :: "GroupAddress \<Rightarrow> u8 list" where
  "ga_to_bytes a = to_be16 (ga_raw a)"

definition ga_from_bytes :: "u8 \<Rightarrow> u8 \<Rightarrow> GroupAddress" where
  "ga_from_bytes b0 b1 = GroupAddress (be16 b0 b1)"

definition ga_display :: "GroupAddress \<Rightarrow> string" where
  "ga_display a =
     show_nat (unat (ga_main a)) @ ''/'' @ show_nat (unat (ga_middle a)) @ ''/'' @ show_nat (unat (ga_sub a))"

definition ga_from_str :: "string \<Rightarrow> AddressParseError + GroupAddress" where
  "ga_from_str s =
     (case splitn 4 (CHR ''/'') s of
        [p0, p1] \<Rightarrow>
          bind_res (parse_u8 p0) (\<lambda>mn. bind_res (parse_u16 p1) (\<lambda>sub. ga_new_2level mn sub))
      | [p0, p1, p2] \<Rightarrow>
          bind_res (parse_u8 p0) (\<lambda>mn. bind_res (parse_u8 p1) (\<lambda>middle.
            bind_res (parse_u8 p2) (\<lambda>sub. ga_new_3level mn middle sub)))
      | _ \<Rightarrow> Inl InvalidFormat)"

section \<open>Components\<close>

lemmas address_masks = IA_NIBBLE_MASK_def GA_MAIN_MASK_def GA_MIDDLE_MASK_def GA_SUB2_MASK_def

lemma mask_values:
  "(0x0F::u8) = mask 4" "(0x1F::u8) = mask 5" "(0x07::u8) = mask 3" "(0x07FF::u16) = mask 11"
  "(0xFF::u16) = mask 8"
  by (simp_all add: mask_eq_exp_minus_1)

lemma ia_new_components: "ia_new (ia_area a) (ia_line a) (ia_device a) = Inr a"
proof (cases a)
  case (IndividualAddress w)
  have "push_bit 12 (ucast (ucast (drop_bit 12 w) AND (mask 4 :: u8))) OR
        push_bit 8 (ucast (ucast (drop_bit 8 w) AND (mask 4 :: u8))) OR
        ucast (ucast (w AND mask 8) :: u8) = w"
  proof (rule bit_word_eqI, goal_cases)
    case (1 n)
    then consider "n < 8" | "8 \<le> n" "n < 12" | "12 \<le> n" "n < 16" by fastforce
    then show ?case by cases (auto simp: bit_simps)
  qed
  then show ?thesis
    using IndividualAddress
    by (simp add: ia_new_def ia_area_def ia_line_def ia_device_def address_masks mask_values
        and_mask_le not_less)
qed

lemma ia_components_new:
  assumes "ia_new area line device = Inr a"
  shows "ia_area a = area" "ia_line a = line" "ia_device a = device"
proof -
  from assms have le: "area \<le> mask 4" "line \<le> mask 4"
    and a: "a = IndividualAddress (push_bit 12 (ucast area) OR push_bit 8 (ucast line) OR ucast device)"
    by (auto simp: ia_new_def address_masks mask_values not_less split: if_splits)
  note bits = le_mask_bits [OF le(1)] le_mask_bits [OF le(2)]
  show "ia_area a = area" "ia_line a = line" "ia_device a = device"
    unfolding a ia_area_def ia_line_def ia_device_def address_masks mask_values
    by (rule bit_word_eqI; auto simp: bit_simps dest: bits bit_imp_le_length)+
qed

lemma ga_new_3level_components: "ga_new_3level (ga_main g) (ga_middle g) (ga_sub g) = Inr g"
proof (cases g)
  case (GroupAddress w)
  have "push_bit 11 (ucast (ucast (drop_bit 11 w) AND (mask 5 :: u8))) OR
        push_bit 8 (ucast (ucast (drop_bit 8 w) AND (mask 3 :: u8))) OR
        ucast (ucast (w AND mask 8) :: u8) = w"
  proof (rule bit_word_eqI, goal_cases)
    case (1 n)
    then consider "n < 8" | "8 \<le> n" "n < 11" | "11 \<le> n" "n < 16" by fastforce
    then show ?case by cases (auto simp: bit_simps)
  qed
  then show ?thesis
    using GroupAddress
    by (simp add: ga_new_3level_def ga_main_def ga_middle_def ga_sub_def address_masks mask_values
        and_mask_le not_less)
qed

lemma ga_new_2level_components: "ga_new_2level (ga_main g) (ga_sub_2level g) = Inr g"
proof (cases g)
  case (GroupAddress w)
  have "push_bit 11 (ucast (ucast (drop_bit 11 w) AND (mask 5 :: u8))) OR (w AND mask 11) = w"
  proof (rule bit_word_eqI, goal_cases)
    case (1 n)
    then consider "n < 11" | "11 \<le> n" "n < 16" by fastforce
    then show ?case by cases (auto simp: bit_simps)
  qed
  then show ?thesis
    using GroupAddress
    by (simp add: ga_new_2level_def ga_main_def ga_sub_2level_def address_masks mask_values
        and_mask_le not_less)
qed

section \<open>Text round trips\<close>

lemma ia_text: "ia_from_str (ia_display a) = Inr a"
  by (simp add: ia_from_str_def ia_display_def next_segment_def numeral_3_eq_3 ia_new_components)

lemma ga_text: "ga_from_str (ga_display g) = Inr g"
  by (simp add: ga_from_str_def ga_display_def eval_nat_numeral ga_new_3level_components)

definition ga_display_2level :: "GroupAddress \<Rightarrow> string" where
  "ga_display_2level g = show_nat (unat (ga_main g)) @ ''/'' @ show_nat (unat (ga_sub_2level g))"

lemma ga_text_2level: "ga_from_str (ga_display_2level g) = Inr g"
  by (simp add: ga_from_str_def ga_display_2level_def eval_nat_numeral ga_new_2level_components)

lemma ia_bytes: "ia_to_bytes a = [b0, b1] \<Longrightarrow> ia_from_bytes b0 b1 = a"
  by (cases a) (auto simp: ia_to_bytes_def ia_from_bytes_def to_be16_def)

end
