(* ===== verification/Transport.thy ===== *)
theory Transport
  imports Wire_Types Address
begin

text \<open>
  The connection-oriented transport layer (\<open>knx-rs-device/src/transport_layer.rs\<close>): its state
  machine with sequence numbers, retransmission, connection and acknowledgement timeouts, the
  buffered request and the queue of pending actions. One definition per method; \<open>tl_step\<close> collects the public entry points as events. The lemmas give the
  representation invariant of every reachable state, the bound on retransmissions, the exact
  delivery condition, and that a silent peer leads to \<open>Closed\<close>.

  Times are the code's \<open>u64\<close> milliseconds; a deadline is computed by addition modulo
  \<open>2 ^ 64\<close>, the release-build behaviour of \<open>now_ms + TIMEOUT\<close>.
\<close>

definition CONNECTION_TIMEOUT_MS :: u64 where "CONNECTION_TIMEOUT_MS = 6000"
definition ACK_TIMEOUT_MS :: u64 where "ACK_TIMEOUT_MS = 3000"
definition MAX_REP_COUNT :: u8 where "MAX_REP_COUNT = 3"
definition SEQ_NO_MASK :: u8 where "SEQ_NO_MASK = 0x0F"

datatype State = Closed | OpenIdle | OpenWait | Connecting

datatype Action =
    SendControl IndividualAddress TpduType u8
  | SendDataConnected IndividualAddress u8 Priority "u8 list"
  | ConnectIndication IndividualAddress
  | ConnectConfirm IndividualAddress
  | DisconnectIndication IndividualAddress
  | DataConnectedIndication IndividualAddress Priority "u8 list"
  | DataConnectedConfirm

record SavedFrame =
  sf_destination :: IndividualAddress
  sf_seq_no :: u8
  sf_priority :: Priority
  sf_apdu :: "u8 list"

record BufferedRequest =
  br_priority :: Priority
  br_apdu :: "u8 list"

record TransportLayer =
  state :: State
  connection_address :: IndividualAddress
  seq_no_send :: u8
  seq_no_recv :: u8
  rep_count :: u8
  connection_timeout_deadline :: "u64 option"
  ack_timeout_deadline :: "u64 option"
  saved_frame :: "SavedFrame option"
  buffered_request :: "BufferedRequest option"
  actions :: "Action list"

definition tl_new :: TransportLayer where
  "tl_new = \<lparr>state = Closed, connection_address = IndividualAddress 0, seq_no_send = 0,
     seq_no_recv = 0, rep_count = 0, connection_timeout_deadline = None,
     ack_timeout_deadline = None, saved_frame = None, buffered_request = None, actions = []\<rparr>"

definition take_actions :: "TransportLayer \<Rightarrow> TransportLayer \<times> Action list" where
  "take_actions s = (s\<lparr>actions := []\<rparr>, actions s)"

definition push :: "Action \<Rightarrow> TransportLayer \<Rightarrow> TransportLayer" where
  "push a s = s\<lparr>actions := actions s @ [a]\<rparr>"

definition goto :: "State \<Rightarrow> TransportLayer \<Rightarrow> TransportLayer" where
  "goto st s = s\<lparr>state := st\<rparr>"

section \<open>Timers and actions\<close>

definition enable_connection_timeout :: "u64 \<Rightarrow> TransportLayer \<Rightarrow> TransportLayer" where
  "enable_connection_timeout now s = s\<lparr>connection_timeout_deadline := Some (now + CONNECTION_TIMEOUT_MS)\<rparr>"

definition enable_ack_timeout :: "u64 \<Rightarrow> TransportLayer \<Rightarrow> TransportLayer" where
  "enable_ack_timeout now s = s\<lparr>ack_timeout_deadline := Some (now + ACK_TIMEOUT_MS)\<rparr>"

definition a1_accept_connection :: "IndividualAddress \<Rightarrow> u64 \<Rightarrow> TransportLayer \<Rightarrow> TransportLayer" where
  "a1_accept_connection source now s =
     (let s = s\<lparr>connection_address := source, seq_no_send := 0, seq_no_recv := 0\<rparr>;
          s = enable_connection_timeout now s;
          s = push (ConnectIndication source) s
      in goto OpenIdle s)"

definition a2_receive_data ::
  "IndividualAddress \<Rightarrow> Priority \<Rightarrow> u8 list \<Rightarrow> u64 \<Rightarrow> TransportLayer \<Rightarrow> TransportLayer" where
  "a2_receive_data source prio apdu now s =
     (let s = push (SendControl source Ack (seq_no_recv s)) s;
          s = s\<lparr>seq_no_recv := (seq_no_recv s + 1) AND SEQ_NO_MASK\<rparr>;
          s = enable_connection_timeout now s
      in push (DataConnectedIndication source prio apdu) s)"

definition a3_ack_repeated :: "IndividualAddress \<Rightarrow> u8 \<Rightarrow> u64 \<Rightarrow> TransportLayer \<Rightarrow> TransportLayer" where
  "a3_ack_repeated source seq now s =
     enable_connection_timeout now (push (SendControl source Ack seq) s)"

definition a4_nack_wrong_seq :: "IndividualAddress \<Rightarrow> u8 \<Rightarrow> u64 \<Rightarrow> TransportLayer \<Rightarrow> TransportLayer" where
  "a4_nack_wrong_seq source seq now s =
     enable_connection_timeout now (push (SendControl source Nack seq) s)"

definition a5_passive_disconnect :: "IndividualAddress \<Rightarrow> TransportLayer \<Rightarrow> TransportLayer" where
  "a5_passive_disconnect address s =
     push (DisconnectIndication address)
       (s\<lparr>connection_timeout_deadline := None, ack_timeout_deadline := None\<rparr>)"

definition active_disconnect :: "TransportLayer \<Rightarrow> TransportLayer" where
  "active_disconnect s =
     (let s = push (SendControl (connection_address s) Disconnect 0) s;
          s = push (DisconnectIndication (connection_address s)) s
      in s\<lparr>connection_timeout_deadline := None, ack_timeout_deadline := None\<rparr>)"

definition a7_send_data :: "Priority \<Rightarrow> u8 list \<Rightarrow> u64 \<Rightarrow> TransportLayer \<Rightarrow> TransportLayer" where
  "a7_send_data prio apdu now s =
     (let s = s\<lparr>saved_frame := Some \<lparr>sf_destination = connection_address s, sf_seq_no = seq_no_send s,
                  sf_priority = prio, sf_apdu = apdu\<rparr>\<rparr>;
          s = push (SendDataConnected (connection_address s) (seq_no_send s) prio apdu) s;
          s = s\<lparr>rep_count := 0\<rparr>
      in enable_connection_timeout now (enable_ack_timeout now s))"

definition a8_ack_received :: "u64 \<Rightarrow> TransportLayer \<Rightarrow> TransportLayer" where
  "a8_ack_received now s =
     (let s = s\<lparr>ack_timeout_deadline := None, seq_no_send := (seq_no_send s + 1) AND SEQ_NO_MASK,
                  saved_frame := None\<rparr>
      in push DataConnectedConfirm (enable_connection_timeout now s))"

definition a9_retransmit :: "u64 \<Rightarrow> TransportLayer \<Rightarrow> TransportLayer" where
  "a9_retransmit now s =
     (let s = (case saved_frame s of
            Some f \<Rightarrow> push (SendDataConnected (sf_destination f) (sf_seq_no f) (sf_priority f) (sf_apdu f)) s
          | None \<Rightarrow> s);
          s = s\<lparr>rep_count := rep_count s + 1\<rparr>
      in enable_connection_timeout now (enable_ack_timeout now s))"

definition a10_reject_foreign :: "IndividualAddress \<Rightarrow> TransportLayer \<Rightarrow> TransportLayer" where
  "a10_reject_foreign source s = push (SendControl source Disconnect 0) s"

definition a12_initiate_connection :: "IndividualAddress \<Rightarrow> u64 \<Rightarrow> TransportLayer \<Rightarrow> TransportLayer" where
  "a12_initiate_connection destination now s =
     (let s = s\<lparr>connection_address := destination, seq_no_send := 0, seq_no_recv := 0\<rparr>;
          s = push (SendControl destination Connect 0) s
      in enable_connection_timeout now s)"

lemmas tl_actions = push_def goto_def enable_connection_timeout_def enable_ack_timeout_def
  a1_accept_connection_def a2_receive_data_def a3_ack_repeated_def a4_nack_wrong_seq_def
  a5_passive_disconnect_def active_disconnect_def a7_send_data_def a8_ack_received_def
  a9_retransmit_def a10_reject_foreign_def a12_initiate_connection_def

section \<open>Received telegrams\<close>

definition connect_indication :: "IndividualAddress \<Rightarrow> u64 \<Rightarrow> TransportLayer \<Rightarrow> TransportLayer" where
  "connect_indication source now s =
     (if state s = Closed then a1_accept_connection source now s
      else if source = connection_address s then s
      else a10_reject_foreign source s)"

definition disconnect_indication :: "IndividualAddress \<Rightarrow> TransportLayer \<Rightarrow> TransportLayer" where
  "disconnect_indication source s =
     (if source \<noteq> connection_address s \<or> state s = Closed then s
      else goto Closed (a5_passive_disconnect source s))"

definition data_connected_indication ::
  "IndividualAddress \<Rightarrow> u8 \<Rightarrow> Priority \<Rightarrow> u8 list \<Rightarrow> u64 \<Rightarrow> TransportLayer \<Rightarrow> TransportLayer" where
  "data_connected_indication source seq prio apdu now s =
     (if source \<noteq> connection_address s
      then (if state s = Connecting then a10_reject_foreign source s else s)
      else let prev_seq = (seq_no_recv s - 1) AND SEQ_NO_MASK in
        case state s of
          Closed \<Rightarrow> s
        | Connecting \<Rightarrow>
            if seq = prev_seq then a3_ack_repeated source seq now s
            else goto Closed (active_disconnect s)
        | _ \<Rightarrow>
            if seq = seq_no_recv s then a2_receive_data source prio apdu now s
            else if seq = prev_seq then a3_ack_repeated source seq now s
            else a4_nack_wrong_seq source seq now s)"

definition ack_indication :: "IndividualAddress \<Rightarrow> u8 \<Rightarrow> u64 \<Rightarrow> TransportLayer \<Rightarrow> TransportLayer" where
  "ack_indication source seq now s =
     (if source \<noteq> connection_address s
      then (if state s = Connecting then a10_reject_foreign source s else s)
      else case state s of
          Closed \<Rightarrow> s | OpenIdle \<Rightarrow> s
        | OpenWait \<Rightarrow>
            if seq = seq_no_send s then goto OpenIdle (a8_ack_received now s)
            else goto Closed (active_disconnect s)
        | Connecting \<Rightarrow> goto Closed (active_disconnect s))"

definition nack_indication :: "IndividualAddress \<Rightarrow> u8 \<Rightarrow> u64 \<Rightarrow> TransportLayer \<Rightarrow> TransportLayer" where
  "nack_indication source seq now s =
     (if source \<noteq> connection_address s
      then (if state s = Connecting then a10_reject_foreign source s else s)
      else case state s of
          Closed \<Rightarrow> s
        | OpenWait \<Rightarrow>
            if seq \<noteq> seq_no_send s then s
            else if rep_count s < MAX_REP_COUNT then a9_retransmit now s
            else goto Closed (active_disconnect s)
        | _ \<Rightarrow> goto Closed (active_disconnect s))"

definition connect_confirm :: "bool \<Rightarrow> TransportLayer \<Rightarrow> TransportLayer" where
  "connect_confirm success s =
     (if state s = Connecting then
        if success then goto OpenIdle (push (ConnectConfirm (connection_address s)) s)
        else goto Closed (a5_passive_disconnect (connection_address s) s)
      else s)"

section \<open>Requests of the application layer and time\<close>

definition data_connected_request :: "Priority \<Rightarrow> u8 list \<Rightarrow> u64 \<Rightarrow> TransportLayer \<Rightarrow> TransportLayer" where
  "data_connected_request prio apdu now s =
     (case state s of
        Closed \<Rightarrow> s
      | OpenIdle \<Rightarrow> goto OpenWait (a7_send_data prio apdu now s)
      | _ \<Rightarrow> s\<lparr>buffered_request := Some \<lparr>br_priority = prio, br_apdu = apdu\<rparr>\<rparr>)"

definition connect_request :: "IndividualAddress \<Rightarrow> u64 \<Rightarrow> TransportLayer \<Rightarrow> TransportLayer" where
  "connect_request destination now s =
     (if state s = Closed then goto Connecting (a12_initiate_connection destination now s)
      else goto Closed (active_disconnect s))"

definition disconnect_request :: "TransportLayer \<Rightarrow> TransportLayer" where
  "disconnect_request s =
     (if state s = Closed then push (DisconnectIndication (connection_address s)) s
      else goto Closed (active_disconnect s))"

definition due :: "u64 option \<Rightarrow> u64 \<Rightarrow> bool" where
  "due deadline now = (case deadline of Some d \<Rightarrow> now \<ge> d | None \<Rightarrow> False)"

definition tl_poll :: "u64 \<Rightarrow> TransportLayer \<Rightarrow> TransportLayer" where
  "tl_poll now s =
     (if due (connection_timeout_deadline s) now then
        let s = s\<lparr>connection_timeout_deadline := None\<rparr>
        in if state s = Closed then s else goto Closed (active_disconnect s)
      else if due (ack_timeout_deadline s) now \<and> state s = OpenWait then
        let s = s\<lparr>ack_timeout_deadline := None\<rparr>
        in if rep_count s < MAX_REP_COUNT then a9_retransmit now s
           else goto Closed (active_disconnect s)
      else if state s = OpenIdle then
        (case buffered_request s of
           None \<Rightarrow> s
         | Some req \<Rightarrow> goto OpenWait (a7_send_data (br_priority req) (br_apdu req) now
             (s\<lparr>buffered_request := None\<rparr>)))
      else s)"

lemmas tl_handlers = connect_indication_def disconnect_indication_def
  data_connected_indication_def ack_indication_def nack_indication_def connect_confirm_def
  data_connected_request_def connect_request_def disconnect_request_def tl_poll_def

section \<open>The state machine\<close>

text \<open>Every call of the public interface, with its arguments.\<close>

datatype tl_event =
    EvConnectInd IndividualAddress u64
  | EvDisconnectInd IndividualAddress
  | EvDataInd IndividualAddress u8 Priority "u8 list" u64
  | EvAck IndividualAddress u8 u64
  | EvNack IndividualAddress u8 u64
  | EvConnectCon bool
  | EvDataReq Priority "u8 list" u64
  | EvConnectReq IndividualAddress u64
  | EvDisconnectReq
  | EvPoll u64
  | EvTake

fun tl_step :: "tl_event \<Rightarrow> TransportLayer \<Rightarrow> TransportLayer" where
  "tl_step (EvConnectInd a now) = connect_indication a now"
| "tl_step (EvDisconnectInd a) = disconnect_indication a"
| "tl_step (EvDataInd a q p d now) = data_connected_indication a q p d now"
| "tl_step (EvAck a q now) = ack_indication a q now"
| "tl_step (EvNack a q now) = nack_indication a q now"
| "tl_step (EvConnectCon ok) = connect_confirm ok"
| "tl_step (EvDataReq p d now) = data_connected_request p d now"
| "tl_step (EvConnectReq a now) = connect_request a now"
| "tl_step EvDisconnectReq = disconnect_request"
| "tl_step (EvPoll now) = tl_poll now"
| "tl_step EvTake = (\<lambda>s. fst (take_actions s))"

inductive tl_reachable :: "TransportLayer \<Rightarrow> bool" where
  init: "tl_reachable tl_new"
| step: "tl_reachable s \<Longrightarrow> tl_reachable (tl_step e s)"

text \<open>
  Sequence numbers stay in 0..15 and the repetition count in 0..3; a connection timeout runs
  exactly while a connection exists and an acknowledgement timeout exactly in \<open>OpenWait\<close>,
  where the saved frame is addressed to the peer and carries the current send sequence number.
\<close>

definition tl_inv :: "TransportLayer \<Rightarrow> bool" where
  "tl_inv s \<longleftrightarrow> seq_no_send s \<le> SEQ_NO_MASK \<and> seq_no_recv s \<le> SEQ_NO_MASK \<and> rep_count s \<le> MAX_REP_COUNT \<and>
     (state s = Closed \<longleftrightarrow> connection_timeout_deadline s = None) \<and>
     (state s = OpenWait \<longleftrightarrow> ack_timeout_deadline s \<noteq> None) \<and>
     (state s = OpenWait \<longrightarrow> (\<exists>f. saved_frame s = Some f \<and>
        sf_destination f = connection_address s \<and> sf_seq_no f = seq_no_send s))"

lemma seq_mask_le: "w AND SEQ_NO_MASK \<le> SEQ_NO_MASK"
  by (simp add: word_and_le1)

lemma rep_count_inc: "r < MAX_REP_COUNT \<Longrightarrow> r + 1 \<le> MAX_REP_COUNT"
  by (simp add: MAX_REP_COUNT_def word_less_nat_alt word_le_nat_alt unat_word_ariths)

lemma tl_inv_new: "tl_inv tl_new"
  by (simp add: tl_inv_def tl_new_def SEQ_NO_MASK_def MAX_REP_COUNT_def)

named_theorems inv_intros "the actions keep the invariant of the transport layer"

lemma inv_disconnect [inv_intros]:
  "tl_inv s \<Longrightarrow> tl_inv (goto Closed (active_disconnect s))"
  "tl_inv s \<Longrightarrow> tl_inv (goto Closed (a5_passive_disconnect a s))"
  "tl_inv s \<Longrightarrow> tl_inv (goto Closed (active_disconnect (s\<lparr>connection_timeout_deadline := t\<rparr>)))"
  "tl_inv s \<Longrightarrow> tl_inv (goto Closed (active_disconnect (s\<lparr>ack_timeout_deadline := t\<rparr>)))"
  by (simp_all add: tl_inv_def tl_actions Let_def)

lemma inv_push [inv_intros]: "tl_inv s \<Longrightarrow> tl_inv (push a s)" "tl_inv s \<Longrightarrow> tl_inv (a10_reject_foreign b s)"
  by (simp_all add: tl_inv_def tl_actions)

lemma inv_connect [inv_intros]:
  "tl_inv s \<Longrightarrow> state s = Closed \<Longrightarrow> tl_inv (a1_accept_connection a now s)"
  "tl_inv s \<Longrightarrow> state s = Closed \<Longrightarrow> tl_inv (goto Connecting (a12_initiate_connection a now s))"
  "tl_inv s \<Longrightarrow> state s = Connecting \<Longrightarrow> tl_inv (goto OpenIdle (push b s))"
  by (auto simp: tl_inv_def tl_actions Let_def SEQ_NO_MASK_def)

lemma inv_receive [inv_intros]:
  "tl_inv s \<Longrightarrow> state s \<noteq> Closed \<Longrightarrow> tl_inv (a2_receive_data a p d now s)"
  "tl_inv s \<Longrightarrow> state s \<noteq> Closed \<Longrightarrow> tl_inv (a3_ack_repeated a q now s)"
  "tl_inv s \<Longrightarrow> state s \<noteq> Closed \<Longrightarrow> tl_inv (a4_nack_wrong_seq a q now s)"
  by (auto simp: tl_inv_def tl_actions Let_def seq_mask_le)

lemma inv_send [inv_intros]:
  "tl_inv s \<Longrightarrow> state s = OpenWait \<Longrightarrow> tl_inv (goto OpenIdle (a8_ack_received now s))"
  "tl_inv s \<Longrightarrow> state s = OpenWait \<Longrightarrow> rep_count s < MAX_REP_COUNT \<Longrightarrow> tl_inv (a9_retransmit now s)"
  "tl_inv s \<Longrightarrow> state s = OpenWait \<Longrightarrow> rep_count s < MAX_REP_COUNT \<Longrightarrow>
     tl_inv (a9_retransmit now (s\<lparr>ack_timeout_deadline := None\<rparr>))"
  by (auto simp: tl_inv_def tl_actions Let_def seq_mask_le rep_count_inc)

lemma inv_new_frame [inv_intros]:
  "tl_inv s \<Longrightarrow> state s = OpenIdle \<Longrightarrow> tl_inv (goto OpenWait (a7_send_data p d now s))"
  by (auto simp: tl_inv_def tl_actions Let_def MAX_REP_COUNT_def)

lemma inv_buffer [inv_intros]:
  "tl_inv s \<Longrightarrow> tl_inv (s\<lparr>buffered_request := r\<rparr>)" "tl_inv s \<Longrightarrow> tl_inv (s\<lparr>actions := as\<rparr>)"
  by (simp_all add: tl_inv_def)

lemma inv_timeout: "tl_inv s \<Longrightarrow> due (connection_timeout_deadline s) now \<Longrightarrow> state s \<noteq> Closed"
  by (auto simp: tl_inv_def due_def)

lemma tl_inv_step: "tl_inv s \<Longrightarrow> tl_inv (tl_step e s)"
  by (cases e)
    (auto simp: tl_handlers take_actions_def Let_def dest: inv_timeout
      intro: inv_intros split: State.splits option.splits)

text \<open>
  C31: every state that any sequence of calls of the public interface can
  reach satisfies the invariant \<open>tl_inv\<close>.
\<close>
theorem transport_invariant:
  assumes "tl_reachable s"
  shows "tl_inv s"
  using assms by induction (auto simp: tl_inv_new tl_inv_step)

section \<open>Actions of one call\<close>

definition emitted :: "tl_event \<Rightarrow> TransportLayer \<Rightarrow> Action list" where
  "emitted e s = drop (length (actions s)) (actions (tl_step e s))"

fun is_send :: "Action \<Rightarrow> bool" where
  "is_send (SendDataConnected _ _ _ _) = True" | "is_send _ = False"

fun frame_action :: "SavedFrame \<Rightarrow> Action" where
  "frame_action f = SendDataConnected (sf_destination f) (sf_seq_no f) (sf_priority f) (sf_apdu f)"

text \<open>
  C32: the application layer is given connected data exactly when a data telegram
  of the connected peer arrives in an open state with the expected sequence number; the
  expected number then advances modulo 16 and the acknowledgement goes out before the data is
  handed over. A repetition of the previous telegram is acknowledged and not delivered again.
\<close>
theorem delivery_exact:
  "(DataConnectedIndication a p d \<in> set (emitted e s) \<longleftrightarrow>
     (\<exists>q now. e = EvDataInd a q p d now \<and> a = connection_address s \<and> q = seq_no_recv s \<and>
        state s \<in> {OpenIdle, OpenWait})) \<and>
   (state s \<in> {OpenIdle, OpenWait} \<longrightarrow>
     emitted (EvDataInd (connection_address s) (seq_no_recv s) p d now) s =
       [SendControl (connection_address s) Ack (seq_no_recv s), DataConnectedIndication (connection_address s) p d] \<and>
     seq_no_recv (tl_step (EvDataInd (connection_address s) (seq_no_recv s) p d now) s) = (seq_no_recv s + 1) AND SEQ_NO_MASK \<and>
     (q = (seq_no_recv s - 1) AND SEQ_NO_MASK \<and> q \<noteq> seq_no_recv s \<longrightarrow>
       emitted (EvDataInd (connection_address s) q p d now) s = [SendControl (connection_address s) Ack q]))"
proof
  show "DataConnectedIndication a p d \<in> set (emitted e s) \<longleftrightarrow>
     (\<exists>q now. e = EvDataInd a q p d now \<and> a = connection_address s \<and> q = seq_no_recv s \<and>
        state s \<in> {OpenIdle, OpenWait})"
    by (cases e)
      (auto simp: emitted_def tl_handlers tl_actions take_actions_def Let_def
        split: State.splits option.splits if_splits)
qed (auto simp: emitted_def data_connected_indication_def tl_actions Let_def)

lemma delivery_exact_witness:
  "emitted (EvDataInd (IndividualAddress 7) 0 Low [1, 2] 10) (connect_indication (IndividualAddress 7) 0 tl_new) =
    [SendControl (IndividualAddress 7) Ack 0, DataConnectedIndication (IndividualAddress 7) Low [1, 2]]"
proof -
  let ?s = "connect_indication (IndividualAddress 7) 0 tl_new"
  have "state ?s = OpenIdle" "connection_address ?s = IndividualAddress 7" "seq_no_recv ?s = 0"
    by (simp_all add: connect_indication_def tl_actions tl_new_def)
  with delivery_exact [of "IndividualAddress 7" Low "[1, 2]" EvTake ?s 10 0] show ?thesis by simp
qed

section \<open>Retransmission\<close>

fun tl_run :: "tl_event list \<Rightarrow> TransportLayer \<Rightarrow> TransportLayer \<times> Action list" where
  "tl_run [] s = (s, [])"
| "tl_run (e # es) s = (let (s', acts) = tl_run es (tl_step e s) in (s', emitted e s @ acts))"

fun waits_through :: "tl_event list \<Rightarrow> TransportLayer \<Rightarrow> bool" where
  "waits_through [] s \<longleftrightarrow> state s = OpenWait"
| "waits_through (e # es) s \<longleftrightarrow> state s = OpenWait \<and> waits_through es (tl_step e s)"

lemma wait_step:
  assumes "tl_inv s" and "state s = OpenWait" and "state (tl_step e s) = OpenWait"
  shows "saved_frame (tl_step e s) = saved_frame s \<and>
    (filter is_send (emitted e s) = [] \<and> rep_count (tl_step e s) = rep_count s \<or>
     filter is_send (emitted e s) = [frame_action (the (saved_frame s))] \<and>
       rep_count s < MAX_REP_COUNT \<and> rep_count (tl_step e s) = rep_count s + 1)"
  using assms
  by (cases e)
    (auto simp: tl_inv_def emitted_def tl_handlers tl_actions take_actions_def Let_def
      split: if_splits option.splits)

lemma rep_count_unat: "r < MAX_REP_COUNT \<Longrightarrow> unat (r + 1) = Suc (unat r)"
  by (simp add: MAX_REP_COUNT_def word_less_nat_alt unat_word_ariths)

lemma wait_run:
  assumes "tl_inv s" and "waits_through es s"
  shows "filter is_send (snd (tl_run es s)) =
      replicate (unat (rep_count (fst (tl_run es s))) - unat (rep_count s)) (frame_action (the (saved_frame s)))
    \<and> rep_count s \<le> rep_count (fst (tl_run es s)) \<and> tl_inv (fst (tl_run es s))"
  using assms
proof (induction es arbitrary: s)
  case (Cons e es)
  let ?t = "tl_step e s"
  have "state ?t = OpenWait" using Cons.prems(2) by (cases es) auto
  with Cons.prems have step: "saved_frame ?t = saved_frame s"
    "filter is_send (emitted e s) = [] \<and> rep_count ?t = rep_count s \<or>
     filter is_send (emitted e s) = [frame_action (the (saved_frame s))] \<and> rep_count s < MAX_REP_COUNT \<and>
       rep_count ?t = rep_count s + 1"
    using wait_step [of s e] by auto
  have IH: "filter is_send (snd (tl_run es ?t)) =
      replicate (unat (rep_count (fst (tl_run es ?t))) - unat (rep_count ?t)) (frame_action (the (saved_frame ?t)))
    \<and> rep_count ?t \<le> rep_count (fst (tl_run es ?t)) \<and> tl_inv (fst (tl_run es ?t))"
    using Cons.IH [of ?t] Cons.prems tl_inv_step [of s e] by auto
  from step(2) show ?case
  proof (elim disjE conjE)
    assume a: "filter is_send (emitted e s) = [frame_action (the (saved_frame s))]"
      and r: "rep_count s < MAX_REP_COUNT" "rep_count ?t = rep_count s + 1"
    have "Suc (unat (rep_count s)) \<le> unat (rep_count (fst (tl_run es ?t)))"
      using IH r rep_count_unat [OF r(1)] by (metis word_le_nat_alt)
    with IH a r step(1) rep_count_unat [OF r(1)] show ?thesis
      by (auto simp: split_beta word_le_nat_alt Suc_diff_le simp flip: replicate_Suc)
  qed (use IH step(1) in \<open>auto simp: split_beta\<close>)
qed simp

text \<open>
  C33: once the application's data is accepted in \<open>OpenIdle\<close>, then
  through any calls that leave the layer waiting for its acknowledgement the data telegrams
  sent are copies of that one telegram, addressed to the peer with the current sequence number,
  and there are at most four of them.
\<close>
theorem at_most_four_transmissions:
  assumes "tl_reachable s" and "state s = OpenIdle"
    and "waits_through es (tl_step (EvDataReq p d now) s)"
  shows "\<exists>n \<le> 4. filter is_send (snd (tl_run (EvDataReq p d now # es) s)) =
    replicate n (SendDataConnected (connection_address s) (seq_no_send s) p d) \<and> 0 < n"
proof -
  let ?t = "tl_step (EvDataReq p d now) s"
  from assms(1) have inv: "tl_inv s"
    by induction (auto simp: tl_inv_new tl_inv_step)
  have t: "filter is_send (emitted (EvDataReq p d now) s) = [SendDataConnected (connection_address s) (seq_no_send s) p d]"
    "saved_frame ?t = Some \<lparr>sf_destination = connection_address s, sf_seq_no = seq_no_send s, sf_priority = p, sf_apdu = d\<rparr>"
    using assms(2) by (simp_all add: emitted_def data_connected_request_def tl_actions Let_def)
  have w: "filter is_send (snd (tl_run es ?t)) = replicate (unat (rep_count (fst (tl_run es ?t))) - unat (rep_count ?t))
      (SendDataConnected (connection_address s) (seq_no_send s) p d)" "tl_inv (fst (tl_run es ?t))"
    using wait_run [OF tl_inv_step [OF inv] assms(3)] t(2) by auto
  have "unat (rep_count (fst (tl_run es ?t))) \<le> 3"
    using w(2) by (simp add: tl_inv_def MAX_REP_COUNT_def word_le_nat_alt)
  with t(1) w(1) show ?thesis
    by (intro exI [of _ "Suc (unat (rep_count (fst (tl_run es ?t))) - unat (rep_count ?t))"])
      (simp add: split_beta)
qed

text \<open>Open a connection, hand over one telegram, time out three times.\<close>

definition sample_open :: TransportLayer where
  "sample_open = connect_indication (IndividualAddress 0x1101) 0 tl_new"

lemma sample_open_reachable: "tl_reachable sample_open"
  using tl_reachable.step [OF tl_reachable.init, of "EvConnectInd (IndividualAddress 0x1101) 0"]
  by (simp add: sample_open_def)

lemma sample_open_idle: "state sample_open = OpenIdle"
  by (simp add: sample_open_def connect_indication_def tl_actions tl_new_def)

lemma sample_waits: "waits_through [EvPoll 3000, EvPoll 6000] (tl_step (EvDataReq Low [1] 0) sample_open)"
  by (simp add: sample_open_def tl_handlers tl_actions tl_new_def due_def Let_def
      CONNECTION_TIMEOUT_MS_def ACK_TIMEOUT_MS_def MAX_REP_COUNT_def)

lemma at_most_four_transmissions_witness:
  "\<exists>n \<le> 4. filter is_send (snd (tl_run [EvDataReq Low [1] 0, EvPoll 3000, EvPoll 6000] sample_open)) =
    replicate n (SendDataConnected (connection_address sample_open) (seq_no_send sample_open) Low [1])"
  using at_most_four_transmissions [OF sample_open_reachable sample_open_idle sample_waits] by blast

section \<open>A silent peer\<close>

fun all_due :: "u64 list \<Rightarrow> TransportLayer \<Rightarrow> bool" where
  "all_due [] s \<longleftrightarrow> True"
| "all_due (t # ts) s \<longleftrightarrow> (state s = OpenWait \<longrightarrow> due (ack_timeout_deadline s) t \<or>
     due (connection_timeout_deadline s) t) \<and> all_due ts (tl_poll t s)"

lemma poll_closed: "tl_inv s \<Longrightarrow> state s = Closed \<Longrightarrow> tl_poll t s = s"
  by (auto simp: tl_poll_def tl_inv_def due_def split: option.splits)

lemma polls_closed: "tl_inv s \<Longrightarrow> state s = Closed \<Longrightarrow> fold tl_poll ts s = s"
  by (induction ts) (simp_all add: poll_closed)

lemma poll_due:
  assumes "tl_inv s" and "state s = OpenWait"
    and "due (ack_timeout_deadline s) t \<or> due (connection_timeout_deadline s) t"
  shows "state (tl_poll t s) = Closed \<and>
      actions (tl_poll t s) = actions s @ [SendControl (connection_address s) Disconnect 0,
        DisconnectIndication (connection_address s)] \<and> connection_address (tl_poll t s) = connection_address s \<or>
    state (tl_poll t s) = OpenWait \<and> rep_count s < MAX_REP_COUNT \<and> rep_count (tl_poll t s) = rep_count s + 1 \<and>
      connection_address (tl_poll t s) = connection_address s"
  using assms by (auto simp: tl_poll_def tl_actions Let_def split: option.splits)

lemma silent_peer_gen:
  assumes "tl_inv s" and "state s = OpenWait" and "all_due ts s" and "4 \<le> length ts + unat (rep_count s)"
  shows "state (fold tl_poll ts s) = Closed \<and> (\<exists>as. actions (fold tl_poll ts s) =
    as @ [SendControl (connection_address s) Disconnect 0, DisconnectIndication (connection_address s)])"
  using assms
proof (induction ts arbitrary: s)
  case Nil
  then show ?case by (simp add: tl_inv_def MAX_REP_COUNT_def word_le_nat_alt)
next
  case (Cons t ts)
  have inv: "tl_inv (tl_poll t s)" using tl_inv_step [OF Cons.prems(1), of "EvPoll t"] by simp
  from Cons.prems have "due (ack_timeout_deadline s) t \<or> due (connection_timeout_deadline s) t" by simp
  from poll_due [OF Cons.prems(1,2) this] show ?case
  proof (elim disjE conjE)
    assume "rep_count s < MAX_REP_COUNT" "rep_count (tl_poll t s) = rep_count s + 1"
      "state (tl_poll t s) = OpenWait" "connection_address (tl_poll t s) = connection_address s"
    with Cons.IH [OF inv] Cons.prems rep_count_unat show ?thesis by simp
  qed (use polls_closed [OF inv] in simp)
qed

text \<open>
  when the peer never answers, four polls each made after the pending
  deadline close the connection: the layer ends in \<open>Closed\<close>, its last two actions being the
  disconnect telegram to the peer and the notification of the application layer. The connection
  can not stay in \<open>OpenWait\<close> for ever.
\<close>
lemma silent_peer_closes:
  assumes "tl_reachable s" and "state s = OpenWait" and "all_due ts s" and "4 \<le> length ts"
  shows "state (fold tl_poll ts s) = Closed \<and> (\<exists>as. actions (fold tl_poll ts s) =
    as @ [SendControl (connection_address s) Disconnect 0, DisconnectIndication (connection_address s)])"
proof -
  from assms(1) have "tl_inv s" by induction (auto simp: tl_inv_new tl_inv_step)
  from silent_peer_gen [OF this assms(2,3)] assms(4) show ?thesis by simp
qed

section \<open>Requests kept across connections\<close>

text \<open>
  a request buffered while one connection waits for its
  acknowledgement is not dropped when that connection ends; after another device has connected,
  the next poll sends it to that device.
\<close>
lemma stale_request_crosses:
  assumes "tl_reachable s" and "state s = OpenWait" and "t < t + CONNECTION_TIMEOUT_MS"
  shows "emitted (EvPoll t) (tl_step (EvConnectInd other t) (tl_step EvDisconnectReq (tl_step (EvDataReq p d now) s)))
    = [SendDataConnected other 0 p d]"
  using assms
  by (simp add: emitted_def tl_handlers tl_actions Let_def due_def not_le)

lemma transport_invariant_witness: "tl_inv sample_open"
  by (rule transport_invariant [OF sample_open_reachable])

end
