(* ===== verification/Transport_Link.thy ===== *)
theory Transport_Link
  imports Transport
begin

text \<open>
  Two transport layers of \<open>transport_layer.rs\<close> joined by two channels that may lose telegrams but
  keep their order, both sending and receiving. The abstract specification is a pair of logs:
  what a side has sent, what the other has handed to its application, and how many telegrams
  the sender has been told are acknowledged. \<open>link_step\<close> is one call on one side (a request, a
  poll, a disconnect, the receipt of the next telegram) or one loss. The invariant \<open>dir_inv\<close> relates
  sequence numbers modulo 16 to absolute positions in the logs.
\<close>

section \<open>Nodes and channels\<close>

datatype wire = WData u8 Priority "u8 list" | WCtl TpduType u8

fun wire_of :: "Action \<Rightarrow> wire list" where
  "wire_of (SendDataConnected _ q p d) = [WData q p d]"
| "wire_of (SendControl _ t q) = [WCtl t q]"
| "wire_of _ = []"

fun delivery_of :: "Action \<Rightarrow> (Priority \<times> u8 list) list" where
  "delivery_of (DataConnectedIndication _ p d) = [(p, d)]" | "delivery_of _ = []"

fun send_of :: "Action \<Rightarrow> (Priority \<times> u8 list) list" where
  "send_of (SendDataConnected _ _ p d) = [(p, d)]" | "send_of _ = []"

fun confirm_of :: "Action \<Rightarrow> nat" where
  "confirm_of DataConnectedConfirm = 1" | "confirm_of _ = 0"

text \<open>A received transport PDU is handed to the method of its type.\<close>

fun tl_receive :: "IndividualAddress \<Rightarrow> wire \<Rightarrow> u64 \<Rightarrow> TransportLayer \<Rightarrow> TransportLayer" where
  "tl_receive src (WData q p d) now s = data_connected_indication src q p d now s"
| "tl_receive src (WCtl t q) now s =
     (case t of Connect \<Rightarrow> connect_indication src now s
      | Disconnect \<Rightarrow> disconnect_indication src s
      | Ack \<Rightarrow> ack_indication src q now s
      | Nack \<Rightarrow> nack_indication src q now s
      | _ \<Rightarrow> s)"

record node =
  peer :: IndividualAddress
  layer :: TransportLayer
  sent :: "(Priority \<times> u8 list) list"
  delivered :: "(Priority \<times> u8 list) list"
  confirmed :: nat

text \<open>
  One call: the actions are taken from the queue, the telegrams go to the channel, deliveries
  and confirmations to the logs. A telegram counts as sent when it is first transmitted.
\<close>

definition node_call :: "(TransportLayer \<Rightarrow> TransportLayer) \<Rightarrow> node \<Rightarrow> node \<times> wire list" where
  "node_call f n =
     (let (s, acts) = take_actions (f (layer n)) in
      (n\<lparr>layer := s,
         sent := sent n @ (if state (layer n) = OpenIdle then concat (map send_of acts) else []),
         delivered := delivered n @ concat (map delivery_of acts),
         confirmed := confirmed n + sum_list (map confirm_of acts)\<rparr>,
       concat (map wire_of acts)))"

datatype local_call = LReq Priority "u8 list" u64 | LPoll u64 | LDisc

fun local_op :: "local_call \<Rightarrow> TransportLayer \<Rightarrow> TransportLayer" where
  "local_op (LReq p d now) = data_connected_request p d now"
| "local_op (LPoll now) = tl_poll now"
| "local_op LDisc = disconnect_request"

record link =
  side_a :: node
  side_b :: node
  chan_ab :: "wire list"
  chan_ba :: "wire list"

definition swap_link :: "link \<Rightarrow> link" where
  "swap_link l = \<lparr>side_a = side_b l, side_b = side_a l, chan_ab = chan_ba l, chan_ba = chan_ab l\<rparr>"

text \<open>The steps of side A; those of side B are the same with the sides swapped.\<close>

inductive half_step :: "link \<Rightarrow> link \<Rightarrow> bool" where
  call: "node_call (local_op c) (side_a l) = (n, out) \<Longrightarrow>
    half_step l (l\<lparr>side_a := n, chan_ab := chan_ab l @ out\<rparr>)"
| receive: "chan_ba l = w # rest \<Longrightarrow> node_call (tl_receive (peer (side_a l)) w now) (side_a l) = (n, out) \<Longrightarrow>
    half_step l (l\<lparr>side_a := n, chan_ba := rest, chan_ab := chan_ab l @ out\<rparr>)"
| lose: "chan_ab l = xs @ w # ys \<Longrightarrow> half_step l (l\<lparr>chan_ab := xs @ ys\<rparr>)"

definition link_step :: "link \<Rightarrow> link \<Rightarrow> bool" where
  "link_step l l' \<longleftrightarrow> half_step l l' \<or> half_step (swap_link l) (swap_link l')"

text \<open>Side A has connected to side B, and B has accepted.\<close>

definition link_start :: "IndividualAddress \<Rightarrow> IndividualAddress \<Rightarrow> u64 \<Rightarrow> link" where
  "link_start a b now =
     \<lparr>side_a = \<lparr>peer = b, layer = fst (take_actions (connect_confirm True (connect_request b now tl_new))),
        sent = [], delivered = [], confirmed = 0\<rparr>,
      side_b = \<lparr>peer = a, layer = fst (take_actions (connect_indication a now tl_new)),
        sent = [], delivered = [], confirmed = 0\<rparr>,
      chan_ab = [], chan_ba = []\<rparr>"

inductive link_reachable :: "link \<Rightarrow> bool" where
  start: "link_reachable (link_start a b now)"
| step: "link_reachable l \<Longrightarrow> link_step l l' \<Longrightarrow> link_reachable l'"

section \<open>Sequence numbers and positions\<close>

definition seq_of :: "nat \<Rightarrow> u8" where
  "seq_of k = of_nat (k mod 16)"

lemma seq_of_0 [simp]: "seq_of 0 = 0"
  by (simp add: seq_of_def)

lemma unat_seq_of: "unat (seq_of k) = k mod 16"
  by (simp add: seq_of_def unat_of_nat)

lemma unat_and_15: "unat (w AND SEQ_NO_MASK) = unat w mod 16" for w :: u8
proof -
  have "w AND SEQ_NO_MASK = take_bit 4 w"
    by (simp add: SEQ_NO_MASK_def take_bit_eq_mask mask_eq_exp_minus_1)
  then have "unat (w AND SEQ_NO_MASK) = take_bit 4 (unat w)"
    by (simp only: unsigned_take_bit_eq)
  then show ?thesis by (simp add: take_bit_eq_mod)
qed

lemma and_15: "w AND SEQ_NO_MASK = of_nat (unat w mod 16)" for w :: u8
  by (rule word_unat_eq_iff [THEN iffD2]) (simp add: unat_and_15 unat_of_nat)

lemma seq_of_Suc: "(seq_of k + 1) AND SEQ_NO_MASK = seq_of (Suc k)"
proof -
  have "unat (seq_of k + 1) = (k mod 16 + 1) mod 256"
    by (simp add: unat_word_ariths unat_seq_of)
  then have "unat (seq_of k + 1) mod 16 = Suc k mod 16"
    by (simp add: mod_mod_cancel mod_Suc_eq)
  then show ?thesis by (simp add: and_15 seq_of_def)
qed

lemma seq_of_pred: "(seq_of (Suc k) - 1) AND SEQ_NO_MASK = seq_of k"
proof (cases "k mod 16 = 15")
  case True
  then show ?thesis by (simp add: seq_of_def mod_Suc SEQ_NO_MASK_def)
next
  case False
  then have "seq_of (Suc k) - 1 = of_nat (k mod 16)"
    by (simp add: seq_of_def mod_Suc)
  then show ?thesis by (simp add: and_15 unat_of_nat) (simp add: seq_of_def)
qed

lemma seq_of_neq: "seq_of (Suc k) \<noteq> seq_of k"
proof
  assume "seq_of (Suc k) = seq_of k"
  from arg_cong [where f = unat, OF this] show False
    by (simp add: unat_seq_of mod_Suc split: if_splits)
qed

lemma seq_of_close: "m \<le> Suc j \<Longrightarrow> j \<le> m \<Longrightarrow> seq_of j = seq_of m \<longleftrightarrow> j = m"
  using seq_of_neq [of j] by (metis le_SucE le_antisym)

section \<open>What one call does to the two directions\<close>

fun is_data :: "wire \<Rightarrow> bool" where
  "is_data (WData _ _ _) = True" | "is_data (WCtl _ _) = False"

fun is_ack :: "wire \<Rightarrow> bool" where
  "is_ack (WCtl t _) = (t = Ack)" | "is_ack (WData _ _ _) = False"

text \<open>A node in an established or ended session.\<close>

definition node_ok :: "node \<Rightarrow> bool" where
  "node_ok n \<longleftrightarrow> actions (layer n) = [] \<and> connection_address (layer n) = peer n \<and> state (layer n) \<noteq> Connecting"

text \<open>As a sender: nothing new, a new telegram, a retransmission, or a confirmation.\<close>

definition sender_effect :: "wire list \<Rightarrow> node \<Rightarrow> node \<Rightarrow> wire list \<Rightarrow> bool" where
  "sender_effect w n n' out \<longleftrightarrow> (let s = layer n; s' = layer n' in
     (filter is_data out = [] \<and> sent n' = sent n \<and> confirmed n' = confirmed n \<and>
        seq_no_send s' = seq_no_send s \<and> saved_frame s' = saved_frame s \<and> state s' \<in> {state s, Closed})
   \<or> (\<exists>p d. filter is_data out = [WData (seq_no_send s) p d] \<and> sent n' = sent n @ [(p, d)] \<and>
        confirmed n' = confirmed n \<and> seq_no_send s' = seq_no_send s \<and> state s = OpenIdle \<and> state s' = OpenWait \<and>
        saved_frame s' = Some \<lparr>sf_destination = peer n, sf_seq_no = seq_no_send s, sf_priority = p, sf_apdu = d\<rparr>)
   \<or> (filter is_data out = map (\<lambda>f. WData (sf_seq_no f) (sf_priority f) (sf_apdu f))
            (case saved_frame s of None \<Rightarrow> [] | Some f \<Rightarrow> [f]) \<and> sent n' = sent n \<and> confirmed n' = confirmed n \<and>
        seq_no_send s' = seq_no_send s \<and> saved_frame s' = saved_frame s \<and> state s = OpenWait \<and> state s' = OpenWait)
   \<or> (filter is_data out = [] \<and> w = [WCtl Ack (seq_no_send s)] \<and> sent n' = sent n \<and>
        confirmed n' = Suc (confirmed n) \<and> seq_no_send s' = (seq_no_send s + 1) AND SEQ_NO_MASK \<and>
        state s = OpenWait \<and> state s' = OpenIdle))"

text \<open>As a receiver: nothing, a delivery, or the acknowledgement of a repetition.\<close>

definition receiver_effect :: "wire list \<Rightarrow> node \<Rightarrow> node \<Rightarrow> wire list \<Rightarrow> bool" where
  "receiver_effect w n n' out \<longleftrightarrow> (let s = layer n; s' = layer n' in
     (filter is_ack out = [] \<and> delivered n' = delivered n \<and> seq_no_recv s' = seq_no_recv s)
   \<or> (\<exists>p d. w = [WData (seq_no_recv s) p d] \<and> filter is_ack out = [WCtl Ack (seq_no_recv s)] \<and>
        delivered n' = delivered n @ [(p, d)] \<and> seq_no_recv s' = (seq_no_recv s + 1) AND SEQ_NO_MASK)
   \<or> (\<exists>p d q. w = [WData q p d] \<and> q = (seq_no_recv s - 1) AND SEQ_NO_MASK \<and> filter is_ack out = [WCtl Ack q] \<and>
        delivered n' = delivered n \<and> seq_no_recv s' = seq_no_recv s))"

lemmas effect_defs = sender_effect_def receiver_effect_def node_ok_def node_call_def
  take_actions_def Let_def

definition call_ok :: "wire list \<Rightarrow> (TransportLayer \<Rightarrow> TransportLayer) \<Rightarrow> node \<Rightarrow> bool" where
  "call_ok w f n \<longleftrightarrow> (let r = node_call f n in
     sender_effect w n (fst r) (snd r) \<and> receiver_effect w n (fst r) (snd r) \<and> node_ok (fst r) \<and>
     peer (fst r) = peer n \<and> (\<forall>q. WCtl Connect q \<notin> set (snd r)))"

lemma call_ok_request: "node_ok n \<Longrightarrow> call_ok [] (data_connected_request p d now) n"
  by (cases "state (layer n)")
    (simp_all add: call_ok_def effect_defs data_connected_request_def tl_actions)

lemma call_ok_disconnect: "node_ok n \<Longrightarrow> call_ok [] disconnect_request n"
  by (cases "state (layer n)")
    (simp_all add: call_ok_def effect_defs disconnect_request_def tl_actions)

lemma call_ok_poll: "node_ok n \<Longrightarrow> call_ok [] (tl_poll now) n"
  by (cases "state (layer n)")
    (simp_all add: call_ok_def effect_defs tl_poll_def tl_actions split: option.splits)

lemma call_ok_data: "node_ok n \<Longrightarrow> call_ok [WData q p d] (data_connected_indication (peer n) q p d now) n"
  by (cases "state (layer n)")
    (simp_all add: call_ok_def effect_defs data_connected_indication_def tl_actions)

lemma call_ok_ack: "node_ok n \<Longrightarrow> call_ok [WCtl Ack q] (ack_indication (peer n) q now) n"
  by (cases "state (layer n)")
    (simp_all add: call_ok_def effect_defs ack_indication_def tl_actions)

lemma call_ok_nack: "node_ok n \<Longrightarrow> call_ok [WCtl Nack q] (nack_indication (peer n) q now) n"
  by (cases "state (layer n)")
    (simp_all add: call_ok_def effect_defs nack_indication_def tl_actions split: option.splits)

lemma call_ok_disconnected: "node_ok n \<Longrightarrow> call_ok [WCtl Disconnect q] (disconnect_indication (peer n)) n"
  by (cases "state (layer n)")
    (simp_all add: call_ok_def effect_defs disconnect_indication_def tl_actions)

lemma call_ok_nothing: "node_ok n \<Longrightarrow> call_ok w id n"
  by (cases "state (layer n)") (simp_all add: call_ok_def effect_defs)

lemma call_ok_local: "node_ok n \<Longrightarrow> call_ok [] (local_op c) n"
proof (cases c)
  case LReq
  assume "node_ok n"
  from call_ok_request [OF this] show ?thesis by (simp add: LReq fun_eq_iff call_ok_def node_call_def)
next
  case LPoll
  assume "node_ok n"
  from call_ok_poll [OF this] show ?thesis by (simp add: LPoll call_ok_def node_call_def)
next
  case LDisc
  assume "node_ok n"
  from call_ok_disconnect [OF this] show ?thesis by (simp add: LDisc call_ok_def node_call_def)
qed

lemma call_ok_receive:
  assumes "node_ok n" and "\<forall>q. w \<noteq> WCtl Connect q"
  shows "call_ok [w] (tl_receive (peer n) w now) n"
proof (cases w)
  case (WData q p d)
  with call_ok_data [OF assms(1), of q p d now] show ?thesis by (simp add: call_ok_def node_call_def)
next
  case (WCtl t q)
  with call_ok_ack [OF assms(1), of q now] call_ok_nack [OF assms(1), of q now]
    call_ok_disconnected [OF assms(1), of q] call_ok_nothing [OF assms(1), of "[w]"] assms(2)
  show ?thesis by (cases t) (simp_all add: call_ok_def node_call_def)
qed

section \<open>The invariant of one direction\<close>

definition data_wire :: "(Priority \<times> u8 list) list \<Rightarrow> nat \<Rightarrow> wire" where
  "data_wire snt k = WData (seq_of k) (fst (snt ! k)) (snd (snt ! k))"

text \<open>
  The data telegrams under way are copies of the last delivered or the next telegram, oldest
  first; the acknowledgements under way are for the last confirmed or the next telegram.
\<close>

definition frames_ok :: "(Priority \<times> u8 list) list \<Rightarrow> nat \<Rightarrow> wire list \<Rightarrow> bool" where
  "frames_ok snt d ws \<longleftrightarrow> (\<exists>ks. filter is_data ws = map (data_wire snt) ks \<and> sorted ks \<and>
     (\<forall>k\<in>set ks. d \<le> Suc k \<and> k < length snt))"

definition acks_ok :: "nat \<Rightarrow> nat \<Rightarrow> wire list \<Rightarrow> bool" where
  "acks_ok c d ws \<longleftrightarrow> (\<exists>js. filter is_ack ws = map (\<lambda>j. WCtl Ack (seq_of j)) js \<and> sorted js \<and>
     (\<forall>j\<in>set js. c \<le> Suc j \<and> j < d))"

definition window :: "node \<Rightarrow> node \<Rightarrow> bool" where
  "window X Y \<longleftrightarrow> (let c = confirmed X; d = length (delivered Y); n = length (sent X) in
     c \<le> d \<and> d \<le> n \<and> n \<le> Suc c \<and> delivered Y = take d (sent X) \<and>
     seq_no_send (layer X) = seq_of c \<and> seq_no_recv (layer Y) = seq_of d \<and>
     (state (layer X) = OpenIdle \<longrightarrow> n = c) \<and>
     (state (layer X) = OpenWait \<longrightarrow> n = Suc c \<and> saved_frame (layer X) =
        Some \<lparr>sf_destination = peer X, sf_seq_no = seq_of c, sf_priority = fst (sent X ! c), sf_apdu = snd (sent X ! c)\<rparr>))"

definition dir_inv :: "node \<Rightarrow> node \<Rightarrow> wire list \<Rightarrow> wire list \<Rightarrow> bool" where
  "dir_inv X Y xy yx \<longleftrightarrow> window X Y \<and> frames_ok (sent X) (length (delivered Y)) xy \<and>
     acks_ok (confirmed X) (length (delivered Y)) yx"

lemma frames_ok_sub:
  assumes "frames_ok snt d (xs @ zs @ ys)"
  shows "frames_ok snt d (xs @ ys)"
proof -
  from assms obtain ks where k: "filter is_data xs @ filter is_data zs @ filter is_data ys = map (data_wire snt) ks"
    "sorted ks" "\<forall>k\<in>set ks. d \<le> Suc k \<and> k < length snt"
    by (auto simp: frames_ok_def)
  from k(1) obtain k1 k2 k3 where "ks = k1 @ k2 @ k3" "filter is_data xs = map (data_wire snt) k1"
    "filter is_data ys = map (data_wire snt) k3"
    by (auto simp: append_eq_map_conv)
  with k show ?thesis
    by (auto simp: frames_ok_def sorted_append intro!: exI [of _ "k1 @ k3"])
qed

lemma acks_ok_sub:
  assumes "acks_ok c d (xs @ zs @ ys)"
  shows "acks_ok c d (xs @ ys)"
proof -
  let ?w = "\<lambda>j. WCtl Ack (seq_of j)"
  from assms obtain js where j: "filter is_ack xs @ filter is_ack zs @ filter is_ack ys = map ?w js"
    "sorted js" "\<forall>j\<in>set js. c \<le> Suc j \<and> j < d"
    by (auto simp: acks_ok_def)
  from j(1) obtain j1 j2 j3 where "js = j1 @ j2 @ j3" "filter is_ack xs = map ?w j1" "filter is_ack ys = map ?w j3"
    by (auto simp: append_eq_map_conv)
  with j show ?thesis
    by (auto simp: acks_ok_def sorted_append intro!: exI [of _ "j1 @ j3"])
qed

lemma frames_ok_push:
  assumes "frames_ok snt d ws" and "filter is_data out = [data_wire snt k]" and "d \<le> Suc k" and "length snt = Suc k"
  shows "frames_ok snt d (ws @ out)"
proof -
  from assms(1) obtain ks where "filter is_data ws = map (data_wire snt) ks" "sorted ks"
    "\<forall>k\<in>set ks. d \<le> Suc k \<and> k < length snt"
    by (auto simp: frames_ok_def)
  with assms(2-) show ?thesis
    by (auto simp: frames_ok_def sorted_append less_Suc_eq_le intro!: exI [of _ "ks @ [k]"])
qed

lemma frames_ok_nothing: "filter is_data out = [] \<Longrightarrow> frames_ok snt d (ws @ out) = frames_ok snt d ws"
  by (simp add: frames_ok_def)

lemma acks_ok_nothing: "filter is_ack out = [] \<Longrightarrow> acks_ok c d (ws @ out) = acks_ok c d ws"
  by (simp add: acks_ok_def)

lemma frames_ok_snoc:
  assumes "frames_ok snt d ws"
  shows "frames_ok (snt @ [x]) d ws"
proof -
  from assms obtain ks where k: "filter is_data ws = map (data_wire snt) ks" "sorted ks"
    "\<forall>k\<in>set ks. d \<le> Suc k \<and> k < length snt"
    by (auto simp: frames_ok_def)
  then have "map (data_wire snt) ks = map (data_wire (snt @ [x])) ks"
    by (simp add: data_wire_def nth_append)
  with k show ?thesis
    by (auto simp: frames_ok_def intro!: exI [of _ ks])
qed

lemma acks_ok_push:
  assumes "acks_ok c d ws" and "filter is_ack out = [WCtl Ack (seq_of j)]" and "c \<le> Suc j" and "j < e" and "d \<le> e" and "d \<le> Suc j"
  shows "acks_ok c e (ws @ out)"
proof -
  from assms(1) obtain js where "filter is_ack ws = map (\<lambda>j. WCtl Ack (seq_of j)) js" "sorted js"
    "\<forall>j\<in>set js. c \<le> Suc j \<and> j < d"
    by (auto simp: acks_ok_def)
  moreover from this assms(5,6) have "\<forall>i\<in>set js. i \<le> j \<and> i < e" by fastforce
  ultimately show ?thesis
    using assms(2-4) by (auto simp: acks_ok_def sorted_append intro!: exI [of _ "js @ [j]"])
qed

section \<open>Preservation\<close>

lemma frames_ok_head:
  assumes "frames_ok snt d (WData q p e # ws)"
  obtains k where "q = seq_of k" "p = fst (snt ! k)" "e = snd (snt ! k)" "d \<le> Suc k" "k < length snt"
    "k = d \<longrightarrow> frames_ok snt (Suc d) ws"
proof -
  from assms obtain k ks where k: "WData q p e = data_wire snt k" "filter is_data ws = map (data_wire snt) ks"
    "sorted (k # ks)" "\<forall>i\<in>set (k # ks). d \<le> Suc i \<and> i < length snt"
    by (auto simp: frames_ok_def)
  then have "k = d \<Longrightarrow> frames_ok snt (Suc d) ws"
    by (auto simp: frames_ok_def intro!: exI [of _ ks])
  with k that [of k] show ?thesis by (auto simp: data_wire_def)
qed

lemma acks_ok_head:
  assumes "acks_ok c d (WCtl Ack q # ws)"
  obtains j where "q = seq_of j" "c \<le> Suc j" "j < d" "j = c \<longrightarrow> acks_ok (Suc c) d ws"
proof -
  from assms obtain j js where j: "q = seq_of j" "filter is_ack ws = map (\<lambda>j. WCtl Ack (seq_of j)) js"
    "sorted (j # js)" "\<forall>i\<in>set (j # js). c \<le> Suc i \<and> i < d"
    by (auto simp: acks_ok_def)
  then have "j = c \<Longrightarrow> acks_ok (Suc c) d ws"
    by (auto simp: acks_ok_def intro!: exI [of _ js])
  with j that [of j] show ?thesis by auto
qed

lemma sender_preserves:
  assumes "dir_inv X Y xy (w @ yx)" and "sender_effect w X X' out" and "peer X' = peer X"
  shows "dir_inv X' Y (xy @ out) yx"
proof -
  from assms(1) have W: "window X Y" and F: "frames_ok (sent X) (length (delivered Y)) xy"
    and A: "acks_ok (confirmed X) (length (delivered Y)) (w @ yx)"
    by (auto simp: dir_inv_def)
  have A': "acks_ok (confirmed X) (length (delivered Y)) yx"
    using acks_ok_sub [of _ _ "[]" w yx] A by simp
  from assms(2) show ?thesis
    unfolding sender_effect_def Let_def
  proof (elim disjE conjE exE)
    assume "filter is_data out = []" "sent X' = sent X" "confirmed X' = confirmed X"
      "seq_no_send (layer X') = seq_no_send (layer X)" "saved_frame (layer X') = saved_frame (layer X)"
      "state (layer X') \<in> {state (layer X), Closed}"
    with W F A' assms(3) show ?thesis
      by (auto simp: dir_inv_def window_def Let_def frames_ok_nothing)
  next
    fix p d
    assume e: "filter is_data out = [WData (seq_no_send (layer X)) p d]" "sent X' = sent X @ [(p, d)]"
      "confirmed X' = confirmed X" "seq_no_send (layer X') = seq_no_send (layer X)"
      "state (layer X) = OpenIdle" "state (layer X') = OpenWait"
      "saved_frame (layer X') = Some \<lparr>sf_destination = peer X, sf_seq_no = seq_no_send (layer X),
         sf_priority = p, sf_apdu = d\<rparr>"
    with W have c: "length (sent X) = confirmed X" "length (delivered Y) = confirmed X"
      "seq_no_send (layer X) = seq_of (confirmed X)"
      by (auto simp: window_def Let_def)
    have "frames_ok (sent X @ [(p, d)]) (length (delivered Y)) (xy @ out)"
      using e(1) c by (intro frames_ok_push [OF frames_ok_snoc [OF F], where k = "confirmed X"])
        (auto simp: data_wire_def nth_append)
    with W A' assms(3) e c show ?thesis
      by (auto simp: dir_inv_def window_def Let_def nth_append)
  next
    assume e: "filter is_data out = map (\<lambda>f. WData (sf_seq_no f) (sf_priority f) (sf_apdu f))
        (case saved_frame (layer X) of None \<Rightarrow> [] | Some f \<Rightarrow> [f])"
      "sent X' = sent X" "confirmed X' = confirmed X"
      "seq_no_send (layer X') = seq_no_send (layer X)" "saved_frame (layer X') = saved_frame (layer X)"
      "state (layer X) = OpenWait" "state (layer X') = OpenWait"
    with W have c: "length (sent X) = Suc (confirmed X)" "length (delivered Y) \<le> Suc (confirmed X)"
      "filter is_data out = [data_wire (sent X) (confirmed X)]"
      by (auto simp: window_def Let_def data_wire_def)
    from frames_ok_push [OF F c(3,2,1)] W A' assms(3) e show ?thesis
      by (auto simp: dir_inv_def window_def Let_def)
  next
    assume e: "filter is_data out = []" "w = [WCtl Ack (seq_no_send (layer X))]" "sent X' = sent X"
      "confirmed X' = Suc (confirmed X)" "seq_no_send (layer X') = (seq_no_send (layer X) + 1) AND SEQ_NO_MASK"
      "state (layer X) = OpenWait" "state (layer X') = OpenIdle"
    from W e(6) have c: "length (sent X) = Suc (confirmed X)" "length (delivered Y) \<le> Suc (confirmed X)"
      "seq_no_send (layer X) = seq_of (confirmed X)"
      by (auto simp: window_def Let_def)
    from A e(2) have "acks_ok (confirmed X) (length (delivered Y)) (WCtl Ack (seq_no_send (layer X)) # yx)" by simp
    then obtain j where j: "seq_no_send (layer X) = seq_of j" "confirmed X \<le> Suc j" "j < length (delivered Y)"
      "j = confirmed X \<longrightarrow> acks_ok (Suc (confirmed X)) (length (delivered Y)) yx"
      by (rule acks_ok_head)
    with c have "j = confirmed X" using seq_of_close [of "confirmed X" j] by auto
    with j W F assms(3) e c show ?thesis
      by (auto simp: dir_inv_def window_def Let_def frames_ok_nothing seq_of_Suc)
  qed
qed

lemma receiver_preserves:
  assumes "dir_inv Y X (w @ yx) xy" and "receiver_effect w X X' out"
  shows "dir_inv Y X' yx (xy @ out)"
proof -
  from assms(1) have W: "window Y X" and F: "frames_ok (sent Y) (length (delivered X)) (w @ yx)"
    and A: "acks_ok (confirmed Y) (length (delivered X)) xy"
    by (auto simp: dir_inv_def)
  have F': "frames_ok (sent Y) (length (delivered X)) yx"
    using frames_ok_sub [of _ _ "[]" w yx] F by simp
  from W have c: "length (sent Y) \<le> Suc (length (delivered X))" "seq_no_recv (layer X) = seq_of (length (delivered X))"
    "confirmed Y \<le> length (delivered X)" "delivered X = take (length (delivered X)) (sent Y)"
    by (auto simp: window_def Let_def)
  from assms(2) show ?thesis
    unfolding receiver_effect_def Let_def
  proof (elim disjE conjE exE)
    assume "filter is_ack out = []" "delivered X' = delivered X" "seq_no_recv (layer X') = seq_no_recv (layer X)"
    with W F' A show ?thesis
      by (auto simp: dir_inv_def window_def Let_def acks_ok_nothing)
  next
    fix p d
    assume e: "w = [WData (seq_no_recv (layer X)) p d]" "filter is_ack out = [WCtl Ack (seq_no_recv (layer X))]"
      "delivered X' = delivered X @ [(p, d)]" "seq_no_recv (layer X') = (seq_no_recv (layer X) + 1) AND SEQ_NO_MASK"
    from F e(1) have "frames_ok (sent Y) (length (delivered X)) (WData (seq_no_recv (layer X)) p d # yx)" by simp
    then obtain k where k: "seq_no_recv (layer X) = seq_of k" "p = fst (sent Y ! k)" "d = snd (sent Y ! k)"
      "length (delivered X) \<le> Suc k" "k < length (sent Y)"
      "k = length (delivered X) \<longrightarrow> frames_ok (sent Y) (Suc (length (delivered X))) yx"
      by (rule frames_ok_head)
    with c have kd: "k = length (delivered X)" using seq_of_close [of "length (delivered X)" k] by auto
    with k have D: "delivered X' = take (length (delivered X')) (sent Y)" and L: "length (delivered X') = Suc (length (delivered X))"
      using c(4) e(3) by (metis prod.collapse take_Suc_conv_app_nth length_append_singleton, simp)
    have S: "seq_no_recv (layer X') = seq_of (Suc (length (delivered X)))"
      using e(4) c(2) by (simp add: seq_of_Suc)
    moreover have "acks_ok (confirmed Y) (Suc (length (delivered X))) (xy @ out)"
      using e(2) c by (intro acks_ok_push [OF A, where j = "length (delivered X)"]) auto
    moreover have "length (sent Y) = Suc (length (delivered X))"
      using k(5) kd c(1) by simp
    ultimately show ?thesis
      using W k(6) kd c(3) D L by (simp add: dir_inv_def window_def Let_def)
  next
    fix p d q
    assume e: "w = [WData q p d]" "q = (seq_no_recv (layer X) - 1) AND SEQ_NO_MASK" "filter is_ack out = [WCtl Ack q]"
      "delivered X' = delivered X" "seq_no_recv (layer X') = seq_no_recv (layer X)"
    from F e(1) have "frames_ok (sent Y) (length (delivered X)) (WData q p d # yx)" by simp
    then obtain k where k: "q = seq_of k" "length (delivered X) \<le> Suc k" "k < length (sent Y)"
      by (rule frames_ok_head)
    obtain j where j: "length (delivered X) = Suc j"
    proof (cases "length (delivered X)")
      case 0
      with k c e(2) show ?thesis by (cases k) (simp_all add: SEQ_NO_MASK_def)
    qed
    with c(2) e(2) have "q = seq_of j" by (simp add: seq_of_pred)
    with A e(3) j c(3) have "acks_ok (confirmed Y) (length (delivered X)) (xy @ out)"
      by (intro acks_ok_push [OF A, where j = j]) auto
    with W F' e show ?thesis
      by (auto simp: dir_inv_def window_def Let_def)
  qed
qed

section \<open>The session\<close>

definition link_inv :: "link \<Rightarrow> bool" where
  "link_inv l \<longleftrightarrow> node_ok (side_a l) \<and> node_ok (side_b l) \<and>
     (\<forall>q. WCtl Connect q \<notin> set (chan_ab l) \<union> set (chan_ba l)) \<and>
     dir_inv (side_a l) (side_b l) (chan_ab l) (chan_ba l) \<and> dir_inv (side_b l) (side_a l) (chan_ba l) (chan_ab l)"

lemma link_inv_swap [simp]: "link_inv (swap_link l) = link_inv l"
  by (auto simp: link_inv_def swap_link_def)

lemma link_inv_call:
  assumes "link_inv l" and "chan_ba l = w @ rest" and "call_ok w f (side_a l)" and "node_call f (side_a l) = (n, out)"
  shows "link_inv (l\<lparr>side_a := n, chan_ba := rest, chan_ab := chan_ab l @ out\<rparr>)"
proof -
  from assms(3,4) have e: "sender_effect w (side_a l) n out" "receiver_effect w (side_a l) n out" "node_ok n"
    "peer n = peer (side_a l)" "\<forall>q. WCtl Connect q \<notin> set out"
    by (auto simp: call_ok_def Let_def)
  from assms(1,2) have "dir_inv (side_a l) (side_b l) (chan_ab l) (w @ rest)"
    "dir_inv (side_b l) (side_a l) (w @ rest) (chan_ab l)"
    by (simp_all add: link_inv_def)
  with sender_preserves [OF _ e(1,4)] receiver_preserves [OF _ e(2)] e(3,5) assms(1,2) show ?thesis
    by (auto simp: link_inv_def)
qed

lemma link_inv_lose:
  assumes "link_inv l" and "chan_ab l = xs @ w # ys"
  shows "link_inv (l\<lparr>chan_ab := xs @ ys\<rparr>)"
  using assms frames_ok_sub [of _ _ xs "[w]" ys] acks_ok_sub [of _ _ xs "[w]" ys]
  by (auto simp: link_inv_def dir_inv_def)

lemma link_inv_half: "half_step l l' \<Longrightarrow> link_inv l \<Longrightarrow> link_inv l'"
proof (induction rule: half_step.induct)
  case (call c l n out)
  have "l\<lparr>side_a := n, chan_ab := chan_ab l @ out\<rparr> = l\<lparr>side_a := n, chan_ba := chan_ba l, chan_ab := chan_ab l @ out\<rparr>"
    by simp
  with link_inv_call [OF call.prems _ call_ok_local call.hyps] call.prems show ?case
    by (simp add: link_inv_def)
next
  case (receive l w rest now n out)
  then have "node_ok (side_a l)" "\<forall>q. w \<noteq> WCtl Connect q" by (auto simp: link_inv_def)
  with link_inv_call [OF receive.prems _ call_ok_receive receive.hyps(2), of rest] receive.hyps(1) show ?case
    by simp
qed (rule link_inv_lose)

lemma link_inv_start: "link_inv (link_start a b now)"
  by (simp add: link_inv_def link_start_def node_ok_def dir_inv_def window_def frames_ok_def acks_ok_def
      connect_confirm_def connect_request_def connect_indication_def tl_actions tl_new_def take_actions_def)

text \<open>
  C2: two transport layers over channels that lose telegrams, with any requests,
  polls, retransmissions, time-outs and disconnects on both sides: in each direction the
  telegrams handed to the application are a prefix of those sent, in order and without
  duplicates; a confirmation is given only for delivered data; and at most one sent telegram is
  unconfirmed. Sequence numbers are modulo 16, the logs unbounded.
\<close>
theorem link_in_order:
  assumes "link_reachable l"
  shows "delivered (side_b l) = take (length (delivered (side_b l))) (sent (side_a l)) \<and>
    confirmed (side_a l) \<le> length (delivered (side_b l)) \<and> length (sent (side_a l)) \<le> Suc (confirmed (side_a l)) \<and>
    delivered (side_a l) = take (length (delivered (side_a l))) (sent (side_b l)) \<and>
    confirmed (side_b l) \<le> length (delivered (side_a l)) \<and> length (sent (side_b l)) \<le> Suc (confirmed (side_b l))"
proof -
  from assms have "link_inv l"
  proof induction
    case (step l l')
    then show ?case
      using link_inv_half [of l l'] link_inv_half [of "swap_link l" "swap_link l'"] by (auto simp: link_step_def)
  qed (rule link_inv_start)
  then show ?thesis
    by (auto simp: link_inv_def dir_inv_def window_def Let_def)
qed

definition do_call :: "local_call \<Rightarrow> link \<Rightarrow> link" where
  "do_call c l = (let r = node_call (local_op c) (side_a l) in
     l\<lparr>side_a := fst r, chan_ab := chan_ab l @ snd r\<rparr>)"

definition do_receive :: "u64 \<Rightarrow> link \<Rightarrow> link" where
  "do_receive now l = (let r = node_call (tl_receive (peer (side_a l)) (hd (chan_ba l)) now) (side_a l) in
     l\<lparr>side_a := fst r, chan_ba := tl (chan_ba l), chan_ab := chan_ab l @ snd r\<rparr>)"

lemma do_call_step: "link_reachable l \<Longrightarrow> link_reachable (do_call c l)"
  by (rule link_reachable.step) (auto simp: link_step_def do_call_def Let_def intro!: half_step.call)

lemma do_receive_step:
  "link_reachable l \<Longrightarrow> chan_ab l \<noteq> [] \<Longrightarrow> link_reachable (swap_link (do_receive now (swap_link l)))"
  by (rule link_reachable.step, assumption)
    (auto simp: link_step_def do_receive_def Let_def swap_link_def
      intro!: disjI2 half_step.receive [of "swap_link l" for l, unfolded swap_link_def, simplified])

definition sample_link :: link where
  "sample_link = swap_link (do_receive 5 (swap_link (do_call (LReq Low [1, 2] 0)
     (link_start (IndividualAddress 0x1101) (IndividualAddress 0x1102) 0))))"

lemma sample_link_logs:
  "delivered (side_b sample_link) = [(Low, [1, 2])]" "sent (side_a sample_link) = [(Low, [1, 2])]"
  by (simp_all add: sample_link_def do_receive_def do_call_def swap_link_def link_start_def node_call_def
      take_actions_def tl_handlers tl_actions tl_new_def)

lemma link_in_order_witness:
  "delivered (side_b sample_link) = [(Low, [1, 2])] \<and> confirmed (side_a sample_link) \<le> 1"
proof -
  have "link_reachable sample_link"
    unfolding sample_link_def
    by (rule do_receive_step, rule do_call_step, rule link_reachable.start)
      (simp add: do_call_def link_start_def node_call_def take_actions_def tl_handlers tl_actions tl_new_def)
  from link_in_order [OF this] show ?thesis by (simp add: sample_link_logs)
qed

end
