(* ===== verification/Device_Memory.thy ===== *)
theory Device_Memory
  imports Prelude
begin

text \<open>
  The persistence layer (\<open>knx-rs-device/src/memory.rs\<close>). The trait \<open>MemoryBackend\<close> is the locale
  \<open>memory_backend\<close>: its three methods and the law the device relies on, that what was written and
  committed is what is read. \<open>DeviceMemory\<close> puts a header naming the device in front of the data;
  its operations take the backend's methods as arguments. \<open>RamBackend\<close> is the interpretation.
\<close>

locale memory_backend =
  fixes read_all :: "'b \<Rightarrow> u8 list" and write_all :: "u8 list \<Rightarrow> 'b \<Rightarrow> 'b" and commit :: "'b \<Rightarrow> 'b"
  assumes read_committed: "read_all (commit (write_all data b)) = data"

definition DM_HEADER_SIZE :: nat where "DM_HEADER_SIZE = 12"

record 'b DeviceMemory =
  dm_backend :: 'b
  dm_manufacturer_id :: u16
  dm_hardware_type :: "u8 list"
  dm_api_version :: u16
  dm_firmware_version :: u16

definition dm_save :: "(u8 list \<Rightarrow> 'b \<Rightarrow> 'b) \<Rightarrow> ('b \<Rightarrow> 'b) \<Rightarrow> u8 list \<Rightarrow> 'b DeviceMemory \<Rightarrow> 'b DeviceMemory" where
  "dm_save write_all commit data m =
     (let buf = to_be16 (dm_manufacturer_id m) @ dm_hardware_type m @ to_be16 (dm_api_version m) @
            to_be16 (dm_firmware_version m) @ data
      in m\<lparr>dm_backend := commit (write_all buf (dm_backend m))\<rparr>)"

definition dm_load :: "('b \<Rightarrow> u8 list) \<Rightarrow> 'b DeviceMemory \<Rightarrow> u8 list option" where
  "dm_load read_all m =
     (let buf = read_all (dm_backend m) in
      if length buf < DM_HEADER_SIZE then None
      else if be16 (buf ! 0) (buf ! 1) \<noteq> dm_manufacturer_id m then None
      else if buf_slice 2 8 buf \<noteq> dm_hardware_type m then None
      else if be16 (buf ! 8) (buf ! 9) \<noteq> dm_api_version m then None
      else if be16 (buf ! 10) (buf ! 11) \<noteq> dm_firmware_version m then None
      else Some (drop DM_HEADER_SIZE buf))"

definition dm_clear :: "(u8 list \<Rightarrow> 'b \<Rightarrow> 'b) \<Rightarrow> ('b \<Rightarrow> 'b) \<Rightarrow> 'b DeviceMemory \<Rightarrow> 'b DeviceMemory" where
  "dm_clear write_all commit m = m\<lparr>dm_backend := commit (write_all [] (dm_backend m))\<rparr>"

text \<open>The identity in the header; arrays of the code have fixed lengths.\<close>

definition dm_identity :: "'b DeviceMemory \<Rightarrow> u16 \<times> u8 list \<times> u16 \<times> u16" where
  "dm_identity m = (dm_manufacturer_id m, dm_hardware_type m, dm_api_version m, dm_firmware_version m)"

definition dm_header :: "'b DeviceMemory \<Rightarrow> u8 list" where
  "dm_header m = to_be16 (dm_manufacturer_id m) @ dm_hardware_type m @ to_be16 (dm_api_version m) @ to_be16 (dm_firmware_version m)"

lemma list6: "length xs = 6 \<Longrightarrow> \<exists>a b c d e f. xs = [a, b, c, d, e, f]"
  by (simp add: length_Suc_conv numeral_eq_Suc) blast

lemma load_header:
  assumes "read_all (dm_backend m) = dm_header m0 @ data" and "length (dm_hardware_type m0) = 6"
  shows "dm_load read_all m = (if dm_identity m = dm_identity m0 then Some data else None)"
proof -
  from list6 [OF assms(2)] obtain a b c d e f where h: "dm_hardware_type m0 = [a, b, c, d, e, f]" by blast
  show ?thesis
    by (auto simp: dm_load_def assms(1) dm_header_def h to_be16_def buf_slice_def DM_HEADER_SIZE_def dm_identity_def Let_def)
qed

context memory_backend
begin

lemma load_save:
  assumes "length (dm_hardware_type m) = 6"
  shows "dm_load read_all (dm_save write_all commit data m) = Some data"
  using load_header [of read_all "dm_save write_all commit data m" m data] assms
  by (simp add: dm_save_def dm_header_def read_committed dm_identity_def)

lemma load_foreign:
  assumes "length (dm_hardware_type m) = 6" and "dm_backend m' = dm_backend (dm_save write_all commit data m)"
    and "dm_identity m' \<noteq> dm_identity m"
  shows "dm_load read_all m' = None"
  using load_header [of read_all m' m data] assms
  by (simp add: dm_save_def dm_header_def read_committed)

lemma load_cleared: "dm_load read_all (dm_clear write_all commit m) = None"
  by (simp add: dm_load_def dm_clear_def read_committed DM_HEADER_SIZE_def)

end

section \<open>The RAM backend\<close>

record RamBackend = ram_data :: "u8 list"

definition ram_new :: RamBackend where "ram_new = \<lparr>ram_data = []\<rparr>"
definition ram_read_all :: "RamBackend \<Rightarrow> u8 list" where "ram_read_all b = ram_data b"
definition ram_write_all :: "u8 list \<Rightarrow> RamBackend \<Rightarrow> RamBackend" where "ram_write_all data b = b\<lparr>ram_data := data\<rparr>"
definition ram_commit :: "RamBackend \<Rightarrow> RamBackend" where "ram_commit b = b"

interpretation ram: memory_backend ram_read_all ram_write_all ram_commit
  by unfold_locales (simp add: ram_read_all_def ram_write_all_def ram_commit_def)

text \<open>
  with the RAM backend, a device loads exactly what it saved; a
  device with another manufacturer, hardware type, API version or firmware version finds nothing
  in the same storage; and after a clear nothing is found.
\<close>
lemma device_memory_roundtrip:
  assumes "length (dm_hardware_type m) = 6"
  shows "dm_load ram_read_all (dm_save ram_write_all ram_commit data m) = Some data \<and>
    (dm_backend m' = dm_backend (dm_save ram_write_all ram_commit data m) \<and> dm_identity m' \<noteq> dm_identity m \<longrightarrow>
       dm_load ram_read_all m' = None) \<and>
    dm_load ram_read_all (dm_clear ram_write_all ram_commit m) = None"
  using ram.load_save [OF assms] ram.load_foreign [OF assms] ram.load_cleared by blast

definition sample_memory :: "RamBackend DeviceMemory" where
  "sample_memory = \<lparr>dm_backend = ram_new, dm_manufacturer_id = 0xFA, dm_hardware_type = [0, 0, 0, 0, 1, 2],
     dm_api_version = 2, dm_firmware_version = 7\<rparr>"

end
