(* ===== verification/Dpt.thy ===== *)
theory Dpt
  imports Prelude
begin

text \<open>
  Datapoint type identifiers and their wire sizes (\<open>knx-rs-core/src/dpt/mod.rs\<close>). The codecs of
  the datapoint values are not part of this theory.
\<close>

record dpt =
  dpt_main :: u16
  dpt_sub :: u16
  dpt_index :: u16

datatype DptWireSize = WireBits u8 | WireBytes u8 | VariableBytes | WireUnknown

definition dpt_new :: "u16 \<Rightarrow> u16 \<Rightarrow> dpt" where
  "dpt_new mn sub = \<lparr>dpt_main = mn, dpt_sub = sub, dpt_index = 0\<rparr>"

definition wire_size_of_main :: "u16 \<Rightarrow> DptWireSize" where
  "wire_size_of_main m =
     (if m = 1 then WireBits 1
      else if m \<in> set [2, 23] then WireBits 2
      else if m = 3 then WireBits 4
      else if m = 31 then WireBits 3
      else if m \<in> set [4, 5, 6, 17, 18, 20, 21, 25, 26, 236, 238] then WireBytes 1
      else if m \<in> set [7, 8, 9, 22, 200, 201, 202, 204, 207, 211, 217, 234, 237, 239, 244, 246]
        then WireBytes 2
      else if m \<in> set [10, 11, 30, 203, 205, 206, 209, 223, 225, 232, 240, 250, 254] then WireBytes 3
      else if m \<in> set [12, 13, 14, 15, 27, 210, 214, 220, 231, 241, 253, 276] then WireBytes 4
      else if m \<in> set [215, 216, 218, 248, 252] then WireBytes 5
      else if m \<in> set [212, 219, 221, 222, 224, 229, 235, 242, 245, 249, 251, 274] then WireBytes 6
      else if m \<in> set [271, 272] then WireBytes 7
      else if m \<in> set [19, 29, 213, 230, 243, 255, 273, 275, 288] then WireBytes 8
      else if m \<in> set [265, 268] then WireBytes 9
      else if m \<in> set [247, 257, 266] then WireBytes 12
      else if m \<in> set [16, 269] then WireBytes 14
      else if m \<in> set [256, 285] then WireBytes 16
      else if m = 270 then WireBytes 20
      else if m = 277 then WireBytes 36
      else if m = 278 then WireBytes 42
      else if m = 281 then WireBytes 44
      else if m = 279 then WireBytes 48
      else if m = 282 then WireBytes 50
      else if m = 283 then WireBytes 56
      else if m = 280 then WireBytes 78
      else if m = 284 then WireBytes 86
      else if m \<in> set [24, 28, 267] then VariableBytes
      else WireUnknown)"

definition wire_size :: "dpt \<Rightarrow> DptWireSize" where
  "wire_size d = wire_size_of_main (dpt_main d)"

definition data_length :: "dpt \<Rightarrow> u8" where
  "data_length d = (case wire_size d of WireBytes n \<Rightarrow> n | _ \<Rightarrow> 1)"

definition is_variable_length :: "dpt \<Rightarrow> bool" where
  "is_variable_length d = (case wire_size d of VariableBytes \<Rightarrow> True | _ \<Rightarrow> False)"

definition wire_len :: "dpt \<Rightarrow> u8 option" where
  "wire_len d = (case wire_size d of WireBits _ \<Rightarrow> Some 1 | WireUnknown \<Rightarrow> Some 1
     | WireBytes n \<Rightarrow> Some n | VariableBytes \<Rightarrow> None)"

lemma wire_size_bits: "wire_size d = WireBits b \<Longrightarrow> b \<in> {1, 2, 3, 4}"
  by (auto simp: wire_size_def wire_size_of_main_def simp del: list.set split: if_splits)

lemma wire_size_bytes: "wire_size d = WireBytes n \<Longrightarrow> 1 \<le> n \<and> n \<le> 86"
  by (auto simp: wire_size_def wire_size_of_main_def simp del: list.set split: if_splits)

lemma data_length_bounds: "1 \<le> unat (data_length d) \<and> unat (data_length d) \<le> 86"
  using wire_size_bytes [of d]
  by (auto simp: data_length_def word_le_nat_alt split: DptWireSize.splits)

lemma wire_len_data_length: "wire_len d = Some n \<Longrightarrow> n = data_length d"
  by (auto simp: wire_len_def data_length_def split: DptWireSize.splits)

end
