(* ===== verification/Apdu.thy ===== *)
theory Apdu
  imports Dpt
begin

text \<open>
  Application services and application PDUs (\<open>knx-rs-core/src/message.rs\<close>,
  \<open>knx-rs-core/src/apdu.rs\<close>): the service codes, the short and long APCI encodings, decoding
  of a TPDU payload, encoding of an APDU, and the group-value APDUs whose payload form follows
  the datapoint type.
\<close>

section \<open>Application services\<close>

datatype (plugins only:) ApduType =
    GroupValueRead | GroupValueResponse | GroupValueWrite | IndividualAddressWrite
  | IndividualAddressRead | IndividualAddressResponse | IndividualAddressSerialNumberRead
  | IndividualAddressSerialNumberResponse | IndividualAddressSerialNumberWrite
  | SystemNetworkParameterRead | SystemNetworkParameterResponse | SystemNetworkParameterWrite
  | DomainAddressWrite | DomainAddressRead | DomainAddressResponse | DomainAddressSelectiveRead
  | DomainAddressSerialNumberRead | DomainAddressSerialNumberResponse
  | DomainAddressSerialNumberWrite | AdcRead | AdcResponse | PropertyValueExtRead
  | PropertyValueExtResponse | PropertyValueExtWriteCon | PropertyValueExtWriteConResponse
  | PropertyValueExtWriteUnCon | PropertyExtDescriptionRead | PropertyExtDescriptionResponse
  | FunctionPropertyExtCommand | FunctionPropertyExtState | FunctionPropertyExtStateResponse
  | MemoryExtWrite | MemoryExtWriteResponse | MemoryExtRead | MemoryExtReadResponse
  | MemoryRead | MemoryResponse | MemoryWrite | UserMemoryRead | UserMemoryResponse
  | UserMemoryWrite | UserManufacturerInfoRead | UserManufacturerInfoResponse
  | FunctionPropertyCommand | FunctionPropertyState | FunctionPropertyStateResponse
  | DeviceDescriptorRead | DeviceDescriptorResponse | Restart | RestartMasterReset
  | RoutingTableOpen | RoutingTableRead | RoutingTableReadResponse | RoutingTableWrite
  | MemoryRouterWrite | MemoryRouterReadResponse | AuthorizeRequest | AuthorizeResponse
  | KeyWrite | KeyResponse | PropertyValueRead | PropertyValueResponse | PropertyValueWrite
  | PropertyDescriptionRead | PropertyDescriptionResponse | SecureService

primrec apdu_type_u16 :: "ApduType \<Rightarrow> u16" where
  "apdu_type_u16 GroupValueRead = 0x000"
| "apdu_type_u16 GroupValueResponse = 0x040"
| "apdu_type_u16 GroupValueWrite = 0x080"
| "apdu_type_u16 IndividualAddressWrite = 0x0C0"
| "apdu_type_u16 IndividualAddressRead = 0x100"
| "apdu_type_u16 IndividualAddressResponse = 0x140"
| "apdu_type_u16 IndividualAddressSerialNumberRead = 0x3DC"
| "apdu_type_u16 IndividualAddressSerialNumberResponse = 0x3DD"
| "apdu_type_u16 IndividualAddressSerialNumberWrite = 0x3DE"
| "apdu_type_u16 SystemNetworkParameterRead = 0x1C8"
| "apdu_type_u16 SystemNetworkParameterResponse = 0x1C9"
| "apdu_type_u16 SystemNetworkParameterWrite = 0x1CA"
| "apdu_type_u16 DomainAddressWrite = 0x3E0"
| "apdu_type_u16 DomainAddressRead = 0x3E1"
| "apdu_type_u16 DomainAddressResponse = 0x3E2"
| "apdu_type_u16 DomainAddressSelectiveRead = 0x3E3"
| "apdu_type_u16 DomainAddressSerialNumberRead = 0x3EC"
| "apdu_type_u16 DomainAddressSerialNumberResponse = 0x3ED"
| "apdu_type_u16 DomainAddressSerialNumberWrite = 0x3EE"
| "apdu_type_u16 AdcRead = 0x180"
| "apdu_type_u16 AdcResponse = 0x1C0"
| "apdu_type_u16 PropertyValueExtRead = 0x1CC"
| "apdu_type_u16 PropertyValueExtResponse = 0x1CD"
| "apdu_type_u16 PropertyValueExtWriteCon = 0x1CE"
| "apdu_type_u16 PropertyValueExtWriteConResponse = 0x1CF"
| "apdu_type_u16 PropertyValueExtWriteUnCon = 0x1D0"
| "apdu_type_u16 PropertyExtDescriptionRead = 0x1D2"
| "apdu_type_u16 PropertyExtDescriptionResponse = 0x1D3"
| "apdu_type_u16 FunctionPropertyExtCommand = 0x1D4"
| "apdu_type_u16 FunctionPropertyExtState = 0x1D5"
| "apdu_type_u16 FunctionPropertyExtStateResponse = 0x1D6"
| "apdu_type_u16 MemoryExtWrite = 0x1FB"
| "apdu_type_u16 MemoryExtWriteResponse = 0x1FC"
| "apdu_type_u16 MemoryExtRead = 0x1FD"
| "apdu_type_u16 MemoryExtReadResponse = 0x1FE"
| "apdu_type_u16 MemoryRead = 0x200"
| "apdu_type_u16 MemoryResponse = 0x240"
| "apdu_type_u16 MemoryWrite = 0x280"
| "apdu_type_u16 UserMemoryRead = 0x2C0"
| "apdu_type_u16 UserMemoryResponse = 0x2C1"
| "apdu_type_u16 UserMemoryWrite = 0x2C2"
| "apdu_type_u16 UserManufacturerInfoRead = 0x2C5"
| "apdu_type_u16 UserManufacturerInfoResponse = 0x2C6"
| "apdu_type_u16 FunctionPropertyCommand = 0x2C7"
| "apdu_type_u16 FunctionPropertyState = 0x2C8"
| "apdu_type_u16 FunctionPropertyStateResponse = 0x2C9"
| "apdu_type_u16 DeviceDescriptorRead = 0x300"
| "apdu_type_u16 DeviceDescriptorResponse = 0x340"
| "apdu_type_u16 Restart = 0x380"
| "apdu_type_u16 RestartMasterReset = 0x381"
| "apdu_type_u16 RoutingTableOpen = 0x3C0"
| "apdu_type_u16 RoutingTableRead = 0x3C1"
| "apdu_type_u16 RoutingTableReadResponse = 0x3C2"
| "apdu_type_u16 RoutingTableWrite = 0x3C3"
| "apdu_type_u16 MemoryRouterWrite = 0x3CA"
| "apdu_type_u16 MemoryRouterReadResponse = 0x3C9"
| "apdu_type_u16 AuthorizeRequest = 0x3D1"
| "apdu_type_u16 AuthorizeResponse = 0x3D2"
| "apdu_type_u16 KeyWrite = 0x3D3"
| "apdu_type_u16 KeyResponse = 0x3D4"
| "apdu_type_u16 PropertyValueRead = 0x3D5"
| "apdu_type_u16 PropertyValueResponse = 0x3D6"
| "apdu_type_u16 PropertyValueWrite = 0x3D7"
| "apdu_type_u16 PropertyDescriptionRead = 0x3D8"
| "apdu_type_u16 PropertyDescriptionResponse = 0x3D9"
| "apdu_type_u16 SecureService = 0x3F1"


text \<open>The two APCI octets of a service, high bits first.\<close>

definition apci_bytes :: "ApduType \<Rightarrow> u8 \<times> u8" where
  "apci_bytes t = (ucast (drop_bit 8 (apdu_type_u16 t)), ucast (apdu_type_u16 t))"

section \<open>Short and long APCIs\<close>

definition APCI_MASK :: u16 where "APCI_MASK = 0x03FF"
definition APCI_SHORT_TYPE_MASK :: u16 where "APCI_SHORT_TYPE_MASK = 0x03C0"
definition APCI_SHORT_DATA_MASK :: u8 where "APCI_SHORT_DATA_MASK = 0x3F"

lemmas apci_masks = APCI_MASK_def APCI_SHORT_TYPE_MASK_def APCI_SHORT_DATA_MASK_def

definition is_short_apci :: "u16 \<Rightarrow> bool" where
  "is_short_apci apci \<longleftrightarrow> (let family = drop_bit 6 apci in family < 11 \<and> family \<noteq> 7)"

fun uses_short_form :: "u16 \<Rightarrow> u8 list \<Rightarrow> bool" where
  "uses_short_form apci data =
     (if \<not> is_short_apci apci \<or> length data > 1 then False
      else case data of v # _ \<Rightarrow> v \<le> APCI_SHORT_DATA_MASK | [] \<Rightarrow> True)"

definition normalize_apci :: "u16 \<Rightarrow> u16" where
  "normalize_apci raw =
     (let apci = raw AND APCI_MASK in
      if is_short_apci apci then apci AND APCI_SHORT_TYPE_MASK else apci)"

definition match_apdu_type :: "u16 \<Rightarrow> ApduType option" where
  "match_apdu_type bits = map_of
    [(0x000, GroupValueRead), (0x040, GroupValueResponse), (0x080, GroupValueWrite),
     (0x0C0, IndividualAddressWrite), (0x100, IndividualAddressRead),
     (0x140, IndividualAddressResponse), (0x180, AdcRead), (0x1C0, AdcResponse),
     (0x1C8, SystemNetworkParameterRead), (0x1C9, SystemNetworkParameterResponse),
     (0x1CA, SystemNetworkParameterWrite), (0x1CC, PropertyValueExtRead),
     (0x1CD, PropertyValueExtResponse), (0x1CE, PropertyValueExtWriteCon),
     (0x1CF, PropertyValueExtWriteConResponse), (0x1D0, PropertyValueExtWriteUnCon),
     (0x1D2, PropertyExtDescriptionRead), (0x1D3, PropertyExtDescriptionResponse),
     (0x1D4, FunctionPropertyExtCommand), (0x1D5, FunctionPropertyExtState),
     (0x1D6, FunctionPropertyExtStateResponse), (0x1FB, MemoryExtWrite),
     (0x1FC, MemoryExtWriteResponse), (0x1FD, MemoryExtRead), (0x1FE, MemoryExtReadResponse),
     (0x200, MemoryRead), (0x240, MemoryResponse), (0x280, MemoryWrite),
     (0x2C0, UserMemoryRead), (0x2C1, UserMemoryResponse), (0x2C2, UserMemoryWrite),
     (0x2C5, UserManufacturerInfoRead), (0x2C6, UserManufacturerInfoResponse),
     (0x2C7, FunctionPropertyCommand), (0x2C8, FunctionPropertyState),
     (0x2C9, FunctionPropertyStateResponse), (0x300, DeviceDescriptorRead),
     (0x340, DeviceDescriptorResponse), (0x380, Restart), (0x381, RestartMasterReset),
     (0x3C0, RoutingTableOpen), (0x3C1, RoutingTableRead), (0x3C2, RoutingTableReadResponse),
     (0x3C3, RoutingTableWrite), (0x3C9, MemoryRouterReadResponse),
     (0x3CA, MemoryRouterWrite), (0x3D1, AuthorizeRequest), (0x3D2, AuthorizeResponse),
     (0x3D3, KeyWrite), (0x3D4, KeyResponse), (0x3D5, PropertyValueRead),
     (0x3D6, PropertyValueResponse), (0x3D7, PropertyValueWrite),
     (0x3D8, PropertyDescriptionRead), (0x3D9, PropertyDescriptionResponse),
     (0x3DC, IndividualAddressSerialNumberRead),
     (0x3DD, IndividualAddressSerialNumberResponse),
     (0x3DE, IndividualAddressSerialNumberWrite), (0x3E0, DomainAddressWrite),
     (0x3E1, DomainAddressRead), (0x3E2, DomainAddressResponse),
     (0x3E3, DomainAddressSelectiveRead), (0x3EC, DomainAddressSerialNumberRead),
     (0x3ED, DomainAddressSerialNumberResponse), (0x3EE, DomainAddressSerialNumberWrite),
     (0x3F1, SecureService)] bits"

definition apdu_type_from_raw :: "u16 \<Rightarrow> ApduType option" where
  "apdu_type_from_raw raw = match_apdu_type (normalize_apci raw)"

definition encode_apci_header :: "ApduType \<Rightarrow> u8 \<Rightarrow> u8 \<times> u8" where
  "encode_apci_header t tpci_bits =
     (let apci = apdu_type_u16 t in
      ((tpci_bits AND 0xFC) OR (ucast (drop_bit 8 apci) AND 0x03), ucast apci))"

section \<open>APDUs\<close>

record apdu =
  apdu_type :: ApduType
  apdu_data :: "u8 list"

text \<open>The services whose second APCI octet carries a six-bit field besides trailing octets.\<close>

definition low_octet_service :: "ApduType \<Rightarrow> bool" where
  "low_octet_service t \<longleftrightarrow> t \<in> {MemoryRead, MemoryWrite, MemoryResponse, AdcRead, AdcResponse}"

definition decode_apci :: "u16 \<Rightarrow> u8 list \<Rightarrow> u8 \<Rightarrow> (ApduType \<times> u8 list) option" where
  "decode_apci apci_raw payload npdu_length =
     Option.bind (match_apdu_type (normalize_apci apci_raw)) (\<lambda>t.
       Some (t,
         if is_short_apci apci_raw \<and> npdu_length \<le> 1 then [payload ! 1 AND APCI_SHORT_DATA_MASK]
         else if low_octet_service t \<and> length payload > 1 then drop 1 payload
         else if length payload > 2 then drop 2 payload
         else []))"

definition apdu_parse :: "u8 list \<Rightarrow> u8 \<Rightarrow> apdu option" where
  "apdu_parse payload npdu_length =
     (if length payload < 2 then None
      else Option.bind
        (decode_apci (be16 (payload ! 0) (payload ! 1) AND 0x03FF) payload npdu_length)
        (\<lambda>(t, d). Some \<lparr>apdu_type = t, apdu_data = d\<rparr>))"

definition apdu_to_bytes :: "apdu \<Rightarrow> u8 \<Rightarrow> u8 list" where
  "apdu_to_bytes a tpci_bits =
     (let apci = apdu_type_u16 (apdu_type a); (byte0, apci_low) = encode_apci_header (apdu_type a) tpci_bits
      in if uses_short_form apci (apdu_data a)
         then (let value = (case apdu_data a of [] \<Rightarrow> 0 | v # _ \<Rightarrow> v)
               in [byte0, (apci_low AND 0xC0) OR (value AND APCI_SHORT_DATA_MASK)])
         else [byte0, apci_low] @ apdu_data a)"

section \<open>Group-value APDUs\<close>

datatype GroupValuePayload = Inline u8 | PBytes "u8 list"
datatype GroupValueApdu = GRead | GResponse GroupValuePayload | GWrite GroupValuePayload

datatype ApduEncodeError =
    InlineValueOutOfRange u8 u8
  | EmptyBytePayload
  | PayloadLengthMismatch nat nat
  | UnsupportedGroupValueSize

definition from_dpt_encoded :: "dpt \<Rightarrow> u8 list \<Rightarrow> ApduEncodeError + GroupValuePayload" where
  "from_dpt_encoded d data =
     (if dpt_main d = 31 then Inl UnsupportedGroupValueSize
      else case wire_size d of
        WireBits bits \<Rightarrow>
          if 1 \<le> bits \<and> bits \<le> 6 then
            if length data \<noteq> 1 then Inl (PayloadLengthMismatch 1 (length data))
            else let mx = drop_bit (6 - unat bits) APCI_SHORT_DATA_MASK; value = data ! 0 in
              if value > mx then Inl (InlineValueOutOfRange value mx) else Inr (Inline value)
          else Inl UnsupportedGroupValueSize
      | WireBytes expected \<Rightarrow>
          if length data \<noteq> unat expected then Inl (PayloadLengthMismatch (unat expected) (length data))
          else Inr (PBytes data)
      | VariableBytes \<Rightarrow> Inr (PBytes data)
      | WireUnknown \<Rightarrow> Inl UnsupportedGroupValueSize)"

definition group_try_to_bytes :: "GroupValueApdu \<Rightarrow> u8 \<Rightarrow> ApduEncodeError + u8 list" where
  "group_try_to_bytes g tpci_bits =
     (let (t, payload) = (case g of GRead \<Rightarrow> (GroupValueRead, None)
            | GResponse p \<Rightarrow> (GroupValueResponse, Some p) | GWrite p \<Rightarrow> (GroupValueWrite, Some p));
          (byte0, apci_low) = encode_apci_header t tpci_bits
      in case payload of
           None \<Rightarrow> Inr [byte0, apci_low]
         | Some (Inline value) \<Rightarrow>
             if value > APCI_SHORT_DATA_MASK then Inl (InlineValueOutOfRange value APCI_SHORT_DATA_MASK)
             else Inr [byte0, apci_low OR value]
         | Some (PBytes data) \<Rightarrow>
             if data = [] then Inl EmptyBytePayload else Inr ([byte0, apci_low] @ data))"

section \<open>Service codes\<close>

lemma apci_in_range [simp]: "apdu_type_u16 t AND APCI_MASK = apdu_type_u16 t"
  by (cases t) (simp_all add: apci_masks)

lemma short_apci_low_bits: "is_short_apci (apdu_type_u16 t) \<Longrightarrow> apdu_type_u16 t AND APCI_SHORT_TYPE_MASK = apdu_type_u16 t"
  by (cases t) (simp_all add: apci_masks is_short_apci_def Let_def)

lemma match_apdu_type_inverse [simp]: "match_apdu_type (apdu_type_u16 t) = Some t"
  by (cases t) (simp_all add: match_apdu_type_def)

lemma match_apdu_typeD: "match_apdu_type b = Some t \<Longrightarrow> b = apdu_type_u16 t"
  unfolding match_apdu_type_def by (drule map_of_SomeD) auto

lemma normalize_apci_type [simp]: "normalize_apci (apdu_type_u16 t) = apdu_type_u16 t"
  by (simp add: normalize_apci_def Let_def short_apci_low_bits)

lemma apdu_type_from_raw_inverse: "apdu_type_from_raw (apdu_type_u16 t) = Some t"
  by (simp add: apdu_type_from_raw_def)

section \<open>Round trips\<close>

lemma small_masks:
  "(0xFC::u8) = NOT (mask 2)" "(0x03::u8) = mask 2" "(0x03FF::u16) = mask 10"
  "(0x03C0::u16) = mask 10 AND NOT (mask 6)" "(0xC0::u8) = NOT (mask 6)" "(0x3F::u8) = mask 6"
  by (simp_all add: mask_eq_exp_minus_1)

lemma header_apci:
  assumes "encode_apci_header t tpci = (b0, lo)"
  shows "be16 b0 lo AND 0x03FF = apdu_type_u16 t"
proof -
  have "be16 ((tpci AND NOT (mask 2)) OR (ucast (drop_bit 8 w) AND mask 2)) (ucast w) AND mask 10 = w AND mask 10"
    for w :: u16
    unfolding be16_def by (rule bit_word_eqI) (auto simp: bit_simps)
  with assms apci_in_range [of t] show ?thesis
    by (auto simp: encode_apci_header_def Let_def small_masks apci_masks)
qed

lemma header_apci_short:
  assumes "encode_apci_header t tpci = (b0, lo)" and "v \<le> APCI_SHORT_DATA_MASK"
  shows "be16 b0 ((lo AND 0xC0) OR v) AND 0x03FF = (apdu_type_u16 t AND 0x03C0) OR ucast v"
proof -
  have le: "v \<le> mask 6"
    using assms(2) by (simp add: apci_masks small_masks)
  have "be16 ((tpci AND NOT (mask 2)) OR (ucast (drop_bit 8 w) AND mask 2)) ((ucast w AND NOT (mask 6)) OR v)
      AND mask 10 = (w AND (mask 10 AND NOT (mask 6))) OR ucast v" for w :: u16
    unfolding be16_def
    by (rule bit_word_eqI) (auto simp: bit_simps dest: le_mask_bits [OF le])
  with assms(1) show ?thesis
    by (auto simp: encode_apci_header_def Let_def small_masks)
qed

lemma is_short_apci_drop: "is_short_apci a = is_short_apci b" if "drop_bit 6 a = drop_bit 6 b"
  using that by (simp add: is_short_apci_def Let_def)

lemma short_value_apci:
  assumes "v \<le> (APCI_SHORT_DATA_MASK::u8)" and "is_short_apci (apdu_type_u16 t)"
  defines "r \<equiv> (apdu_type_u16 t AND 0x03C0) OR ucast v"
  shows "is_short_apci r" "normalize_apci r = apdu_type_u16 t"
proof -
  have le: "v \<le> mask 6"
    using assms(1) by (simp add: apci_masks small_masks)
  have d: "drop_bit 6 ((w AND (mask 10 AND NOT (mask 6))) OR ucast v) = drop_bit 6 (w AND mask 10)"
    and m: "((w AND (mask 10 AND NOT (mask 6))) OR ucast v) AND mask 10 = (w AND (mask 10 AND NOT (mask 6))) OR ucast v"
    and n: "((w AND (mask 10 AND NOT (mask 6))) OR ucast v) AND (mask 10 AND NOT (mask 6)) = w AND (mask 10 AND NOT (mask 6))"
    for w :: u16
    by (rule bit_word_eqI; auto simp: bit_simps dest: le_mask_bits [OF le])+
  have "apdu_type_u16 t AND mask 10 = apdu_type_u16 t"
    using apci_in_range [of t] by (simp add: small_masks apci_masks)
  with d [of "apdu_type_u16 t"] have "drop_bit 6 r = drop_bit 6 (apdu_type_u16 t)"
    unfolding r_def small_masks by metis
  then show sr: "is_short_apci r"
    using assms(2) is_short_apci_drop by blast
  have "r AND mask 10 = r" and "r AND (mask 10 AND NOT (mask 6)) = apdu_type_u16 t AND APCI_SHORT_TYPE_MASK"
    unfolding r_def small_masks apci_masks by (rule m n)+
  with sr short_apci_low_bits [OF assms(2)] show "normalize_apci r = apdu_type_u16 t"
    unfolding normalize_apci_def Let_def apci_masks small_masks by metis
qed

lemma parse_long:
  assumes "encode_apci_header t tpci = (b0, lo)" and "is_short_apci (apdu_type_u16 t) \<Longrightarrow> 1 < n"
  shows "apdu_parse (b0 # lo # data) n = Some \<lparr>apdu_type = t,
     apdu_data = (if low_octet_service t then lo # data else data)\<rparr>"
  using assms header_apci [OF assms(1)]
  by (auto simp: apdu_parse_def decode_apci_def)

lemma parse_short:
  assumes "encode_apci_header t tpci = (b0, lo)" and "is_short_apci (apdu_type_u16 t)"
    and "v \<le> APCI_SHORT_DATA_MASK" and "n \<le> 1"
  shows "apdu_parse [b0, (lo AND 0xC0) OR v] n = Some \<lparr>apdu_type = t, apdu_data = [v]\<rparr>"
proof -
  have "((lo AND NOT (mask 6)) OR v) AND mask 6 = v"
    using assms(3) le_mask_bits [of v 6]
    by (intro bit_word_eqI) (auto simp: bit_simps apci_masks small_masks)
  with header_apci_short [OF assms(1,3)] short_value_apci [OF assms(3,2)] assms(4) show ?thesis
    by (simp add: apdu_parse_def decode_apci_def apci_masks small_masks)
qed

definition npdu_of :: "u8 list \<Rightarrow> u8" where
  "npdu_of bytes = of_nat (length bytes - 1)"

lemma npdu_of_gt1: "3 \<le> length bytes \<Longrightarrow> length bytes \<le> 256 \<Longrightarrow> 1 < npdu_of bytes"
  by (simp add: npdu_of_def word_less_nat_alt unat_of_nat del: of_nat_diff)

text \<open>What decoding an encoded APDU gives: the inline value of a short form, 0 for no data.\<close>

definition canonical_data :: "apdu \<Rightarrow> u8 list" where
  "canonical_data a =
     (if uses_short_form (apdu_type_u16 (apdu_type a)) (apdu_data a) \<and> apdu_data a = [] then [0]
      else apdu_data a)"

lemma apdu_roundtrip_gen:
  assumes "\<not> low_octet_service (apdu_type a)" and "length (apdu_data a) \<le> 254"
  shows "apdu_parse (apdu_to_bytes a tpci) (npdu_of (apdu_to_bytes a tpci)) =
    Some \<lparr>apdu_type = apdu_type a, apdu_data = canonical_data a\<rparr>"
proof -
  obtain b0 lo where h: "encode_apci_header (apdu_type a) tpci = (b0, lo)" by fastforce
  show ?thesis
  proof (cases "uses_short_form (apdu_type_u16 (apdu_type a)) (apdu_data a)")
    case True
    define v where "v = (case apdu_data a of [] \<Rightarrow> 0 | v # _ \<Rightarrow> v)"
    from True have s: "is_short_apci (apdu_type_u16 (apdu_type a))" and v: "v \<le> APCI_SHORT_DATA_MASK"
      and c: "canonical_data a = [v]"
      by (auto simp: v_def canonical_data_def split: if_splits list.splits)
    from v have "v AND APCI_SHORT_DATA_MASK = v"
      by (simp add: apci_masks small_masks le_mask_and)
    with True h have "apdu_to_bytes a tpci = [b0, (lo AND 0xC0) OR v]"
      by (simp add: apdu_to_bytes_def v_def del: uses_short_form.simps)
    with parse_short [OF h s v] c show ?thesis
      by (simp add: npdu_of_def)
  next
    case False
    with h have b: "apdu_to_bytes a tpci = b0 # lo # apdu_data a"
      by (simp add: apdu_to_bytes_def del: uses_short_form.simps)
    have "1 < npdu_of (b0 # lo # apdu_data a)" if "is_short_apci (apdu_type_u16 (apdu_type a))"
      using False that assms(2) by (intro npdu_of_gt1) (auto split: list.splits)
    from parse_long [OF h this] assms(1) False show ?thesis
      by (simp add: b canonical_data_def del: uses_short_form.simps)
  qed
qed

text \<open>The data octets of a group-value payload.\<close>

fun payload_data :: "GroupValuePayload \<Rightarrow> u8 list" where
  "payload_data (Inline v) = [v]" | "payload_data (PBytes d) = d"

lemma group_services_short: "t \<in> {GroupValueRead, GroupValueResponse, GroupValueWrite} \<Longrightarrow>
   is_short_apci (apdu_type_u16 t) \<and> \<not> low_octet_service t \<and> (apdu_type_u16 t AND 0x3F = 0)"
  by (auto simp: is_short_apci_def low_octet_service_def)

lemma header_lo_group:
  assumes "encode_apci_header t tpci = (b0, lo)" and "t \<in> {GroupValueRead, GroupValueResponse, GroupValueWrite}"
  shows "lo AND 0xC0 = lo"
  using assms by (auto simp: encode_apci_header_def Let_def)

lemma group_roundtrip_gen:
  assumes "group_try_to_bytes g tpci = Inr bytes"
    and g: "(g, t) \<in> {(GResponse p, GroupValueResponse), (GWrite p, GroupValueWrite)}"
    and "length (payload_data p) \<le> 254"
  shows "apdu_parse bytes (npdu_of bytes) = Some \<lparr>apdu_type = t, apdu_data = payload_data p\<rparr>"
proof -
  obtain b0 lo where h: "encode_apci_header t tpci = (b0, lo)" by fastforce
  from g have t: "t \<in> {GroupValueRead, GroupValueResponse, GroupValueWrite}" by auto
  note s = group_services_short [OF t] and lo = header_lo_group [OF h t]
  show ?thesis
  proof (cases p)
    case (Inline v)
    with assms(1) g h have "v \<le> APCI_SHORT_DATA_MASK" and "bytes = [b0, lo OR v]"
      by (auto simp: group_try_to_bytes_def split: if_splits)
    with parse_short [OF h _ \<open>v \<le> _\<close>] s lo Inline show ?thesis by (simp add: npdu_of_def)
  next
    case (PBytes d)
    with assms(1) g h have "d \<noteq> []" and b: "bytes = b0 # lo # d"
      by (auto simp: group_try_to_bytes_def split: if_splits)
    with assms(3) PBytes have "1 < npdu_of bytes"
      by (intro npdu_of_gt1) (auto simp: Suc_le_eq)
    with parse_long [OF h] s b PBytes show ?thesis by simp
  qed
qed

lemma from_dpt_encoded_data: "from_dpt_encoded d data = Inr p \<Longrightarrow> payload_data p = data"
  by (auto simp: from_dpt_encoded_def Let_def length_Suc_conv split: if_splits DptWireSize.splits)

end
