(* ===== verification/Tpdu.thy ===== *)
theory Tpdu
  imports Apdu Wire_Types
begin

text \<open>
  Transport PDUs (\<open>knx-rs-core/src/tpdu.rs\<close>): decoding the TPCI octet of a frame payload,
  and the encoders of control TPDUs and of numbered (connected) data TPDUs. The lemmas show that
  the decoder inverts both encoders.
\<close>

datatype Tpdu = TData TpduType u8 apdu | TControl TpduType u8

definition tpdu_parse :: "u8 list \<Rightarrow> u8 \<Rightarrow> AddressType \<Rightarrow> u16 \<Rightarrow> Tpdu option" where
  "tpdu_parse payload npdu_length at dest_raw =
     (if payload = [] then None
      else let tpci = payload ! 0;
        is_control = tpci AND 0x80 \<noteq> 0;
        is_numbered = tpci AND 0x40 \<noteq> 0;
        sequence_number = drop_bit 2 tpci AND 0x0F
      in if is_control then
           Some (TControl
             (if is_numbered then (if tpci AND 0x01 = 0 then Ack else Nack)
              else if tpci AND 0x01 = 0 then Connect else Disconnect) sequence_number)
         else let tpdu_type =
             (if at = AddrGroup then (if dest_raw = 0 then DataBroadcast else DataGroup)
              else if is_numbered then DataConnected else DataIndividual)
           in Option.bind (apdu_parse payload npdu_length)
                (\<lambda>a. Some (TData tpdu_type sequence_number a)))"

fun tpdu_tpdu_type :: "Tpdu \<Rightarrow> TpduType" where
  "tpdu_tpdu_type (TData t _ _) = t" | "tpdu_tpdu_type (TControl t _) = t"

fun tpdu_sequence_number :: "Tpdu \<Rightarrow> u8" where
  "tpdu_sequence_number (TData _ s _) = s" | "tpdu_sequence_number (TControl _ s) = s"

fun tpdu_apdu :: "Tpdu \<Rightarrow> apdu option" where
  "tpdu_apdu (TData _ _ a) = Some a" | "tpdu_apdu (TControl _ _) = None"

definition encode_control :: "TpduType \<Rightarrow> u8 \<Rightarrow> u8 list" where
  "encode_control t seq_no =
     (case t of Connect \<Rightarrow> [0x80] | Disconnect \<Rightarrow> [0x81]
      | Ack \<Rightarrow> [0xC0 OR push_bit 2 (seq_no AND 0x0F)]
      | Nack \<Rightarrow> [0xC0 OR push_bit 2 (seq_no AND 0x0F) OR 0x01]
      | _ \<Rightarrow> [])"

definition encode_data_connected :: "u8 \<Rightarrow> u8 list \<Rightarrow> u8 list" where
  "encode_data_connected seq_no a =
     (let tpci = 0x40 OR push_bit 2 (seq_no AND 0x0F) in
      case a of [] \<Rightarrow> [tpci] | b # bs \<Rightarrow> (tpci OR (b AND 0x03)) # bs)"

section \<open>Decoding inverts encoding\<close>

lemma length_encode_data_connected: "a \<noteq> [] \<Longrightarrow> length (encode_data_connected s a) = length a"
  by (cases a) (simp_all add: encode_data_connected_def Let_def)

definition control_types :: "TpduType set" where
  "control_types = {Connect, Disconnect, Ack, Nack}"

text \<open>Connect and Disconnect carry no sequence number.\<close>

definition control_seq :: "TpduType \<Rightarrow> u8 \<Rightarrow> u8" where
  "control_seq t s = (if t \<in> {Ack, Nack} then s AND 0x0F else 0)"

lemma seq_bits:
  "drop_bit 2 (0xC0 OR push_bit 2 (s AND 0x0F)) AND 0x0F = (s AND 0x0F :: u8)"
  "drop_bit 2 (0xC0 OR push_bit 2 (s AND 0x0F) OR 0x01) AND 0x0F = (s AND 0x0F :: u8)"
  "(0xC0 OR push_bit 2 (s AND 0x0F)) AND 0x80 \<noteq> (0 :: u8)"
  "(0xC0 OR push_bit 2 (s AND 0x0F)) AND 0x40 \<noteq> (0 :: u8)"
  "(0xC0 OR push_bit 2 (s AND 0x0F)) AND 0x01 = (0 :: u8)"
  "(0xC0 OR push_bit 2 (s AND 0x0F) OR 0x01) AND 0x80 \<noteq> (0 :: u8)"
  "(0xC0 OR push_bit 2 (s AND 0x0F) OR 0x01) AND 0x40 \<noteq> (0 :: u8)"
  "(0xC0 OR push_bit 2 (s AND 0x0F) OR 0x01) AND 0x01 \<noteq> (0 :: u8)"
  by (simp_all add: u8_eq_bits bit_simps)

lemma tpdu_parse_control_octet:
  assumes "b AND 0x80 \<noteq> 0"
  shows "tpdu_parse (b # r) n at d = Some (TControl
    (if b AND 0x40 \<noteq> 0 then if b AND 0x01 = 0 then Ack else Nack
     else if b AND 0x01 = 0 then Connect else Disconnect) (drop_bit 2 b AND 0x0F))"
  using assms by (simp add: tpdu_parse_def Let_def)

lemma tpdu_parse_control:
  assumes "t \<in> control_types"
  shows "tpdu_parse (encode_control t s @ pad) n at d = Some (TControl t (control_seq t s))"
proof -
  have "tpdu_parse ((0xC0 OR push_bit 2 (s AND 0x0F)) # pad) n at d = Some (TControl Ack (s AND 0x0F))"
    unfolding tpdu_parse_control_octet [OF seq_bits(3)] seq_bits(1) using seq_bits(4,5) [of s]
    by (simp del: push_bit_and)
  moreover have "tpdu_parse ((0xC0 OR push_bit 2 (s AND 0x0F) OR 0x01) # pad) n at d = Some (TControl Nack (s AND 0x0F))"
    unfolding tpdu_parse_control_octet [OF seq_bits(6)] seq_bits(2) using seq_bits(7,8) [of s]
    by (simp del: push_bit_and)
  ultimately show ?thesis
    using assms unfolding control_types_def
    by (elim insertE emptyE)
      (simp_all add: encode_control_def control_seq_def tpdu_parse_control_octet del: push_bit_and)
qed

lemma seq_field_bits:
  "drop_bit 2 (push_bit 2 (s AND 0x0F)) AND 0x0F = (s AND 0x0F :: u8)"
  "push_bit 2 (s AND 0x0F) AND 0x80 = (0 :: u8)" "push_bit 2 (s AND 0x0F) AND 0x40 = (0 :: u8)"
  "push_bit 2 (s AND 0x0F) AND 0x03 = (0 :: u8)"
  by (simp_all add: u8_eq_bits bit_simps)

lemma apci_high_bits: "drop_bit 2 (b AND 0x03) = (0 :: u8)" "(b AND 0x03) AND 0x80 = (0 :: u8)"
  "(b AND 0x03) AND 0x40 = (0 :: u8)"
  by (simp_all add: u8_eq_bits bit_simps)

lemma connected_bits:
  fixes s b :: u8
  shows "drop_bit 2 ((0x40 OR push_bit 2 (s AND 0x0F)) OR (b AND 0x03)) AND 0x0F = s AND 0x0F"
    and "((0x40 OR push_bit 2 (s AND 0x0F)) OR (b AND 0x03)) AND 0x80 = 0"
    and "((0x40 OR push_bit 2 (s AND 0x0F)) OR (b AND 0x03)) AND 0x40 \<noteq> 0"
    and "((0x40 OR push_bit 2 (s AND 0x0F)) OR (b AND 0x03)) AND 0x03 = b AND 0x03"
  unfolding drop_bit_or bit.conj_disj_distrib2 seq_field_bits apci_high_bits
  by (simp_all add: and.assoc)

lemma be16_low_bits: "a AND 0x03 = b AND 0x03 \<Longrightarrow> be16 a c AND 0x03FF = be16 b c AND 0x03FF"
proof -
  assume "a AND 0x03 = b AND 0x03"
  then have "\<And>n. bit (a AND 0x03) n = bit (b AND 0x03) n"
    by simp
  then have ab: "bit a n = bit b n" if "n < 2" for n
    using \<open>\<And>n. bit (a AND 0x03) n = bit (b AND 0x03) n\<close> [of n] that
    unfolding small_masks by (simp add: bit_simps)
  show ?thesis
    unfolding small_masks be16_def
    by (rule bit_word_eqI) (use ab in \<open>auto simp: bit_simps\<close>)
qed

lemma apdu_parse_tpci:
  assumes "a AND 0x03 = b AND 0x03"
  shows "apdu_parse (a # rest) n = apdu_parse (b # rest) n"
proof (cases rest)
  case (Cons c cs)
  then show ?thesis
    using be16_low_bits [OF assms, of c]
    by (simp add: apdu_parse_def decode_apci_def cong: if_cong)
qed (simp add: apdu_parse_def)

lemma tpdu_parse_connected:
  assumes "a \<noteq> []"
  shows "tpdu_parse (encode_data_connected s a) n AddrIndividual d =
    map_option (TData DataConnected (s AND 0x0F)) (apdu_parse a n)"
proof -
  obtain b bs where a: "a = b # bs" using assms by (cases a) auto
  note c = connected_bits [of s b]
  show ?thesis
    using c(1-3) apdu_parse_tpci [OF c(4), of bs n]
    by (simp add: a tpdu_parse_def encode_data_connected_def Let_def)
      (cases "apdu_parse (b # bs) n"; simp)
qed

text \<open>A data TPDU without transport bits decodes by its address type alone.\<close>

lemma tpdu_parse_unnumbered:
  assumes "bytes \<noteq> []" and "bytes ! 0 AND 0xC0 = 0"
  shows "tpdu_parse bytes n at d = map_option
    (TData (if at = AddrGroup then if d = 0 then DataBroadcast else DataGroup else DataIndividual)
       (drop_bit 2 (bytes ! 0) AND 0x0F)) (apdu_parse bytes n)"
proof -
  from assms(2) have "bytes ! 0 AND 0x80 = 0" "bytes ! 0 AND 0x40 = 0"
    by (simp_all add: u8_eq_bits bit_simps)
  with assms(1) show ?thesis
    by (simp add: tpdu_parse_def Let_def) (cases "apdu_parse bytes n"; simp)
qed

lemma header_unnumbered:
  assumes "encode_apci_header t tpci = (b0, lo)" and "tpci AND 0xC0 = 0"
  shows "b0 AND 0xC0 = 0"
  using assms by (auto simp: encode_apci_header_def Let_def u8_eq_bits bit_simps)

end
