(* ===== verification/Cemi.thy ===== *)
theory Cemi
  imports Tpdu Address
begin

text \<open>
  The cEMI frame (\<open>knx-rs-core/src/cemi.rs\<close>): an owned buffer with the offset of its first
  control octet, parsing, construction of L_Data frames, typed accessors and in-place setters.
  \<open>cemi_wf\<close> is the representation invariant, exactly what the parser accepts; the setters keep
  it. The locale \<open>control_field\<close> is the contract of one field of a control octet, interpreted on
  the eight fields of the code; \<open>cemi_view\<close> is the abstract header that the setters update one
  component at a time.
\<close>

datatype CemiError =
    TooShort | LengthMismatch | UnknownMessageCode u8 | InvalidControlField | PayloadTooLong nat

record CemiFrame =
  frame_data :: "u8 list"
  ctrl_offset :: nat

definition MIN_FRAME_SIZE :: nat where "MIN_FRAME_SIZE = 9"
definition NPDU_LEN_OFFSET :: nat where "NPDU_LEN_OFFSET = 6"
definition TPDU_OFFSET :: nat where "TPDU_OFFSET = 7"

lemmas frame_offsets = MIN_FRAME_SIZE_def NPDU_LEN_OFFSET_def TPDU_OFFSET_def

section \<open>Parsing and construction\<close>

definition cemi_parse :: "u8 list \<Rightarrow> CemiError + CemiFrame" where
  "cemi_parse data =
     (if length data < 2 then Inl TooShort
      else case message_code_try_from (data ! 0) of
        Inl _ \<Rightarrow> Inl (UnknownMessageCode (data ! 0))
      | Inr _ \<Rightarrow>
        let ctrl = 2 + unat (data ! 1) in
        if length data < ctrl + 7 then Inl TooShort
        else let npdu_octet_count = unat (data ! (ctrl + NPDU_LEN_OFFSET));
                 payload_len = max (npdu_octet_count + 1) 2;
                 expected_len = ctrl + TPDU_OFFSET + payload_len
             in if length data \<noteq> expected_len then Inl LengthMismatch
                else Inr \<lparr>frame_data = take expected_len data, ctrl_offset = ctrl\<rparr>)"

fun dest_type :: "DestinationAddress \<Rightarrow> AddressType" where
  "dest_type (DestGroup _) = AddrGroup" | "dest_type (DestIndividual _) = AddrIndividual"

fun dest_raw :: "DestinationAddress \<Rightarrow> u16" where
  "dest_raw (DestGroup g) = ga_raw g" | "dest_raw (DestIndividual a) = ia_raw a"

text \<open>
  The frame is built by writing each field into a zeroed buffer, in the code's order.
\<close>

definition try_new_l_data ::
  "MessageCode \<Rightarrow> IndividualAddress \<Rightarrow> DestinationAddress \<Rightarrow> Priority \<Rightarrow> u8 list \<Rightarrow> CemiError + CemiFrame"
where
  "try_new_l_data mc source destination prio payload =
     (if length payload > 255 + 1 then Inl (PayloadTooLong (length payload))
      else let
        npdu_octet_count = (if payload = [] then 0 else length payload - 1);
        encoded_payload_len = max (length payload) 2;
        data = replicate (MIN_FRAME_SIZE + encoded_payload_len) 0;
        data = data[0 := message_code_u8 mc];
        data = data[1 := 0];
        ctrl = 2;
        data = data[ctrl := frame_format_u8 Standard OR repetition_u8 WasNotRepeated
                       OR system_broadcast_u8 SysBroadcast OR priority_u8 prio];
        data = data[ctrl + 1 := address_type_u8 (dest_type destination) OR push_bit 4 6];
        src_bytes = ia_to_bytes source;
        data = data[ctrl + 2 := src_bytes ! 0];
        data = data[ctrl + 3 := src_bytes ! 1];
        dst_bytes = to_be16 (dest_raw destination);
        data = data[ctrl + 4 := dst_bytes ! 0];
        data = data[ctrl + 5 := dst_bytes ! 1]
      in if npdu_octet_count > 255 then Inl (PayloadTooLong (length payload))
         else let
           data = data[ctrl + NPDU_LEN_OFFSET := of_nat npdu_octet_count];
           data = (if payload \<noteq> [] then buf_write (ctrl + TPDU_OFFSET) payload data else data)
         in Inr \<lparr>frame_data = data, ctrl_offset = ctrl\<rparr>)"

text \<open>\<open>new_l_data\<close> panics (\<open>None\<close>) where \<open>try_new_l_data\<close> fails.\<close>

definition new_l_data ::
  "MessageCode \<Rightarrow> IndividualAddress \<Rightarrow> DestinationAddress \<Rightarrow> Priority \<Rightarrow> u8 list \<Rightarrow> CemiFrame option"
where
  "new_l_data mc source destination prio payload =
     (case try_new_l_data mc source destination prio payload of Inr f \<Rightarrow> Some f | Inl _ \<Rightarrow> None)"

section \<open>Accessors\<close>

definition message_code_raw :: "CemiFrame \<Rightarrow> u8" where
  "message_code_raw f = frame_data f ! 0"

definition additional_info_length :: "CemiFrame \<Rightarrow> u8" where
  "additional_info_length f = frame_data f ! 1"

definition ctrl1 :: "CemiFrame \<Rightarrow> u8" where "ctrl1 f = frame_data f ! ctrl_offset f"
definition ctrl2 :: "CemiFrame \<Rightarrow> u8" where "ctrl2 f = frame_data f ! (ctrl_offset f + 1)"

text \<open>The decoders of one field, as functions of the control octet.\<close>

definition dec_frame_type :: "u8 \<Rightarrow> FrameFormat" where
  "dec_frame_type c = unwrap_or (frame_format_try_from c) Extended"
definition dec_repetition :: "u8 \<Rightarrow> Repetition" where
  "dec_repetition c = (if c AND CTRL1_REPETITION_MASK \<noteq> 0 then WasNotRepeated else WasRepeated)"
definition dec_system_broadcast :: "u8 \<Rightarrow> SystemBroadcast" where
  "dec_system_broadcast c = (if c AND CTRL1_SYSTEM_BROADCAST_MASK \<noteq> 0 then SysBroadcast else SysSystem)"
definition dec_priority :: "u8 \<Rightarrow> Priority" where
  "dec_priority c = unwrap_or (priority_try_from c) Low"
definition dec_ack :: "u8 \<Rightarrow> AckType" where
  "dec_ack c = (if c AND CTRL1_ACK_MASK \<noteq> 0 then Requested else DontCare)"
definition dec_confirm :: "u8 \<Rightarrow> Confirm" where
  "dec_confirm c = (if c AND CTRL1_CONFIRM_MASK \<noteq> 0 then ConfirmError else NoError)"
definition dec_address_type :: "u8 \<Rightarrow> AddressType" where
  "dec_address_type c = unwrap_or (address_type_try_from c) AddrIndividual"
definition dec_hop_count :: "u8 \<Rightarrow> u8" where
  "dec_hop_count c = drop_bit CTRL2_HOP_COUNT_SHIFT c AND HOP_COUNT_VALUE_MASK"

lemmas field_decoders = dec_frame_type_def dec_repetition_def dec_system_broadcast_def
  dec_priority_def dec_ack_def dec_confirm_def dec_address_type_def dec_hop_count_def

definition cemi_frame_type :: "CemiFrame \<Rightarrow> FrameFormat" where
  "cemi_frame_type f = dec_frame_type (ctrl1 f)"
definition cemi_repetition :: "CemiFrame \<Rightarrow> Repetition" where
  "cemi_repetition f = dec_repetition (ctrl1 f)"
definition cemi_system_broadcast :: "CemiFrame \<Rightarrow> SystemBroadcast" where
  "cemi_system_broadcast f = dec_system_broadcast (ctrl1 f)"
definition cemi_priority :: "CemiFrame \<Rightarrow> Priority" where
  "cemi_priority f = dec_priority (ctrl1 f)"
definition cemi_ack :: "CemiFrame \<Rightarrow> AckType" where
  "cemi_ack f = dec_ack (ctrl1 f)"
definition cemi_confirm :: "CemiFrame \<Rightarrow> Confirm" where
  "cemi_confirm f = dec_confirm (ctrl1 f)"
definition cemi_address_type :: "CemiFrame \<Rightarrow> AddressType" where
  "cemi_address_type f = dec_address_type (ctrl2 f)"
definition cemi_hop_count :: "CemiFrame \<Rightarrow> u8" where
  "cemi_hop_count f = dec_hop_count (ctrl2 f)"

definition source_address :: "CemiFrame \<Rightarrow> IndividualAddress" where
  "source_address f = (let off = ctrl_offset f + 2 in
     ia_from_bytes (frame_data f ! off) (frame_data f ! (off + 1)))"

definition destination_address_raw :: "CemiFrame \<Rightarrow> u16" where
  "destination_address_raw f = (let off = ctrl_offset f + 4 in
     be16 (frame_data f ! off) (frame_data f ! (off + 1)))"

definition destination_address :: "CemiFrame \<Rightarrow> DestinationAddress" where
  "destination_address f = (let raw = destination_address_raw f in
     case cemi_address_type f of
       AddrGroup \<Rightarrow> DestGroup (GroupAddress raw)
     | AddrIndividual \<Rightarrow> DestIndividual (IndividualAddress raw))"

definition npdu_length :: "CemiFrame \<Rightarrow> u8" where
  "npdu_length f = frame_data f ! (ctrl_offset f + NPDU_LEN_OFFSET)"

definition cemi_payload :: "CemiFrame \<Rightarrow> u8 list" where
  "cemi_payload f = drop (ctrl_offset f + TPDU_OFFSET) (frame_data f)"

definition as_bytes :: "CemiFrame \<Rightarrow> u8 list" where
  "as_bytes f = frame_data f"

definition total_length :: "CemiFrame \<Rightarrow> nat" where
  "total_length f = length (frame_data f)"

definition cemi_tpdu :: "CemiFrame \<Rightarrow> Tpdu option" where
  "cemi_tpdu f = tpdu_parse (cemi_payload f) (npdu_length f) (cemi_address_type f)
     (destination_address_raw f)"

definition as_group_write :: "CemiFrame \<Rightarrow> (GroupAddress \<times> u8 list) option" where
  "as_group_write f =
     (if cemi_address_type f \<noteq> AddrGroup then None
      else do { t \<leftarrow> cemi_tpdu f; a \<leftarrow> tpdu_apdu t;
        if apdu_type a \<in> {GroupValueWrite, GroupValueResponse}
        then Some (GroupAddress (destination_address_raw f), apdu_data a) else None })"

definition as_group_read :: "CemiFrame \<Rightarrow> GroupAddress option" where
  "as_group_read f =
     (if cemi_address_type f \<noteq> AddrGroup then None
      else do { t \<leftarrow> cemi_tpdu f; a \<leftarrow> tpdu_apdu t;
        if apdu_type a \<noteq> GroupValueRead then None
        else Some (GroupAddress (destination_address_raw f)) })"

fun crc_tp_loop :: "u8 \<Rightarrow> u8 list \<Rightarrow> u8" where
  "crc_tp_loop crc [] = crc" | "crc_tp_loop crc (b # bs) = crc_tp_loop (crc XOR b) bs"

definition calc_crc_tp :: "u8 list \<Rightarrow> u8" where
  "calc_crc_tp buffer = crc_tp_loop 0xFF buffer"

section \<open>Setters\<close>

text \<open>\<open>data[i] = (data[i] & !MASK) | value\<close>\<close>

definition set_ctrl :: "nat \<Rightarrow> u8 \<Rightarrow> u8 \<Rightarrow> CemiFrame \<Rightarrow> CemiFrame" where
  "set_ctrl off msk v f = f\<lparr>frame_data := (frame_data f)[ctrl_offset f + off :=
     set_masked msk v (frame_data f ! (ctrl_offset f + off))]\<rparr>"

definition set_frame_type :: "FrameFormat \<Rightarrow> CemiFrame \<Rightarrow> CemiFrame" where
  "set_frame_type v = set_ctrl 0 CTRL1_FRAME_FORMAT_MASK (frame_format_u8 v)"
definition set_repetition :: "Repetition \<Rightarrow> CemiFrame \<Rightarrow> CemiFrame" where
  "set_repetition v = set_ctrl 0 CTRL1_REPETITION_MASK (repetition_u8 v)"
definition set_system_broadcast :: "SystemBroadcast \<Rightarrow> CemiFrame \<Rightarrow> CemiFrame" where
  "set_system_broadcast v = set_ctrl 0 CTRL1_SYSTEM_BROADCAST_MASK (system_broadcast_u8 v)"
definition set_priority :: "Priority \<Rightarrow> CemiFrame \<Rightarrow> CemiFrame" where
  "set_priority v = set_ctrl 0 CTRL1_PRIORITY_MASK (priority_u8 v)"
definition set_ack :: "AckType \<Rightarrow> CemiFrame \<Rightarrow> CemiFrame" where
  "set_ack v = set_ctrl 0 CTRL1_ACK_MASK (ack_type_u8 v)"
definition set_confirm :: "Confirm \<Rightarrow> CemiFrame \<Rightarrow> CemiFrame" where
  "set_confirm v = set_ctrl 0 CTRL1_CONFIRM_MASK (confirm_u8 v)"
definition set_address_type :: "AddressType \<Rightarrow> CemiFrame \<Rightarrow> CemiFrame" where
  "set_address_type v = set_ctrl 1 CTRL2_ADDRESS_TYPE_MASK (address_type_u8 v)"
definition hop_count_bits :: "u8 \<Rightarrow> u8" where
  "hop_count_bits v = push_bit CTRL2_HOP_COUNT_SHIFT (v AND HOP_COUNT_VALUE_MASK)"
definition set_hop_count :: "u8 \<Rightarrow> CemiFrame \<Rightarrow> CemiFrame" where
  "set_hop_count v = set_ctrl 1 CTRL2_HOP_COUNT_MASK (hop_count_bits v)"

definition set_source_address :: "IndividualAddress \<Rightarrow> CemiFrame \<Rightarrow> CemiFrame" where
  "set_source_address addr f = (let bytes = ia_to_bytes addr; off = ctrl_offset f + 2 in
     f\<lparr>frame_data := (frame_data f)[off := bytes ! 0, off + 1 := bytes ! 1]\<rparr>)"

definition set_destination_address_raw :: "u16 \<Rightarrow> CemiFrame \<Rightarrow> CemiFrame" where
  "set_destination_address_raw addr f = (let bytes = to_be16 addr; off = ctrl_offset f + 4 in
     f\<lparr>frame_data := (frame_data f)[off := bytes ! 0, off + 1 := bytes ! 1]\<rparr>)"

section \<open>The contract of a control field\<close>

text \<open>
  A field lives inside its mask: its encoder stays in the mask, its decoder looks at nothing
  else, and decoding inverts encoding. Then writing the field is read back, and any reader
  that looks only at a disjoint mask is unaffected.
\<close>

locale control_field =
  fixes msk :: u8 and enc :: "'v \<Rightarrow> u8" and dec :: "u8 \<Rightarrow> 'v" and valid :: "'v \<Rightarrow> bool"
  assumes enc_in_mask: "enc v AND msk = enc v"
    and dec_masked: "dec (c AND msk) = dec c"
    and dec_enc: "valid v \<Longrightarrow> dec (enc v) = v"
begin

lemma read_back: "valid v \<Longrightarrow> dec (set_masked msk (enc v) c) = v"
  using masked_same [OF enc_in_mask, of v c] dec_masked [of "set_masked msk (enc v) c"] dec_enc
  by simp

lemma frame:
  assumes "v AND m = v" and "m AND msk = 0"
  shows "dec (set_masked m v c) = dec c"
  using masked_other [OF assms, of c] dec_masked by metis

end

lemma enum_field_values:
  "frame_format_u8 a AND CTRL1_FRAME_FORMAT_MASK = frame_format_u8 a"
  "repetition_u8 b AND CTRL1_REPETITION_MASK = repetition_u8 b"
  "system_broadcast_u8 c AND CTRL1_SYSTEM_BROADCAST_MASK = system_broadcast_u8 c"
  "priority_u8 d AND CTRL1_PRIORITY_MASK = priority_u8 d"
  "ack_type_u8 e AND CTRL1_ACK_MASK = ack_type_u8 e"
  "confirm_u8 g AND CTRL1_CONFIRM_MASK = confirm_u8 g"
  "address_type_u8 h AND CTRL2_ADDRESS_TYPE_MASK = address_type_u8 h"
  by ((cases a; simp add: control_masks), (cases b; simp add: control_masks),
      (cases c; simp add: control_masks), (cases d; simp add: control_masks),
      (cases e; simp add: control_masks), (cases g; simp add: control_masks),
      (cases h; simp add: control_masks))

lemma hop_count_field:
  "hop_count_bits v AND CTRL2_HOP_COUNT_MASK = hop_count_bits v"
  "dec_hop_count (c AND CTRL2_HOP_COUNT_MASK) = dec_hop_count c"
  "dec_hop_count (hop_count_bits v) = v AND HOP_COUNT_VALUE_MASK"
  by (simp_all add: hop_count_bits_def dec_hop_count_def control_masks u8_eq_bits bit_simps)

lemmas enum_decoders = field_decoders frame_format_try_from_def priority_try_from_def
  address_type_try_from_def control_masks Let_def

lemma enum_dec_masked:
  "dec_frame_type (c AND CTRL1_FRAME_FORMAT_MASK) = dec_frame_type c"
  "dec_repetition (c AND CTRL1_REPETITION_MASK) = dec_repetition c"
  "dec_system_broadcast (c AND CTRL1_SYSTEM_BROADCAST_MASK) = dec_system_broadcast c"
  "dec_priority (c AND CTRL1_PRIORITY_MASK) = dec_priority c"
  "dec_ack (c AND CTRL1_ACK_MASK) = dec_ack c"
  "dec_confirm (c AND CTRL1_CONFIRM_MASK) = dec_confirm c"
  "dec_address_type (c AND CTRL2_ADDRESS_TYPE_MASK) = dec_address_type c"
  by (simp_all add: field_decoders frame_format_try_from_def priority_try_from_def
      address_type_try_from_def and.assoc)

lemma enum_dec_enc:
  "dec_frame_type (frame_format_u8 a) = a"
  "dec_repetition (repetition_u8 b) = b"
  "dec_system_broadcast (system_broadcast_u8 c) = c"
  "dec_priority (priority_u8 d) = d"
  "dec_ack (ack_type_u8 e) = e"
  "dec_confirm (confirm_u8 g) = g"
  "dec_address_type (address_type_u8 h) = h"
  by ((cases a; simp add: enum_decoders),
      (cases b; simp add: enum_decoders),
      (cases c; simp add: enum_decoders),
      (cases d; simp add: enum_decoders),
      (cases e; simp add: enum_decoders),
      (cases g; simp add: enum_decoders),
      (cases h; simp add: enum_decoders))

lemmas field_laws = enum_field_values enum_dec_masked enum_dec_enc hop_count_field

interpretation ff: control_field CTRL1_FRAME_FORMAT_MASK frame_format_u8 dec_frame_type "\<lambda>_. True"
  by unfold_locales (simp_all add: field_laws)

interpretation rp: control_field CTRL1_REPETITION_MASK repetition_u8 dec_repetition "\<lambda>_. True"
  by unfold_locales (simp_all add: field_laws)

interpretation sb: control_field CTRL1_SYSTEM_BROADCAST_MASK system_broadcast_u8 dec_system_broadcast "\<lambda>_. True"
  by unfold_locales (simp_all add: field_laws)

interpretation pr: control_field CTRL1_PRIORITY_MASK priority_u8 dec_priority "\<lambda>_. True"
  by unfold_locales (simp_all add: field_laws)

interpretation ak: control_field CTRL1_ACK_MASK ack_type_u8 dec_ack "\<lambda>_. True"
  by unfold_locales (simp_all add: field_laws)

interpretation cf: control_field CTRL1_CONFIRM_MASK confirm_u8 dec_confirm "\<lambda>_. True"
  by unfold_locales (simp_all add: field_laws)

interpretation adt: control_field CTRL2_ADDRESS_TYPE_MASK address_type_u8 dec_address_type "\<lambda>_. True"
  by unfold_locales (simp_all add: field_laws)

interpretation hc: control_field CTRL2_HOP_COUNT_MASK hop_count_bits dec_hop_count
  "\<lambda>v. v AND HOP_COUNT_VALUE_MASK = v"
  by unfold_locales (simp_all add: field_laws)

section \<open>The representation invariant\<close>

definition cemi_wf :: "CemiFrame \<Rightarrow> bool" where
  "cemi_wf f \<longleftrightarrow> (let d = frame_data f; c = ctrl_offset f in
     2 \<le> length d \<and> (\<exists>mc. message_code_try_from (d ! 0) = Inr mc) \<and> c = 2 + unat (d ! 1) \<and>
     length d = c + TPDU_OFFSET + max (unat (d ! (c + NPDU_LEN_OFFSET)) + 1) 2)"

lemma cemi_wfD:
  assumes "cemi_wf f"
  shows "2 \<le> ctrl_offset f" "ctrl_offset f + 9 \<le> length (frame_data f)"
    "length (frame_data f) = ctrl_offset f + 7 + max (unat (npdu_length f) + 1) 2"
  using assms by (auto simp: cemi_wf_def npdu_length_def frame_offsets Let_def max_def)

lemma parse_accepts_wf: "cemi_parse d = Inr f \<longleftrightarrow> frame_data f = d \<and> cemi_wf f"
proof (cases "length d < 2")
  case True
  then show ?thesis by (auto simp: cemi_parse_def cemi_wf_def Let_def)
next
  case False
  then show ?thesis
    by (cases f; cases "message_code_try_from (d ! 0)")
      (auto simp: cemi_parse_def cemi_wf_def Let_def frame_offsets)
qed

lemma reparse_wf: "cemi_wf f \<Longrightarrow> cemi_parse (as_bytes f) = Inr f"
  by (simp add: parse_accepts_wf as_bytes_def)

section \<open>The abstract header\<close>

record cemi_view =
  v_code :: u8
  v_frame_type :: FrameFormat
  v_repetition :: Repetition
  v_system_broadcast :: SystemBroadcast
  v_priority :: Priority
  v_ack :: AckType
  v_confirm :: Confirm
  v_address_type :: AddressType
  v_hop_count :: u8
  v_source :: IndividualAddress
  v_destination :: u16
  v_npdu :: u8
  v_payload :: "u8 list"

definition cemi_view_of :: "CemiFrame \<Rightarrow> cemi_view" where
  "cemi_view_of f = \<lparr>v_code = message_code_raw f, v_frame_type = cemi_frame_type f,
     v_repetition = cemi_repetition f, v_system_broadcast = cemi_system_broadcast f,
     v_priority = cemi_priority f, v_ack = cemi_ack f, v_confirm = cemi_confirm f,
     v_address_type = cemi_address_type f, v_hop_count = cemi_hop_count f,
     v_source = source_address f, v_destination = destination_address_raw f,
     v_npdu = npdu_length f, v_payload = cemi_payload f\<rparr>"

lemmas view_defs = cemi_view_of_def message_code_raw_def cemi_frame_type_def cemi_repetition_def
  cemi_system_broadcast_def cemi_priority_def cemi_ack_def cemi_confirm_def cemi_address_type_def
  cemi_hop_count_def source_address_def destination_address_raw_def npdu_length_def cemi_payload_def
  ctrl1_def ctrl2_def frame_offsets Let_def

lemmas setter_defs = set_frame_type_def set_repetition_def set_system_broadcast_def
  set_priority_def set_ack_def set_confirm_def set_address_type_def set_hop_count_def

lemma mask_disjoint:
  "CTRL1_FRAME_FORMAT_MASK AND CTRL1_REPETITION_MASK = 0" "CTRL1_FRAME_FORMAT_MASK AND CTRL1_SYSTEM_BROADCAST_MASK = 0"
  "CTRL1_FRAME_FORMAT_MASK AND CTRL1_PRIORITY_MASK = 0" "CTRL1_FRAME_FORMAT_MASK AND CTRL1_ACK_MASK = 0"
  "CTRL1_FRAME_FORMAT_MASK AND CTRL1_CONFIRM_MASK = 0" "CTRL1_REPETITION_MASK AND CTRL1_SYSTEM_BROADCAST_MASK = 0"
  "CTRL1_REPETITION_MASK AND CTRL1_PRIORITY_MASK = 0" "CTRL1_REPETITION_MASK AND CTRL1_ACK_MASK = 0"
  "CTRL1_REPETITION_MASK AND CTRL1_CONFIRM_MASK = 0" "CTRL1_SYSTEM_BROADCAST_MASK AND CTRL1_PRIORITY_MASK = 0"
  "CTRL1_SYSTEM_BROADCAST_MASK AND CTRL1_ACK_MASK = 0" "CTRL1_SYSTEM_BROADCAST_MASK AND CTRL1_CONFIRM_MASK = 0"
  "CTRL1_PRIORITY_MASK AND CTRL1_ACK_MASK = 0" "CTRL1_PRIORITY_MASK AND CTRL1_CONFIRM_MASK = 0"
  "CTRL1_ACK_MASK AND CTRL1_CONFIRM_MASK = 0" "CTRL2_ADDRESS_TYPE_MASK AND CTRL2_HOP_COUNT_MASK = 0"
  by (simp_all add: control_masks)

lemmas mask_disjoint_both = mask_disjoint mask_disjoint [THEN trans [OF and.commute]]

lemmas field_frames = ff.frame rp.frame sb.frame pr.frame ak.frame cf.frame adt.frame hc.frame
lemmas field_reads = ff.read_back rp.read_back sb.read_back pr.read_back ak.read_back cf.read_back
  adt.read_back hc.read_back

lemma set_ctrl_reads:
  assumes "cemi_wf f"
  shows "ctrl1 (set_ctrl 0 m v f) = set_masked m v (ctrl1 f)"
    and "ctrl2 (set_ctrl (Suc 0) m v f) = set_masked m v (ctrl2 f)"
    and "ctrl2 (set_ctrl 0 m v f) = ctrl2 f" and "ctrl1 (set_ctrl (Suc 0) m v f) = ctrl1 f"
  using cemi_wfD [OF assms] by (simp_all add: set_ctrl_def ctrl1_def ctrl2_def)

lemma set_ctrl_others:
  assumes "cemi_wf f" and "off \<in> {0, Suc 0}"
  shows "message_code_raw (set_ctrl off m v f) = message_code_raw f"
    and "additional_info_length (set_ctrl off m v f) = additional_info_length f"
    and "source_address (set_ctrl off m v f) = source_address f"
    and "destination_address_raw (set_ctrl off m v f) = destination_address_raw f"
    and "npdu_length (set_ctrl off m v f) = npdu_length f"
    and "cemi_payload (set_ctrl off m v f) = cemi_payload f"
  using cemi_wfD(1,2) [OF assms(1)] assms(2)
  by (auto simp: set_ctrl_def view_defs additional_info_length_def)

section \<open>Setters refine updates of the abstract header\<close>

datatype Setter =
    SetFrameType FrameFormat | SetRepetition Repetition | SetSystemBroadcast SystemBroadcast
  | SetPriority Priority | SetAck AckType | SetConfirm Confirm | SetAddressType AddressType
  | SetHopCount u8 | SetSource IndividualAddress | SetDestination u16

fun cemi_apply :: "Setter \<Rightarrow> CemiFrame \<Rightarrow> CemiFrame" where
  "cemi_apply (SetFrameType v) = set_frame_type v"
| "cemi_apply (SetRepetition v) = set_repetition v"
| "cemi_apply (SetSystemBroadcast v) = set_system_broadcast v"
| "cemi_apply (SetPriority v) = set_priority v"
| "cemi_apply (SetAck v) = set_ack v"
| "cemi_apply (SetConfirm v) = set_confirm v"
| "cemi_apply (SetAddressType v) = set_address_type v"
| "cemi_apply (SetHopCount v) = set_hop_count v"
| "cemi_apply (SetSource v) = set_source_address v"
| "cemi_apply (SetDestination v) = set_destination_address_raw v"

fun view_apply :: "Setter \<Rightarrow> cemi_view \<Rightarrow> cemi_view" where
  "view_apply (SetFrameType v) h = h\<lparr>v_frame_type := v\<rparr>"
| "view_apply (SetRepetition v) h = h\<lparr>v_repetition := v\<rparr>"
| "view_apply (SetSystemBroadcast v) h = h\<lparr>v_system_broadcast := v\<rparr>"
| "view_apply (SetPriority v) h = h\<lparr>v_priority := v\<rparr>"
| "view_apply (SetAck v) h = h\<lparr>v_ack := v\<rparr>"
| "view_apply (SetConfirm v) h = h\<lparr>v_confirm := v\<rparr>"
| "view_apply (SetAddressType v) h = h\<lparr>v_address_type := v\<rparr>"
| "view_apply (SetHopCount v) h = h\<lparr>v_hop_count := v AND HOP_COUNT_VALUE_MASK\<rparr>"
| "view_apply (SetSource v) h = h\<lparr>v_source := v\<rparr>"
| "view_apply (SetDestination v) h = h\<lparr>v_destination := v\<rparr>"

lemma wf_list_update:
  assumes "cemi_wf f" and "ctrl_offset f \<le> i" and "i < ctrl_offset f + NPDU_LEN_OFFSET"
  shows "cemi_wf (f\<lparr>frame_data := (frame_data f)[i := x]\<rparr>)"
  using assms by (auto simp: cemi_wf_def Let_def frame_offsets)

lemma cemi_apply_wf: "cemi_wf f \<Longrightarrow> cemi_wf (cemi_apply op f)"
proof (cases op)
  case (SetSource v)
  assume wf: "cemi_wf f"
  show ?thesis
    using wf_list_update [OF wf_list_update [OF wf, of "ctrl_offset f + 2" "ia_to_bytes v ! 0"],
        of "ctrl_offset f + 3" "ia_to_bytes v ! 1"]
    by (simp add: SetSource set_source_address_def frame_offsets Let_def numeral_3_eq_3)
next
  case (SetDestination v)
  assume wf: "cemi_wf f"
  show ?thesis
    using wf_list_update [OF wf_list_update [OF wf, of "ctrl_offset f + 4" "to_be16 v ! 0"],
        of "ctrl_offset f + 5" "to_be16 v ! 1"]
    by (simp add: SetDestination set_destination_address_raw_def frame_offsets Let_def ac_simps)
qed (auto simp: setter_defs set_ctrl_def frame_offsets intro!: wf_list_update)

lemma hop_count_set: "dec_hop_count (set_masked CTRL2_HOP_COUNT_MASK (hop_count_bits v) c) = v AND HOP_COUNT_VALUE_MASK"
  by (metis hop_count_field(1,2,3) masked_same)

lemmas read_ctrl_fields = cemi_frame_type_def cemi_repetition_def cemi_system_broadcast_def
  cemi_priority_def cemi_ack_def cemi_confirm_def cemi_address_type_def cemi_hop_count_def

lemma cemi_apply_view:
  assumes "cemi_wf f"
  shows "cemi_view_of (cemi_apply op f) = view_apply op (cemi_view_of f)"
proof (cases op)
  case (SetSource v)
  then show ?thesis
    using cemi_wfD(1,2) [OF assms]
    by (simp add: set_source_address_def view_defs ia_to_bytes_def to_be16_def ia_from_bytes_def)
next
  case (SetDestination v)
  then show ?thesis
    using cemi_wfD(1,2) [OF assms] by (simp add: set_destination_address_raw_def view_defs to_be16_def)
qed (simp_all add: setter_defs cemi_view_of_def read_ctrl_fields set_ctrl_reads [OF assms]
    set_ctrl_others [OF assms] field_frames field_laws mask_disjoint_both hop_count_set field_reads)

text \<open>
  any sequence of setter calls on a well-formed frame leaves a well-formed
  frame whose abstract header is the old one with exactly the named components replaced, in
  order; the message code, the NPDU length and the payload are never touched.
\<close>
lemma setters_refine:
  assumes "cemi_wf f"
  shows "cemi_wf (fold cemi_apply ops f) \<and>
    cemi_view_of (fold cemi_apply ops f) = fold view_apply ops (cemi_view_of f)"
  using assms
proof (induction ops arbitrary: f)
  case (Cons op ops)
  with cemi_apply_wf [OF Cons.prems] cemi_apply_view [OF Cons.prems] show ?case by simp
qed simp

text \<open>A telegram with its priority raised to urgent, its hop count lowered and a new source.\<close>

definition sample_frame :: CemiFrame where
  "sample_frame = \<lparr>frame_data = [0x29, 0x00, 0xBC, 0xE0, 0x11, 0x01, 0x08, 0x05, 0x01, 0x00, 0x81],
     ctrl_offset = 2\<rparr>"

lemma sample_frame_wf: "cemi_wf sample_frame"
  by (simp add: cemi_wf_def sample_frame_def frame_offsets Let_def message_code_try_from_def)

section \<open>Parsing and building frames\<close>

text \<open>
  The layout of a frame on the wire (KNX specification 3/6/3): the message code, the length of the
  additional information and the information, two control octets, source and destination, the
  length of the TPDU, and its octets, at least two.
\<close>

definition frame_octets :: "u8 \<Rightarrow> u8 list \<Rightarrow> u8 \<Rightarrow> u8 \<Rightarrow> u16 \<Rightarrow> u16 \<Rightarrow> u8 \<Rightarrow> u8 list \<Rightarrow> u8 list" where
  "frame_octets code info c1 c2 src dst len payload =
     [code, of_nat (length info)] @ info @ [c1, c2] @ to_be16 src @ to_be16 dst @ [len] @ payload"

definition known_codes :: "u8 list" where
  "known_codes = [0x11, 0x29, 0x2E, 0xFC, 0xFB, 0xF6, 0xF5, 0xF7, 0xF8, 0xF9, 0xFA, 0xF1, 0xF0]"

lemma known_code: "(\<exists>mc. message_code_try_from c = Inr mc) \<longleftrightarrow> c \<in> set known_codes"
  by (auto simp: message_code_try_from_def known_codes_def)

lemma header_split: "9 \<le> length xs \<Longrightarrow> \<exists>c1 c2 s1 s2 d1 d2 len ys. xs = [c1, c2, s1, s2, d1, d2, len] @ ys \<and> 2 \<le> length ys"
  by (auto simp: numeral_eq_Suc Suc_le_length_iff)

lemma drop_header: "drop (9 + length xs) (a # b # xs @ c # d # e # f # g # h # i # ys) = ys"
proof -
  have "9 + length xs = Suc (Suc (length xs + 7))" by simp
  then show ?thesis by (simp add: drop_append numeral_eq_Suc del: add_Suc_right)
qed

lemma frame_octets_fields:
  assumes "f = \<lparr>frame_data = frame_octets code info c1 c2 src dst len payload, ctrl_offset = 2 + length info\<rparr>"
  shows "message_code_raw f = code" "additional_info_length f = of_nat (length info)" "ctrl1 f = c1" "ctrl2 f = c2"
    "source_address f = IndividualAddress src" "destination_address_raw f = dst" "npdu_length f = len" "cemi_payload f = payload"
  by (simp_all add: assms frame_octets_def to_be16_def message_code_raw_def additional_info_length_def ctrl1_def ctrl2_def
      source_address_def destination_address_raw_def ia_from_bytes_def npdu_length_def cemi_payload_def frame_offsets nth_append drop_header Let_def)

lemma frame_octets_wf:
  assumes "length info < 256"
  shows "cemi_wf \<lparr>frame_data = frame_octets code info c1 c2 src dst len payload, ctrl_offset = 2 + length info\<rparr> \<longleftrightarrow>
    code \<in> set known_codes \<and> length payload = max (unat len + 1) 2"
proof -
  have "unat (of_nat (length info) :: u8) = length info" using assms by (simp add: unat_of_nat)
  then show ?thesis
    unfolding known_code [symmetric]
    by (auto simp: cemi_wf_def frame_octets_def to_be16_def frame_offsets nth_append Let_def)
qed

lemma wf_layout:
  assumes "cemi_wf f"
  shows "\<exists>code info c1 c2 src dst len payload. frame_data f = frame_octets code info c1 c2 src dst len payload \<and>
    length info < 256 \<and> ctrl_offset f = 2 + length info"
proof -
  let ?d = "frame_data f" and ?n = "unat (frame_data f ! 1)"
  have l: "2 + ?n + 9 \<le> length ?d" "ctrl_offset f = 2 + ?n" using cemi_wfD [OF assms] assms by (auto simp: cemi_wf_def Let_def)
  then obtain a b tl where d: "?d = a # b # tl" by (auto simp: numeral_eq_Suc Suc_le_length_iff)
  have "9 \<le> length (drop ?n tl)" using l(1) d by simp
  from header_split [OF this] obtain c1 c2 s1 s2 d1 d2 len ys where r: "drop ?n tl = [c1, c2, s1, s2, d1, d2, len] @ ys" by blast
  have b: "of_nat (length (take ?n tl)) = b" "length (take ?n tl) = ?n" using l(1) d by simp_all
  have "tl = take ?n tl @ [c1, c2, s1, s2, d1, d2, len] @ ys" using r append_take_drop_id [of ?n tl] by simp
  then have "?d = frame_octets a (take ?n tl) c1 c2 (be16 s1 s2) (be16 d1 d2) len ys"
    using b(1) by (simp add: frame_octets_def d)
  moreover have "?n < 256" using unsigned_less [of "?d ! 1", where 'a = nat] by simp
  ultimately show ?thesis using b(2) l(2) by metis
qed

text \<open>
  C34: \<open>CemiFrame::parse\<close> accepts exactly the octet strings laid out as a frame with one of the
  thirteen known message codes and as many TPDU octets as the length octet says, at least two; it
  keeps every octet, and the accessors give the parts of the layout. What it rejects gets the error
  that fits: too short for the header, an unknown code, or a wrong length, in this order.
\<close>
theorem parse_layout:
  "(cemi_parse bytes = Inr f \<longleftrightarrow> (\<exists>code info c1 c2 src dst len payload.
      bytes = frame_octets code info c1 c2 src dst len payload \<and> code \<in> set known_codes \<and> length info < 256 \<and>
      length payload = max (unat len + 1) 2 \<and> as_bytes f = bytes \<and> ctrl_offset f = 2 + length info \<and>
      message_code_raw f = code \<and> additional_info_length f = of_nat (length info) \<and> ctrl1 f = c1 \<and> ctrl2 f = c2 \<and>
      source_address f = IndividualAddress src \<and> destination_address_raw f = dst \<and> npdu_length f = len \<and>
      cemi_payload f = payload)) \<and>
   (cemi_parse bytes = Inl TooShort \<longleftrightarrow>
      length bytes < 2 \<or> bytes ! 0 \<in> set known_codes \<and> length bytes < 9 + unat (bytes ! 1)) \<and>
   (\<forall>v. cemi_parse bytes = Inl (UnknownMessageCode v) \<longleftrightarrow> 2 \<le> length bytes \<and> v = bytes ! 0 \<and> v \<notin> set known_codes) \<and>
   (cemi_parse bytes = Inl LengthMismatch \<longleftrightarrow>
      2 \<le> length bytes \<and> bytes ! 0 \<in> set known_codes \<and> 9 + unat (bytes ! 1) \<le> length bytes \<and>
      length bytes \<noteq> 9 + unat (bytes ! 1) + max (unat (bytes ! (8 + unat (bytes ! 1))) + 1) 2)"
proof -
  have "cemi_parse bytes = Inr f \<longleftrightarrow> (\<exists>code info c1 c2 src dst len payload.
      bytes = frame_octets code info c1 c2 src dst len payload \<and> code \<in> set known_codes \<and> length info < 256 \<and>
      length payload = max (unat len + 1) 2 \<and> f = \<lparr>frame_data = bytes, ctrl_offset = 2 + length info\<rparr>)" (is "_ \<longleftrightarrow> ?layout")
  proof
    assume "cemi_parse bytes = Inr f"
    then have f: "frame_data f = bytes" "cemi_wf f" by (simp_all add: parse_accepts_wf)
    then show ?layout using wf_layout [OF f(2)] frame_octets_wf by (metis CemiFrame.surjective old.unit.exhaust)
  next
    assume ?layout
    then show "cemi_parse bytes = Inr f" using frame_octets_wf by (auto simp: parse_accepts_wf)
  qed
  moreover have "?layout \<longleftrightarrow> (\<exists>code info c1 c2 src dst len payload.
      bytes = frame_octets code info c1 c2 src dst len payload \<and> code \<in> set known_codes \<and> length info < 256 \<and>
      length payload = max (unat len + 1) 2 \<and> as_bytes f = bytes \<and> ctrl_offset f = 2 + length info \<and>
      message_code_raw f = code \<and> additional_info_length f = of_nat (length info) \<and> ctrl1 f = c1 \<and> ctrl2 f = c2 \<and>
      source_address f = IndividualAddress src \<and> destination_address_raw f = dst \<and> npdu_length f = len \<and>
      cemi_payload f = payload)"
    by (intro arg_cong [where f = Ex] ext, cases f) (auto simp: frame_octets_fields as_bytes_def)
  moreover have "cemi_parse bytes = Inl TooShort \<longleftrightarrow>
      length bytes < 2 \<or> bytes ! 0 \<in> set known_codes \<and> length bytes < 9 + unat (bytes ! 1)"
    "\<forall>v. cemi_parse bytes = Inl (UnknownMessageCode v) \<longleftrightarrow> 2 \<le> length bytes \<and> v = bytes ! 0 \<and> v \<notin> set known_codes"
    "cemi_parse bytes = Inl LengthMismatch \<longleftrightarrow>
      2 \<le> length bytes \<and> bytes ! 0 \<in> set known_codes \<and> 9 + unat (bytes ! 1) \<le> length bytes \<and>
      length bytes \<noteq> 9 + unat (bytes ! 1) + max (unat (bytes ! (8 + unat (bytes ! 1))) + 1) 2"
    unfolding known_code [symmetric]
    by (cases "message_code_try_from (bytes ! 0)"; auto simp: cemi_parse_def frame_offsets Let_def)+
  ultimately show ?thesis by blast
qed

text \<open>Of a group write with two octets of additional information, every part is found.\<close>

theorem parse_layout_witness:
  "\<exists>f. cemi_parse [0x29, 2, 0xAA, 0xBB, 0xBC, 0xE0, 0x11, 0x01, 0x08, 0x05, 1, 0, 0x81] = Inr f \<and>
     source_address f = IndividualAddress 0x1101 \<and> destination_address_raw f = 0x0805 \<and> cemi_payload f = [0, 0x81]"
proof -
  have o: "frame_octets 0x29 [0xAA, 0xBB] 0xBC 0xE0 0x1101 0x0805 1 [0, 0x81] =
      [0x29, 2, 0xAA, 0xBB, 0xBC, 0xE0, 0x11, 0x01, 0x08, 0x05, 1, 0, 0x81]" by code_simp
  let ?f = "\<lparr>frame_data = frame_octets 0x29 [0xAA, 0xBB] 0xBC 0xE0 0x1101 0x0805 1 [0, 0x81], ctrl_offset = 4\<rparr>"
  note fields = frame_octets_fields [of ?f "0x29" "[0xAA, 0xBB]" "0xBC" "0xE0" "0x1101" "0x0805" 1 "[0, 0x81]"]
  have "cemi_parse (frame_octets 0x29 [0xAA, 0xBB] 0xBC 0xE0 0x1101 0x0805 1 [0, 0x81]) = Inr ?f"
    by (rule conjunct1 [OF parse_layout, THEN iffD2])
      (rule exI [of _ "0x29"], rule exI [of _ "[0xAA, 0xBB]"], rule exI [of _ "0xBC"], rule exI [of _ "0xE0"],
       rule exI [of _ "0x1101"], rule exI [of _ "0x0805"], rule exI [of _ 1], rule exI [of _ "[0, 0x81]"],
       simp add: fields known_codes_def as_bytes_def)
  then show ?thesis using fields o by (intro exI [of _ ?f]) simp
qed

text \<open>A payload shorter than two octets is padded with zeros.\<close>

definition pad_payload :: "u8 list \<Rightarrow> u8 list" where
  "pad_payload p = p @ replicate (2 - length p) 0"

definition l_data_octets ::
  "MessageCode \<Rightarrow> IndividualAddress \<Rightarrow> DestinationAddress \<Rightarrow> Priority \<Rightarrow> u8 list \<Rightarrow> u8 list"
where
  "l_data_octets mc src dst p payload =
    [message_code_u8 mc, 0, frame_format_u8 Standard OR repetition_u8 WasNotRepeated
       OR system_broadcast_u8 SysBroadcast OR priority_u8 p, address_type_u8 (dest_type dst) OR push_bit 4 6]
     @ to_be16 (ia_raw src) @ to_be16 (dest_raw dst) @ [of_nat (length payload - 1)] @ pad_payload payload"

lemma drop_9: "drop (9 + n) (a # b # c # d # e # f # g # h # i # xs) = drop n xs"
  by (simp add: numeral_eq_Suc)

lemma try_new_l_data_frame:
  assumes "length payload \<le> 256"
  shows "try_new_l_data mc src dst p payload =
    Inr \<lparr>frame_data = l_data_octets mc src dst p payload, ctrl_offset = 2\<rparr>"
proof -
  have r: "replicate (9 + m) (0::u8) = [0, 0, 0, 0, 0, 0, 0, 0, 0] @ replicate m 0" for m
    unfolding replicate_add by (simp add: numeral_eq_Suc)
  have "max (length payload) 2 - length payload = 2 - length payload" by linarith
  then show ?thesis
    using assms(1)
    by (cases "payload = []")
      (auto simp: try_new_l_data_def l_data_octets_def frame_offsets Let_def r to_be16_def ia_to_bytes_def
        pad_payload_def buf_write_def list_update_append numeral_2_eq_2 drop_9)
qed

text \<open>
  \<open>try_new_l_data\<close> fails exactly for payloads of more than 256 octets (and \<open>new_l_data\<close> panics then);
  otherwise the frame parses back to itself and every accessor returns what was passed.
\<close>

lemma new_l_data_fields:
  "case try_new_l_data mc src dst p payload of
     Inl e \<Rightarrow> 256 < length payload \<and> e = PayloadTooLong (length payload) \<and>
       new_l_data mc src dst p payload = None
   | Inr f \<Rightarrow> length payload \<le> 256 \<and> new_l_data mc src dst p payload = Some f \<and>
       cemi_parse (as_bytes f) = Inr f \<and> total_length f = 9 + length (pad_payload payload) \<and>
       destination_address f = dst \<and>
       cemi_view_of f = \<lparr>v_code = message_code_u8 mc, v_frame_type = Standard,
         v_repetition = WasNotRepeated, v_system_broadcast = SysBroadcast, v_priority = p,
         v_ack = DontCare, v_confirm = NoError, v_address_type = dest_type dst, v_hop_count = 6,
         v_source = src, v_destination = dest_raw dst, v_npdu = of_nat (length payload - 1),
         v_payload = pad_payload payload\<rparr>"
proof (cases "length payload \<le> 256")
  case True
  note f = try_new_l_data_frame [OF True, of mc src dst p]
  have n: "unat (of_nat (length payload - 1) :: u8) = length payload - 1"
    using True by (simp add: unat_of_nat del: of_nat_diff)
  then have "max (unat (of_nat (length payload - 1) :: u8) + 1) 2 = max (length payload) 2"
    by linarith
  then have wf: "cemi_wf \<lparr>frame_data = l_data_octets mc src dst p payload, ctrl_offset = 2\<rparr>"
    by (simp add: l_data_octets_def cemi_wf_def frame_offsets to_be16_def pad_payload_def Let_def n)
  have "ia_from_bytes (ucast (drop_bit 8 (ia_raw src))) (ucast (ia_raw src)) = src"
    by (simp add: ia_from_bytes_def)
  then have "cemi_view_of \<lparr>frame_data = l_data_octets mc src dst p payload, ctrl_offset = 2\<rparr> =
     \<lparr>v_code = message_code_u8 mc, v_frame_type = Standard,
         v_repetition = WasNotRepeated, v_system_broadcast = SysBroadcast, v_priority = p,
         v_ack = DontCare, v_confirm = NoError, v_address_type = dest_type dst, v_hop_count = 6,
         v_source = src, v_destination = dest_raw dst, v_npdu = of_nat (length payload - 1),
         v_payload = pad_payload payload\<rparr>"
    by (cases dst; cases p)
      (simp_all add: l_data_octets_def view_defs enum_decoders to_be16_def)
  moreover have "destination_address \<lparr>frame_data = l_data_octets mc src dst p payload, ctrl_offset = 2\<rparr> = dst"
    by (cases dst) (simp_all add: l_data_octets_def destination_address_def view_defs enum_decoders to_be16_def)
  ultimately show ?thesis
    using True wf
    by (simp add: f new_l_data_def reparse_wf total_length_def) (simp add: l_data_octets_def)
qed (simp add: try_new_l_data_def new_l_data_def)

section \<open>Telegrams end to end\<close>

lemma frame_fields:
  assumes "new_l_data mc src dst p payload = Some f"
  shows "cemi_wf f" "cemi_payload f = pad_payload payload" "npdu_length f = npdu_of payload"
    "cemi_address_type f = dest_type dst" "destination_address_raw f = dest_raw dst"
    "source_address f = src" "cemi_priority f = p" "message_code_raw f = message_code_u8 mc"
    "destination_address f = dst"
  using assms new_l_data_fields [where mc = mc and src = src and dst = dst and p = p and payload = payload]
  by (auto simp: cemi_view_of_def npdu_of_def new_l_data_def parse_accepts_wf split: sum.splits)

lemma pad_payload_long: "2 \<le> length p \<Longrightarrow> pad_payload p = p"
  by (simp add: pad_payload_def)

lemma group_bytes_shape:
  assumes "group_try_to_bytes g tpci = Inr bytes" and "tpci AND 0xC0 = 0"
  shows "2 \<le> length bytes" "bytes ! 0 AND 0xC0 = 0"
  using assms header_unnumbered [OF _ assms(2)]
  by (auto simp: group_try_to_bytes_def split: GroupValueApdu.splits GroupValuePayload.splits
      prod.splits if_splits)

lemma unnumbered_frame:
  assumes "new_l_data mc src dst p bytes = Some f" and "2 \<le> length bytes" and "bytes ! 0 AND 0xC0 = 0"
    and "apdu_parse bytes (npdu_of bytes) = Some a"
  shows "cemi_tpdu f = Some (TData
    (if dest_type dst = AddrGroup then if dest_raw dst = 0 then DataBroadcast else DataGroup
     else DataIndividual) (drop_bit 2 (bytes ! 0) AND 0x0F) a)"
  using assms(2-4) tpdu_parse_unnumbered [OF _ assms(3)]
  by (cases "bytes = []") (auto simp: cemi_tpdu_def frame_fields [OF assms(1)] pad_payload_long)

lemma connected_frame:
  assumes "new_l_data mc src (DestIndividual dst) p (encode_data_connected s bytes) = Some f"
    and "2 \<le> length bytes"
  shows "cemi_tpdu f = map_option (TData DataConnected (s AND 0x0F)) (apdu_parse bytes (npdu_of bytes))"
proof -
  have "bytes \<noteq> []" using assms(2) by auto
  then show ?thesis
    using assms(2) length_encode_data_connected [OF \<open>bytes \<noteq> []\<close>, of s]
    by (simp add: cemi_tpdu_def frame_fields [OF assms(1)] pad_payload_long tpdu_parse_connected
        npdu_of_def)
qed

lemma control_frame:
  assumes "new_l_data mc src (DestIndividual dst) p (encode_control t s) = Some f"
    and "t \<in> control_types"
  shows "cemi_tpdu f = Some (TControl t (control_seq t s))"
  by (simp add: cemi_tpdu_def frame_fields [OF assms(1)] pad_payload_def tpdu_parse_control [OF assms(2)])

text \<open>
  a datapoint value that \<open>from_dpt_encoded\<close> accepts, put into a
  group write or response with its payload form chosen by the datapoint type, wrapped into a
  frame and sent, is read back by \<open>as_group_write\<close> of the parsed frame: the same group address
  and the same octets. The frame is not mistaken for a group read.
\<close>
lemma group_telegram_roundtrip:
  assumes "from_dpt_encoded d data = Inr pl" and "length data \<le> 254"
    and "g \<in> {GResponse pl, GWrite pl}" and "group_try_to_bytes g 0 = Inr bytes"
    and "new_l_data mc src (DestGroup ga) p bytes = Some f"
  shows "cemi_parse (as_bytes f) = Inr f \<and> as_group_write f = Some (ga, data) \<and> as_group_read f = None"
proof -
  from assms(3) obtain t where t: "(g, t) \<in> {(GResponse pl, GroupValueResponse), (GWrite pl, GroupValueWrite)}"
    by auto
  have "payload_data pl = data" using from_dpt_encoded_data [OF assms(1)] .
  with group_roundtrip_gen [OF assms(4) t] assms(2)
  have "apdu_parse bytes (npdu_of bytes) = Some \<lparr>apdu_type = t, apdu_data = data\<rparr>" by simp
  with unnumbered_frame [OF assms(5)] group_bytes_shape [OF assms(4)] t frame_fields [OF assms(5)] show ?thesis
    by (auto simp: as_group_write_def as_group_read_def reparse_wf)
qed

text \<open>
  an APDU sent over a connection, with its TPCI octet carrying
  the sequence number modulo 16, is decoded by the receiver as connected data with that sequence
  number and the same service and data. A data field too large for the frame makes the
  constructor panic, so the frame exists only for at most 254 octets. The services whose
  APCI octet carries a count are excluded: they are decoded with that octet in the data.
\<close>
lemma connected_telegram_roundtrip:
  assumes "\<not> low_octet_service (apdu_type a)"
    and "new_l_data mc src (DestIndividual dst) p (encode_data_connected s (apdu_to_bytes a tpci)) = Some f"
  shows "cemi_tpdu f = Some (TData DataConnected (s AND 0x0F)
     \<lparr>apdu_type = apdu_type a, apdu_data = canonical_data a\<rparr>)"
proof -
  have l: "2 \<le> length (apdu_to_bytes a tpci)" "apdu_to_bytes a tpci \<noteq> []"
    "length (apdu_data a) \<le> 254 \<or> 256 < length (apdu_to_bytes a tpci)"
    by (auto simp: apdu_to_bytes_def Let_def split: prod.splits)
  then have "length (apdu_data a) \<le> 254"
    using assms(2) length_encode_data_connected [OF l(2), of s] by (auto simp: new_l_data_def try_new_l_data_def)
  with connected_frame [OF assms(2) l(1)] apdu_roundtrip_gen [OF assms(1)] show ?thesis
    by simp
qed

text \<open>
  every control TPDU (connect, disconnect, positive and negative
  acknowledgement) survives the frame, padding octet included; acknowledgements keep their
  sequence number modulo 16, connect and disconnect carry 0.
\<close>
lemma control_telegram_roundtrip:
  assumes "t \<in> control_types"
  shows "\<exists>f. new_l_data mc src (DestIndividual dst) p (encode_control t s) = Some f \<and>
    cemi_parse (as_bytes f) = Inr f \<and> total_length f = 11 \<and> npdu_length f = 0 \<and>
    cemi_tpdu f = Some (TControl t (control_seq t s))"
proof -
  have l: "length (encode_control t s) = 1"
    using assms by (auto simp: control_types_def encode_control_def)
  then obtain f where f: "new_l_data mc src (DestIndividual dst) p (encode_control t s) = Some f"
    by (simp add: new_l_data_def try_new_l_data_frame)
  with l control_frame [OF f assms] frame_fields [OF f] show ?thesis
    using new_l_data_fields [where mc = mc and src = src and dst = "DestIndividual dst" and p = p
      and payload = "encode_control t s"]
    by (auto simp: new_l_data_def npdu_of_def pad_payload_def split: sum.splits)
qed

section \<open>The TP check octet\<close>

lemma crc_tp_loop_fold: "crc_tp_loop c bs = c XOR crc_tp_loop 0 bs"
proof (induction bs arbitrary: c)
  case (Cons b bs)
  show ?case
    using Cons.IH [of "c XOR b"] Cons.IH [of b] by (simp add: xor.assoc)
qed simp

lemma crc_tp_loop_append: "crc_tp_loop c (xs @ ys) = crc_tp_loop (crc_tp_loop c xs) ys"
  by (induction xs arbitrary: c) simp_all

lemma xor_cancel: "(a::u8) XOR (b XOR b) = a" "a XOR (a XOR b) = b"
  by (simp_all flip: xor.assoc)

lemma crc_tp_update:
  "i < length buf \<Longrightarrow> crc_tp_loop c (buf[i := x]) = crc_tp_loop c buf XOR (buf ! i XOR x)"
proof (induction buf arbitrary: i c)
  case (Cons b bs)
  have "(c XOR x) XOR r = ((c XOR b) XOR r) XOR (b XOR x)" for r
    by (simp add: xor.left_commute xor.commute xor.assoc xor_cancel)
  then show ?case
    using Cons crc_tp_loop_fold [of "c XOR x" bs] crc_tp_loop_fold [of "c XOR b" bs]
    by (cases i) simp_all
qed simp

lemma xor_eq_0: "a XOR b = 0 \<longleftrightarrow> a = b" for a b :: u8
  by (metis xor_cancel(2) xor.right_neutral xor_self_eq)

lemma xor_eq_left: "a XOR b = a \<longleftrightarrow> b = 0" for a b :: u8
  by (metis xor_cancel(2) xor.right_neutral xor_self_eq)

text \<open>
  Appending the check octet makes the check of the whole zero, and
  replacing one octet of a buffer changes its check octet unless it is the same octet.
\<close>
lemma crc_tp_detects:
  "calc_crc_tp (buf @ [calc_crc_tp buf]) = 0 \<and>
   (i < length buf \<longrightarrow> (calc_crc_tp (buf[i := x]) = calc_crc_tp buf \<longleftrightarrow> x = buf ! i))"
  by (auto simp: calc_crc_tp_def crc_tp_loop_append crc_tp_update xor_eq_left xor_eq_0)

end
