(* ===== verification/Properties.thy ===== *)
theory Properties
  imports Prelude
begin

text \<open>
  The property system of the device (\<open>knx-rs-device/src/property/\<close>): data types and their element
  sizes, property identifiers, load states and events, data-backed properties with their read and
  write loops, and properties backed by callbacks. A callback is a function argument of the
  model: its effects outside the property are not modelled.
\<close>

section \<open>Property types\<close>

datatype (plugins only:) PropertyDataType =
    PdtControl | PdtChar | PdtUnsignedChar | PdtInt | PdtUnsignedInt | PdtKnxFloat | PdtDate
  | PdtTime | PdtLong | PdtUnsignedLong | PdtFloat | PdtDouble | PdtCharBlock
  | PdtPollGroupSetting | PdtShortCharBlock | PdtDateTime | PdtVariableLength | PdtGeneric01
  | PdtGeneric02 | PdtGeneric03 | PdtGeneric04 | PdtGeneric05 | PdtGeneric06 | PdtGeneric07
  | PdtGeneric08 | PdtGeneric09 | PdtGeneric10 | PdtFunction

datatype (plugins only:) PropertyId =
    PidObjectType | PidLoadStateControl | PidRunStateControl | PidTableReference
  | PidServiceControl | PidFirmwareRevision | PidSerialNumber | PidManufacturerId
  | PidProgramVersion | PidDeviceControl | PidOrderInfo | PidPeiType | PidPortConfiguration
  | PidTable | PidVersion | PidMcbTable | PidErrorCode | PidObjectIndex | PidDownloadCounter
  | PidRoutingCount | PidProgMode | PidMaxApduLength | PidSubnetAddr | PidDeviceAddr | PidIoList
  | PidHardwareType | PidDeviceDescriptor

primrec pdt_size :: "PropertyDataType \<Rightarrow> u8" where
  "pdt_size PdtControl = 1"
| "pdt_size PdtChar = 1"
| "pdt_size PdtUnsignedChar = 1"
| "pdt_size PdtInt = 2"
| "pdt_size PdtUnsignedInt = 2"
| "pdt_size PdtKnxFloat = 2"
| "pdt_size PdtDate = 3"
| "pdt_size PdtTime = 3"
| "pdt_size PdtLong = 4"
| "pdt_size PdtUnsignedLong = 4"
| "pdt_size PdtFloat = 4"
| "pdt_size PdtDouble = 8"
| "pdt_size PdtCharBlock = 10"
| "pdt_size PdtPollGroupSetting = 3"
| "pdt_size PdtShortCharBlock = 5"
| "pdt_size PdtDateTime = 8"
| "pdt_size PdtVariableLength = 0"
| "pdt_size PdtGeneric01 = 1"
| "pdt_size PdtGeneric02 = 2"
| "pdt_size PdtGeneric03 = 3"
| "pdt_size PdtGeneric04 = 4"
| "pdt_size PdtGeneric05 = 5"
| "pdt_size PdtGeneric06 = 6"
| "pdt_size PdtGeneric07 = 7"
| "pdt_size PdtGeneric08 = 8"
| "pdt_size PdtGeneric09 = 9"
| "pdt_size PdtGeneric10 = 10"
| "pdt_size PdtFunction = 0"

primrec pdt_u8 :: "PropertyDataType \<Rightarrow> u8" where
  "pdt_u8 PdtControl = 0x00"
| "pdt_u8 PdtChar = 0x01"
| "pdt_u8 PdtUnsignedChar = 0x02"
| "pdt_u8 PdtInt = 0x03"
| "pdt_u8 PdtUnsignedInt = 0x04"
| "pdt_u8 PdtKnxFloat = 0x05"
| "pdt_u8 PdtDate = 0x06"
| "pdt_u8 PdtTime = 0x07"
| "pdt_u8 PdtLong = 0x08"
| "pdt_u8 PdtUnsignedLong = 0x09"
| "pdt_u8 PdtFloat = 0x0A"
| "pdt_u8 PdtDouble = 0x0B"
| "pdt_u8 PdtCharBlock = 0x0C"
| "pdt_u8 PdtPollGroupSetting = 0x0D"
| "pdt_u8 PdtShortCharBlock = 0x0E"
| "pdt_u8 PdtDateTime = 0x0F"
| "pdt_u8 PdtVariableLength = 0x10"
| "pdt_u8 PdtGeneric01 = 0x11"
| "pdt_u8 PdtGeneric02 = 0x12"
| "pdt_u8 PdtGeneric03 = 0x13"
| "pdt_u8 PdtGeneric04 = 0x14"
| "pdt_u8 PdtGeneric05 = 0x15"
| "pdt_u8 PdtGeneric06 = 0x16"
| "pdt_u8 PdtGeneric07 = 0x17"
| "pdt_u8 PdtGeneric08 = 0x18"
| "pdt_u8 PdtGeneric09 = 0x19"
| "pdt_u8 PdtGeneric10 = 0x1A"
| "pdt_u8 PdtFunction = 0x3E"

primrec property_id_u8 :: "PropertyId \<Rightarrow> u8" where
  "property_id_u8 PidObjectType = 1"
| "property_id_u8 PidLoadStateControl = 5"
| "property_id_u8 PidRunStateControl = 6"
| "property_id_u8 PidTableReference = 7"
| "property_id_u8 PidServiceControl = 8"
| "property_id_u8 PidFirmwareRevision = 9"
| "property_id_u8 PidSerialNumber = 11"
| "property_id_u8 PidManufacturerId = 12"
| "property_id_u8 PidProgramVersion = 13"
| "property_id_u8 PidDeviceControl = 14"
| "property_id_u8 PidOrderInfo = 15"
| "property_id_u8 PidPeiType = 16"
| "property_id_u8 PidPortConfiguration = 17"
| "property_id_u8 PidTable = 23"
| "property_id_u8 PidVersion = 25"
| "property_id_u8 PidMcbTable = 27"
| "property_id_u8 PidErrorCode = 28"
| "property_id_u8 PidObjectIndex = 29"
| "property_id_u8 PidDownloadCounter = 30"
| "property_id_u8 PidRoutingCount = 51"
| "property_id_u8 PidProgMode = 54"
| "property_id_u8 PidMaxApduLength = 56"
| "property_id_u8 PidSubnetAddr = 57"
| "property_id_u8 PidDeviceAddr = 58"
| "property_id_u8 PidIoList = 71"
| "property_id_u8 PidHardwareType = 78"
| "property_id_u8 PidDeviceDescriptor = 83"

definition property_id_try_from :: "u8 \<Rightarrow> u8 + PropertyId" where
  "property_id_try_from v = ok_or (map_of
    [(1, PidObjectType), (5, PidLoadStateControl), (6, PidRunStateControl), (7, PidTableReference)
     , (8, PidServiceControl), (9, PidFirmwareRevision), (11, PidSerialNumber)
     , (12, PidManufacturerId), (13, PidProgramVersion), (14, PidDeviceControl)
     , (15, PidOrderInfo), (16, PidPeiType), (17, PidPortConfiguration), (23, PidTable)
     , (25, PidVersion), (27, PidMcbTable), (28, PidErrorCode), (29, PidObjectIndex)
     , (30, PidDownloadCounter), (51, PidRoutingCount), (54, PidProgMode), (56, PidMaxApduLength)
     , (57, PidSubnetAddr), (58, PidDeviceAddr), (71, PidIoList), (78, PidHardwareType)
     , (83, PidDeviceDescriptor)] v) v"

datatype LoadState = Unloaded | Loaded | Loading | LoadStateError | Unloading | LoadCompleting

primrec load_state_u8 :: "LoadState \<Rightarrow> u8" where
  "load_state_u8 Unloaded = 0" | "load_state_u8 Loaded = 1" | "load_state_u8 Loading = 2"
| "load_state_u8 LoadStateError = 3" | "load_state_u8 Unloading = 4" | "load_state_u8 LoadCompleting = 5"

definition load_state_from :: "u8 \<Rightarrow> LoadState" where
  "load_state_from v =
     (if v = 1 then Loaded else if v = 2 then Loading else if v = 3 then LoadStateError
      else if v = 4 then Unloading else if v = 5 then LoadCompleting else Unloaded)"

datatype LoadEvent = Noop | StartLoading | LoadCompleted | AdditionalLoadControls | Unload

definition load_event_from_byte :: "u8 \<Rightarrow> LoadEvent option" where
  "load_event_from_byte v =
     (if v = 0 then Some Noop else if v = 1 then Some StartLoading else if v = 2 then Some LoadCompleted
      else if v = 3 then Some AdditionalLoadControls else if v = 4 then Some Unload else None)"

datatype AccessLevel = AccessNone | WriteLow | WriteMedium | WriteHigh

primrec access_level_u8 :: "AccessLevel \<Rightarrow> u8" where
  "access_level_u8 AccessNone = 0" | "access_level_u8 WriteLow = 1"
| "access_level_u8 WriteMedium = 2" | "access_level_u8 WriteHigh = 3"

record PropertyDescription =
  pd_id :: PropertyId
  pd_write_enable :: bool
  pd_data_type :: PropertyDataType
  pd_max_elements :: u16
  pd_access :: AccessLevel

section \<open>Data-backed properties\<close>

record DataProperty =
  dp_id :: PropertyId
  dp_write_enable :: bool
  dp_data_type :: PropertyDataType
  dp_max_elements :: u16
  dp_access :: AccessLevel
  dp_data :: "u8 list"

definition dp_new ::
  "PropertyId \<Rightarrow> bool \<Rightarrow> PropertyDataType \<Rightarrow> u16 \<Rightarrow> AccessLevel \<Rightarrow> u8 list \<Rightarrow> DataProperty" where
  "dp_new i we dt mx ac initial = \<lparr>dp_id = i, dp_write_enable = we, dp_data_type = dt,
     dp_max_elements = mx, dp_access = ac, dp_data = initial\<rparr>"

definition dp_read_only :: "PropertyId \<Rightarrow> PropertyDataType \<Rightarrow> u8 list \<Rightarrow> DataProperty" where
  "dp_read_only i dt v = dp_new i False dt 1 AccessNone v"

definition dp_read_write :: "PropertyId \<Rightarrow> PropertyDataType \<Rightarrow> u8 list \<Rightarrow> DataProperty" where
  "dp_read_write i dt v = dp_new i True dt 1 AccessNone v"

definition dp_element_size :: "DataProperty \<Rightarrow> nat" where
  "dp_element_size p = unat (pdt_size (dp_data_type p))"

text \<open>
  \<open>for i in 0..count\<close>: \<open>i\<close> counts up, the fourth argument counts the iterations left.
\<close>

fun dp_read_loop :: "nat \<Rightarrow> nat \<Rightarrow> u8 list \<Rightarrow> nat \<Rightarrow> nat \<Rightarrow> u8 list \<Rightarrow> u8 \<Rightarrow> u8 list \<times> u8" where
  "dp_read_loop es start_idx data 0 i buf rc = (buf, rc)"
| "dp_read_loop es start_idx data (Suc n) i buf rc =
     (let elem_idx = start_idx + i in
      if elem_idx \<ge> length data div es then (buf, rc)
      else let offset = elem_idx * es; fin = offset + es in
        if fin \<le> length data then dp_read_loop es start_idx data n (i + 1) (buf @ buf_slice offset fin data) (rc + 1)
        else dp_read_loop es start_idx data n (i + 1) buf rc)"

definition dp_read :: "u16 \<Rightarrow> u8 \<Rightarrow> u8 list \<Rightarrow> DataProperty \<Rightarrow> u8 list \<times> u8" where
  "dp_read start count buf p =
     (let es = dp_element_size p in
      if es = 0 then (buf @ dp_data p, 1)
      else dp_read_loop es (unat start - 1) (dp_data p) (unat count) 0 buf 0)"

fun dp_write_loop ::
  "nat \<Rightarrow> nat \<Rightarrow> nat \<Rightarrow> u8 list \<Rightarrow> nat \<Rightarrow> nat \<Rightarrow> u8 list \<Rightarrow> u8 \<Rightarrow> u8 list \<times> u8" where
  "dp_write_loop es start_idx mx d 0 i data written = (data, written)"
| "dp_write_loop es start_idx mx d (Suc n) i data written =
     (let elem_idx = start_idx + i; data_offset = i * es; prop_offset = elem_idx * es in
      if data_offset + es > length d then (data, written)
      else let needed = prop_offset + es in
        if needed > length data \<and> elem_idx \<ge> mx then (data, written)
        else let data = (if needed > length data then vec_resize needed 0 data else data) in
          dp_write_loop es start_idx mx d n (i + 1)
            (buf_write prop_offset (buf_slice data_offset (data_offset + es) d) data) (written + 1))"

definition dp_write :: "u16 \<Rightarrow> u8 \<Rightarrow> u8 list \<Rightarrow> DataProperty \<Rightarrow> DataProperty \<times> u8" where
  "dp_write start count d p =
     (if \<not> dp_write_enable p then (p, 0)
      else let es = dp_element_size p in
        if es = 0 then (p\<lparr>dp_data := d\<rparr>, 1)
        else let (data, w) = dp_write_loop es (unat start - 1) (unat (dp_max_elements p)) d (unat count) 0 (dp_data p) 0
          in (p\<lparr>dp_data := data\<rparr>, w))"

definition dp_description :: "DataProperty \<Rightarrow> PropertyDescription" where
  "dp_description p = \<lparr>pd_id = dp_id p, pd_write_enable = dp_write_enable p,
     pd_data_type = dp_data_type p, pd_max_elements = dp_max_elements p, pd_access = dp_access p\<rparr>"

section \<open>Properties\<close>

datatype PropertyStorage =
    StData DataProperty
  | StCallback "u16 \<Rightarrow> u8 \<Rightarrow> u8 list" "(u16 \<Rightarrow> u8 \<Rightarrow> u8 list \<Rightarrow> u8) option"

record Property =
  p_id :: PropertyId
  p_write_enable :: bool
  p_data_type :: PropertyDataType
  p_max_elements :: u16
  p_access :: AccessLevel
  p_storage :: PropertyStorage

definition property_data :: "DataProperty \<Rightarrow> Property" where
  "property_data d = \<lparr>p_id = dp_id d, p_write_enable = dp_write_enable d, p_data_type = dp_data_type d,
     p_max_elements = dp_max_elements d, p_access = dp_access d, p_storage = StData d\<rparr>"

definition property_callback ::
  "PropertyId \<Rightarrow> bool \<Rightarrow> PropertyDataType \<Rightarrow> u16 \<Rightarrow> AccessLevel \<Rightarrow> (u16 \<Rightarrow> u8 \<Rightarrow> u8 list) \<Rightarrow>
   (u16 \<Rightarrow> u8 \<Rightarrow> u8 list \<Rightarrow> u8) option \<Rightarrow> Property" where
  "property_callback i we dt mx ac rf wfn = \<lparr>p_id = i, p_write_enable = we, p_data_type = dt,
     p_max_elements = mx, p_access = ac, p_storage = StCallback rf wfn\<rparr>"

definition p_element_size :: "Property \<Rightarrow> nat" where
  "p_element_size p = unat (pdt_size (p_data_type p))"

definition p_read :: "u16 \<Rightarrow> u8 \<Rightarrow> u8 list \<Rightarrow> Property \<Rightarrow> u8 list \<times> u8" where
  "p_read start count buf p =
     (case p_storage p of
        StData d \<Rightarrow> dp_read start count buf d
      | StCallback read_fn _ \<Rightarrow>
          let data = read_fn start count in
          if data = [] then (buf, 0)
          else let es = p_element_size p;
                   n = (if es = 0 then 1 else length data div es)
               in (buf @ data, if n \<le> 255 then of_nat n else 255))"

definition p_write :: "u16 \<Rightarrow> u8 \<Rightarrow> u8 list \<Rightarrow> Property \<Rightarrow> Property \<times> u8" where
  "p_write start count d p =
     (if \<not> p_write_enable p then (p, 0)
      else case p_storage p of
        StData dp \<Rightarrow> let (dp', n) = dp_write start count d dp in (p\<lparr>p_storage := StData dp'\<rparr>, n)
      | StCallback _ write_fn \<Rightarrow>
          (p, case write_fn of None \<Rightarrow> 0 | Some f \<Rightarrow> f start count d))"

definition p_description :: "Property \<Rightarrow> PropertyDescription" where
  "p_description p = \<lparr>pd_id = p_id p, pd_write_enable = p_write_enable p,
     pd_data_type = p_data_type p, pd_max_elements = p_max_elements p, pd_access = p_access p\<rparr>"

section \<open>Identifiers\<close>

lemma property_id_try_from_u8 [simp]: "property_id_try_from (property_id_u8 i) = Inr i"
  by (cases i) (simp_all add: property_id_try_from_def)

lemma property_id_try_from_iff: "property_id_try_from v = Inr i \<longleftrightarrow> v = property_id_u8 i"
proof
  assume "property_id_try_from v = Inr i"
  then show "v = property_id_u8 i"
    unfolding property_id_try_from_def ok_or_def
    by (auto simp del: map_of.simps split: option.splits dest!: map_of_SomeD)
qed simp

lemma load_state_from_u8 [simp]: "load_state_from (load_state_u8 s) = s"
  by (cases s) (simp_all add: load_state_from_def)

section \<open>The read and write loops\<close>

text \<open>\<open>k\<close> elements from index \<open>s\<close> on, at most \<open>n\<close> and as many as are stored.\<close>

lemma slice_Suc:
  "buf_slice (m * es) (m * es + es) xs @ take (k * es) (drop (Suc m * es) xs) = take (Suc k * es) (drop (m * es) xs)"
proof -
  have "take (es + k * es) (drop (m * es) xs) =
      take es (drop (m * es) xs) @ take (k * es) (drop es (drop (m * es) xs))"
    by (rule take_add)
  then show ?thesis by (simp add: buf_slice_def add.commute)
qed

lemma dp_read_loop_elements:
  assumes "0 < es"
  shows "dp_read_loop es s data n i buf rc =
    (let k = min n (length data div es - (s + i)) in
     (buf @ take (k * es) (drop ((s + i) * es) data), rc + of_nat k))"
proof (induction n arbitrary: i buf rc)
  case (Suc n)
  show ?case
  proof (cases "length data div es \<le> s + i")
    case False
    then have "Suc (s + i) \<le> length data div es" by simp
    then have "Suc (s + i) * es \<le> length data"
      using assms by (metis le_trans mult_le_mono1 times_div_less_eq_dividend mult.commute)
    then have fit: "(s + i) * es + es \<le> length data" by simp
    have k: "min (Suc n) (length data div es - (s + i)) = Suc (min n (length data div es - (s + Suc i)))"
      using False by linarith
    show ?thesis
      using False fit slice_Suc [of "s + i" es data "min n (length data div es - (s + Suc i))"]
      by (simp add: Suc Let_def k add.assoc del: min_Suc_Suc mult_Suc)
  qed (simp add: Let_def)
qed simp

lemma dp_write_loop_effect:
  assumes "0 < es" and "dp_write_loop es s mx d n i data w = (data', w')"
  shows "\<exists>k \<le> n. w' = w + of_nat k \<and> length data \<le> length data' \<and> (k = 0 \<or> (i + k) * es \<le> length d \<and> (s + i + k) * es \<le> length data') \<and>
    (\<forall>j < length data. j < (s + i) * es \<or> (s + i + k) * es \<le> j \<longrightarrow> data' ! j = data ! j) \<and>
    (\<forall>j. (s + i) * es \<le> j \<and> j < (s + i + k) * es \<longrightarrow> data' ! j = d ! (j - s * es)) \<and>
    length data' \<le> max (length data) (mx * es)"
  using assms(2)
proof (induction n arbitrary: i data w)
  case (Suc n)
  let ?po = "(s + i) * es" and ?do = "i * es"
  show ?case
  proof (cases "?do + es > length d \<or> (?po + es > length data \<and> s + i \<ge> mx)")
    case True
    with Suc.prems have "data' = data \<and> w' = w" by (auto simp: Let_def split: if_splits)
    then show ?thesis by (intro exI [of _ 0]) auto
  next
    case False
    define data1 where "data1 = (if ?po + es > length data then vec_resize (?po + es) 0 data else data)"
    define src where "src = buf_slice ?do (?do + es) d"
    have "?do + es \<le> length d" using False by linarith
    then have src: "length src = es" by (simp add: src_def)
    have l1: "?po + es \<le> length data1" "length data \<le> length data1"
      by (auto simp: data1_def)
    have keep: "data1 ! j = data ! j" if "j < length data" for j
      using that by (auto simp: data1_def vec_resize_def nth_append)
    have "dp_write_loop es s mx d n (Suc i) (buf_write ?po src data1) (w + 1) = (data', w')"
      using Suc.prems False by (auto simp: Let_def data1_def src_def split: if_splits)
    from Suc.IH [OF this] obtain k where k: "k \<le> n" "w' = w + 1 + of_nat k" "length data1 \<le> length data'"
      "k = 0 \<or> (Suc i + k) * es \<le> length d \<and> (s + Suc i + k) * es \<le> length data'"
      "\<forall>j < length data1. j < (s + Suc i) * es \<or> (s + Suc i + k) * es \<le> j \<longrightarrow> data' ! j = buf_write ?po src data1 ! j"
      "\<forall>j. (s + Suc i) * es \<le> j \<and> j < (s + Suc i + k) * es \<longrightarrow> data' ! j = d ! (j - s * es)"
      "length data' \<le> max (length data1) (mx * es)"
      using l1(1) src by auto
    have max: "length data' \<le> max (length data) (mx * es)"
    proof -
      have "length data1 \<le> max (length data) (mx * es)"
        using False mult_le_mono1 [of "Suc (s + i)" mx es] by (auto simp: data1_def max_def)
      with k(7) show ?thesis by (auto simp: max_def split: if_splits)
    qed
    have out: "\<forall>j < length data. j < ?po \<or> (s + i + Suc k) * es \<le> j \<longrightarrow> data' ! j = data ! j"
    proof (intro allI impI)
      fix j assume j: "j < length data" "j < ?po \<or> (s + i + Suc k) * es \<le> j"
      then have a: "j < ?po \<or> ?po + es \<le> j" by (auto simp: algebra_simps)
      from j have "j < (s + Suc i) * es \<or> (s + Suc i + k) * es \<le> j" by (auto simp: algebra_simps)
      with k(5) j(1) l1(2) have "data' ! j = buf_write ?po src data1 ! j" by (meson less_le_trans)
      also have "\<dots> = data1 ! j" using a l1(1) src by (intro nth_buf_write_other) auto
      finally show "data' ! j = data ! j" using keep [OF j(1)] by simp
    qed
    have inside: "\<forall>j. ?po \<le> j \<and> j < (s + i + Suc k) * es \<longrightarrow> data' ! j = d ! (j - s * es)"
    proof (intro allI impI)
      fix j assume j: "?po \<le> j \<and> j < (s + i + Suc k) * es"
      show "data' ! j = d ! (j - s * es)"
      proof (cases "j < ?po + es")
        case True
        then have "j < length data1" "j < (s + Suc i) * es" using l1(1) by auto
        with k(5) have "data' ! j = buf_write ?po src data1 ! j" by simp
        also have "\<dots> = src ! (j - ?po)" using True j l1(1) src by (intro nth_buf_write_in) auto
        also have "\<dots> = d ! (i * es + (j - ?po))"
        proof -
          have "j - ?po < es" using True j by linarith
          then show ?thesis using \<open>?do + es \<le> length d\<close> by (simp add: src_def buf_slice_def)
        qed
        also have "i * es + (j - ?po) = j - s * es" using j by (auto simp: algebra_simps)
        finally show ?thesis .
      qed (use k(6) j in auto)
    qed
    have len: "(i + Suc k) * es \<le> length d \<and> (s + i + Suc k) * es \<le> length data'"
      using k(3,4) l1(1) False by auto
    show ?thesis
      using k(1,2,3) l1(2) max out inside len
      by (intro exI [of _ "Suc k"]) auto
  qed
qed auto

lemma dp_write_frame:
  assumes "dp_write start count d p = (p', w)"
  shows "dp_id p' = dp_id p" "dp_write_enable p' = dp_write_enable p" "dp_data_type p' = dp_data_type p"
    "dp_max_elements p' = dp_max_elements p" "dp_access p' = dp_access p"
  using assms by (auto simp: dp_write_def Let_def split: if_splits prod.splits)

lemma dp_write_effect:
  assumes "dp_write start count d p = (p', w)" and "0 < dp_element_size p"
  defines "es \<equiv> dp_element_size p" and "s \<equiv> unat start - 1"
  shows "unat w \<le> unat count \<and> (w = 0 \<or> unat w * es \<le> length d \<and> (s + unat w) * es \<le> length (dp_data p')) \<and>
    length (dp_data p) \<le> length (dp_data p') \<and>
    length (dp_data p') \<le> max (length (dp_data p)) (unat (dp_max_elements p) * es) \<and>
    (\<forall>j < length (dp_data p). j < s * es \<or> (s + unat w) * es \<le> j \<longrightarrow> dp_data p' ! j = dp_data p ! j) \<and>
    (\<forall>j. s * es \<le> j \<and> j < (s + unat w) * es \<longrightarrow> dp_data p' ! j = d ! (j - s * es))"
proof (cases "dp_write_enable p")
  case True
  obtain data w2 where l: "dp_write_loop es s (unat (dp_max_elements p)) d (unat count) 0 (dp_data p) 0 = (data, w2)"
    by fastforce
  with assms True have r: "p' = p\<lparr>dp_data := data\<rparr>" "w2 = w"
    by (auto simp: dp_write_def Let_def es_def s_def)
  from dp_write_loop_effect [OF _ l] assms(2) obtain k where k: "k \<le> unat count" "w = of_nat k"
    "length (dp_data p) \<le> length data" "k = 0 \<or> k * es \<le> length d \<and> (s + k) * es \<le> length data"
    "\<forall>j < length (dp_data p). j < s * es \<or> (s + k) * es \<le> j \<longrightarrow> data ! j = dp_data p ! j"
    "\<forall>j. s * es \<le> j \<and> j < (s + k) * es \<longrightarrow> data ! j = d ! (j - s * es)"
    "length data \<le> max (length (dp_data p)) (unat (dp_max_elements p) * es)"
    unfolding r(2) es_def by auto
  have "unat w = k"
    using k(1,2) le_less_trans [OF k(1) unat_bounds(1)] by (simp add: unat_of_nat)
  with k r show ?thesis by auto
qed (use assms in \<open>auto simp: dp_write_def\<close>)

lemma dp_read_back:
  assumes "dp_write start count d p = (p', w)" and "0 < dp_element_size p"
  shows "dp_read start w buf p' = (buf @ take (unat w * dp_element_size p) d, w)"
proof -
  let ?es = "dp_element_size p" and ?s = "unat start - 1"
  note e = dp_write_effect [OF assms]
  have es: "dp_element_size p' = ?es"
    using dp_write_frame [OF assms(1)] by (simp add: dp_element_size_def)
  have min: "min (unat w) (length (dp_data p') div ?es - ?s) = unat w"
  proof (cases "w = 0")
    case False
    with e have "(?s + unat w) * ?es \<le> length (dp_data p')" by auto
    then have "?s + unat w \<le> length (dp_data p') div ?es"
      using assms(2) by (simp add: less_eq_div_iff_mult_less_eq)
    then show ?thesis by linarith
  qed simp
  have "take (unat w * ?es) (drop (?s * ?es) (dp_data p')) = take (unat w * ?es) d"
  proof (cases "w = 0")
    case False
    with e have l: "(?s + unat w) * ?es \<le> length (dp_data p')" "unat w * ?es \<le> length d" by auto
    show ?thesis
    proof (rule nth_equalityI)
      fix i assume "i < length (take (unat w * ?es) (drop (?s * ?es) (dp_data p')))"
      then have i: "i < unat w * ?es" by simp
      then have "?s * ?es + i < (?s + unat w) * ?es" by (simp add: algebra_simps)
      with e have "dp_data p' ! (?s * ?es + i) = d ! i" by (metis add_diff_cancel_left' le_add1)
      with i l show "take (unat w * ?es) (drop (?s * ?es) (dp_data p')) ! i = take (unat w * ?es) d ! i"
        by (simp add: algebra_simps)
    qed (use l in \<open>simp add: algebra_simps\<close>)
  qed simp
  with assms(2) min show ?thesis
    by (simp add: dp_read_def es dp_read_loop_elements Let_def)
qed

text \<open>
  C38: a write to a data-backed property of fixed element size reports how
  many elements it stored; reading that many from the same index gives back exactly those
  octets, every other stored octet is unchanged, stored data never shrinks, and it grows at most
  to the declared number of elements.
\<close>
theorem property_write_read:
  assumes "dp_write start count d p = (p', w)" and "0 < dp_element_size p"
  shows "dp_read start w buf p' = (buf @ take (unat w * dp_element_size p) d, w) \<and> unat w \<le> unat count \<and>
    length (dp_data p) \<le> length (dp_data p') \<and>
    length (dp_data p') \<le> max (length (dp_data p)) (unat (dp_max_elements p) * dp_element_size p) \<and>
    (\<forall>j < length (dp_data p). j < (unat start - 1) * dp_element_size p \<or>
       (unat start - 1 + unat w) * dp_element_size p \<le> j \<longrightarrow> dp_data p' ! j = dp_data p ! j)"
  using dp_read_back [OF assms] dp_write_effect [OF assms] by auto

lemma property_write_read_witness:
  "dp_read 2 2 [] (fst (dp_write 2 2 [1, 2, 3, 4] (dp_new PidTable True PdtUnsignedInt 10 AccessNone [9, 9]))) = ([1, 2, 3, 4], 2)"
proof -
  have "dp_write_loop 2 1 10 [1, 2, 3, 4] 2 0 [9, 9] (0::u8) = ([9, 9, 1, 2, 3, 4], 2)"
    by (simp add: numeral_2_eq_2 buf_write_def buf_slice_def vec_resize_def)
  then have "dp_write 2 2 [1, 2, 3, 4] (dp_new PidTable True PdtUnsignedInt 10 AccessNone [9, 9]) =
      (dp_new PidTable True PdtUnsignedInt 10 AccessNone [9, 9, 1, 2, 3, 4], 2)"
    by (simp add: dp_write_def dp_new_def dp_element_size_def)
  from property_write_read [OF this, of "[]"] this show ?thesis
    by (simp add: dp_element_size_def dp_new_def)
qed

end
