(* ===== verification/Interface_Object.thy ===== *)
theory Interface_Object
  imports Properties
begin

text \<open>
  Interface objects (\<open>knx-rs-device/src/interface_object.rs\<close>): an object type and a list of
  properties, found by their identifier (the first match counts), read and written through the
  property, and described by identifier or position.
\<close>

datatype ObjectType = OtDevice | OtAddressTable | OtAssociationTable | OtApplicationProgram | OtInterfaceProgram | OtObjectAssociationTable
  | OtRouter | OtCemiServer | OtGroupObjectTable | OtIpParameter | OtSecurity | OtRfMedium

primrec object_type_u16 :: "ObjectType \<Rightarrow> u16" where
  "object_type_u16 OtDevice = 0"
| "object_type_u16 OtAddressTable = 1"
| "object_type_u16 OtAssociationTable = 2"
| "object_type_u16 OtApplicationProgram = 3"
| "object_type_u16 OtInterfaceProgram = 4"
| "object_type_u16 OtObjectAssociationTable = 5"
| "object_type_u16 OtRouter = 6"
| "object_type_u16 OtCemiServer = 8"
| "object_type_u16 OtGroupObjectTable = 9"
| "object_type_u16 OtIpParameter = 11"
| "object_type_u16 OtSecurity = 17"
| "object_type_u16 OtRfMedium = 19"

definition object_type_try_from :: "u16 \<Rightarrow> u16 + ObjectType" where
  "object_type_try_from v =
     (if v = 0 then Inr OtDevice
      else if v = 1 then Inr OtAddressTable
      else if v = 2 then Inr OtAssociationTable
      else if v = 3 then Inr OtApplicationProgram
      else if v = 4 then Inr OtInterfaceProgram
      else if v = 5 then Inr OtObjectAssociationTable
      else if v = 6 then Inr OtRouter
      else if v = 8 then Inr OtCemiServer
      else if v = 9 then Inr OtGroupObjectTable
      else if v = 11 then Inr OtIpParameter
      else if v = 17 then Inr OtSecurity
      else if v = 19 then Inr OtRfMedium
      else Inl v)"

record InterfaceObject =
  io_type :: ObjectType
  io_properties :: "Property list"

definition add_property :: "Property \<Rightarrow> InterfaceObject \<Rightarrow> InterfaceObject" where
  "add_property p obj = obj\<lparr>io_properties := io_properties obj @ [p]\<rparr>"

definition io_new :: "ObjectType \<Rightarrow> InterfaceObject" where
  "io_new t = add_property
     (property_data (dp_read_only PidObjectType PdtUnsignedInt (to_be16 (object_type_u16 t))))
     \<lparr>io_type = t, io_properties = []\<rparr>"

definition io_property :: "PropertyId \<Rightarrow> InterfaceObject \<Rightarrow> Property option" where
  "io_property i obj = List.find (\<lambda>p. p_id p = i) (io_properties obj)"

definition read_property :: "PropertyId \<Rightarrow> u16 \<Rightarrow> u8 \<Rightarrow> u8 list \<Rightarrow> InterfaceObject \<Rightarrow> u8 list \<times> u8" where
  "read_property i start count buf obj =
     (case io_property i obj of None \<Rightarrow> (buf, 0) | Some p \<Rightarrow> p_read start count buf p)"

text \<open>\<open>property_mut(id)\<close> and a write through it: the first property with the identifier is updated.\<close>

fun write_first :: "PropertyId \<Rightarrow> (Property \<Rightarrow> Property \<times> u8) \<Rightarrow> Property list \<Rightarrow> Property list \<times> u8" where
  "write_first i f [] = ([], 0)"
| "write_first i f (p # ps) =
     (if p_id p = i then (let (p', n) = f p in (p' # ps, n))
      else (let (ps', n) = write_first i f ps in (p # ps', n)))"

definition write_property :: "PropertyId \<Rightarrow> u16 \<Rightarrow> u8 \<Rightarrow> u8 list \<Rightarrow> InterfaceObject \<Rightarrow> InterfaceObject \<times> u8" where
  "write_property i start count d obj =
     (let (ps, n) = write_first i (p_write start count d) (io_properties obj)
      in (obj\<lparr>io_properties := ps\<rparr>, n))"

fun find_index :: "PropertyId \<Rightarrow> nat \<Rightarrow> Property list \<Rightarrow> (nat \<times> Property) option" where
  "find_index i k [] = None"
| "find_index i k (p # ps) = (if p_id p = i then Some (k, p) else find_index i (k + 1) ps)"

definition read_property_description ::
  "u8 \<Rightarrow> u8 \<Rightarrow> InterfaceObject \<Rightarrow> (u8 \<times> PropertyDescription) option" where
  "read_property_description property_id property_index obj =
     (if property_id \<noteq> 0 then
        (case property_id_try_from property_id of
           Inl _ \<Rightarrow> None
         | Inr pid \<Rightarrow> Option.bind (find_index pid 0 (io_properties obj))
             (\<lambda>(idx, prop). if idx \<le> 255 then Some (of_nat idx, p_description prop) else None))
      else if unat property_index < length (io_properties obj)
        then Some (property_index, p_description (io_properties obj ! unat property_index))
        else None)"

definition property_count :: "InterfaceObject \<Rightarrow> nat" where
  "property_count obj = length (io_properties obj)"

section \<open>Lookup after an update\<close>

lemma p_write_id [simp]: "p_id (fst (p_write start count d p)) = p_id p"
  by (auto simp: p_write_def split: PropertyStorage.splits prod.splits)

lemma io_property_add: "io_property i (add_property p obj) =
    (case io_property i obj of Some q \<Rightarrow> Some q | None \<Rightarrow> if p_id p = i then Some p else None)"
proof -
  have "List.find P (xs @ [x]) = (case List.find P xs of Some q \<Rightarrow> Some q | None \<Rightarrow> if P x then Some x else None)"
    for P :: "Property \<Rightarrow> bool" and xs x
    by (induction xs) auto
  then show ?thesis by (simp add: io_property_def add_property_def)
qed

lemma find_write_first:
  assumes "\<And>p. p_id (fst (f p)) = p_id p"
  shows "List.find (\<lambda>p. p_id p = j) (fst (write_first i f ps)) =
    (if i = j then map_option (fst \<circ> f) (List.find (\<lambda>p. p_id p = j) ps) else List.find (\<lambda>p. p_id p = j) ps)"
proof (induction ps)
  case (Cons p ps)
  have "p_id (fst (f p)) = p_id p" by (rule assms)
  with Cons show ?case by (auto simp: split_beta comp_def)
qed simp

lemma io_property_write: "io_property j (fst (write_property i start count d obj)) =
    (if i = j then map_option (fst \<circ> p_write start count d) (io_property j obj) else io_property j obj)"
  using find_write_first [of "p_write start count d" j i "io_properties obj"]
  by (simp add: write_property_def io_property_def split_beta comp_def)

lemma write_property_count: "snd (write_property i start count d obj) =
    (case io_property i obj of None \<Rightarrow> 0 | Some p \<Rightarrow> snd (p_write start count d p))"
proof -
  have "snd (write_first i f ps) = (case List.find (\<lambda>p. p_id p = i) ps of None \<Rightarrow> 0 | Some p \<Rightarrow> snd (f p))"
    for f and ps
    by (induction ps) (auto simp: split_beta)
  then show ?thesis by (simp add: write_property_def io_property_def split_beta)
qed

lemma write_property_type [simp]: "io_type (fst (write_property i start count d obj)) = io_type obj"
  by (simp add: write_property_def split_beta)

lemma read_property_ids: "read_property_description pid idx obj = Some (k, desc) \<Longrightarrow>
    unat k < property_count obj \<and> desc = p_description (io_properties obj ! unat k) \<and>
    (pid \<noteq> 0 \<longrightarrow> property_id_u8 (pd_id desc) = pid)"
proof -
  have f: "find_index i m ps = Some (n, p) \<Longrightarrow> m \<le> n \<and> n - m < length ps \<and> ps ! (n - m) = p \<and> p_id p = i" for i m n ps p
  proof (induction ps arbitrary: m)
    case (Cons q qs)
    show ?case
    proof (cases "p_id q = i")
      case False
      with Cons.prems have "find_index i (m + 1) qs = Some (n, p)" by simp
      from Cons.IH [OF this] show ?thesis by (auto simp: nth_Cons' Suc_diff_le)
    qed (use Cons.prems in auto)
  qed simp
  assume "read_property_description pid idx obj = Some (k, desc)"
  then show ?thesis
    by (auto simp: read_property_description_def property_count_def result_simps property_id_try_from_iff
        p_description_def unat_of_nat le_less_trans dest!: f split: if_splits sum.splits)
qed

end
