(* ===== verification/Device_Object.thy ===== *)
theory Device_Object
  imports Interface_Object Address
begin

text \<open>
  The device object (\<open>knx-rs-device/src/device_object.rs\<close>) and the application program object
  (\<open>knx-rs-device/src/application_program.rs\<close>): their construction and the accessors the device
  stack uses. The lemmas show that whatever property writes a bus client performs, the address
  and programming-mode accessors stay inverse to their setters and the serial number is fixed.
\<close>

section \<open>Construction\<close>

definition MASK_VERSION_IP :: u16 where "MASK_VERSION_IP = 0x57B0"

definition DEVICE_VERSION :: "u8 list" where "DEVICE_VERSION = [0x00, 0x03]"
definition FIRMWARE_REVISION :: u8 where "FIRMWARE_REVISION = 0x01"
definition DEFAULT_ROUTING_COUNT :: u8 where "DEFAULT_ROUTING_COUNT = push_bit 4 6"
definition MAX_APDU_LENGTH :: "u8 list" where "MAX_APDU_LENGTH = [0x00, 0xFE]"
definition DEFAULT_SUBNET_ADDR :: u8 where "DEFAULT_SUBNET_ADDR = 0xFF"
definition DEFAULT_DEVICE_ADDR :: u8 where "DEFAULT_DEVICE_ADDR = 0xFF"

definition add_identity_properties :: "u8 list \<Rightarrow> InterfaceObject \<Rightarrow> InterfaceObject" where
  "add_identity_properties serial obj =
     (let obj = add_property (property_data (dp_new PidSerialNumber False PdtGeneric06 1 AccessNone serial)) obj;
          obj = add_property (property_data (dp_read_only PidManufacturerId PdtUnsignedInt (take 2 serial))) obj;
          obj = add_property (property_data (dp_read_write PidDeviceControl PdtUnsignedChar [0x00])) obj;
          obj = add_property (property_data (dp_new PidOrderInfo False PdtGeneric10 1 AccessNone (replicate 10 0))) obj;
          obj = add_property (property_data (dp_read_only PidVersion PdtUnsignedInt DEVICE_VERSION)) obj
      in add_property (property_data (dp_read_only PidFirmwareRevision PdtUnsignedChar [FIRMWARE_REVISION])) obj)"

definition add_config_properties :: "u8 list \<Rightarrow> InterfaceObject \<Rightarrow> InterfaceObject" where
  "add_config_properties hw_type obj =
     (let obj = add_property (property_data (dp_read_write PidRoutingCount PdtUnsignedChar [DEFAULT_ROUTING_COUNT])) obj;
          obj = add_property (property_data (dp_read_write PidProgMode PdtUnsignedChar [0x00])) obj;
          obj = add_property (property_data (dp_read_only PidMaxApduLength PdtUnsignedInt MAX_APDU_LENGTH)) obj;
          obj = add_property (property_data (dp_read_write PidSubnetAddr PdtUnsignedChar [DEFAULT_SUBNET_ADDR])) obj;
          obj = add_property (property_data (dp_read_write PidDeviceAddr PdtUnsignedChar [DEFAULT_DEVICE_ADDR])) obj;
          obj = add_property (property_data (dp_new PidHardwareType False PdtGeneric06 1 AccessNone hw_type)) obj
      in add_property (property_data (dp_read_only PidDeviceDescriptor PdtUnsignedInt (to_be16 MASK_VERSION_IP))) obj)"

definition new_device_object :: "u8 list \<Rightarrow> u8 list \<Rightarrow> InterfaceObject" where
  "new_device_object serial_no hardware_type =
     add_config_properties hardware_type (add_identity_properties serial_no (io_new OtDevice))"

definition new_application_program_object :: InterfaceObject where
  "new_application_program_object =
     (let obj = io_new OtApplicationProgram;
          obj = add_property (property_data (dp_new PidProgramVersion True PdtGeneric05 1 WriteHigh (replicate 5 0))) obj;
          obj = add_property (property_data (dp_read_only PidPeiType PdtUnsignedChar [0x00])) obj;
          obj = add_property (property_data (dp_read_write PidLoadStateControl PdtUnsignedChar [load_state_u8 Unloaded])) obj;
          obj = add_property (property_data (dp_read_write PidTableReference PdtUnsignedLong (replicate 4 0))) obj;
          obj = add_property (property_data (dp_read_write PidMcbTable PdtGeneric08 (replicate 8 0))) obj
      in add_property (property_data (dp_read_only PidErrorCode PdtUnsignedChar [0x00])) obj)"

section \<open>Accessors\<close>

definition first_or :: "u8 list \<Rightarrow> u8 \<Rightarrow> u8" where
  "first_or xs d = (case xs of [] \<Rightarrow> d | x # _ \<Rightarrow> x)"

definition individual_address :: "InterfaceObject \<Rightarrow> IndividualAddress" where
  "individual_address obj =
     (let subnet = fst (read_property PidSubnetAddr 1 1 [] obj);
          device = fst (read_property PidDeviceAddr 1 1 [] obj);
          s = first_or subnet DEFAULT_SUBNET_ADDR; d = first_or device DEFAULT_DEVICE_ADDR
      in IndividualAddress (push_bit 8 (ucast s) OR ucast d))"

definition set_individual_address :: "u16 \<Rightarrow> InterfaceObject \<Rightarrow> InterfaceObject" where
  "set_individual_address addr obj =
     (let subnet = ucast (drop_bit 8 addr); device = ucast (addr AND 0xFF);
          obj = fst (write_property PidSubnetAddr 1 1 [subnet] obj)
      in fst (write_property PidDeviceAddr 1 1 [device] obj))"

definition prog_mode :: "InterfaceObject \<Rightarrow> bool" where
  "prog_mode obj = (first_or (fst (read_property PidProgMode 1 1 [] obj)) 0 \<noteq> 0)"

definition set_prog_mode :: "bool \<Rightarrow> InterfaceObject \<Rightarrow> InterfaceObject" where
  "set_prog_mode enabled obj = fst (write_property PidProgMode 1 1 [of_bool enabled] obj)"

definition serial_number :: "InterfaceObject \<Rightarrow> u8 list" where
  "serial_number obj =
     (let buf = fst (read_property PidSerialNumber 1 1 [] obj); len = min (length buf) 6
      in buf_write 0 (take len buf) (replicate 6 0))"

definition app_load_state :: "InterfaceObject \<Rightarrow> LoadState" where
  "app_load_state obj = load_state_from (first_or (fst (read_property PidLoadStateControl 1 1 [] obj)) 0)"

section \<open>Single-octet properties\<close>

text \<open>The property is data backed, writable, and holds exactly one octet.\<close>

definition byte_property :: "PropertyId \<Rightarrow> u8 \<Rightarrow> InterfaceObject \<Rightarrow> bool" where
  "byte_property i b obj \<longleftrightarrow> (case io_property i obj of None \<Rightarrow> False | Some p \<Rightarrow>
     p_write_enable p \<and> (case p_storage p of StCallback _ _ \<Rightarrow> False | StData d \<Rightarrow>
       dp_write_enable d \<and> pdt_size (dp_data_type d) = 1 \<and> dp_max_elements d = 1 \<and> dp_data d = [b]))"

lemma byte_read: "byte_property i b obj \<Longrightarrow> read_property i 1 1 [] obj = ([b], 1)"
  by (auto simp: byte_property_def read_property_def p_read_def dp_read_def dp_element_size_def buf_slice_def
      split: option.splits PropertyStorage.splits)

lemma byte_write_same: "byte_property i b obj \<Longrightarrow> byte_property i v (fst (write_property i 1 1 [v] obj))"
  by (auto simp: byte_property_def io_property_write p_write_def dp_write_def dp_element_size_def buf_slice_def
      buf_write_def split: option.splits PropertyStorage.splits)

lemma byte_write_other: "i \<noteq> j \<Longrightarrow> byte_property i b obj \<Longrightarrow> byte_property i b (fst (write_property j start count d obj))"
  by (simp add: byte_property_def io_property_write)

lemma byte_write_any:
  assumes "byte_property i b obj"
  shows "\<exists>v. byte_property i v (fst (write_property j start count d obj))"
proof (cases "i = j")
  case True
  from assms obtain p dp where p: "io_property i obj = Some p" "p_write_enable p" "p_storage p = StData dp"
    "dp_write_enable dp" "pdt_size (dp_data_type dp) = 1" "dp_max_elements dp = 1" "dp_data dp = [b]"
    by (auto simp: byte_property_def split: option.splits PropertyStorage.splits)
  obtain dp' w where w: "dp_write start count d dp = (dp', w)" by fastforce
  have "dp_element_size dp = 1" using p(5) by (simp add: dp_element_size_def)
  with dp_write_effect [OF w] p(6,7) have "length (dp_data dp') = 1" by auto
  then obtain v where "dp_data dp' = [v]" by (auto simp: length_Suc_conv)
  with p w dp_write_frame [OF w] True show ?thesis
    by (auto simp: byte_property_def io_property_write p_write_def)
qed (use byte_write_other [OF _ assms] in blast)

section \<open>The device object under property writes\<close>

definition device_ok :: "InterfaceObject \<Rightarrow> bool" where
  "device_ok obj \<longleftrightarrow> (\<forall>i \<in> {PidSubnetAddr, PidDeviceAddr, PidProgMode}. \<exists>b. byte_property i b obj)"

definition serial_ok :: "u8 list \<Rightarrow> InterfaceObject \<Rightarrow> bool" where
  "serial_ok sn obj \<longleftrightarrow> io_property PidSerialNumber obj =
     Some (property_data (dp_new PidSerialNumber False PdtGeneric06 1 AccessNone sn))"

lemma device_ok_write: "device_ok obj \<Longrightarrow> device_ok (fst (write_property j start count d obj))"
  using byte_write_any by (auto simp: device_ok_def)

lemma serial_ok_write: "serial_ok sn obj \<Longrightarrow> serial_ok sn (fst (write_property j start count d obj))"
  by (auto simp: serial_ok_def io_property_write p_write_def property_data_def dp_new_def)

lemmas dp_constructors = dp_new_def dp_read_only_def dp_read_write_def

lemma io_property_empty: "io_property i \<lparr>io_type = t, io_properties = []\<rparr> = None"
  by (simp add: io_property_def)

lemma new_device_object_ok: "device_ok (new_device_object sn hw)" "serial_ok sn (new_device_object sn hw)"
  by (simp_all add: device_ok_def serial_ok_def byte_property_def new_device_object_def add_config_properties_def
      add_identity_properties_def Let_def io_property_add io_new_def property_data_def dp_constructors
      io_property_empty)

lemma be16_shift: "push_bit 8 (ucast a) OR ucast b = be16 a b"
  by (simp add: be16_def)

lemma ucast_low: "(ucast (a AND 0xFF) :: u8) = ucast (a :: u16)"
proof -
  have "(0xFF :: u16) = mask 8" by (simp add: mask_eq_exp_minus_1)
  show ?thesis
    unfolding \<open>(0xFF :: u16) = mask 8\<close> by (rule bit_word_eqI) (auto simp: bit_simps)
qed

lemma address_set_get:
  assumes "device_ok obj"
  shows "individual_address (set_individual_address a obj) = IndividualAddress a"
    and "device_ok (set_individual_address a obj)"
    and "prog_mode (set_individual_address a obj) = prog_mode obj"
proof -
  from assms obtain s d p where b: "byte_property PidSubnetAddr s obj" "byte_property PidDeviceAddr d obj"
    "byte_property PidProgMode p obj"
    by (auto simp: device_ok_def)
  note w = byte_write_same [OF b(1), of "ucast (drop_bit 8 a)"]
  have "byte_property PidSubnetAddr (ucast (drop_bit 8 a)) (set_individual_address a obj)"
    "byte_property PidDeviceAddr (ucast a) (set_individual_address a obj)"
    "byte_property PidProgMode p (set_individual_address a obj)"
    by (auto simp: set_individual_address_def Let_def ucast_low intro!: byte_write_other byte_write_same b)
  from this [THEN byte_read] byte_read [OF b(3)]
  show "individual_address (set_individual_address a obj) = IndividualAddress a"
    and "prog_mode (set_individual_address a obj) = prog_mode obj"
    by (simp_all add: individual_address_def prog_mode_def first_or_def be16_shift Let_def)
  show "device_ok (set_individual_address a obj)"
    unfolding set_individual_address_def Let_def by (intro device_ok_write assms)
qed

lemma prog_mode_set_get:
  assumes "device_ok obj"
  shows "prog_mode (set_prog_mode e obj) = e" and "device_ok (set_prog_mode e obj)"
    and "individual_address (set_prog_mode e obj) = individual_address obj"
proof -
  from assms obtain s d p where b: "byte_property PidSubnetAddr s obj" "byte_property PidDeviceAddr d obj"
    "byte_property PidProgMode p obj"
    by (auto simp: device_ok_def)
  have "byte_property PidSubnetAddr s (set_prog_mode e obj)" "byte_property PidDeviceAddr d (set_prog_mode e obj)"
    "byte_property PidProgMode (of_bool e) (set_prog_mode e obj)"
    by (auto simp: set_prog_mode_def intro!: byte_write_other byte_write_same b)
  from this [THEN byte_read] b [THEN byte_read]
  show "prog_mode (set_prog_mode e obj) = e" and "individual_address (set_prog_mode e obj) = individual_address obj"
    by (simp_all add: individual_address_def prog_mode_def first_or_def)
  show "device_ok (set_prog_mode e obj)"
    unfolding set_prog_mode_def by (rule device_ok_write [OF assms])
qed

lemma serial_number_fixed: "serial_ok sn obj \<Longrightarrow> length sn = 6 \<Longrightarrow> serial_number obj = sn"
  by (simp add: serial_ok_def serial_number_def read_property_def p_read_def property_data_def dp_new_def dp_read_def
      dp_element_size_def buf_slice_def buf_write_def)

text \<open>A bus client's writes: property, start, count and data of each.\<close>

fun client_writes :: "(PropertyId \<times> u16 \<times> u8 \<times> u8 list) list \<Rightarrow> InterfaceObject \<Rightarrow> InterfaceObject" where
  "client_writes [] obj = obj"
| "client_writes ((i, s, c, d) # ws) obj = client_writes ws (fst (write_property i s c d obj))"

lemma client_writes_ok: "device_ok obj \<Longrightarrow> device_ok (client_writes ws obj)"
  "serial_ok sn obj \<Longrightarrow> serial_ok sn (client_writes ws obj)"
  by (induction ws obj rule: client_writes.induct) (simp_all add: device_ok_write serial_ok_write)

text \<open>
  after any sequence of property writes to a new device object the
  serial number is still the one it was made with; setting the individual address makes it the
  one read and leaves programming mode alone; setting programming mode makes it the one read and
  leaves the address alone.
\<close>
lemma device_object_accessors:
  assumes "length sn = 6" and "obj = client_writes ws (new_device_object sn hw)"
  shows "serial_number obj = sn \<and>
    individual_address (set_individual_address a obj) = IndividualAddress a \<and>
    prog_mode (set_individual_address a obj) = prog_mode obj \<and>
    prog_mode (set_prog_mode e obj) = e \<and>
    individual_address (set_prog_mode e obj) = individual_address obj"
proof -
  have "device_ok obj" "serial_ok sn obj"
    using client_writes_ok new_device_object_ok assms(2) by auto
  with assms(1) show ?thesis
    by (simp add: serial_number_fixed address_set_get prog_mode_set_get)
qed

end
