(* ===== verification/Table_Object.thy ===== *)
theory Table_Object
  imports Properties
begin

text \<open>
  Table objects (\<open>knx-rs-device/src/table_object.rs\<close>): the load state machine that ETS drives, the
  allocation of a segment of the device memory, the table data, its memory control block with a
  CRC-16, and the nine-octet persistent form. The lemmas give the state machine as a table, the
  geometry invariant, the save/restore round trip and what the CRC detects.
\<close>

datatype LoadError = NoFault | UndefinedLoadCommand | InvalidOpcode | MaxTableLengthExceeded

primrec load_error_u8 :: "LoadError \<Rightarrow> u8" where
  "load_error_u8 NoFault = 0" | "load_error_u8 UndefinedLoadCommand = 1"
| "load_error_u8 InvalidOpcode = 2" | "load_error_u8 MaxTableLengthExceeded = 3"

definition MAX_MEMORY_SIZE :: nat where "MAX_MEMORY_SIZE = 256 * 1024"
definition MCB_CRC_CONTROL :: u8 where "MCB_CRC_CONTROL = 0x00"
definition MCB_ACCESS :: u8 where "MCB_ACCESS = 0xFF"
definition ALC_MIN_LENGTH :: nat where "ALC_MIN_LENGTH = 8"
definition ALC_OPCODE_ALLOC :: u8 where "ALC_OPCODE_ALLOC = 0x0B"
definition ALC_FILL_ENABLED :: u8 where "ALC_FILL_ENABLED = 0x01"
definition SAVE_SIZE :: nat where "SAVE_SIZE = 9"

record TableObject =
  to_state :: LoadState
  to_error :: LoadError
  to_data_offset :: u32
  to_data_size :: u32

definition table_new :: TableObject where
  "table_new = \<lparr>to_state = Unloaded, to_error = NoFault, to_data_offset = 0, to_data_size = 0\<rparr>"

definition table_new_loaded :: TableObject where
  "table_new_loaded = \<lparr>to_state = Loaded, to_error = NoFault, to_data_offset = 0, to_data_size = 0\<rparr>"

definition reset_data :: "TableObject \<Rightarrow> TableObject" where
  "reset_data t = t\<lparr>to_data_offset := 0, to_data_size := 0\<rparr>"

definition table_data :: "u8 list \<Rightarrow> TableObject \<Rightarrow> u8 list" where
  "table_data memory_area t =
     (if to_state t \<noteq> Loaded \<or> to_data_size t = 0 then []
      else let start = unat (to_data_offset t); fin = start + unat (to_data_size t)
        in if fin \<le> length memory_area then buf_slice start fin memory_area else [])"

section \<open>The load state machine\<close>

type_synonym fill_request = "(u32 \<times> u32 \<times> u8) option"

definition handle_additional_load_controls :: "u8 list \<Rightarrow> nat \<Rightarrow> TableObject \<Rightarrow> TableObject \<times> fill_request" where
  "handle_additional_load_controls data memory_area_len t =
     (if length data < ALC_MIN_LENGTH \<or> data ! 1 \<noteq> ALC_OPCODE_ALLOC
      then (t\<lparr>to_state := LoadStateError, to_error := InvalidOpcode\<rparr>, None)
      else let sz = be32 (data ! 2) (data ! 3) (data ! 4) (data ! 5) in
        if unat sz > MAX_MEMORY_SIZE
        then (t\<lparr>to_state := LoadStateError, to_error := MaxTableLengthExceeded\<rparr>, None)
        else let do_fill = (data ! 6 = ALC_FILL_ENABLED); fill_byte = data ! 7;
            offset = (if memory_area_len < 2 ^ 32 then of_nat memory_area_len else 0xFFFFFFFF)
          in (t\<lparr>to_data_offset := offset, to_data_size := sz\<rparr>,
              if do_fill then Some (offset, sz, fill_byte) else None))"

definition on_unloaded :: "LoadEvent \<Rightarrow> TableObject \<Rightarrow> TableObject" where
  "on_unloaded event t =
     (case event of StartLoading \<Rightarrow> reset_data (t\<lparr>to_state := Loading\<rparr>) | _ \<Rightarrow> t)"

definition on_loading :: "LoadEvent \<Rightarrow> u8 list \<Rightarrow> nat \<Rightarrow> TableObject \<Rightarrow> TableObject \<times> bool \<times> fill_request" where
  "on_loading event data memory_area_len t =
     (case event of
        LoadCompleted \<Rightarrow> (t\<lparr>to_state := Loaded\<rparr>, True, None)
      | Unload \<Rightarrow> (reset_data (t\<lparr>to_state := Unloaded\<rparr>), False, None)
      | AdditionalLoadControls \<Rightarrow>
          (let (t, fill) = handle_additional_load_controls data memory_area_len t in (t, False, fill))
      | _ \<Rightarrow> (t, False, None))"

definition on_loaded :: "LoadEvent \<Rightarrow> TableObject \<Rightarrow> TableObject" where
  "on_loaded event t =
     (case event of
        StartLoading \<Rightarrow> reset_data (t\<lparr>to_state := Loading\<rparr>)
      | Unload \<Rightarrow> reset_data (t\<lparr>to_state := Unloaded\<rparr>)
      | AdditionalLoadControls \<Rightarrow> t\<lparr>to_state := LoadStateError, to_error := InvalidOpcode\<rparr>
      | _ \<Rightarrow> t)"

definition on_error :: "LoadEvent \<Rightarrow> TableObject \<Rightarrow> TableObject" where
  "on_error event t = (if event = Unload then reset_data (t\<lparr>to_state := Unloaded\<rparr>) else t)"

definition handle_load_event :: "u8 list \<Rightarrow> nat \<Rightarrow> TableObject \<Rightarrow> TableObject \<times> bool \<times> fill_request" where
  "handle_load_event data memory_area_len t =
     (if data = [] then (t, False, None)
      else case load_event_from_byte (data ! 0) of
        None \<Rightarrow> (t\<lparr>to_state := LoadStateError, to_error := UndefinedLoadCommand\<rparr>, False, None)
      | Some event \<Rightarrow>
          (case to_state t of
             Unloaded \<Rightarrow> (on_unloaded event t, False, None)
           | Loading \<Rightarrow> on_loading event data memory_area_len t
           | Loaded \<Rightarrow> (on_loaded event t, False, None)
           | LoadStateError \<Rightarrow> (on_error event t, False, None)
           | _ \<Rightarrow> (t, False, None)))"

definition table_reference :: "TableObject \<Rightarrow> u32" where
  "table_reference t = (if to_state t = Unloaded then 0 else to_data_offset t)"

section \<open>Integrity and persistence\<close>

definition crc16_bit :: "u16 \<Rightarrow> u16" where
  "crc16_bit crc = (if crc AND 0x8000 \<noteq> 0 then push_bit 1 crc XOR 0x1021 else push_bit 1 crc)"

fun crc16_loop :: "u16 \<Rightarrow> u8 list \<Rightarrow> u16" where
  "crc16_loop crc [] = crc"
| "crc16_loop crc (byte # bs) = crc16_loop ((crc16_bit ^^ 8) (crc XOR push_bit 8 (ucast byte))) bs"

definition crc16_ccitt :: "u8 list \<Rightarrow> u16" where
  "crc16_ccitt data = crc16_loop 0xFFFF data"

definition mcb_table :: "u8 list \<Rightarrow> TableObject \<Rightarrow> u8 list" where
  "mcb_table memory_area t =
     (if to_state t \<noteq> Loaded \<or> to_data_size t = 0 then replicate 8 0
      else let crc = crc16_ccitt (table_data memory_area t) in
        to_be32 (to_data_size t) @ [MCB_CRC_CONTROL, MCB_ACCESS] @ to_be16 crc)"

definition table_save :: "TableObject \<Rightarrow> u8 list \<Rightarrow> u8 list" where
  "table_save t buf = buf @ [load_state_u8 (to_state t)] @ to_le32 (to_data_offset t) @ to_le32 (to_data_size t)"

definition table_restore :: "u8 list \<Rightarrow> TableObject \<Rightarrow> TableObject \<times> nat" where
  "table_restore data t =
     (if length data < SAVE_SIZE then (t, 0)
      else let st = load_state_from (data ! 0);
        offset = le32 (data ! 1) (data ! 2) (data ! 3) (data ! 4);
        sz = le32 (data ! 5) (data ! 6) (data ! 7) (data ! 8);
        t = t\<lparr>to_error := NoFault\<rparr>;
        ok = (unat sz \<le> MAX_MEMORY_SIZE \<and> unat offset + unat sz \<le> MAX_MEMORY_SIZE)
      in (if st = Loaded \<and> \<not> ok
          then t\<lparr>to_state := Unloaded, to_data_offset := 0, to_data_size := 0\<rparr>
          else t\<lparr>to_state := st, to_data_offset := offset, to_data_size := sz\<rparr>, SAVE_SIZE))"

section \<open>What the load state machine guarantees\<close>

inductive table_reachable :: "TableObject \<Rightarrow> bool" where
  new: "table_reachable table_new"
| event: "table_reachable t \<Longrightarrow> table_reachable (fst (handle_load_event data n t))"

definition table_inv :: "TableObject \<Rightarrow> bool" where
  "table_inv t \<longleftrightarrow> to_state t \<in> {Unloaded, Loading, Loaded, LoadStateError} \<and>
     unat (to_data_size t) \<le> MAX_MEMORY_SIZE \<and>
     (to_state t = Unloaded \<longrightarrow> to_data_offset t = 0 \<and> to_data_size t = 0)"

lemmas load_handlers = handle_load_event_def on_unloaded_def on_loading_def on_loaded_def on_error_def
  handle_additional_load_controls_def reset_data_def

lemma table_inv_event: "table_inv t \<Longrightarrow> table_inv (fst (handle_load_event data n t))"
  by (cases "load_event_from_byte (data ! 0)"; cases "to_state t")
    (auto simp: table_inv_def load_handlers Let_def split: LoadEvent.splits prod.splits)

lemma table_inv_new: "table_inv table_new" "table_inv table_new_loaded"
  by (simp_all add: table_inv_def table_new_def table_new_loaded_def)

lemma table_reachable_inv: "table_reachable t \<Longrightarrow> table_inv t"
  by (induction rule: table_reachable.induct) (simp_all add: table_inv_event table_inv_new)

lemma load_event_effect:
  assumes "handle_load_event data n t = (t', became, fill)"
  shows "(became \<longleftrightarrow> to_state t = Loading \<and> data \<noteq> [] \<and> load_event_from_byte (data ! 0) = Some LoadCompleted)"
    "became \<Longrightarrow> t' = t\<lparr>to_state := Loaded\<rparr>"
    "fill = Some (off, sz, fb) \<Longrightarrow> to_state t' = Loading \<and> off = to_data_offset t' \<and> sz = to_data_size t'"
    "to_state t' = Loaded \<Longrightarrow> to_state t = Loaded \<or> became"
  using assms
  by (cases "load_event_from_byte (data ! 0)"; cases "to_state t";
      auto simp: load_handlers Let_def split: LoadEvent.splits prod.splits if_splits)+

text \<open>
  C39: Whatever load events a table object receives, it is in one of the states
  Unloaded, Loading, Loaded and Error, its size is bounded and an unloaded table has no data.
  It becomes loaded only through LoadCompleted received while loading, which keeps the allocated
  range; memory to fill is requested only for the range just allocated, while loading.
\<close>
theorem table_load_machine:
  assumes "table_reachable t" and "handle_load_event data n t = (t', became, fill)"
  shows "table_inv t \<and> table_inv t' \<and>
    (became \<longleftrightarrow> to_state t = Loading \<and> data \<noteq> [] \<and> load_event_from_byte (data ! 0) = Some LoadCompleted) \<and>
    (became \<longrightarrow> t' = t\<lparr>to_state := Loaded\<rparr>) \<and>
    (to_state t' = Loaded \<longrightarrow> to_state t = Loaded \<or> became) \<and>
    (\<forall>off sz fb. fill = Some (off, sz, fb) \<longrightarrow>
       to_state t' = Loading \<and> off = to_data_offset t' \<and> sz = to_data_size t')"
  using table_reachable_inv [OF assms(1)] table_inv_event [of t data n] load_event_effect [OF assms(2)] assms(2)
  by auto

theorem table_load_machine_witness:
  "\<exists>t t'. handle_load_event [2] 0 t = (t', True, None) \<and> to_state t' = Loaded"
proof -
  define t where "t = fst (handle_load_event [1] 0 table_new)"
  have r: "table_reachable t"
    unfolding t_def by (rule table_reachable.event) (rule table_reachable.new)
  have e: "handle_load_event [2] 0 t = (t\<lparr>to_state := Loaded\<rparr>, True, None)"
    by (simp add: t_def load_handlers table_new_def load_event_from_byte_def)
  from table_load_machine [OF r e] have "to_state (t\<lparr>to_state := Loaded\<rparr>) = Loaded" by simp
  with e show ?thesis by blast
qed

section \<open>The check value\<close>

lemma xor_inject: "(c::u16) XOR p = c XOR q \<longleftrightarrow> p = q" "p XOR c = q XOR c \<longleftrightarrow> p = q"
proof -
  have "p = q" if "c XOR p = c XOR q"
  proof (rule bit_word_eqI)
    fix n
    show "bit p n = bit q n"
      using arg_cong [OF that, of "\<lambda>w. bit w n"] by (auto simp: bit_simps)
  qed
  then show "c XOR p = c XOR q \<longleftrightarrow> p = q" "p XOR c = q XOR c \<longleftrightarrow> p = q"
    by (auto simp: xor.commute)
qed

lemma crc16_bit_inj: "crc16_bit a = crc16_bit b \<longleftrightarrow> a = b"
proof
  assume eq: "crc16_bit a = crc16_bit b"
  have e: "(0x8000::u16) = 2 ^ 15" by simp
  have top: "(c AND 0x8000 \<noteq> 0) = bit c 15" for c :: u16
    unfolding e by (metis and_exp_eq_0_iff_not_bit)
  have b: "bit (push_bit 1 c XOR 0x1021) 0" "\<not> bit (push_bit 1 c) 0" for c :: u16
    by (simp_all only: bit_xor_iff bit_push_bit_iff) simp_all
  then have low: "bit (crc16_bit c) 0 = bit c 15" for c
    unfolding crc16_bit_def top by presburger
  have "bit a 15 = bit b 15"
    using eq low by metis
  then have "push_bit 1 a = push_bit 1 b"
    using eq by (auto simp: crc16_bit_def top xor_inject split: if_splits)
  then have p: "bit (push_bit 1 a) (n + 1) = bit (push_bit 1 b) (n + 1)" for n
    by (rule arg_cong)
  have "bit a n = bit b n" if "n < 15" for n
  proof -
    from that have "n + 1 < LENGTH(16)" by simp
    with p [of n] show ?thesis unfolding bit_push_bit_iff by simp
  qed
  moreover have "n < 15 \<or> n = 15" if "n < LENGTH(16)" for n
    using that by simp linarith
  ultimately show "a = b"
    using \<open>bit a 15 = bit b 15\<close> by (intro bit_word_eqI) metis
qed simp

lemma crc16_bits_inj: "(crc16_bit ^^ k) a = (crc16_bit ^^ k) b \<longleftrightarrow> a = b"
  by (induction k arbitrary: a b) (simp_all add: crc16_bit_inj)

lemma crc16_loop_inj: "crc16_loop a bs = crc16_loop b bs \<longleftrightarrow> a = b"
proof (induction bs arbitrary: a b)
  case (Cons x bs)
  then show ?case by (simp add: crc16_bits_inj xor_inject)
qed simp

lemma crc16_loop_append: "crc16_loop c (xs @ ys) = crc16_loop (crc16_loop c xs) ys"
  by (induction xs arbitrary: c) simp_all

text \<open>
  The check value of a table detects every change of a single octet: two
  tables that differ in one octet at most have the same CRC only if they are equal.
\<close>
lemma crc16_detects:
  "crc16_ccitt (pre @ x # post) = crc16_ccitt (pre @ y # post) \<longleftrightarrow> x = y"
proof -
  have "c XOR push_bit 8 (ucast x) = c XOR push_bit 8 (ucast y) \<longleftrightarrow> x = y" for c :: u16
  proof
    assume "c XOR push_bit 8 (ucast x) = c XOR push_bit 8 (ucast y)"
    then have "push_bit 8 (ucast x :: u16) = push_bit 8 (ucast y)"
      by (simp only: xor_inject)
    then have "bit (push_bit 8 (ucast x :: u16)) (n + 8) = bit (push_bit 8 (ucast y :: u16)) (n + 8)" for n
      by simp
    then have "bit x n = bit y n" if "n < 8" for n
    proof -
      from that have "n + 8 < 16" by simp
      with \<open>\<And>n. bit (push_bit 8 (ucast x :: u16)) (n + 8) = _ n\<close> [of n] that show ?thesis
        by (simp add: bit_push_bit_iff bit_ucast_iff)
    qed
    then show "x = y" by (intro bit_word_eqI) simp
  qed simp
  then show ?thesis
    by (simp add: crc16_ccitt_def crc16_loop_append crc16_loop_inj crc16_bits_inj)
qed

section \<open>Saving and restoring\<close>

definition fits :: "TableObject \<Rightarrow> bool" where
  "fits t \<longleftrightarrow> unat (to_data_size t) \<le> MAX_MEMORY_SIZE \<and>
     unat (to_data_offset t) + unat (to_data_size t) \<le> MAX_MEMORY_SIZE"

lemma table_save_append: "table_save t buf = buf @ table_save t []"
  by (simp add: table_save_def)

lemma length_table_save [simp]: "length (table_save t []) = SAVE_SIZE"
  by (simp add: table_save_def SAVE_SIZE_def)

lemma restore_save:
  assumes "to_state t = Loaded \<longrightarrow> fits t"
  shows "table_restore (table_save t [] @ rest) t0 = (t\<lparr>to_error := NoFault\<rparr>, SAVE_SIZE)"
proof -
  have d: "table_save t [] @ rest = load_state_u8 (to_state t) # to_le32 (to_data_offset t) @ to_le32 (to_data_size t) @ rest"
    by (simp add: table_save_def)
  have "le32 (to_le32 w ! 0) (to_le32 w ! 1) (to_le32 w ! 2) (to_le32 w ! 3) = w" for w
    by (simp add: to_le32_eq)
  then show ?thesis
    using assms unfolding table_restore_def d
    by (cases t; cases t0) (simp add: SAVE_SIZE_def fits_def Let_def nth_append nth_Cons_numeral)
qed

lemma restore_fits: "to_state (fst (table_restore data t)) = Loaded \<Longrightarrow> SAVE_SIZE \<le> length data \<Longrightarrow>
    fits (fst (table_restore data t))"
  by (auto simp: table_restore_def fits_def Let_def split: if_splits)

lemma table_data_bounds: "length (table_data mem t) \<le> unat (to_data_size t)"
  by (auto simp: table_data_def Let_def buf_slice_def)

text \<open>
  C40: Restoring what a table object saved gives it back with its error
  cleared, in nine octets, whatever follows; and no restored octets can make a table loaded whose
  range lies outside the largest memory.
\<close>
theorem table_save_restore:
  assumes "to_state t = Loaded \<longrightarrow> fits t" and "SAVE_SIZE \<le> length data"
  shows "table_restore (table_save t [] @ rest) t0 = (t\<lparr>to_error := NoFault\<rparr>, SAVE_SIZE) \<and>
    (to_state (fst (table_restore data t0)) = Loaded \<longrightarrow> fits (fst (table_restore data t0)))"
  using restore_save [OF assms(1)] restore_fits assms(2) by blast

theorem table_save_restore_witness:
  "table_restore (table_save (table_new\<lparr>to_state := Loaded, to_data_offset := 16, to_data_size := 6\<rparr>) [] @ [7]) table_new =
     (table_new\<lparr>to_state := Loaded, to_data_offset := 16, to_data_size := 6\<rparr>, 9) \<and>
   to_state (fst (table_restore (load_state_u8 Loaded # replicate 8 255) table_new)) \<noteq> Loaded"
proof -
  let ?t = "table_new\<lparr>to_state := Loaded, to_data_offset := 16, to_data_size := 6\<rparr>" and ?d = "load_state_u8 Loaded # replicate 8 255"
  have "to_state ?t = Loaded \<longrightarrow> fits ?t" and "SAVE_SIZE \<le> length ?d"
    by (simp_all add: table_new_def SAVE_SIZE_def fits_def MAX_MEMORY_SIZE_def)
  from table_save_restore [OF this, where rest = "[7]" and ?t0.0 = table_new]
  have restored: "table_restore (table_save ?t [] @ [7]) table_new = (?t, 9)"
    and sound: "to_state (fst (table_restore ?d table_new)) = Loaded \<longrightarrow> fits (fst (table_restore ?d table_new))"
    by (simp_all add: table_new_def SAVE_SIZE_def)
  have "to_state (fst (table_restore ?d table_new)) \<noteq> Loaded"
  proof
    assume "to_state (fst (table_restore ?d table_new)) = Loaded"
    with sound show False
      by (auto simp: table_restore_def SAVE_SIZE_def fits_def le32_def be32_def MAX_MEMORY_SIZE_def Let_def table_new_def split: if_splits)
  qed
  with restored show ?thesis by blast
qed

end
