(* ===== verification/Tables.thy ===== *)
theory Tables
  imports Interface_Object
begin

text \<open>
  The downloaded tables: address table (\<open>knx-rs-device/src/address_table.rs\<close>), association table
  (\<open>association_table.rs\<close>) and group object table with its descriptors and interface object
  (\<open>group_object_table.rs\<close>). All are byte buffers that ETS writes, so every accessor is total on
  malformed buffers. The locale \<open>indexed_table\<close> is the contract of a table of 16-bit entries
  indexed from 1; the address table and the group object table both provide it.
\<close>

section \<open>Tables of 16-bit entries\<close>

text \<open>What ETS downloads: the count, then the entries, big endian.\<close>

definition table_image :: "u16 list \<Rightarrow> u8 list" where
  "table_image es = to_be16 (of_nat (length es)) @ concat (map to_be16 es)"

locale indexed_table =
  fixes load :: "u8 list \<Rightarrow> 't" and count :: "'t \<Rightarrow> u16" and get :: "u16 \<Rightarrow> 't \<Rightarrow> 'v option" and enc :: "'v \<Rightarrow> u16"
  assumes count_image: "length es < 65536 \<Longrightarrow> count (load (table_image es)) = of_nat (length es)"
    and get_image: "length es < 65536 \<Longrightarrow> map_option enc (get i (load (table_image es))) =
      (if 1 \<le> unat i \<and> unat i \<le> length es then Some (es ! (unat i - 1)) else None)"
    and get_in_count: "get i t \<noteq> None \<Longrightarrow> i \<noteq> 0 \<and> i \<le> count t"
begin

definition entries :: "'t \<Rightarrow> 'v option list" where
  "entries t = map (\<lambda>i. get (of_nat i) t) [1 ..< Suc (unat (count t))]"

lemma entries_image:
  assumes "length es < 65536"
  shows "map (map_option enc) (entries (load (table_image es))) = map Some es"
proof (rule nth_equalityI)
  have l: "length (entries (load (table_image es))) = length es"
    using assms by (simp add: entries_def count_image unat_of_nat del: upt_Suc)
  then show "length (map (map_option enc) (entries (load (table_image es)))) = length (map Some es)"
    by simp
  fix i assume "i < length (map (map_option enc) (entries (load (table_image es))))"
  with l have i: "i < length es" by simp
  with assms have "unat (of_nat (Suc i) :: u16) = Suc i" by (simp add: unat_of_nat del: of_nat_Suc)
  with i assms l show "map (map_option enc) (entries (load (table_image es))) ! i = map Some es ! i"
    by (simp add: entries_def get_image count_image unat_of_nat del: upt_Suc of_nat_Suc)
qed

lemma get_none_outside: "i = 0 \<or> count t < i \<Longrightarrow> get i t = None"
  using get_in_count [of i t] by (cases "get i t") auto

end

text \<open>The first index from \<open>k\<close> on, among \<open>n\<close>, that satisfies a test: \<open>(k..k+n).find(P)\<close>.\<close>

fun find_from :: "(nat \<Rightarrow> bool) \<Rightarrow> nat \<Rightarrow> nat \<Rightarrow> nat option" where
  "find_from P k 0 = None"
| "find_from P k (Suc n) = (if P k then Some k else find_from P (Suc k) n)"

lemma all_from_Suc: "(\<forall>j. k \<le> j \<and> j < m \<longrightarrow> R j) \<longleftrightarrow> (k < m \<longrightarrow> R k) \<and> (\<forall>j. Suc k \<le> j \<and> j < m \<longrightarrow> R j)"
  by (metis Suc_leD Suc_leI le_eq_less_or_eq)

lemma find_from_None: "find_from P k n = None \<longleftrightarrow> (\<forall>j. k \<le> j \<and> j < k + n \<longrightarrow> \<not> P j)"
proof (induction n arbitrary: k)
  case (Suc n)
  show ?case
    unfolding all_from_Suc [of k] using Suc.IH [of "Suc k"] by simp
qed auto

lemma find_from_Some: "find_from P k n = Some i \<longleftrightarrow> k \<le> i \<and> i < k + n \<and> P i \<and> (\<forall>j. k \<le> j \<and> j < i \<longrightarrow> \<not> P j)"
proof (induction n arbitrary: k)
  case (Suc n)
  show ?case
  proof (cases "i = k")
    case False
    then have "k \<le> i \<longleftrightarrow> Suc k \<le> i" by linarith
    then show ?thesis
      unfolding all_from_Suc [of k i] using Suc.IH [of "Suc k"] False by auto
  qed (use Suc.IH [of "Suc k"] in auto)
qed simp

section \<open>Address table\<close>

record AddressTable = at_data :: "u8 list"

definition address_table_new :: AddressTable where
  "address_table_new = \<lparr>at_data = []\<rparr>"

definition at_load :: "u8 list \<Rightarrow> AddressTable" where
  "at_load data = \<lparr>at_data = data\<rparr>"

definition at_entry_count :: "AddressTable \<Rightarrow> u16" where
  "at_entry_count t = (if length (at_data t) < 2 then 0 else be16 (at_data t ! 0) (at_data t ! 1))"

definition get_group_address :: "u16 \<Rightarrow> AddressTable \<Rightarrow> u16 option" where
  "get_group_address tsap t =
     (if tsap = 0 \<or> tsap > at_entry_count t then None
      else let offset = unat tsap * 2 in
        if offset + 2 > length (at_data t) then None
        else Some (be16 (at_data t ! offset) (at_data t ! (offset + 1))))"

definition at_get_tsap :: "u16 \<Rightarrow> AddressTable \<Rightarrow> u16 option" where
  "at_get_tsap ga t = map_option of_nat
     (find_from (\<lambda>i. get_group_address (of_nat i) t = Some ga) 1 (unat (at_entry_count t)))"

definition at_contains :: "u16 \<Rightarrow> AddressTable \<Rightarrow> bool" where
  "at_contains ga t = (at_get_tsap ga t \<noteq> None)"

section \<open>Association table\<close>

definition ENTRY_SIZE :: nat where "ENTRY_SIZE = 4"
definition TSAP_OFFSET :: nat where "TSAP_OFFSET = 2"

record AssociationTable = as_data :: "u8 list"

definition association_table_new :: AssociationTable where
  "association_table_new = \<lparr>as_data = []\<rparr>"

definition as_load :: "u8 list \<Rightarrow> AssociationTable" where
  "as_load data = \<lparr>as_data = data\<rparr>"

definition as_entry_count :: "AssociationTable \<Rightarrow> u16" where
  "as_entry_count t = (if length (as_data t) < 2 then 0 else be16 (as_data t ! 0) (as_data t ! 1))"

definition as_get_tsap :: "u16 \<Rightarrow> AssociationTable \<Rightarrow> u16 option" where
  "as_get_tsap idx t =
     (let offset = TSAP_OFFSET + unat idx * ENTRY_SIZE in
      if offset + 2 > length (as_data t) then None
      else Some (be16 (as_data t ! offset) (as_data t ! (offset + 1))))"

definition as_get_asap :: "u16 \<Rightarrow> AssociationTable \<Rightarrow> u16 option" where
  "as_get_asap idx t =
     (let offset = TSAP_OFFSET + unat idx * ENTRY_SIZE + TSAP_OFFSET in
      if offset + 2 > length (as_data t) then None
      else Some (be16 (as_data t ! offset) (as_data t ! (offset + 1))))"

definition translate_asap :: "u16 \<Rightarrow> AssociationTable \<Rightarrow> u16 option" where
  "translate_asap asap t =
     (case find_from (\<lambda>i. as_get_asap (of_nat i) t = Some asap) 0 (unat (as_entry_count t)) of
        None \<Rightarrow> None | Some i \<Rightarrow> as_get_tsap (of_nat i) t)"

definition next_asap :: "u16 \<Rightarrow> u16 \<Rightarrow> AssociationTable \<Rightarrow> (u16 \<times> u16) option" where
  "next_asap tsap start_idx t =
     (case find_from (\<lambda>i. as_get_tsap (of_nat i) t = Some tsap) (unat start_idx)
             (unat (as_entry_count t) - unat start_idx) of
        None \<Rightarrow> None
      | Some i \<Rightarrow> Option.bind (as_get_asap (of_nat i) t) (\<lambda>a. Some (a, of_nat i + 1)))"

lemma next_asap_advances:
  assumes "next_asap tsap idx t = Some (a, nxt)"
  shows "unat idx < unat nxt" and "unat nxt \<le> unat (as_entry_count t)"
proof -
  from assms obtain i where i: "find_from (\<lambda>i. as_get_tsap (of_nat i) t = Some tsap) (unat idx)
      (unat (as_entry_count t) - unat idx) = Some i" "nxt = of_nat i + 1"
    by (auto simp: next_asap_def result_simps split: option.splits)
  then have b: "unat idx \<le> i" "i < unat (as_entry_count t)" by (auto simp: find_from_Some)
  then have "Suc i < 65536" using unat_bounds(3) [of "as_entry_count t"] by linarith
  then have "unat nxt = Suc i" using i(2) by (simp add: unat_word_ariths unat_of_nat)
  with b show "unat idx < unat nxt" "unat nxt \<le> unat (as_entry_count t)" by auto
qed

text \<open>\<open>while let Some((asap, next)) = next_asap(tsap, idx)\<close>; the index grows towards the count.\<close>

function asaps_loop :: "u16 \<Rightarrow> AssociationTable \<Rightarrow> u16 \<Rightarrow> u16 list \<Rightarrow> u16 list" where
  "asaps_loop tsap t idx result =
     (case next_asap tsap idx t of
        None \<Rightarrow> result
      | Some (asap, nxt) \<Rightarrow> asaps_loop tsap t nxt (result @ [asap]))"
  by pat_completeness auto
termination
proof (relation "measure (\<lambda>(tsap, t, idx, result). unat (as_entry_count t) - unat idx)")
  fix tsap t idx result x asap nxt
  assume "next_asap tsap idx t = Some x" "(asap, nxt) = x"
  then have "next_asap tsap idx t = Some (asap, nxt)" by simp
  from next_asap_advances [OF this]
  show "((tsap, t, nxt, result @ [asap]), tsap, t, idx, result)
      \<in> measure (\<lambda>(tsap, t, idx, result). unat (as_entry_count t) - unat idx)" by simp
qed simp

declare asaps_loop.simps [simp del]

definition asaps_for_tsap :: "u16 \<Rightarrow> AssociationTable \<Rightarrow> u16 list" where
  "asaps_for_tsap tsap t = asaps_loop tsap t 0 []"

section \<open>Group object table\<close>

datatype GroupObjectDescriptor = GroupObjectDescriptor (gd_raw: u16)

definition communication_enable :: "GroupObjectDescriptor \<Rightarrow> bool" where
  "communication_enable d \<longleftrightarrow> gd_raw d AND push_bit 10 1 \<noteq> 0"
definition read_enable :: "GroupObjectDescriptor \<Rightarrow> bool" where
  "read_enable d \<longleftrightarrow> gd_raw d AND push_bit 11 1 \<noteq> 0"
definition write_enable :: "GroupObjectDescriptor \<Rightarrow> bool" where
  "write_enable d \<longleftrightarrow> gd_raw d AND push_bit 12 1 \<noteq> 0"
definition read_on_init :: "GroupObjectDescriptor \<Rightarrow> bool" where
  "read_on_init d \<longleftrightarrow> gd_raw d AND push_bit 13 1 \<noteq> 0"
definition transmit_enable :: "GroupObjectDescriptor \<Rightarrow> bool" where
  "transmit_enable d \<longleftrightarrow> gd_raw d AND push_bit 14 1 \<noteq> 0"
definition update_enable :: "GroupObjectDescriptor \<Rightarrow> bool" where
  "update_enable d \<longleftrightarrow> gd_raw d AND push_bit 15 1 \<noteq> 0"
definition gd_priority :: "GroupObjectDescriptor \<Rightarrow> u8" where
  "gd_priority d = ucast (drop_bit 8 (gd_raw d) AND 0x03)"
definition value_type :: "GroupObjectDescriptor \<Rightarrow> u8" where
  "value_type d = ucast (gd_raw d AND 0xFF)"

definition value_size_bytes :: "GroupObjectDescriptor \<Rightarrow> nat" where
  "value_size_bytes d = (let code = unat (value_type d) in
     if code \<le> 6 then 0 else if code = 7 then 1
     else if 8 \<le> code \<and> code \<le> 10 \<or> 21 \<le> code \<and> code \<le> 254 then code - 6
     else if code = 11 then 6 else if code = 12 then 8 else if code = 13 then 10
     else if code = 14 then 14 else if code = 15 then 5 else if code = 16 then 7
     else if code = 17 then 9 else if code = 18 then 11 else if code = 19 then 12
     else if code = 20 then 13 else 252)"

definition go_size :: "GroupObjectDescriptor \<Rightarrow> nat" where
  "go_size d = (let s = value_size_bytes d in if s = 0 then 1 else s)"

record GroupObjectTable = got_data :: "u8 list"

definition group_object_table_new :: GroupObjectTable where
  "group_object_table_new = \<lparr>got_data = []\<rparr>"

definition got_load :: "u8 list \<Rightarrow> GroupObjectTable" where
  "got_load data = \<lparr>got_data = data\<rparr>"

definition got_entry_count :: "GroupObjectTable \<Rightarrow> u16" where
  "got_entry_count t = (if length (got_data t) < 2 then 0 else be16 (got_data t ! 0) (got_data t ! 1))"

definition get_descriptor :: "u16 \<Rightarrow> GroupObjectTable \<Rightarrow> GroupObjectDescriptor option" where
  "get_descriptor asap t =
     (if asap = 0 \<or> asap > got_entry_count t then None
      else let offset = unat asap * 2 in
        if offset + 2 > length (got_data t) then None
        else Some (GroupObjectDescriptor (be16 (got_data t ! offset) (got_data t ! (offset + 1)))))"

definition new_group_object_table_object :: InterfaceObject where
  "new_group_object_table_object =
     (let obj = io_new OtGroupObjectTable;
          obj = add_property (property_data (dp_read_write PidLoadStateControl PdtUnsignedChar [load_state_u8 Unloaded])) obj;
          obj = add_property (property_data (dp_read_write PidTableReference PdtUnsignedLong (replicate 4 0))) obj;
          obj = add_property (property_data (dp_read_write PidMcbTable PdtGeneric08 (replicate 8 0))) obj
      in add_property (property_data (dp_read_only PidErrorCode PdtUnsignedChar [0x00])) obj)"

lemma go_size_bounds: "1 \<le> go_size d \<and> go_size d \<le> 252"
proof -
  have "unat (value_type d) \<le> 255" by simp
  then show ?thesis by (auto simp: go_size_def value_size_bytes_def Let_def)
qed

section \<open>Downloaded images\<close>

lemma length_be16s [len_simps, simp]: "length (concat (map to_be16 es)) = 2 * length es"
  by (induction es) simp_all

lemma nth_be16s: "j < length es \<Longrightarrow> concat (map to_be16 es) ! (2 * j) = ucast (drop_bit 8 (es ! j)) \<and>
    concat (map to_be16 es) ! Suc (2 * j) = ucast (es ! j)"
proof (induction es arbitrary: j)
  case (Cons e es)
  then show ?case by (cases j) (simp_all add: to_be16_def)
qed simp

lemma length_table_image [len_simps, simp]: "length (table_image es) = 2 + 2 * length es"
  by (simp add: table_image_def)

lemma table_image_count: "be16 (table_image es ! 0) (table_image es ! Suc 0) = of_nat (length es)"
  by (simp add: table_image_def to_be16_def)

lemma table_image_entry:
  assumes "1 \<le> i" and "i \<le> length es"
  shows "be16 (table_image es ! (i * 2)) (table_image es ! Suc (i * 2)) = es ! (i - 1)"
proof -
  obtain j where j: "i = Suc j" "j < length es" using assms by (cases i) auto
  then show ?thesis
    using nth_be16s [OF j(2)] by (simp add: table_image_def to_be16_def mult.commute)
qed

lemma of_nat_le_u16: "length es < 65536 \<Longrightarrow> (i :: u16) \<le> of_nat (length es) \<longleftrightarrow> unat i \<le> length es"
  by (simp add: word_le_nat_alt unat_of_nat)

lemma of_nat_less_u16: "length es < 65536 \<Longrightarrow> of_nat (length es) < (i :: u16) \<longleftrightarrow> length es < unat i"
  by (simp add: word_less_nat_alt unat_of_nat)

interpretation addr: indexed_table at_load at_entry_count get_group_address id
proof
  fix es :: "u16 list" and i :: u16
  assume "length es < 65536"
  then show "map_option id (get_group_address i (at_load (table_image es))) =
      (if 1 \<le> unat i \<and> unat i \<le> length es then Some (es ! (unat i - 1)) else None)"
    using table_image_entry [of "unat i" es]
    by (auto simp: get_group_address_def at_entry_count_def at_load_def table_image_count Let_def not_less
        of_nat_less_u16 of_nat_le_u16 unat_gt_0 Suc_le_eq option.map_id)
qed (auto simp: at_entry_count_def at_load_def table_image_count get_group_address_def Let_def split: if_splits)

interpretation got: indexed_table got_load got_entry_count get_descriptor gd_raw
proof
  fix es :: "u16 list" and i :: u16
  assume "length es < 65536"
  then show "map_option gd_raw (get_descriptor i (got_load (table_image es))) =
      (if 1 \<le> unat i \<and> unat i \<le> length es then Some (es ! (unat i - 1)) else None)"
    using table_image_entry [of "unat i" es]
    by (auto simp: get_descriptor_def got_entry_count_def got_load_def table_image_count Let_def not_less
        of_nat_less_u16 of_nat_le_u16 unat_gt_0 Suc_le_eq)
qed (auto simp: got_entry_count_def got_load_def table_image_count get_descriptor_def Let_def split: if_splits)

section \<open>Lookup in the address table\<close>

lemma at_get_tsap_Some: "at_get_tsap ga t = Some i \<Longrightarrow> get_group_address i t = Some ga \<and> (\<forall>j<i. get_group_address j t \<noteq> Some ga)"
proof -
  assume "at_get_tsap ga t = Some i"
  then obtain k where k: "i = of_nat k" "1 \<le> k" "k < 1 + unat (at_entry_count t)"
    "get_group_address (of_nat k) t = Some ga" "\<forall>j. 1 \<le> j \<and> j < k \<longrightarrow> get_group_address (of_nat j) t \<noteq> Some ga"
    by (auto simp: at_get_tsap_def find_from_Some)
  have "k < 65536" using k(3) unat_bounds(3) [of "at_entry_count t"] by linarith
  then have u: "unat i = k" using k(1) by (simp add: unat_of_nat)
  have "get_group_address j t \<noteq> Some ga" if "j < i" for j
  proof (cases "j = 0")
    case False
    with that u have "1 \<le> unat j" "unat j < k" by (auto simp: word_less_nat_alt Suc_le_eq unat_gt_0)
    with k(5) [rule_format, of "unat j"] show ?thesis by simp
  qed (simp add: get_group_address_def)
  with k show ?thesis by simp
qed

lemma at_get_tsap_None: "at_get_tsap ga t = None \<Longrightarrow> get_group_address i t \<noteq> Some ga"
proof
  assume n: "at_get_tsap ga t = None" and g: "get_group_address i t = Some ga"
  from g have "i \<noteq> 0" "i \<le> at_entry_count t"
    using addr.get_in_count [of i t] by auto
  then have "1 \<le> unat i" "unat i < 1 + unat (at_entry_count t)"
    by (auto simp: word_le_nat_alt unat_gt_0 Suc_le_eq)
  moreover have "\<forall>j. 1 \<le> j \<and> j < 1 + unat (at_entry_count t) \<longrightarrow> get_group_address (of_nat j) t \<noteq> Some ga"
    using n unfolding at_get_tsap_def option.map_disc_iff find_from_None .
  ultimately have "get_group_address (of_nat (unat i)) t \<noteq> Some ga" by blast
  with g show False by simp
qed

text \<open>
  on any buffer, the TSAP found for a group address is the first entry that
  holds it, and none is found only when no entry holds it; on a table that ETS downloaded,
  \<open>contains\<close> is membership among the downloaded addresses.
\<close>
lemma address_lookup:
  "(case at_get_tsap ga t of
      Some i \<Rightarrow> get_group_address i t = Some ga \<and> (\<forall>j. get_group_address j t = Some ga \<longrightarrow> i \<le> j)
    | None \<Rightarrow> (\<forall>i. get_group_address i t \<noteq> Some ga)) \<and>
   (length es < 65536 \<longrightarrow> (at_contains ga (at_load (table_image es)) \<longleftrightarrow> ga \<in> set es))"
proof
  show "case at_get_tsap ga t of
      Some i \<Rightarrow> get_group_address i t = Some ga \<and> (\<forall>j. get_group_address j t = Some ga \<longrightarrow> i \<le> j)
    | None \<Rightarrow> (\<forall>i. get_group_address i t \<noteq> Some ga)"
    using at_get_tsap_Some [of ga t] at_get_tsap_None [of ga t]
    by (auto split: option.splits simp flip: not_less)
  let ?t = "at_load (table_image es)"
  show "length es < 65536 \<longrightarrow> (at_contains ga ?t \<longleftrightarrow> ga \<in> set es)"
  proof
    assume l: "length es < 65536"
    have g: "get_group_address i ?t = Some ga \<longleftrightarrow> 1 \<le> unat i \<and> unat i \<le> length es \<and> es ! (unat i - 1) = ga" for i
      using addr.get_image [OF l, of i] by (auto simp: option.map_id split: if_splits)
    have "at_contains ga ?t \<longleftrightarrow> (\<exists>i. get_group_address i ?t = Some ga)"
      using at_get_tsap_Some [of ga ?t] at_get_tsap_None [of ga ?t]
      by (auto simp: at_contains_def)
    also have "\<dots> \<longleftrightarrow> ga \<in> set es"
    proof
      assume "ga \<in> set es"
      then obtain k where k: "k < length es" "es ! k = ga" by (auto simp: in_set_conv_nth)
      with l have "unat (of_nat (Suc k) :: u16) = Suc k" by (simp add: unat_of_nat del: of_nat_Suc)
      with k have "get_group_address (of_nat (Suc k)) ?t = Some ga" by (simp add: g del: of_nat_Suc)
      then show "\<exists>i. get_group_address i ?t = Some ga" by blast
    qed (auto simp: g)
    finally show "at_contains ga ?t \<longleftrightarrow> ga \<in> set es" .
  qed
qed

section \<open>Association table lookups\<close>

definition assoc_image :: "(u16 \<times> u16) list \<Rightarrow> u8 list" where
  "assoc_image ps = to_be16 (of_nat (length ps)) @ concat (map (\<lambda>(t, a). to_be16 t @ to_be16 a) ps)"

lemma length_assoc_entries [len_simps, simp]: "length (concat (map (\<lambda>(t, a). to_be16 t @ to_be16 a) ps)) = 4 * length ps"
  by (induction ps) auto

lemma length_assoc_image [len_simps, simp]: "length (assoc_image ps) = 2 + 4 * length ps"
  by (simp add: assoc_image_def)

lemma nth_assoc_entries: "j < length ps \<Longrightarrow> (let es = concat (map (\<lambda>(t, a). to_be16 t @ to_be16 a) ps) in
    be16 (es ! (4 * j)) (es ! (4 * j + 1)) = fst (ps ! j) \<and> be16 (es ! (4 * j + 2)) (es ! (4 * j + 3)) = snd (ps ! j))"
proof (induction ps arbitrary: j)
  case (Cons p ps)
  obtain t a where p: "p = (t, a)" by fastforce
  show ?case
  proof (cases j)
    case (Suc i)
    with Cons.prems have "i < length ps" by simp
    from Cons.IH [OF this] show ?thesis
      by (simp add: Suc p to_be16_def Let_def numeral_eq_Suc)
  qed (simp add: p to_be16_def Let_def)
qed simp

lemma assoc_image_count: "length ps < 65536 \<Longrightarrow> unat (as_entry_count (as_load (assoc_image ps))) = length ps"
  by (simp add: as_entry_count_def as_load_def assoc_image_def to_be16_def unat_of_nat)

lemma assoc_image_entries:
  assumes "length ps < 65536" and "j < length ps"
  shows "as_get_tsap (of_nat j) (as_load (assoc_image ps)) = Some (fst (ps ! j))"
    and "as_get_asap (of_nat j) (as_load (assoc_image ps)) = Some (snd (ps ! j))"
proof -
  let ?es = "concat (map (\<lambda>(t, a). to_be16 t @ to_be16 a) ps)"
  have u: "unat (of_nat j :: u16) = j" using assms by (simp add: unat_of_nat)
  have n: "assoc_image ps ! Suc (Suc k) = ?es ! k" for k
    by (simp add: assoc_image_def to_be16_def)
  have "be16 (assoc_image ps ! (2 + j * 4)) (assoc_image ps ! (2 + j * 4 + 1)) = fst (ps ! j)"
    "be16 (assoc_image ps ! (2 + j * 4 + 2)) (assoc_image ps ! (2 + j * 4 + 2 + 1)) = snd (ps ! j)"
    using nth_assoc_entries [OF assms(2)] n [of "4 * j"] n [of "4 * j + 1"] n [of "4 * j + 2"] n [of "4 * j + 3"]
    by (simp_all add: Let_def mult.commute numeral_eq_Suc)
  with assms show "as_get_tsap (of_nat j) (as_load (assoc_image ps)) = Some (fst (ps ! j))"
    "as_get_asap (of_nat j) (as_load (assoc_image ps)) = Some (snd (ps ! j))"
    by (simp_all add: as_get_tsap_def as_get_asap_def as_load_def u TSAP_OFFSET_def ENTRY_SIZE_def Let_def)
qed

lemma find_from_filter: "filter P [k ..< k + n] =
    (case find_from P k n of None \<Rightarrow> [] | Some i \<Rightarrow> i # filter P [Suc i ..< k + n])"
proof (induction n arbitrary: k)
  case (Suc n)
  have "[k ..< k + Suc n] = k # [Suc k ..< Suc k + n]" by (simp add: upt_conv_Cons del: upt_Suc)
  then show ?case using Suc.IH [of "Suc k"] by (simp del: upt_Suc split: option.split)
qed simp

text \<open>The associations of a TSAP in a buffer whose entries are all present.\<close>

lemma asaps_loop_filter:
  assumes "\<forall>j < unat (as_entry_count t). as_get_asap (of_nat j) t \<noteq> None"
  shows "asaps_loop tsap t idx result = result @ map (\<lambda>j. the (as_get_asap (of_nat j) t))
    (filter (\<lambda>j. as_get_tsap (of_nat j) t = Some tsap) [unat idx ..< unat (as_entry_count t)])"
  using assms
proof (induction tsap t idx result rule: asaps_loop.induct)
  case (1 tsap t idx result)
  let ?P = "\<lambda>j. as_get_tsap (of_nat j) t = Some tsap" and ?n = "unat (as_entry_count t)"
  have n: "filter ?P [unat idx ..< ?n] = (case find_from ?P (unat idx) (?n - unat idx) of
      None \<Rightarrow> [] | Some i \<Rightarrow> i # filter ?P [Suc i ..< ?n])"
  proof (cases "unat idx \<le> ?n")
    case True
    then show ?thesis using find_from_filter [of ?P "unat idx" "?n - unat idx"] by (simp split: option.splits)
  qed simp
  show ?case
  proof (cases "find_from ?P (unat idx) (?n - unat idx)")
    case None
    with n show ?thesis by (simp add: asaps_loop.simps [of tsap t idx] next_asap_def)
  next
    case (Some i)
    then have i: "unat idx \<le> i" "i < ?n" by (auto simp: find_from_Some)
    then obtain a where a: "as_get_asap (of_nat i) t = Some a" using "1.prems" by blast
    have nx: "next_asap tsap idx t = Some (a, of_nat i + 1)"
      using Some a by (simp add: next_asap_def)
    have "Suc i < 65536" using i(2) unat_bounds(3) [of "as_entry_count t"] by linarith
    then have u: "unat (of_nat i + 1 :: u16) = Suc i" by (simp add: unat_word_ariths unat_of_nat)
    from "1.IH" [OF nx refl "1.prems"] show ?thesis
      using n Some a nx by (simp add: asaps_loop.simps [of tsap t idx] u)
  qed
qed

lemma filter_upt_nth: "map (\<lambda>j. f (xs ! j)) (filter (\<lambda>j. P (xs ! j)) [0 ..< length xs]) = map f (filter P xs)"
proof (induction xs rule: rev_induct)
  case (snoc x xs)
  have "map (\<lambda>j. f ((xs @ [x]) ! j)) (filter (\<lambda>j. P ((xs @ [x]) ! j)) [0 ..< length xs]) =
      map (\<lambda>j. f (xs ! j)) (filter (\<lambda>j. P (xs ! j)) [0 ..< length xs])"
    by (rule map_cong) (auto intro!: filter_cong simp: nth_append)
  with snoc show ?case by simp
qed simp

lemma asaps_image:
  assumes "length ps < 65536"
  shows "asaps_for_tsap tsap (as_load (assoc_image ps)) = map snd (filter (\<lambda>(t, a). t = tsap) ps)"
proof -
  let ?t = "as_load (assoc_image ps)"
  note e = assoc_image_entries [OF assms] and c = assoc_image_count [OF assms]
  have "asaps_for_tsap tsap ?t = map (\<lambda>j. the (as_get_asap (of_nat j) ?t))
      (filter (\<lambda>j. as_get_tsap (of_nat j) ?t = Some tsap) [0 ..< length ps])"
    using asaps_loop_filter [of ?t tsap 0 "[]"] e c by (simp add: asaps_for_tsap_def)
  also have "\<dots> = map (\<lambda>j. snd (ps ! j)) (filter (\<lambda>j. fst (ps ! j) = tsap) [0 ..< length ps])"
    by (rule map_cong) (auto intro!: filter_cong simp: e)
  also have "\<dots> = map snd (filter (\<lambda>p. fst p = tsap) ps)"
    by (rule filter_upt_nth)
  finally show ?thesis by (simp add: case_prod_beta')
qed

lemma translate_image:
  assumes "length ps < 65536"
  shows "translate_asap asap (as_load (assoc_image ps)) = map_option fst (List.find (\<lambda>(t, a). a = asap) ps)"
proof -
  let ?t = "as_load (assoc_image ps)" and ?P = "\<lambda>i. as_get_asap (of_nat i) (as_load (assoc_image ps)) = Some asap"
  note e = assoc_image_entries [OF assms] and c = assoc_image_count [OF assms]
  show ?thesis
  proof (cases "find_from ?P 0 (length ps)")
    case None
    then have "\<forall>j < length ps. snd (ps ! j) \<noteq> asap" using e by (auto simp: find_from_None)
    then have "List.find (\<lambda>(t, a). a = asap) ps = None" by (auto simp: find_None_iff in_set_conv_nth)
    with None show ?thesis by (simp add: translate_asap_def c)
  next
    case (Some i)
    then have i: "i < length ps" "snd (ps ! i) = asap" "\<forall>j < i. snd (ps ! j) \<noteq> asap"
      using e by (auto simp: find_from_Some)
    then have "List.find (\<lambda>(t, a). a = asap) ps = Some (ps ! i)"
      by (auto simp: find_Some_iff split_beta)
    with Some e(1) [OF i(1)] show ?thesis by (simp add: translate_asap_def c)
  qed
qed

text \<open>
  on a downloaded association table the collecting loop terminates with
  the ASAPs of a TSAP, all of them, in table order, and translating an ASAP back gives the TSAP of
  its first association, or none if it has none.
\<close>
lemma association_lookup:
  assumes "length ps < 65536"
  shows "asaps_for_tsap tsap (as_load (assoc_image ps)) = map snd (filter (\<lambda>(t, a). t = tsap) ps) \<and>
    translate_asap asap (as_load (assoc_image ps)) = map_option fst (List.find (\<lambda>(t, a). a = asap) ps)"
  using asaps_image [OF assms] translate_image [OF assms] by blast

end
