(* ===== verification/Group_Object.thy ===== *)
theory Group_Object
  imports Tables Dpt
begin

text \<open>
  Group objects and their store (\<open>knx-rs-device/src/group_object.rs\<close>). The update callback is a
  flag that says whether one is registered, and \<open>value_from_bus\<close> returns whether it was invoked
  (the callback only gets a shared reference to the object). The datapoint codecs of
  \<open>knx-rs-core/src/dpt/\<close> are parameters of the three methods that use them. The store invariant
  is that the object at position \<open>i\<close> has ASAP \<open>i + 1\<close>.
\<close>

datatype ComFlag =
  CfUpdated | CfReadRequest | CfWriteRequest | CfTransmitting | CfOk | CfError | CfUninitialized

datatype 'e dpt_error = NoDpt | CodecError 'e

record GroupObject =
  go_asap :: u16
  go_comm_flag :: ComFlag
  go_data :: "u8 list"
  go_dpt :: "dpt option"
  go_on_update :: bool

definition go_new :: "u16 \<Rightarrow> nat \<Rightarrow> GroupObject" where
  "go_new asap sz = \<lparr>go_asap = asap, go_comm_flag = CfUninitialized, go_data = replicate sz 0,
     go_dpt = None, go_on_update = False\<rparr>"

definition go_with_dpt :: "u16 \<Rightarrow> dpt \<Rightarrow> GroupObject" where
  "go_with_dpt asap d = \<lparr>go_asap = asap, go_comm_flag = CfUninitialized,
     go_data = replicate (unat (data_length d)) 0, go_dpt = Some d, go_on_update = False\<rparr>"

definition go_set_dpt :: "dpt \<Rightarrow> GroupObject \<Rightarrow> GroupObject" where
  "go_set_dpt d go = (let needed = unat (data_length d) in
     go\<lparr>go_dpt := Some d, go_data := (if length (go_data go) < needed then vec_resize needed 0 (go_data go) else go_data go)\<rparr>)"

definition go_register :: "GroupObject \<Rightarrow> GroupObject" where
  "go_register go = go\<lparr>go_on_update := True\<rparr>"

definition go_set_comm_flag :: "ComFlag \<Rightarrow> GroupObject \<Rightarrow> GroupObject" where
  "go_set_comm_flag f go = go\<lparr>go_comm_flag := f\<rparr>"

definition go_initialized :: "GroupObject \<Rightarrow> bool" where
  "go_initialized go \<longleftrightarrow> go_comm_flag go \<noteq> CfUninitialized"

definition request_object_read :: "GroupObject \<Rightarrow> GroupObject" where
  "request_object_read go = go\<lparr>go_comm_flag := CfReadRequest\<rparr>"

definition object_written :: "GroupObject \<Rightarrow> GroupObject" where
  "object_written go = go\<lparr>go_comm_flag := CfWriteRequest\<rparr>"

definition go_value_size :: "GroupObject \<Rightarrow> nat" where
  "go_value_size go = length (go_data go)"

definition resize_data :: "nat \<Rightarrow> GroupObject \<Rightarrow> GroupObject" where
  "resize_data n go = go\<lparr>go_data := vec_resize n 0 (go_data go)\<rparr>"

text \<open>\<open>let len = data.len().min(self.data.len()); self.data[..len].copy_from_slice(&data[..len])\<close>\<close>

definition copy_prefix :: "u8 list \<Rightarrow> u8 list \<Rightarrow> u8 list" where
  "copy_prefix src dst = (let len = min (length src) (length dst) in buf_write 0 (take len src) dst)"

definition write_value :: "u8 list \<Rightarrow> GroupObject \<Rightarrow> GroupObject" where
  "write_value data go = go\<lparr>go_data := copy_prefix data (go_data go), go_comm_flag := CfWriteRequest\<rparr>"

definition write_value_no_send :: "u8 list \<Rightarrow> GroupObject \<Rightarrow> GroupObject" where
  "write_value_no_send data go = go\<lparr>go_data := copy_prefix data (go_data go),
     go_comm_flag := (if go_comm_flag go = CfUninitialized then CfOk else go_comm_flag go)\<rparr>"

definition value_from_bus :: "u8 list \<Rightarrow> GroupObject \<Rightarrow> GroupObject \<times> bool" where
  "value_from_bus data go =
     (go\<lparr>go_data := copy_prefix data (go_data go), go_comm_flag := CfUpdated\<rparr>, go_on_update go)"

definition go_value :: "(dpt \<Rightarrow> u8 list \<Rightarrow> 'e + 'v) \<Rightarrow> GroupObject \<Rightarrow> 'e dpt_error + 'v" where
  "go_value decode go = (case go_dpt go of None \<Rightarrow> Inl NoDpt
     | Some d \<Rightarrow> (case decode d (go_data go) of Inl e \<Rightarrow> Inl (CodecError e) | Inr v \<Rightarrow> Inr v))"

definition set_value :: "(dpt \<Rightarrow> 'v \<Rightarrow> 'e + u8 list) \<Rightarrow> 'v \<Rightarrow> GroupObject \<Rightarrow> GroupObject \<times> ('e dpt_error + unit)" where
  "set_value encode v go = (case go_dpt go of None \<Rightarrow> (go, Inl NoDpt)
     | Some d \<Rightarrow> (case encode d v of Inl e \<Rightarrow> (go, Inl (CodecError e))
        | Inr encoded \<Rightarrow> (go\<lparr>go_data := copy_prefix encoded (go_data go), go_comm_flag := CfWriteRequest\<rparr>, Inr ())))"

definition set_value_if_changed ::
  "(dpt \<Rightarrow> 'v \<Rightarrow> 'e + u8 list) \<Rightarrow> 'v \<Rightarrow> GroupObject \<Rightarrow> GroupObject \<times> ('e dpt_error + bool)" where
  "set_value_if_changed encode v go = (case go_dpt go of None \<Rightarrow> (go, Inl NoDpt)
     | Some d \<Rightarrow> (case encode d v of Inl e \<Rightarrow> (go, Inl (CodecError e))
        | Inr encoded \<Rightarrow>
            let len = min (length encoded) (length (go_data go)) in
            if take len (go_data go) = take len encoded then (go, Inr False)
            else (go\<lparr>go_data := copy_prefix encoded (go_data go), go_comm_flag := CfWriteRequest\<rparr>, Inr True)))"

definition transmit_done :: "bool \<Rightarrow> GroupObject \<Rightarrow> GroupObject" where
  "transmit_done success go = go\<lparr>go_comm_flag := (if success then CfOk else CfError)\<rparr>"

section \<open>The store\<close>

record GroupObjectStore = gs_objects :: "GroupObject list"

definition store_new :: "u16 \<Rightarrow> nat \<Rightarrow> GroupObjectStore" where
  "store_new n default_size = \<lparr>gs_objects = map (\<lambda>i. go_new (of_nat (i + 1)) default_size) [0 ..< unat n]\<rparr>"

definition store_get :: "u16 \<Rightarrow> GroupObjectStore \<Rightarrow> GroupObject option" where
  "store_get asap s =
     (if asap = 0 then None
      else let i = unat (asap - 1) in if i < length (gs_objects s) then Some (gs_objects s ! i) else None)"

text \<open>\<open>get_mut\<close> and a change through it; the second component is what \<open>get_mut\<close> returned.\<close>

definition store_update :: "u16 \<Rightarrow> (GroupObject \<Rightarrow> GroupObject) \<Rightarrow> GroupObjectStore \<Rightarrow> GroupObjectStore" where
  "store_update asap f s =
     (if asap = 0 then s
      else let i = unat (asap - 1) in
        if i < length (gs_objects s) then s\<lparr>gs_objects := (gs_objects s)[i := f (gs_objects s ! i)]\<rparr> else s)"

definition store_count :: "GroupObjectStore \<Rightarrow> u16" where
  "store_count s = (let n = length (gs_objects s) in if n < 65536 then of_nat n else 0)"

definition is_pending :: "GroupObject \<Rightarrow> bool" where
  "is_pending go \<longleftrightarrow> go_comm_flag go = CfWriteRequest \<or> go_comm_flag go = CfReadRequest"

definition next_pending :: "GroupObjectStore \<Rightarrow> u16 option" where
  "next_pending s = map_option go_asap (List.find is_pending (gs_objects s))"

definition next_updated :: "GroupObjectStore \<Rightarrow> u16 option" where
  "next_updated s = map_option go_asap (List.find (\<lambda>go. go_comm_flag go = CfUpdated) (gs_objects s))"

text \<open>\<open>while self.objects.len() < count\<close>: the second argument counts the objects still missing.\<close>

fun grow_store :: "GroupObject list \<Rightarrow> nat \<Rightarrow> GroupObject list" where
  "grow_store objs 0 = objs"
| "grow_store objs (Suc n) =
     (let asap = (if length objs < 65536 then of_nat (length objs) else 0) + 1
      in grow_store (objs @ [go_new asap 1]) n)"

definition resize_from_descriptor :: "GroupObjectTable \<Rightarrow> u16 \<Rightarrow> GroupObjectStore \<Rightarrow> GroupObjectStore" where
  "resize_from_descriptor table asap s =
     (case get_descriptor asap table of
        None \<Rightarrow> s
      | Some desc \<Rightarrow> store_update asap
          (\<lambda>go. if go_value_size go \<noteq> go_size desc then resize_data (go_size desc) go else go) s)"

definition reinitialize_from_table :: "GroupObjectTable \<Rightarrow> GroupObjectStore \<Rightarrow> GroupObjectStore" where
  "reinitialize_from_table table s =
     (let n = unat (got_entry_count table);
          objs = grow_store (gs_objects s) (n - length (gs_objects s));
          s = s\<lparr>gs_objects := take n objs\<rparr>
      in fold (\<lambda>i. resize_from_descriptor table (of_nat i)) [1 ..< n + 1] s)"

section \<open>Values\<close>

lemma length_copy_prefix [len_simps, simp]: "length (copy_prefix src dst) = length dst"
  by (simp add: copy_prefix_def Let_def)

lemma copy_prefix_same: "length src = length dst \<Longrightarrow> copy_prefix src dst = src"
  by (simp add: copy_prefix_def buf_write_def)

lemma copy_prefix_take: "take (min (length src) (length dst)) (copy_prefix src dst) = take (min (length src) (length dst)) src"
  by (simp add: copy_prefix_def buf_write_def Let_def min_def)

section \<open>The store invariant\<close>

definition store_ok :: "GroupObjectStore \<Rightarrow> bool" where
  "store_ok s \<longleftrightarrow> length (gs_objects s) < 65536 \<and> (\<forall>i < length (gs_objects s). go_asap (gs_objects s ! i) = of_nat (Suc i))"

lemma asap_index:
  assumes "i < 65535"
  shows "(of_nat (Suc i) :: u16) \<noteq> 0" "unat ((of_nat (Suc i) :: u16) - 1) = i"
proof -
  have "unat (of_nat (Suc i) :: u16) = Suc i" using assms by (simp add: unat_of_nat del: of_nat_Suc)
  then show "(of_nat (Suc i) :: u16) \<noteq> 0" by (metis unat_0 nat.simps(3))
  have "(of_nat (Suc i) :: u16) - 1 = of_nat i" by simp
  then show "unat ((of_nat (Suc i) :: u16) - 1) = i" using assms by (simp add: unat_of_nat)
qed

lemma index_asap: "(asap::u16) \<noteq> 0 \<Longrightarrow> of_nat (Suc (unat (asap - 1))) = asap"
  by simp

lemma store_ok_new: "store_ok (store_new n sz)"
  by (auto simp: store_ok_def store_new_def go_new_def)

lemma store_ok_update: "store_ok s \<Longrightarrow> (\<And>go. go_asap (f go) = go_asap go) \<Longrightarrow> store_ok (store_update asap f s)"
  by (auto simp: store_ok_def store_update_def Let_def nth_list_update)

lemma store_get_asap: "store_ok s \<Longrightarrow> store_get asap s = Some go \<Longrightarrow> go_asap go = asap"
  using index_asap [of asap] by (auto simp: store_ok_def store_get_def Let_def split: if_splits)

lemma store_get_update: "store_get a (store_update b f s) =
    (if a = b then map_option f (store_get a s) else store_get a s)"
proof -
  have "a = b" if "unat (a - 1) = unat (b - 1)" for a b :: u16
    using that by (simp add: word_unat_eq_iff [symmetric])
  then show ?thesis
    by (auto simp: store_get_def store_update_def Let_def nth_list_update)
qed

lemma store_update_length [simp]: "length (gs_objects (store_update a f s)) = length (gs_objects s)"
  by (simp add: store_update_def Let_def)

lemma grow_store_append: "grow_store objs n = objs @ map (\<lambda>k. go_new ((if length objs + k < 65536 then of_nat (length objs + k) else 0) + 1) 1) [0 ..< n]"
proof (induction n arbitrary: objs)
  case (Suc n)
  have "[0 ..< Suc n] = 0 # map Suc [0 ..< n]" by (simp add: map_Suc_upt upt_conv_Cons del: upt_Suc)
  then show ?case by (simp add: Suc Let_def comp_def del: upt_Suc)
qed simp

definition resize_one :: "GroupObjectTable \<Rightarrow> u16 \<Rightarrow> GroupObject \<Rightarrow> GroupObject" where
  "resize_one table a go = (case get_descriptor a table of None \<Rightarrow> go
     | Some d \<Rightarrow> if go_value_size go \<noteq> go_size d then resize_data (go_size d) go else go)"

lemma resize_one_frame [simp]: "go_asap (resize_one t a go) = go_asap go" "go_comm_flag (resize_one t a go) = go_comm_flag go"
  by (auto simp: resize_one_def resize_data_def split: option.splits)

lemma resize_from_descriptor_get: "store_get a (resize_from_descriptor t b s) =
    (if a = b then map_option (resize_one t a) (store_get a s) else store_get a s)"
proof -
  have "map_option (resize_one t b) x = x" if "get_descriptor b t = None" for x
    using that by (cases x) (simp_all add: resize_one_def)
  moreover have "resize_one t b = (\<lambda>go. if go_value_size go \<noteq> go_size d then resize_data (go_size d) go else go)"
    if "get_descriptor b t = Some d" for d
    using that by (simp add: resize_one_def fun_eq_iff)
  ultimately show ?thesis
    by (auto simp: resize_from_descriptor_def store_get_update split: option.splits)
qed

lemma resize_from_descriptor_ok:
  "length (gs_objects (resize_from_descriptor t a s)) = length (gs_objects s)"
  "store_ok s \<Longrightarrow> store_ok (resize_from_descriptor t a s)"
  by (auto simp: resize_from_descriptor_def resize_data_def split: option.splits intro!: store_ok_update)

lemma resize_all:
  assumes "m < 65536"
  shows "store_get a (fold (\<lambda>i. resize_from_descriptor t (of_nat i)) [1 ..< m + 1] s) =
    (if 1 \<le> unat a \<and> unat a \<le> m then map_option (resize_one t a) (store_get a s) else store_get a s)"
  using assms
proof (induction m)
  case (Suc m)
  have "a = of_nat (Suc m) \<longleftrightarrow> unat a = Suc m"
    using Suc.prems by (auto simp: word_unat_eq_iff unat_of_nat simp del: of_nat_Suc)
  with Suc show ?case
    by (auto simp: resize_from_descriptor_get simp del: of_nat_Suc)
qed auto

lemma resize_all_ok: "store_ok s \<Longrightarrow> store_ok (fold (\<lambda>i. resize_from_descriptor t (of_nat i)) is s)"
  "length (gs_objects (fold (\<lambda>i. resize_from_descriptor t (of_nat i)) is s)) = length (gs_objects s)"
  by (induction "is" arbitrary: s) (simp_all add: resize_from_descriptor_ok)

lemma resize_one_size: "get_descriptor a t = Some d \<Longrightarrow> go_value_size (resize_one t a go) = go_size d"
  by (simp add: resize_one_def resize_data_def go_value_size_def)

lemma grown_ok:
  assumes "store_ok s" and "n < 65536"
  defines "s' \<equiv> s\<lparr>gs_objects := take n (grow_store (gs_objects s) (n - length (gs_objects s)))\<rparr>"
  shows "store_ok s' \<and> length (gs_objects s') = n \<and>
    (\<forall>i < min n (length (gs_objects s)). gs_objects s' ! i = gs_objects s ! i)"
proof -
  have l: "length (gs_objects s') = n"
    using assms(2) by (simp add: s'_def grow_store_append)
  moreover have "go_asap (gs_objects s' ! i) = of_nat (Suc i)" if "i < n" for i
    using that assms(1,2) by (auto simp: s'_def grow_store_append nth_append store_ok_def go_new_def)
  ultimately show ?thesis
    using assms(2) by (auto simp: store_ok_def s'_def grow_store_append nth_append)
qed

text \<open>
  loading a group object table leaves a store with exactly the declared
  number of objects, numbered from 1 in order, in which every object with a descriptor has the
  size the descriptor says, and every object that was there before keeps its communication flag.
\<close>
lemma store_reinitialize:
  assumes "store_ok s"
  shows "store_ok (reinitialize_from_table t s) \<and>
    length (gs_objects (reinitialize_from_table t s)) = unat (got_entry_count t) \<and>
    (\<forall>a d. get_descriptor a t = Some d \<longrightarrow>
       (\<exists>go. store_get a (reinitialize_from_table t s) = Some go \<and> go_asap go = a \<and> go_value_size go = go_size d)) \<and>
    (\<forall>a go. store_get a s = Some go \<and> a \<le> got_entry_count t \<longrightarrow>
       (\<exists>go'. store_get a (reinitialize_from_table t s) = Some go' \<and> go_comm_flag go' = go_comm_flag go))"
proof -
  define n where "n = unat (got_entry_count t)"
  define s1 where "s1 = s\<lparr>gs_objects := take n (grow_store (gs_objects s) (n - length (gs_objects s)))\<rparr>"
  have n: "n < 65536" by (simp add: n_def)
  have s1: "store_ok s1" "length (gs_objects s1) = n"
    "\<forall>i < min n (length (gs_objects s)). gs_objects s1 ! i = gs_objects s ! i"
    using grown_ok [OF assms n] by (auto simp: s1_def)
  have r: "reinitialize_from_table t s = fold (\<lambda>i. resize_from_descriptor t (of_nat i)) [1 ..< n + 1] s1"
    by (simp add: reinitialize_from_table_def Let_def n_def s1_def del: upt_Suc)
  note ok = resize_all_ok [where s = s1 and t = t and ?is = "[1 ..< n + 1]", folded r] and get = resize_all [OF n, where t = t and s = s1, folded r]
  have in_range: "1 \<le> unat a \<and> unat a \<le> n \<longrightarrow> store_get a s1 \<noteq> None" for a
    using s1(2) by (auto simp: store_get_def Let_def unat_sub word_le_nat_alt)
  have "\<exists>go. store_get a (reinitialize_from_table t s) = Some go \<and> go_asap go = a \<and> go_value_size go = go_size d"
    if "get_descriptor a t = Some d" for a d
  proof -
    from that got.get_in_count [of a t] have "1 \<le> unat a \<and> unat a \<le> n"
      by (auto simp: n_def word_le_nat_alt unat_gt_0 Suc_le_eq)
    with in_range [of a] obtain go where "store_get a s1 = Some go" by auto
    with \<open>1 \<le> unat a \<and> unat a \<le> n\<close> get [of a] resize_one_size [OF that] store_get_asap [OF s1(1)] show ?thesis
      by auto
  qed
  moreover have "\<exists>go'. store_get a (reinitialize_from_table t s) = Some go' \<and> go_comm_flag go' = go_comm_flag go"
    if "store_get a s = Some go" "a \<le> got_entry_count t" for a go
  proof -
    from that have "1 \<le> unat a \<and> unat a \<le> n" "unat (a - 1) < length (gs_objects s)" "gs_objects s ! unat (a - 1) = go"
      by (auto simp: n_def word_le_nat_alt store_get_def Let_def Suc_le_eq unat_gt_0 split: if_splits)
    moreover from this(1) have "unat (a - 1) < n" by (auto simp: unat_sub word_le_nat_alt)
    ultimately have "store_get a s1 = Some go" using s1(2,3) that by (auto simp: store_get_def Let_def split: if_splits)
    with \<open>1 \<le> unat a \<and> unat a \<le> n\<close> get [of a] show ?thesis by auto
  qed
  ultimately show ?thesis
    using ok s1(1,2) by (auto simp: n_def)
qed

end
