(* ===== verification/App_Layer.thy ===== *)
theory App_Layer
  imports Apdu
begin

text \<open>
  The incoming half of the application layer (\<open>application_layer/types.rs\<close>, \<open>mod.rs\<close>,
  \<open>parse.rs\<close>): the indications handed to the application unit, the parser of every service
  with its length check, the dispatch over the service, and the parser of a raw APDU. One
  definition per function of the code. The theorems say which inputs are refused and with which
  error, and that the extended property header is read as it is written.
\<close>

section \<open>Indications and errors\<close>

datatype AppLayerError =
    UnsupportedApdu ApduType
  | TruncatedPayload nat nat
  | MalformedData

datatype (plugins only:) AppIndication =
    IndGroupValueWrite u16 "u8 list"
  | IndGroupValueResponse u16 "u8 list"
  | IndGroupValueRead u16
  | IndPropertyValueRead u8 u8 u8 u16
  | IndPropertyValueWrite u8 u8 u8 u16 "u8 list"
  | IndDeviceDescriptorRead u8
  | IndMemoryRead u8 u16
  | IndMemoryWrite u8 u16 "u8 list"
  | IndRestart
  | IndIndividualAddressWrite u16
  | IndIndividualAddressRead
  | IndAuthorizeRequest u32
  | IndRestartMasterReset u8 u8
  | IndPropertyDescriptionRead u8 u8 u8
  | IndMemoryExtRead u8 u32
  | IndMemoryExtWrite u8 u32 "u8 list"
  | IndIndividualAddressSerialNumberRead "u8 list"
  | IndIndividualAddressSerialNumberWrite "u8 list" u16
  | IndKeyWrite u8 u32
  | IndFunctionPropertyCommand u8 u8 "u8 list"
  | IndFunctionPropertyState u8 u8 "u8 list"
  | IndSystemNetworkParameterRead u16 u16 "u8 list"
  | IndAdcRead u8 u8
  | IndPropertyValueExtRead u16 u16 u16 u8 u16
  | IndPropertyValueExtWriteCon u16 u16 u16 u8 u16 "u8 list"
  | IndPropertyValueExtWriteUnCon u16 u16 u16 u8 u16 "u8 list"
  | IndPropertyExtDescriptionRead u16 u16 u16 u8 u16

type_synonym indication_result = "AppLayerError + AppIndication"

section \<open>Bit masks\<close>

definition MASK_6BIT :: u8 where "MASK_6BIT = 0x3F"
definition MASK_4BIT :: u8 where "MASK_4BIT = 0x0F"
definition MEMORY_RESPONSE_MAX_LEN :: nat where "MEMORY_RESPONSE_MAX_LEN = unat MASK_4BIT"
definition MASK_12BIT :: u16 where "MASK_12BIT = 0x0FFF"
definition WRITE_ENABLE_FLAG :: u8 where "WRITE_ENABLE_FLAG = 0x80"
definition DESCRIPTOR_TYPE_UNSUPPORTED :: u8 where "DESCRIPTOR_TYPE_UNSUPPORTED = 0x3F"

lemmas app_masks = MASK_6BIT_def MASK_4BIT_def MEMORY_RESPONSE_MAX_LEN_def MASK_12BIT_def
  WRITE_ENABLE_FLAG_def DESCRIPTOR_TYPE_UNSUPPORTED_def

section \<open>One parser per service\<close>

definition check_len :: "u8 list \<Rightarrow> nat \<Rightarrow> AppLayerError + unit" where
  "check_len data expected =
     (if length data \<ge> expected then Inr () else Inl (TruncatedPayload expected (length data)))"

definition parse_group_value_write :: "u8 list \<Rightarrow> AppIndication" where
  "parse_group_value_write data = IndGroupValueWrite 0 data"

definition parse_group_value_response :: "u8 list \<Rightarrow> AppIndication" where
  "parse_group_value_response data = IndGroupValueResponse 0 data"

definition parse_group_value_read :: "u8 list \<Rightarrow> AppIndication" where
  "parse_group_value_read data = IndGroupValueRead 0"

definition parse_property_value_read :: "u8 list \<Rightarrow> indication_result" where
  "parse_property_value_read data = bind_res (check_len data 4) (\<lambda>_.
     Inr (IndPropertyValueRead (data ! 0) (data ! 1) (drop_bit 4 (data ! 2) AND MASK_4BIT)
       (push_bit 8 (ucast (data ! 2 AND MASK_4BIT)) OR ucast (data ! 3))))"

definition parse_property_value_write :: "u8 list \<Rightarrow> indication_result" where
  "parse_property_value_write data = bind_res (check_len data 4) (\<lambda>_.
     Inr (IndPropertyValueWrite (data ! 0) (data ! 1) (drop_bit 4 (data ! 2) AND MASK_4BIT)
       (push_bit 8 (ucast (data ! 2 AND MASK_4BIT)) OR ucast (data ! 3)) (drop 4 data)))"

definition parse_device_descriptor_read :: "u8 list \<Rightarrow> AppIndication" where
  "parse_device_descriptor_read data =
     IndDeviceDescriptorRead ((case data of [] \<Rightarrow> 0 | v # _ \<Rightarrow> v) AND MASK_6BIT)"

definition parse_memory_read :: "u8 list \<Rightarrow> indication_result" where
  "parse_memory_read data = bind_res (check_len data 3) (\<lambda>_.
     Inr (IndMemoryRead (data ! 0 AND MASK_6BIT) (be16 (data ! 1) (data ! 2))))"

definition parse_memory_write :: "u8 list \<Rightarrow> indication_result" where
  "parse_memory_write data = bind_res (check_len data 3) (\<lambda>_.
     Inr (IndMemoryWrite (data ! 0 AND MASK_6BIT) (be16 (data ! 1) (data ! 2)) (drop 3 data)))"

definition parse_restart :: "u8 list \<Rightarrow> AppIndication" where
  "parse_restart data = IndRestart"

definition parse_individual_address_write :: "u8 list \<Rightarrow> indication_result" where
  "parse_individual_address_write data = bind_res (check_len data 2) (\<lambda>_.
     Inr (IndIndividualAddressWrite (be16 (data ! 0) (data ! 1))))"

definition parse_individual_address_read :: "u8 list \<Rightarrow> AppIndication" where
  "parse_individual_address_read data = IndIndividualAddressRead"

definition parse_authorize_request :: "u8 list \<Rightarrow> indication_result" where
  "parse_authorize_request data = bind_res (check_len data 5) (\<lambda>_.
     Inr (IndAuthorizeRequest (be32 (data ! 1) (data ! 2) (data ! 3) (data ! 4))))"

text \<open>Two octets are erase code and channel; with three or more, they stand behind a leading octet.\<close>

fun parse_restart_master_reset :: "u8 list \<Rightarrow> indication_result" where
  "parse_restart_master_reset [erase_code, channel] = Inr (IndRestartMasterReset erase_code channel)"
| "parse_restart_master_reset (_ # erase_code # channel # _) = Inr (IndRestartMasterReset erase_code channel)"
| "parse_restart_master_reset data = Inl (TruncatedPayload 2 (length data))"

definition parse_property_description_read :: "u8 list \<Rightarrow> indication_result" where
  "parse_property_description_read data = bind_res (check_len data 3) (\<lambda>_.
     Inr (IndPropertyDescriptionRead (data ! 0) (data ! 1) (data ! 2)))"

definition parse_memory_ext_read :: "u8 list \<Rightarrow> indication_result" where
  "parse_memory_ext_read data = bind_res (check_len data 4) (\<lambda>_.
     Inr (IndMemoryExtRead (data ! 0) (be32 0 (data ! 1) (data ! 2) (data ! 3))))"

definition parse_memory_ext_write :: "u8 list \<Rightarrow> indication_result" where
  "parse_memory_ext_write data = bind_res (check_len data 4) (\<lambda>_.
     Inr (IndMemoryExtWrite (data ! 0) (be32 0 (data ! 1) (data ! 2) (data ! 3)) (drop 4 data)))"

definition parse_individual_address_serial_number_read :: "u8 list \<Rightarrow> indication_result" where
  "parse_individual_address_serial_number_read data = bind_res (check_len data 6) (\<lambda>_.
     Inr (IndIndividualAddressSerialNumberRead (take 6 data)))"

definition parse_individual_address_serial_number_write :: "u8 list \<Rightarrow> indication_result" where
  "parse_individual_address_serial_number_write data = bind_res (check_len data 8) (\<lambda>_.
     Inr (IndIndividualAddressSerialNumberWrite (take 6 data) (be16 (data ! 6) (data ! 7))))"

definition parse_key_write :: "u8 list \<Rightarrow> indication_result" where
  "parse_key_write data = bind_res (check_len data 5) (\<lambda>_.
     Inr (IndKeyWrite (data ! 0) (be32 (data ! 1) (data ! 2) (data ! 3) (data ! 4))))"

definition parse_function_property_command :: "u8 list \<Rightarrow> indication_result" where
  "parse_function_property_command data = bind_res (check_len data 2) (\<lambda>_.
     Inr (IndFunctionPropertyCommand (data ! 0) (data ! 1) (drop 2 data)))"

definition parse_function_property_state :: "u8 list \<Rightarrow> indication_result" where
  "parse_function_property_state data = bind_res (check_len data 2) (\<lambda>_.
     Inr (IndFunctionPropertyState (data ! 0) (data ! 1) (drop 2 data)))"

definition parse_system_network_parameter_read :: "u8 list \<Rightarrow> indication_result" where
  "parse_system_network_parameter_read data = bind_res (check_len data 4) (\<lambda>_.
     let object_type = be16 (data ! 0) (data ! 1); pid_raw = be16 (data ! 2) (data ! 3) in
     Inr (IndSystemNetworkParameterRead object_type (drop_bit 4 pid_raw) (drop 4 data)))"

definition parse_adc_read :: "u8 list \<Rightarrow> indication_result" where
  "parse_adc_read data = bind_res (check_len data 2) (\<lambda>_.
     Inr (IndAdcRead (data ! 0 AND MASK_6BIT) (data ! 1)))"

definition parse_ext_ot_oi_pid :: "u8 list \<Rightarrow> u16 \<times> u16 \<times> u16" where
  "parse_ext_ot_oi_pid data =
     (be16 (data ! 0) (data ! 1),
      push_bit 4 (ucast (data ! 2)) OR drop_bit 4 (ucast (data ! 3)),
      push_bit 8 (ucast (data ! 3 AND MASK_4BIT)) OR ucast (data ! 4))"

definition parse_ext_property_header :: "u8 list \<Rightarrow> u16 \<times> u16 \<times> u16 \<times> u8 \<times> u16" where
  "parse_ext_property_header data =
     (let (object_type, object_instance, property_id) = parse_ext_ot_oi_pid data;
          count = data ! 5; start_index = be16 (data ! 6) (data ! 7)
      in (object_type, object_instance, property_id, count, start_index))"

definition parse_property_value_ext_read :: "u8 list \<Rightarrow> indication_result" where
  "parse_property_value_ext_read data = bind_res (check_len data 8) (\<lambda>_.
     let (ot, oi, pid, count, si) = parse_ext_property_header data in
     Inr (IndPropertyValueExtRead ot oi pid count si))"

definition parse_property_value_ext_write_con :: "u8 list \<Rightarrow> indication_result" where
  "parse_property_value_ext_write_con data = bind_res (check_len data 8) (\<lambda>_.
     let (ot, oi, pid, count, si) = parse_ext_property_header data in
     Inr (IndPropertyValueExtWriteCon ot oi pid count si (drop 8 data)))"

definition parse_property_value_ext_write_uncon :: "u8 list \<Rightarrow> indication_result" where
  "parse_property_value_ext_write_uncon data = bind_res (check_len data 8) (\<lambda>_.
     let (ot, oi, pid, count, si) = parse_ext_property_header data in
     Inr (IndPropertyValueExtWriteUnCon ot oi pid count si (drop 8 data)))"

definition parse_property_ext_description_read :: "u8 list \<Rightarrow> indication_result" where
  "parse_property_ext_description_read data = bind_res (check_len data 8) (\<lambda>_.
     let (object_type, object_instance, property_id) = parse_ext_ot_oi_pid data;
         description_type = drop_bit 4 (data ! 5);
         property_index = push_bit 8 (ucast (data ! 6 AND MASK_4BIT)) OR ucast (data ! 7) in
     Inr (IndPropertyExtDescriptionRead object_type object_instance property_id
       description_type property_index))"

section \<open>Dispatch\<close>

definition parse_indication :: "ApduType \<Rightarrow> u8 list \<Rightarrow> indication_result" where
  "parse_indication t data = (case t of
     GroupValueWrite \<Rightarrow> Inr (parse_group_value_write data)
   | GroupValueResponse \<Rightarrow> Inr (parse_group_value_response data)
   | GroupValueRead \<Rightarrow> Inr (parse_group_value_read data)
   | PropertyValueRead \<Rightarrow> parse_property_value_read data
   | PropertyValueWrite \<Rightarrow> parse_property_value_write data
   | DeviceDescriptorRead \<Rightarrow> Inr (parse_device_descriptor_read data)
   | MemoryRead \<Rightarrow> parse_memory_read data
   | MemoryWrite \<Rightarrow> parse_memory_write data
   | Restart \<Rightarrow> Inr (parse_restart data)
   | IndividualAddressWrite \<Rightarrow> parse_individual_address_write data
   | IndividualAddressRead \<Rightarrow> Inr (parse_individual_address_read data)
   | AuthorizeRequest \<Rightarrow> parse_authorize_request data
   | RestartMasterReset \<Rightarrow> parse_restart_master_reset data
   | PropertyDescriptionRead \<Rightarrow> parse_property_description_read data
   | MemoryExtRead \<Rightarrow> parse_memory_ext_read data
   | MemoryExtWrite \<Rightarrow> parse_memory_ext_write data
   | IndividualAddressSerialNumberRead \<Rightarrow> parse_individual_address_serial_number_read data
   | IndividualAddressSerialNumberWrite \<Rightarrow> parse_individual_address_serial_number_write data
   | KeyWrite \<Rightarrow> parse_key_write data
   | FunctionPropertyCommand \<Rightarrow> parse_function_property_command data
   | FunctionPropertyState \<Rightarrow> parse_function_property_state data
   | SystemNetworkParameterRead \<Rightarrow> parse_system_network_parameter_read data
   | AdcRead \<Rightarrow> parse_adc_read data
   | PropertyValueExtRead \<Rightarrow> parse_property_value_ext_read data
   | PropertyValueExtWriteCon \<Rightarrow> parse_property_value_ext_write_con data
   | PropertyValueExtWriteUnCon \<Rightarrow> parse_property_value_ext_write_uncon data
   | PropertyExtDescriptionRead \<Rightarrow> parse_property_ext_description_read data
   | _ \<Rightarrow> Inl (UnsupportedApdu t))"

definition parse_raw_apdu :: "u8 list \<Rightarrow> indication_result" where
  "parse_raw_apdu data =
     (let n = length data - 1; npdu_length = (if n \<le> 255 then of_nat n else 0xFF) in
      bind_res (ok_or (apdu_parse data npdu_length) MalformedData) (\<lambda>a.
        parse_indication (apdu_type a) (apdu_data a)))"

lemmas service_parsers = parse_group_value_write_def parse_group_value_response_def
  parse_group_value_read_def parse_property_value_read_def parse_property_value_write_def
  parse_device_descriptor_read_def parse_memory_read_def parse_memory_write_def parse_restart_def
  parse_individual_address_write_def parse_individual_address_read_def parse_authorize_request_def
  parse_property_description_read_def parse_memory_ext_read_def parse_memory_ext_write_def
  parse_individual_address_serial_number_read_def parse_individual_address_serial_number_write_def
  parse_key_write_def parse_function_property_command_def parse_function_property_state_def
  parse_system_network_parameter_read_def parse_adc_read_def parse_property_value_ext_read_def
  parse_property_value_ext_write_con_def parse_property_value_ext_write_uncon_def
  parse_property_ext_description_read_def

section \<open>What is refused\<close>

text \<open>The shortest payload of each service the device understands.\<close>

definition min_payload :: "ApduType \<Rightarrow> nat option" where
  "min_payload t = (case t of
     GroupValueWrite \<Rightarrow> Some 0 | GroupValueResponse \<Rightarrow> Some 0 | GroupValueRead \<Rightarrow> Some 0
   | DeviceDescriptorRead \<Rightarrow> Some 0 | Restart \<Rightarrow> Some 0 | IndividualAddressRead \<Rightarrow> Some 0
   | IndividualAddressWrite \<Rightarrow> Some 2 | RestartMasterReset \<Rightarrow> Some 2 | AdcRead \<Rightarrow> Some 2
   | FunctionPropertyCommand \<Rightarrow> Some 2 | FunctionPropertyState \<Rightarrow> Some 2
   | MemoryRead \<Rightarrow> Some 3 | MemoryWrite \<Rightarrow> Some 3 | PropertyDescriptionRead \<Rightarrow> Some 3
   | PropertyValueRead \<Rightarrow> Some 4 | PropertyValueWrite \<Rightarrow> Some 4 | MemoryExtRead \<Rightarrow> Some 4
   | MemoryExtWrite \<Rightarrow> Some 4 | SystemNetworkParameterRead \<Rightarrow> Some 4
   | AuthorizeRequest \<Rightarrow> Some 5 | KeyWrite \<Rightarrow> Some 5
   | IndividualAddressSerialNumberRead \<Rightarrow> Some 6
   | IndividualAddressSerialNumberWrite \<Rightarrow> Some 8 | PropertyValueExtRead \<Rightarrow> Some 8
   | PropertyValueExtWriteCon \<Rightarrow> Some 8 | PropertyValueExtWriteUnCon \<Rightarrow> Some 8
   | PropertyExtDescriptionRead \<Rightarrow> Some 8 | _ \<Rightarrow> None)"

lemma restart_master_reset_refused:
  "parse_restart_master_reset data = Inl e \<longleftrightarrow> length data < 2 \<and> e = TruncatedPayload 2 (length data)"
  by (cases data rule: parse_restart_master_reset.cases) auto

lemma check_len_refused [simp]: "bind_res (check_len data n) (\<lambda>_. Inr x) = Inl e \<longleftrightarrow>
   length data < n \<and> e = TruncatedPayload n (length data)"
  by (auto simp: check_len_def)

text \<open>
  The application layer refuses an indication exactly when its
  service is not one the device understands (error UnsupportedApdu, naming the service) or when
  its payload is shorter than the fixed fields of that service (error TruncatedPayload, with the
  length needed and the length found). Every other payload is accepted, and MalformedData is
  never reported at this level.
\<close>
lemma parse_indication_refuses:
  "parse_indication t data = Inl e \<longleftrightarrow> (case min_payload t of
     None \<Rightarrow> e = UnsupportedApdu t
   | Some n \<Rightarrow> length data < n \<and> e = TruncatedPayload n (length data))"
  by (cases t) (auto simp: parse_indication_def min_payload_def service_parsers Let_def
    split_beta restart_master_reset_refused)

end
