(* ===== verification/App_Encode.thy ===== *)
theory App_Encode
  imports App_Layer Properties Cemi
begin

text \<open>
  The outgoing half of the application layer (\<open>application_layer/encode.rs\<close>): one definition per
  encoder, appending octets in the order of the code. The theorems read the encoded responses
  back with the decoder of the core crate, and relate the raw APDU of the transport layer to what
  the live path decodes.
\<close>

section \<open>Group values\<close>

datatype GroupValueService = SvcResponse | SvcWrite

definition encode_group_value :: "u8 \<Rightarrow> u8 \<Rightarrow> u8 list \<Rightarrow> u8 list" where
  "encode_group_value tpci apci data =
     (if length data = 1 \<and> data ! 0 \<le> MASK_6BIT then [tpci, apci OR (data ! 0 AND MASK_6BIT)]
      else [tpci, apci] @ data)"

definition encode_group_value_write :: "u8 list \<Rightarrow> u8 list" where
  "encode_group_value_write data =
     (let (hi, lo) = apci_bytes GroupValueWrite in encode_group_value hi lo data)"

definition encode_group_value_response :: "u8 list \<Rightarrow> u8 list" where
  "encode_group_value_response data =
     (let (hi, lo) = apci_bytes GroupValueResponse in encode_group_value hi lo data)"

definition encode_group_value_for_dpt ::
  "dpt option \<Rightarrow> u8 list \<Rightarrow> GroupValueService \<Rightarrow> ApduEncodeError + u8 list" where
  "encode_group_value_for_dpt dpt data service = (case dpt of
     None \<Rightarrow> Inr (case service of SvcResponse \<Rightarrow> encode_group_value_response data
                | SvcWrite \<Rightarrow> encode_group_value_write data)
   | Some d \<Rightarrow> bind_res (from_dpt_encoded d data) (\<lambda>payload.
       group_try_to_bytes (case service of SvcResponse \<Rightarrow> GResponse payload
                           | SvcWrite \<Rightarrow> GWrite payload) 0))"

definition encode_group_value_write_for_dpt :: "dpt option \<Rightarrow> u8 list \<Rightarrow> ApduEncodeError + u8 list" where
  "encode_group_value_write_for_dpt dpt data = encode_group_value_for_dpt dpt data SvcWrite"

definition encode_group_value_response_for_dpt :: "dpt option \<Rightarrow> u8 list \<Rightarrow> ApduEncodeError + u8 list" where
  "encode_group_value_response_for_dpt dpt data = encode_group_value_for_dpt dpt data SvcResponse"

definition encode_group_value_read :: "u8 list" where
  "encode_group_value_read = (let (hi, lo) = apci_bytes GroupValueRead in [hi, lo])"

section \<open>Responses\<close>

definition encode_individual_address_response :: "u8 list" where
  "encode_individual_address_response = (let (hi, lo) = apci_bytes IndividualAddressResponse in [hi, lo])"

definition encode_device_descriptor_response :: "u16 \<Rightarrow> u8 list" where
  "encode_device_descriptor_response mask_version =
     (let (hi, lo) = apci_bytes DeviceDescriptorResponse; m = to_be16 mask_version
      in [hi, lo, m ! 0, m ! 1])"

definition encode_device_descriptor_unsupported :: "u8 list" where
  "encode_device_descriptor_unsupported =
     (let (hi, _) = apci_bytes DeviceDescriptorResponse in [hi, DESCRIPTOR_TYPE_UNSUPPORTED])"

text \<open>A count over 15 fails a debug assertion of the code; a release build masks it, as here.\<close>

definition encode_property_response :: "u8 \<Rightarrow> u8 \<Rightarrow> u8 \<Rightarrow> u16 \<Rightarrow> u8 list \<Rightarrow> u8 list" where
  "encode_property_response object_index property_id count start_index data =
     (let (hi, lo) = apci_bytes PropertyValueResponse;
          count_start = push_bit 12 (ucast (count AND MASK_4BIT)) OR (start_index AND MASK_12BIT)
      in [hi, lo, object_index, property_id] @ to_be16 count_start @ data)"

definition encode_memory_response :: "u16 \<Rightarrow> u8 list \<Rightarrow> u8 list" where
  "encode_memory_response address data =
     (let data = take (min (length data) MEMORY_RESPONSE_MAX_LEN) data;
          (hi, lo) = apci_bytes MemoryResponse;
          len_nibble = (if length data \<le> 255 then of_nat (length data) else MASK_4BIT) AND MASK_4BIT
      in [hi, lo OR len_nibble] @ to_be16 address @ data)"

definition encode_authorize_response :: "u8 \<Rightarrow> u8 list" where
  "encode_authorize_response level = (let (hi, lo) = apci_bytes AuthorizeResponse in [hi, lo, level])"

definition encode_key_response :: "u8 \<Rightarrow> u8 list" where
  "encode_key_response level = (let (hi, lo) = apci_bytes KeyResponse in [hi, lo, level])"

definition encode_restart_response :: "u8 \<Rightarrow> u16 \<Rightarrow> u8 list" where
  "encode_restart_response error_code process_time =
     (let (hi, lo) = apci_bytes RestartMasterReset; t = to_be16 process_time
      in [hi, lo OR 0x20, error_code, t ! 0, t ! 1])"

definition push_property_description_fields ::
  "u8 list \<Rightarrow> bool \<Rightarrow> u8 \<Rightarrow> u16 \<Rightarrow> u8 \<Rightarrow> u8 list" where
  "push_property_description_fields buf write_enable pdt max_elements access =
     (let type_byte = (if write_enable then WRITE_ENABLE_FLAG OR (pdt AND MASK_6BIT) else pdt AND MASK_6BIT);
          max_hi = ucast (drop_bit 8 max_elements AND ucast MASK_4BIT);
          max_lo = ucast (max_elements AND 0xFF)
      in buf @ [type_byte, max_hi, max_lo, access])"

definition encode_property_description_response ::
  "u8 \<Rightarrow> u8 \<Rightarrow> u8 \<Rightarrow> bool \<Rightarrow> u8 \<Rightarrow> u16 \<Rightarrow> u8 \<Rightarrow> u8 list" where
  "encode_property_description_response object_index property_id property_index write_enable pdt
     max_elements access =
     (let (hi, lo) = apci_bytes PropertyDescriptionResponse in
      push_property_description_fields [hi, lo, object_index, property_id, property_index]
        write_enable pdt max_elements access)"

definition encode_memory_ext_read_response :: "u8 \<Rightarrow> u32 \<Rightarrow> u8 list \<Rightarrow> u8 list" where
  "encode_memory_ext_read_response return_code address data =
     (let (hi, lo) = apci_bytes MemoryExtReadResponse; a = to_be32 address
      in [hi, lo, return_code] @ buf_slice 1 4 a @ data)"

definition encode_memory_ext_write_response :: "u8 \<Rightarrow> u32 \<Rightarrow> u8 list" where
  "encode_memory_ext_write_response return_code address =
     (let (hi, lo) = apci_bytes MemoryExtWriteResponse; a = to_be32 address
      in [hi, lo, return_code, a ! 1, a ! 2, a ! 3])"

definition encode_individual_address_serial_number_response :: "u8 list \<Rightarrow> u16 \<Rightarrow> u8 list" where
  "encode_individual_address_serial_number_response serial domain_address =
     (let (hi, lo) = apci_bytes IndividualAddressSerialNumberResponse; d = to_be16 domain_address
      in [hi, lo] @ serial @ d)"

definition encode_system_network_parameter_response ::
  "u16 \<Rightarrow> u16 \<Rightarrow> u8 list \<Rightarrow> u8 list \<Rightarrow> u8 list" where
  "encode_system_network_parameter_response object_type property_id test_info test_result =
     (let (hi, lo) = apci_bytes SystemNetworkParameterResponse; ot = to_be16 object_type;
          pid_bytes = to_be16 (push_bit 4 property_id)
      in [hi, lo] @ ot @ pid_bytes @ test_info @ test_result)"

definition encode_adc_response :: "u8 \<Rightarrow> u8 \<Rightarrow> u16 \<Rightarrow> u8 list" where
  "encode_adc_response channel count value =
     (let (hi, lo) = apci_bytes AdcResponse; v = to_be16 value
      in [hi, lo OR (channel AND MASK_6BIT), count, v ! 0, v ! 1])"

definition encode_function_property_state_response :: "u8 \<Rightarrow> u8 \<Rightarrow> u8 list \<Rightarrow> u8 list" where
  "encode_function_property_state_response object_index property_id result_data =
     (let (hi, lo) = apci_bytes FunctionPropertyStateResponse
      in [hi, lo, object_index, property_id] @ result_data)"

section \<open>Extended properties\<close>

definition encode_ext_ot_oi_pid :: "u8 list \<Rightarrow> u16 \<Rightarrow> u16 \<Rightarrow> u16 \<Rightarrow> u8 list" where
  "encode_ext_ot_oi_pid buf object_type object_instance property_id =
     buf @ to_be16 object_type @
       [ucast (drop_bit 4 object_instance AND 0xFF),
        ucast (push_bit 4 (object_instance AND ucast MASK_4BIT) OR (drop_bit 8 property_id AND ucast MASK_4BIT)),
        ucast (property_id AND 0xFF)]"

definition encode_ext_property_header :: "u8 list \<Rightarrow> u16 \<Rightarrow> u16 \<Rightarrow> u16 \<Rightarrow> u8 \<Rightarrow> u16 \<Rightarrow> u8 list" where
  "encode_ext_property_header buf object_type object_instance property_id count start_index =
     encode_ext_ot_oi_pid buf object_type object_instance property_id @ [count] @ to_be16 start_index"

definition encode_property_value_ext_response ::
  "u16 \<Rightarrow> u16 \<Rightarrow> u16 \<Rightarrow> u8 \<Rightarrow> u16 \<Rightarrow> u8 list \<Rightarrow> u8 list" where
  "encode_property_value_ext_response object_type object_instance property_id count start_index data =
     (let (hi, lo) = apci_bytes PropertyValueExtResponse in
      encode_ext_property_header [hi, lo] object_type object_instance property_id count start_index @ data)"

definition encode_property_value_ext_write_con_response ::
  "u16 \<Rightarrow> u16 \<Rightarrow> u16 \<Rightarrow> u8 \<Rightarrow> u16 \<Rightarrow> u8 \<Rightarrow> u8 list" where
  "encode_property_value_ext_write_con_response object_type object_instance property_id count
     start_index return_code =
     (let (hi, lo) = apci_bytes PropertyValueExtWriteConResponse;
          no_of_elem = (if return_code = 0 then count else 0) in
      encode_ext_property_header [hi, lo] object_type object_instance property_id no_of_elem start_index
        @ [return_code])"

definition encode_property_description_fields :: "u8 list \<Rightarrow> PropertyDescription \<Rightarrow> u8 list" where
  "encode_property_description_fields buf desc =
     push_property_description_fields buf (pd_write_enable desc) (pdt_u8 (pd_data_type desc))
       (pd_max_elements desc) (access_level_u8 (pd_access desc))"

definition encode_property_ext_description_response ::
  "u16 \<Rightarrow> u16 \<Rightarrow> u16 \<Rightarrow> u16 \<Rightarrow> u8 \<Rightarrow> PropertyDescription \<Rightarrow> u8 list" where
  "encode_property_ext_description_response object_type object_instance property_id property_index
     description_type desc =
     (let (hi, lo) = apci_bytes PropertyExtDescriptionResponse;
          payload = encode_ext_ot_oi_pid [hi, lo] object_type object_instance property_id;
          desc_idx = push_bit 4 (description_type AND MASK_4BIT)
            OR (ucast (drop_bit 8 property_index) AND MASK_4BIT) in
      encode_property_description_fields (payload @ [desc_idx, ucast (property_index AND 0xFF)]) desc)"

section \<open>Raw APDUs\<close>

definition encode_raw_apdu :: "apdu \<Rightarrow> u8 list" where
  "encode_raw_apdu a =
     (let (hi, lo) = apci_bytes (apdu_type a);
          low_octet_in_data = (apdu_type a \<in> {MemoryRead, MemoryWrite, MemoryResponse, AdcRead, AdcResponse}
            \<and> apdu_data a \<noteq> [])
      in (if low_octet_in_data then [hi] else [hi, lo]) @ apdu_data a)"

section \<open>Reading encoded APDUs back\<close>

lemma apci_bytes_header: "apci_bytes t = (hi, lo) \<Longrightarrow> encode_apci_header t 0 = (hi, lo)"
  by (cases t) (simp_all add: apci_bytes_def encode_apci_header_def)

definition raw_npdu :: "u8 list \<Rightarrow> u8" where
  "raw_npdu data = (if length data - 1 \<le> 255 then of_nat (length data - 1) else 0xFF)"

lemma raw_npdu_gt1: "3 \<le> length data \<Longrightarrow> 1 < raw_npdu data"
  by (simp add: raw_npdu_def word_less_nat_alt unat_of_nat del: of_nat_diff) arith

lemma raw_npdu_npdu_of: "length data \<le> 256 \<Longrightarrow> raw_npdu data = npdu_of data"
  by (simp add: raw_npdu_def npdu_of_def del: of_nat_diff)

lemma parse_raw_apdu_alt: "parse_raw_apdu data =
   bind_res (ok_or (apdu_parse data (raw_npdu data)) MalformedData) (\<lambda>a. parse_indication (apdu_type a) (apdu_data a))"
  by (simp add: parse_raw_apdu_def raw_npdu_def Let_def)

text \<open>An APDU with at least one octet behind the two APCI octets is read in long form.\<close>

lemma parse_encoded:
  assumes "apci_bytes t = (hi, lo)" and "\<not> low_octet_service t" and "data \<noteq> []"
  shows "apdu_parse (hi # lo # data) (raw_npdu (hi # lo # data)) = Some \<lparr>apdu_type = t, apdu_data = data\<rparr>"
proof -
  from assms(3) have "1 < raw_npdu (hi # lo # data)"
    by (intro raw_npdu_gt1) (cases data, auto)
  with parse_long [OF apci_bytes_header [OF assms(1)]] assms(2) show ?thesis
    by auto
qed

section \<open>The raw APDU of the connected path\<close>

lemma recombine:
  "be16 (ucast (drop_bit 8 w)) b AND mask 10 = (w AND mask 10 AND NOT (mask 8)) OR ucast b"
proof (rule bit_word_eqI)
  fix n
  assume "n < LENGTH(16)"
  then show "bit (be16 (ucast (drop_bit 8 w)) b AND mask 10) n =
      bit ((w AND mask 10 AND NOT (mask 8)) OR ucast b) n"
    by (cases "n < 8"; cases "n < 10") (auto simp: be16_def bit_simps dest: bit_imp_le_length)
qed

lemma low_services_decode:
  assumes "low_octet_service t" and "match_apdu_type (normalize_apci (be16 a b AND 0x03FF)) = Some t"
    and "apci_bytes t = (hi, lo)"
  shows "be16 hi b AND 0x03FF = be16 a b AND 0x03FF"
proof -
  let ?r = "be16 a b AND 0x03FF"
  have n: "normalize_apci ?r = apdu_type_u16 t"
    using assms(2) by (rule match_apdu_typeD)
  have rr: "?r AND APCI_MASK = ?r"
    by (simp add: apci_masks)
  have low: "?r AND mask 8 = ucast b"
    unfolding be16_def small_masks by (rule bit_word_eqI) (auto simp: bit_simps dest: bit_imp_le_length)
  have hi: "be16 hi b AND mask 10 = (apdu_type_u16 t AND mask 10 AND NOT (mask 8)) OR ucast b"
    using assms(3) by (auto simp: apci_bytes_def recombine simp del: push_bit_and)
  have "apdu_type_u16 t AND NOT (mask 8) = ?r AND NOT (mask 8)"
  proof (cases "is_short_apci ?r")
    case True
    with n rr have "apdu_type_u16 t = ?r AND APCI_SHORT_TYPE_MASK"
      by (simp add: normalize_apci_def Let_def)
    then show ?thesis
      unfolding apci_masks small_masks by (auto intro!: bit_word_eqI simp: bit_simps)
  next
    case False
    with n rr show ?thesis
      by (simp add: normalize_apci_def Let_def)
  qed
  then have "(apdu_type_u16 t AND NOT (mask 8)) AND mask 10 = (?r AND NOT (mask 8)) AND mask 10"
    by (rule arg_cong [where f = "\<lambda>x. x AND mask 10"])
  then have "be16 hi b AND mask 10 = (?r AND mask 10 AND NOT (mask 8)) OR (?r AND mask 8)"
    unfolding hi low by (simp only: ac_simps)
  also have "\<dots> = ?r"
    unfolding small_masks by (rule bit_word_eqI) (auto simp: bit_simps)
  finally show ?thesis unfolding small_masks .
qed


text \<open>
  The connected path buffers a decoded request as raw octets and parses
  them again when it is indicated. For every request of at most 256 octets that the core parser
  accepted, except the one-octet form of the five services whose second octet carries a value,
  the application layer parses from the buffered octets exactly what it would have parsed from
  the decoded request.
\<close>
lemma raw_apdu_faithful:
  assumes "apdu_parse w (npdu_of w) = Some a" and "length w \<le> 256"
    and "length w = 2 \<Longrightarrow> \<not> low_octet_service (apdu_type a)"
  shows "parse_raw_apdu (encode_raw_apdu a) = parse_indication (apdu_type a) (apdu_data a)"
proof -
  let ?r = "be16 (w ! 0) (w ! 1) AND 0x03FF"
  obtain hi lo where hl: "apci_bytes (apdu_type a) = (hi, lo)" by fastforce
  from assms(1) have len: "2 \<le> length w"
    and dec: "decode_apci ?r w (npdu_of w) = Some (apdu_type a, apdu_data a)"
    by (auto simp: apdu_parse_def result_simps split: if_splits)
  then have m: "match_apdu_type (normalize_apci ?r) = Some (apdu_type a)"
    by (auto simp: decode_apci_def result_simps)
  have long: "\<not> (is_short_apci ?r \<and> npdu_of w \<le> 1)" if "length w \<noteq> 2"
    using npdu_of_gt1 [of w] that len assms(2) by (auto simp: not_le)
  have "apdu_parse (encode_raw_apdu a) (raw_npdu (encode_raw_apdu a)) = Some a"
  proof (cases "low_octet_service (apdu_type a)")
    case True
    with assms(3) len have l3: "3 \<le> length w" by force
    with long m dec True have d: "apdu_data a = drop 1 w"
      by (auto simp: decode_apci_def result_simps)
    with l3 obtain b rest where w: "apdu_data a = b # rest" "b = w ! 1" "rest \<noteq> []"
      by (cases w; cases "tl w") (auto simp: Suc_le_eq)
    with True hl have e: "encode_raw_apdu a = hi # b # rest"
      by (auto simp: encode_raw_apdu_def low_octet_service_def)
    have "be16 hi b AND 0x03FF = ?r"
      using low_services_decode [OF True m hl] w by simp
    with raw_npdu_gt1 [of "hi # b # rest"] m True w show ?thesis
      by (auto simp: e apdu_parse_def decode_apci_def Suc_le_eq)
  next
    case False
    then have e: "encode_raw_apdu a = hi # lo # apdu_data a"
      using hl by (auto simp: encode_raw_apdu_def low_octet_service_def)
    show ?thesis
    proof (cases "apdu_data a = []")
      case False
      with parse_encoded [OF hl \<open>\<not> low_octet_service _\<close>] e show ?thesis by auto
    next
      case True
      with dec \<open>\<not> low_octet_service _\<close> len have "length w = 2"
        by (auto simp: decode_apci_def result_simps split: if_splits)
      with True dec have "\<not> is_short_apci ?r"
        by (auto simp: decode_apci_def result_simps npdu_of_def)
      with m have "\<not> is_short_apci (apdu_type_u16 (apdu_type a))"
        by (auto dest!: match_apdu_typeD simp: normalize_apci_def Let_def apci_masks)
      with True parse_long [OF apci_bytes_header [OF hl], where data = "[]"] \<open>\<not> low_octet_service _\<close> e show ?thesis by auto
    qed
  qed
  then show ?thesis by (simp add: parse_raw_apdu_alt)
qed

text \<open>
  The side condition of the previous property is needed. An ADC read
  cut down to one value octet is decoded as an ADC read and refused as truncated, but its
  buffered octets are parsed as a request for the individual address and accepted.
\<close>
lemma truncated_adc_read_misread:
  "apdu_parse [0x01, 0x85] 1 = Some \<lparr>apdu_type = AdcRead, apdu_data = [5]\<rparr> \<and>
   parse_indication AdcRead [5] = Inl (TruncatedPayload 2 1) \<and>
   parse_raw_apdu (encode_raw_apdu \<lparr>apdu_type = AdcRead, apdu_data = [5]\<rparr>) = Inr IndIndividualAddressRead"
  by (simp add: apdu_parse_def decode_apci_def be16_def normalize_apci_def apci_masks is_short_apci_def
    Let_def match_apdu_type_def parse_indication_def parse_adc_read_def check_len_def parse_raw_apdu_def
    encode_raw_apdu_def apci_bytes_def parse_individual_address_read_def)

section \<open>Group values\<close>

definition service_type :: "GroupValueService \<Rightarrow> ApduType" where
  "service_type s = (case s of SvcResponse \<Rightarrow> GroupValueResponse | SvcWrite \<Rightarrow> GroupValueWrite)"

definition service_indication :: "GroupValueService \<Rightarrow> u8 list \<Rightarrow> AppIndication" where
  "service_indication s d = (case s of SvcResponse \<Rightarrow> IndGroupValueResponse 0 d | SvcWrite \<Rightarrow> IndGroupValueWrite 0 d)"

lemma encode_group_value_parse:
  assumes "apci_bytes t = (hi, lo)" and "t \<in> {GroupValueRead, GroupValueResponse, GroupValueWrite}"
    and "length data \<le> 254"
  shows "apdu_parse (encode_group_value hi lo data) (raw_npdu (encode_group_value hi lo data)) =
    Some \<lparr>apdu_type = t, apdu_data = (if data = [] then [0] else data)\<rparr>"
proof -
  note h = apci_bytes_header [OF assms(1)]
  note s = group_services_short [OF assms(2)] and lo = header_lo_group [OF h assms(2)]
  show ?thesis
  proof (cases "data = [] \<or> length data = 1 \<and> data ! 0 \<le> MASK_6BIT")
    case True
    then obtain v where v: "v \<le> APCI_SHORT_DATA_MASK" "(if data = [] then [0] else data) = [v]"
      and e: "encode_group_value hi lo data = [hi, (lo AND 0xC0) OR v]"
      by (cases data) (auto simp: encode_group_value_def lo [unfolded small_masks] apci_masks app_masks small_masks le_mask_and)
    with parse_short [OF h _ v(1)] s show ?thesis
      by (simp add: raw_npdu_def)
  next
    case False
    then have e: "encode_group_value hi lo data = hi # lo # data"
      by (auto simp: encode_group_value_def)
    with parse_encoded [OF assms(1), of data] s False show ?thesis by auto
  qed
qed

text \<open>The octets of a group value on the bus: an unnumbered TPDU that the core parser decodes.\<close>

lemma group_value_decodes:
  assumes "encode_group_value_for_dpt dpt data service = Inr bytes" and "length data \<le> 254"
  shows "apdu_parse bytes (raw_npdu bytes) =
      Some \<lparr>apdu_type = service_type service, apdu_data = (if data = [] then [0] else data)\<rparr>"
    "2 \<le> length bytes" "length bytes \<le> 256" "bytes ! 0 AND 0xC0 = 0"
proof -
  have "apdu_parse bytes (raw_npdu bytes) =
      Some \<lparr>apdu_type = service_type service, apdu_data = (if data = [] then [0] else data)\<rparr> \<and>
    2 \<le> length bytes \<and> length bytes \<le> 256 \<and> bytes ! 0 AND 0xC0 = 0"
  proof (cases dpt)
    case None
    obtain hi lo where hl: "apci_bytes (service_type service) = (hi, lo)" by fastforce
    with None assms(1) have b: "bytes = encode_group_value hi lo data"
      by (auto simp: encode_group_value_for_dpt_def encode_group_value_response_def
        encode_group_value_write_def service_type_def split: GroupValueService.splits)
    have "hi AND 0xC0 = 0" using header_unnumbered [OF apci_bytes_header [OF hl]] by simp
    with encode_group_value_parse [OF hl _ assms(2)] assms(2) show ?thesis
      unfolding b by (auto simp: service_type_def encode_group_value_def split: GroupValueService.splits)
  next
    case (Some d)
    with assms(1) obtain p where p: "from_dpt_encoded d data = Inr p"
      and b: "group_try_to_bytes (case service of SvcResponse \<Rightarrow> GResponse p | SvcWrite \<Rightarrow> GWrite p) 0 = Inr bytes"
      by (auto simp: encode_group_value_for_dpt_def bind_res_Inr_iff)
    have pd: "payload_data p = data"
      using from_dpt_encoded_data [OF p] by simp
    have len: "length bytes \<le> 256"
      using b pd assms(2) by (auto simp: group_try_to_bytes_def split_beta split: if_splits GroupValueService.splits GroupValuePayload.splits)
    have ne: "data \<noteq> []"
      using b pd by (cases p) (auto simp: group_try_to_bytes_def split_beta split: if_splits GroupValueService.splits)
    show ?thesis
      using group_roundtrip_gen [OF b, where p = p and t = "service_type service"] group_bytes_shape [OF b] pd assms(2) ne len
      by (cases service) (auto simp: service_type_def raw_npdu_npdu_of)
  qed
  then show "apdu_parse bytes (raw_npdu bytes) =
      Some \<lparr>apdu_type = service_type service, apdu_data = (if data = [] then [0] else data)\<rparr>"
    "2 \<le> length bytes" "length bytes \<le> 256" "bytes ! 0 AND 0xC0 = 0"
    by simp_all
qed

text \<open>
  Whatever octets the application layer encodes for a group value, with
  or without a datapoint type, write or response, its own parser reads back as the same service
  with the same value octets (an empty value without a datapoint type reads back as the octet 0).
\<close>
lemma group_value_encoding:
  assumes "encode_group_value_for_dpt dpt data service = Inr bytes" and "length data \<le> 254"
  shows "parse_raw_apdu bytes = Inr (service_indication service (if data = [] then [0] else data))"
  using group_value_decodes(1) [OF assms]
  by (cases service) (auto simp: parse_raw_apdu_alt service_type_def service_indication_def parse_indication_def
      parse_group_value_response_def parse_group_value_write_def)

section \<open>Responses\<close>

lemma small_count:
  assumes "n \<le> 15"
  shows "(of_nat n :: u8) AND 0x0F = of_nat n" "(0x40 OR of_nat n :: u8) AND 0x0F = of_nat n"
    "(of_nat n :: u8) \<le> APCI_SHORT_DATA_MASK" "unat (of_nat n :: u8) = n"
proof -
  have m: "(0x0F::u8) = mask 4" by (simp add: mask_eq_exp_minus_1)
  have o: "(0x40 OR w :: u8) AND mask 4 = w AND mask 4" for w
  proof -
    have "(0x40::u8) = push_bit 6 1" by simp
    show ?thesis
      unfolding \<open>0x40 = push_bit 6 1\<close> by (rule bit_word_eqI) (auto simp: bit_simps simp del: push_bit_of_1)
  qed
  have "(of_nat n :: u8) \<le> mask 4"
    using assms by (simp add: word_le_nat_alt unat_of_nat mask_eq_exp_minus_1)
  then show a: "(of_nat n :: u8) AND 0x0F = of_nat n"
    by (simp add: m le_mask_and)
  then show "(0x40 OR of_nat n :: u8) AND 0x0F = of_nat n"
    by (simp add: m o)
  show "(of_nat n :: u8) \<le> APCI_SHORT_DATA_MASK" "unat (of_nat n :: u8) = n"
    using assms by (simp_all add: word_le_nat_alt unat_of_nat apci_masks)
qed

text \<open>
  A memory response carries at most 15 octets, whatever the amount of
  data offered. Decoded again, it is a memory response whose low octet counts exactly the octets
  carried, followed by the address and the first octets of the data.
\<close>
lemma memory_response_decodes:
  "\<exists>c. apdu_parse (encode_memory_response address data) (raw_npdu (encode_memory_response address data)) =
      Some \<lparr>apdu_type = MemoryResponse, apdu_data = c # to_be16 address @ take 15 data\<rparr> \<and>
    unat (c AND MASK_4BIT) = min 15 (length data)"
proof -
  let ?n = "min 15 (length data)"
  let ?w = "encode_memory_response address data"
  have h: "encode_apci_header MemoryResponse 0 = (0x02, 0x40)"
    by (simp add: encode_apci_header_def)
  have n: "?n \<le> 15" by simp
  note c = small_count [OF n]
  have t: "take (min (length data) 15) data = take 15 data"
    by (simp add: min_def)
  have a: "apci_bytes MemoryResponse = (0x02, 0x40)"
    by (simp add: apci_bytes_def)
  have w: "?w = 0x02 # (0x40 OR of_nat ?n) # to_be16 address @ take 15 data"
    using c(1) t by (simp add: encode_memory_response_def a app_masks min.commute min_le_iff_disj)
  have s: "is_short_apci (apdu_type_u16 MemoryResponse)"
    by (simp add: is_short_apci_def)
  have r: "be16 0x02 (0x40 OR of_nat ?n) AND 0x03FF = (apdu_type_u16 MemoryResponse AND 0x03C0) OR ucast (of_nat ?n :: u8)"
    using header_apci_short [OF h c(3)] by simp
  have "1 < raw_npdu ?w"
    by (rule raw_npdu_gt1) (simp add: w)
  moreover have "match_apdu_type 0x240 = Some MemoryResponse"
    using match_apdu_type_inverse [of MemoryResponse] by simp
  ultimately have "apdu_parse ?w (raw_npdu ?w) =
      Some \<lparr>apdu_type = MemoryResponse, apdu_data = (0x40 OR of_nat ?n) # to_be16 address @ take 15 data\<rparr>"
    using r short_value_apci [OF c(3) s] by (auto simp: w apdu_parse_def decode_apci_def low_octet_service_def not_le)
  with c(2,4) show ?thesis
    by (auto simp: app_masks)
qed

lemma nibble_masks:
  "(0xF::u16) = mask 4" "(0xF::u8) = mask 4" "(0xFF::u16) = mask 8" "(0xFFF::u16) = mask 12"
  by (simp_all add: mask_eq_exp_minus_1)

lemma ext_fields:
  "push_bit 4 (ucast (ucast (drop_bit 4 oi AND 0xFF :: u16) :: u8)) OR
    drop_bit 4 (ucast (ucast (push_bit 4 (oi AND 0xF) OR (drop_bit 8 pid AND 0xF :: u16)) :: u8)) = (oi AND 0xFFF :: u16)"
  "push_bit 8 (ucast (ucast (push_bit 4 (oi AND 0xF) OR (drop_bit 8 pid AND 0xF :: u16)) AND 0xF :: u8)) OR
    ucast (ucast (pid AND 0xFF) :: u8) = (pid AND 0xFFF :: u16)"
proof -
  show "push_bit 4 (ucast (ucast (drop_bit 4 oi AND 0xFF :: u16) :: u8)) OR
    drop_bit 4 (ucast (ucast (push_bit 4 (oi AND 0xF) OR (drop_bit 8 pid AND 0xF :: u16)) :: u8)) = (oi AND 0xFFF :: u16)"
    unfolding nibble_masks
  proof (rule bit_word_eqI, goal_cases)
    case (1 n)
    then show ?case
      by (cases "n < 4"; cases "n < 12") (auto simp: bit_simps dest: bit_imp_le_length)
  qed
  show "push_bit 8 (ucast (ucast (push_bit 4 (oi AND 0xF) OR (drop_bit 8 pid AND 0xF :: u16)) AND 0xF :: u8)) OR
    ucast (ucast (pid AND 0xFF) :: u8) = (pid AND 0xFFF :: u16)"
    unfolding nibble_masks
  proof (rule bit_word_eqI, goal_cases)
    case (1 n)
    then show ?case
      by (cases "n < 8"; cases "n < 12") (auto simp: bit_simps dest: bit_imp_le_length)
  qed
qed

lemma count_start_fields:
  fixes count :: u8 and si :: u16
  defines "w \<equiv> push_bit 12 (ucast (count AND 0xF)) OR (si AND 0xFFF)"
  shows "drop_bit 4 (ucast (drop_bit 8 w) :: u8) AND 0xF = count AND 0xF"
    "push_bit 8 (ucast (ucast (drop_bit 8 w) AND 0xF :: u8)) OR ucast (ucast w :: u8) = si AND 0xFFF"
proof -
  have w: "w = push_bit 12 (ucast (count AND mask 4)) OR (si AND mask 12)"
    unfolding w_def nibble_masks ..
  show "drop_bit 4 (ucast (drop_bit 8 w) :: u8) AND 0xF = count AND 0xF"
    unfolding w nibble_masks
  proof (rule bit_word_eqI, goal_cases)
    case (1 n)
    then show ?case by (cases "n < 4") (auto simp: bit_simps dest: bit_imp_le_length)
  qed
  show "push_bit 8 (ucast (ucast (drop_bit 8 w) AND 0xF :: u8)) OR ucast (ucast w :: u8) = si AND 0xFFF"
    unfolding w nibble_masks
  proof (rule bit_word_eqI, goal_cases)
    case (1 n)
    then show ?case
      by (cases "n < 8"; cases "n < 12") (auto simp: bit_simps dest: bit_imp_le_length)
  qed
qed

text \<open>
  Property responses read back. The octets of a property value
  response, decoded by the core parser and read in the layout of a property write, give the
  object, the property, the count (four bits), the start index (twelve bits) and the data; those
  of an extended response, read in the layout of an extended write, give the object type, the
  instance and property (twelve bits each), the count, the start index and the data.
\<close>
lemma property_responses_decode:
  "(\<exists>a. apdu_parse (encode_property_response oi pid count si data)
        (raw_npdu (encode_property_response oi pid count si data)) = Some a \<and>
      apdu_type a = PropertyValueResponse \<and>
      parse_property_value_write (apdu_data a) =
        Inr (IndPropertyValueWrite oi pid (count AND 0xF) (si AND 0xFFF) data)) \<and>
   (\<exists>a. apdu_parse (encode_property_value_ext_response ot inst xpid count si data)
        (raw_npdu (encode_property_value_ext_response ot inst xpid count si data)) = Some a \<and>
      apdu_type a = PropertyValueExtResponse \<and>
      parse_property_value_ext_write_con (apdu_data a) =
        Inr (IndPropertyValueExtWriteCon ot (inst AND 0xFFF) (xpid AND 0xFFF) count si data))"
  (is "?P \<and> ?Q")
proof (rule conjI)
  obtain hi lo where hl: "apci_bytes PropertyValueResponse = (hi, lo)" by fastforce
  show "?P"
    using parse_encoded [OF hl] count_start_fields [of count si]
    by (simp add: encode_property_response_def hl low_octet_service_def parse_property_value_write_def
      check_len_def app_masks to_be16_def nth_Cons_numeral)
next
  obtain hi lo where hl: "apci_bytes PropertyValueExtResponse = (hi, lo)" by fastforce
  show "?Q"
    using parse_encoded [OF hl] ext_fields [of inst xpid]
    by (simp add: encode_property_value_ext_response_def hl low_octet_service_def Let_def
      parse_property_value_ext_write_con_def parse_ext_property_header_def parse_ext_ot_oi_pid_def
      encode_ext_property_header_def encode_ext_ot_oi_pid_def check_len_def app_masks to_be16_def nth_Cons_numeral)
qed

end
