(* ===== verification/Bau.thy ===== *)
theory Bau
  imports Cemi Transport Device_Object Table_Object Group_Object App_Encode
begin

text \<open>
  The bus access unit (\<open>knx-rs-device/src/bau.rs\<close>), first part: its state, construction, the
  access to its components, the memory area, the load state machines of its tables, and the
  frames it queues. The services are in \<open>Bau_Services\<close>, the entry points in \<open>Bau_Run\<close>.

  Operations that can stop the program return \<open>bau_fault + Bau\<close>: \<open>Panicked\<close> where
  \<open>CemiFrame::new_l_data\<close> panics on a payload of more than 256 octets, \<open>OutOfFuel\<close> where
  a loop is given fuel; \<open>Bau_Run\<close> proves that the fuel always suffices. \<open>device()\<close> expects a
  first object: no operation removes one, and \<open>bau_inv\<close> records that there are at least five.
\<close>

section \<open>Constants\<close>

definition OBJ_ADDR_TABLE :: u8 where "OBJ_ADDR_TABLE = 1"
definition OBJ_ASSOC_TABLE :: u8 where "OBJ_ASSOC_TABLE = 2"
definition OBJ_GROUP_OBJ_TABLE :: u8 where "OBJ_GROUP_OBJ_TABLE = 3"
definition OBJ_APP_PROGRAM :: u8 where "OBJ_APP_PROGRAM = 4"

lemmas obj_indices = OBJ_ADDR_TABLE_def OBJ_ASSOC_TABLE_def OBJ_GROUP_OBJ_TABLE_def OBJ_APP_PROGRAM_def

definition ERASE_CONFIRMED_RESTART :: u8 where "ERASE_CONFIRMED_RESTART = 0x01"
definition ERASE_FACTORY_RESET :: u8 where "ERASE_FACTORY_RESET = 0x02"
definition ERASE_RESET_IA :: u8 where "ERASE_RESET_IA = 0x03"
definition ERASE_RESET_AP :: u8 where "ERASE_RESET_AP = 0x04"
definition ERASE_RESET_PARAM :: u8 where "ERASE_RESET_PARAM = 0x05"
definition ERASE_RESET_LINKS :: u8 where "ERASE_RESET_LINKS = 0x06"
definition ERASE_FACTORY_RESET_WITHOUT_IA :: u8 where "ERASE_FACTORY_RESET_WITHOUT_IA = 0x07"
definition DEFAULT_INDIVIDUAL_ADDRESS :: u16 where "DEFAULT_INDIVIDUAL_ADDRESS = 0xFFFF"

lemmas erase_codes = ERASE_CONFIRMED_RESTART_def ERASE_FACTORY_RESET_def ERASE_RESET_IA_def
  ERASE_RESET_AP_def ERASE_RESET_PARAM_def ERASE_RESET_LINKS_def ERASE_FACTORY_RESET_WITHOUT_IA_def

definition PID_SERIAL_NUMBER :: u16 where "PID_SERIAL_NUMBER = 11"
definition NM_READ_SERIAL_BY_PROG_MODE :: u8 where "NM_READ_SERIAL_BY_PROG_MODE = 0x01"
definition OBJECT_TYPE_DEVICE :: u16 where "OBJECT_TYPE_DEVICE = 0"
definition DOMAIN_ADDRESS_IP :: u16 where "DOMAIN_ADDRESS_IP = 0"
definition RESTART_ERROR_CODE_OK :: u8 where "RESTART_ERROR_CODE_OK = 0"
definition RESTART_ERROR_CODE_UNSUPPORTED :: u8 where "RESTART_ERROR_CODE_UNSUPPORTED = 0x02"
definition RESTART_PROCESS_TIME_ZERO :: u16 where "RESTART_PROCESS_TIME_ZERO = 0"
definition RESTART_PROCESS_TIME_DEFAULT :: u16 where "RESTART_PROCESS_TIME_DEFAULT = 3"
definition ADC_VALUE_DEFAULT :: u16 where "ADC_VALUE_DEFAULT = 0"
definition AUTH_LEVEL_FULL :: u8 where "AUTH_LEVEL_FULL = 0"
definition MEM_EXT_RETURN_OK :: u8 where "MEM_EXT_RETURN_OK = 0x00"
definition MEM_EXT_RETURN_ERROR :: u8 where "MEM_EXT_RETURN_ERROR = 0xFD"
definition RETURN_CODE_SUCCESS :: u8 where "RETURN_CODE_SUCCESS = 0x00"
definition RETURN_CODE_ACCESS_READ_ONLY :: u8 where "RETURN_CODE_ACCESS_READ_ONLY = 0xFB"
definition RETURN_CODE_ADDRESS_VOID :: u8 where "RETURN_CODE_ADDRESS_VOID = 0xFD"
definition RETURN_CODE_WRITE_FAILED :: u8 where "RETURN_CODE_WRITE_FAILED = 0xFF"
definition BROADCAST_GA :: u16 where "BROADCAST_GA = 0"

lemmas return_codes = RETURN_CODE_SUCCESS_def RETURN_CODE_ACCESS_READ_ONLY_def
  RETURN_CODE_ADDRESS_VOID_def RETURN_CODE_WRITE_FAILED_def

section \<open>State\<close>

record ExtPropertyParams =
  ep_object_type :: u16
  ep_object_instance :: u16
  ep_property_id :: u16
  ep_count :: u8
  ep_start_index :: u16

record Bau =
  objects :: "InterfaceObject list"
  address_table :: AddressTable
  association_table :: AssociationTable
  addr_table_object :: TableObject
  assoc_table_object :: TableObject
  app_program_object :: TableObject
  group_object_table_object :: TableObject
  group_object_table :: GroupObjectTable
  group_objects :: GroupObjectStore
  transport :: TransportLayer
  memory_area :: "u8 list"
  outbox :: "CemiFrame list"
  restart_pending :: bool
  now_ms :: u64
  answering_connection :: "IndividualAddress option"

datatype bau_fault = Panicked | OutOfFuel
type_synonym bau_result = "bau_fault + Bau"

definition install_io_list :: "Bau \<Rightarrow> Bau" where
  "install_io_list b =
     (let bytes = concat (map (\<lambda>obj. to_be16 (object_type_u16 (io_type obj))) (objects b));
          count = (if length (objects b) < 65536 then of_nat (length (objects b)) else 0xFFFF)
      in case objects b of
           [] \<Rightarrow> b
         | device # rest \<Rightarrow> b\<lparr>objects := add_property (property_data
             (dp_new PidIoList False PdtUnsignedInt count AccessNone bytes)) device # rest\<rparr>)"

definition bau_new :: "InterfaceObject \<Rightarrow> u16 \<Rightarrow> nat \<Rightarrow> Bau" where
  "bau_new device group_object_count default_go_size = install_io_list
     \<lparr>objects = [device, io_new OtAddressTable, io_new OtAssociationTable,
        new_group_object_table_object, new_application_program_object],
      address_table = address_table_new, association_table = association_table_new,
      addr_table_object = table_new, assoc_table_object = table_new, app_program_object = table_new,
      group_object_table_object = table_new_loaded, group_object_table = group_object_table_new,
      group_objects = store_new group_object_count default_go_size, transport = tl_new,
      memory_area = [], outbox = [], restart_pending = False, now_ms = 0, answering_connection = None\<rparr>"

definition take_restart_pending :: "Bau \<Rightarrow> Bau \<times> bool" where
  "take_restart_pending b = (b\<lparr>restart_pending := False\<rparr>, restart_pending b)"

definition device :: "Bau \<Rightarrow> InterfaceObject" where
  "device b = objects b ! 0"

definition device_mut :: "(InterfaceObject \<Rightarrow> InterfaceObject) \<Rightarrow> Bau \<Rightarrow> Bau" where
  "device_mut f b = b\<lparr>objects := (objects b)[0 := f (objects b ! 0)]\<rparr>"

definition add_object :: "InterfaceObject \<Rightarrow> Bau \<Rightarrow> Bau \<times> u8 option" where
  "add_object obj b =
     (if length (objects b) \<le> 255
      then (b\<lparr>objects := objects b @ [obj]\<rparr>, Some (of_nat (length (objects b)))) else (b, None))"

text \<open>\<open>objects.get(index)\<close>.\<close>

definition object_at :: "u8 \<Rightarrow> Bau \<Rightarrow> InterfaceObject option" where
  "object_at index b = (if unat index < length (objects b) then Some (objects b ! unat index) else None)"

definition table_object :: "u8 \<Rightarrow> Bau \<Rightarrow> TableObject option" where
  "table_object object_index b =
     (if object_index = OBJ_ADDR_TABLE then Some (addr_table_object b)
      else if object_index = OBJ_ASSOC_TABLE then Some (assoc_table_object b)
      else if object_index = OBJ_GROUP_OBJ_TABLE then Some (group_object_table_object b)
      else if object_index = OBJ_APP_PROGRAM then Some (app_program_object b)
      else None)"

text \<open>A store through the reference that \<open>table_object_mut\<close> returns.\<close>

definition set_table_object :: "u8 \<Rightarrow> TableObject \<Rightarrow> Bau \<Rightarrow> Bau" where
  "set_table_object object_index t b =
     (if object_index = OBJ_ADDR_TABLE then b\<lparr>addr_table_object := t\<rparr>
      else if object_index = OBJ_ASSOC_TABLE then b\<lparr>assoc_table_object := t\<rparr>
      else if object_index = OBJ_GROUP_OBJ_TABLE then b\<lparr>group_object_table_object := t\<rparr>
      else if object_index = OBJ_APP_PROGRAM then b\<lparr>app_program_object := t\<rparr>
      else b)"

definition bau_individual_address :: "Bau \<Rightarrow> IndividualAddress" where
  "bau_individual_address b = individual_address (device b)"

definition configured :: "Bau \<Rightarrow> bool" where
  "configured b \<longleftrightarrow> to_state (addr_table_object b) = Loaded \<and> to_state (assoc_table_object b) = Loaded
     \<and> to_state (group_object_table_object b) = Loaded \<and> to_state (app_program_object b) = Loaded"

definition resolve_group_address :: "u16 \<Rightarrow> Bau \<Rightarrow> u16 option" where
  "resolve_group_address asap b =
     Option.bind (translate_asap asap (association_table b)) (\<lambda>tsap. get_group_address tsap (address_table b))"

definition next_outgoing_frame :: "Bau \<Rightarrow> Bau \<times> CemiFrame option" where
  "next_outgoing_frame b = (case outbox b of [] \<Rightarrow> (b, None) | f # fs \<Rightarrow> (b\<lparr>outbox := fs\<rparr>, Some f))"

section \<open>Tables and group objects\<close>

definition load_group_object_table :: "u8 list \<Rightarrow> Bau \<Rightarrow> Bau" where
  "load_group_object_table data b =
     (let b = b\<lparr>group_object_table := got_load data\<rparr>
      in b\<lparr>group_objects := reinitialize_from_table (group_object_table b) (group_objects b)\<rparr>)"

definition init_read_one :: "u16 \<Rightarrow> Bau \<Rightarrow> Bau" where
  "init_read_one asap b =
     (case get_descriptor asap (group_object_table b) of
        None \<Rightarrow> b
      | Some desc \<Rightarrow> if communication_enable desc \<and> read_on_init desc
          then b\<lparr>group_objects := store_update asap request_object_read (group_objects b)\<rparr> else b)"

definition init_read_requests :: "Bau \<Rightarrow> Bau" where
  "init_read_requests b =
     fold (\<lambda>i. init_read_one (of_nat i)) [1 ..< unat (got_entry_count (group_object_table b)) + 1] b"

definition load_tables_from_memory :: "nat \<Rightarrow> nat \<Rightarrow> nat \<Rightarrow> nat \<Rightarrow> Bau \<Rightarrow> Bau" where
  "load_tables_from_memory addr_off addr_len assoc_off assoc_len b =
     (let b = (if addr_off + addr_len \<le> length (memory_area b)
               then b\<lparr>address_table := at_load (buf_slice addr_off (addr_off + addr_len) (memory_area b))\<rparr> else b)
      in if assoc_off + assoc_len \<le> length (memory_area b)
         then b\<lparr>association_table := as_load (buf_slice assoc_off (assoc_off + assoc_len) (memory_area b))\<rparr> else b)"

section \<open>The memory area\<close>

definition mem_slice :: "nat \<Rightarrow> nat \<Rightarrow> Bau \<Rightarrow> u8 list option" where
  "mem_slice addr len b =
     (let fin = addr + len in
      if fin \<le> length (memory_area b) then Some (buf_slice addr fin (memory_area b)) else None)"

definition write_to_memory :: "nat \<Rightarrow> u8 list \<Rightarrow> Bau \<Rightarrow> Bau \<times> bool" where
  "write_to_memory addr data b =
     (let needed = addr + length data in
      if needed > MAX_MEMORY_SIZE then (b, False)
      else let mem = (if needed > length (memory_area b) then vec_resize needed 0 (memory_area b) else memory_area b)
        in (b\<lparr>memory_area := buf_write addr data mem\<rparr>, True))"

definition apply_fill :: "fill_request \<Rightarrow> Bau \<Rightarrow> Bau" where
  "apply_fill fill b = (case fill of
     None \<Rightarrow> b
   | Some (offset, sz, fill_byte) \<Rightarrow>
       let start = unat offset; fin = start + unat sz in
       if fin > MAX_MEMORY_SIZE then b
       else let mem = (if fin > length (memory_area b) then vec_resize fin 0 (memory_area b) else memory_area b)
         in b\<lparr>memory_area := buf_write start (replicate (fin - start) fill_byte) mem\<rparr>)"

definition reload_runtime_table :: "u8 \<Rightarrow> Bau \<Rightarrow> Bau" where
  "reload_runtime_table object_index b =
     (if object_index = OBJ_ADDR_TABLE
      then b\<lparr>address_table := at_load (table_data (memory_area b) (addr_table_object b))\<rparr>
      else if object_index = OBJ_ASSOC_TABLE
      then b\<lparr>association_table := as_load (table_data (memory_area b) (assoc_table_object b))\<rparr>
      else b)"

section \<open>Queued frames\<close>

definition push_frame :: "CemiFrame option \<Rightarrow> Bau \<Rightarrow> bau_result" where
  "push_frame f b = (case f of None \<Rightarrow> Inl Panicked | Some f \<Rightarrow> Inr (b\<lparr>outbox := outbox b @ [f]\<rparr>))"

definition queue_group_frame :: "u16 \<Rightarrow> Priority \<Rightarrow> u8 list \<Rightarrow> Bau \<Rightarrow> bau_result" where
  "queue_group_frame ga prio payload b =
     push_frame (new_l_data LDataReq (bau_individual_address b) (DestGroup (GroupAddress ga)) prio payload) b"

definition queue_broadcast_frame :: "u8 list \<Rightarrow> Bau \<Rightarrow> bau_result" where
  "queue_broadcast_frame payload b = queue_group_frame BROADCAST_GA System payload b"

definition queue_individual_frame :: "IndividualAddress \<Rightarrow> Priority \<Rightarrow> u8 list \<Rightarrow> Bau \<Rightarrow> bau_result" where
  "queue_individual_frame destination prio payload b =
     (if answering_connection b = Some destination
      then Inr (b\<lparr>transport := data_connected_request prio payload (now_ms b) (transport b)\<rparr>)
      else push_frame (new_l_data LDataReq (bau_individual_address b) (DestIndividual destination) prio payload) b)"

definition queue_control_frame :: "IndividualAddress \<Rightarrow> TpduType \<Rightarrow> u8 \<Rightarrow> Bau \<Rightarrow> bau_result" where
  "queue_control_frame destination tpdu_type seq_no b =
     push_frame (new_l_data LDataReq (bau_individual_address b) (DestIndividual destination) System
       (encode_control tpdu_type seq_no)) b"

definition queue_data_connected_frame :: "IndividualAddress \<Rightarrow> u8 \<Rightarrow> Priority \<Rightarrow> u8 list \<Rightarrow> Bau \<Rightarrow> bau_result" where
  "queue_data_connected_frame destination seq_no prio apdu b =
     push_frame (new_l_data LDataReq (bau_individual_address b) (DestIndividual destination) prio
       (encode_data_connected seq_no apdu)) b"

text \<open>The result of the two group-value builders: the frame queued, and whether it could be encoded.\<close>

definition queue_group_value_write :: "u16 \<Rightarrow> dpt option \<Rightarrow> u8 list \<Rightarrow> Bau \<Rightarrow> bau_fault + Bau \<times> bool" where
  "queue_group_value_write ga dpt data b =
     (case encode_group_value_write_for_dpt dpt data of
        Inl _ \<Rightarrow> Inr (b, False)
      | Inr payload \<Rightarrow> bind_res (queue_group_frame ga Low payload b) (\<lambda>b. Inr (b, True)))"

definition queue_group_value_read :: "u16 \<Rightarrow> Bau \<Rightarrow> bau_result" where
  "queue_group_value_read ga b = queue_group_frame ga Low encode_group_value_read b"

definition queue_group_value_response :: "u16 \<Rightarrow> dpt option \<Rightarrow> u8 list \<Rightarrow> Bau \<Rightarrow> bau_fault + Bau \<times> bool" where
  "queue_group_value_response ga dpt data b =
     (case encode_group_value_response_for_dpt dpt data of
        Inl _ \<Rightarrow> Inr (b, False)
      | Inr payload \<Rightarrow> bind_res (queue_group_frame ga Low payload b) (\<lambda>b. Inr (b, True)))"

definition queue_individual_address_response :: "Bau \<Rightarrow> bau_result" where
  "queue_individual_address_response b =
     queue_group_frame BROADCAST_GA System encode_individual_address_response b"

definition queue_device_descriptor_response :: "IndividualAddress \<Rightarrow> Bau \<Rightarrow> bau_result" where
  "queue_device_descriptor_response destination b =
     queue_individual_frame destination System (encode_device_descriptor_response MASK_VERSION_IP) b"

definition queue_device_descriptor_unsupported :: "IndividualAddress \<Rightarrow> Bau \<Rightarrow> bau_result" where
  "queue_device_descriptor_unsupported destination b =
     queue_individual_frame destination System encode_device_descriptor_unsupported b"

definition queue_property_response ::
  "IndividualAddress \<Rightarrow> u8 \<Rightarrow> u8 \<Rightarrow> u8 \<Rightarrow> u16 \<Rightarrow> u8 list \<Rightarrow> Bau \<Rightarrow> bau_result" where
  "queue_property_response destination object_index property_id count start_index data b =
     queue_individual_frame destination System
       (encode_property_response object_index property_id count start_index data) b"

definition queue_memory_response :: "IndividualAddress \<Rightarrow> u16 \<Rightarrow> u8 list \<Rightarrow> Bau \<Rightarrow> bau_result" where
  "queue_memory_response destination address data b =
     queue_individual_frame destination System (encode_memory_response address data) b"

definition queue_property_description_error :: "IndividualAddress \<Rightarrow> u8 \<Rightarrow> Bau \<Rightarrow> bau_result" where
  "queue_property_description_error source object_index b =
     queue_individual_frame source System (encode_property_description_response object_index 0 0 False 0 0 0) b"

definition queue_ext_property_error ::
  "IndividualAddress \<Rightarrow> u16 \<Rightarrow> u16 \<Rightarrow> u16 \<Rightarrow> u16 \<Rightarrow> Bau \<Rightarrow> bau_result" where
  "queue_ext_property_error source object_type object_instance property_id start_index b =
     queue_individual_frame source System
       (encode_property_value_ext_response object_type object_instance property_id 0 start_index []) b"

definition queue_authorize_response :: "IndividualAddress \<Rightarrow> u8 \<Rightarrow> Bau \<Rightarrow> bau_result" where
  "queue_authorize_response destination level b =
     queue_individual_frame destination System (encode_authorize_response level) b"

definition queue_key_response :: "IndividualAddress \<Rightarrow> u8 \<Rightarrow> Bau \<Rightarrow> bau_result" where
  "queue_key_response destination level b =
     queue_individual_frame destination System (encode_key_response level) b"

definition queue_function_property_state_response ::
  "IndividualAddress \<Rightarrow> u8 \<Rightarrow> u8 \<Rightarrow> u8 list \<Rightarrow> Bau \<Rightarrow> bau_result" where
  "queue_function_property_state_response destination object_index property_id res b =
     queue_individual_frame destination System
       (encode_function_property_state_response object_index property_id res) b"

definition queue_adc_response :: "IndividualAddress \<Rightarrow> u8 \<Rightarrow> u8 \<Rightarrow> Bau \<Rightarrow> bau_result" where
  "queue_adc_response destination channel count b =
     queue_individual_frame destination System (encode_adc_response channel 0 ADC_VALUE_DEFAULT) b"

lemmas queue_defs = queue_group_frame_def queue_broadcast_frame_def queue_individual_frame_def
  queue_control_frame_def queue_data_connected_frame_def queue_group_value_write_def
  queue_group_value_read_def queue_group_value_response_def queue_individual_address_response_def
  queue_device_descriptor_response_def queue_device_descriptor_unsupported_def
  queue_property_response_def queue_memory_response_def queue_property_description_error_def
  queue_ext_property_error_def queue_authorize_response_def queue_key_response_def
  queue_function_property_state_response_def queue_adc_response_def

end
