(* ===== verification/Bau_Services.thy ===== *)
theory Bau_Services
  imports Bau
begin

text \<open>
  The services of the bus access unit (\<open>bau.rs\<close>, the handlers and the dispatch): one definition
  per handler, with its early returns, and the dispatch over the indication. A handler that
  queues a frame can panic, so it returns a \<open>bau_result\<close>.
\<close>

section \<open>Group values\<close>

definition bus_update ::
  "(GroupObjectDescriptor \<Rightarrow> bool) \<Rightarrow> u8 list \<Rightarrow> u16 \<Rightarrow> Bau \<Rightarrow> Bau" where
  "bus_update check_flag data asap b =
     (if (case get_descriptor asap (group_object_table b) of
            Some desc \<Rightarrow> \<not> communication_enable desc \<or> \<not> check_flag desc | None \<Rightarrow> False)
      then b
      else b\<lparr>group_objects := store_update asap (\<lambda>go. fst (value_from_bus data go)) (group_objects b)\<rparr>)"

definition update_group_object_from_bus ::
  "CemiFrame \<Rightarrow> u8 list \<Rightarrow> (GroupObjectDescriptor \<Rightarrow> bool) \<Rightarrow> Bau \<Rightarrow> Bau" where
  "update_group_object_from_bus frame data check_flag b =
     (case at_get_tsap (destination_address_raw frame) (address_table b) of
        None \<Rightarrow> b
      | Some tsap \<Rightarrow> fold (bus_update check_flag data) (asaps_for_tsap tsap (association_table b)) b)"

definition handle_group_value_write :: "CemiFrame \<Rightarrow> u8 list \<Rightarrow> Bau \<Rightarrow> Bau" where
  "handle_group_value_write frame data b = update_group_object_from_bus frame data write_enable b"

definition handle_group_value_response :: "CemiFrame \<Rightarrow> u8 list \<Rightarrow> Bau \<Rightarrow> Bau" where
  "handle_group_value_response frame data b = update_group_object_from_bus frame data update_enable b"

text \<open>The loop over the ASAPs stops at the first initialised object that may be read.\<close>

fun answer_group_read :: "u16 \<Rightarrow> u16 list \<Rightarrow> Bau \<Rightarrow> bau_result" where
  "answer_group_read ga [] b = Inr b"
| "answer_group_read ga (asap # asaps) b =
     (if (case get_descriptor asap (group_object_table b) of
            Some desc \<Rightarrow> \<not> communication_enable desc \<or> \<not> read_enable desc | None \<Rightarrow> False)
      then answer_group_read ga asaps b
      else case store_get asap (group_objects b) of
        None \<Rightarrow> answer_group_read ga asaps b
      | Some go \<Rightarrow>
          if go_initialized go
          then bind_res (queue_group_value_response ga (go_dpt go) (go_data go) b) (\<lambda>(b, _). Inr b)
          else answer_group_read ga asaps b)"

definition handle_group_value_read :: "CemiFrame \<Rightarrow> Bau \<Rightarrow> bau_result" where
  "handle_group_value_read frame b =
     (let ga_raw = destination_address_raw frame in
      case at_get_tsap ga_raw (address_table b) of
        None \<Rightarrow> Inr b
      | Some tsap \<Rightarrow> answer_group_read ga_raw (asaps_for_tsap tsap (association_table b)) b)"

section \<open>Properties\<close>

definition try_intercept_table_property :: "u8 \<Rightarrow> PropertyId \<Rightarrow> u16 \<Rightarrow> Bau \<Rightarrow> u8 list option" where
  "try_intercept_table_property object_index pid start_index b =
     (if start_index \<noteq> 1 then None
      else Option.bind (table_object object_index b) (\<lambda>t.
        case pid of
          PidLoadStateControl \<Rightarrow> Some [load_state_u8 (to_state t)]
        | PidTableReference \<Rightarrow> Some (to_be32 (table_reference t))
        | PidMcbTable \<Rightarrow> Some (mcb_table (memory_area b) t)
        | PidErrorCode \<Rightarrow> Some [load_error_u8 (to_error t)]
        | _ \<Rightarrow> None))"

definition handle_property_read ::
  "IndividualAddress \<Rightarrow> u8 \<Rightarrow> u8 \<Rightarrow> u8 \<Rightarrow> u16 \<Rightarrow> Bau \<Rightarrow> bau_result" where
  "handle_property_read source object_index property_id count start_index b =
     (case property_id_try_from property_id of
        Inl _ \<Rightarrow> queue_property_response source object_index property_id 0 start_index [] b
      | Inr pid \<Rightarrow>
        (case try_intercept_table_property object_index pid start_index b of
           Some data \<Rightarrow> queue_property_response source object_index property_id 1 start_index data b
         | None \<Rightarrow>
           (case object_at object_index b of
              None \<Rightarrow> queue_property_response source object_index property_id 0 start_index [] b
            | Some obj \<Rightarrow>
              if start_index = 0 then
                let elem_count = (case io_property pid obj of None \<Rightarrow> 0 | Some p \<Rightarrow> p_max_elements p)
                in queue_property_response source object_index property_id 1 0 (to_be16 elem_count) b
              else let (data, read_count) = read_property pid start_index count [] obj
                in queue_property_response source object_index property_id read_count start_index data b)))"

definition write_object :: "u8 \<Rightarrow> PropertyId \<Rightarrow> u16 \<Rightarrow> u8 \<Rightarrow> u8 list \<Rightarrow> Bau \<Rightarrow> Bau" where
  "write_object object_index pid start_index count data b =
     (case object_at object_index b of
        None \<Rightarrow> b
      | Some obj \<Rightarrow> b\<lparr>objects := (objects b)[unat object_index :=
          fst (write_property pid start_index count data obj)]\<rparr>)"

definition load_state_event :: "u8 \<Rightarrow> u8 list \<Rightarrow> Bau \<Rightarrow> Bau" where
  "load_state_event object_index data b =
     (let mem_len = length (memory_area b) in
      case table_object object_index b of
        None \<Rightarrow> b
      | Some t \<Rightarrow>
          let (t', loaded, fill) = handle_load_event data mem_len t;
              b = set_table_object object_index t' b;
              b = apply_fill fill b
          in if loaded then reload_runtime_table object_index b else b)"

definition handle_property_write ::
  "IndividualAddress \<Rightarrow> u8 \<Rightarrow> u8 \<Rightarrow> u8 \<Rightarrow> u16 \<Rightarrow> u8 list \<Rightarrow> Bau \<Rightarrow> bau_result" where
  "handle_property_write source object_index property_id count start_index data b =
     (case property_id_try_from property_id of
        Inl _ \<Rightarrow> Inr b
      | Inr pid \<Rightarrow>
          if pid = PidLoadStateControl
          then handle_property_read source object_index property_id count start_index
                 (load_state_event object_index data b)
          else handle_property_read source object_index property_id count start_index
                 (write_object object_index pid start_index count data b))"

definition handle_property_description_read :: "IndividualAddress \<Rightarrow> u8 \<Rightarrow> u8 \<Rightarrow> u8 \<Rightarrow> Bau \<Rightarrow> bau_result" where
  "handle_property_description_read source object_index property_id property_index b =
     (case object_at object_index b of
        None \<Rightarrow> queue_property_description_error source object_index b
      | Some obj \<Rightarrow>
        (case read_property_description property_id property_index obj of
           None \<Rightarrow> queue_property_description_error source object_index b
         | Some (idx, desc) \<Rightarrow> queue_individual_frame source System
             (encode_property_description_response object_index (property_id_u8 (pd_id desc)) idx
               (pd_write_enable desc) (pdt_u8 (pd_data_type desc)) (pd_max_elements desc)
               (access_level_u8 (pd_access desc))) b))"

section \<open>Memory\<close>

definition handle_memory_read :: "IndividualAddress \<Rightarrow> u8 \<Rightarrow> u16 \<Rightarrow> Bau \<Rightarrow> bau_result" where
  "handle_memory_read source count address b =
     (let data = (if unat count > MEMORY_RESPONSE_MAX_LEN then []
                  else case mem_slice (unat address) (unat count) b of None \<Rightarrow> [] | Some s \<Rightarrow> s)
      in queue_memory_response source address data b)"

definition handle_memory_write :: "u16 \<Rightarrow> u8 list \<Rightarrow> Bau \<Rightarrow> Bau" where
  "handle_memory_write address data b = fst (write_to_memory (unat address) data b)"

definition handle_memory_ext_read :: "IndividualAddress \<Rightarrow> u8 \<Rightarrow> u32 \<Rightarrow> Bau \<Rightarrow> bau_result" where
  "handle_memory_ext_read source count address b =
     (let (return_code, data) = (case mem_slice (unat address) (unat count) b of
            None \<Rightarrow> (MEM_EXT_RETURN_ERROR, []) | Some s \<Rightarrow> (MEM_EXT_RETURN_OK, s))
      in queue_individual_frame source System (encode_memory_ext_read_response return_code address data) b)"

definition handle_memory_ext_write :: "IndividualAddress \<Rightarrow> u32 \<Rightarrow> u8 list \<Rightarrow> Bau \<Rightarrow> bau_result" where
  "handle_memory_ext_write source address data b =
     (let (b, ok) = write_to_memory (unat address) data b in
      if \<not> ok then Inr b
      else queue_individual_frame source System (encode_memory_ext_write_response MEM_EXT_RETURN_OK address) b)"

section \<open>Restart and reset\<close>

definition handle_basic_restart :: "Bau \<Rightarrow> Bau" where
  "handle_basic_restart b = b\<lparr>transport := disconnect_request (transport b), restart_pending := True\<rparr>"

definition master_reset_error_code :: "u8 \<Rightarrow> u8" where
  "master_reset_error_code erase_code =
     (if ERASE_CONFIRMED_RESTART \<le> erase_code \<and> erase_code \<le> ERASE_FACTORY_RESET_WITHOUT_IA
      then RESTART_ERROR_CODE_OK else RESTART_ERROR_CODE_UNSUPPORTED)"

definition reset_link_tables :: "Bau \<Rightarrow> Bau" where
  "reset_link_tables b = b\<lparr>addr_table_object := table_new, assoc_table_object := table_new,
     address_table := address_table_new, association_table := association_table_new\<rparr>"

definition apply_master_reset :: "u8 \<Rightarrow> Bau \<Rightarrow> Bau" where
  "apply_master_reset erase_code b =
     (if erase_code = ERASE_CONFIRMED_RESTART then b
      else if erase_code = ERASE_RESET_IA then device_mut (set_individual_address DEFAULT_INDIVIDUAL_ADDRESS) b
      else if erase_code = ERASE_RESET_LINKS then reset_link_tables b
      else if erase_code = ERASE_RESET_AP \<or> erase_code = ERASE_RESET_PARAM then b\<lparr>app_program_object := table_new\<rparr>
      else if erase_code = ERASE_FACTORY_RESET \<or> erase_code = ERASE_FACTORY_RESET_WITHOUT_IA then
        let b = reset_link_tables b;
            b = b\<lparr>app_program_object := table_new, memory_area := []\<rparr>
        in if erase_code = ERASE_FACTORY_RESET
           then device_mut (set_individual_address DEFAULT_INDIVIDUAL_ADDRESS) b else b
      else b)"

definition handle_restart_master_reset :: "IndividualAddress \<Rightarrow> u8 \<Rightarrow> Bau \<Rightarrow> bau_result" where
  "handle_restart_master_reset source erase_code b =
     (let error_code = master_reset_error_code erase_code;
          process_time = (if error_code = RESTART_ERROR_CODE_OK then RESTART_PROCESS_TIME_DEFAULT
                          else RESTART_PROCESS_TIME_ZERO)
      in bind_res (queue_individual_frame source System (encode_restart_response error_code process_time) b) (\<lambda>b.
           if error_code \<noteq> RESTART_ERROR_CODE_OK then Inr b
           else let b = apply_master_reset erase_code b;
                    b = b\<lparr>restart_pending := True\<rparr>
                in Inr (b\<lparr>transport := disconnect_request (transport b)\<rparr>)))"

section \<open>Extended properties and network management\<close>

text \<open>
  The enumeration of the objects with the number of matches so far; an object at position 256 or
  later ends the loop.
\<close>

fun find_typed :: "ObjectType \<Rightarrow> u16 \<Rightarrow> nat \<Rightarrow> u16 \<Rightarrow> InterfaceObject list \<Rightarrow> u8 option" where
  "find_typed target inst i instance_count [] = None"
| "find_typed target inst i instance_count (obj # objs) =
     (if i > 255 then None
      else if io_type obj = target then
        (if instance_count + 1 = inst then Some (of_nat i)
         else find_typed target inst (i + 1) (instance_count + 1) objs)
      else find_typed target inst (i + 1) instance_count objs)"

definition find_object_by_type :: "u16 \<Rightarrow> u16 \<Rightarrow> Bau \<Rightarrow> u8 option" where
  "find_object_by_type object_type inst b =
     (case object_type_try_from object_type of
        Inl _ \<Rightarrow> None
      | Inr target \<Rightarrow> find_typed target inst 0 0 (objects b))"

text \<open>\<open>u8::try_from\<close> on a \<open>u16\<close>.\<close>

definition u8_try_from_u16 :: "u16 \<Rightarrow> u8 option" where
  "u8_try_from_u16 w = (if w \<le> 255 then Some (ucast w) else None)"

definition default_description :: PropertyDescription where
  "default_description = \<lparr>pd_id = PidObjectType, pd_write_enable = False, pd_data_type = PdtControl,
     pd_max_elements = 0, pd_access = AccessNone\<rparr>"

definition handle_property_ext_description_read ::
  "IndividualAddress \<Rightarrow> u16 \<Rightarrow> u16 \<Rightarrow> u16 \<Rightarrow> u8 \<Rightarrow> u16 \<Rightarrow> Bau \<Rightarrow> bau_result" where
  "handle_property_ext_description_read source object_type object_instance property_id description_type
     property_index b =
     (if description_type \<noteq> 0 then Inr b
      else case u8_try_from_u16 property_id of None \<Rightarrow> Inr b | Some prop_id \<Rightarrow>
        (case u8_try_from_u16 property_index of None \<Rightarrow> Inr b | Some prop_idx \<Rightarrow>
          let found = Option.bind (find_object_by_type object_type object_instance b) (\<lambda>idx.
                Option.bind (object_at idx b) (read_property_description prop_id prop_idx));
              desc = (case found of None \<Rightarrow> default_description | Some (_, d) \<Rightarrow> d)
          in queue_individual_frame source System
               (encode_property_ext_description_response object_type object_instance property_id
                 property_index description_type desc) b))"

definition handle_property_value_ext_read ::
  "IndividualAddress \<Rightarrow> u16 \<Rightarrow> u16 \<Rightarrow> u16 \<Rightarrow> u8 \<Rightarrow> u16 \<Rightarrow> Bau \<Rightarrow> bau_result" where
  "handle_property_value_ext_read source object_type object_instance property_id count start_index b =
     (let err = queue_ext_property_error source object_type object_instance property_id start_index b in
      case find_object_by_type object_type object_instance b of
        None \<Rightarrow> err
      | Some idx \<Rightarrow>
        (case u8_try_from_u16 property_id of None \<Rightarrow> err | Some pid \<Rightarrow>
          (case property_id_try_from pid of Inl _ \<Rightarrow> err | Inr pid_enum \<Rightarrow>
            (case object_at idx b of None \<Rightarrow> err | Some obj \<Rightarrow>
               let (buf, read_count) = read_property pid_enum start_index count [] obj in
               queue_individual_frame source System
                 (encode_property_value_ext_response object_type object_instance property_id read_count
                   start_index buf) b))))"

definition apply_ext_property_write :: "ExtPropertyParams \<Rightarrow> u8 list \<Rightarrow> Bau \<Rightarrow> Bau \<times> u8" where
  "apply_ext_property_write params data b =
     (case find_object_by_type (ep_object_type params) (ep_object_instance params) b of
        None \<Rightarrow> (b, RETURN_CODE_ADDRESS_VOID)
      | Some idx \<Rightarrow>
        (case u8_try_from_u16 (ep_property_id params) of None \<Rightarrow> (b, RETURN_CODE_ADDRESS_VOID) | Some pid \<Rightarrow>
          (case property_id_try_from pid of Inl _ \<Rightarrow> (b, RETURN_CODE_ADDRESS_VOID) | Inr pid_enum \<Rightarrow>
            (case object_at idx b of None \<Rightarrow> (b, RETURN_CODE_ADDRESS_VOID) | Some obj \<Rightarrow>
              (case io_property pid_enum obj of None \<Rightarrow> (b, RETURN_CODE_ADDRESS_VOID) | Some p \<Rightarrow>
                if \<not> p_write_enable p then (b, RETURN_CODE_ACCESS_READ_ONLY)
                else let (obj', written) = write_property pid_enum (ep_start_index params) (ep_count params) data obj;
                         b = b\<lparr>objects := (objects b)[unat idx := obj']\<rparr>
                     in (b, if written > 0 then RETURN_CODE_SUCCESS else RETURN_CODE_WRITE_FAILED))))))"

definition handle_property_value_ext_write ::
  "IndividualAddress \<Rightarrow> ExtPropertyParams \<Rightarrow> u8 list \<Rightarrow> bool \<Rightarrow> Bau \<Rightarrow> bau_result" where
  "handle_property_value_ext_write source params data confirmed b =
     (let (b, return_code) = apply_ext_property_write params data b in
      if confirmed then queue_individual_frame source System
        (encode_property_value_ext_write_con_response (ep_object_type params) (ep_object_instance params)
          (ep_property_id params) (ep_count params) (ep_start_index params) return_code) b
      else Inr b)"

definition handle_individual_address_serial_number_read :: "u8 list \<Rightarrow> Bau \<Rightarrow> bau_result" where
  "handle_individual_address_serial_number_read serial b =
     (if serial = serial_number (device b)
      then queue_broadcast_frame (encode_individual_address_serial_number_response serial DOMAIN_ADDRESS_IP) b
      else Inr b)"

definition handle_individual_address_serial_number_write :: "u8 list \<Rightarrow> u16 \<Rightarrow> Bau \<Rightarrow> Bau" where
  "handle_individual_address_serial_number_write serial address b =
     (if serial = serial_number (device b) then device_mut (set_individual_address address) b else b)"

definition handle_system_network_parameter_read :: "u16 \<Rightarrow> u16 \<Rightarrow> u8 list \<Rightarrow> Bau \<Rightarrow> bau_result" where
  "handle_system_network_parameter_read object_type property_id test_info b =
     (let operand = (if 1 < length test_info then test_info ! 1 else 0) in
      if operand = NM_READ_SERIAL_BY_PROG_MODE \<and> object_type = OBJECT_TYPE_DEVICE
        \<and> property_id = PID_SERIAL_NUMBER \<and> prog_mode (device b)
      then queue_broadcast_frame (encode_system_network_parameter_response object_type property_id test_info
             (serial_number (device b))) b
      else Inr b)"

section \<open>Dispatch\<close>

definition dispatch_group_services :: "CemiFrame \<Rightarrow> IndividualAddress \<Rightarrow> AppIndication \<Rightarrow> Bau \<Rightarrow> bau_result" where
  "dispatch_group_services frame source indication b = (case indication of
     IndGroupValueWrite _ data \<Rightarrow> Inr (handle_group_value_write frame data b)
   | IndGroupValueResponse _ data \<Rightarrow> Inr (handle_group_value_response frame data b)
   | IndGroupValueRead _ \<Rightarrow> handle_group_value_read frame b
   | _ \<Rightarrow> Inr b)"

definition dispatch_device_management :: "IndividualAddress \<Rightarrow> AppIndication \<Rightarrow> Bau \<Rightarrow> bau_result" where
  "dispatch_device_management source indication b = (case indication of
     IndDeviceDescriptorRead descriptor_type \<Rightarrow>
       if descriptor_type = 0 then queue_device_descriptor_response source b
       else queue_device_descriptor_unsupported source b
   | IndRestartMasterReset erase_code _ \<Rightarrow> handle_restart_master_reset source erase_code b
   | IndIndividualAddressWrite address \<Rightarrow>
       if prog_mode (device b) then Inr (device_mut (set_individual_address address) b) else Inr b
   | IndIndividualAddressRead \<Rightarrow>
       if prog_mode (device b) then queue_individual_address_response b else Inr b
   | IndAuthorizeRequest _ \<Rightarrow> queue_authorize_response source AUTH_LEVEL_FULL b
   | IndKeyWrite level _ \<Rightarrow> queue_key_response source level b
   | IndRestart \<Rightarrow> Inr (handle_basic_restart b)
   | _ \<Rightarrow> Inr b)"

definition dispatch_property_services :: "IndividualAddress \<Rightarrow> AppIndication \<Rightarrow> Bau \<Rightarrow> bau_result" where
  "dispatch_property_services source indication b = (case indication of
     IndPropertyValueRead object_index property_id count start_index \<Rightarrow>
       handle_property_read source object_index property_id count start_index b
   | IndPropertyValueWrite object_index property_id count start_index data \<Rightarrow>
       handle_property_write source object_index property_id count start_index data b
   | IndPropertyDescriptionRead object_index property_id property_index \<Rightarrow>
       handle_property_description_read source object_index property_id property_index b
   | _ \<Rightarrow> Inr b)"

definition dispatch_memory_services :: "IndividualAddress \<Rightarrow> AppIndication \<Rightarrow> Bau \<Rightarrow> bau_result" where
  "dispatch_memory_services source indication b = (case indication of
     IndMemoryRead count address \<Rightarrow> handle_memory_read source count address b
   | IndMemoryWrite _ address data \<Rightarrow> Inr (handle_memory_write address data b)
   | IndMemoryExtRead count address \<Rightarrow> handle_memory_ext_read source count address b
   | IndMemoryExtWrite _ address data \<Rightarrow> handle_memory_ext_write source address data b
   | _ \<Rightarrow> Inr b)"

definition dispatch_ext_property_services :: "IndividualAddress \<Rightarrow> AppIndication \<Rightarrow> Bau \<Rightarrow> bau_result" where
  "dispatch_ext_property_services source indication b = (case indication of
     IndPropertyValueExtRead object_type object_instance property_id count start_index \<Rightarrow>
       handle_property_value_ext_read source object_type object_instance property_id count start_index b
   | IndPropertyValueExtWriteCon object_type object_instance property_id count start_index data \<Rightarrow>
       handle_property_value_ext_write source \<lparr>ep_object_type = object_type,
         ep_object_instance = object_instance, ep_property_id = property_id, ep_count = count,
         ep_start_index = start_index\<rparr> data True b
   | IndPropertyValueExtWriteUnCon object_type object_instance property_id count start_index data \<Rightarrow>
       handle_property_value_ext_write source \<lparr>ep_object_type = object_type,
         ep_object_instance = object_instance, ep_property_id = property_id, ep_count = count,
         ep_start_index = start_index\<rparr> data False b
   | IndFunctionPropertyCommand object_index property_id _ \<Rightarrow>
       queue_function_property_state_response source object_index property_id [] b
   | IndFunctionPropertyState object_index property_id _ \<Rightarrow>
       queue_function_property_state_response source object_index property_id [] b
   | IndSystemNetworkParameterRead object_type property_id test_info \<Rightarrow>
       handle_system_network_parameter_read object_type property_id test_info b
   | IndAdcRead channel count \<Rightarrow> queue_adc_response source channel count b
   | IndIndividualAddressSerialNumberRead serial \<Rightarrow> handle_individual_address_serial_number_read serial b
   | IndIndividualAddressSerialNumberWrite serial address \<Rightarrow>
       Inr (handle_individual_address_serial_number_write serial address b)
   | _ \<Rightarrow> Inr b)"

definition dispatch_indication :: "CemiFrame \<Rightarrow> IndividualAddress \<Rightarrow> AppIndication \<Rightarrow> Bau \<Rightarrow> bau_result" where
  "dispatch_indication frame source indication b = (case indication of
     IndGroupValueWrite _ _ \<Rightarrow> dispatch_group_services frame source indication b
   | IndGroupValueResponse _ _ \<Rightarrow> dispatch_group_services frame source indication b
   | IndGroupValueRead _ \<Rightarrow> dispatch_group_services frame source indication b
   | IndDeviceDescriptorRead _ \<Rightarrow> dispatch_device_management source indication b
   | IndRestart \<Rightarrow> dispatch_device_management source indication b
   | IndRestartMasterReset _ _ \<Rightarrow> dispatch_device_management source indication b
   | IndIndividualAddressWrite _ \<Rightarrow> dispatch_device_management source indication b
   | IndIndividualAddressRead \<Rightarrow> dispatch_device_management source indication b
   | IndAuthorizeRequest _ \<Rightarrow> dispatch_device_management source indication b
   | IndKeyWrite _ _ \<Rightarrow> dispatch_device_management source indication b
   | IndPropertyValueRead _ _ _ _ \<Rightarrow> dispatch_property_services source indication b
   | IndPropertyValueWrite _ _ _ _ _ \<Rightarrow> dispatch_property_services source indication b
   | IndPropertyDescriptionRead _ _ _ \<Rightarrow> dispatch_property_services source indication b
   | IndMemoryRead _ _ \<Rightarrow> dispatch_memory_services source indication b
   | IndMemoryWrite _ _ _ \<Rightarrow> dispatch_memory_services source indication b
   | IndMemoryExtRead _ _ \<Rightarrow> dispatch_memory_services source indication b
   | IndMemoryExtWrite _ _ _ \<Rightarrow> dispatch_memory_services source indication b
   | IndPropertyExtDescriptionRead object_type object_instance property_id description_type property_index \<Rightarrow>
       handle_property_ext_description_read source object_type object_instance property_id
         description_type property_index b
   | _ \<Rightarrow> dispatch_ext_property_services source indication b)"

text \<open>The destination on which a connectionless service must arrive.\<close>

datatype AddrScope = ScopeGroup | ScopeBroadcast | ScopeIndividual

definition required_scope :: "AppIndication \<Rightarrow> AddrScope" where
  "required_scope indication = (case indication of
     IndGroupValueWrite _ _ \<Rightarrow> ScopeGroup
   | IndGroupValueRead _ \<Rightarrow> ScopeGroup
   | IndGroupValueResponse _ _ \<Rightarrow> ScopeGroup
   | IndIndividualAddressWrite _ \<Rightarrow> ScopeBroadcast
   | IndIndividualAddressRead \<Rightarrow> ScopeBroadcast
   | IndIndividualAddressSerialNumberRead _ \<Rightarrow> ScopeBroadcast
   | IndIndividualAddressSerialNumberWrite _ _ \<Rightarrow> ScopeBroadcast
   | IndSystemNetworkParameterRead _ _ _ \<Rightarrow> ScopeBroadcast
   | _ \<Rightarrow> ScopeIndividual)"

definition indication_in_scope :: "CemiFrame \<Rightarrow> AppIndication \<Rightarrow> Bau \<Rightarrow> bool" where
  "indication_in_scope frame indication b \<longleftrightarrow>
     (let is_group = (cemi_address_type frame = AddrGroup); dst = destination_address_raw frame in
      case required_scope indication of
        ScopeGroup \<Rightarrow> is_group \<and> dst \<noteq> 0
      | ScopeBroadcast \<Rightarrow> is_group \<and> dst = 0
      | ScopeIndividual \<Rightarrow> \<not> is_group \<and> dst = ia_raw (bau_individual_address b))"

lemmas dispatch_defs = dispatch_indication_def dispatch_group_services_def dispatch_device_management_def
  dispatch_property_services_def dispatch_memory_services_def dispatch_ext_property_services_def

end
