(* ===== verification/Bau_Contract.thy ===== *)
theory Bau_Contract
  imports Bau_Services
begin

text \<open>
  What every service of the bus access unit keeps. \<open>bau_inv\<close> collects what every device satisfies;
  \<open>dev_inv m sound\<close> adds the bound of the memory area, which the device itself never grows beyond
  its largest size or what the host gave it, and the invariants of the table objects, which hold
  as long as no foreign state was restored. \<open>keeps b b'\<close> is the contract of one operation: the
  invariants, the objects, and a transport layer that only gained actions which are not
  indications. \<open>good b r\<close> is the contract of an operation that may panic. The rules of the
  collection \<open>keeps_intros\<close> establish it for every queueing operation and handler, down to
  \<open>dispatch_indication\<close>.
\<close>

section \<open>The invariant\<close>

definition bau_inv :: "Bau \<Rightarrow> bool" where
  "bau_inv b \<longleftrightarrow> 5 \<le> length (objects b) \<and> store_ok (group_objects b) \<and> tl_inv (transport b)"

definition dev_inv :: "nat \<Rightarrow> bool \<Rightarrow> Bau \<Rightarrow> bool" where
  "dev_inv m sound b \<longleftrightarrow> bau_inv b \<and> length (memory_area b) \<le> max MAX_MEMORY_SIZE m \<and>
     (sound \<longrightarrow> table_inv (addr_table_object b) \<and> table_inv (assoc_table_object b) \<and>
       table_inv (app_program_object b) \<and> table_inv (group_object_table_object b))"

lemmas inv_defs = dev_inv_def bau_inv_def

lemma dev_inv_bau: "dev_inv m sound b \<Longrightarrow> bau_inv b"
  by (simp add: dev_inv_def)

text \<open>An action that is not handed to the application layer.\<close>

definition quiet :: "Action \<Rightarrow> bool" where
  "quiet a \<longleftrightarrow> (case a of DataConnectedIndication _ _ _ \<Rightarrow> False | _ \<Rightarrow> True)"

lemma quiet_simps [simp]: "quiet (SendControl d t q)" "quiet (SendDataConnected d q p as)"
  "quiet (DisconnectIndication d)" "\<not> quiet (DataConnectedIndication d p as)"
  by (simp_all add: quiet_def)

definition keeps :: "Bau \<Rightarrow> Bau \<Rightarrow> bool" where
  "keeps b b' \<longleftrightarrow> (bau_inv b \<longrightarrow> bau_inv b') \<and> (\<forall>m sound. dev_inv m sound b \<longrightarrow> dev_inv m sound b') \<and> length (objects b') = length (objects b) \<and>
     now_ms b' = now_ms b \<and>
     (\<exists>new. actions (transport b') = actions (transport b) @ new \<and> list_all quiet new)"

definition good :: "Bau \<Rightarrow> bau_result \<Rightarrow> bool" where
  "good b r \<longleftrightarrow> (case r of Inl e \<Rightarrow> e = Panicked | Inr b' \<Rightarrow> keeps b b')"

named_theorems keeps_intros "operations that keep the contract of a service"

lemma keeps_refl [keeps_intros]: "keeps b b"
  by (auto simp: keeps_def)

lemma keeps_trans [trans]: "keeps a b \<Longrightarrow> keeps b c \<Longrightarrow> keeps a c"
  unfolding keeps_def by (metis append.assoc list_all_append)

lemma good_Inr [keeps_intros]: "keeps b b' \<Longrightarrow> good b (Inr b')"
  by (simp add: good_def)

lemma good_keeps: "keeps a b \<Longrightarrow> good b r \<Longrightarrow> good a r"
  by (auto simp: good_def split: sum.splits intro: keeps_trans)

lemma good_Panicked [keeps_intros]: "good b (Inl Panicked)"
  by (simp add: good_def)

lemma good_bind: "good b r \<Longrightarrow> (\<And>b'. keeps b b' \<Longrightarrow> good b (f b')) \<Longrightarrow> good b (bind_res r f)"
  by (cases r) (auto simp: good_def)

section \<open>State changes\<close>

lemma keeps_frame [keeps_intros]:
  "keeps b (b\<lparr>outbox := q\<rparr>)" "keeps b (b\<lparr>restart_pending := r\<rparr>)" "keeps b (b\<lparr>answering_connection := c\<rparr>)"
  "keeps b (b\<lparr>address_table := at\<rparr>)" "keeps b (b\<lparr>association_table := ast\<rparr>)"
  "keeps b (b\<lparr>objects := (objects b)[i := obj]\<rparr>)"
  by (auto simp: keeps_def inv_defs)

lemma keeps_tables [keeps_intros]:
  "table_inv t \<Longrightarrow> keeps b (b\<lparr>addr_table_object := t\<rparr>)"
  "table_inv t \<Longrightarrow> keeps b (b\<lparr>assoc_table_object := t\<rparr>)"
  "table_inv t \<Longrightarrow> keeps b (b\<lparr>app_program_object := t\<rparr>)"
  by (auto simp: keeps_def inv_defs)

lemma keeps_memory: "length m \<le> MAX_MEMORY_SIZE \<or> length m \<le> length (memory_area b) \<Longrightarrow>
    keeps b (b\<lparr>memory_area := m\<rparr>)"
  by (auto simp: keeps_def inv_defs)

lemma keeps_store [keeps_intros]:
  "(\<And>go. go_asap (f go) = go_asap go) \<Longrightarrow> keeps b (b\<lparr>group_objects := store_update asap f (group_objects b)\<rparr>)"
  by (auto simp: keeps_def inv_defs store_ok_update)

lemma keeps_transport: "(tl_inv (transport b) \<Longrightarrow> tl_inv t) \<Longrightarrow>
    actions t = actions (transport b) @ new \<Longrightarrow> list_all quiet new \<Longrightarrow> keeps b (b\<lparr>transport := t\<rparr>)"
  by (auto simp: keeps_def inv_defs)

lemma request_actions: "\<exists>new. actions (data_connected_request p d now s) = actions s @ new \<and> list_all quiet new"
  "\<exists>new. actions (disconnect_request s) = actions s @ new \<and> list_all quiet new"
  by (auto simp: data_connected_request_def disconnect_request_def tl_actions Let_def split: State.splits)

lemma keeps_requests [keeps_intros]:
  "keeps b (b\<lparr>transport := data_connected_request p d now (transport b)\<rparr>)"
  "keeps b (b\<lparr>transport := disconnect_request (transport b)\<rparr>)"
proof -
  show "keeps b (b\<lparr>transport := data_connected_request p d now (transport b)\<rparr>)"
    using request_actions(1) [of p d now "transport b"] tl_inv_step [of "transport b" "EvDataReq p d now"]
    by (auto intro: keeps_transport)
  show "keeps b (b\<lparr>transport := disconnect_request (transport b)\<rparr>)"
    using request_actions(2) [of "transport b"] tl_inv_step [of "transport b" EvDisconnectReq]
    by (auto intro: keeps_transport)
qed

section \<open>Queues\<close>

lemma good_push [keeps_intros]: "good b (push_frame f b)"
  by (auto simp: push_frame_def split: option.split intro!: keeps_intros)

lemma good_queue [keeps_intros]:
  "good b (queue_group_frame ga p pl b)" "good b (queue_broadcast_frame pl b)"
  "good b (queue_individual_frame d p pl b)" "good b (queue_control_frame d tt q b)"
  "good b (queue_data_connected_frame d q p pl b)"
  by (auto simp: queue_group_frame_def queue_broadcast_frame_def queue_individual_frame_def
      queue_control_frame_def queue_data_connected_frame_def intro!: keeps_intros)

lemma good_queues [keeps_intros]:
  "good b (queue_group_value_read ga b)" "good b (queue_individual_address_response b)"
  "good b (queue_device_descriptor_response d b)" "good b (queue_device_descriptor_unsupported d b)"
  "good b (queue_property_response d oi pid c si data b)" "good b (queue_memory_response d a data b)"
  "good b (queue_property_description_error d oi b)" "good b (queue_ext_property_error d ot inst xp si b)"
  "good b (queue_authorize_response d l b)" "good b (queue_key_response d l b)"
  "good b (queue_function_property_state_response d oi pid data b)" "good b (queue_adc_response d l l' b)"
  by (auto simp: queue_group_value_read_def queue_individual_address_response_def
      queue_device_descriptor_response_def queue_device_descriptor_unsupported_def queue_property_response_def
      queue_memory_response_def queue_property_description_error_def queue_ext_property_error_def
      queue_authorize_response_def queue_key_response_def queue_function_property_state_response_def
      queue_adc_response_def intro!: keeps_intros)

text \<open>The two builders that also report whether the value could be encoded.\<close>

definition good_flag :: "Bau \<Rightarrow> bau_fault + Bau \<times> 'a \<Rightarrow> bool" where
  "good_flag b r \<longleftrightarrow> (case r of Inl e \<Rightarrow> e = Panicked | Inr (b', _) \<Rightarrow> keeps b b')"

lemma good_flag_bind: "good b r \<Longrightarrow> good_flag b (bind_res r (\<lambda>b. Inr (b, x)))"
  by (cases r) (auto simp: good_def good_flag_def)

lemma good_bind_flag: "good_flag b r \<Longrightarrow> (\<And>b' x. keeps b b' \<Longrightarrow> good b (f (b', x))) \<Longrightarrow> good b (bind_res r f)"
  by (cases r) (auto simp: good_def good_flag_def split: prod.splits)

lemma group_value_queued [keeps_intros]:
  "good_flag b (queue_group_value_write ga dpt data b)" "good_flag b (queue_group_value_response ga dpt data b)"
  by (auto simp: queue_group_value_write_def queue_group_value_response_def good_flag_def [of b "Inr (b, False)"]
      split: sum.split intro!: keeps_intros good_flag_bind)

section \<open>Services\<close>

lemma value_from_bus_asap [simp]: "go_asap (fst (value_from_bus data go)) = go_asap go"
  by (simp add: value_from_bus_def Let_def)

lemma keeps_bus_update [keeps_intros]: "keeps b (bus_update f data asap b)"
  by (auto simp: bus_update_def intro!: keeps_intros)

lemma keeps_fold: "(\<And>x b. keeps b (f x b)) \<Longrightarrow> keeps b (fold f xs b)"
proof (induction xs arbitrary: b)
  case (Cons x xs)
  from keeps_trans [OF Cons.prems Cons.IH [OF Cons.prems]] show ?case by simp
qed (simp add: keeps_refl)

lemma keeps_group_update [keeps_intros]: "keeps b (update_group_object_from_bus frame data f b)"
  by (auto simp: update_group_object_from_bus_def split: option.split intro!: keeps_intros keeps_fold)

lemma good_answer_read: "good b (answer_group_read ga asaps b)"
  by (induction asaps) (auto split: option.split intro!: keeps_intros good_bind_flag)

lemma good_group_read [keeps_intros]: "good b (handle_group_value_read frame b)"
  by (auto simp: handle_group_value_read_def Let_def split: option.split intro!: keeps_intros good_answer_read)

lemma good_property_read [keeps_intros]: "good b (handle_property_read src oi pid c si b)"
  by (auto simp: handle_property_read_def Let_def split: option.split sum.split prod.split intro!: keeps_intros)

lemma keeps_fill [keeps_intros]: "keeps b (apply_fill fill b)"
  by (auto simp: apply_fill_def Let_def split: option.split intro!: keeps_memory keeps_refl)

lemma keeps_reload [keeps_intros]: "keeps b (reload_runtime_table i b)"
  by (auto simp: reload_runtime_table_def intro!: keeps_intros)

lemma table_object_inv: "dev_inv m True b \<Longrightarrow> table_object i b = Some t \<Longrightarrow> table_inv t"
  by (auto simp: table_object_def dev_inv_def split: if_splits)

lemma keeps_set_table: "(\<And>m. dev_inv m True b \<Longrightarrow> table_inv t) \<Longrightarrow> keeps b (set_table_object i t b)"
  by (auto simp: keeps_def inv_defs set_table_object_def)

lemma keeps_load_event [keeps_intros]: "keeps b (load_state_event i data b)"
proof (cases "table_object i b")
  case (Some t)
  obtain t' loaded fill where h: "handle_load_event data (length (memory_area b)) t = (t', loaded, fill)"
    by (metis prod_cases3)
  have "keeps b (set_table_object i t' b)"
    using table_object_inv [OF _ Some] table_inv_event [of t data "length (memory_area b)"] h
    by (auto intro: keeps_set_table)
  also have "keeps (set_table_object i t' b) (apply_fill fill (set_table_object i t' b))"
    by (rule keeps_fill)
  finally show ?thesis
    using Some h by (auto simp: load_state_event_def Let_def intro: keeps_trans keeps_reload)
qed (simp add: load_state_event_def keeps_refl)

lemma keeps_write_object [keeps_intros]: "keeps b (write_object i pid si c data b)"
  by (auto simp: write_object_def split: option.split intro!: keeps_intros)

lemma good_property_description [keeps_intros]: "good b (handle_property_description_read src oi pid pi b)"
  by (auto simp: handle_property_description_read_def split: option.split intro!: keeps_intros)

lemma good_property_write [keeps_intros]: "good b (handle_property_write src oi pid c si data b)"
  by (auto simp: handle_property_write_def split: sum.split
      intro: keeps_refl good_Inr good_keeps [OF keeps_load_event good_property_read]
        good_keeps [OF keeps_write_object good_property_read])

lemma write_memory_keeps: "keeps b (fst (write_to_memory a data b))"
  by (auto simp: write_to_memory_def Let_def intro!: keeps_memory keeps_refl)

lemma good_memory [keeps_intros]:
  "good b (handle_memory_read src c a b)" "keeps b (handle_memory_write a data b)"
  "good b (handle_memory_ext_read src c xa b)" "good b (handle_memory_ext_write src xa data b)"
proof -
  show "good b (handle_memory_ext_write src xa data b)"
    using write_memory_keeps [of b "unat xa" data]
    by (auto simp: handle_memory_ext_write_def split: prod.split intro: good_Inr good_keeps [OF _ good_queue(3)])
qed (auto simp: handle_memory_read_def handle_memory_write_def handle_memory_ext_read_def Let_def
    split: option.split intro!: keeps_intros write_memory_keeps)

lemma keeps_device_mut [keeps_intros]: "keeps b (device_mut f b)"
  by (simp add: device_mut_def keeps_frame)

lemma keeps_reset: "keeps b (reset_link_tables b)" "keeps b (apply_master_reset e b)"
  by (auto simp: keeps_def inv_defs reset_link_tables_def apply_master_reset_def device_mut_def
      table_inv_new Let_def)

lemma good_restart [keeps_intros]:
  "keeps b (handle_basic_restart b)" "good b (handle_restart_master_reset src e b)"
proof -
  have k: "keeps c (c\<lparr>transport := disconnect_request (transport c), restart_pending := True\<rparr>)" for c
    using keeps_trans [OF keeps_requests(2) keeps_frame(2)] by simp
  have k': "keeps c (c\<lparr>restart_pending := True, transport := disconnect_request (transport c)\<rparr>)" for c
    using keeps_trans [OF keeps_frame(2) keeps_requests(2)] by fastforce
  show "keeps b (handle_basic_restart b)"
    by (simp add: handle_basic_restart_def k)
  show "good b (handle_restart_master_reset src e b)"
    unfolding handle_restart_master_reset_def Let_def
  proof (rule good_bind)
    fix b' assume "keeps b b'"
    then show "good b (if master_reset_error_code e \<noteq> RESTART_ERROR_CODE_OK then Inr b'
        else Inr ((apply_master_reset e b') \<lparr>restart_pending := True,
          transport := disconnect_request (transport ((apply_master_reset e b')\<lparr>restart_pending := True\<rparr>))\<rparr>))"
      using keeps_trans [OF keeps_reset(2) k'] by (auto intro!: good_Inr intro: keeps_trans)
  qed (rule good_queue)
qed

lemma good_ext [keeps_intros]:
  "good b (handle_property_ext_description_read src ot inst xp dt pi b)"
  "good b (handle_property_value_ext_read src ot inst xp c si b)"
  "good b (handle_individual_address_serial_number_read sn b)"
  "keeps b (handle_individual_address_serial_number_write sn a b)"
  "good b (handle_system_network_parameter_read ot xp info b)"
  by (auto simp: handle_property_ext_description_read_def handle_property_value_ext_read_def
      handle_individual_address_serial_number_read_def handle_individual_address_serial_number_write_def
      handle_system_network_parameter_read_def Let_def
      split: option.split sum.split prod.split intro!: keeps_intros)

lemma keeps_ext_write: "keeps b (fst (apply_ext_property_write ps data b))"
  by (auto simp: apply_ext_property_write_def Let_def split: option.split sum.split prod.split intro!: keeps_intros)

lemma good_ext_write [keeps_intros]: "good b (handle_property_value_ext_write src ps data confirmed b)"
  using keeps_ext_write [of b ps data]
  by (auto simp: handle_property_value_ext_write_def split: prod.split
      intro: good_Inr good_keeps [OF _ good_queue(3)])

lemma good_dispatch: "good b (dispatch_indication frame src ind b)"
  by (cases ind) (auto simp: dispatch_defs handle_group_value_write_def handle_group_value_response_def
      intro!: keeps_intros)

end
