(* ===== verification/Bau_Run.thy ===== *)
theory Bau_Run
  imports Bau_Contract
begin

text \<open>
  The entry points of the bus access unit (\<open>bau.rs\<close>): an incoming frame, the transport actions it
  causes, and the poll that sends pending group objects. The two loops have fuel; the theorems
  show that the fuel used never runs out, so an entry point returns or panics.
\<close>

section \<open>Transport actions\<close>

definition dispatch_connected_indication :: "IndividualAddress \<Rightarrow> AppIndication \<Rightarrow> Bau \<Rightarrow> bau_result" where
  "dispatch_connected_indication source indication b =
     (case new_l_data LDataInd source (DestIndividual (bau_individual_address b)) System [] of
        None \<Rightarrow> Inl Panicked
      | Some dummy_frame \<Rightarrow>
          let b = b\<lparr>answering_connection := Some source\<rparr> in
          bind_res (dispatch_indication dummy_frame source indication b)
            (\<lambda>b. Inr (b\<lparr>answering_connection := None\<rparr>)))"

definition drain_action :: "Action \<Rightarrow> Bau \<Rightarrow> bau_result" where
  "drain_action a b = (case a of
     SendControl destination tpdu_type seq_no \<Rightarrow> queue_control_frame destination tpdu_type seq_no b
   | SendDataConnected destination seq_no prio apdu \<Rightarrow> queue_data_connected_frame destination seq_no prio apdu b
   | DataConnectedIndication source _ apdu \<Rightarrow>
       (case parse_raw_apdu apdu of
          Inl _ \<Rightarrow> Inr b
        | Inr parsed \<Rightarrow> dispatch_connected_indication source parsed b)
   | _ \<Rightarrow> Inr b)"

fun drain_actions :: "Action list \<Rightarrow> Bau \<Rightarrow> bau_result" where
  "drain_actions [] b = Inr b"
| "drain_actions (a # as) b = bind_res (drain_action a b) (drain_actions as)"

fun drain_loop :: "nat \<Rightarrow> Bau \<Rightarrow> bau_result" where
  "drain_loop 0 b = Inl OutOfFuel"
| "drain_loop (Suc fuel) b =
     (let (t, actions) = take_actions (transport b); b = b\<lparr>transport := t\<rparr> in
      if actions = [] then Inr b else bind_res (drain_actions actions b) (drain_loop fuel))"

text \<open>Three rounds suffice: only the first can hold indications, and only indications cause actions.\<close>

definition drain_transport_actions :: "Bau \<Rightarrow> bau_result" where
  "drain_transport_actions b = drain_loop 3 b"

section \<open>Incoming frames\<close>

text \<open>The loop \<open>for asap in 1..=count\<close>: from \<open>asap\<close> on, \<open>n\<close> iterations left.\<close>

fun confirm_loop :: "u16 \<Rightarrow> bool \<Rightarrow> nat \<Rightarrow> nat \<Rightarrow> Bau \<Rightarrow> Bau" where
  "confirm_loop ga success asap 0 b = b"
| "confirm_loop ga success asap (Suc n) b =
     (if (case store_get (of_nat asap) (group_objects b) of
            None \<Rightarrow> False | Some go \<Rightarrow> go_comm_flag go = CfTransmitting)
         \<and> resolve_group_address (of_nat asap) b = Some ga
      then b\<lparr>group_objects := store_update (of_nat asap) (transmit_done success) (group_objects b)\<rparr>
      else confirm_loop ga success (asap + 1) n b)"

definition handle_transmit_confirmation :: "CemiFrame \<Rightarrow> Bau \<Rightarrow> Bau" where
  "handle_transmit_confirmation frame b =
     (if cemi_address_type frame \<noteq> AddrGroup then b
      else let ga = destination_address_raw frame; success = (cemi_confirm frame = NoError)
        in confirm_loop ga success 1 (unat (store_count (group_objects b))) b)"

definition process_control_tpdu :: "CemiFrame \<Rightarrow> TpduType \<Rightarrow> u64 \<Rightarrow> Bau \<Rightarrow> Bau" where
  "process_control_tpdu frame tpdu_type now b =
     (let seq_no = (case cemi_tpdu frame of Some (TControl _ s) \<Rightarrow> s | _ \<Rightarrow> 0); source = source_address frame in
      case tpdu_type of
        Connect \<Rightarrow> b\<lparr>transport := connect_indication source now (transport b)\<rparr>
      | Disconnect \<Rightarrow> b\<lparr>transport := disconnect_indication source (transport b)\<rparr>
      | Ack \<Rightarrow> b\<lparr>transport := ack_indication source seq_no now (transport b)\<rparr>
      | Nack \<Rightarrow> b\<lparr>transport := nack_indication source seq_no now (transport b)\<rparr>
      | _ \<Rightarrow> b)"

definition process_data_tpdu :: "CemiFrame \<Rightarrow> TpduType \<Rightarrow> u8 \<Rightarrow> apdu \<Rightarrow> u64 \<Rightarrow> Bau \<Rightarrow> bau_result" where
  "process_data_tpdu frame tpdu_type sequence_number a now b =
     (let source = source_address frame in
      if tpdu_type = DataConnected then
        Inr (b\<lparr>transport := data_connected_indication source sequence_number (cemi_priority frame)
               (encode_raw_apdu a) now (transport b)\<rparr>)
      else case parse_indication (apdu_type a) (apdu_data a) of
        Inl _ \<Rightarrow> Inr b
      | Inr indication \<Rightarrow>
          if \<not> indication_in_scope frame indication b then Inr b
          else dispatch_indication frame source indication b)"

definition process_frame :: "CemiFrame \<Rightarrow> u64 \<Rightarrow> Bau \<Rightarrow> bau_result" where
  "process_frame frame now b =
     (let b = b\<lparr>now_ms := now\<rparr> in
      if message_code_raw frame = message_code_u8 LDataCon then Inr (handle_transmit_confirmation frame b)
      else case cemi_tpdu frame of
        None \<Rightarrow> Inr b
      | Some (TControl tpdu_type _) \<Rightarrow> drain_transport_actions (process_control_tpdu frame tpdu_type now b)
      | Some (TData tpdu_type sequence_number a) \<Rightarrow>
          bind_res (process_data_tpdu frame tpdu_type sequence_number a now b) drain_transport_actions)"

section \<open>Polling\<close>

text \<open>One pending object: the request sent, if its group address is known, and the new flag.\<close>

definition send_request :: "u16 \<Rightarrow> (dpt option \<times> u8 list) option \<Rightarrow> Bau \<Rightarrow> bau_fault + Bau \<times> ComFlag" where
  "send_request asap write_data b =
     (case resolve_group_address asap b of
        None \<Rightarrow> Inr (b, CfError)
      | Some ga \<Rightarrow>
        (case write_data of
           Some (dpt, data) \<Rightarrow> bind_res (queue_group_value_write ga dpt data b)
             (\<lambda>(b, ok). Inr (b, if ok then CfTransmitting else CfError))
         | None \<Rightarrow> bind_res (queue_group_value_read ga b) (\<lambda>b. Inr (b, CfTransmitting))))"

fun send_pending :: "nat \<Rightarrow> Bau \<Rightarrow> bau_result" where
  "send_pending 0 b = Inl OutOfFuel"
| "send_pending (Suc fuel) b =
     (case next_pending (group_objects b) of
        None \<Rightarrow> Inr b
      | Some asap \<Rightarrow>
        (case store_get asap (group_objects b) of
           None \<Rightarrow> Inr b
         | Some go \<Rightarrow>
             if go_comm_flag go = CfWriteRequest \<or> go_comm_flag go = CfReadRequest then
               let write_data = (if go_comm_flag go = CfWriteRequest then Some (go_dpt go, go_data go) else None)
               in bind_res (send_request asap write_data b) (\<lambda>(b, new_flag).
                    send_pending fuel
                      (b\<lparr>group_objects := store_update asap (go_set_comm_flag new_flag) (group_objects b)\<rparr>))
             else Inr b))"

definition poll :: "u64 \<Rightarrow> Bau \<Rightarrow> bau_result" where
  "poll now b =
     (let b = b\<lparr>now_ms := now\<rparr>;
          b = b\<lparr>transport := tl_poll now (transport b)\<rparr>
      in bind_res (drain_transport_actions b) (\<lambda>b.
           if \<not> configured b then Inr b
           else send_pending (Suc (length (gs_objects (group_objects b)))) b))"

section \<open>Draining ends\<close>

definition kept :: "Bau \<Rightarrow> Bau \<Rightarrow> bool" where
  "kept b b' \<longleftrightarrow> (bau_inv b \<longrightarrow> bau_inv b') \<and> (\<forall>m sound. dev_inv m sound b \<longrightarrow> dev_inv m sound b') \<and> length (objects b') = length (objects b) \<and> now_ms b' = now_ms b"

lemma keeps_kept: "keeps b b' \<Longrightarrow> kept b b'"
  by (simp add: keeps_def kept_def)

lemma kept_refl: "kept b b" and kept_trans: "kept a b \<Longrightarrow> kept b c \<Longrightarrow> kept a c"
  by (simp_all add: kept_def)

lemma kept_taken: "kept b (b\<lparr>transport := (transport b)\<lparr>actions := []\<rparr>\<rparr>)"
  by (simp add: kept_def inv_defs tl_inv_def)

lemma new_l_data_empty: "new_l_data mc src dst p [] \<noteq> None"
  using new_l_data_fields [where payload = "[]" and mc = mc and src = src and dst = dst and p = p] by (auto split: sum.splits)

lemma good_connected [keeps_intros]: "good b (dispatch_connected_indication src ind b)"
proof -
  obtain f where f: "new_l_data LDataInd src (DestIndividual (bau_individual_address b)) System [] = Some f"
    using new_l_data_empty by fast
  have "good b (bind_res (dispatch_indication f src ind (b\<lparr>answering_connection := Some src\<rparr>))
      (\<lambda>b. Inr (b\<lparr>answering_connection := None\<rparr>)))"
  proof (rule good_bind)
    show "good b (dispatch_indication f src ind (b\<lparr>answering_connection := Some src\<rparr>))"
      by (rule good_keeps [OF keeps_frame(3) good_dispatch])
    show "good b (Inr (b'\<lparr>answering_connection := None\<rparr>))" if "keeps b b'" for b'
      by (rule good_Inr) (rule keeps_trans [OF that keeps_frame(3)])
  qed
  with f show ?thesis by (simp add: dispatch_connected_indication_def)
qed

lemma good_drain_action: "good b (drain_action a b)"
  by (cases a) (auto simp: drain_action_def split: sum.split intro!: keeps_intros)

lemma good_drain_actions: "good b (drain_actions as b)"
proof (induction "as" arbitrary: b)
  case (Cons a as)
  show ?case
    by (auto intro!: good_bind good_drain_action intro: good_keeps Cons.IH)
qed (simp add: keeps_refl good_Inr)

text \<open>A quiet action leaves the transport layer alone.\<close>

definition still :: "Bau \<Rightarrow> bau_result \<Rightarrow> bool" where
  "still b r \<longleftrightarrow> (case r of Inl e \<Rightarrow> e = Panicked | Inr b' \<Rightarrow> kept b b' \<and> transport b' = transport b)"

lemma still_drain_action: "quiet a \<Longrightarrow> still b (drain_action a b)"
  using keeps_frame(1) [THEN keeps_kept, of b]
  by (cases a) (auto simp: drain_action_def still_def queue_control_frame_def queue_data_connected_frame_def
      push_frame_def kept_refl split: option.split)

lemma still_drain_actions: "list_all quiet as \<Longrightarrow> still b (drain_actions as b)"
proof (induction "as" arbitrary: b)
  case (Cons a as)
  have "still b (drain_action a b)"
    using still_drain_action Cons.prems by simp
  then show ?case
  proof (cases "drain_action a b")
    case (Inr c)
    with \<open>still b _\<close> Cons.IH [of c] Cons.prems show ?thesis
      by (auto simp: still_def split: sum.splits intro: kept_trans)
  qed (simp add: still_def)
qed (simp add: still_def kept_refl)

text \<open>The state after draining has no action left.\<close>

definition drained :: "Bau \<Rightarrow> bau_result \<Rightarrow> bool" where
  "drained b r \<longleftrightarrow> (case r of Inl e \<Rightarrow> e = Panicked | Inr b' \<Rightarrow> kept b b' \<and> actions (transport b') = [])"

lemma drained_kept: "kept a b \<Longrightarrow> drained b r \<Longrightarrow> drained a r"
  by (auto simp: drained_def split: sum.splits intro: kept_trans)

lemma drain_loop_Suc: "drain_loop (Suc n) b =
   (let b' = b\<lparr>transport := (transport b)\<lparr>actions := []\<rparr>\<rparr> in
    if actions (transport b) = [] then Inr b'
    else bind_res (drain_actions (actions (transport b)) b') (drain_loop n))"
  by (simp add: take_actions_def)

lemma drain_empty: "actions (transport b) = [] \<Longrightarrow> drain_loop (Suc n) b = Inr b"
  by (simp add: drain_loop_Suc del: drain_loop.simps)

lemma drained_quiet:
  assumes "list_all quiet (actions (transport b))"
  shows "drained b (drain_loop (Suc (Suc n)) b)"
proof (cases "actions (transport b) = []")
  case True
  then show ?thesis by (simp add: drain_empty drained_def kept_refl del: drain_loop.simps)
next
  case False
  define b' where "b' = b\<lparr>transport := (transport b)\<lparr>actions := []\<rparr>\<rparr>"
  have k: "kept b b'" by (simp add: b'_def kept_taken)
  from still_drain_actions [OF assms, of b'] show ?thesis
    unfolding drain_loop_Suc [of "Suc n"] Let_def b'_def [symmetric]
    using False k drain_empty [of _ n]
    by (cases "drain_actions (actions (transport b)) b'")
      (auto simp: still_def drained_def b'_def simp del: drain_loop.simps intro: kept_trans)
qed

lemma drained_drain: "drained b (drain_transport_actions b)"
proof (cases "actions (transport b) = []")
  case True
  then show ?thesis
    unfolding drain_transport_actions_def numeral_3_eq_3
    by (simp add: drain_empty drained_def kept_refl del: drain_loop.simps)
next
  case False
  define b' where "b' = b\<lparr>transport := (transport b)\<lparr>actions := []\<rparr>\<rparr>"
  have k: "kept b b'" by (simp add: b'_def kept_taken)
  have e: "drain_transport_actions b = bind_res (drain_actions (actions (transport b)) b') (drain_loop 2)"
    using False by (simp add: drain_transport_actions_def numeral_3_eq_3 numeral_2_eq_2 take_actions_def b'_def)
  show ?thesis
  proof (cases "drain_actions (actions (transport b)) b'")
    case (Inl e)
    with good_drain_actions [of b' "actions (transport b)"] show ?thesis
      unfolding \<open>drain_transport_actions b = _\<close> by (simp add: good_def drained_def)
  next
    case (Inr c)
    with good_drain_actions [of b' "actions (transport b)"] have "keeps b' c"
      by (simp add: good_def)
    then have "list_all quiet (actions (transport c))"
      by (auto simp: keeps_def b'_def)
    from drained_quiet [OF this, of 0] have "drained c (drain_loop 2 c)"
      by (simp add: numeral_2_eq_2)
    then show ?thesis
      unfolding e using Inr drained_kept [OF kept_trans [OF k keeps_kept [OF \<open>keeps b' c\<close>]]] by simp
  qed
qed


section \<open>Polling ends\<close>

definition pending :: "GroupObjectStore \<Rightarrow> nat" where
  "pending s = length (filter is_pending (gs_objects s))"

lemma next_pending_found:
  assumes "store_ok s" and "next_pending s = Some asap"
  shows "\<exists>go. store_get asap s = Some go \<and> is_pending go"
proof -
  from assms(2) obtain go where f: "List.find is_pending (gs_objects s) = Some go" and a: "asap = go_asap go"
    by (auto simp: next_pending_def)
  then obtain i where i: "i < length (gs_objects s)" "gs_objects s ! i = go" "is_pending go"
    by (auto simp: find_Some_iff)
  with assms(1) a have "asap = of_nat (Suc i)" and "i < 65535"
    by (auto simp: store_ok_def)
  with i asap_index [of i] show ?thesis
    by (auto simp: store_get_def Let_def simp del: of_nat_Suc)
qed

lemma next_pending_None: "next_pending s = None \<longleftrightarrow> pending s = 0"
  by (auto simp: next_pending_def pending_def find_None_iff filter_empty_conv)

lemma pending_update:
  assumes "store_get asap s = Some go" and "is_pending go" and "\<not> is_pending (f go)"
  shows "pending (store_update asap f s) < pending s"
proof -
  let ?i = "unat (asap - 1)"
  from assms(1) have i: "asap \<noteq> 0" "?i < length (gs_objects s)" "gs_objects s ! ?i = go"
    by (auto simp: store_get_def Let_def split: if_splits)
  have split: "gs_objects s = take ?i (gs_objects s) @ go # drop (Suc ?i) (gs_objects s)"
    using i id_take_nth_drop by metis
  have "gs_objects (store_update asap f s) = take ?i (gs_objects s) @ f go # drop (Suc ?i) (gs_objects s)"
    using i by (simp add: store_update_def Let_def upd_conv_take_nth_drop)
  then show ?thesis
    unfolding pending_def by (subst split) (simp add: assms(2,3))
qed

definition sent :: "Bau \<Rightarrow> bau_fault + Bau \<times> ComFlag \<Rightarrow> bool" where
  "sent b r \<longleftrightarrow> (case r of Inl e \<Rightarrow> e = Panicked | Inr (b', f) \<Rightarrow>
     \<exists>q. b' = b\<lparr>outbox := outbox b @ q\<rparr> \<and> f \<in> {CfTransmitting, CfError})"

lemma push_frame_cases: "push_frame f b = Inl Panicked \<or> (\<exists>x. push_frame f b = Inr (b\<lparr>outbox := outbox b @ [x]\<rparr>))"
  by (cases f) (auto simp: push_frame_def)

lemma sent_group: "f \<in> {CfTransmitting, CfError} \<Longrightarrow> sent b (bind_res (queue_group_frame ga p pl b) (\<lambda>b. Inr (b, f)))"
  using push_frame_cases [of "new_l_data LDataReq (bau_individual_address b) (DestGroup (GroupAddress ga)) p pl" b]
  by (auto simp: queue_group_frame_def sent_def)

lemma sent_request: "sent b (send_request asap wd b)"
proof -
  have same: "sent b (Inr (b, CfError))"
    by (auto simp: sent_def intro: exI [of _ "[]"])
  have a: "bind_res (bind_res r (\<lambda>b. Inr (b, True))) (\<lambda>(b, ok). Inr (b, if ok then CfTransmitting else CfError))
      = bind_res r (\<lambda>b. Inr (b, CfTransmitting))" for r :: bau_result
    by (cases r) auto
  show ?thesis
    using same
    by (auto simp: send_request_def queue_group_value_write_def queue_group_value_read_def a
        split: option.split sum.split intro!: sent_group)
qed

lemma poll_loop:
  assumes "dev_inv m sound b" and "pending (group_objects b) < fuel"
  shows "case send_pending fuel b of Inl e \<Rightarrow> e = Panicked | Inr b' \<Rightarrow>
    dev_inv m sound b' \<and> next_pending (group_objects b') = None \<and> transport b' = transport b \<and> (configured b' = configured b)"
  using assms
proof (induction fuel arbitrary: b)
  case (Suc fuel)
  show ?case
  proof (cases "next_pending (group_objects b)")
    case None
    with Suc.prems show ?thesis by simp
  next
    case (Some asap)
    from Suc.prems(1) have "store_ok (group_objects b)" by (simp add: inv_defs)
    from next_pending_found [OF this Some] obtain go
      where go: "store_get asap (group_objects b) = Some go" "is_pending go" by auto
    define wd where "wd = (if go_comm_flag go = CfWriteRequest then Some (go_dpt go, go_data go) else None)"
    define up where "up = (\<lambda>(b :: Bau, f). b\<lparr>group_objects := store_update asap (go_set_comm_flag f) (group_objects b)\<rparr>)"
    have e: "send_pending (Suc fuel) b = bind_res (send_request asap wd b) (\<lambda>r. send_pending fuel (up r))"
      using Some go by (simp add: is_pending_def wd_def up_def case_prod_unfold)
    show ?thesis
    proof (cases "send_request asap wd b")
      case (Inl x)
      with sent_request [of b asap wd] show ?thesis by (simp add: e sent_def del: send_pending.simps)
    next
      case (Inr r)
      then obtain q f where r: "r = (b\<lparr>outbox := outbox b @ q\<rparr>, f)" "f \<in> {CfTransmitting, CfError}"
        using sent_request [of b asap wd] by (auto simp: sent_def)
      define c where "c = up r"
      have g: "group_objects c = store_update asap (go_set_comm_flag f) (group_objects b)"
        by (simp add: c_def up_def r)
      have "pending (group_objects c) < pending (group_objects b)"
        unfolding g using r(2) by (intro pending_update [OF go]) (auto simp: go_set_comm_flag_def is_pending_def)
      with Suc.prems(2) have "pending (group_objects c) < fuel" by simp
      moreover have "dev_inv m sound c"
        using Suc.prems(1) by (auto simp: inv_defs c_def up_def r go_set_comm_flag_def intro!: store_ok_update)
      moreover have "transport c = transport b" "configured c = configured b"
        by (simp_all add: c_def up_def r configured_def)
      ultimately show ?thesis
        using Suc.IH [of c] by (simp add: e Inr c_def [symmetric] del: send_pending.simps split: sum.splits)
    qed
  qed
qed simp

lemma poll_spec:
  assumes "dev_inv m sound b"
  shows "case poll now b of Inl e \<Rightarrow> e = Panicked | Inr b' \<Rightarrow>
    dev_inv m sound b' \<and> actions (transport b') = [] \<and> (configured b' \<longrightarrow> next_pending (group_objects b') = None)"
proof -
  define c where "c = b\<lparr>now_ms := now, transport := tl_poll now (transport b)\<rparr>"
  have c: "dev_inv m sound c"
    using assms tl_inv_step [of "transport b" "EvPoll now"] by (simp add: c_def inv_defs)
  have e: "poll now b = bind_res (drain_transport_actions c) (\<lambda>b.
      if \<not> configured b then Inr b else send_pending (Suc (length (gs_objects (group_objects b)))) b)"
    by (simp add: poll_def c_def)
  show ?thesis
  proof (cases "drain_transport_actions c")
    case (Inl x)
    with drained_drain [of c] show ?thesis by (simp add: e drained_def)
  next
    case (Inr d)
    with drained_drain [of c] c have d: "dev_inv m sound d" "actions (transport d) = []"
      by (auto simp: drained_def kept_def)
    have "pending (group_objects d) < Suc (length (gs_objects (group_objects d)))"
      by (simp add: pending_def le_imp_less_Suc)
    from poll_loop [OF d(1) this] d show ?thesis
      by (auto simp: e Inr simp del: send_pending.simps split: sum.splits)
  qed
qed


section \<open>Frames\<close>

lemma tl_control_inv: "dev_inv m sound b \<Longrightarrow> dev_inv m sound (process_control_tpdu frame t now b)"
  using tl_inv_step [of "transport b" "EvConnectInd (source_address frame) now"]
    tl_inv_step [of "transport b" "EvDisconnectInd (source_address frame)"]
    tl_inv_step [of "transport b" "EvAck (source_address frame) q now" for q]
    tl_inv_step [of "transport b" "EvNack (source_address frame) q now" for q]
  by (cases t) (simp_all add: process_control_tpdu_def inv_defs Let_def)

lemma data_indication_inv: "dev_inv m sound b \<Longrightarrow> dev_inv m sound (b\<lparr>transport := data_connected_indication src q p d now (transport b)\<rparr>)"
  using tl_inv_step [of "transport b" "EvDataInd src q p d now"] by (simp add: inv_defs)

lemma good_inv: "dev_inv m sound b \<Longrightarrow> good b r \<Longrightarrow> case r of Inl e \<Rightarrow> e = Panicked | Inr b' \<Rightarrow> dev_inv m sound b'"
  by (auto simp: good_def keeps_def split: sum.splits)

lemma data_tpdu_inv:
  assumes "dev_inv m sound b"
  shows "case process_data_tpdu frame t q a now b of Inl e \<Rightarrow> e = Panicked | Inr b' \<Rightarrow> dev_inv m sound b'"
proof (cases "t = DataConnected")
  case True
  with data_indication_inv [OF assms] show ?thesis by (simp add: process_data_tpdu_def)
next
  case False
  then have "good b (process_data_tpdu frame t q a now b)"
    by (auto simp: process_data_tpdu_def Let_def split: sum.split intro!: keeps_intros good_dispatch)
  from good_inv [OF assms this] show ?thesis .
qed

lemma confirm_loop_inv: "dev_inv m sound b \<Longrightarrow> dev_inv m sound (confirm_loop ga ok k n b) \<and>
    transport (confirm_loop ga ok k n b) = transport b"
  by (induction n arbitrary: k)
    (auto simp: inv_defs transmit_done_def intro!: store_ok_update)

lemma drained_bau: "bau_inv b \<Longrightarrow> case drain_transport_actions b of Inl e \<Rightarrow> e = Panicked | Inr b' \<Rightarrow>
    bau_inv b' \<and> actions (transport b') = []"
  using drained_drain [of b] by (auto simp: drained_def kept_def split: sum.splits)

lemma drained_inv: "dev_inv m sound b \<Longrightarrow> case drain_transport_actions b of Inl e \<Rightarrow> e = Panicked | Inr b' \<Rightarrow>
    dev_inv m sound b' \<and> actions (transport b') = []"
  using drained_drain [of b] by (auto simp: drained_def kept_def split: sum.splits)

lemma process_frame_spec:
  assumes "dev_inv m sound b" and "actions (transport b) = []"
  shows "case process_frame frame now b of Inl e \<Rightarrow> e = Panicked | Inr b' \<Rightarrow>
    dev_inv m sound b' \<and> actions (transport b') = []"
proof -
  define c where "c = b\<lparr>now_ms := now\<rparr>"
  have c: "dev_inv m sound c" "actions (transport c) = []"
    using assms by (simp_all add: c_def inv_defs)
  have confirm: "dev_inv m sound (handle_transmit_confirmation frame c)"
      "transport (handle_transmit_confirmation frame c) = transport c"
    using confirm_loop_inv [OF c(1)] c(1) by (simp_all add: handle_transmit_confirmation_def Let_def)
  show ?thesis
  proof (cases "cemi_tpdu frame")
    case (Some t)
    show ?thesis
    proof (cases t)
      case (TData ty q a)
      show ?thesis
      proof (cases "process_data_tpdu frame ty q a now c")
        case (Inr d)
        with data_tpdu_inv [OF c(1), of frame ty q a now] have "dev_inv m sound d" by simp
        from drained_inv [OF this] Some TData Inr c confirm show ?thesis
          by (simp add: process_frame_def c_def [symmetric])
      qed (use data_tpdu_inv [OF c(1), of frame ty q a now] Some TData c confirm in
        \<open>simp add: process_frame_def c_def [symmetric]\<close>)
    qed (use drained_inv [OF tl_control_inv [OF c(1)]] Some c confirm in
      \<open>simp add: process_frame_def c_def [symmetric]\<close>)
  qed (use c confirm in \<open>simp add: process_frame_def c_def [symmetric]\<close>)
qed

end
