(* ===== verification/Bau_Group.thy ===== *)
theory Bau_Group
  imports Bau_Run
begin

text \<open>
  Group communication of a device, end to end: what a received group value changes, which
  frames a poll sends for the pending group objects, and how a confirmation is booked.
\<close>

section \<open>Reception\<close>

lemma value_from_bus_twice [simp]:
  "fst (value_from_bus data (fst (value_from_bus data go))) = fst (value_from_bus data go)"
  by (simp add: value_from_bus_def Let_def copy_prefix_def buf_write_def)

definition bus_accepts :: "(GroupObjectDescriptor \<Rightarrow> bool) \<Rightarrow> u16 \<Rightarrow> Bau \<Rightarrow> bool" where
  "bus_accepts flag asap b \<longleftrightarrow> (case get_descriptor asap (group_object_table b) of
     None \<Rightarrow> True | Some d \<Rightarrow> communication_enable d \<and> flag d)"

lemma bus_update_alt: "bus_update flag data asap b =
    (if bus_accepts flag asap b
     then b\<lparr>group_objects := store_update asap (\<lambda>go. fst (value_from_bus data go)) (group_objects b)\<rparr> else b)"
  by (auto simp: bus_update_def bus_accepts_def split: option.split)

lemma bus_updates:
  "store_get k (group_objects (fold (bus_update flag data) asaps b)) =
     (if k \<in> set asaps \<and> bus_accepts flag k b
      then map_option (\<lambda>go. fst (value_from_bus data go)) (store_get k (group_objects b))
      else store_get k (group_objects b)) \<and>
   (fold (bus_update flag data) asaps b)\<lparr>group_objects := g\<rparr> = b\<lparr>group_objects := g\<rparr>"
proof (induction asaps arbitrary: b)
  case (Cons a asaps)
  have "bus_accepts flag k (bus_update flag data a b) = bus_accepts flag k b"
    by (simp add: bus_update_alt bus_accepts_def)
  with Cons [of "bus_update flag data a b"] show ?case
    by (auto simp: bus_update_alt store_get_update option.map_comp comp_def)
qed simp

lemma group_tpdu_scope: "cemi_tpdu frame = Some (TData DataGroup q a) \<Longrightarrow>
    cemi_address_type frame = AddrGroup \<and> destination_address_raw frame \<noteq> 0"
  by (auto simp: cemi_tpdu_def tpdu_parse_def Let_def result_simps split: if_splits)

lemma drain_idle: "actions (transport b) = [] \<Longrightarrow> drain_transport_actions b = Inr b"
  unfolding drain_transport_actions_def numeral_3_eq_3 by (rule drain_empty)

text \<open>The descriptor flag that admits a value: W for a write, A for a response.\<close>

definition admits :: "ApduType \<Rightarrow> GroupObjectDescriptor \<Rightarrow> bool" where
  "admits t = (if t = GroupValueWrite then write_enable else update_enable)"

lemma group_telegram_effect:
  assumes "message_code_raw frame \<noteq> message_code_u8 LDataCon"
    and "cemi_tpdu frame = Some (TData DataGroup q a)"
    and "apdu_type a \<in> {GroupValueWrite, GroupValueResponse}"
    and "at_get_tsap (destination_address_raw frame) (address_table b) = Some tsap"
    and "actions (transport b) = []"
  shows "\<exists>b'. process_frame frame now b = Inr b' \<and>
    (\<forall>k. store_get k (group_objects b') =
      (if k \<in> set (asaps_for_tsap tsap (association_table b)) \<and> bus_accepts (admits (apdu_type a)) k b
       then map_option (\<lambda>go. go\<lparr>go_data := copy_prefix (apdu_data a) (go_data go), go_comm_flag := CfUpdated\<rparr>)
              (store_get k (group_objects b))
       else store_get k (group_objects b))) \<and>
    b'\<lparr>group_objects := group_objects b\<rparr> = b\<lparr>now_ms := now\<rparr>"
proof -
  define c where "c = b\<lparr>now_ms := now\<rparr>"
  define b' where "b' = fold (bus_update (admits (apdu_type a)) (apdu_data a)) (asaps_for_tsap tsap (association_table b)) c"
  note scope = group_tpdu_scope [OF assms(2)]
  have "process_data_tpdu frame DataGroup q a now c = Inr b'"
    using assms(3,4) scope
    by (auto simp: process_data_tpdu_def parse_indication_def parse_group_value_write_def
        parse_group_value_response_def indication_in_scope_def required_scope_def dispatch_indication_def
        dispatch_group_services_def handle_group_value_write_def handle_group_value_response_def
        update_group_object_from_bus_def admits_def b'_def c_def)
  moreover have same: "b'\<lparr>group_objects := g\<rparr> = c\<lparr>group_objects := g\<rparr>" for g
    unfolding b'_def by (rule bus_updates [THEN conjunct2])
  then have "transport b' = transport c"
    by (metis Bau.select_convs(10) Bau.surjective Bau.update_convs(9))
  with assms(5) have "drain_transport_actions b' = Inr b'"
    by (intro drain_idle) (simp add: c_def)
  ultimately have "process_frame frame now b = Inr b'"
    using assms(1,2) by (simp add: process_frame_def c_def [symmetric])
  moreover have "bus_accepts f k c = bus_accepts f k b" "group_objects c = group_objects b" for f k
    by (simp_all add: bus_accepts_def c_def)
  moreover have "store_get k (group_objects b') =
      (if k \<in> set (asaps_for_tsap tsap (association_table b)) \<and> bus_accepts (admits (apdu_type a)) k c
       then map_option (\<lambda>go. fst (value_from_bus (apdu_data a) go)) (store_get k (group_objects c))
       else store_get k (group_objects c))" for k
    unfolding b'_def by (rule bus_updates [THEN conjunct1])
  ultimately show ?thesis
    using same [of "group_objects b"] by (auto simp: value_from_bus_def c_def)
qed

text \<open>
  C3: A group value telegram, write or response, for a group address in
  the address table sets exactly the group objects associated with that address whose
  descriptor, if there is one, enables communication and this service. Each of them takes the octets and becomes
  Updated; every other object and the rest of the device's state stay as they are.
\<close>
theorem group_value_received:
  assumes "message_code_raw frame \<noteq> message_code_u8 LDataCon"
    and "cemi_tpdu frame = Some (TData DataGroup q a)"
    and "apdu_type a \<in> {GroupValueWrite, GroupValueResponse}"
    and "at_get_tsap (destination_address_raw frame) (address_table b) = Some tsap"
    and "actions (transport b) = []"
  shows "\<exists>b'. process_frame frame now b = Inr b' \<and>
    (\<forall>k. store_get k (group_objects b') =
      (if k \<in> set (asaps_for_tsap tsap (association_table b)) \<and> bus_accepts (admits (apdu_type a)) k b
       then map_option (\<lambda>go. go\<lparr>go_data := copy_prefix (apdu_data a) (go_data go), go_comm_flag := CfUpdated\<rparr>)
              (store_get k (group_objects b))
       else store_get k (group_objects b))) \<and>
    b'\<lparr>group_objects := group_objects b\<rparr> = b\<lparr>now_ms := now\<rparr>"
  by (rule group_telegram_effect [OF assms])

section \<open>A sample device and telegram\<close>

text \<open>A switch telegram from 1.1.1 to 1/0/1, and a device with that address bound to its first object.\<close>

definition sample_frame :: CemiFrame where
  "sample_frame = \<lparr>frame_data = [0x29, 0, 0xBC, 0xE0, 0x11, 0x01, 0x08, 0x01, 0x01, 0x00, 0x81], ctrl_offset = 2\<rparr>"

definition sample_bau :: Bau where
  "sample_bau = (bau_new (new_device_object [0, 0, 0, 0, 0, 1] [0, 0, 0, 0, 0, 0]) 2 1)
     \<lparr>address_table := at_load (table_image [0x0801]), association_table := as_load (assoc_image [(1, 1)])\<rparr>"

lemma sample_frame_fields [simp]:
  "message_code_raw sample_frame = 0x29" "destination_address_raw sample_frame = 0x0801"
  "cemi_tpdu sample_frame = Some (TData DataGroup 0 \<lparr>apdu_type = GroupValueWrite, apdu_data = [1]\<rparr>)"
  by (simp_all add: sample_frame_def message_code_raw_def destination_address_raw_def cemi_tpdu_def
      cemi_payload_def npdu_length_def cemi_address_type_def dec_address_type_def ctrl2_def tpdu_parse_def
      apdu_parse_def decode_apci_def be16_def normalize_apci_def apci_masks is_short_apci_def Let_def
      match_apdu_type_def frame_offsets address_type_try_from_def unwrap_or_def control_masks)

lemma be16_zero: "be16 0 w = ucast w"
  by (simp add: be16_def)

lemma single_address: "at_get_tsap ga (at_load (table_image [ga])) = Some 1"
proof -
  have "at_entry_count (at_load (table_image [ga])) = 1" "get_group_address 1 (at_load (table_image [ga])) = Some ga"
    by (simp_all add: at_entry_count_def get_group_address_def at_load_def table_image_def to_be16_def be16_zero)
  then show ?thesis by (simp add: at_get_tsap_def)
qed

lemma sample_bau_fields [simp]:
  "at_get_tsap 0x0801 (address_table sample_bau) = Some 1"
  "asaps_for_tsap 1 (association_table sample_bau) = [1]"
  "actions (transport sample_bau) = []" "group_object_table sample_bau = group_object_table_new"
  "store_get 1 (group_objects sample_bau) = Some (go_new 1 1)"
  by (simp_all add: sample_bau_def asaps_image single_address bau_new_def install_io_list_def Let_def tl_new_def
      store_new_def store_get_def)

lemma no_descriptor [simp]: "get_descriptor k group_object_table_new = None"
  by (simp add: get_descriptor_def group_object_table_new_def got_entry_count_def)

theorem group_value_received_witness:
  "\<exists>b'. process_frame sample_frame 0 sample_bau = Inr b' \<and>
     store_get 1 (group_objects b') = Some \<lparr>go_asap = 1, go_comm_flag = CfUpdated, go_data = [1],
       go_dpt = None, go_on_update = False\<rparr>"
  using group_value_received [where frame = sample_frame and b = sample_bau and now = 0 and tsap = 1]
  by (auto simp: bus_accepts_def go_new_def copy_prefix_def buf_write_def)

section \<open>Transmission\<close>

text \<open>What a pending object asks for: the group address and the payload, if both exist.\<close>

definition request_payload :: "GroupObject \<Rightarrow> u8 list option" where
  "request_payload go =
     (if go_comm_flag go = CfWriteRequest
      then (case encode_group_value_write_for_dpt (go_dpt go) (go_data go) of Inl _ \<Rightarrow> None | Inr p \<Rightarrow> Some p)
      else Some encode_group_value_read)"

definition request_of :: "Bau \<Rightarrow> GroupObject \<Rightarrow> (u16 \<times> u8 list) option" where
  "request_of b go = Option.bind (resolve_group_address (go_asap go) b)
     (\<lambda>ga. map_option (Pair ga) (request_payload go))"

definition served :: "Bau \<Rightarrow> GroupObject \<Rightarrow> GroupObject" where
  "served b go = (if is_pending go
     then go_set_comm_flag (if request_of b go = None then CfError else CfTransmitting) go else go)"

definition request_frame :: "Bau \<Rightarrow> u16 \<times> u8 list \<Rightarrow> CemiFrame" where
  "request_frame b r = the (new_l_data LDataReq (bau_individual_address b)
     (DestGroup (GroupAddress (fst r))) Low (snd r))"

definition requests :: "Bau \<Rightarrow> (u16 \<times> u8 list) list" where
  "requests b = List.map_filter (request_of b) (filter is_pending (gs_objects (group_objects b)))"

definition after_sending :: "Bau \<Rightarrow> Bau" where
  "after_sending b = b\<lparr>group_objects := \<lparr>gs_objects = map (served b) (gs_objects (group_objects b))\<rparr>,
     outbox := outbox b @ map (request_frame b) (requests b)\<rparr>"

text \<open>No payload is too long for a frame.\<close>

definition sendable :: "Bau \<Rightarrow> bool" where
  "sendable b \<longleftrightarrow> (\<forall>r \<in> set (requests b). length (snd r) \<le> 256)"

lemma request_frame_Some:
  assumes "length pl \<le> 256"
  shows "new_l_data LDataReq (bau_individual_address b) (DestGroup (GroupAddress ga)) Low pl =
    Some (request_frame b (ga, pl))"
  using new_l_data_fields [where payload = pl and mc = LDataReq and src = "bau_individual_address b"
      and dst = "DestGroup (GroupAddress ga)" and p = Low] assms
  by (auto simp: request_frame_def split: sum.splits)

lemma queue_request: "length pl \<le> 256 \<Longrightarrow>
    queue_group_frame ga Low pl b = Inr (b\<lparr>outbox := outbox b @ [request_frame b (ga, pl)]\<rparr>)"
  by (simp add: queue_group_frame_def push_frame_def request_frame_Some)

lemma send_request_spec:
  assumes "store_get asap (group_objects b) = Some go" and "go_asap go = asap" and "is_pending go"
    and "\<And>r. request_of b go = Some r \<Longrightarrow> length (snd r) \<le> 256"
  shows "send_request asap (if go_comm_flag go = CfWriteRequest then Some (go_dpt go, go_data go) else None) b =
    Inr (case request_of b go of None \<Rightarrow> (b, CfError)
         | Some r \<Rightarrow> (b\<lparr>outbox := outbox b @ [request_frame b r]\<rparr>, CfTransmitting))"
proof (cases "resolve_group_address asap b")
  case None
  with assms(2) show ?thesis by (simp add: send_request_def request_of_def)
next
  case (Some ga)
  show ?thesis
  proof (cases "go_comm_flag go = CfWriteRequest")
    case True
    then show ?thesis
      using Some assms(2,4)
      by (cases "encode_group_value_write_for_dpt (go_dpt go) (go_data go)")
        (simp_all add: request_of_def request_payload_def send_request_def queue_group_value_write_def queue_request)
  next
    case False
    with Some assms(2,4) show ?thesis
      by (simp add: request_of_def request_payload_def send_request_def queue_group_value_read_def queue_request)
  qed
qed

lemma first_pending_split:
  assumes "store_ok s" and "next_pending s = Some asap"
  obtains pre go post where "gs_objects s = pre @ go # post" "list_all (\<lambda>g. \<not> is_pending g) pre"
    "is_pending go" "go_asap go = asap" "store_get asap s = Some go"
    "\<And>f. gs_objects (store_update asap f s) = pre @ f go # post"
proof -
  from assms(2) obtain go where f: "List.find is_pending (gs_objects s) = Some go" and a: "go_asap go = asap"
    by (auto simp: next_pending_def)
  then obtain i where i: "i < length (gs_objects s)" "gs_objects s ! i = go" "is_pending go"
      "\<forall>j < i. \<not> is_pending (gs_objects s ! j)"
    by (auto simp: find_Some_iff)
  with assms(1) a have n: "asap = of_nat (Suc i)" and "i < 65535"
    by (auto simp: store_ok_def)
  note idx = asap_index [OF \<open>i < 65535\<close>, folded n]
  show ?thesis
  proof
    show "gs_objects s = take i (gs_objects s) @ go # drop (Suc i) (gs_objects s)"
      using i id_take_nth_drop by metis
    show "list_all (\<lambda>g. \<not> is_pending g) (take i (gs_objects s))"
      using i by (auto simp: list_all_length)
    show "gs_objects (store_update asap f s) = take i (gs_objects s) @ f go # drop (Suc i) (gs_objects s)" for f
      using i idx by (simp add: store_update_def Let_def upd_conv_take_nth_drop)
    show "store_get asap s = Some go"
      using i idx by (simp add: store_get_def Let_def)
  qed (use i a in auto)
qed

lemma served_not_pending [simp]: "\<not> is_pending (served b go)"
  by (simp add: served_def go_set_comm_flag_def is_pending_def)

lemma served_idle: "\<not> is_pending go \<Longrightarrow> served b go = go"
  by (simp add: served_def)

lemma map_served_idle: "list_all (\<lambda>g. \<not> is_pending g) xs \<Longrightarrow> map (served b) xs = xs"
  by (induction xs) (simp_all add: served_idle)

lemma send_pending_spec:
  assumes "store_ok (group_objects b)" and "pending (group_objects b) < fuel" and "sendable b"
  shows "send_pending fuel b = Inr (after_sending b)"
  using assms
proof (induction fuel arbitrary: b)
  case (Suc fuel)
  show ?case
  proof (cases "next_pending (group_objects b)")
    case None
    then have n: "list_all (\<lambda>g. \<not> is_pending g) (gs_objects (group_objects b))"
      by (auto simp: next_pending_def find_None_iff list_all_iff)
    then have "filter is_pending (gs_objects (group_objects b)) = []"
      by (simp add: filter_empty_conv list_all_iff)
    with None n show ?thesis
      by (simp add: after_sending_def requests_def List.map_filter_def map_served_idle)
  next
    case (Some asap)
    from first_pending_split [OF Suc.prems(1) Some] obtain pre go post
      where s: "gs_objects (group_objects b) = pre @ go # post" "list_all (\<lambda>g. \<not> is_pending g) pre"
        "is_pending go" "go_asap go = asap" "store_get asap (group_objects b) = Some go"
        "\<And>f. gs_objects (store_update asap f (group_objects b)) = pre @ f go # post"
      by metis
    define r where "r = request_of b go"
    have idle: "filter is_pending pre = []"
      using s(2) by (simp add: filter_empty_conv list_all_iff)
    have rb: "requests b = (case r of None \<Rightarrow> [] | Some x \<Rightarrow> [x]) @ List.map_filter (request_of b) (filter is_pending post)"
      using s(3) idle by (simp add: requests_def s(1) r_def List.map_filter_def split: option.split)
    define c where "c = b\<lparr>outbox := outbox b @ (case r of None \<Rightarrow> [] | Some x \<Rightarrow> [request_frame b x]),
      group_objects := store_update asap (go_set_comm_flag (if r = None then CfError else CfTransmitting)) (group_objects b)\<rparr>"
    have objs: "gs_objects (group_objects c) = pre @ served b go # post"
      using s(3) by (simp add: c_def s(6) served_def r_def)
    have same: "request_of c = request_of b" "request_frame c = request_frame b" "served c = served b"
      by (simp_all add: fun_eq_iff request_of_def resolve_group_address_def request_frame_def
          bau_individual_address_def device_def served_def c_def)
    have rc: "requests c = List.map_filter (request_of b) (filter is_pending post)"
      using idle by (simp add: requests_def objs same)
    have step: "send_pending (Suc fuel) b = send_pending fuel c"
    proof -
      have "length (snd x) \<le> 256" if "request_of b go = Some x" for x
        using Suc.prems(3) that rb by (auto simp: sendable_def r_def)
      from send_request_spec [OF s(5,4,3) this] show ?thesis
        using Some s(3,5) by (auto simp: is_pending_def r_def c_def split: option.split)
    qed
    have "store_ok (group_objects c)"
      using Suc.prems(1) by (auto simp: c_def go_set_comm_flag_def intro!: store_ok_update)
    moreover have "pending (group_objects c) < fuel"
      using Suc.prems(2) s(3) by (simp add: pending_def objs s(1))
    moreover have "sendable c"
      using Suc.prems(3) by (auto simp: sendable_def rc rb split: option.splits)
    ultimately have "send_pending fuel c = Inr (after_sending c)"
      by (rule Suc.IH)
    moreover have "after_sending c = after_sending b"
      using s(2) by (auto simp: after_sending_def same rc rb objs s(1) served_idle map_served_idle, auto simp: c_def split: option.split)
    ultimately show ?thesis by (simp add: step del: send_pending.simps)
  qed
qed simp


text \<open>
  C4: Once the transport layer has been served, a poll of a device that is not
  fully loaded sends nothing. A poll of a loaded device serves every pending group object exactly once, in
  ASAP order: an object whose group address is known and whose value can be encoded gets one frame
  with low priority from the device's address and becomes Transmitting; any other pending object becomes
  Error; objects that were not pending do not change.
\<close>
theorem poll_transmits:
  assumes "bau_inv b"
    and "drain_transport_actions (b\<lparr>now_ms := now, transport := tl_poll now (transport b)\<rparr>) = Inr c"
    and "sendable c"
  shows "poll now b = Inr (if configured c then after_sending c else c) \<and>
    outbox (after_sending c) = outbox c @ map (request_frame c) (requests c) \<and>
    (\<forall>k. store_get k (group_objects (after_sending c)) = map_option (served c) (store_get k (group_objects c)))"
proof -
  have "bau_inv (b\<lparr>now_ms := now, transport := tl_poll now (transport b)\<rparr>)"
    using assms(1) tl_inv_step [of "transport b" "EvPoll now"] by (simp add: bau_inv_def)
  from drained_bau [OF this] assms(2) have "store_ok (group_objects c)"
    by (simp add: bau_inv_def)
  moreover have "pending (group_objects c) < Suc (length (gs_objects (group_objects c)))"
    by (simp add: pending_def le_imp_less_Suc)
  ultimately show ?thesis
    using send_pending_spec [of c] assms(2,3)
    by (auto simp: poll_def after_sending_def store_get_def Let_def simp del: send_pending.simps)
qed

definition sample_sender :: Bau where
  "sample_sender = sample_bau\<lparr>addr_table_object := table_new_loaded, assoc_table_object := table_new_loaded,
     app_program_object := table_new_loaded,
     group_objects := store_update 1 (write_value [1]) (group_objects sample_bau)\<rparr>"

lemma sample_sender_fields:
  "bau_inv sample_sender" "actions (transport sample_sender) = []" "configured sample_sender"
  "transport sample_sender = tl_new"
  "gs_objects (group_objects sample_sender) =
     [\<lparr>go_asap = 1, go_comm_flag = CfWriteRequest, go_data = [1], go_dpt = None, go_on_update = False\<rparr>, go_new 2 1]"
  "resolve_group_address 1 sample_sender = Some 0x0801"
proof -
  have inv: "bau_inv sample_bau" "transport sample_bau = tl_new"
    by (simp_all add: sample_bau_def bau_inv_def bau_new_def install_io_list_def store_ok_new tl_inv_new Let_def)
  show "bau_inv sample_sender"
    using inv(1) by (simp add: sample_sender_def bau_inv_def table_inv_new store_ok_update write_value_def)
  show "transport sample_sender = tl_new" "actions (transport sample_sender) = []"
    by (simp_all add: sample_sender_def inv(2) tl_new_def)
  show "configured sample_sender"
    by (simp add: sample_sender_def configured_def table_new_loaded_def sample_bau_def bau_new_def install_io_list_def Let_def)
  have u: "[0..<2] = [0, Suc 0]" by (simp add: upt_rec)
  show "gs_objects (group_objects sample_sender) =
     [\<lparr>go_asap = 1, go_comm_flag = CfWriteRequest, go_data = [1], go_dpt = None, go_on_update = False\<rparr>, go_new 2 1]"
    by (simp add: sample_sender_def sample_bau_def bau_new_def install_io_list_def Let_def store_new_def u
        store_update_def write_value_def go_new_def copy_prefix_def buf_write_def)
  have "get_group_address 1 (at_load (table_image [0x0801])) = Some 0x0801"
    using single_address [of "0x0801"] at_get_tsap_Some by blast
  moreover have "translate_asap 1 (as_load (assoc_image [(1, 1)])) = Some 1"
    by (simp add: translate_image)
  ultimately show "resolve_group_address 1 sample_sender = Some 0x0801"
    by (simp add: resolve_group_address_def sample_sender_def sample_bau_def)
qed

lemma sample_requests: "requests (sample_sender\<lparr>now_ms := now\<rparr>) = [(0x0801, [0x00, 0x81])]"
proof -
  have "resolve_group_address 1 (sample_sender\<lparr>now_ms := now\<rparr>) = Some 0x0801"
    using sample_sender_fields(6) by (simp add: resolve_group_address_def)
  then show ?thesis
    by (simp add: requests_def sample_sender_fields List.map_filter_def is_pending_def go_new_def request_of_def
        request_payload_def encode_group_value_write_for_dpt_def encode_group_value_for_dpt_def
        encode_group_value_write_def encode_group_value_def apci_bytes_def app_masks)
qed

theorem poll_transmits_witness:
  "\<exists>b' f. poll 0 sample_sender = Inr b' \<and> outbox b' = outbox sample_sender @ [f]"
proof -
  let ?c = "sample_sender\<lparr>now_ms := 0\<rparr>"
  have t: "tl_poll 0 tl_new = tl_new"
    by (simp add: tl_poll_def tl_new_def due_def)
  have d: "drain_transport_actions (sample_sender\<lparr>now_ms := 0, transport := tl_poll 0 (transport sample_sender)\<rparr>) = Inr ?c"
  proof -
    have "sample_sender\<lparr>now_ms := 0, transport := tl_poll 0 (transport sample_sender)\<rparr> = ?c"
      using sample_sender_fields(4) t by simp
    then show ?thesis using drain_idle [of ?c] sample_sender_fields(2) by simp
  qed
  have "sendable ?c" by (simp add: sendable_def sample_requests)
  from poll_transmits [OF sample_sender_fields(1) d this] sample_sender_fields(3) show ?thesis
    by (simp add: sample_requests configured_def)
qed

section \<open>Confirmation\<close>

definition awaits :: "u16 \<Rightarrow> Bau \<Rightarrow> GroupObject \<Rightarrow> bool" where
  "awaits ga b go \<longleftrightarrow> go_comm_flag go = CfTransmitting \<and> resolve_group_address (go_asap go) b = Some ga"

lemma confirm_loop_find:
  assumes "store_ok (group_objects b)" and "i + n = length (gs_objects (group_objects b))"
  shows "confirm_loop ga ok (Suc i) n b =
    (case List.find (awaits ga b) (drop i (gs_objects (group_objects b))) of
       None \<Rightarrow> b
     | Some go \<Rightarrow> b\<lparr>group_objects := store_update (go_asap go) (transmit_done ok) (group_objects b)\<rparr>)"
  using assms(2)
proof (induction n arbitrary: i)
  case (Suc n)
  let ?objs = "gs_objects (group_objects b)"
  from Suc.prems assms(1) have i: "i < length ?objs" "i < 65535"
    by (auto simp: store_ok_def)
  have d: "drop i ?objs = ?objs ! i # drop (Suc i) ?objs"
    using i(1) by (simp add: Cons_nth_drop_Suc)
  have a: "go_asap (?objs ! i) = of_nat (Suc i)"
    using assms(1) i(1) by (simp add: store_ok_def)
  have g: "store_get (of_nat (Suc i)) (group_objects b) = Some (?objs ! i)"
    using asap_index [OF i(2)] i(1) by (simp add: store_get_def Let_def del: of_nat_Suc)
  show ?case
    using Suc.IH [of "Suc i"] Suc.prems
    by (simp add: d g awaits_def a del: of_nat_Suc)
qed simp

text \<open>
  The confirmation of a group telegram is booked on one object only: the
  first one that is transmitting to that group address becomes Ok, or Error when the confirmation
  is negative. Nothing else changes, and no confirmation is ever taken for a new telegram.
\<close>
lemma confirmation_booked:
  assumes "store_ok (group_objects b)" and "message_code_raw frame = message_code_u8 LDataCon"
  shows "process_frame frame now b = Inr (
    case (if cemi_address_type frame = AddrGroup
          then List.find (awaits (destination_address_raw frame) b) (gs_objects (group_objects b)) else None) of
      None \<Rightarrow> b\<lparr>now_ms := now\<rparr>
    | Some go \<Rightarrow> b\<lparr>now_ms := now, group_objects := store_update (go_asap go)
        (go_set_comm_flag (if cemi_confirm frame = NoError then CfOk else CfError)) (group_objects b)\<rparr>)"
proof -
  define c where "c = b\<lparr>now_ms := now\<rparr>"
  have c: "group_objects c = group_objects b" "awaits ga c = awaits ga b" for ga
    by (simp_all add: c_def awaits_def resolve_group_address_def fun_eq_iff)
  have "unat (store_count (group_objects b)) = length (gs_objects (group_objects b))"
    using assms(1) by (simp add: store_count_def store_ok_def Let_def unat_of_nat)
  moreover have "transmit_done ok = go_set_comm_flag (if ok then CfOk else CfError)" for ok
    by (simp add: transmit_done_def go_set_comm_flag_def fun_eq_iff)
  ultimately show ?thesis
    using confirm_loop_find [of c 0 "length (gs_objects (group_objects b))"] assms
    by (simp add: process_frame_def handle_transmit_confirmation_def c c_def [symmetric] cong: option.case_cong)

qed

end
