(* ===== verification/Bau_Persistence.thy ===== *)
theory Bau_Persistence
  imports Bau_Group
begin

text \<open>
  Saving the state of a device and restoring it, as \<^verbatim>\<open>bau_persistence.rs\<close> does: three table objects of
  nine octets, the program version, and the memory area behind its length. The run-time tables
  are read again from the restored memory. \<open>restore_bau_state\<close> returns the device together with
  the error, because the code has already overwritten parts of the device when it reports one.
\<close>

section \<open>Saving and restoring\<close>

definition PROGRAM_VERSION_SIZE :: nat where "PROGRAM_VERSION_SIZE = 5"
definition MEMORY_LENGTH_SIZE :: nat where "MEMORY_LENGTH_SIZE = 4"
definition TABLE_OBJECT_COUNT :: nat where "TABLE_OBJECT_COUNT = 3"
definition HEADER_SIZE :: nat where
  "HEADER_SIZE = SAVE_SIZE * TABLE_OBJECT_COUNT + PROGRAM_VERSION_SIZE + MEMORY_LENGTH_SIZE"

datatype PersistenceError = TruncatedData | InvalidTableObject | MemoryTooLarge

definition save_bau_state :: "Bau \<Rightarrow> u8 list" where
  "save_bau_state b =
     (let memory = memory_area b;
          buf = table_save (addr_table_object b) [];
          buf = table_save (assoc_table_object b) buf;
          buf = table_save (app_program_object b) buf;
          ver = (case object_at OBJ_APP_PROGRAM b of
                   Some obj \<Rightarrow> fst (read_property PidProgramVersion 1 1 [] obj) | None \<Rightarrow> []);
          ver = vec_resize PROGRAM_VERSION_SIZE 0 ver;
          buf = buf @ ver;
          mem_len = (if length memory < 2 ^ 32 then of_nat (length memory) else 0xFFFFFFFF :: u32)
      in buf @ to_le32 mem_len @ memory)"

definition restore_program_version :: "u8 list \<Rightarrow> Bau \<Rightarrow> Bau" where
  "restore_program_version version b =
     (case object_at OBJ_APP_PROGRAM b of
        Some obj \<Rightarrow> b\<lparr>objects := (objects b)[unat OBJ_APP_PROGRAM :=
            fst (write_property PidProgramVersion 1 1 version obj)]\<rparr>
      | None \<Rightarrow> b)"

definition reload_saved_tables :: "Bau \<Rightarrow> Bau" where
  "reload_saved_tables b =
     (let addr_data = table_data (memory_area b) (addr_table_object b);
          b = (if addr_data \<noteq> [] then b\<lparr>address_table := at_load addr_data\<rparr> else b);
          assoc_data = table_data (memory_area b) (assoc_table_object b)
      in if assoc_data \<noteq> [] then b\<lparr>association_table := as_load assoc_data\<rparr> else b)"

definition restore_memory :: "u8 list \<Rightarrow> nat \<Rightarrow> Bau \<Rightarrow> Bau \<times> PersistenceError option" where
  "restore_memory data offset b =
     (if offset + PROGRAM_VERSION_SIZE > length data then (b, Some TruncatedData)
      else let b = restore_program_version (buf_slice offset (offset + PROGRAM_VERSION_SIZE) data) b;
               offset = offset + PROGRAM_VERSION_SIZE
        in if offset + MEMORY_LENGTH_SIZE > length data then (b, Some TruncatedData)
        else let mem_len = unat (le32 (data ! offset) (data ! (offset + 1)) (data ! (offset + 2)) (data ! (offset + 3)));
                 offset = offset + MEMORY_LENGTH_SIZE
          in if length data < offset + mem_len then (b, Some MemoryTooLarge)
          else (reload_saved_tables (b\<lparr>memory_area := buf_slice offset (offset + mem_len) data\<rparr>), None))"

definition restore_bau_state :: "u8 list \<Rightarrow> Bau \<Rightarrow> Bau \<times> PersistenceError option" where
  "restore_bau_state data b =
     (if length data < HEADER_SIZE then (b, Some TruncatedData)
      else let (t, n) = table_restore data (addr_table_object b);
               b = b\<lparr>addr_table_object := t\<rparr>
        in if n = 0 then (b, Some InvalidTableObject)
        else let offset = n;
                 (t, n) = table_restore (drop offset data) (assoc_table_object b);
                 b = b\<lparr>assoc_table_object := t\<rparr>
          in if n = 0 then (b, Some InvalidTableObject)
          else let offset = offset + n;
                   (t, n) = table_restore (drop offset data) (app_program_object b);
                   b = b\<lparr>app_program_object := t\<rparr>
            in if n = 0 then (b, Some InvalidTableObject)
            else restore_memory data (offset + n) b)"

lemmas persist_sizes = HEADER_SIZE_def SAVE_SIZE_def TABLE_OBJECT_COUNT_def PROGRAM_VERSION_SIZE_def
  MEMORY_LENGTH_SIZE_def

section \<open>What is refused\<close>

text \<open>The length of the memory area that the octets declare.\<close>

definition declared_length :: "u8 list \<Rightarrow> nat" where
  "declared_length data = unat (le32 (data ! 32) (data ! 33) (data ! 34) (data ! 35))"

definition restored_tables :: "u8 list \<Rightarrow> Bau \<Rightarrow> Bau" where
  "restored_tables data b = b\<lparr>
     addr_table_object := fst (table_restore data (addr_table_object b)),
     assoc_table_object := fst (table_restore (drop 9 data) (assoc_table_object b)),
     app_program_object := fst (table_restore (drop 18 data) (app_program_object b))\<rparr>"

lemma table_restore_size: "snd (table_restore data t) = (if length data < SAVE_SIZE then 0 else SAVE_SIZE)"
  by (simp add: table_restore_def Let_def)

lemma restore_spec: "restore_bau_state data b =
   (if length data < HEADER_SIZE then (b, Some TruncatedData)
    else let b' = restore_program_version (buf_slice 27 32 data) (restored_tables data b)
      in if length data < HEADER_SIZE + declared_length data then (b', Some MemoryTooLarge)
      else (reload_saved_tables (b'\<lparr>memory_area := buf_slice HEADER_SIZE (HEADER_SIZE + declared_length data) data\<rparr>), None))"
proof (cases "length data < 36")
  case False
  then have "snd (table_restore data (addr_table_object b)) = 9"
    "snd (table_restore (drop 9 data) (assoc_table_object b)) = 9"
    "snd (table_restore (drop 18 data) (app_program_object b)) = 9"
    by (simp_all add: table_restore_size SAVE_SIZE_def)
  with False show ?thesis
    by (simp add: restore_bau_state_def restore_memory_def restored_tables_def persist_sizes declared_length_def
        Let_def split_beta)
qed (simp add: restore_bau_state_def persist_sizes)

text \<open>
  C29: Restoring refuses octets shorter than the fixed header, leaving the device as it is, and
  octets whose declared memory is longer than what follows; the error for an invalid table object
  is never reported. When the declared memory is too long the three table objects and the program
  version have already been replaced, while memory and run-time tables are the old ones. On
  success the memory is exactly the declared octets and no loaded table reaches outside the
  largest memory.
\<close>
theorem restore_outcome:
  assumes "restore_bau_state data b = (b', e)"
  shows "(e = Some TruncatedData \<longleftrightarrow> length data < 36) \<and>
    (e = Some MemoryTooLarge \<longleftrightarrow> 36 \<le> length data \<and> length data < 36 + declared_length data) \<and>
    e \<noteq> Some InvalidTableObject \<and>
    (e = Some TruncatedData \<longrightarrow> b' = b) \<and>
    (e = Some MemoryTooLarge \<longrightarrow> b' = restore_program_version (buf_slice 27 32 data) (restored_tables data b) \<and>
       memory_area b' = memory_area b \<and> address_table b' = address_table b \<and> association_table b' = association_table b) \<and>
    (e = None \<longrightarrow> memory_area b' = buf_slice 36 (36 + declared_length data) data \<and>
       (\<forall>t \<in> {addr_table_object b', assoc_table_object b', app_program_object b'}. to_state t = Loaded \<longrightarrow> fits t))"
proof -
  have f: "fst (restore_bau_state data b) = b'" "snd (restore_bau_state data b) = e"
    by (simp_all add: assms)
  have tabs: "to_state t = Loaded \<longrightarrow> fits t"
    if "36 \<le> length data" "t \<in> {addr_table_object c, assoc_table_object c, app_program_object c}" "c = restored_tables data b" for t c
    using that restore_fits by (auto simp: restored_tables_def SAVE_SIZE_def)
  have v: "memory_area (restore_program_version v c) = memory_area c"
    "address_table (restore_program_version v c) = address_table c"
    "association_table (restore_program_version v c) = association_table c"
    "addr_table_object (restore_program_version v c) = addr_table_object c"
    "assoc_table_object (restore_program_version v c) = assoc_table_object c"
    "app_program_object (restore_program_version v c) = app_program_object c" for v c
    by (simp_all add: restore_program_version_def split: option.split)
  have m: "memory_area (restored_tables data b) = memory_area b"
    "address_table (restored_tables data b) = address_table b"
    "association_table (restored_tables data b) = association_table b"
    by (simp_all add: restored_tables_def)
  have r: "memory_area (reload_saved_tables c) = memory_area c"
    "addr_table_object (reload_saved_tables c) = addr_table_object c"
    "assoc_table_object (reload_saved_tables c) = assoc_table_object c"
    "app_program_object (reload_saved_tables c) = app_program_object c" for c
    by (simp_all add: reload_saved_tables_def Let_def)
  have h: "HEADER_SIZE = 36" by (simp add: persist_sizes)
  show ?thesis
    using f tabs unfolding restore_spec h
    by (auto simp: Let_def v m r split: if_splits)
qed

section \<open>Round trip\<close>

text \<open>The application program object holds the program version in a writable property of five octets.\<close>

definition holds_version :: "u8 list \<Rightarrow> InterfaceObject \<Rightarrow> bool" where
  "holds_version v obj \<longleftrightarrow> length v = 5 \<and> (case io_property PidProgramVersion obj of None \<Rightarrow> False | Some p \<Rightarrow>
     p_write_enable p \<and> (case p_storage p of StCallback _ _ \<Rightarrow> False | StData d \<Rightarrow>
       dp_write_enable d \<and> pdt_size (dp_data_type d) = 5 \<and> dp_max_elements d = 1 \<and> dp_data d = v))"

definition program_version :: "u8 list \<Rightarrow> Bau \<Rightarrow> bool" where
  "program_version v b \<longleftrightarrow> (case object_at OBJ_APP_PROGRAM b of Some obj \<Rightarrow> holds_version v obj | None \<Rightarrow> False)"

lemma holds_version_new: "holds_version (replicate 5 0) new_application_program_object"
  by (simp add: holds_version_def new_application_program_object_def Let_def io_property_add io_new_def property_data_def
      dp_constructors io_property_empty)

lemma holds_version_read: "holds_version v obj \<Longrightarrow> read_property PidProgramVersion 1 1 [] obj = (v, 1)"
  by (auto simp: holds_version_def read_property_def p_read_def dp_read_def dp_element_size_def buf_slice_def
      split: option.splits PropertyStorage.splits)

lemma holds_version_write:
  "holds_version v obj \<Longrightarrow> length w = 5 \<Longrightarrow> holds_version w (fst (write_property PidProgramVersion 1 1 w obj))"
  by (auto simp: holds_version_def io_property_write p_write_def dp_write_def dp_element_size_def buf_slice_def
      buf_write_def split: option.splits PropertyStorage.splits)

lemma program_version_restore:
  "program_version v b \<Longrightarrow> length w = 5 \<Longrightarrow> program_version w (restore_program_version w b)"
  by (auto simp: program_version_def restore_program_version_def object_at_def holds_version_write
      split: option.splits if_splits)

lemma save_state_octets:
  assumes "program_version v b" and "length (memory_area b) < 2 ^ 32"
  shows "save_bau_state b = table_save (addr_table_object b) [] @ table_save (assoc_table_object b) [] @
    table_save (app_program_object b) [] @ v @ to_le32 (of_nat (length (memory_area b))) @ memory_area b"
proof -
  have "vec_resize 5 0 xs = xs" if "length xs = 5" for xs :: "u8 list"
    using vec_resize_id [of xs] that by simp
  then have "vec_resize PROGRAM_VERSION_SIZE 0 (case object_at OBJ_APP_PROGRAM b of
      Some obj \<Rightarrow> fst (read_property PidProgramVersion 1 1 [] obj) | None \<Rightarrow> []) = v"
    using assms(1) by (auto simp: program_version_def holds_version_read holds_version_def PROGRAM_VERSION_SIZE_def
        split: option.splits)
  with assms(2) show ?thesis
    using table_save_append [of "assoc_table_object b" "table_save (addr_table_object b) []"]
      table_save_append [of "app_program_object b" "table_save (addr_table_object b) [] @ table_save (assoc_table_object b) []"]
    by (simp add: save_bau_state_def Let_def)
qed

lemma table_save_error: "table_save (t\<lparr>to_error := e\<rparr>) [] = table_save t []"
  by (simp add: table_save_def)

lemma table_data_error: "table_data mem (t\<lparr>to_error := e\<rparr>) = table_data mem t"
  by (simp add: table_data_def)

lemma le32_word: "le32 (to_le32 w ! 0) (to_le32 w ! 1) (to_le32 w ! 2) (to_le32 w ! 3) = w"
  by (simp add: to_le32_eq)

lemma saved_parts:
  assumes "\<forall>t \<in> {addr_table_object b, assoc_table_object b, app_program_object b}. to_state t = Loaded \<longrightarrow> fits t"
    and "length v = 5" and "mem = memory_area b"
  defines "data \<equiv> table_save (addr_table_object b) [] @ table_save (assoc_table_object b) [] @
    table_save (app_program_object b) [] @ v @ to_le32 (of_nat (length mem)) @ mem"
  shows "restored_tables data b0 = b0\<lparr>addr_table_object := (addr_table_object b)\<lparr>to_error := NoFault\<rparr>,
      assoc_table_object := (assoc_table_object b)\<lparr>to_error := NoFault\<rparr>,
      app_program_object := (app_program_object b)\<lparr>to_error := NoFault\<rparr>\<rparr>"
    "buf_slice 27 32 data = v" "length data = 36 + length mem"
    "length mem < 2 ^ 32 \<Longrightarrow> declared_length data = length mem"
    "drop 36 data = mem"
proof -
  have l: "length (table_save t []) = 9" for t by (simp add: SAVE_SIZE_def)
  have d: "drop 9 data = table_save (assoc_table_object b) [] @ table_save (app_program_object b) [] @ v @ to_le32 (of_nat (length mem)) @ mem"
    "drop 18 data = table_save (app_program_object b) [] @ v @ to_le32 (of_nat (length mem)) @ mem"
    "drop 27 data = v @ to_le32 (of_nat (length mem)) @ mem"
    "drop 32 data = to_le32 (of_nat (length mem)) @ mem" "drop 36 data = mem"
    using assms(2) by (simp_all add: data_def l del: length_table_save)
  show "drop 36 data = mem" by (rule d)
  show "restored_tables data b0 = b0\<lparr>addr_table_object := (addr_table_object b)\<lparr>to_error := NoFault\<rparr>,
      assoc_table_object := (assoc_table_object b)\<lparr>to_error := NoFault\<rparr>,
      app_program_object := (app_program_object b)\<lparr>to_error := NoFault\<rparr>\<rparr>"
    using assms(1) unfolding restored_tables_def d(1,2) by (simp add: data_def restore_save)
  show "buf_slice 27 32 data = v"
    using assms(2) by (simp add: buf_slice_def d(3))
  show len: "length data = 36 + length mem"
    using assms(2) by (simp add: data_def l del: length_table_save)
  have n: "data ! (32 + k) = to_le32 (of_nat (length mem)) ! k" if "k < 4" for k
  proof -
    have "data ! (32 + k) = drop 32 data ! k" using len by (simp add: nth_drop)
    with d(4) that show ?thesis by (simp add: nth_append)
  qed
  show "declared_length data = length mem" if "length mem < 2 ^ 32"
    using n [of 0] n [of 1] n [of 2] n [of 3] that le32_word [of "of_nat (length mem)"]
    by (simp add: declared_length_def unat_of_nat)
qed

text \<open>
  A device runs from its memory when its run-time tables are what its loaded table objects point at.
\<close>

definition runs_from_memory :: "Bau \<Rightarrow> bool" where
  "runs_from_memory b \<longleftrightarrow> (let d = table_data (memory_area b) (addr_table_object b) in d \<noteq> [] \<longrightarrow> address_table b = at_load d) \<and>
     (let d = table_data (memory_area b) (assoc_table_object b) in d \<noteq> [] \<longrightarrow> association_table b = as_load d)"

text \<open>
  C7: What a device saved, another device with the same program version property restores without
  error. It then has the saved memory, the saved table objects with their errors cleared and the saved
  program version. Its run-time tables are read from the saved memory: where the saved device ran from
  its memory they are those of the saved device, and a table without data keeps what the restoring
  device had before. It runs from its memory and saves the same octets again; group objects,
  connections and the other interface objects are its own.
\<close>
theorem save_restore_device:
  assumes "program_version v b" and "program_version w b0" and "length (memory_area b) < 2 ^ 32"
    and "\<forall>t \<in> {addr_table_object b, assoc_table_object b, app_program_object b}. to_state t = Loaded \<longrightarrow> fits t"
  shows "\<exists>b'. restore_bau_state (save_bau_state b) b0 = (b', None) \<and> memory_area b' = memory_area b \<and>
    addr_table_object b' = (addr_table_object b)\<lparr>to_error := NoFault\<rparr> \<and>
    assoc_table_object b' = (assoc_table_object b)\<lparr>to_error := NoFault\<rparr> \<and>
    app_program_object b' = (app_program_object b)\<lparr>to_error := NoFault\<rparr> \<and> program_version v b' \<and>
    address_table b' = (let d = table_data (memory_area b) (addr_table_object b) in if d = [] then address_table b0 else at_load d) \<and>
    association_table b' = (let d = table_data (memory_area b) (assoc_table_object b) in if d = [] then association_table b0 else as_load d) \<and>
    runs_from_memory b' \<and>
    (runs_from_memory b \<longrightarrow>
       address_table b' = (if table_data (memory_area b) (addr_table_object b) = [] then address_table b0 else address_table b) \<and>
       association_table b' = (if table_data (memory_area b) (assoc_table_object b) = [] then association_table b0 else association_table b)) \<and>
    save_bau_state b' = save_bau_state b \<and>
    group_objects b' = group_objects b0 \<and> transport b' = transport b0 \<and>
    (\<forall>i. i \<noteq> 4 \<longrightarrow> objects b' ! i = objects b0 ! i)"
proof -
  have v: "length v = 5"
    using assms(1) by (auto simp: program_version_def holds_version_def split: option.splits)
  note parts = saved_parts(1) [OF assms(4) v refl, of b0] saved_parts(2-) [OF assms(4) v refl]
  have h: "HEADER_SIZE = 36" by (simp add: persist_sizes)
  define c where "c = restore_program_version v (b0\<lparr>addr_table_object := (addr_table_object b)\<lparr>to_error := NoFault\<rparr>,
      assoc_table_object := (assoc_table_object b)\<lparr>to_error := NoFault\<rparr>,
      app_program_object := (app_program_object b)\<lparr>to_error := NoFault\<rparr>\<rparr>)"
  define b' where "b' = reload_saved_tables (c\<lparr>memory_area := memory_area b\<rparr>)"
  have r: "restore_bau_state (save_bau_state b) b0 = (b', None)"
    using parts assms(3) unfolding save_state_octets [OF assms(1,3)] restore_spec h
    by (simp add: Let_def buf_slice_def c_def b'_def)
  have "program_version w (b0\<lparr>addr_table_object := t1, assoc_table_object := t2, app_program_object := t3\<rparr>)" for t1 t2 t3
    using assms(2) by (simp add: program_version_def object_at_def split: if_splits)
  from program_version_restore [OF this v] have pc: "program_version v c" by (simp add: c_def)
  then have p: "program_version v b'"
    by (simp add: b'_def reload_saved_tables_def Let_def program_version_def object_at_def split: if_splits)
  have f: "memory_area b' = memory_area b" "addr_table_object b' = (addr_table_object b)\<lparr>to_error := NoFault\<rparr>"
    "assoc_table_object b' = (assoc_table_object b)\<lparr>to_error := NoFault\<rparr>"
    "app_program_object b' = (app_program_object b)\<lparr>to_error := NoFault\<rparr>"
    "group_objects b' = group_objects b0" "transport b' = transport b0"
    "\<forall>i. i \<noteq> 4 \<longrightarrow> objects b' ! i = objects b0 ! i"
    "address_table b' = (let d = table_data (memory_area b) (addr_table_object b) in if d = [] then address_table b0 else at_load d)"
    "association_table b' = (let d = table_data (memory_area b) (assoc_table_object b) in if d = [] then association_table b0 else as_load d)"
    by (simp_all add: b'_def c_def reload_saved_tables_def restore_program_version_def Let_def table_data_error
        OBJ_APP_PROGRAM_def split: option.split)
  have "save_bau_state b' = save_bau_state b"
    using f(1) assms(3) unfolding save_state_octets [OF assms(1,3)]
    by (subst save_state_octets [OF p]) (simp_all add: f table_save_error)
  moreover have "runs_from_memory b'"
    using f by (simp add: runs_from_memory_def table_data_error Let_def)
  moreover have "runs_from_memory b \<longrightarrow>
      address_table b' = (if table_data (memory_area b) (addr_table_object b) = [] then address_table b0 else address_table b) \<and>
      association_table b' = (if table_data (memory_area b) (assoc_table_object b) = [] then association_table b0 else association_table b)"
    using f(8,9) by (simp add: runs_from_memory_def Let_def)
  ultimately show ?thesis using r p f by blast
qed

definition sample_device :: Bau where
  "sample_device = bau_new (new_device_object [0, 250, 1, 2, 3, 4] [1, 2, 3, 4, 5, 6]) 1 1"

lemma sample_device_version: "program_version (replicate 5 0) sample_device"
  unfolding program_version_def sample_device_def bau_new_def install_io_list_def object_at_def Let_def OBJ_APP_PROGRAM_def
  by (simp add: holds_version_new)

text \<open>A device with two group addresses in its memory and a loaded address table, restored on a fresh one.\<close>

definition saved_device :: Bau where
  "saved_device = sample_device\<lparr>memory_area := [0, 2, 8, 1, 8, 2],
     addr_table_object := \<lparr>to_state = Loaded, to_error = NoFault, to_data_offset = 0, to_data_size = 6\<rparr>,
     address_table := at_load [0, 2, 8, 1, 8, 2]\<rparr>"

theorem save_restore_device_witness:
  "\<exists>b'. restore_bau_state (save_bau_state saved_device) sample_device = (b', None) \<and> memory_area b' = [0, 2, 8, 1, 8, 2] \<and>
     address_table b' = address_table saved_device \<and> address_table b' \<noteq> address_table sample_device"
proof -
  have f: "addr_table_object saved_device = \<lparr>to_state = Loaded, to_error = NoFault, to_data_offset = 0, to_data_size = 6\<rparr>"
    "assoc_table_object saved_device = table_new" "app_program_object saved_device = table_new"
    "memory_area saved_device = [0, 2, 8, 1, 8, 2]" "address_table saved_device = at_load [0, 2, 8, 1, 8, 2]"
    "address_table sample_device = address_table_new"
    by (simp_all add: saved_device_def sample_device_def bau_new_def install_io_list_def Let_def)
  have v: "program_version (replicate 5 0) saved_device"
    using sample_device_version unfolding program_version_def saved_device_def object_at_def
    by (simp split: if_splits)
  have fit: "\<forall>t \<in> {addr_table_object saved_device, assoc_table_object saved_device, app_program_object saved_device}.
      to_state t = Loaded \<longrightarrow> fits t"
    by (simp add: f table_new_def fits_def MAX_MEMORY_SIZE_def)
  have d: "table_data (memory_area saved_device) (addr_table_object saved_device) = [0, 2, 8, 1, 8, 2]"
    "table_data (memory_area saved_device) (assoc_table_object saved_device) = []"
    by (simp_all add: f table_data_def table_new_def buf_slice_def Let_def)
  have "runs_from_memory saved_device" using d by (simp add: runs_from_memory_def f)
  moreover have "at_load [0, 2, 8, 1, 8, 2] \<noteq> address_table_new" by code_simp
  ultimately show ?thesis
    using save_restore_device [OF v sample_device_version _ fit] d f by auto
qed

theorem restore_outcome_witness:
  "\<exists>e. e = snd (restore_bau_state [] sample_device) \<and> e = Some TruncatedData"
  using restore_outcome [of "[]" sample_device "fst (restore_bau_state [] sample_device)" "snd (restore_bau_state [] sample_device)"]
  by simp

end
