(* ===== verification/Bau_Machine.thy ===== *)
theory Bau_Machine
  imports Bau_Persistence
begin

text \<open>
  The device as a state machine: every call that changes a device (\<open>bau.rs\<close>), those of its two entry
  points and those of the host, as events. The calls that hand out a mutable reference are the
  changes made through it: an interface object or a run-time table may become any other, a group
  object changes through its own methods (\<^verbatim>\<open>group_object.rs\<close>). Assigning a whole group object or a
  whole store through the reference is not an event; it could give an object a foreign number.
\<close>

section \<open>Events\<close>

datatype ObjectCall =
    SetDpt dpt | OnUpdate | SetCommFlag ComFlag | RequestObjectRead | ObjectWritten
  | ValueMut "u8 list" | ResizeData nat | WriteValue "u8 list" | WriteValueNoSend "u8 list"
  | ValueFromBus "u8 list" | SetValue "dpt \<Rightarrow> unit + u8 list" | SetValueIfChanged "dpt \<Rightarrow> unit + u8 list"
  | TransmitDone bool

text \<open>The encoders of values are those of the datapoint types; here any function. \<open>value_mut\<close> keeps the length.\<close>

fun object_call :: "ObjectCall \<Rightarrow> GroupObject \<Rightarrow> GroupObject" where
  "object_call (SetDpt d) go = go_set_dpt d go"
| "object_call OnUpdate go = go_register go"
| "object_call (SetCommFlag f) go = go_set_comm_flag f go"
| "object_call RequestObjectRead go = request_object_read go"
| "object_call ObjectWritten go = object_written go"
| "object_call (ValueMut data) go = go\<lparr>go_data := copy_prefix data (go_data go)\<rparr>"
| "object_call (ResizeData n) go = resize_data n go"
| "object_call (WriteValue data) go = write_value data go"
| "object_call (WriteValueNoSend data) go = write_value_no_send data go"
| "object_call (ValueFromBus data) go = fst (value_from_bus data go)"
| "object_call (SetValue encode) go = fst (set_value (\<lambda>d _. encode d) () go)"
| "object_call (SetValueIfChanged encode) go = fst (set_value_if_changed (\<lambda>d _. encode d) () go)"
| "object_call (TransmitDone success) go = transmit_done success go"


datatype bau_event =
    FrameReceived CemiFrame u64
  | Polled u64
  | FrameTaken
  | RestartTaken
  | GroupObjectCalled u16 ObjectCall
  | StoreReinitialised GroupObjectTable
  | GroupTableLoaded "u8 list"
  | ReadsInitialised
  | ObjectAdded InterfaceObject
  | DeviceChanged InterfaceObject
  | ObjectChanged u8 InterfaceObject
  | AddressTableChanged AddressTable
  | AssociationTableChanged AssociationTable
  | MemorySet "u8 list"
  | Restored "u8 list"
  | TablesLoaded nat nat nat nat

fun bau_step :: "bau_event \<Rightarrow> Bau \<Rightarrow> bau_result" where
  "bau_step (FrameReceived frame now) b = process_frame frame now b"
| "bau_step (Polled now) b = poll now b"
| "bau_step FrameTaken b = Inr (fst (next_outgoing_frame b))"
| "bau_step RestartTaken b = Inr (fst (take_restart_pending b))"
| "bau_step (GroupObjectCalled asap c) b = Inr (b\<lparr>group_objects := store_update asap (object_call c) (group_objects b)\<rparr>)"
| "bau_step (StoreReinitialised table) b = Inr (b\<lparr>group_objects := reinitialize_from_table table (group_objects b)\<rparr>)"
| "bau_step (GroupTableLoaded data) b = Inr (load_group_object_table data b)"
| "bau_step ReadsInitialised b = Inr (init_read_requests b)"
| "bau_step (ObjectAdded obj) b = Inr (fst (add_object obj b))"
| "bau_step (DeviceChanged obj) b = Inr (device_mut (\<lambda>_. obj) b)"
| "bau_step (ObjectChanged i obj) b = Inr (b\<lparr>objects := (objects b)[unat i := obj]\<rparr>)"
| "bau_step (AddressTableChanged t) b = Inr (b\<lparr>address_table := t\<rparr>)"
| "bau_step (AssociationTableChanged t) b = Inr (b\<lparr>association_table := t\<rparr>)"
| "bau_step (MemorySet data) b = Inr (b\<lparr>memory_area := data\<rparr>)"
| "bau_step (Restored data) b = Inr (fst (restore_bau_state data b))"
| "bau_step (TablesLoaded addr_off addr_len assoc_off assoc_len) b =
     Inr (load_tables_from_memory addr_off addr_len assoc_off assoc_len b)"

text \<open>How much memory the host gives with an event, and whether the octets it restores hold sound table objects.\<close>

fun host_memory :: "bau_event \<Rightarrow> nat" where
  "host_memory (MemorySet data) = length data" | "host_memory (Restored data) = length data" | "host_memory _ = 0"

definition sound_octets :: "u8 list \<Rightarrow> bool" where
  "sound_octets data \<longleftrightarrow> length data < 36 \<or>
     list_all (\<lambda>i. table_inv (fst (table_restore (drop (9 * i) data) table_new))) [0, 1, 2]"

fun sound_event :: "bau_event \<Rightarrow> bool" where
  "sound_event (Restored data) = sound_octets data" | "sound_event _ = True"

text \<open>
  The devices that any sequence of calls leads to, with the largest memory area the host has given
  so far, and whether all restored octets were sound.
\<close>

inductive bau_reachable :: "nat \<Rightarrow> bool \<Rightarrow> Bau \<Rightarrow> bool" where
  started: "bau_reachable 0 True (bau_new dev n sz)"
| stepped: "bau_reachable m sound b \<Longrightarrow> bau_step e b = Inr b' \<Longrightarrow>
    bau_reachable (max m (host_memory e)) (sound \<and> sound_event e) b'"

inductive_cases bau_reachableE: "bau_reachable m sound b"

section \<open>Every event keeps the invariants\<close>










text \<open>
  A table that is restored as loading is not checked, and a following LoadCompleted makes it loaded
  whatever its range.
\<close>

lemma restored_loading_escapes:
  "let t = fst (table_restore [load_state_u8 Loading, 0, 0, 0, 0, 0, 0, 0, 0x10] t0); t' = fst (handle_load_event [2] n t)
   in to_state t' = Loaded \<and> \<not> fits t'"
  by (simp add: table_restore_def SAVE_SIZE_def load_state_from_def le32_def be32_def load_handlers load_event_from_byte_def fits_def
      MAX_MEMORY_SIZE_def Let_def)



end
