(* ===== verification/Bau_Management.thy ===== *)
theory Bau_Management
  imports Bau_Group
begin

text \<open>
  Management of a device: the download of a table through the load state machine and memory
  writes, the memory services, programming mode, the destinations on which services are served,
  and the master reset.
\<close>

section \<open>Answers do not touch the configuration\<close>

text \<open>A device without its transport layer and its outgoing frames.\<close>

definition core :: "Bau \<Rightarrow> Bau" where
  "core b = b\<lparr>outbox := [], transport := tl_new\<rparr>"

lemma core_fields [simp]: "memory_area (core b) = memory_area b" "addr_table_object (core b) = addr_table_object b"
  "assoc_table_object (core b) = assoc_table_object b" "app_program_object (core b) = app_program_object b"
  "address_table (core b) = address_table b" "association_table (core b) = association_table b"
  "objects (core b) = objects b" "group_objects (core b) = group_objects b"
  "table_object i (core b) = table_object i b"
  by (simp_all add: core_def table_object_def)

lemma queue_short:
  assumes "length pl \<le> 256"
  shows "\<exists>b'. queue_individual_frame d p pl b = Inr b' \<and> core b' = core b"
proof -
  have "new_l_data LDataReq (bau_individual_address b) (DestIndividual d) p pl \<noteq> None"
    using new_l_data_fields [where payload = pl and mc = LDataReq and src = "bau_individual_address b"
        and dst = "DestIndividual d" and p = p] assms
    by (auto split: sum.splits)
  then show ?thesis
    by (auto simp: queue_individual_frame_def push_frame_def core_def)
qed

lemma parts_transparent:
  "set_table_object i x (b\<lparr>outbox := q, transport := t\<rparr>) = (set_table_object i x b)\<lparr>outbox := q, transport := t\<rparr>"
  "apply_fill fill (b\<lparr>outbox := q, transport := t\<rparr>) = (apply_fill fill b)\<lparr>outbox := q, transport := t\<rparr>"
  "reload_runtime_table i (b\<lparr>outbox := q, transport := t\<rparr>) = (reload_runtime_table i b)\<lparr>outbox := q, transport := t\<rparr>"
  by (simp_all add: set_table_object_def apply_fill_def reload_runtime_table_def Let_def split: option.split prod.split)

lemma load_event_transparent:
  "load_state_event i data (b\<lparr>outbox := q, transport := t\<rparr>) = (load_state_event i data b)\<lparr>outbox := q, transport := t\<rparr>"
proof -
  have t: "table_object i (b\<lparr>outbox := q, transport := t\<rparr>) = table_object i b"
    by (simp add: table_object_def)
  show ?thesis
  proof (cases "table_object i b")
    case (Some x)
    obtain x' loaded fill where "handle_load_event data (length (memory_area b)) x = (x', loaded, fill)"
      by (metis prod_cases3)
    with Some t show ?thesis
      by (simp add: load_state_event_def parts_transparent Let_def)
  qed (simp add: load_state_event_def t)
qed

lemma core_load_event: "core b = core c \<Longrightarrow> core (load_state_event i data b) = core (load_state_event i data c)"
  unfolding core_def by (metis load_event_transparent)

lemma core_write_memory: "core b = core c \<Longrightarrow> core (fst (write_to_memory a d b)) = core (fst (write_to_memory a d c))"
proof -
  have "(fst (write_to_memory a d b))\<lparr>outbox := q, transport := t\<rparr> = fst (write_to_memory a d (b\<lparr>outbox := q, transport := t\<rparr>))" for q t b
    by (simp add: write_to_memory_def Let_def)
  then show "core b = core c \<Longrightarrow> ?thesis"
    unfolding core_def by metis
qed

section \<open>Sequences of indications\<close>

fun serve :: "CemiFrame \<Rightarrow> IndividualAddress \<Rightarrow> AppIndication list \<Rightarrow> Bau \<Rightarrow> bau_result" where
  "serve frame src [] b = Inr b"
| "serve frame src (i # is) b = bind_res (dispatch_indication frame src i b) (serve frame src is)"

text \<open>A write to the load state control of an object, and the writes of consecutive chunks of memory.\<close>

definition load_control :: "u8 \<Rightarrow> u8 list \<Rightarrow> AppIndication" where
  "load_control i data = IndPropertyValueWrite i 5 1 1 data"

fun chunk_writes :: "nat \<Rightarrow> u8 list list \<Rightarrow> AppIndication list" where
  "chunk_writes off [] = []"
| "chunk_writes off (c # cs) = IndMemoryExtWrite (of_nat (length c)) (of_nat off) c # chunk_writes (off + length c) cs"

definition download :: "u8 \<Rightarrow> nat \<Rightarrow> u8 list list \<Rightarrow> AppIndication list" where
  "download i off chunks =
     [load_control i [1], load_control i ([3, 0x0B] @ to_be32 (of_nat (length (concat chunks))) @ [0, 0])] @
     chunk_writes off chunks @ [load_control i [2]]"

lemma dispatch_load_control:
  assumes "table_object i b \<noteq> None"
  shows "\<exists>b'. dispatch_indication frame src (load_control i data) b = Inr b' \<and> core b' = core (load_state_event i data b)"
proof -
  let ?c = "load_state_event i data b"
  have "table_object i (set_table_object i t b) \<noteq> None" for t
    using assms by (simp add: table_object_def set_table_object_def split: if_splits)
  then have "table_object i ?c \<noteq> None"
    using assms by (auto simp: load_state_event_def Let_def apply_fill_def reload_runtime_table_def table_object_def
        set_table_object_def split: option.split prod.split if_splits)
  then obtain t where t: "table_object i ?c = Some t" by auto
  have pid: "property_id_try_from 5 = Inr PidLoadStateControl"
    using property_id_try_from_u8 [of PidLoadStateControl] by simp
  have "length (encode_property_response i 5 1 1 [load_state_u8 (to_state t)]) \<le> 256"
    by (simp add: encode_property_response_def split_beta)
  from queue_short [OF this, of src System ?c] t pid show ?thesis
    by (auto simp: load_control_def dispatch_defs handle_property_write_def handle_property_read_def
        try_intercept_table_property_def queue_property_response_def)
qed

lemma dispatch_memory_write:
  assumes "unat a + length d \<le> MAX_MEMORY_SIZE"
  shows "\<exists>b'. dispatch_indication frame src (IndMemoryExtWrite n a d) b = Inr b' \<and>
    core b' = core (fst (write_to_memory (unat a) d b))"
proof -
  have "length (encode_memory_ext_write_response MEM_EXT_RETURN_OK a) \<le> 256"
    by (simp add: encode_memory_ext_write_response_def split_beta Let_def)
  from queue_short [OF this, of src System "fst (write_to_memory (unat a) d b)"] assms show ?thesis
    by (auto simp: dispatch_defs handle_memory_ext_write_def write_to_memory_def Let_def)
qed

lemma write_append: "length m + length d \<le> MAX_MEMORY_SIZE \<Longrightarrow> memory_area b = m \<Longrightarrow>
    write_to_memory (length m) d b = (b\<lparr>memory_area := m @ d\<rparr>, True)"
  by (cases "d = []") (auto simp: write_to_memory_def Let_def vec_resize_def buf_write_def)

lemma serve_chunks:
  assumes "memory_area b = m" and "length m + length (concat chunks) \<le> MAX_MEMORY_SIZE"
  shows "\<exists>b'. serve frame src (chunk_writes (length m) chunks) b = Inr b' \<and>
    core b' = core (b\<lparr>memory_area := m @ concat chunks\<rparr>)"
  using assms
proof (induction chunks arbitrary: b m)
  case (Cons c cs)
  have "length m < 2 ^ 32" using Cons.prems(2) by (simp add: MAX_MEMORY_SIZE_def)
  then have u: "unat (of_nat (length m) :: u32) = length m" by (simp add: unat_of_nat)
  have fit: "length m + length c \<le> MAX_MEMORY_SIZE" using Cons.prems(2) by simp
  from dispatch_memory_write [of "of_nat (length m)" c frame src "of_nat (length c)" b] u fit
  obtain b1 where b1: "dispatch_indication frame src (IndMemoryExtWrite (of_nat (length c)) (of_nat (length m)) c) b = Inr b1"
    "core b1 = core (b\<lparr>memory_area := m @ c\<rparr>)"
    using write_append [OF fit Cons.prems(1)] by auto
  have m1: "memory_area b1 = m @ c"
    using arg_cong [OF b1(2), of memory_area] by simp
  from Cons.IH [OF m1] Cons.prems(2) obtain b2 where b2:
    "serve frame src (chunk_writes (length (m @ c)) cs) b1 = Inr b2" "core b2 = core (b1\<lparr>memory_area := (m @ c) @ concat cs\<rparr>)"
    by auto
  have "core (b1\<lparr>memory_area := x\<rparr>) = (core b1)\<lparr>memory_area := x\<rparr>" for x
    by (simp add: core_def)
  with b2 b1 show ?case by (simp add: core_def)
qed (simp add: core_def)

section \<open>Downloading a table\<close>

lemma load_events:
  assumes "table_object i b = Some t" and "to_state t \<in> {Unloaded, Loaded}"
  shows "load_state_event i [1] b = set_table_object i (t\<lparr>to_state := Loading, to_data_offset := 0, to_data_size := 0\<rparr>) b"
  using assms by (auto simp: load_state_event_def load_handlers load_event_from_byte_def apply_fill_def)

lemma allocate_event:
  assumes "table_object i b = Some t" and "to_state t = Loading" and "n \<le> MAX_MEMORY_SIZE"
    and "length (memory_area b) \<le> MAX_MEMORY_SIZE"
  shows "load_state_event i ([3, 0x0B] @ to_be32 (of_nat n) @ [0, 0]) b =
    set_table_object i (t\<lparr>to_data_offset := of_nat (length (memory_area b)), to_data_size := of_nat n\<rparr>) b"
proof -
  have "n < 2 ^ 32" "length (memory_area b) < 2 ^ 32"
    using assms(3,4) by (simp_all add: MAX_MEMORY_SIZE_def)
  moreover have "be32 (to_be32 w ! 0) (to_be32 w ! Suc 0) (to_be32 w ! 2) (to_be32 w ! 3) = w" for w
    by (simp add: to_be32_def nth_Cons_numeral)
  ultimately show ?thesis
    using assms by (simp add: load_state_event_def load_handlers load_event_from_byte_def apply_fill_def
        ALC_MIN_LENGTH_def ALC_OPCODE_ALLOC_def ALC_FILL_ENABLED_def nth_append nth_Cons_numeral unat_of_nat Let_def)
qed

lemma complete_event:
  assumes "table_object i b = Some t" and "to_state t = Loading"
  shows "load_state_event i [2] b = reload_runtime_table i (set_table_object i (t\<lparr>to_state := Loaded\<rparr>) b)"
  using assms by (simp add: load_state_event_def load_handlers load_event_from_byte_def apply_fill_def)

lemma table_object_set [simp]: "table_object i b \<noteq> None \<Longrightarrow> table_object i (set_table_object i t b) = Some t"
  by (auto simp: table_object_def set_table_object_def obj_indices split: if_splits)

lemma set_table_memory [simp]: "memory_area (set_table_object i t b) = memory_area b"
  by (simp add: set_table_object_def)


lemma serve_append: "serve frame src (xs @ ys) b = bind_res (serve frame src xs b) (serve frame src ys)"
proof (induction xs arbitrary: b)
  case (Cons x xs)
  then show ?case by (cases "dispatch_indication frame src x b") simp_all
qed simp

lemma table_object_core: "core b = core c \<Longrightarrow> table_object i b = table_object i c"
  by (metis core_fields(9))

lemma serve_load_control:
  assumes "core b = core c" and "table_object i c \<noteq> None"
  shows "\<exists>b'. dispatch_indication frame src (load_control i data) b = Inr b' \<and> core b' = core (load_state_event i data c)"
  using dispatch_load_control [of i b frame src data] core_load_event [OF assms(1)] table_object_core [OF assms(1)] assms(2)
  by metis

text \<open>The configuration a download leaves behind.\<close>

definition downloaded :: "u8 \<Rightarrow> u8 list \<Rightarrow> Bau \<Rightarrow> Bau" where
  "downloaded i img b =
     (let t = the (table_object i b);
          t' = t\<lparr>to_state := Loaded, to_data_offset := of_nat (length (memory_area b)), to_data_size := of_nat (length img)\<rparr>
      in reload_runtime_table i (set_table_object i t' (b\<lparr>memory_area := memory_area b @ img\<rparr>)))"

lemma download_core:
  assumes "table_object i b = Some t" and "to_state t \<in> {Unloaded, Loaded}"
    and "length (memory_area b) + length (concat chunks) \<le> MAX_MEMORY_SIZE"
  shows "\<exists>b'. serve frame src (download i (length (memory_area b)) chunks) b = Inr b' \<and>
    core b' = core (downloaded i (concat chunks) b)"
proof -
  let ?m = "memory_area b" and ?n = "length (concat chunks)"
  define t1 where "t1 = t\<lparr>to_state := Loading, to_data_offset := 0, to_data_size := 0\<rparr>"
  define t2 where "t2 = t1\<lparr>to_data_offset := of_nat (length ?m), to_data_size := of_nat ?n\<rparr>"
  define c1 where "c1 = set_table_object i t1 b"
  define c2 where "c2 = set_table_object i t2 c1"
  define c3 where "c3 = c2\<lparr>memory_area := ?m @ concat chunks\<rparr>"
  have some: "table_object i b \<noteq> None" using assms(1) by simp
  have o1: "table_object i c1 = Some t1" using some by (simp add: c1_def)
  then have o2: "table_object i c2 = Some t2" by (simp add: c2_def)
  moreover have "table_object i (c\<lparr>memory_area := m\<rparr>) = table_object i c" for c :: Bau and m
    by (simp add: table_object_def)
  ultimately have o3: "table_object i c3 = Some t2" by (simp add: c3_def)
  have e1: "load_state_event i [1] b = c1"
    using load_events [OF assms(1,2)] by (simp add: c1_def t1_def)
  have e2: "load_state_event i ([3, 0x0B] @ to_be32 (of_nat ?n) @ [0, 0]) c1 = c2"
    using allocate_event [OF o1, of ?n] assms(3) by (simp add: c2_def t2_def t1_def c1_def)
  have e4: "load_state_event i [2] c3 = reload_runtime_table i (set_table_object i (t2\<lparr>to_state := Loaded\<rparr>) c3)"
    by (rule complete_event [OF o3]) (simp add: t2_def t1_def)
  obtain b1 where b1: "dispatch_indication frame src (load_control i [1]) b = Inr b1" "core b1 = core c1"
    using serve_load_control [OF refl some, of frame src "[1]"] e1 by auto
  obtain b2 where b2: "dispatch_indication frame src (load_control i ([3, 0x0B] @ to_be32 (of_nat ?n) @ [0, 0])) b1 = Inr b2"
    "core b2 = core c2"
    using serve_load_control [OF b1(2), of i frame src "[3, 0x0B] @ to_be32 (of_nat ?n) @ [0, 0]"] e2 o1 by auto
  have m2: "memory_area b2 = ?m"
    using arg_cong [OF b2(2), of memory_area] by (simp add: c2_def c1_def)
  obtain b3 where b3: "serve frame src (chunk_writes (length ?m) chunks) b2 = Inr b3"
    "core b3 = core (b2\<lparr>memory_area := ?m @ concat chunks\<rparr>)"
    using serve_chunks [OF m2 assms(3)] by blast
  have "core (b2\<lparr>memory_area := x\<rparr>) = (core b2)\<lparr>memory_area := x\<rparr>" for x
    by (simp add: core_def)
  then have c3: "core b3 = core c3"
    unfolding b3(2) by (simp add: b2(2) c3_def) (simp add: core_def)
  obtain b4 where b4: "dispatch_indication frame src (load_control i [2]) b3 = Inr b4"
    "core b4 = core (reload_runtime_table i (set_table_object i (t2\<lparr>to_state := Loaded\<rparr>) c3))"
    using serve_load_control [OF c3, of i frame src "[2]"] o3 e4 by auto
  have "reload_runtime_table i (set_table_object i (t2\<lparr>to_state := Loaded\<rparr>) c3) = downloaded i (concat chunks) b"
  proof -
    have "set_table_object i y (set_table_object i x c) = set_table_object i y c"
      "set_table_object i x (c\<lparr>memory_area := m\<rparr>) = (set_table_object i x c)\<lparr>memory_area := m\<rparr>" for x y c m
      by (simp_all add: set_table_object_def)
    then show ?thesis
      by (cases t) (simp add: downloaded_def c3_def c2_def c1_def t2_def t1_def assms(1) Let_def)
  qed
  with b1 b2 b3 b4 show ?thesis
    by (simp add: download_def serve_append)
qed

lemma table_data_appended:
  assumes "length m + length img \<le> MAX_MEMORY_SIZE"
  shows "table_data (m @ img) (t\<lparr>to_state := Loaded, to_data_offset := of_nat (length m), to_data_size := of_nat (length img)\<rparr>) = img"
proof -
  have "length m < 2 ^ 32" "length img < 2 ^ 32"
    using assms by (simp_all add: MAX_MEMORY_SIZE_def)
  then have "unat (of_nat (length m) :: u32) = length m" "unat (of_nat (length img) :: u32) = length img"
    by (simp_all add: unat_of_nat)
  then show ?thesis
    by (auto simp: table_data_def Let_def buf_slice_def word_unat_eq_iff)
qed

text \<open>
  C6: A management tool downloads a table to a device whose table object is unloaded or
  loaded by starting the load, allocating the size, writing the octets in consecutive pieces of
  any size behind the memory in use, and completing the load. No step fails. Afterwards the table
  is loaded, the octets stand in memory behind what was there, and the run-time table (addresses
  or associations) is the one downloaded; group objects and interface objects are untouched.
\<close>
theorem table_download:
  assumes "i \<in> {OBJ_ADDR_TABLE, OBJ_ASSOC_TABLE}" and "table_object i b = Some t"
    and "to_state t \<in> {Unloaded, Loaded}"
    and "length (memory_area b) + length (concat chunks) \<le> MAX_MEMORY_SIZE"
  shows "\<exists>b'. serve frame src (download i (length (memory_area b)) chunks) b = Inr b' \<and>
    memory_area b' = memory_area b @ concat chunks \<and>
    (\<exists>t'. table_object i b' = Some t' \<and> to_state t' = Loaded \<and> table_data (memory_area b') t' = concat chunks) \<and>
    address_table b' = (if i = OBJ_ADDR_TABLE then at_load (concat chunks) else address_table b) \<and>
    association_table b' = (if i = OBJ_ASSOC_TABLE then as_load (concat chunks) else association_table b) \<and>
    group_objects b' = group_objects b \<and> objects b' = objects b"
proof -
  define t' where "t' = t\<lparr>to_state := Loaded, to_data_offset := of_nat (length (memory_area b)),
    to_data_size := of_nat (length (concat chunks))\<rparr>"
  have data: "table_data (memory_area b @ concat chunks) t' = concat chunks"
    unfolding t'_def by (rule table_data_appended [OF assms(4)])
  have loaded: "to_state t' = Loaded" by (simp add: t'_def)
  obtain b' where b': "serve frame src (download i (length (memory_area b)) chunks) b = Inr b'"
    "core b' = core (downloaded i (concat chunks) b)"
    using download_core [OF assms(2,3,4)] by blast
  have d: "downloaded i (concat chunks) b =
      reload_runtime_table i (set_table_object i t' (b\<lparr>memory_area := memory_area b @ concat chunks\<rparr>))"
    by (simp add: downloaded_def assms(2) t'_def)
  note f = arg_cong [OF b'(2), of memory_area] arg_cong [OF b'(2), of address_table]
    arg_cong [OF b'(2), of association_table] arg_cong [OF b'(2), of group_objects] arg_cong [OF b'(2), of objects]
    arg_cong [OF b'(2), of "table_object i"]
  show ?thesis
    using b'(1) f assms(1) data loaded
    by (auto simp: d reload_runtime_table_def set_table_object_def table_object_def obj_indices)
qed

theorem table_download_witness:
  "\<exists>b'. serve sample_frame (IndividualAddress 0x1101)
      (download OBJ_ADDR_TABLE 0 [[0x00, 0x02, 0x08], [0x01, 0x08, 0x02]])
      (bau_new (new_device_object [0, 0, 0, 0, 0, 1] [0, 0, 0, 0, 0, 0]) 2 1) = Inr b' \<and>
    address_table b' = at_load (table_image [0x0801, 0x0802])"
proof -
  let ?b = "bau_new (new_device_object [0, 0, 0, 0, 0, 1] [0, 0, 0, 0, 0, 0]) 2 1"
  have t: "table_object OBJ_ADDR_TABLE ?b = Some table_new" and m: "memory_area ?b = []"
    by (simp_all add: bau_new_def install_io_list_def Let_def table_object_def)
  have i: "table_image [0x0801, 0x0802] = concat [[0x00, 0x02, 0x08], [0x01, 0x08, 0x02]]"
    by (simp add: table_image_def to_be16_def)
  have l: "length (memory_area ?b) + length (concat [[0x00, 0x02, 0x08], [0x01, 0x08, 0x02 :: u8]]) \<le> MAX_MEMORY_SIZE"
    unfolding m by (simp add: MAX_MEMORY_SIZE_def)
  have s: "to_state table_new \<in> {Unloaded, Loaded}" by (simp add: table_new_def)
  have "OBJ_ADDR_TABLE \<in> {OBJ_ADDR_TABLE, OBJ_ASSOC_TABLE}" by simp
  from table_download [OF this t s l, of sample_frame "IndividualAddress 0x1101"]
  obtain b' where "serve sample_frame (IndividualAddress 0x1101)
      (download OBJ_ADDR_TABLE (length (memory_area ?b)) [[0x00, 0x02, 0x08], [0x01, 0x08, 0x02]]) ?b = Inr b'"
    and "address_table b' = (if OBJ_ADDR_TABLE = OBJ_ADDR_TABLE
      then at_load (concat [[0x00, 0x02, 0x08], [0x01, 0x08, 0x02]]) else address_table ?b)"
    by blast
  then show ?thesis
    unfolding m i list.size(3) by (simp only: refl if_True) blast
qed

end
