(* ===== verification/Bau_Memory.thy ===== *)
theory Bau_Memory
  imports Bau_Management Bau_Persistence
begin

text \<open>
  The memory services of a device and the destinations it serves: what an extended memory write
  stores, what a read answers and when the answer is too long for a frame, and which frames with a
  foreign destination have an effect.
\<close>

section \<open>Memory writes and reads\<close>

lemma write_then_slice:
  assumes "a + length d \<le> MAX_MEMORY_SIZE" and "write_to_memory a d b = (b', ok)"
  shows "ok" "mem_slice a (length d) b' = Some d"
    "length (memory_area b') = max (length (memory_area b)) (a + length d)"
    "\<forall>i < length (memory_area b). i < a \<or> a + length d \<le> i \<longrightarrow> memory_area b' ! i = memory_area b ! i"
    "b'\<lparr>memory_area := m\<rparr> = b\<lparr>memory_area := m\<rparr>"
  using assms
  by (auto simp: write_to_memory_def mem_slice_def Let_def vec_resize_def nth_append nth_buf_write_other [of a d]
      split: if_splits)

lemma ext_read_response_length [simp]:
  "length (encode_memory_ext_read_response r a d) = 6 + length d"
  by (simp add: encode_memory_ext_read_response_def Let_def split_beta)

lemma individual_frame_outcome:
  "queue_individual_frame dst p payload b =
    (if answering_connection b = Some dst
     then Inr (b\<lparr>transport := data_connected_request p payload (now_ms b) (transport b)\<rparr>)
     else if 256 < length payload then Inl Panicked
     else Inr (b\<lparr>outbox := outbox b @ [the (new_l_data LDataReq (bau_individual_address b) (DestIndividual dst) p payload)]\<rparr>))"
  using new_l_data_fields [where mc = LDataReq and src = "bau_individual_address b" and dst = "DestIndividual dst"
      and p = p and payload = payload]
  by (auto simp: queue_individual_frame_def push_frame_def split: sum.splits)

text \<open>
  An extended memory write inside the largest memory is stored and confirmed: it changes
  exactly the octets it names and grows the memory when it must. A read of that range that follows
  answers, in a frame to the asking device, with the written octets. A write that reaches outside
  is dropped without an answer and changes nothing.
\<close>
lemma memory_write_read:
  assumes "answering_connection b = None" and "length d \<le> 250"
  shows "(unat a + length d \<le> MAX_MEMORY_SIZE \<longrightarrow>
     (\<exists>b1 b2 f. handle_memory_ext_write src a d b = Inr b1 \<and>
        handle_memory_ext_read src (of_nat (length d)) a b1 = Inr b2 \<and>
        length (memory_area b1) = max (length (memory_area b)) (unat a + length d) \<and>
        (\<forall>i < length (memory_area b). i < unat a \<or> unat a + length d \<le> i \<longrightarrow> memory_area b1 ! i = memory_area b ! i) \<and>
        b2\<lparr>outbox := outbox b1\<rparr> = b1 \<and> outbox b2 = outbox b1 @ [f] \<and>
        destination_address f = DestIndividual src \<and>
        cemi_payload f = encode_memory_ext_read_response MEM_EXT_RETURN_OK a d)) \<and>
    (MAX_MEMORY_SIZE < unat a + length d \<longrightarrow> handle_memory_ext_write src a d b = Inr b)"
proof (cases "unat a + length d \<le> MAX_MEMORY_SIZE")
  case True
  obtain c ok where w: "write_to_memory (unat a) d b = (c, ok)" by fastforce
  note s = write_then_slice [OF True w]
  have c: "answering_connection c = None"
    using assms(1) arg_cong [OF s(5), of answering_connection] by simp
  have "length (encode_memory_ext_write_response MEM_EXT_RETURN_OK a) \<le> 256"
    by (simp add: encode_memory_ext_write_response_def split_beta Let_def)
  then obtain q where b1: "handle_memory_ext_write src a d b = Inr (c\<lparr>outbox := q\<rparr>)"
    using s(1) c by (auto simp: handle_memory_ext_write_def w individual_frame_outcome)
  let ?b1 = "c\<lparr>outbox := q\<rparr>" and ?pl = "encode_memory_ext_read_response MEM_EXT_RETURN_OK a d"
  have sl: "mem_slice (unat a) (length d) ?b1 = Some d"
    using s(2) by (simp add: mem_slice_def Let_def split: if_splits)
  have n: "unat (of_nat (length d) :: u8) = length d"
    using assms(2) by (simp add: unat_of_nat)
  obtain f where f: "new_l_data LDataReq (bau_individual_address ?b1) (DestIndividual src) System ?pl = Some f"
    using new_l_data_fields [where mc = LDataReq and src = "bau_individual_address ?b1"
        and dst = "DestIndividual src" and p = System and payload = ?pl] assms(2)
    by (auto split: sum.splits)
  have "handle_memory_ext_read src (of_nat (length d)) a ?b1 = Inr (?b1\<lparr>outbox := q @ [f]\<rparr>)"
    using c assms(2) f by (simp add: handle_memory_ext_read_def n sl individual_frame_outcome)
  moreover have "destination_address f = DestIndividual src" "cemi_payload f = ?pl"
    using frame_fields [OF f] by (simp_all add: pad_payload_long)
  ultimately show ?thesis
    using b1 s(3,4) True by (intro conjI impI exI [of _ ?b1] exI [of _ "?b1\<lparr>outbox := q @ [f]\<rparr>"] exI [of _ f]) simp_all
qed (simp add: handle_memory_ext_write_def write_to_memory_def Let_def)

section \<open>Reads that do not fit into a frame\<close>

text \<open>
  C28: An extended memory read received without a connection brings the device down exactly when it
  asks for more than 250 octets inside the memory area: the answer would be longer than a frame
  can be. Any other read is answered, and reading never changes the memory.
\<close>
theorem memory_ext_read_panics:
  assumes "cemi_tpdu frame = Some (TData DataIndividual q \<lparr>apdu_type = MemoryExtRead, apdu_data = count # hi # mid # lo # rest\<rparr>)"
    and "message_code_raw frame \<noteq> message_code_u8 LDataCon" and "cemi_address_type frame = AddrIndividual"
    and "destination_address_raw frame = ia_raw (bau_individual_address b)"
    and "answering_connection b = None" and "actions (transport b) = []"
  defines "address \<equiv> unat (be32 0 hi mid lo)"
  shows "(process_frame frame now b = Inl Panicked \<longleftrightarrow> 250 < unat count \<and> address + unat count \<le> length (memory_area b)) \<and>
    (process_frame frame now b \<noteq> Inl Panicked \<longrightarrow>
      (\<exists>b' f. process_frame frame now b = Inr b' \<and> outbox b' = outbox b @ [f] \<and> memory_area b' = memory_area b))"
proof -
  let ?src = "source_address frame" and ?i = "IndMemoryExtRead count (be32 0 hi mid lo)"
  define c where "c = b\<lparr>now_ms := now\<rparr>"
  have own: "bau_individual_address c = bau_individual_address b"
    by (simp add: c_def bau_individual_address_def device_def)
  have scope: "indication_in_scope frame ?i c"
    using assms(3,4) own by (simp add: indication_in_scope_def required_scope_def)
  have "process_data_tpdu frame DataIndividual q \<lparr>apdu_type = MemoryExtRead, apdu_data = count # hi # mid # lo # rest\<rparr> now c =
      handle_memory_ext_read ?src count (be32 0 hi mid lo) c"
    using scope by (simp add: process_data_tpdu_def parse_indication_def parse_memory_ext_read_def check_len_def dispatch_defs)
  then have p: "process_frame frame now b = bind_res (handle_memory_ext_read ?src count (be32 0 hi mid lo) c) drain_transport_actions"
    using assms(1,2) by (simp add: process_frame_def c_def [symmetric])
  have sl: "mem_slice address (unat count) c =
      (if address + unat count \<le> length (memory_area b) then Some (buf_slice address (address + unat count) (memory_area b)) else None)"
    by (simp add: mem_slice_def c_def Let_def)
  have idle: "drain_transport_actions (c\<lparr>outbox := x\<rparr>) = Inr (c\<lparr>outbox := x\<rparr>)" for x
    using assms(6) by (intro drain_idle) (simp add: c_def)
  have f: "answering_connection c = None" "outbox c = outbox b" "memory_area c = memory_area b"
    using assms(5) by (simp_all add: c_def)
  have len: "length (buf_slice address (address + unat count) (memory_area b)) = unat count"
    if "address + unat count \<le> length (memory_area b)"
    using that by (simp add: buf_slice_def)
  show ?thesis
    unfolding p handle_memory_ext_read_def address_def [symmetric] sl
    using f len by (simp add: individual_frame_outcome idle split: if_splits)
qed

definition memory_read_frame :: CemiFrame where
  "memory_read_frame = \<lparr>frame_data = [0x29, 0, 0xB0, 0x60, 0x11, 0x02, 0xFF, 0xFF, 0x05, 0x01, 0xFD, 0xFB, 0, 0, 0], ctrl_offset = 2\<rparr>"

lemma sample_device_address: "bau_individual_address (sample_device\<lparr>memory_area := m\<rparr>) = IndividualAddress 0xFFFF"
  by (simp add: sample_device_def bau_new_def install_io_list_def Let_def bau_individual_address_def device_def
      individual_address_def read_property_def io_property_add new_device_object_def add_config_properties_def
      add_identity_properties_def io_new_def property_data_def dp_constructors io_property_empty p_read_def dp_read_def
      dp_element_size_def buf_slice_def first_or_def DEFAULT_SUBNET_ADDR_def DEFAULT_DEVICE_ADDR_def)

text \<open>The telegram above, sent to a device with 300 octets of memory at the default address.\<close>

theorem memory_ext_read_panics_witness:
  "process_frame memory_read_frame 0 (sample_device\<lparr>memory_area := replicate 300 0\<rparr>) = Inl Panicked"
proof -
  let ?b = "sample_device\<lparr>memory_area := replicate 300 0\<rparr>"
  have t: "cemi_tpdu memory_read_frame = Some (TData DataIndividual 0 \<lparr>apdu_type = MemoryExtRead, apdu_data = [0xFB, 0, 0, 0]\<rparr>)"
    and f: "message_code_raw memory_read_frame \<noteq> message_code_u8 LDataCon" "cemi_address_type memory_read_frame = AddrIndividual"
      "destination_address_raw memory_read_frame = 0xFFFF"
    by (simp_all add: memory_read_frame_def message_code_raw_def destination_address_raw_def cemi_tpdu_def
      cemi_payload_def npdu_length_def cemi_address_type_def dec_address_type_def ctrl2_def tpdu_parse_def
      apdu_parse_def decode_apci_def be16_def normalize_apci_def apci_masks is_short_apci_def Let_def
      match_apdu_type_def frame_offsets address_type_try_from_def unwrap_or_def control_masks
      low_octet_service_def)
  have d: "ia_raw (bau_individual_address ?b) = 0xFFFF" "answering_connection ?b = None" "actions (transport ?b) = []"
    by (simp_all add: sample_device_address) (simp_all add: sample_device_def bau_new_def install_io_list_def Let_def tl_new_def)
  from memory_ext_read_panics [OF t f(1,2) _ d(2,3), of 0] f(3) d(1) show ?thesis
    by (simp add: be32_def)
qed

section \<open>Frames for other devices\<close>

text \<open>
  C30: A frame addressed individually to another device: a connectionless service in it is
  ignored, whatever it asks for. A connect request is not: a device without a connection accepts
  it and is then connected to the sender.
\<close>
theorem foreign_destination:
  assumes "message_code_raw frame \<noteq> message_code_u8 LDataCon" and "cemi_address_type frame = AddrIndividual"
    and "destination_address_raw frame \<noteq> ia_raw (bau_individual_address b)" and "actions (transport b) = []"
  shows "(cemi_tpdu frame = Some (TData DataIndividual q a) \<longrightarrow> process_frame frame now b = Inr (b\<lparr>now_ms := now\<rparr>)) \<and>
    (cemi_tpdu frame = Some (TControl Connect q) \<and> state (transport b) = Closed \<longrightarrow>
      (\<exists>b'. process_frame frame now b = Inr b' \<and> state (transport b') = OpenIdle \<and>
         connection_address (transport b') = source_address frame))"
proof -
  define c where "c = b\<lparr>now_ms := now\<rparr>"
  have own: "bau_individual_address c = bau_individual_address b"
    by (simp add: c_def bau_individual_address_def device_def)
  have idle: "drain_transport_actions c = Inr c"
    using assms(4) by (intro drain_idle) (simp add: c_def)
  have "\<not> indication_in_scope frame i c" for i
    using assms(2,3) own by (simp add: indication_in_scope_def Let_def split: AddrScope.split)
  then have data: "process_data_tpdu frame DataIndividual q a now c = Inr c"
    by (simp add: process_data_tpdu_def split: sum.split)
  let ?t = "a1_accept_connection (source_address frame) now (transport c)"
  have acts: "actions ?t = [ConnectIndication (source_address frame)]"
    using assms(4) by (simp add: c_def tl_actions Let_def)
  have "drain_transport_actions (c\<lparr>transport := ?t\<rparr>) = Inr (c\<lparr>transport := ?t\<lparr>actions := []\<rparr>\<rparr>)"
    unfolding drain_transport_actions_def numeral_3_eq_3
    by (simp add: drain_loop_Suc acts drain_action_def del: drain_loop.simps)
  moreover have "state ?t = OpenIdle" "connection_address ?t = source_address frame"
    by (simp_all add: tl_actions Let_def)
  ultimately show ?thesis
    using assms(1) data idle
    by (auto simp: process_frame_def c_def [symmetric] process_control_tpdu_def connect_indication_def)
       (simp_all add: c_def)
qed

definition connect_frame :: CemiFrame where
  "connect_frame = \<lparr>frame_data = [0x29, 0, 0xB0, 0x60, 0x11, 0x02, 0x11, 0x07, 0x00, 0x80, 0x00], ctrl_offset = 2\<rparr>"

theorem foreign_destination_witness:
  "\<exists>b'. process_frame connect_frame 0 sample_device = Inr b' \<and> state (transport b') = OpenIdle"
proof -
  have t: "cemi_tpdu connect_frame = Some (TControl Connect 0)"
    and f: "message_code_raw connect_frame \<noteq> message_code_u8 LDataCon" "cemi_address_type connect_frame = AddrIndividual"
      "destination_address_raw connect_frame = 0x1107"
    by (simp_all add: connect_frame_def message_code_raw_def destination_address_raw_def cemi_tpdu_def
      cemi_payload_def npdu_length_def cemi_address_type_def dec_address_type_def ctrl2_def tpdu_parse_def
      be16_def Let_def frame_offsets address_type_try_from_def unwrap_or_def control_masks)
  have d: "actions (transport sample_device) = []" "state (transport sample_device) = Closed"
    by (simp_all add: sample_device_def bau_new_def install_io_list_def Let_def tl_new_def)
  have "destination_address_raw connect_frame \<noteq> ia_raw (bau_individual_address sample_device)"
    using f(3) sample_device_address [of "memory_area sample_device"] by simp
  from foreign_destination [OF f(1,2) this d(1), of 0] t d(2) show ?thesis by blast
qed

end
