(* ===== verification/Bau_System.thy ===== *)
theory Bau_System
  imports Bau_Memory
begin

text \<open>
  Two devices on one bus: a value written to a group object of one device arrives in the associated
  group objects of another, through poll, frame, transport and application layer of both.
\<close>

lemma polled_request:
  assumes "bau_inv a" and "configured a" and "transport a = tl_new" and "sendable a"
    and "store_get k (group_objects a) = Some go" and "is_pending go" and "request_of a go = Some r"
  shows "\<exists>a'. poll now a = Inr a' \<and> request_frame a r \<in> set (outbox a') \<and>
    store_get k (group_objects a') = Some (go_set_comm_flag CfTransmitting go)"
proof -
  define c where "c = a\<lparr>now_ms := now\<rparr>"
  have "tl_poll now (transport a) = transport a" "actions (transport c) = []"
    using assms(3) by (simp_all add: tl_poll_def tl_new_def due_def c_def)
  then have "drain_transport_actions (a\<lparr>now_ms := now, transport := tl_poll now (transport a)\<rparr>) = Inr c"
    using drain_idle [of c] by (simp add: c_def)
  moreover have "configured c" using assms(2) by (simp add: c_def configured_def)
  ultimately have p: "poll now a = send_pending (Suc (length (gs_objects (group_objects c)))) c"
    by (simp add: poll_def del: send_pending.simps)
  have same: "request_of c = request_of a" "request_frame c = request_frame a" "group_objects c = group_objects a"
    by (simp_all add: fun_eq_iff request_of_def resolve_group_address_def request_frame_def
        bau_individual_address_def device_def c_def)
  have "sendable c" using assms(4) by (simp add: sendable_def requests_def same)
  moreover have "pending (group_objects c) < Suc (length (gs_objects (group_objects c)))"
    by (simp add: pending_def le_imp_less_Suc)
  moreover have "store_ok (group_objects c)" using assms(1) by (simp add: same bau_inv_def)
  ultimately have s: "poll now a = Inr (after_sending c)"
    unfolding p by (intro send_pending_spec)
  have "go \<in> set (gs_objects (group_objects a))"
    using assms(5) by (auto simp: store_get_def Let_def split: if_splits)
  then have "r \<in> set (requests a)"
    using assms(6,7) by (force simp: requests_def List.map_filter_def)
  then have "request_frame a r \<in> set (outbox (after_sending c))"
    by (simp add: after_sending_def same requests_def)
  moreover have "store_get k (group_objects (after_sending c)) = Some (go_set_comm_flag CfTransmitting go)"
    using assms(5-7) by (simp add: after_sending_def store_get_def same served_def Let_def split: if_splits)
  ultimately show ?thesis using s by blast
qed

text \<open>
  C5: From one device to another. A loaded device without a connection holds a group object whose
  value was written and whose group address is known. Its next poll puts a frame on the bus and marks
  the object as Transmitting. When another device receives that frame, every group object that it
  associates with the address and that accepts writes holds the value and is Updated; its other
  group objects do not change.
\<close>
theorem group_value_travels:
  assumes "bau_inv a" and "configured a" and "transport a = tl_new" and "sendable a"
    and "store_get k (group_objects a) = Some go" and "go_comm_flag go = CfWriteRequest"
    and "encode_group_value_write_for_dpt (go_dpt go) (go_data go) = Inr payload"
    and "go_data go \<noteq> []" and "length (go_data go) \<le> 254"
    and "resolve_group_address (go_asap go) a = Some ga" and "ga \<noteq> 0"
    and "at_get_tsap ga (address_table b) = Some tsap" and "actions (transport b) = []"
  shows "\<exists>a' f b'. poll now a = Inr a' \<and> f \<in> set (outbox a') \<and>
    store_get k (group_objects a') = Some (go\<lparr>go_comm_flag := CfTransmitting\<rparr>) \<and>
    process_frame f later b = Inr b' \<and>
    (\<forall>j. store_get j (group_objects b') =
      (if j \<in> set (asaps_for_tsap tsap (association_table b)) \<and> bus_accepts write_enable j b
       then map_option (\<lambda>g. g\<lparr>go_data := copy_prefix (go_data go) (go_data g), go_comm_flag := CfUpdated\<rparr>)
              (store_get j (group_objects b))
       else store_get j (group_objects b)))"
proof -
  note enc = group_value_decodes [OF assms(7) [unfolded encode_group_value_write_for_dpt_def] assms(9)]
  have r: "request_of a go = Some (ga, payload)"
    using assms(6,7,10) by (simp add: request_of_def request_payload_def)
  let ?f = "request_frame a (ga, payload)"
  have "is_pending go" using assms(6) by (simp add: is_pending_def)
  from polled_request [OF assms(1-5) this r] obtain a' where a': "poll now a = Inr a'" "?f \<in> set (outbox a')"
    "store_get k (group_objects a') = Some (go\<lparr>go_comm_flag := CfTransmitting\<rparr>)"
    by (auto simp: go_set_comm_flag_def)
  note f = request_frame_Some [OF enc(3), of a ga]
  have code: "message_code_raw ?f \<noteq> message_code_u8 LDataCon" and dst: "destination_address_raw ?f = ga"
    by (simp_all add: frame_fields [OF f])
  have "apdu_parse payload (npdu_of payload) = Some \<lparr>apdu_type = GroupValueWrite, apdu_data = go_data go\<rparr>"
    using enc(1) assms(8) by (simp add: raw_npdu_npdu_of [OF enc(3)] service_type_def)
  from unnumbered_frame [OF f enc(2,4) this] assms(11) obtain q where
    t: "cemi_tpdu ?f = Some (TData DataGroup q \<lparr>apdu_type = GroupValueWrite, apdu_data = go_data go\<rparr>)"
    by auto
  have "at_get_tsap (destination_address_raw ?f) (address_table b) = Some tsap"
    using assms(12) dst by simp
  from group_telegram_effect [OF code t _ this assms(13), of later] a' show ?thesis
    by (auto simp: admits_def)
qed

theorem group_value_travels_witness:
  "\<exists>a' f b'. poll 0 sample_sender = Inr a' \<and> f \<in> set (outbox a') \<and> process_frame f 7 sample_bau = Inr b' \<and>
    store_get 1 (group_objects b') = Some \<lparr>go_asap = 1, go_comm_flag = CfUpdated, go_data = [1],
       go_dpt = None, go_on_update = False\<rparr>"
proof -
  let ?go = "\<lparr>go_asap = 1, go_comm_flag = CfWriteRequest, go_data = [1], go_dpt = None, go_on_update = False\<rparr>"
  note s = sample_sender_fields
  have r: "requests sample_sender = [(0x0801, [0x00, 0x81])]"
    using sample_requests [of "now_ms sample_sender"] by simp
  have g: "store_get 1 (group_objects sample_sender) = Some ?go"
    by (simp add: store_get_def s(5))
  have e: "encode_group_value_write_for_dpt (go_dpt ?go) (go_data ?go) = Inr [0x00, 0x81]"
    by (simp add: encode_group_value_write_for_dpt_def encode_group_value_for_dpt_def
        encode_group_value_write_def encode_group_value_def apci_bytes_def app_masks)
  have sb: "actions (transport sample_bau) = []" "at_get_tsap 0x0801 (address_table sample_bau) = Some 1"
    by simp_all
  have sd: "sendable sample_sender" by (simp add: sendable_def r)
  from group_value_travels [OF s(1,3,4) sd g _ e _ _ _ _ sb(2,1), of 0 7] s(6) show ?thesis
    by (force simp: bus_accepts_def go_new_def copy_prefix_def buf_write_def)
qed

end
