(* ===== verification/Tp_Uart.thy ===== *)
theory Tp_Uart
  imports Cemi
begin

text \<open>
  The twisted-pair link of the crate \<^verbatim>\<open>knx-rs-tp\<close>: bus frames (\<^verbatim>\<open>frame.rs\<close>), the constants of
  the TP-UART chip (\<^verbatim>\<open>commands.rs\<close>) and the host side of its protocol (\<^verbatim>\<open>protocol.rs\<close>). The serial
  interface is a trait the application implements; an operation that writes returns the octets
  written, and \<open>process\<close> takes the outcome of the one read it makes.
\<close>

section \<open>Commands\<close>

definition U_RESET_REQ :: u8 where "U_RESET_REQ = 0x01"
definition U_STATE_REQ :: u8 where "U_STATE_REQ = 0x02"
definition U_BUSMON_REQ :: u8 where "U_BUSMON_REQ = 0x05"
definition U_SYSTEM_STATE_REQ :: u8 where "U_SYSTEM_STATE_REQ = 0x0D"
definition U_STOP_MODE_REQ :: u8 where "U_STOP_MODE_REQ = 0x0E"
definition U_EXIT_STOP_MODE_REQ :: u8 where "U_EXIT_STOP_MODE_REQ = 0x0F"
definition U_ACK_REQ :: u8 where "U_ACK_REQ = 0x10"
definition ACK_ADDRESSED :: u8 where "ACK_ADDRESSED = 0x01"
definition ACK_BUSY :: u8 where "ACK_BUSY = 0x02"
definition ACK_NACK :: u8 where "ACK_NACK = 0x04"
definition U_L_DATA_START_REQ :: u8 where "U_L_DATA_START_REQ = 0x80"
definition U_L_DATA_CONT_REQ :: u8 where "U_L_DATA_CONT_REQ = U_L_DATA_START_REQ"
definition U_L_DATA_END_REQ :: u8 where "U_L_DATA_END_REQ = 0x40"
definition U_L_DATA_INDEX_MASK :: u8 where "U_L_DATA_INDEX_MASK = 0x3F"
definition U_NCN5120_SET_ADDRESS_REQ :: u8 where "U_NCN5120_SET_ADDRESS_REQ = 0xF1"
definition U_TPUART2_SET_ADDRESS_REQ :: u8 where "U_TPUART2_SET_ADDRESS_REQ = 0x28"
definition U_RESET_IND :: u8 where "U_RESET_IND = 0x03"
definition U_STATE_IND :: u8 where "U_STATE_IND = 0x07"
definition U_STATE_MASK :: u8 where "U_STATE_MASK = 0x07"
definition U_FRAME_STATE_IND :: u8 where "U_FRAME_STATE_IND = 0x13"
definition U_FRAME_STATE_MASK :: u8 where "U_FRAME_STATE_MASK = 0x17"
definition L_DATA_STANDARD_IND :: u8 where "L_DATA_STANDARD_IND = 0x90"
definition L_DATA_EXTENDED_IND :: u8 where "L_DATA_EXTENDED_IND = 0x10"
definition L_DATA_MASK :: u8 where "L_DATA_MASK = 0xD3"
definition L_DATA_CON_SUCCESS_MASK :: u8 where "L_DATA_CON_SUCCESS_MASK = 0x80"

datatype BcuType = TpUart2 | Ncn5120

lemmas tp_commands = U_RESET_REQ_def U_STATE_REQ_def U_ACK_REQ_def U_L_DATA_START_REQ_def U_L_DATA_CONT_REQ_def
  U_L_DATA_END_REQ_def U_L_DATA_INDEX_MASK_def U_RESET_IND_def U_STATE_IND_def U_STATE_MASK_def
  U_FRAME_STATE_IND_def U_FRAME_STATE_MASK_def L_DATA_STANDARD_IND_def L_DATA_EXTENDED_IND_def L_DATA_MASK_def
  L_DATA_CON_SUCCESS_MASK_def

section \<open>Frames\<close>

definition MAX_FRAME_LEN :: nat where "MAX_FRAME_LEN = 64"
definition HEADER_STD :: nat where "HEADER_STD = 6"
definition HEADER_EXT :: nat where "HEADER_EXT = 7"
definition CRC_LEN :: nat where "CRC_LEN = 1"
definition APDU_LEN_MASK :: u8 where "APDU_LEN_MASK = 0x0F"
definition CTRL_FRAME_TYPE :: u8 where "CTRL_FRAME_TYPE = 0x80"

lemmas tp_sizes = MAX_FRAME_LEN_def HEADER_STD_def HEADER_EXT_def CRC_LEN_def APDU_LEN_MASK_def CTRL_FRAME_TYPE_def

definition is_extended_ctrl :: "u8 \<Rightarrow> bool" where
  "is_extended_ctrl ctrl \<longleftrightarrow> ctrl AND L_DATA_MASK = L_DATA_EXTENDED_IND"

record TpFrame =
  tp_data :: "u8 list"
  tp_len :: nat

definition tp_from_bytes :: "u8 list \<Rightarrow> TpFrame option" where
  "tp_from_bytes data =
     (if length data < HEADER_STD + CRC_LEN \<or> length data > MAX_FRAME_LEN then None
      else Some \<lparr>tp_data = buf_write 0 data (replicate MAX_FRAME_LEN 0), tp_len = length data\<rparr>)"

definition tp_as_bytes :: "TpFrame \<Rightarrow> u8 list" where
  "tp_as_bytes t = take (tp_len t) (tp_data t)"

definition tp_is_empty :: "TpFrame \<Rightarrow> bool" where
  "tp_is_empty t \<longleftrightarrow> tp_len t = 0"

definition is_extended :: "TpFrame \<Rightarrow> bool" where
  "is_extended t \<longleftrightarrow> is_extended_ctrl (tp_data t ! 0)"

definition tp_source :: "TpFrame \<Rightarrow> IndividualAddress" where
  "tp_source t = IndividualAddress
     (if is_extended t then be16 (tp_data t ! 2) (tp_data t ! 3) else be16 (tp_data t ! 1) (tp_data t ! 2))"

definition destination_raw :: "TpFrame \<Rightarrow> u16" where
  "destination_raw t =
     (if is_extended t then be16 (tp_data t ! 4) (tp_data t ! 5) else be16 (tp_data t ! 3) (tp_data t ! 4))"

definition apdu_size :: "TpFrame \<Rightarrow> u8" where
  "apdu_size t = (if is_extended t then tp_data t ! 6 else tp_data t ! 5 AND APDU_LEN_MASK)"

definition calc_crc :: "TpFrame \<Rightarrow> u8" where
  "calc_crc t = (if tp_len t = 0 then 0 else calc_crc_tp (take (tp_len t - 1) (tp_data t)))"

definition is_valid :: "TpFrame \<Rightarrow> bool" where
  "is_valid t \<longleftrightarrow> tp_len t \<ge> 7 \<and> tp_data t ! (tp_len t - 1) = calc_crc t"

definition append_crc :: "TpFrame \<Rightarrow> TpFrame" where
  "append_crc t = t\<lparr>tp_data := (tp_data t)[tp_len t - 1 := calc_crc_tp (take (tp_len t - 1) (tp_data t))]\<rparr>"

definition tp_from_cemi :: "CemiFrame \<Rightarrow> TpFrame option" where
  "tp_from_cemi cemi =
     (let payload = cemi_payload cemi; npdu_len = npdu_length cemi; apdu_len = length payload;
          data = replicate MAX_FRAME_LEN 0;
          src = ia_to_bytes (source_address cemi); dst_raw = to_be16 (destination_address_raw cemi);
          c1 = as_bytes cemi ! 2; c2 = as_bytes cemi ! 3
      in if npdu_len \<le> APDU_LEN_MASK then
           (if HEADER_STD + apdu_len + CRC_LEN > MAX_FRAME_LEN then None
            else let data = data[0 := c1 OR CTRL_FRAME_TYPE]; data = data[1 := src ! 0]; data = data[2 := src ! 1];
                     data = data[3 := dst_raw ! 0]; data = data[4 := dst_raw ! 1];
                     data = data[5 := (c2 AND 0xF0) OR (npdu_len AND APDU_LEN_MASK)];
                     data = buf_write HEADER_STD payload data
              in Some (append_crc \<lparr>tp_data = data, tp_len = HEADER_STD + apdu_len + CRC_LEN\<rparr>))
         else
           (if HEADER_EXT + apdu_len + CRC_LEN > MAX_FRAME_LEN then None
            else let data = data[0 := c1 AND NOT CTRL_FRAME_TYPE]; data = data[1 := c2];
                     data = data[2 := src ! 0]; data = data[3 := src ! 1];
                     data = data[4 := dst_raw ! 0]; data = data[5 := dst_raw ! 1];
                     data = data[6 := npdu_len];
                     data = buf_write HEADER_EXT payload data
              in Some (append_crc \<lparr>tp_data = data, tp_len = HEADER_EXT + apdu_len + CRC_LEN\<rparr>)))"

section \<open>The host side of the protocol\<close>

datatype TpIndication = IndReset | IndState u8 | IndFrame TpFrame | IndTransmitConfirm bool | IndOverrun

record TpUartProtocol =
  bcu_type :: BcuType
  rx_buf :: "u8 list"
  rx_pos :: nat
  rx_expected :: nat

definition tp_uart_new :: "BcuType \<Rightarrow> TpUartProtocol" where
  "tp_uart_new t = \<lparr>bcu_type = t, rx_buf = replicate MAX_FRAME_LEN 0, rx_pos = 0, rx_expected = 0\<rparr>"

definition tp_reset :: "u8 list" where "tp_reset = [U_RESET_REQ]"
definition tp_request_state :: "u8 list" where "tp_request_state = [U_STATE_REQ]"

definition tp_set_address :: "u16 \<Rightarrow> TpUartProtocol \<Rightarrow> u8 list" where
  "tp_set_address address p =
     [case bcu_type p of Ncn5120 \<Rightarrow> U_NCN5120_SET_ADDRESS_REQ | TpUart2 \<Rightarrow> U_TPUART2_SET_ADDRESS_REQ,
      ucast (drop_bit 8 address), ucast (address AND 0xFF)]"

definition tp_send_ack :: "bool \<Rightarrow> bool \<Rightarrow> bool \<Rightarrow> u8 list" where
  "tp_send_ack addressed busy nack =
     (let ack = U_ACK_REQ;
          ack = (if addressed then ack OR ACK_ADDRESSED else ack);
          ack = (if busy then ack OR ACK_BUSY else ack);
          ack = (if nack then ack OR ACK_NACK else ack)
      in [ack])"

text \<open>The loop over the octets of a frame from index \<open>i\<close> on.\<close>

fun transmit_from :: "nat \<Rightarrow> nat \<Rightarrow> u8 list \<Rightarrow> u8 list" where
  "transmit_from final i [] = []"
| "transmit_from final i (byte # bytes) =
     (let idx = of_nat i AND U_L_DATA_INDEX_MASK;
          cmd = (if i = 0 then U_L_DATA_START_REQ OR idx
                 else if i = final then U_L_DATA_END_REQ OR idx else U_L_DATA_CONT_REQ OR idx)
      in [cmd, byte] @ transmit_from final (i + 1) bytes)"

definition tp_transmit :: "TpFrame \<Rightarrow> u8 list" where
  "tp_transmit t = (let data = tp_as_bytes t in transmit_from (length data - 1) 0 data)"

definition is_frame_start :: "u8 \<Rightarrow> bool" where
  "is_frame_start byte \<longleftrightarrow> (let masked = byte AND L_DATA_MASK in
     masked = L_DATA_STANDARD_IND \<or> masked = L_DATA_EXTENDED_IND)"

definition process_idle :: "u8 \<Rightarrow> TpUartProtocol \<Rightarrow> TpUartProtocol \<times> TpIndication option" where
  "process_idle byte p =
     (if byte = U_RESET_IND then (p, Some IndReset)
      else if byte AND U_STATE_MASK = U_STATE_IND then (p, Some (IndState byte))
      else if byte AND U_FRAME_STATE_MASK = U_FRAME_STATE_IND
      then (p, Some (IndTransmitConfirm (byte AND L_DATA_CON_SUCCESS_MASK = 0)))
      else if is_frame_start byte then (p\<lparr>rx_buf := (rx_buf p)[0 := byte], rx_pos := 1, rx_expected := 0\<rparr>, None)
      else (p, None))"

definition store_byte :: "u8 \<Rightarrow> TpUartProtocol \<Rightarrow> TpUartProtocol" where
  "store_byte byte p =
     (if rx_pos p < length (rx_buf p) then p\<lparr>rx_buf := (rx_buf p)[rx_pos p := byte], rx_pos := rx_pos p + 1\<rparr> else p)"

definition frame_length :: "u8 list \<Rightarrow> nat" where
  "frame_length buf =
     (let is_ext = is_extended_ctrl (buf ! 0);
          apdu_len = (if is_ext then unat (buf ! 6) else unat (buf ! 5 AND APDU_LEN_MASK));
          header = (if is_ext then HEADER_EXT else HEADER_STD)
      in header + apdu_len + 1 + CRC_LEN)"

definition finish_frame :: "TpUartProtocol \<Rightarrow> TpUartProtocol \<times> TpIndication option" where
  "finish_frame p =
     (if rx_expected p > 0 \<and> rx_pos p \<ge> rx_expected p then
        let frame = tp_from_bytes (take (rx_pos p) (rx_buf p))
        in (p\<lparr>rx_pos := 0, rx_expected := 0\<rparr>, map_option IndFrame frame)
      else (p, None))"

definition tp_process :: "u8 option \<Rightarrow> TpUartProtocol \<Rightarrow> TpUartProtocol \<times> TpIndication option" where
  "tp_process read p =
     (case read of
        None \<Rightarrow> (p, None)
      | Some byte \<Rightarrow>
          if rx_pos p = 0 then process_idle byte p
          else let p = store_byte byte p in
            if rx_expected p = 0 \<and> rx_pos p \<ge> HEADER_STD + CRC_LEN then
              let expected = frame_length (rx_buf p) in
              if expected > length (rx_buf p) then (p\<lparr>rx_pos := 0, rx_expected := 0\<rparr>, Some IndOverrun)
              else finish_frame (p\<lparr>rx_expected := expected\<rparr>)
            else finish_frame p)"

section \<open>The receiver never gets stuck\<close>

text \<open>A run over a sequence of received octets, with the indications in order.\<close>

fun feed :: "u8 list \<Rightarrow> TpUartProtocol \<Rightarrow> TpUartProtocol \<times> TpIndication list" where
  "feed [] p = (p, [])"
| "feed (b # bs) p =
     (let (p', i) = tp_process (Some b) p; (p'', is) = feed bs p'
      in (p'', (case i of None \<Rightarrow> is | Some x \<Rightarrow> x # is)))"

definition rx_inv :: "TpUartProtocol \<Rightarrow> bool" where
  "rx_inv p \<longleftrightarrow> length (rx_buf p) = MAX_FRAME_LEN \<and>
     (rx_expected p = 0 \<and> rx_pos p < HEADER_STD + CRC_LEN \<or>
      HEADER_STD + CRC_LEN \<le> rx_pos p \<and> rx_pos p < rx_expected p \<and> rx_expected p \<le> MAX_FRAME_LEN)"

lemma rx_inv_step:
  assumes "rx_inv p" and "tp_process (Some b) p = (p', i)"
  shows "rx_inv p'" "rx_pos p \<noteq> 0 \<Longrightarrow> rx_pos p' = 0 \<or> rx_pos p' = rx_pos p + 1"
proof -
  have fl: "8 \<le> frame_length buf" for buf
    by (simp add: frame_length_def tp_sizes Let_def)
  show "rx_inv p'" "rx_pos p \<noteq> 0 \<Longrightarrow> rx_pos p' = 0 \<or> rx_pos p' = rx_pos p + 1"
    using assms fl [of "(rx_buf p)[rx_pos p := b]"]
    by (auto simp: tp_process_def process_idle_def store_byte_def finish_frame_def rx_inv_def tp_sizes Let_def
        split: if_splits)
qed

lemma feed_append: "feed (xs @ ys) p =
    (let (p', is) = feed xs p; (p'', js) = feed ys p' in (p'', is @ js))"
  by (induction xs arbitrary: p) (simp_all add: split_beta Let_def split: option.split)

inductive tp_reachable :: "TpUartProtocol \<Rightarrow> bool" where
  new: "tp_reachable (tp_uart_new t)"
| process: "tp_reachable p \<Longrightarrow> tp_reachable (fst (tp_process r p))"

lemma tp_reachable_inv: "tp_reachable p \<Longrightarrow> rx_inv p"
proof (induction rule: tp_reachable.induct)
  case (process p r)
  then show ?case
    by (cases r) (auto simp: tp_process_def [of None] intro: rx_inv_step(1) [OF _ prod.collapse [symmetric]])
qed (simp add: rx_inv_def tp_uart_new_def tp_sizes)

lemma becomes_idle:
  assumes "rx_inv p" and "MAX_FRAME_LEN - rx_pos p \<le> length bs"
  shows "\<exists>k \<le> MAX_FRAME_LEN - rx_pos p. rx_pos (fst (feed (take k bs) p)) = 0"
  using assms
proof (induction "MAX_FRAME_LEN - rx_pos p" arbitrary: p bs)
  case 0
  then show ?case by (auto simp: rx_inv_def tp_sizes)
next
  case (Suc n)
  show ?case
  proof (cases "rx_pos p = 0")
    case False
    from Suc.hyps(2) Suc.prems(2) obtain b cs where bs: "bs = b # cs" by (cases bs) auto
    obtain p' i where st: "tp_process (Some b) p = (p', i)" by fastforce
    note inv = rx_inv_step [OF Suc.prems(1) st]
    show ?thesis
    proof (cases "rx_pos p' = 0")
      case True
      with Suc.hyps(2) show ?thesis by (intro exI [of _ 1]) (auto simp: bs st)
    next
      case False
      with inv(2) \<open>rx_pos p \<noteq> 0\<close> have s: "rx_pos p' = rx_pos p + 1" by simp
      have "n = MAX_FRAME_LEN - rx_pos p'" "MAX_FRAME_LEN - rx_pos p' \<le> length cs"
        using Suc.hyps(2) Suc.prems(2) s bs by auto
      from Suc.hyps(1) [OF this(1) inv(1) this(2)] obtain k where "k \<le> MAX_FRAME_LEN - rx_pos p'" "rx_pos (fst (feed (take k cs) p')) = 0" by blast
      with s Suc.hyps(2) show ?thesis
        by (intro exI [of _ "Suc k"]) (auto simp: bs st split_beta Let_def)
    qed
  qed (intro exI [of _ 0], simp)
qed

text \<open>
  C36: Whatever octets the chip sends, the receiver stays inside its buffer of 64 octets: it has fewer
  octets stored than the frame it expects, which fits the buffer. It never waits for ever: from any
  state it can reach, at most as many further octets as the buffer has room for bring it back to
  waiting for the start of a frame, whatever these octets are.
\<close>
theorem tp_receiver_recovers:
  assumes "tp_reachable p"
  shows "length (rx_buf p) = 64 \<and> rx_pos p < 64 \<and> (rx_expected p \<noteq> 0 \<longrightarrow> rx_pos p < rx_expected p \<and> rx_expected p \<le> 64) \<and>
    (64 - rx_pos p \<le> length bs \<longrightarrow> (\<exists>k \<le> 64 - rx_pos p. rx_pos (fst (feed (take k bs) p)) = 0))"
  using becomes_idle [OF tp_reachable_inv [OF assms], of bs] tp_reachable_inv [OF assms]
  by (auto simp: rx_inv_def tp_sizes)

theorem tp_receiver_recovers_witness:
  "\<exists>k \<le> 63. rx_pos (fst (feed (take k (replicate 63 0xFF)) (fst (tp_process (Some 0x10) (tp_uart_new Ncn5120))))) = 0"
proof -
  have r: "tp_reachable (fst (tp_process (Some 0x10) (tp_uart_new Ncn5120)))"
    by (intro tp_reachable.process tp_reachable.new)
  have "rx_pos (fst (tp_process (Some 0x10) (tp_uart_new Ncn5120))) = 1"
    by (simp add: tp_process_def process_idle_def tp_uart_new_def tp_commands is_frame_start_def)
  with tp_receiver_recovers [OF r, of "replicate 63 0xFF"] show ?thesis by simp
qed

section \<open>Receiving a whole frame\<close>

lemma frame_start_idle:
  assumes "is_frame_start byte"
  shows "process_idle byte p = (p\<lparr>rx_buf := (rx_buf p)[0 := byte], rx_pos := 1, rx_expected := 0\<rparr>, None)"
proof -
  have "byte AND 1 = (byte AND 0xD3) AND 1" by (simp add: and.assoc)
  then have z: "byte AND 1 = 0"
    using assms unfolding is_frame_start_def Let_def tp_commands by auto
  have "byte AND (7 AND 1) \<noteq> 7 AND 1" "byte AND (0x17 AND 1) \<noteq> 0x13 AND 1" "byte AND 1 \<noteq> 3 AND 1"
    using z by simp_all
  then have "byte \<noteq> 3" "byte AND 7 \<noteq> 7" "byte AND 0x17 \<noteq> 0x13"
    unfolding and.assoc [symmetric] by metis+
  with assms show ?thesis by (simp add: process_idle_def tp_commands)
qed

lemma frame_length_prefix: "7 \<le> length bs \<Longrightarrow> take 7 buf = take 7 bs \<Longrightarrow> frame_length buf = frame_length bs"
proof -
  assume t: "take 7 buf = take 7 bs"
  have "buf ! i = bs ! i" if "i < 7" for i
    using arg_cong [OF t, of "\<lambda>xs. xs ! i"] that by simp
  from this [of 0] this [of 5] this [of 6] show ?thesis by (simp add: frame_length_def Let_def)
qed

lemma frame_length_ge: "8 \<le> frame_length buf"
  by (simp add: frame_length_def tp_sizes Let_def)

lemma feed_partial:
  assumes "is_frame_start (bs ! 0)" and "n = frame_length bs" and "n \<le> length bs" and "n \<le> 64"
    and "rx_pos p = 0" and "length (rx_buf p) = 64" and "k < n" and "0 < k"
  shows "\<exists>q. feed (take k bs) p = (q, []) \<and> rx_pos q = k \<and> length (rx_buf q) = 64 \<and>
    take k (rx_buf q) = take k bs \<and> rx_expected q = (if k < 7 then 0 else n) \<and> bcu_type q = bcu_type p"
  using assms(7,8)
proof (induction k)
  case (Suc k)
  have n: "8 \<le> n" using frame_length_ge assms(2) by simp
  have t: "take (Suc k) bs = take k bs @ [bs ! k]"
    using Suc.prems(1) assms(3) by (simp add: take_Suc_conv_app_nth)
  show ?case
  proof (cases "k = 0")
    case True
    then show ?thesis
      using t frame_start_idle [OF assms(1), of p] assms(5,6) n assms(3)
      by (auto simp: tp_process_def take_Suc_conv_app_nth)
  next
    case False
    with Suc obtain q where q: "feed (take k bs) p = (q, [])" "rx_pos q = k" "length (rx_buf q) = 64"
      "take k (rx_buf q) = take k bs" "rx_expected q = (if k < 7 then 0 else n)" "bcu_type q = bcu_type p" by auto
    let ?b = "(rx_buf q)[k := bs ! k]"
    have k: "k < 64" using Suc.prems(1) assms(4) by simp
    have tk: "take (Suc k) ?b = take (Suc k) bs"
      using q(3,4) k Suc.prems(1) assms(3) by (simp add: take_Suc_conv_app_nth)
    have f: "frame_length ?b = n" if "k = 6"
      using frame_length_prefix [of bs ?b] tk that n assms(2,3) by simp
    have "tp_process (Some (bs ! k)) q = (q\<lparr>rx_buf := ?b, rx_pos := Suc k, rx_expected := if Suc k < 7 then 0 else n\<rparr>, None)"
    proof -
      consider "k < 6" | "k = 6" | "7 \<le> k" by linarith
      then show ?thesis
      proof cases
        case 2
        with q f Suc.prems(1) assms(4) show ?thesis
          by (simp add: tp_process_def store_byte_def finish_frame_def tp_sizes Let_def)
      qed (use q False k Suc.prems(1) in \<open>auto simp: tp_process_def store_byte_def finish_frame_def tp_sizes Let_def\<close>)
    qed
    with q tk show ?thesis
      unfolding t feed_append by simp
  qed
qed simp

lemma feed_frame:
  assumes "is_frame_start (bs ! 0)" and "n = frame_length bs" and "n \<le> length bs" and "n \<le> 64"
    and "rx_pos p = 0" and "length (rx_buf p) = 64"
  shows "\<exists>q. feed (take n bs) p = (q, [IndFrame \<lparr>tp_data = take n bs @ replicate (64 - n) 0, tp_len = n\<rparr>]) \<and>
    rx_pos q = 0 \<and> rx_expected q = 0 \<and> length (rx_buf q) = 64"
proof -
  have n: "8 \<le> n" using frame_length_ge assms(2) by simp
  then obtain m where m: "n = Suc m" "7 \<le> m" by (cases n) auto
  from feed_partial [OF assms, of m] m obtain q where q: "feed (take m bs) p = (q, [])" "rx_pos q = m"
    "length (rx_buf q) = 64" "take m (rx_buf q) = take m bs" "rx_expected q = n" by auto
  have t: "take n bs = take m bs @ [bs ! m]"
    using m assms(3) by (simp add: take_Suc_conv_app_nth)
  have b: "take n ((rx_buf q)[m := bs ! m]) = take n bs"
    using q(3,4) m assms(3,4) by (simp add: take_Suc_conv_app_nth)
  have r: "buf_write 0 (take n bs) (replicate 64 0) = take n bs @ replicate (64 - n) (0::u8)"
    using assms(3) by (simp add: buf_write_def)
  have "tp_process (Some (bs ! m)) q = (q\<lparr>rx_buf := (rx_buf q)[m := bs ! m], rx_pos := 0, rx_expected := 0\<rparr>,
      Some (IndFrame \<lparr>tp_data = take n bs @ replicate (64 - n) 0, tp_len = n\<rparr>))"
    using q m assms(3,4) b r by (simp add: tp_process_def store_byte_def finish_frame_def tp_sizes tp_from_bytes_def Let_def)
  with q show ?thesis
    unfolding t feed_append by simp
qed

section \<open>From cEMI to the bus and back\<close>

definition tp_header :: "IndividualAddress \<Rightarrow> DestinationAddress \<Rightarrow> Priority \<Rightarrow> nat \<Rightarrow> u8 list" where
  "tp_header src dst p npdu =
     (let c2 = address_type_u8 (dest_type dst) OR 0x60 in
      if npdu \<le> 15 then [0xB0 OR priority_u8 p] @ to_be16 (ia_raw src) @ to_be16 (dest_raw dst) @ [c2 OR of_nat npdu]
      else [0x30 OR priority_u8 p, c2] @ to_be16 (ia_raw src) @ to_be16 (dest_raw dst) @ [of_nat npdu])"

lemma append_crc_octets:
  assumes "length bs < 64"
  shows "append_crc \<lparr>tp_data = bs @ replicate (64 - length bs) 0, tp_len = Suc (length bs)\<rparr> =
    \<lparr>tp_data = bs @ [calc_crc_tp bs] @ replicate (63 - length bs) 0, tp_len = Suc (length bs)\<rparr>"
proof -
  have "64 - length bs = Suc (63 - length bs)" using assms by linarith
  then show ?thesis by (simp add: append_crc_def)
qed

lemma header_zeros: "replicate 64 (0::u8) = [0, 0, 0, 0, 0, 0] @ replicate 58 0"
  "replicate 64 (0::u8) = [0, 0, 0, 0, 0, 0, 0] @ replicate 57 0"
proof -
  have six: "replicate 6 (0::u8) = [0, 0, 0, 0, 0, 0]" and seven: "replicate 7 (0::u8) = [0, 0, 0, 0, 0, 0, 0]"
    by (simp_all add: eval_nat_numeral)
  have e: "(64::nat) = 6 + 58" "(64::nat) = 7 + 57" by simp_all
  show "replicate 64 (0::u8) = [0, 0, 0, 0, 0, 0] @ replicate 58 0"
    unfolding e(1) replicate_add six ..
  show "replicate 64 (0::u8) = [0, 0, 0, 0, 0, 0, 0] @ replicate 57 0"
    unfolding e(2) replicate_add seven ..
qed

lemma header_sizes: "7 + n = Suc (Suc (Suc (Suc (Suc (Suc (Suc n))))))"
  "8 + n = Suc (Suc (Suc (Suc (Suc (Suc (Suc (Suc n)))))))" for n :: nat
  by simp_all

lemma write_std_header:
  "(replicate 64 0)[0 := a, Suc 0 := to_be16 s ! 0, 2 := to_be16 s ! Suc 0, 3 := to_be16 d ! 0, 4 := to_be16 d ! Suc 0, 5 := g] =
    ([a] @ to_be16 s @ to_be16 d @ [g]) @ replicate 58 (0::u8)"
  unfolding header_zeros(1) by (simp add: to_be16_def numeral_2_eq_2 numeral_3_eq_3 eval_nat_numeral)

lemma write_ext_header:
  "(replicate 64 0)[0 := a, Suc 0 := b, 2 := to_be16 s ! 0, 3 := to_be16 s ! Suc 0, 4 := to_be16 d ! 0, 5 := to_be16 d ! Suc 0, 6 := g] =
    ([a, b] @ to_be16 s @ to_be16 d @ [g]) @ replicate 57 (0::u8)"
  unfolding header_zeros(2) by (simp add: to_be16_def numeral_2_eq_2 numeral_3_eq_3 eval_nat_numeral)

lemma tp_from_cemi_octets:
  assumes "new_l_data mc src dst p payload = Some f" and "payload \<noteq> []"
  defines "npdu \<equiv> length payload - 1"
  defines "bytes \<equiv> tp_header src dst p npdu @ pad_payload payload"
  shows "tp_from_cemi f = (if length bytes < 64
    then Some \<lparr>tp_data = bytes @ [calc_crc_tp bytes] @ replicate (63 - length bytes) 0, tp_len = Suc (length bytes)\<rparr> else None)"
proof -
  have l: "length payload \<le> 256" and f: "f = \<lparr>frame_data = l_data_octets mc src dst p payload, ctrl_offset = 2\<rparr>"
    using assms(1) try_new_l_data_frame [of payload mc src dst p]
    by (auto simp: new_l_data_def try_new_l_data_def Let_def split: sum.splits if_splits)
  have npdu: "npdu < 256" using l by (simp add: npdu_def)
  let ?pad = "pad_payload payload"
  have v: "cemi_payload f = ?pad" "npdu_length f = of_nat npdu" "ia_to_bytes (source_address f) = to_be16 (ia_raw src)"
    "destination_address_raw f = dest_raw dst"
    using frame_fields [OF assms(1)] assms(2) by (simp_all add: npdu_of_def npdu_def ia_to_bytes_def to_be16_def)
  have c: "as_bytes f ! 2 = 0xB0 OR priority_u8 p" "as_bytes f ! 3 = address_type_u8 (dest_type dst) OR 0x60"
    by (cases p; simp add: f as_bytes_def l_data_octets_def push_bit_eq_mult)+
  have std: "of_nat npdu \<le> APDU_LEN_MASK \<longleftrightarrow> npdu \<le> 15"
    using npdu by (simp add: word_le_nat_alt unat_octet tp_sizes)
  show ?thesis
  proof (cases "npdu \<le> 15")
    case True
    have low: "(address_type_u8 (dest_type dst) OR 0x60) AND 0xF0 = address_type_u8 (dest_type dst) OR 0x60"
      "(0xB0 OR priority_u8 p) OR 0x80 = 0xB0 OR priority_u8 p"
      by (cases dst; simp) (cases p; simp)
    have "(of_nat npdu :: u8) AND 0x0F = of_nat npdu"
    proof -
      have "(0x0F :: u8) = mask 4" by (simp add: mask_eq_exp_minus_1)
      with std True show ?thesis by (simp add: tp_sizes le_mask_and)
    qed
    note h = this low
    have b: "bytes = tp_header src dst p npdu @ ?pad" "length (tp_header src dst p npdu) = 6"
      using True by (simp_all add: bytes_def tp_header_def)
    show ?thesis
    proof (cases "length bytes < 64")
      case fits: True
      have "buf_write 6 ?pad (tp_header src dst p npdu @ replicate 58 0) = bytes @ replicate (64 - length bytes) 0"
        using buf_write_at [OF b(2) refl, of ?pad 58 0] fits b by simp
      then show ?thesis
        using True fits b std append_crc_octets [OF fits]
        by (simp add: tp_from_cemi_def v c Let_def tp_sizes write_std_header h tp_header_def header_sizes)
    qed (use True b std in \<open>simp add: tp_from_cemi_def v Let_def tp_sizes\<close>)
  next
    case False
    have low: "(0xB0 OR priority_u8 p) AND - 129 = 0x30 OR priority_u8 p"
      by (cases p; simp)
    have b: "bytes = tp_header src dst p npdu @ ?pad" "length (tp_header src dst p npdu) = 7"
      using False by (simp_all add: bytes_def tp_header_def)
    show ?thesis
    proof (cases "length bytes < 64")
      case fits: True
      have "buf_write 7 ?pad (tp_header src dst p npdu @ replicate 57 0) = bytes @ replicate (64 - length bytes) 0"
        using buf_write_at [OF b(2) refl, of ?pad 57 0] fits b by simp
      then show ?thesis
        using False fits b std append_crc_octets [OF fits]
        by (simp add: tp_from_cemi_def v c Let_def tp_sizes write_ext_header low tp_header_def header_sizes)
    qed (use False b std in \<open>simp add: tp_from_cemi_def v Let_def tp_sizes\<close>)
  qed
qed

text \<open>A frame as the chip reads it: header, payload and check octet.\<close>

lemma header_octets:
  fixes src dst p npdu xs
  defines "h \<equiv> tp_header src dst p npdu"
  assumes "npdu < 256"
  shows "is_frame_start ((h @ xs) ! 0)" "is_extended_ctrl ((h @ xs) ! 0) \<longleftrightarrow> 15 < npdu"
    "length h = (if npdu \<le> 15 then 6 else 7)" "frame_length (h @ xs) = length h + npdu + 2"
    "npdu \<le> 15 \<Longrightarrow> be16 ((h @ xs) ! 1) ((h @ xs) ! 2) = ia_raw src \<and> be16 ((h @ xs) ! 3) ((h @ xs) ! 4) = dest_raw dst \<and>
      (h @ xs) ! 5 AND APDU_LEN_MASK = of_nat npdu"
    "15 < npdu \<Longrightarrow> be16 ((h @ xs) ! 2) ((h @ xs) ! 3) = ia_raw src \<and> be16 ((h @ xs) ! 4) ((h @ xs) ! 5) = dest_raw dst \<and>
      (h @ xs) ! 6 = of_nat npdu"
proof -
  have c: "(0xB0 OR priority_u8 p) AND 0xD3 = 0x90" "(0x30 OR priority_u8 p) AND 0xD3 = 0x10"
    by (cases p; simp)+
  show start: "is_frame_start ((h @ xs) ! 0)"
    using c by (simp add: h_def tp_header_def is_frame_start_def tp_commands Let_def)
  show ext: "is_extended_ctrl ((h @ xs) ! 0) \<longleftrightarrow> 15 < npdu"
    using c by (simp add: h_def tp_header_def is_extended_ctrl_def tp_commands Let_def)
  show len: "length h = (if npdu \<le> 15 then 6 else 7)"
    by (simp add: h_def tp_header_def Let_def)
  have m: "(0x0F :: u8) = mask 4" by (simp add: mask_eq_exp_minus_1)
  have low: "((address_type_u8 (dest_type dst) OR 0x60) OR of_nat npdu) AND 0x0F = (of_nat npdu :: u8)" if "npdu \<le> 15"
  proof -
    have "(of_nat npdu :: u8) \<le> 0x0F" using that by (simp add: word_le_nat_alt unat_octet)
    then have n: "(of_nat npdu :: u8) AND 0x0F = of_nat npdu" unfolding m le_mask_and .
    have "(address_type_u8 (dest_type dst) OR 0x60) AND 0x0F = 0" by (cases dst; simp)
    then show ?thesis by (simp add: bit.conj_disj_distrib2 n)
  qed
  show std: "npdu \<le> 15 \<Longrightarrow> be16 ((h @ xs) ! 1) ((h @ xs) ! 2) = ia_raw src \<and> be16 ((h @ xs) ! 3) ((h @ xs) ! 4) = dest_raw dst \<and>
      (h @ xs) ! 5 AND APDU_LEN_MASK = of_nat npdu"
    using low by (simp add: h_def tp_header_def Let_def to_be16_def tp_sizes)
  show big: "15 < npdu \<Longrightarrow> be16 ((h @ xs) ! 2) ((h @ xs) ! 3) = ia_raw src \<and> be16 ((h @ xs) ! 4) ((h @ xs) ! 5) = dest_raw dst \<and>
      (h @ xs) ! 6 = of_nat npdu"
    by (simp add: h_def tp_header_def Let_def to_be16_def)
  show "frame_length (h @ xs) = length h + npdu + 2"
    using ext std big len assms(2) by (simp add: frame_length_def Let_def tp_sizes unat_octet)
qed

text \<open>
  C35: A telegram with at most 56 octets of payload becomes a bus frame, an extended one when the payload has
  more than 16 octets; a longer one is refused. The frame has a valid check octet and the source,
  destination and length of the telegram. When its octets reach an idle receiver, exactly
  this frame is indicated and the receiver is idle again. This holds for payloads of two octets or more. A
  control telegram, which has one, is put on the bus with its padding, nine octets; the receiver
  takes the first eight for the frame, whose check octet is then the padding.
\<close>
theorem tp_frame_roundtrip:
  assumes "new_l_data mc src dst p payload = Some f" and "payload \<noteq> []"
    and "rx_pos r = 0" and "length (rx_buf r) = 64"
  shows "(56 < length payload \<longrightarrow> tp_from_cemi f = None) \<and>
    (length payload \<le> 56 \<longrightarrow> (\<exists>t. tp_from_cemi f = Some t \<and> is_valid t \<and> tp_source t = src \<and>
       destination_raw t = dest_raw dst \<and> unat (apdu_size t) = length payload - 1 \<and>
       (is_extended t \<longleftrightarrow> 16 < length payload) \<and>
       (2 \<le> length payload \<longrightarrow> (\<exists>r'. feed (tp_as_bytes t) r = (r', [IndFrame t]) \<and> rx_pos r' = 0)) \<and>
       (length payload = 1 \<longrightarrow> tp_len t = 9 \<and> (\<exists>t' is. snd (feed (tp_as_bytes t) r) = IndFrame t' # is \<and>
          tp_as_bytes t' = take 8 (tp_as_bytes t) \<and> (is_valid t' \<longleftrightarrow> calc_crc_tp (take 7 (tp_as_bytes t)) = 0)))))"
proof -
  define npdu where "npdu = length payload - 1"
  define h where "h = tp_header src dst p npdu"
  define bs where "bs = h @ pad_payload payload"
  have l: "length payload \<le> 256"
    using assms(1) new_l_data_fields [where mc = mc and src = src and dst = dst and p = p and payload = payload]
    by (auto simp: new_l_data_def split: sum.splits)
  then have n: "npdu < 256" by (simp add: npdu_def)
  note hd = header_octets [OF n, where src = src and dst = dst and p = p, folded h_def]
  have pl: "length (pad_payload payload) = max (length payload) 2"
    by (simp add: pad_payload_def)
  have cut: "length bs < 64 \<longleftrightarrow> length payload \<le> 56"
    using pl hd(3) assms(2) by (auto simp: bs_def npdu_def Suc_le_eq)
  note oct = tp_from_cemi_octets [OF assms(1,2), folded npdu_def, folded h_def, folded bs_def]
  show ?thesis
  proof (cases "length payload \<le> 56")
    case True
    let ?all = "bs @ [calc_crc_tp bs]"
    define t where "t = \<lparr>tp_data = bs @ [calc_crc_tp bs] @ replicate (63 - length bs) 0, tp_len = Suc (length bs)\<rparr>"
    have t: "tp_from_cemi f = Some t" using oct cut True by (simp add: t_def)
    have tb: "tp_as_bytes t = ?all" "tp_data t = h @ pad_payload payload @ [calc_crc_tp bs] @ replicate (63 - length bs) 0"
      by (simp_all add: tp_as_bytes_def t_def bs_def)
    have valid: "is_valid t"
      using hd(3) by (simp add: is_valid_def t_def calc_crc_def nth_append bs_def)
    have ext: "is_extended t \<longleftrightarrow> 16 < length payload" "15 < npdu \<longleftrightarrow> 16 < length payload"
      using hd(2) assms(2) by (auto simp: is_extended_def tb(2) npdu_def)
    have fields: "tp_source t = src \<and> destination_raw t = dest_raw dst \<and> apdu_size t = of_nat npdu"
      using hd(5,6) ext by (cases "15 < npdu") (auto simp: tp_source_def destination_raw_def apdu_size_def tb(2))
    have a: "is_frame_start (?all ! 0)" "frame_length ?all = length h + npdu + 2"
      using hd(1,4) by (simp_all add: bs_def)
    have full: "\<exists>r'. feed (tp_as_bytes t) r = (r', [IndFrame t]) \<and> rx_pos r' = 0" if "2 \<le> length payload"
    proof -
      have len: "length h + npdu + 2 = length ?all" using that pl by (simp add: bs_def npdu_def)
      have "length ?all \<le> 64" using cut True by simp
      from feed_frame [OF a(1) refl _ _ assms(3,4)] len a(2) this
      show ?thesis by (auto simp: tb(1)) (auto simp: t_def)
    qed
    have control: "tp_len t = 9 \<and> (\<exists>t' is. snd (feed (tp_as_bytes t) r) = IndFrame t' # is \<and>
          tp_as_bytes t' = take 8 (tp_as_bytes t) \<and> (is_valid t' \<longleftrightarrow> calc_crc_tp (take 7 (tp_as_bytes t)) = 0))"
      if one: "length payload = 1"
    proof -
      obtain c where c: "payload = [c]" using one by (auto simp: length_Suc_conv)
      have bc: "bs = h @ [c, 0]" "length h = 6" "npdu = 0" using hd(3) one by (simp_all add: bs_def npdu_def c pad_payload_def)
      let ?t = "\<lparr>tp_data = take 8 ?all @ replicate 56 0, tp_len = 8\<rparr>"
      obtain q where "feed (take 8 ?all) r = (q, [IndFrame ?t])"
        using feed_frame [OF a(1) refl _ _ assms(3,4)] a(2) bc by auto
      moreover have "?all = take 8 ?all @ drop 8 ?all" by (rule append_take_drop_id [symmetric])
      ultimately have "snd (feed ?all r) = IndFrame ?t # snd (feed (drop 8 ?all) q)"
        by (metis (no_types, lifting) append_Cons append_Nil feed_append split_beta snd_conv fst_conv)
      moreover have "is_valid ?t \<longleftrightarrow> calc_crc_tp (take 7 ?all) = 0"
        using bc by (auto simp: is_valid_def calc_crc_def nth_append)
      moreover have "tp_as_bytes ?t = take 8 ?all" using bc by (simp add: tp_as_bytes_def)
      moreover have "tp_len t = 9" using bc by (simp add: t_def)
      ultimately show ?thesis unfolding tb(1) by blast
    qed
    have "unat (apdu_size t) = length payload - 1"
      using fields n by (simp add: unat_octet) (simp add: npdu_def)
    with True t valid ext(1) fields full control show ?thesis by auto
  qed (use oct cut in simp)
qed

theorem tp_frame_roundtrip_witness:
  "\<exists>f t r'. new_l_data LDataInd (IndividualAddress 0x1101) (DestGroup (GroupAddress 0x0801)) Low [0x00, 0x81] = Some f \<and>
    tp_from_cemi f = Some t \<and> feed (tp_as_bytes t) (tp_uart_new Ncn5120) = (r', [IndFrame t])"
proof -
  obtain f where f: "new_l_data LDataInd (IndividualAddress 0x1101) (DestGroup (GroupAddress 0x0801)) Low [0x00, 0x81] = Some f"
    using try_new_l_data_frame [of "[0x00, 0x81]"] by (simp add: new_l_data_def)
  have "[0x00, 0x81] \<noteq> []" "rx_pos (tp_uart_new Ncn5120) = 0" "length (rx_buf (tp_uart_new Ncn5120)) = 64"
    by (simp_all add: tp_uart_new_def tp_sizes)
  from tp_frame_roundtrip [OF f this] f show ?thesis by auto
qed

end
