(* ===== verification/Knxip.thy ===== *)
theory Knxip
  imports Prelude
begin

text \<open>
  KNXnet/IP frames (\<^verbatim>\<open>knx-rs-core/src/knxip.rs\<close>): the six-octet header with service type and total
  length, connection headers, endpoint addresses (HPAI) and the typed constructors of outgoing
  frames. Shown: parsing and writing are inverse to each other in both directions, and the body
  of each constructed frame decodes to the fields it was built from.
\<close>

section \<open>Codes\<close>

definition HEADER_LEN :: u8 where "HEADER_LEN = 0x06"
definition PROTOCOL_VERSION_10 :: u8 where "PROTOCOL_VERSION_10 = 0x10"
definition KNX_PORT :: u16 where "KNX_PORT = 3671"
definition TUNNEL_CONNECTION :: u8 where "TUNNEL_CONNECTION = 0x04"
definition DEVICE_MGMT_CONNECTION :: u8 where "DEVICE_MGMT_CONNECTION = 0x03"
definition TUNNEL_LINKLAYER :: u8 where "TUNNEL_LINKLAYER = 0x02"
definition CRI_CRD_LEN :: u8 where "CRI_CRD_LEN = 0x04"
definition TUNNEL_IA_BASE :: u16 where "TUNNEL_IA_BASE = 0xFF00"
definition E_NO_ERROR :: u8 where "E_NO_ERROR = 0x00"
definition E_CONNECTION_ID :: u8 where "E_CONNECTION_ID = 0x21"
definition E_CONNECTION_TYPE :: u8 where "E_CONNECTION_TYPE = 0x22"
definition E_NO_MORE_CONNECTIONS :: u8 where "E_NO_MORE_CONNECTIONS = 0x24"

definition tunnel_cri :: "u8 list" where
  "tunnel_cri = [CRI_CRD_LEN, TUNNEL_CONNECTION, TUNNEL_LINKLAYER, 0x00]"

definition tunnel_crd :: "u16 \<Rightarrow> u8 list" where
  "tunnel_crd individual_address = (let ia = to_be16 individual_address in [CRI_CRD_LEN, TUNNEL_CONNECTION, ia ! 0, ia ! 1])"

datatype (plugins only:) ServiceType =
    SearchRequest | SearchResponse | DescriptionRequest | DescriptionResponse | ConnectRequest | ConnectResponse
  | ConnectionStateRequest | ConnectionStateResponse | DisconnectRequest | DisconnectResponse
  | SearchRequestExtended | SearchResponseExtended | DeviceConfigurationRequest | DeviceConfigurationAck
  | TunnelingRequest | TunnelingAck | RoutingIndication | RoutingLostMessage | RoutingBusy

fun service_type_u16 :: "ServiceType \<Rightarrow> u16" where
  "service_type_u16 SearchRequest = 0x0201"
| "service_type_u16 SearchResponse = 0x0202"
| "service_type_u16 DescriptionRequest = 0x0203"
| "service_type_u16 DescriptionResponse = 0x0204"
| "service_type_u16 ConnectRequest = 0x0205"
| "service_type_u16 ConnectResponse = 0x0206"
| "service_type_u16 ConnectionStateRequest = 0x0207"
| "service_type_u16 ConnectionStateResponse = 0x0208"
| "service_type_u16 DisconnectRequest = 0x0209"
| "service_type_u16 DisconnectResponse = 0x020A"
| "service_type_u16 SearchRequestExtended = 0x020B"
| "service_type_u16 SearchResponseExtended = 0x020C"
| "service_type_u16 DeviceConfigurationRequest = 0x0310"
| "service_type_u16 DeviceConfigurationAck = 0x0311"
| "service_type_u16 TunnelingRequest = 0x0420"
| "service_type_u16 TunnelingAck = 0x0421"
| "service_type_u16 RoutingIndication = 0x0530"
| "service_type_u16 RoutingLostMessage = 0x0531"
| "service_type_u16 RoutingBusy = 0x0532"

definition service_type_from_raw :: "u16 \<Rightarrow> ServiceType option" where
  "service_type_from_raw raw = map_of
     [(0x0201, SearchRequest), (0x0202, SearchResponse), (0x0203, DescriptionRequest), (0x0204, DescriptionResponse),
      (0x0205, ConnectRequest), (0x0206, ConnectResponse), (0x0207, ConnectionStateRequest),
      (0x0208, ConnectionStateResponse), (0x0209, DisconnectRequest), (0x020A, DisconnectResponse),
      (0x020B, SearchRequestExtended), (0x020C, SearchResponseExtended), (0x0310, DeviceConfigurationRequest),
      (0x0311, DeviceConfigurationAck), (0x0420, TunnelingRequest), (0x0421, TunnelingAck),
      (0x0530, RoutingIndication), (0x0531, RoutingLostMessage), (0x0532, RoutingBusy)] raw"

datatype HostProtocol = Ipv4Udp | Ipv4Tcp

fun host_protocol_u8 :: "HostProtocol \<Rightarrow> u8" where
  "host_protocol_u8 Ipv4Udp = 0x01"
| "host_protocol_u8 Ipv4Tcp = 0x02"

definition host_protocol_from_raw :: "u8 \<Rightarrow> HostProtocol option" where
  "host_protocol_from_raw raw = (if raw = 0x01 then Some Ipv4Udp else if raw = 0x02 then Some Ipv4Tcp else None)"

section \<open>Frames\<close>

datatype KnxIpParseError = TooShort | InvalidHeaderLength | InvalidProtocolVersion | LengthMismatch
  | UnknownServiceType u16 | FrameTooLong nat

record KnxIpFrame =
  service_type :: ServiceType
  body :: "u8 list"

definition knxip_parse :: "u8 list \<Rightarrow> KnxIpParseError + KnxIpFrame" where
  "knxip_parse data =
     (if length data < unat HEADER_LEN then Inl TooShort
      else if data ! 0 \<noteq> HEADER_LEN then Inl InvalidHeaderLength
      else if data ! 1 \<noteq> PROTOCOL_VERSION_10 then Inl InvalidProtocolVersion
      else let service_raw = be16 (data ! 2) (data ! 3); total_len = unat (be16 (data ! 4) (data ! 5)) in
        if length data \<noteq> total_len then Inl LengthMismatch
        else bind_res (ok_or (service_type_from_raw service_raw) (UnknownServiceType service_raw)) (\<lambda>t.
          Inr \<lparr>service_type = t, body = buf_slice (unat HEADER_LEN) total_len data\<rparr>))"

definition knxip_try_to_bytes :: "KnxIpFrame \<Rightarrow> KnxIpParseError + u8 list" where
  "knxip_try_to_bytes f =
     (let total_len = unat HEADER_LEN + length (body f) in
      if total_len > 0xFFFF then Inl (FrameTooLong total_len)
      else Inr ([HEADER_LEN, PROTOCOL_VERSION_10] @ to_be16 (service_type_u16 (service_type f))
             @ to_be16 (of_nat total_len) @ body f))"

text \<open>\<open>to_bytes\<close> panics (\<open>None\<close>) where \<open>try_to_bytes\<close> reports an error.\<close>

definition knxip_to_bytes :: "KnxIpFrame \<Rightarrow> u8 list option" where
  "knxip_to_bytes f = (case knxip_try_to_bytes f of Inr bytes \<Rightarrow> Some bytes | Inl _ \<Rightarrow> None)"

section \<open>Connection headers and endpoints\<close>

record ConnectionHeader =
  channel_id :: u8
  sequence_counter :: u8
  ch_status :: u8

definition CONNECTION_HEADER_LEN :: u8 where "CONNECTION_HEADER_LEN = 4"

definition connection_header_parse :: "u8 list \<Rightarrow> ConnectionHeader option" where
  "connection_header_parse data =
     (if length data < unat CONNECTION_HEADER_LEN then None
      else Some \<lparr>channel_id = data ! 1, sequence_counter = data ! 2, ch_status = data ! 3\<rparr>)"

definition connection_header_to_bytes :: "ConnectionHeader \<Rightarrow> u8 list" where
  "connection_header_to_bytes h = [CONNECTION_HEADER_LEN, channel_id h, sequence_counter h, ch_status h]"

record Hpai =
  protocol :: HostProtocol
  ip :: "u8 list"
  port :: u16

definition HPAI_LEN :: u8 where "HPAI_LEN = 8"

definition hpai_parse :: "u8 list \<Rightarrow> Hpai option" where
  "hpai_parse data =
     (if length data < unat HPAI_LEN \<or> data ! 0 \<noteq> HPAI_LEN then None
      else case host_protocol_from_raw (data ! 1) of
        None \<Rightarrow> None
      | Some p \<Rightarrow> Some \<lparr>protocol = p, ip = [data ! 2, data ! 3, data ! 4, data ! 5], port = be16 (data ! 6) (data ! 7)\<rparr>)"

definition nat_udp :: "u16 \<Rightarrow> Hpai" where
  "nat_udp p = \<lparr>protocol = Ipv4Udp, ip = [0, 0, 0, 0], port = p\<rparr>"

definition is_unspecified :: "Hpai \<Rightarrow> bool" where
  "is_unspecified h \<longleftrightarrow> ip h = [0, 0, 0, 0]"

definition hpai_to_bytes :: "Hpai \<Rightarrow> u8 list" where
  "hpai_to_bytes h = (let p = to_be16 (port h) in
     [HPAI_LEN, host_protocol_u8 (protocol h), ip h ! 0, ip h ! 1, ip h ! 2, ip h ! 3, p ! 0, p ! 1])"

section \<open>Typed constructors\<close>

definition routing_indication :: "u8 list \<Rightarrow> KnxIpFrame" where
  "routing_indication cemi = \<lparr>service_type = RoutingIndication, body = cemi\<rparr>"

definition tunneling_request :: "u8 \<Rightarrow> u8 \<Rightarrow> u8 list \<Rightarrow> KnxIpFrame" where
  "tunneling_request channel sequence cemi =
     (let header = \<lparr>channel_id = channel, sequence_counter = sequence, ch_status = E_NO_ERROR\<rparr>
      in \<lparr>service_type = TunnelingRequest, body = connection_header_to_bytes header @ cemi\<rparr>)"

definition tunneling_ack :: "u8 \<Rightarrow> u8 \<Rightarrow> u8 \<Rightarrow> KnxIpFrame" where
  "tunneling_ack channel sequence st =
     (let header = \<lparr>channel_id = channel, sequence_counter = sequence, ch_status = st\<rparr>
      in \<lparr>service_type = TunnelingAck, body = connection_header_to_bytes header\<rparr>)"

definition connection_management_body :: "u8 \<Rightarrow> Hpai \<Rightarrow> u8 list" where
  "connection_management_body channel control = [channel, 0] @ hpai_to_bytes control"

definition connection_state_request :: "u8 \<Rightarrow> Hpai \<Rightarrow> KnxIpFrame" where
  "connection_state_request channel control =
     \<lparr>service_type = ConnectionStateRequest, body = connection_management_body channel control\<rparr>"

definition ip_disconnect_request :: "u8 \<Rightarrow> Hpai \<Rightarrow> KnxIpFrame" where
  "ip_disconnect_request channel control =
     \<lparr>service_type = DisconnectRequest, body = connection_management_body channel control\<rparr>"

definition search_request :: "Hpai \<Rightarrow> KnxIpFrame" where
  "search_request discovery = \<lparr>service_type = SearchRequest, body = hpai_to_bytes discovery\<rparr>"

definition search_request_extended :: "Hpai \<Rightarrow> u8 list \<Rightarrow> KnxIpFrame" where
  "search_request_extended discovery srps =
     \<lparr>service_type = SearchRequestExtended, body = hpai_to_bytes discovery @ srps\<rparr>"

definition search_response :: "Hpai \<Rightarrow> u8 list \<Rightarrow> KnxIpFrame" where
  "search_response control dibs = \<lparr>service_type = SearchResponse, body = hpai_to_bytes control @ dibs\<rparr>"

definition search_response_extended :: "Hpai \<Rightarrow> u8 list \<Rightarrow> KnxIpFrame" where
  "search_response_extended control dibs =
     (search_response control dibs)\<lparr>service_type := SearchResponseExtended\<rparr>"

definition description_request :: "Hpai \<Rightarrow> KnxIpFrame" where
  "description_request control = \<lparr>service_type = DescriptionRequest, body = hpai_to_bytes control\<rparr>"

definition description_response :: "u8 list \<Rightarrow> KnxIpFrame" where
  "description_response dibs = \<lparr>service_type = DescriptionResponse, body = dibs\<rparr>"

definition connect_request :: "Hpai \<Rightarrow> Hpai \<Rightarrow> u8 list \<Rightarrow> KnxIpFrame" where
  "connect_request control data cri =
     \<lparr>service_type = ConnectRequest, body = hpai_to_bytes control @ hpai_to_bytes data @ cri\<rparr>"

section \<open>Codes and structures read back\<close>

lemma service_type_inverse [simp]: "service_type_from_raw (service_type_u16 t) = Some t"
  by (cases t) (simp_all add: service_type_from_raw_def)

lemma service_type_from_raw_iff: "service_type_from_raw raw = Some t \<longleftrightarrow> raw = service_type_u16 t"
proof
  assume "service_type_from_raw raw = Some t"
  then show "raw = service_type_u16 t"
    unfolding service_type_from_raw_def by (auto simp del: map_of.simps dest!: map_of_SomeD)
qed simp

lemma host_protocol_iff: "host_protocol_from_raw raw = Some p \<longleftrightarrow> raw = host_protocol_u8 p"
  by (cases p) (auto simp: host_protocol_from_raw_def)

lemma connection_header_inverse: "connection_header_parse (connection_header_to_bytes h @ rest) = Some h"
  by (cases h) (simp add: connection_header_parse_def connection_header_to_bytes_def CONNECTION_HEADER_LEN_def)

definition hpai_ok :: "Hpai \<Rightarrow> bool" where
  "hpai_ok h \<longleftrightarrow> length (ip h) = 4"

lemma length_hpai [simp]: "length (hpai_to_bytes h) = 8"
  by (simp add: hpai_to_bytes_def Let_def)

lemma four_octets: "length xs = 4 \<Longrightarrow> [xs ! 0, xs ! 1, xs ! 2, xs ! 3] = xs"
  by (rule nth_equalityI) (auto simp: less_Suc_eq numeral_eq_Suc)

lemma hpai_inverse: "hpai_ok h \<Longrightarrow> hpai_parse (hpai_to_bytes h @ rest) = Some h"
  using four_octets [of "ip h"] host_protocol_iff [of "host_protocol_u8 (protocol h)" "protocol h"]
  by (cases h) (simp add: hpai_parse_def hpai_to_bytes_def hpai_ok_def HPAI_LEN_def Let_def to_be16_def nth_Cons_numeral)

lemma hpai_parsed: "hpai_parse data = Some h \<Longrightarrow> hpai_ok h \<and> hpai_to_bytes h = take 8 data"
proof -
  assume h: "hpai_parse data = Some h"
  then have l: "8 \<le> length data" by (auto simp: hpai_parse_def HPAI_LEN_def split: if_splits)
  then have t: "take 8 data = [data ! 0, data ! 1, data ! 2, data ! 3, data ! 4, data ! 5, data ! 6, data ! 7]"
    by (intro nth_equalityI) (auto simp: less_Suc_eq numeral_eq_Suc)
  show ?thesis
    using h unfolding t
    by (auto simp: hpai_parse_def hpai_to_bytes_def hpai_ok_def HPAI_LEN_def host_protocol_iff Let_def split: if_splits option.splits)
qed

lemma length_header [simp]: "unat HEADER_LEN = 6"
  by (simp add: HEADER_LEN_def)

lemma knxip_written: "knxip_try_to_bytes f = Inr bytes \<Longrightarrow> knxip_parse bytes = Inr f"
proof -
  assume "knxip_try_to_bytes f = Inr bytes"
  then have l: "6 + length (body f) < 2 ^ 16" and b: "bytes = [HEADER_LEN, PROTOCOL_VERSION_10]
      @ to_be16 (service_type_u16 (service_type f)) @ to_be16 (of_nat (6 + length (body f))) @ body f"
    by (auto simp: knxip_try_to_bytes_def Let_def split: if_splits)
  from l have u: "unat (of_nat (6 + length (body f)) :: u16) = 6 + length (body f)"
    by (simp add: unat_of_nat del: of_nat_add)
  have p: "bytes ! 0 = HEADER_LEN" "bytes ! 1 = PROTOCOL_VERSION_10" "length bytes = 6 + length (body f)"
    "be16 (bytes ! 2) (bytes ! 3) = service_type_u16 (service_type f)"
    "be16 (bytes ! 4) (bytes ! 5) = of_nat (6 + length (body f))" "drop 6 bytes = body f"
    unfolding b by (simp_all add: to_be16_def del: of_nat_add)
  show ?thesis
    using p u by (simp add: knxip_parse_def Let_def buf_slice_def del: of_nat_add)
qed

text \<open>
  Parsing and writing of KNXnet/IP frames are inverse. A buffer parses to a frame exactly when
  writing that frame gives the buffer. A frame can be written exactly when it has at most 65535
  octets, otherwise the error names its length and the infallible writer panics. The
  endpoint and the connection header at the start of a body are read back from any constructed
  frame, whatever follows them.
\<close>
lemma knxip_roundtrip:
  "(knxip_parse data = Inr f \<longleftrightarrow> knxip_try_to_bytes f = Inr data) \<and>
   (case knxip_try_to_bytes f of
      Inl e \<Rightarrow> 65535 < 6 + length (body f) \<and> e = FrameTooLong (6 + length (body f)) \<and> knxip_to_bytes f = None
    | Inr bytes \<Rightarrow> length bytes = 6 + length (body f) \<and> knxip_to_bytes f = Some bytes \<and> knxip_parse bytes = Inr f) \<and>
   connection_header_parse (body (tunneling_request ch sq cemi)) =
     Some \<lparr>channel_id = ch, sequence_counter = sq, ch_status = E_NO_ERROR\<rparr> \<and>
   drop 4 (body (tunneling_request ch sq cemi)) = cemi \<and>
   (hpai_parse bs = Some h \<longrightarrow> hpai_parse (body (search_request_extended h srps)) = Some h \<and>
     drop 8 (body (search_request_extended h srps)) = srps \<and>
     hpai_parse (drop 2 (body (connection_state_request ch h))) = Some h)"
proof -
  have r: "knxip_try_to_bytes f = Inr data" if "knxip_parse data = Inr f"
  proof -
    from that have h: "6 \<le> length data" "data ! 0 = HEADER_LEN" "data ! 1 = PROTOCOL_VERSION_10"
      "length data = unat (be16 (data ! 4) (data ! 5))"
      "be16 (data ! 2) (data ! 3) = service_type_u16 (service_type f)" "body f = drop 6 data"
      by (auto simp: knxip_parse_def Let_def result_simps ok_or_def service_type_from_raw_iff buf_slice_def
          split: if_splits option.splits)
    have t: "take 6 data = [data ! 0, data ! 1, data ! 2, data ! 3, data ! 4, data ! 5]"
      using h(1) by (intro nth_equalityI) (auto simp: less_Suc_eq numeral_eq_Suc)
    have "length data \<le> 65535" unfolding h(4) by (rule unat_bounds)
    moreover have "(of_nat (length data) :: u16) = be16 (data ! 4) (data ! 5)" by (simp add: h(4))
    moreover have "6 + (length data - 6) = length data" using h(1) by simp
    moreover have "data = take 6 data @ body f" using h(6) by simp
    ultimately show ?thesis
      using h(2,3,5) t by (simp add: knxip_try_to_bytes_def Let_def h(6) flip: h(5) del: of_nat_add)
  qed
  have "hpai_parse (body (search_request_extended h srps)) = Some h \<and>
     drop 8 (body (search_request_extended h srps)) = srps \<and>
     hpai_parse (drop 2 (body (connection_state_request ch h))) = Some h" if "hpai_parse bs = Some h"
    using hpai_inverse [of h] hpai_inverse [of h "[]"] hpai_parsed [OF that, THEN conjunct1]
    by (simp add: search_request_extended_def connection_state_request_def connection_management_body_def)
  moreover have "connection_header_parse (body (tunneling_request ch sq cemi)) =
      Some \<lparr>channel_id = ch, sequence_counter = sq, ch_status = E_NO_ERROR\<rparr>"
    by (simp add: tunneling_request_def connection_header_inverse)
  moreover have "drop 4 (body (tunneling_request ch sq cemi)) = cemi"
    by (simp add: tunneling_request_def connection_header_to_bytes_def)
  moreover have "knxip_try_to_bytes f = Inl e \<Longrightarrow> 65535 < 6 + length (body f) \<and> e = FrameTooLong (6 + length (body f))" for e
    by (auto simp: knxip_try_to_bytes_def Let_def split: if_splits)
  moreover have "knxip_try_to_bytes f = Inr bytes \<Longrightarrow> length bytes = 6 + length (body f)" for bytes
    by (auto simp: knxip_try_to_bytes_def Let_def split: if_splits)
  ultimately show ?thesis
    using knxip_written [of f] r by (auto simp: knxip_to_bytes_def split: sum.split)
qed

end
