(* ===== verification/Ip_Net.thy ===== *)
theory Ip_Net
  imports Knxip Cemi
begin

text \<open>
  What the KNXnet/IP endpoints of \<^verbatim>\<open>knx-rs-ip\<close> share: socket addresses, their conversion from and
  to the endpoint structures on the wire, and the datagram sockets. A socket is the environment
  of a step: its local address, the outcome of each send and the clock reading. What was sent is
  a list of datagrams with their destinations, in order. An address is a \<^verbatim>\<open>SocketAddr\<close> of the
  standard library; an instant is a number of milliseconds.
\<close>

section \<open>Socket addresses\<close>

datatype SocketAddr = V4 "u8 list" u16 | V6 "u8 list" u16 u32 u32

fun sa_port :: "SocketAddr \<Rightarrow> u16" where
  "sa_port (V4 _ p) = p" | "sa_port (V6 _ p _ _) = p"

definition UNSPECIFIED :: "u8 list" where "UNSPECIFIED = [0, 0, 0, 0]"

definition KNX_MULTICAST_ADDR :: "u8 list" where "KNX_MULTICAST_ADDR = [224, 0, 23, 12]"

definition socket_addr_with_port :: "SocketAddr \<Rightarrow> u16 \<Rightarrow> SocketAddr" where
  "socket_addr_with_port src p =
     (let p = (if p = 0 then sa_port src else p) in
      case src of V4 a _ \<Rightarrow> V4 a p | V6 a _ flowinfo scope_id \<Rightarrow> V6 a p flowinfo scope_id)"

definition hpai_to_socket_addr :: "Hpai \<Rightarrow> SocketAddr \<Rightarrow> SocketAddr" where
  "hpai_to_socket_addr h src =
     (if is_unspecified h then socket_addr_with_port src (port h) else V4 (ip h) (port h))"

fun bind_addr_for_remote :: "SocketAddr \<Rightarrow> SocketAddr" where
  "bind_addr_for_remote (V4 _ _) = V4 UNSPECIFIED 0"
| "bind_addr_for_remote (V6 _ _ _ scope_id) = V6 (replicate 16 0) 0 0 scope_id"

fun build_hpai :: "SocketAddr \<Rightarrow> Hpai" where
  "build_hpai (V4 a p) = \<lparr>protocol = Ipv4Udp, ip = a, port = p\<rparr>"
| "build_hpai (V6 _ p _ _) = nat_udp p"

text \<open>The type of the source fixes the number of octets of an address.\<close>

fun socket_addr_ok :: "SocketAddr \<Rightarrow> bool" where
  "socket_addr_ok (V4 a _) \<longleftrightarrow> length a = 4" | "socket_addr_ok (V6 a _ _ _) \<longleftrightarrow> length a = 16"

section \<open>Datagram sockets\<close>

type_synonym Sent = "(u8 list \<times> SocketAddr) list"

datatype ChannelState = ChannelOpen | ChannelFull | ChannelClosed

text \<open>
  \<open>env_send_error\<close> gives the error of the n-th send, if it fails; \<open>env_probe\<close> is the local address
  that a throwaway socket has after it was connected to a target.
\<close>

record IpEnv =
  env_now :: nat
  env_local_addr :: "SocketAddr option"
  env_send_error :: "nat \<Rightarrow> string option"
  env_probe :: "SocketAddr \<Rightarrow> SocketAddr option"
  env_channel :: ChannelState

definition send_to :: "IpEnv \<Rightarrow> u8 list \<Rightarrow> SocketAddr \<Rightarrow> Sent \<Rightarrow> string option \<times> Sent" where
  "send_to env bytes dst sent = (env_send_error env (length sent), sent @ [(bytes, dst)])"

definition serialize_frame :: "KnxIpFrame \<Rightarrow> u8 list option" where
  "serialize_frame frame = (case knxip_try_to_bytes frame of Inr bytes \<Rightarrow> Some bytes | Inl _ \<Rightarrow> None)"

text \<open>The handlers send a frame if it can be written and ignore the outcome.\<close>

definition send_frame_to :: "IpEnv \<Rightarrow> KnxIpFrame \<Rightarrow> SocketAddr \<Rightarrow> Sent \<Rightarrow> Sent" where
  "send_frame_to env frame dst sent =
     (case serialize_frame frame of Some bytes \<Rightarrow> snd (send_to env bytes dst sent) | None \<Rightarrow> sent)"

definition local_port :: "IpEnv \<Rightarrow> u16" where
  "local_port env = (case env_local_addr env of Some a \<Rightarrow> sa_port a | None \<Rightarrow> KNX_PORT)"

section \<open>Facts\<close>

lemma serialize_frame_fits [simp]:
  "6 + length (body f) \<le> 65535 \<Longrightarrow> \<exists>bytes. serialize_frame f = Some bytes"
  by (simp add: serialize_frame_def knxip_try_to_bytes_def Let_def)

lemma serialize_frame_iff: "serialize_frame f = Some bytes \<longleftrightarrow> knxip_try_to_bytes f = Inr bytes"
  by (simp add: serialize_frame_def split: sum.split)

lemma send_frame_to_prefix: "\<exists>rest. send_frame_to env f dst sent = sent @ rest"
  by (simp add: send_frame_to_def send_to_def split: option.split)

text \<open>An endpoint that names an address is reached there; a NAT-mode endpoint is the sender's.\<close>

lemma endpoint_of_build_hpai:
  "socket_addr_ok a \<Longrightarrow> case a of V4 i p \<Rightarrow> i \<noteq> UNSPECIFIED | _ \<Rightarrow> False \<Longrightarrow> hpai_to_socket_addr (build_hpai a) src = a"
  by (cases a) (auto simp: hpai_to_socket_addr_def is_unspecified_def UNSPECIFIED_def)

end
