(* ===== verification/Float64.thy ===== *)
theory Float64
  imports Prelude "HOL-Library.Log_Nat"
begin

text \<open>
  The floating-point arithmetic of the language, as far as the datapoint codecs use it: IEEE 754
  binary64 and binary32 with rounding to nearest, ties to even. A finite number is a sign and an
  exact rational magnitude, so that both zeros exist and every operation computes; a result is
  rounded to the format and becomes infinite when it is too large. Shown: rounding is exact
  on the numbers of the format, its relative error on normal numbers is at most 2^-53,
  and the binary32 octets are read back.
\<close>

datatype f64 = Nan | Inf bool | Fin bool rat

section \<open>Rounding\<close>

text \<open>The position of the leading bit.\<close>

definition ilog2 :: "rat \<Rightarrow> int" where
  "ilog2 x = (let (a, b) = quotient_of x; k = int (floorlog 2 (nat a)) - int (floorlog 2 (nat b))
     in if 2 powi k \<le> x then k else k - 1)"

definition round_even :: "rat \<Rightarrow> int" where
  "round_even y = (let n = \<lfloor>y\<rfloor>; r = y - of_int n
     in if r < 1 / 2 then n else if r > 1 / 2 then n + 1 else if even n then n else n + 1)"

text \<open>A format with \<open>prec\<close> significant bits and least exponent \<open>emin\<close> of a normal number.\<close>

definition round_to :: "int \<Rightarrow> int \<Rightarrow> rat \<Rightarrow> rat" where
  "round_to prec emin x =
     (if x = 0 then 0
      else let u = 2 powi (max (ilog2 x) emin - prec + 1) in of_int (round_even (x / u)) * u)"

definition rnd64 :: "rat \<Rightarrow> rat" where "rnd64 = round_to 53 (- 1022)"
definition rnd32 :: "rat \<Rightarrow> rat" where "rnd32 = round_to 24 (- 126)"

definition mk64 :: "bool \<Rightarrow> rat \<Rightarrow> f64" where
  "mk64 s x = (let r = rnd64 x in if 2 ^ 1024 \<le> r then Inf s else Fin s r)"

section \<open>Operations\<close>

fun f64_mult :: "f64 \<Rightarrow> f64 \<Rightarrow> f64" where
  "f64_mult (Fin s a) (Fin t b) = mk64 (s \<noteq> t) (a * b)"
| "f64_mult (Inf s) (Fin t b) = (if b = 0 then Nan else Inf (s \<noteq> t))"
| "f64_mult (Fin s a) (Inf t) = (if a = 0 then Nan else Inf (s \<noteq> t))"
| "f64_mult (Inf s) (Inf t) = Inf (s \<noteq> t)"
| "f64_mult Nan _ = Nan"
| "f64_mult _ Nan = Nan"

fun f64_div :: "f64 \<Rightarrow> f64 \<Rightarrow> f64" where
  "f64_div (Fin s a) (Fin t b) = (if b = 0 then (if a = 0 then Nan else Inf (s \<noteq> t)) else mk64 (s \<noteq> t) (a / b))"
| "f64_div (Inf s) (Fin t b) = Inf (s \<noteq> t)"
| "f64_div (Fin s a) (Inf t) = Fin (s \<noteq> t) 0"
| "f64_div (Inf s) (Inf t) = Nan"
| "f64_div Nan _ = Nan"
| "f64_div _ Nan = Nan"

text \<open>A number of the source text, and the conversion of an integer.\<close>

definition f64_lit :: "rat \<Rightarrow> f64" where
  "f64_lit x = mk64 False x"

definition f64_of_int :: "int \<Rightarrow> f64" where
  "f64_of_int i = mk64 (i < 0) (of_int \<bar>i\<bar>)"

fun is_nan :: "f64 \<Rightarrow> bool" where "is_nan x = (x = Nan)"

fun is_finite :: "f64 \<Rightarrow> bool" where
  "is_finite (Fin _ _) = True" | "is_finite _ = False"

text \<open>The value of a finite number; comparisons with a number that is not one are false.\<close>

fun f64_val :: "f64 \<Rightarrow> rat" where
  "f64_val (Fin s a) = (if s then - a else a)"
| "f64_val _ = 0"

fun f64_between :: "rat \<Rightarrow> rat \<Rightarrow> f64 \<Rightarrow> bool" where
  "f64_between lo hi (Fin s a) = (lo \<le> f64_val (Fin s a) \<and> f64_val (Fin s a) \<le> hi)"
| "f64_between lo hi _ = False"

text \<open>The conversion to an integer cuts towards zero and saturates.\<close>

fun f64_to_int :: "int \<Rightarrow> int \<Rightarrow> f64 \<Rightarrow> int" where
  "f64_to_int lo hi Nan = 0"
| "f64_to_int lo hi (Inf s) = (if s then lo else hi)"
| "f64_to_int lo hi (Fin s a) = max lo (min hi (if s then - \<lfloor>a\<rfloor> else \<lfloor>a\<rfloor>))"

text \<open>Rounding to an integer, ties away from zero: what \<^verbatim>\<open>libm::round\<close> documents.\<close>

definition round_away :: "f64 \<Rightarrow> f64" where
  "round_away v = (case v of Fin s a \<Rightarrow> Fin s (of_int \<lfloor>a + 1 / 2\<rfloor>) | _ \<Rightarrow> v)"

section \<open>Single precision\<close>

definition f64_to_f32 :: "f64 \<Rightarrow> f64" where
  "f64_to_f32 v = (case v of Fin s a \<Rightarrow> (let r = rnd32 a in if 2 ^ 128 \<le> r then Inf s else Fin s r) | _ \<Rightarrow> v)"

definition f32_from_bits :: "u32 \<Rightarrow> f64" where
  "f32_from_bits w = (let s = bit w 31; e = take_bit 8 (drop_bit 23 (uint w)); m = take_bit 23 (uint w)
     in if e = 255 then (if m = 0 then Inf s else Nan)
        else if e = 0 then Fin s (of_int m * 2 powi (- 149))
        else Fin s (of_int (2 ^ 23 + m) * 2 powi (e - 150)))"

text \<open>The octets of a not-a-number are not fixed by the language: they are a parameter.\<close>

definition f32_to_bits :: "u32 \<Rightarrow> f64 \<Rightarrow> u32" where
  "f32_to_bits nan v = (case v of Nan \<Rightarrow> nan
     | Inf s \<Rightarrow> word_of_int (of_bool s * 2 ^ 31 + 255 * 2 ^ 23)
     | Fin s a \<Rightarrow>
         if a = 0 then word_of_int (of_bool s * 2 ^ 31)
         else let e = max (ilog2 a) (- 126); m = \<lfloor>a * 2 powi (23 - e)\<rfloor>
           in word_of_int (of_bool s * 2 ^ 31 + (if m < 2 ^ 23 then m else (e + 127) * 2 ^ 23 + (m - 2 ^ 23))))"

section \<open>Facts about rounding\<close>

lemma powi_pos [simp]: "(0 :: rat) < 2 powi k" by simp

lemma powi_mono: "k \<le> l \<Longrightarrow> 2 powi k \<le> (2 powi l :: rat)"
  by (intro power_int_increasing) auto

lemma powi_less: "2 powi k < (2 powi l :: rat) \<Longrightarrow> k < l"
  using powi_mono [of l k] by (meson not_le)

lemma powi_add: "2 powi k * 2 powi l = (2 powi (k + l) :: rat)"
  by (simp add: power_int_add)

lemma ilog2_bounds:
  assumes "0 < x"
  shows "2 powi (ilog2 x) \<le> x \<and> x < 2 powi (ilog2 x + 1)"
proof -
  obtain a b where q: "quotient_of x = (a, b)" by fastforce
  have b: "0 < b" using quotient_of_denom_pos [OF q] .
  have xe: "x = of_int a / of_int b" by (rule quotient_of_div [OF q])
  have a: "0 < a" using assms b xe by (simp add: zero_less_divide_iff)
  let ?la = "floorlog 2 (nat a)" let ?lb = "floorlog 2 (nat b)" let ?k = "int ?la - int ?lb"
  have bits: "2 powi (int (floorlog 2 (nat c)) - 1) \<le> (of_int c :: rat) \<and> (of_int c :: rat) < 2 powi (int (floorlog 2 (nat c)))" if "0 < c" for c
  proof -
    have 1: "2 ^ (floorlog 2 (nat c) - 1) \<le> nat c" "nat c < 2 ^ floorlog 2 (nat c)" using floorlog_bounds [of "nat c" 2] that by auto
    have "0 < floorlog 2 (nat c)" using that by (simp add: floorlog_def)
    then have 2: "int (floorlog 2 (nat c)) - 1 = int (floorlog 2 (nat c) - 1)" by simp
    have "(of_nat (2 ^ (floorlog 2 (nat c) - 1)) :: rat) \<le> of_nat (nat c)" "(of_nat (nat c) :: rat) < of_nat (2 ^ floorlog 2 (nat c))"
      using 1 by (simp_all only: of_nat_le_iff of_nat_less_iff)
    then show ?thesis using that by (simp add: 2 del: of_nat_diff)
  qed
  have A: "2 powi (int ?la - 1) \<le> (of_int a :: rat)" "(of_int a :: rat) < 2 powi (int ?la)" using bits [OF a] by auto
  have B: "2 powi (int ?lb - 1) \<le> (of_int b :: rat)" "(of_int b :: rat) < 2 powi (int ?lb)" using bits [OF b] by auto
  have "2 powi (?k - 1) * (of_int b :: rat) \<le> 2 powi (?k - 1) * 2 powi (int ?lb)" using B(2) by (intro mult_left_mono) auto
  also have "\<dots> = 2 powi (int ?la - 1)" unfolding powi_add by (rule arg_cong [where f = "\<lambda>k. 2 powi k"]) simp
  finally have lo: "2 powi (?k - 1) \<le> x" using A(1) b by (simp add: xe field_simps)
  have "2 powi (?k + 1) * (2 powi (int ?lb - 1)) \<le> 2 powi (?k + 1) * (of_int b :: rat)" using B(1) by (intro mult_left_mono) auto
  moreover have "2 powi (?k + 1) * (2 powi (int ?lb - 1)) = (2 powi (int ?la) :: rat)"
    unfolding powi_add by (rule arg_cong [where f = "\<lambda>k. 2 powi k"]) simp
  ultimately have "(of_int a :: rat) < 2 powi (?k + 1) * of_int b" using A(2) by linarith
  then have hi: "x < 2 powi (?k + 1)" unfolding xe using b by (subst pos_divide_less_eq) simp_all
  show ?thesis using lo hi by (auto simp: ilog2_def q Let_def not_le)
qed

lemma ilog2_eq:
  assumes "2 powi k \<le> x" and "x < 2 powi (k + 1)"
  shows "ilog2 x = k"
proof -
  have "0 < x" using assms(1) by (meson less_le_trans powi_pos)
  then have b: "2 powi (ilog2 x) \<le> x" "x < 2 powi (ilog2 x + 1)" using ilog2_bounds by auto
  have "2 powi k < (2 powi (ilog2 x + 1) :: rat)" "2 powi (ilog2 x) < (2 powi (k + 1) :: rat)" using assms b by linarith+
  then have "k < ilog2 x + 1" "ilog2 x < k + 1"
    using powi_less by blast+
  then show ?thesis by simp
qed

lemma round_even_of_int [simp]: "round_even (of_int n) = n"
  by (simp add: round_even_def)

lemma round_even_error: "\<bar>of_int (round_even y) - y\<bar> \<le> 1 / 2"
  by (auto simp: round_even_def Let_def abs_if) linarith+


lemma round_even_near: "\<bar>of_int n - y\<bar> < 1 / 2 \<Longrightarrow> round_even y = n"
proof -
  assume n: "\<bar>of_int n - y\<bar> < 1 / 2"
  then have "\<bar>of_int (round_even y) - of_int n :: rat\<bar> < 1" using round_even_error [of y] by linarith
  then have "\<bar>round_even y - n\<bar> < 1" by (simp only: of_int_diff [symmetric] of_int_abs [symmetric] of_int_less_1_iff)
  then show ?thesis by simp
qed

lemma round_even_nonneg: "0 \<le> y \<Longrightarrow> 0 \<le> round_even y"
  by (simp add: round_even_def Let_def)

text \<open>Rounding keeps the numbers of the format.\<close>

lemma round_to_exact:
  assumes "0 \<le> n" and "n < 2 ^ p" and "emin - int p + 1 \<le> k"
  shows "round_to (int p) emin (of_int n * 2 powi k) = of_int n * 2 powi k"
proof (cases "n = 0")
  case False
  let ?x = "of_int n * 2 powi k :: rat"
  have x: "0 < ?x" using assms(1) False by simp
  have "of_int n < (of_int (2 ^ p) :: rat)" using assms(2) by (simp only: of_int_less_iff)
  then have "?x < 2 powi (int p) * 2 powi k" by (intro mult_strict_right_mono) simp_all
  then have "2 powi (ilog2 ?x) < (2 powi (int p + k) :: rat)" unfolding powi_add using ilog2_bounds [OF x] by linarith
  then have "ilog2 ?x < int p + k" by (rule powi_less)
  then have "0 \<le> k - (max (ilog2 ?x) emin - int p + 1)" (is "0 \<le> ?d") using assms(3) by auto
  then obtain d where d: "?d = int d" using nonneg_int_cases by blast
  have "?x / 2 powi (max (ilog2 ?x) emin - int p + 1) = of_int n * 2 powi ?d"
    by (simp add: power_int_diff)
  also have "\<dots> = of_int (n * 2 ^ d)" unfolding d by simp
  finally have e: "?x / 2 powi (max (ilog2 ?x) emin - int p + 1) = of_int (n * 2 ^ d)" .
  have "round_to (int p) emin ?x = of_int (n * 2 ^ d) * 2 powi (max (ilog2 ?x) emin - int p + 1)"
    using x unfolding round_to_def Let_def e round_even_of_int by simp
  also have "\<dots> = ?x / 2 powi (max (ilog2 ?x) emin - int p + 1) * 2 powi (max (ilog2 ?x) emin - int p + 1)" by (simp only: e)
  also have "\<dots> = ?x" by simp
  finally show ?thesis .
qed (simp add: round_to_def)

text \<open>The relative error of a normal result.\<close>

lemma round_to_error:
  assumes "2 powi emin \<le> x"
  shows "\<bar>round_to prec emin x - x\<bar> \<le> x * 2 powi (- prec)"
proof -
  have x: "0 < x" using assms less_le_trans [OF powi_pos] by blast
  have "2 powi emin < (2 powi (ilog2 x + 1) :: rat)" using ilog2_bounds [OF x] assms by linarith
  from powi_less [OF this] have m: "max (ilog2 x) emin = ilog2 x" by simp
  let ?u = "2 powi (ilog2 x - prec + 1) :: rat"
  have "round_to prec emin x - x = (of_int (round_even (x / ?u)) - x / ?u) * ?u"
    using x by (simp add: round_to_def m Let_def left_diff_distrib)
  then have "\<bar>round_to prec emin x - x\<bar> = \<bar>of_int (round_even (x / ?u)) - x / ?u\<bar> * ?u" by (simp add: abs_mult)
  also have "\<dots> \<le> 1 / 2 * ?u" using round_even_error [of "x / ?u"] by (intro mult_right_mono) simp_all
  also have "\<dots> = 2 powi (- 1) * ?u" by simp
  also have "\<dots> = 2 powi (ilog2 x) * 2 powi (- prec)" unfolding powi_add by (simp add: algebra_simps)
  also have "\<dots> \<le> x * 2 powi (- prec)" using ilog2_bounds [OF x] by (intro mult_right_mono) simp_all
  finally show ?thesis .
qed

text \<open>Rounding and scaling by a power of two, as long as both numbers are normal.\<close>

lemma ilog2_scale: "0 < x \<Longrightarrow> ilog2 (x * 2 powi k) = ilog2 x + k"
proof (rule ilog2_eq)
  assume x: "0 < x"
  have b: "2 powi (ilog2 x) \<le> x" "x < 2 powi (ilog2 x + 1)" using ilog2_bounds [OF x] by auto
  show "2 powi (ilog2 x + k) \<le> x * 2 powi k" using b(1) by (simp add: powi_add [symmetric] mult_right_mono)
  have "x * 2 powi k < 2 powi (ilog2 x + 1) * 2 powi k" using b(2) by (intro mult_strict_right_mono) simp_all
  then show "x * 2 powi k < 2 powi (ilog2 x + k + 1)" unfolding powi_add by (simp add: algebra_simps)
qed

lemma round_to_scale:
  assumes "2 powi emin \<le> x" and "2 powi emin \<le> x * 2 powi k"
  shows "round_to prec emin (x * 2 powi k) = round_to prec emin x * 2 powi k"
proof -
  have x: "0 < x" using assms(1) less_le_trans [OF powi_pos] by blast
  then have x': "0 < x * 2 powi k" by simp
  have "2 powi emin < (2 powi (ilog2 x + 1) :: rat)" using ilog2_bounds [OF x] assms(1) by linarith
  from powi_less [OF this] have m: "max (ilog2 x) emin = ilog2 x" by simp
  have "2 powi emin < (2 powi (ilog2 (x * 2 powi k) + 1) :: rat)" using ilog2_bounds [OF x'] assms(2) by linarith
  from powi_less [OF this] have m': "max (ilog2 x + k) emin = ilog2 x + k" by (simp add: ilog2_scale [OF x])
  have "2 powi (ilog2 x + k - prec + 1) = (2 powi (ilog2 x - prec + 1) * 2 powi k :: rat)"
    unfolding powi_add by (simp add: algebra_simps)
  then show ?thesis using x by (simp add: round_to_def Let_def ilog2_scale [OF x] m m')
qed

lemma round_to_nonneg: "0 \<le> x \<Longrightarrow> 0 \<le> round_to prec emin x"
  by (simp add: round_to_def Let_def round_even_nonneg)


section \<open>Double precision\<close>

lemma rnd64_exact: "0 \<le> n \<Longrightarrow> n < 2 ^ 53 \<Longrightarrow> - 1074 \<le> k \<Longrightarrow> rnd64 (of_int n * 2 powi k) = of_int n * 2 powi k"
  using round_to_exact [of n 53 "- 1022" k] by (simp add: rnd64_def)

lemma rnd64_int [simp]: "0 \<le> n \<Longrightarrow> n < 2 ^ 53 \<Longrightarrow> rnd64 (of_int n) = of_int n"
  using rnd64_exact [of n 0] by simp

lemma rnd64_error: "2 powi (- 1022) \<le> x \<Longrightarrow> \<bar>rnd64 x - x\<bar> \<le> x * 2 powi (- 53)"
  using round_to_error [of "- 1022" x 53] by (simp add: rnd64_def)

lemma rnd64_scale: "2 powi (- 1022) \<le> x \<Longrightarrow> 2 powi (- 1022) \<le> x * 2 powi k \<Longrightarrow> rnd64 (x * 2 powi k) = rnd64 x * 2 powi k"
  using round_to_scale [of "- 1022" x k 53] by (simp add: rnd64_def)

lemma rnd64_nonneg: "0 \<le> x \<Longrightarrow> 0 \<le> rnd64 x"
  by (simp add: rnd64_def round_to_nonneg)

lemma rnd64_0 [simp]: "rnd64 0 = 0" by (simp add: rnd64_def round_to_def)

text \<open>Numbers far from both ends of the range, where nothing over- or underflows.\<close>

definition moderate :: "rat \<Rightarrow> bool" where
  "moderate x \<longleftrightarrow> x = 0 \<or> 1 / 2 ^ 60 \<le> x \<and> x \<le> 2 ^ 60"

lemma moderate_normal: "moderate x \<Longrightarrow> x \<noteq> 0 \<Longrightarrow> 2 powi (- 1022) \<le> x"
proof -
  assume "moderate x" "x \<noteq> 0"
  then have "1 / 2 ^ 60 \<le> x" by (simp add: moderate_def)
  moreover have "2 powi (- 1022) \<le> (2 powi (- 60) :: rat)" by (rule powi_mono) simp
  moreover have "2 powi (- 60) = (1 / 2 ^ 60 :: rat)" by (simp add: power_int_minus_divide)
  ultimately show ?thesis by linarith
qed

lemma rnd64_moderate:
  assumes "moderate x"
  shows "\<bar>rnd64 x - x\<bar> \<le> x / 2 ^ 53" and "0 \<le> rnd64 x" and "rnd64 x < 2 ^ 1024" and "mk64 s x = Fin s (rnd64 x)"
proof -
  have x: "0 \<le> x" "x \<le> 2 ^ 60" using assms by (auto simp: moderate_def intro: order_trans [of 0 "1 / 2 ^ 60"])
  show e: "\<bar>rnd64 x - x\<bar> \<le> x / 2 ^ 53"
  proof (cases "x = 0")
    case False
    then show ?thesis using rnd64_error [OF moderate_normal [OF assms False]] by (simp add: power_int_minus_divide)
  qed simp
  show "0 \<le> rnd64 x" using rnd64_nonneg x by simp
  have "rnd64 x \<le> x + x / 2 ^ 53" using e by linarith
  also have "\<dots> \<le> x + x" using x by simp
  also have "\<dots> \<le> 2 ^ 61" using x by simp
  also have "(2 :: rat) ^ 61 < 2 ^ 1024" by (rule power_strict_increasing) simp_all
  finally show "rnd64 x < 2 ^ 1024" .
  then show "mk64 s x = Fin s (rnd64 x)" by (simp add: mk64_def Let_def)
qed

lemma mk64_int: "0 \<le> n \<Longrightarrow> n < 2 ^ 53 \<Longrightarrow> mk64 s (of_int n) = Fin s (of_int n)"
proof -
  assume n: "0 \<le> n" "n < 2 ^ 53"
  then have "of_int n < (of_int (2 ^ 53) :: rat)" by (simp only: of_int_less_iff)
  also have "of_int (2 ^ 53) = (2 ^ 53 :: rat)" by simp
  also have "(2 :: rat) ^ 53 < 2 ^ 1024" by (rule power_strict_increasing) simp_all
  finally show ?thesis using n by (simp add: mk64_def Let_def)
qed

lemma f64_of_int_exact: "\<bar>i\<bar> < 2 ^ 53 \<Longrightarrow> f64_of_int i = Fin (i < 0) (of_int \<bar>i\<bar>)"
  unfolding f64_of_int_def by (rule mk64_int) simp_all

lemma round_to_representable:
  assumes "0 \<le> x"
  shows "\<exists>n k. round_to (int p) emin x = of_int n * 2 powi k \<and> 0 \<le> n \<and> n \<le> 2 ^ p \<and> emin - int p + 1 \<le> k"
proof (cases "x = 0")
  case True
  then show ?thesis by (intro exI [of _ 0] exI [of _ "emin - int p + 1"]) (simp add: round_to_def)
next
  case False
  let ?k = "max (ilog2 x) emin - int p + 1" let ?u = "2 powi ?k :: rat"
  have "x < 2 powi (ilog2 x + 1)" using ilog2_bounds [of x] assms False by simp
  also have "\<dots> \<le> 2 powi (int p + ?k)" by (intro powi_mono) simp
  also have "\<dots> = 2 ^ p * ?u" unfolding powi_add [symmetric] by simp
  finally have "x / ?u < 2 ^ p" by (simp add: pos_divide_less_eq)
  then have "of_int (round_even (x / ?u)) < (2 ^ p + 1 :: rat)" using round_even_error [of "x / ?u"] by linarith
  then have "of_int (round_even (x / ?u)) < (of_int (2 ^ p + 1) :: rat)" by simp
  then have "round_even (x / ?u) \<le> 2 ^ p" by (simp only: of_int_less_iff)
  moreover have "0 \<le> round_even (x / ?u)" using assms by (intro round_even_nonneg) simp
  ultimately show ?thesis
    using False by (intro exI [of _ "round_even (x / ?u)"] exI [of _ ?k]) (simp add: round_to_def Let_def)
qed

text \<open>A rounded number times a power of two is kept.\<close>

lemma rnd64_rounded: "0 \<le> x \<Longrightarrow> rnd64 (rnd64 x * 2 ^ j) = rnd64 x * 2 ^ j"
proof -
  assume "0 \<le> x"
  then obtain n k where n: "rnd64 x = of_int n * 2 powi k" "0 \<le> n" "n \<le> 2 ^ 53" "- 1074 \<le> k"
    using round_to_representable [of x 53 "- 1022"] by (auto simp: rnd64_def)
  have e: "rnd64 x * 2 ^ j = of_int n * 2 powi (k + int j)" using n(1) by (simp add: powi_add [symmetric])
  show ?thesis
  proof (cases "n = 2 ^ 53")
    case True
    then have "rnd64 x * 2 ^ j = of_int 1 * 2 powi (53 + (k + int j))" unfolding e powi_add [symmetric] by simp
    then show ?thesis using rnd64_exact [of 1 "53 + (k + int j)"] n(4) by simp
  next
    case False
    then have "n < 2 ^ 53" using n(3) by simp
    then show ?thesis unfolding e using n by (intro rnd64_exact) simp_all
  qed
qed

text \<open>A number that is nearly another one, and how the relative error grows with each operation.\<close>

definition near :: "nat \<Rightarrow> rat \<Rightarrow> rat \<Rightarrow> bool" where
  "near k x y \<longleftrightarrow> \<bar>x - y\<bar> \<le> y * of_nat k / 2 ^ 53"

definition tame :: "rat \<Rightarrow> bool" where
  "tame y \<longleftrightarrow> y = 0 \<or> 1 / 2 ^ 50 \<le> y \<and> y \<le> 2 ^ 50"

lemma near_refl [simp]: "0 \<le> y \<Longrightarrow> near k y y"
  by (simp add: near_def)

lemma near_scale: "near k x y \<Longrightarrow> 0 \<le> a \<Longrightarrow> near k (x * a) (y * a)"
proof -
  assume "near k x y" "0 \<le> a"
  then have "\<bar>x - y\<bar> * a \<le> y * of_nat k / 2 ^ 53 * a" unfolding near_def by (rule mult_right_mono)
  moreover have "\<bar>x * a - y * a\<bar> = \<bar>x - y\<bar> * a" using \<open>0 \<le> a\<close> by (simp add: left_diff_distrib [symmetric] abs_mult)
  ultimately show ?thesis by (simp add: near_def algebra_simps)
qed

lemma tame_nonneg: "tame y \<Longrightarrow> 0 \<le> y"
  by (auto simp: tame_def intro: order_trans [of 0 "1 / 2 ^ 50"])

lemma near_bounds:
  assumes "near k x y" and "tame y" and "k \<le> 1000"
  shows "x \<le> 2 * y" and "y \<le> 2 * x"
proof -
  have y: "0 \<le> y" by (rule tame_nonneg [OF assms(2)])
  have "of_nat k / 2 ^ 53 \<le> (1 / 2 :: rat)" using assms(3) by (simp add: field_simps)
  then have "y * (of_nat k / 2 ^ 53) \<le> y * (1 / 2)" using y by (intro mult_left_mono)
  then have "\<bar>x - y\<bar> \<le> y / 2" using assms(1) by (simp add: near_def)
  then show "x \<le> 2 * y" "y \<le> 2 * x" using y by linarith+
qed

lemma near_moderate: "near k x y \<Longrightarrow> tame y \<Longrightarrow> k \<le> 1000 \<Longrightarrow> moderate x"
proof -
  assume n: "near k x y" "tame y" "k \<le> 1000"
  note b = near_bounds [OF n]
  show ?thesis
  proof (cases "y = 0")
    case False
    then have t: "1 / 2 ^ 50 \<le> y" "y \<le> 2 ^ 50" using n(2) by (auto simp: tame_def)
    have "x \<le> 2 * 2 ^ 50" "1 / 2 ^ 50 \<le> 2 * x" using b t by linarith+
    then show ?thesis unfolding moderate_def by simp
  qed (use n in \<open>simp add: near_def moderate_def\<close>)
qed

lemma mk64_near:
  assumes "near k x y" and "tame y" and "k \<le> 1000"
  shows "\<exists>r. mk64 s x = Fin s r \<and> r = rnd64 x \<and> near (k + 2) r y \<and> 0 \<le> r"
proof -
  have m: "moderate x" by (rule near_moderate [OF assms])
  have y: "0 \<le> y" by (rule tame_nonneg [OF assms(2)])
  have "\<bar>rnd64 x - x\<bar> \<le> x / 2 ^ 53" by (rule rnd64_moderate [OF m])
  also have "\<dots> \<le> 2 * y / 2 ^ 53" using near_bounds(1) [OF assms] by (intro divide_right_mono) simp_all
  finally have "\<bar>rnd64 x - y\<bar> \<le> y * of_nat k / 2 ^ 53 + 2 * y / 2 ^ 53" using assms(1) unfolding near_def by linarith
  also have "\<dots> = y * of_nat (k + 2) / 2 ^ 53" by (simp add: algebra_simps add_divide_distrib)
  finally have "near (k + 2) (rnd64 x) y" by (simp add: near_def)
  then show ?thesis using rnd64_moderate(2,4) [OF m] by simp
qed

lemma near_floor:
  assumes "near k y (of_int n)" and "k \<le> 1000" and "0 \<le> n" and "n \<le> 2 ^ 40"
  shows "\<lfloor>y + 1 / 2\<rfloor> = n"
proof (rule floor_unique)
  have "of_int n \<le> (of_int (2 ^ 40) :: rat)" using assms(4) by (simp only: of_int_le_iff)
  then have "of_int n * of_nat k \<le> (2 ^ 40 * 1000 :: rat)" using assms(2,3) by (intro mult_mono) simp_all
  then have "of_int n * of_nat k / 2 ^ 53 \<le> (2 ^ 40 * 1000 / 2 ^ 53 :: rat)" by (intro divide_right_mono) simp_all
  also have "\<dots> < 1 / 2" by simp
  finally have "\<bar>y - of_int n\<bar> < 1 / 2" using assms(1) unfolding near_def by linarith
  then show "of_int n \<le> y + 1 / 2" "y + 1 / 2 < of_int n + 1" by linarith+
qed

section \<open>Single precision read back\<close>

lemma u32_fields:
  fixes w :: u32
  shows "uint w = of_bool (bit w 31) * 2 ^ 31 + take_bit 8 (drop_bit 23 (uint w)) * 2 ^ 23 + take_bit 23 (uint w)"
proof -
  have u: "0 \<le> uint w" "uint w < 2 ^ 32" using uint_lt2p [of w] by simp_all
  then have t: "uint w div 2 ^ 31 = 0 \<or> uint w div 2 ^ 31 = 1" by auto
  have "bit w 31 \<longleftrightarrow> odd (uint w div 2 ^ 31)" using bit_uint_iff [of w 31] by (simp add: bit_iff_odd)
  then have b: "uint w div 2 ^ 31 = of_bool (bit w 31)" using t by auto
  have "uint w = (uint w div 2 ^ 23) * 2 ^ 23 + uint w mod 2 ^ 23" by simp
  also have "uint w div 2 ^ 23 = (uint w div 2 ^ 23 div 2 ^ 8) * 2 ^ 8 + uint w div 2 ^ 23 mod 2 ^ 8" by simp
  also have "uint w div 2 ^ 23 div 2 ^ 8 = of_bool (bit w 31)" unfolding b [symmetric] by (simp add: div_mult2_eq [symmetric])
  finally show ?thesis unfolding take_bit_eq_mod drop_bit_eq_div by (simp add: algebra_simps)
qed

lemma rnd32_exact:
  assumes "0 \<le> n" and "n < 2 ^ 24" and "- 149 \<le> k" and "k \<le> 104"
  shows "f64_to_f32 (Fin s (of_int n * 2 powi k)) = Fin s (of_int n * 2 powi k)"
proof -
  have "of_int n < (of_int (2 ^ 24) :: rat)" using assms(2) by (simp only: of_int_less_iff)
  then have "of_int n * 2 powi k < 2 powi 24 * (2 powi k :: rat)" by (intro mult_strict_right_mono) simp_all
  also have "\<dots> \<le> 2 powi 128" unfolding powi_add using assms(4) by (intro powi_mono) simp
  finally show ?thesis using round_to_exact [of n 24 "- 126" k] assms(1-3) by (simp add: rnd32_def f64_to_f32_def)
qed

lemma f32_bits_subnormal:
  assumes "0 \<le> m" and "m < 2 ^ 23"
  shows "f32_to_bits nan (Fin s (of_int m * 2 powi (- 149))) = word_of_int (of_bool s * 2 ^ 31 + m)"
proof (cases "m = 0")
  case False
  let ?x = "of_int m * 2 powi (- 149) :: rat"
  have x: "0 < ?x" using assms(1) False by simp
  have "of_int m < (of_int (2 ^ 23) :: rat)" using assms(2) by (simp only: of_int_less_iff)
  then have "?x < 2 powi 23 * 2 powi (- 149)" by (intro mult_strict_right_mono) simp_all
  then have "2 powi (ilog2 ?x) < (2 powi (- 126) :: rat)" unfolding powi_add using ilog2_bounds [OF x] by simp
  from powi_less [OF this] have l: "max (ilog2 ?x) (- 126) = - 126" by simp
  have "?x * 2 powi (23 - (- 126)) = of_int m" by (simp add: mult.assoc powi_add)
  then show ?thesis using False assms unfolding f32_to_bits_def f64.case Let_def l by simp
qed (simp add: f32_to_bits_def)

lemma f32_bits_normal:
  assumes "0 \<le> m" and "m < 2 ^ 23" and "1 \<le> e"
  shows "f32_to_bits nan (Fin s (of_int (2 ^ 23 + m) * 2 powi (e - 150))) = word_of_int (of_bool s * 2 ^ 31 + (e * 2 ^ 23 + m))"
proof -
  let ?n = "2 ^ 23 + m" let ?x = "of_int ?n * 2 powi (e - 150) :: rat"
  have b: "of_int (2 ^ 23) \<le> (of_int ?n :: rat)" "of_int ?n < (of_int (2 ^ 24) :: rat)"
    unfolding of_int_le_iff of_int_less_iff using assms by simp_all
  have "2 powi 23 * 2 powi (e - 150) \<le> ?x" using b(1) by (intro mult_right_mono) simp_all
  moreover have "?x < 2 powi 24 * 2 powi (e - 150)" using b(2) by (intro mult_strict_right_mono) simp_all
  ultimately have "ilog2 ?x = e - 127" unfolding powi_add by (intro ilog2_eq) (simp_all add: algebra_simps)
  then have l: "max (ilog2 ?x) (- 126) = e - 127" using assms(3) by simp
  have f: "\<lfloor>?x * 2 powi (23 - (e - 127))\<rfloor> = ?n" by (simp add: mult.assoc powi_add del: of_int_add)
  have nz: "?x \<noteq> 0" using assms(1) by (simp del: of_int_add)
  show ?thesis using assms nz unfolding f32_to_bits_def f64.case Let_def l f by (simp del: of_int_add)
qed

lemma f32_round_trip:
  fixes w :: u32
  assumes "f32_from_bits w \<noteq> Nan"
  shows "f64_to_f32 (f32_from_bits w) = f32_from_bits w \<and> f32_to_bits nan (f32_from_bits w) = w"
proof -
  let ?s = "bit w 31" let ?e = "take_bit 8 (drop_bit 23 (uint w))" let ?m = "take_bit 23 (uint w)"
  have w: "w = word_of_int (of_bool ?s * 2 ^ 31 + ?e * 2 ^ 23 + ?m)" unfolding u32_fields [symmetric] by simp
  obtain s e m where d: "s = ?s" "e = ?e" "m = ?m" by blast
  have m: "0 \<le> m" "m < 2 ^ 23" unfolding d using take_bit_int_less_exp [of 23 "uint w"] by simp_all
  have e: "0 \<le> e" "e < 256" unfolding d using take_bit_int_less_exp [of 8 "drop_bit 23 (uint w)"] by simp_all
  note fb = f32_from_bits_def [of w, unfolded Let_def, folded d] and w = w [folded d]
  consider (inf) "e = 255" "m = 0" | (sub) "e = 0" | (normal) "1 \<le> e" "e \<le> 254"
    using assms e fb by fastforce
  then show ?thesis
  proof cases
    case inf
    have v: "f32_from_bits w = Inf s" using inf fb by simp
    have "word_of_int (of_bool s * 2 ^ 31 + 255 * 2 ^ 23) = w" using w inf by (simp only: add_0_right)
    then show ?thesis unfolding v by (simp add: f64_to_f32_def f32_to_bits_def)
  next
    case sub
    have v: "f32_from_bits w = Fin s (of_int m * 2 powi (- 149))" using sub fb by simp
    have "word_of_int (of_bool s * 2 ^ 31 + m) = w" using w sub by (simp only: mult_zero_left add_0_right)
    then show ?thesis unfolding v using rnd32_exact [of m "- 149" s] f32_bits_subnormal [OF m, of nan s] m by simp
  next
    case normal
    have v: "f32_from_bits w = Fin s (of_int (2 ^ 23 + m) * 2 powi (e - 150))" using normal fb by simp
    have "word_of_int (of_bool s * 2 ^ 31 + (e * 2 ^ 23 + m)) = w" using w by (simp only: add.assoc)
    then show ?thesis
      unfolding v f32_bits_normal [OF m normal(1)] using rnd32_exact [of "2 ^ 23 + m" "e - 150" s] m normal by simp
  qed
qed

end
