(* ===== verification/Utf8.thy ===== *)
theory Utf8
  imports Prelude
begin

text \<open>
  UTF-8, as the strings of the language are: a text is the list of its characters, which are Unicode scalar
  values, and its octets are the shortest form of each. Shown: the octets of a text are read back
  as the text, and octets that are accepted are the octets of the text they are read as.
\<close>

definition scalar :: "nat \<Rightarrow> bool" where
  "scalar n \<longleftrightarrow> n < 0xD800 \<or> 0xE000 \<le> n \<and> n \<le> 0x10FFFF"

definition utf8_units :: "nat \<Rightarrow> nat list" where
  "utf8_units n =
     (if n < 0x80 then [n]
      else if n < 0x800 then [0xC0 + n div 64, 0x80 + n mod 64]
      else if n < 0x10000 then [0xE0 + n div 64 div 64, 0x80 + n div 64 mod 64, 0x80 + n mod 64]
      else [0xF0 + n div 64 div 64 div 64, 0x80 + n div 64 div 64 mod 64, 0x80 + n div 64 mod 64, 0x80 + n mod 64])"

definition continuation :: "nat \<Rightarrow> bool" where
  "continuation b \<longleftrightarrow> 0x80 \<le> b \<and> b < 0xC0"

text \<open>The first character and the number of its octets.\<close>

definition utf8_first :: "nat list \<Rightarrow> (nat \<times> nat) option" where
  "utf8_first bs =
     (case bs of [] \<Rightarrow> None
      | b # r \<Rightarrow>
        if b < 0x80 then Some (b, 1)
        else case r of [] \<Rightarrow> None
        | b1 # r1 \<Rightarrow>
          if \<not> continuation b1 then None
          else if 0xC2 \<le> b \<and> b < 0xE0 then Some ((b - 0xC0) * 64 + (b1 - 0x80), 2)
          else case r1 of [] \<Rightarrow> None
          | b2 # r2 \<Rightarrow>
            if \<not> continuation b2 then None
            else if 0xE0 \<le> b \<and> b < 0xF0 then
              (if b = 0xE0 \<and> b1 < 0xA0 \<or> b = 0xED \<and> 0xA0 \<le> b1 then None
               else Some (((b - 0xE0) * 64 + (b1 - 0x80)) * 64 + (b2 - 0x80), 3))
            else case r2 of [] \<Rightarrow> None
            | b3 # _ \<Rightarrow>
              if \<not> continuation b3 \<or> b < 0xF0 \<or> 0xF4 < b \<or> b = 0xF0 \<and> b1 < 0x90 \<or> b = 0xF4 \<and> 0x90 \<le> b1 then None
              else Some ((((b - 0xF0) * 64 + (b1 - 0x80)) * 64 + (b2 - 0x80)) * 64 + (b3 - 0x80), 4))"

definition char_ok :: "u32 \<Rightarrow> bool" where
  "char_ok c \<longleftrightarrow> scalar (unat c)"

definition utf8_encode :: "u32 list \<Rightarrow> u8 list" where
  "utf8_encode cs = map of_nat (concat (map (\<lambda>c. utf8_units (unat c)) cs))"

function utf8_units_decode :: "nat list \<Rightarrow> u32 list option" where
  "utf8_units_decode bs =
     (if bs = [] then Some []
      else case utf8_first bs of None \<Rightarrow> None
      | Some (c, n) \<Rightarrow> map_option ((#) (of_nat c)) (utf8_units_decode (drop n bs)))"
  by auto

lemma utf8_first_count: "utf8_first bs = Some (c, n) \<Longrightarrow> 1 \<le> n \<and> n \<le> length bs"
  by (auto simp: utf8_first_def split: if_splits list.splits)

termination utf8_units_decode
  by (relation "measure length") (auto dest: utf8_first_count)

declare utf8_units_decode.simps [simp del]

definition utf8_decode :: "u8 list \<Rightarrow> u32 list option" where
  "utf8_decode bs = utf8_units_decode (map unat bs)"

section \<open>One character, both ways\<close>

lemma continuation_iff: "continuation b \<longleftrightarrow> (\<exists>x < 64. b = 0x80 + x)"
  unfolding continuation_def by presburger

lemma digits:
  fixes a b c :: nat
  assumes "b < 64"
  shows "(a * 64 + b) div 64 = a" and "(a * 64 + b) mod 64 = b"
  using assms by simp_all

lemma digits_ex: "\<exists>a b. n = a * 64 + b \<and> b < (64 :: nat)"
  using div_mult_mod_eq [of n 64] by (metis mod_less_divisor zero_less_numeral)

text \<open>The octets of a character by its digits to the base 64.\<close>

lemma utf8_units_2: "b < 64 \<Longrightarrow> 2 \<le> a \<Longrightarrow> a < 32 \<Longrightarrow> utf8_units (a * 64 + b) = [0xC0 + a, 0x80 + b]"
  by (subst utf8_units_def) (simp add: digits del: distrib_right_numeral)

lemma utf8_units_3:
  assumes "c < 64" and "b < 64" and "a < 16" and "32 \<le> a * 64 + b"
  shows "utf8_units ((a * 64 + b) * 64 + c) = [0xE0 + a, 0x80 + b, 0x80 + c]"
proof -
  have "2048 \<le> (a * 64 + b) * 64 + c" "(a * 64 + b) * 64 + c < 65536" using assms by simp_all
  then show ?thesis using assms by (subst utf8_units_def) (simp add: digits del: distrib_right_numeral)
qed

lemma utf8_units_4:
  assumes "d < 64" and "c < 64" and "b < 64" and "16 \<le> a * 64 + b"
  shows "utf8_units (((a * 64 + b) * 64 + c) * 64 + d) = [0xF0 + a, 0x80 + b, 0x80 + c, 0x80 + d]"
proof -
  have "65536 \<le> ((a * 64 + b) * 64 + c) * 64 + d" using assms by simp
  then show ?thesis using assms by (subst utf8_units_def) (simp add: digits del: distrib_right_numeral)
qed

lemma utf8_first_units:
  assumes "scalar n"
  shows "utf8_first (utf8_units n @ rest) = Some (n, length (utf8_units n))"
proof -
  consider "n < 0x80" | "0x80 \<le> n" "n < 0x800" | "0x800 \<le> n" "n < 0x10000" | "0x10000 \<le> n" by linarith
  then show ?thesis
  proof cases
    case 2
    obtain a b where n: "n = a * 64 + b" "b < 64" using digits_ex by blast
    then have "2 \<le> a" "a < 32" using 2 by simp_all
    then show ?thesis using n by (simp add: utf8_units_2 utf8_first_def continuation_def)
  next
    case 3
    obtain m c where m: "n = m * 64 + c" "c < 64" using digits_ex by blast
    obtain a b where n: "m = a * 64 + b" "b < 64" using digits_ex by blast
    have d: "a < 16" "32 \<le> a * 64 + b" using 3 m n by simp_all
    have "\<not> (a = 0 \<and> b < 32 \<or> a = 13 \<and> 32 \<le> b)" using d assms m n unfolding scalar_def by auto
    then show ?thesis unfolding m(1) n(1) using m(2) n(2) d by (simp add: utf8_units_3 utf8_first_def continuation_def del: distrib_right_numeral)
  next
    case 4
    obtain l d where l: "n = l * 64 + d" "d < 64" using digits_ex by blast
    obtain m c where m: "l = m * 64 + c" "c < 64" using digits_ex by blast
    obtain a b where n: "m = a * 64 + b" "b < 64" using digits_ex by blast
    have e: "16 \<le> a * 64 + b" using 4 l m n by simp
    have "a \<le> 4 \<and> \<not> (a = 0 \<and> b < 16 \<or> a = 4 \<and> 16 \<le> b)" using 4 e assms l m n unfolding scalar_def by auto
    then show ?thesis unfolding l(1) m(1) n(1) using l(2) m(2) n(2) e
      by (simp add: utf8_units_4 utf8_first_def continuation_def del: distrib_right_numeral)
  qed (simp add: utf8_units_def utf8_first_def)
qed

lemma utf8_units_first:
  assumes "utf8_first bs = Some (n, k)"
  shows "scalar n \<and> utf8_units n = take k bs"
proof -
  obtain o1 r where o1: "bs = o1 # r" using assms by (cases bs) (auto simp: utf8_first_def)
  consider "k = 1" | "k = 2" | "k = 3" | "k = 4" using assms by (auto simp: utf8_first_def split: if_splits list.splits)
  then show ?thesis
  proof cases
    case 1
    then show ?thesis using assms o1 by (auto simp: utf8_first_def utf8_units_def scalar_def split: if_splits list.splits)
  next
    case 2
    then obtain o2 r1 where r: "r = o2 # r1" "0xC2 \<le> o1" "o1 < 0xE0" "continuation o2" "n = (o1 - 0xC0) * 64 + (o2 - 0x80)"
      using assms o1 by (auto simp: utf8_first_def split: if_splits list.splits)
    obtain b where b: "b < 64" "o2 = 0x80 + b" using r(4) by (auto simp: continuation_iff)
    obtain a where a: "o1 = 0xC0 + a" "2 \<le> a" "a < 32" using r(2,3) le_Suc_ex [of "0xC2" o1] by force
    then show ?thesis using r(1,5) 2 o1 b by (simp add: utf8_units_2 scalar_def)
  next
    case 3
    then obtain o2 o3 r2 where r: "r = o2 # o3 # r2" "0xE0 \<le> o1" "o1 < 0xF0" "continuation o2" "continuation o3"
      "\<not> (o1 = 0xE0 \<and> o2 < 0xA0 \<or> o1 = 0xED \<and> 0xA0 \<le> o2)" "n = ((o1 - 0xE0) * 64 + (o2 - 0x80)) * 64 + (o3 - 0x80)"
      using assms o1 by (auto simp: utf8_first_def split: if_splits list.splits)
    obtain b c where b: "b < 64" "o2 = 0x80 + b" "c < 64" "o3 = 0x80 + c" using r(4,5) by (auto simp: continuation_iff)
    obtain a where a: "o1 = 0xE0 + a" "a < 16" using r(2,3) le_Suc_ex [of "0xE0" o1] by force
    have x: "\<not> (a = 0 \<and> b < 32 \<or> a = 13 \<and> 32 \<le> b)" using r(6) a b by simp
    then have "32 \<le> a * 64 + b" by (cases "a = 0") auto
    moreover have "a \<le> 12 \<or> a = 13 \<or> 14 \<le> a" by linarith
    then have "scalar ((a * 64 + b) * 64 + c)" using x a(2) b(1,3) by (elim disjE) (simp_all add: scalar_def)
    ultimately show ?thesis using r(1,7) 3 o1 a b by (simp add: utf8_units_3 del: distrib_right_numeral)
  next
    case 4
    then obtain o2 o3 o4 r3 where r: "r = o2 # o3 # o4 # r3" "0xF0 \<le> o1" "o1 \<le> 0xF4" "continuation o2" "continuation o3" "continuation o4"
      "\<not> (o1 = 0xF0 \<and> o2 < 0x90 \<or> o1 = 0xF4 \<and> 0x90 \<le> o2)"
      "n = (((o1 - 0xF0) * 64 + (o2 - 0x80)) * 64 + (o3 - 0x80)) * 64 + (o4 - 0x80)"
      using assms o1 by (auto simp: utf8_first_def not_less not_le split: if_splits list.splits)
    obtain b c d where b: "b < 64" "o2 = 0x80 + b" "c < 64" "o3 = 0x80 + c" "d < 64" "o4 = 0x80 + d"
      using r(4-6) by (auto simp: continuation_iff)
    obtain a where a: "o1 = 0xF0 + a" "a \<le> 4" using r(2,3) le_Suc_ex [of "0xF0" o1] by force
    have x: "\<not> (a = 0 \<and> b < 16 \<or> a = 4 \<and> 16 \<le> b)" using r(7) a b by simp
    then have "16 \<le> a * 64 + b" by (cases "a = 0") auto
    moreover have "a \<le> 3 \<or> a = 4" using a by linarith
    then have "((a * 64 + b) * 64 + c) * 64 + d \<le> 0x10FFFF" using x b(1,3,5) by (elim disjE) simp_all
    ultimately have "16 \<le> a * 64 + b" "scalar (((a * 64 + b) * 64 + c) * 64 + d)" by (simp_all add: scalar_def)
    then show ?thesis using r(1,8) 4 o1 a b by (simp add: utf8_units_4 del: distrib_right_numeral)
  qed
qed

lemma utf8_units_octets: "scalar n \<Longrightarrow> list_all (\<lambda>b. b < 256) (utf8_units n) \<and> utf8_units n \<noteq> []"
proof -
  assume "scalar n"
  then have "n < 0x200000" by (auto simp: scalar_def)
  moreover have "n mod 64 < 64" "n div 64 mod 64 < 64" "n div 64 div 64 mod 64 < 64" by simp_all
  ultimately show ?thesis by (simp add: utf8_units_def div_less_iff_less_mult div_mult2_eq [symmetric] del: mod_less_divisor)
qed

section \<open>Texts\<close>

lemma utf8_inverse: "list_all char_ok cs \<Longrightarrow> utf8_decode (utf8_encode cs) = Some cs"
proof (induction cs)
  case (Cons c cs)
  have c: "scalar (unat c)" using Cons.prems by (simp add: char_ok_def)
  have o8: "map unat (map (of_nat :: nat \<Rightarrow> u8) ns) = ns" if "list_all (\<lambda>b. b < 256) ns" for ns
    using that by (induction ns) (simp_all add: unat_octet)
  let ?rest = "map unat (utf8_encode cs)"
  have e: "map unat (utf8_encode (c # cs)) = utf8_units (unat c) @ ?rest"
    using utf8_units_octets [OF c] by (simp add: utf8_encode_def o8 del: map_map)
  show ?case
    using Cons utf8_units_octets [OF c] utf8_first_units [OF c, of ?rest]
    unfolding utf8_decode_def e by (subst utf8_units_decode.simps) simp
qed (simp add: utf8_decode_def utf8_encode_def utf8_units_decode.simps)

lemma utf8_decode_exact: "utf8_decode bs = Some cs \<Longrightarrow> utf8_encode cs = bs \<and> list_all char_ok cs"
proof -
  have *: "utf8_units_decode ns = Some cs \<Longrightarrow> list_all (\<lambda>b. b < 256) ns \<Longrightarrow>
      concat (map (\<lambda>c. utf8_units (unat c)) cs) = ns \<and> list_all char_ok cs" for ns cs
  proof (induction ns arbitrary: cs rule: utf8_units_decode.induct)
    case (1 ns)
    show ?case
    proof (cases "ns = []")
      case True
      then show ?thesis using "1.prems" by (simp add: utf8_units_decode.simps)
    next
      case False
      then obtain n k cs' where f: "utf8_first ns = Some (n, k)" "utf8_units_decode (drop k ns) = Some cs'" "cs = of_nat n # cs'"
        using "1.prems"(1) by (auto simp: utf8_units_decode.simps [of ns] split: option.splits)
      have n: "scalar n" "utf8_units n = take k ns" using utf8_units_first [OF f(1)] by auto
      then have "n < 2 ^ 32" by (auto simp: scalar_def)
      then have u: "unat (of_nat n :: u32) = n" by (simp add: unsigned_of_nat take_bit_nat_eq_self)
      have "list_all (\<lambda>b. b < 256) (drop k ns)" using "1.prems"(2) by (auto simp: list_all_iff dest: in_set_dropD)
      from "1.IH" [OF False f(1) refl f(2) this] show ?thesis using f(3) n u by (simp add: char_ok_def)
    qed
  qed
  assume "utf8_decode bs = Some cs"
  then have "concat (map (\<lambda>c. utf8_units (unat c)) cs) = map unat bs \<and> list_all char_ok cs"
    unfolding utf8_decode_def by (rule *) (auto simp: list_all_iff unat_bounds(1))
  then show ?thesis by (simp add: utf8_encode_def o_def)
qed

end
