(* ===== verification/Dpt_Value.thy ===== *)
theory Dpt_Value
  imports Dpt Float64 Utf8
begin

text \<open>
  The datapoint values and their codecs (\<^verbatim>\<open>knx-rs-core/src/dpt/mod.rs\<close> and \<^verbatim>\<open>dpt/convert/\<close>): numbers,
  multi-field octets and texts, encoding and decoding of every main group. What the code takes from
  outside is the record \<open>FloatLib\<close>: the rounding function of the \<^verbatim>\<open>libm\<close> crate, and the octets the
  platform gives a not-a-number in single precision, which the language leaves open.
\<close>

type_synonym i32 = "32 word"
type_synonym i64 = "64 word"

record FloatLib =
  libm_round :: "f64 \<Rightarrow> f64"
  nan_bits :: u32

datatype DptValue = DvBool bool | DvUInt u32 | DvInt i32 | DvFloat f64 | DvInt64 i64 | DvText "u32 list" | DvBytes "u8 list"

text \<open>The error for a missing datapoint type belongs to the group objects, which raise it.\<close>

datatype DptError = PayloadTooShort | UnsupportedDpt dpt | OutOfRange string | TypeMismatch

section \<open>Accessors\<close>

fun as_bool :: "DptValue \<Rightarrow> bool option" where
  "as_bool (DvBool v) = Some v" | "as_bool _ = None"

fun as_u32 :: "DptValue \<Rightarrow> u32 option" where
  "as_u32 (DvUInt v) = Some v" | "as_u32 _ = None"

fun as_i32 :: "DptValue \<Rightarrow> i32 option" where
  "as_i32 (DvInt v) = Some v" | "as_i32 _ = None"

fun as_f64 :: "DptValue \<Rightarrow> f64 option" where
  "as_f64 (DvFloat v) = Some v"
| "as_f64 (DvBool v) = Some (if v then f64_lit 1 else f64_lit 0)"
| "as_f64 (DvUInt v) = Some (f64_of_int (uint v))"
| "as_f64 (DvInt v) = Some (f64_of_int (sint v))"
| "as_f64 (DvInt64 v) = Some (f64_of_int (sint v))"
| "as_f64 _ = None"

fun as_i64 :: "DptValue \<Rightarrow> i64 option" where
  "as_i64 (DvInt64 v) = Some v" | "as_i64 _ = None"

fun as_str :: "DptValue \<Rightarrow> u32 list option" where
  "as_str (DvText s) = Some s" | "as_str _ = None"

fun value_bytes :: "DptValue \<Rightarrow> u8 list option" where
  "value_bytes (DvBytes b) = Some b" | "value_bytes _ = None"

section \<open>Numbers\<close>

definition round :: "FloatLib \<Rightarrow> f64 \<Rightarrow> f64" where "round fl v = libm_round fl v"

definition f64_to_u8 :: "FloatLib \<Rightarrow> f64 \<Rightarrow> DptError + u8" where
  "f64_to_u8 fl v = (let r = round fl v in
     if \<not> is_finite r \<or> \<not> f64_between 0 255 r then Inl (OutOfRange ''expected 0..=255'')
     else Inr (word_of_int (f64_to_int 0 255 r)))"

definition f64_to_u32 :: "FloatLib \<Rightarrow> f64 \<Rightarrow> DptError + u32" where
  "f64_to_u32 fl v = (let r = round fl v in
     if \<not> is_finite r \<or> f64_val r < 0 \<or> 4294967295 < f64_val r then Inl (OutOfRange ''expected 0..=4294967295'')
     else Inr (word_of_int (f64_to_int 0 4294967295 r)))"

definition f64_to_i32 :: "FloatLib \<Rightarrow> f64 \<Rightarrow> DptError + i32" where
  "f64_to_i32 fl v = (let r = round fl v in
     if \<not> is_finite r \<or> f64_val r < - 2147483648 \<or> 2147483647 < f64_val r
     then Inl (OutOfRange ''expected -2147483648..=2147483647'')
     else Inr (word_of_int (f64_to_int (- 2147483648) 2147483647 r)))"

definition f64_to_i64 :: "FloatLib \<Rightarrow> f64 \<Rightarrow> DptError + i64" where
  "f64_to_i64 fl v = (let r = round fl v in
     if \<not> is_finite r \<or> \<not> (- (2 ^ 63) \<le> f64_val r \<and> f64_val r < 2 ^ 63)
     then Inl (OutOfRange ''expected a value in the i64 range'')
     else Inr (word_of_int (f64_to_int (- (2 ^ 63)) (2 ^ 63 - 1) r)))"

definition check_len :: "u8 list \<Rightarrow> nat \<Rightarrow> DptError + unit" where
  "check_len payload n = (if length payload < n then Inl PayloadTooShort else Inr ())"

definition low_u8 :: "u32 \<Rightarrow> u8" where "low_u8 v = ucast (v AND 0xFF)"
definition low_u16 :: "u32 \<Rightarrow> u16" where "low_u16 v = ucast (v AND 0xFFFF)"
definition low_i8 :: "i32 \<Rightarrow> u8" where "low_i8 v = ucast v"
definition low_i16 :: "i32 \<Rightarrow> u16" where "low_i16 v = ucast v"

fun val_bool :: "DptValue \<Rightarrow> DptError + bool" where
  "val_bool (DvBool v) = Inr v"
| "val_bool (DvUInt v) = Inr (v \<noteq> 0)"
| "val_bool (DvInt v) = Inr (v \<noteq> 0)"
| "val_bool (DvFloat v) = Inr (case v of Fin s a \<Rightarrow> a \<noteq> 0 | _ \<Rightarrow> True)"
| "val_bool _ = Inl TypeMismatch"

fun val_u32 :: "FloatLib \<Rightarrow> DptValue \<Rightarrow> DptError + u32" where
  "val_u32 fl (DvUInt v) = Inr v"
| "val_u32 fl (DvBool v) = Inr (of_bool v)"
| "val_u32 fl (DvInt v) = (if sint v < 0 then Inl (OutOfRange ''negative value for unsigned DPT'') else Inr v)"
| "val_u32 fl (DvFloat v) = f64_to_u32 fl v"
| "val_u32 fl _ = Inl TypeMismatch"

definition val_u32_max :: "FloatLib \<Rightarrow> DptValue \<Rightarrow> u32 \<Rightarrow> DptError + u32" where
  "val_u32_max fl value m = bind_res (val_u32 fl value) (\<lambda>v.
     if m < v then Inl (OutOfRange ''value exceeds the range of the DPT'') else Inr v)"

fun val_i32 :: "FloatLib \<Rightarrow> DptValue \<Rightarrow> DptError + i32" where
  "val_i32 fl (DvInt v) = Inr v"
| "val_i32 fl (DvUInt v) = (if 2147483647 < v then Inl (OutOfRange ''unsigned value exceeds i32::MAX'') else Inr v)"
| "val_i32 fl (DvBool v) = Inr (of_bool v)"
| "val_i32 fl (DvFloat v) = f64_to_i32 fl v"
| "val_i32 fl _ = Inl TypeMismatch"

definition val_i32_range :: "FloatLib \<Rightarrow> DptValue \<Rightarrow> int \<Rightarrow> int \<Rightarrow> DptError + i32" where
  "val_i32_range fl value lo hi = bind_res (val_i32 fl value) (\<lambda>v.
     if \<not> (lo \<le> sint v \<and> sint v \<le> hi) then Inl (OutOfRange ''value exceeds the range of the DPT'') else Inr v)"

definition val_f64 :: "DptValue \<Rightarrow> DptError + f64" where
  "val_f64 value = ok_or (as_f64 value) TypeMismatch"

fun val_i64 :: "FloatLib \<Rightarrow> DptValue \<Rightarrow> DptError + i64" where
  "val_i64 fl (DvInt64 v) = Inr v"
| "val_i64 fl (DvInt v) = Inr (scast v)"
| "val_i64 fl (DvUInt v) = Inr (ucast v)"
| "val_i64 fl (DvBool v) = Inr (of_bool v)"
| "val_i64 fl (DvFloat v) = f64_to_i64 fl v"
| "val_i64 fl _ = Inl TypeMismatch"

section \<open>The numeric groups\<close>

definition decode_dpt1 :: "u8 list \<Rightarrow> DptError + DptValue" where
  "decode_dpt1 payload = bind_res (check_len payload 1) (\<lambda>_. Inr (DvBool (payload ! 0 AND 0x01 \<noteq> 0)))"

definition encode_dpt1 :: "DptValue \<Rightarrow> DptError + u8 list" where
  "encode_dpt1 value = bind_res (val_bool value) (\<lambda>v. Inr [of_bool v])"

definition DPT2_MASK :: u8 where "DPT2_MASK = 0x03"
definition DPT3_MASK :: u8 where "DPT3_MASK = 0x0F"
definition DPT17_MASK :: u8 where "DPT17_MASK = 0x3F"
definition DPT23_MASK :: u8 where "DPT23_MASK = 0x03"
definition DPT26_MASK :: u8 where "DPT26_MASK = 0x7F"
definition DPT31_MASK :: u8 where "DPT31_MASK = 0x07"

definition decode_masked :: "u8 list \<Rightarrow> u8 \<Rightarrow> DptError + DptValue" where
  "decode_masked payload m = bind_res (check_len payload 1) (\<lambda>_. Inr (DvUInt (ucast (payload ! 0 AND m))))"

definition encode_masked :: "FloatLib \<Rightarrow> DptValue \<Rightarrow> u8 \<Rightarrow> DptError + u8 list" where
  "encode_masked fl value m = bind_res (val_u32_max fl value (ucast m)) (\<lambda>v. Inr [low_u8 v])"

definition decode_uint_be :: "u8 list \<Rightarrow> nat \<Rightarrow> DptError + DptValue" where
  "decode_uint_be payload len = bind_res (check_len payload len) (\<lambda>_.
     Inr (DvUInt (foldl (\<lambda>acc b. push_bit 8 acc OR ucast b) 0 (take len payload))))"

definition encode_uint_be :: "FloatLib \<Rightarrow> DptValue \<Rightarrow> nat \<Rightarrow> DptError + u8 list" where
  "encode_uint_be fl value len =
     (let m = (if 4 \<le> len then - 1 else push_bit (8 * len) 1 - 1)
      in bind_res (val_u32_max fl value m) (\<lambda>v. Inr (drop (4 - len) (to_be32 v))))"

definition decode_dpt4 :: "u8 list \<Rightarrow> DptError + DptValue" where
  "decode_dpt4 payload = bind_res (check_len payload 1) (\<lambda>_. Inr (DvUInt (ucast (payload ! 0))))"

definition encode_dpt4 :: "FloatLib \<Rightarrow> dpt \<Rightarrow> DptValue \<Rightarrow> DptError + u8 list" where
  "encode_dpt4 fl d value = (let m = (if dpt_sub d = 1 then 0x7F else 0xFF)
     in bind_res (val_u32_max fl value m) (\<lambda>v. Inr [low_u8 v]))"

definition decode_dpt5 :: "dpt \<Rightarrow> u8 list \<Rightarrow> DptError + DptValue" where
  "decode_dpt5 d payload = bind_res (check_len payload 1) (\<lambda>_.
     let raw = f64_of_int (uint (payload ! 0)) in Inr
       (if dpt_sub d = 1 then DvFloat (f64_div (f64_mult raw (f64_lit 100)) (f64_lit 255))
        else if dpt_sub d = 3 then DvFloat (f64_div (f64_mult raw (f64_lit 360)) (f64_lit 255))
        else DvUInt (ucast (payload ! 0))))"

definition encode_dpt5 :: "FloatLib \<Rightarrow> dpt \<Rightarrow> DptValue \<Rightarrow> DptError + u8 list" where
  "encode_dpt5 fl d value =
     (if dpt_sub d = 1 then bind_res (val_f64 value) (\<lambda>v.
        if \<not> f64_between 0 100 v then Inl (OutOfRange ''expected 0..=100 %'')
        else bind_res (f64_to_u8 fl (round fl (f64_div (f64_mult v (f64_lit 255)) (f64_lit 100)))) (\<lambda>x. Inr [x]))
      else if dpt_sub d = 3 then bind_res (val_f64 value) (\<lambda>v.
        if \<not> f64_between 0 360 v then Inl (OutOfRange ''expected 0..=360 degrees'')
        else bind_res (f64_to_u8 fl (round fl (f64_div (f64_mult v (f64_lit 255)) (f64_lit 360)))) (\<lambda>x. Inr [x]))
      else if dpt_sub d = 6 then bind_res (val_u32_max fl value 254) (\<lambda>v. Inr [low_u8 v])
      else bind_res (val_u32_max fl value 255) (\<lambda>v. Inr [low_u8 v]))"

definition DPT6_STATUS_MODE :: u16 where "DPT6_STATUS_MODE = 20"

definition decode_dpt6 :: "dpt \<Rightarrow> u8 list \<Rightarrow> DptError + DptValue" where
  "decode_dpt6 d payload = bind_res (check_len payload 1) (\<lambda>_.
     if dpt_sub d = DPT6_STATUS_MODE then Inr (DvUInt (ucast (payload ! 0))) else Inr (DvInt (scast (payload ! 0))))"

definition encode_dpt6 :: "FloatLib \<Rightarrow> dpt \<Rightarrow> DptValue \<Rightarrow> DptError + u8 list" where
  "encode_dpt6 fl d value =
     (if dpt_sub d = DPT6_STATUS_MODE then bind_res (val_u32_max fl value 0xFF) (\<lambda>v.
        if v AND 0x07 \<notin> {1, 2, 4} then Inl (OutOfRange ''6.020 mode (bits 2..0) must be 001, 010 or 100'')
        else Inr [low_u8 v])
      else bind_res (val_i32_range fl value (- 128) 127) (\<lambda>v. Inr [low_i8 v]))"

definition decode_dpt7 :: "u8 list \<Rightarrow> DptError + DptValue" where
  "decode_dpt7 payload = bind_res (check_len payload 2) (\<lambda>_. Inr (DvUInt (ucast (be16 (payload ! 0) (payload ! 1)))))"

definition encode_dpt7 :: "FloatLib \<Rightarrow> DptValue \<Rightarrow> DptError + u8 list" where
  "encode_dpt7 fl value = bind_res (val_u32_max fl value 65535) (\<lambda>v. Inr (to_be16 (low_u16 v)))"

definition decode_dpt8 :: "u8 list \<Rightarrow> DptError + DptValue" where
  "decode_dpt8 payload = bind_res (check_len payload 2) (\<lambda>_. Inr (DvInt (scast (be16 (payload ! 0) (payload ! 1)))))"

definition encode_dpt8 :: "FloatLib \<Rightarrow> DptValue \<Rightarrow> DptError + u8 list" where
  "encode_dpt8 fl value = bind_res (val_i32_range fl value (- 32768) 32767) (\<lambda>v. Inr (to_be16 (low_i16 v)))"

text \<open>The two-octet floating-point number: a sign, four bits of exponent and eleven of mantissa.\<close>

definition DPT9_INVALID :: u16 where "DPT9_INVALID = 0x7FFF"

definition decode_dpt9 :: "u8 list \<Rightarrow> DptError + DptValue" where
  "decode_dpt9 payload = bind_res (check_len payload 2) (\<lambda>_.
     let raw = be16 (payload ! 0) (payload ! 1) in
     if raw = DPT9_INVALID then Inr (DvFloat Nan)
     else let exponent = unat (drop_bit 11 raw AND 0x0F);
              m = uint (raw AND 0x07FF);
              mantissa = (if raw AND 0x8000 \<noteq> 0 then m - 0x0800 else m)
       in Inr (DvFloat (f64_mult (f64_mult (f64_lit (1 / 100)) (f64_of_int mantissa)) (f64_of_int (2 ^ exponent)))))"

fun dpt9_search :: "FloatLib \<Rightarrow> f64 \<Rightarrow> nat list \<Rightarrow> DptError + u8 list" where
  "dpt9_search fl hundredths [] = Inl (OutOfRange ''KNX F16 range is -671088.64 ..= 670433.28'')"
| "dpt9_search fl hundredths (exponent # rest) =
     (let mantissa = round fl (f64_div hundredths (f64_of_int (2 ^ exponent))) in
      if \<not> f64_between (- 2048) 2047 mantissa then dpt9_search fl hundredths rest
      else let m = f64_to_int (- 2147483648) 2147483647 mantissa in
        if exponent = 15 \<and> m = 2047 then Inl (OutOfRange ''KNX F16 range is -671088.64 ..= 670433.28'')
        else let sign = (if m < 0 then 0x8000 else 0);
                 raw = (sign OR push_bit 11 (of_nat exponent)) OR word_of_int (take_bit 11 m)
          in Inr (to_be16 raw))"

definition encode_dpt9 :: "FloatLib \<Rightarrow> DptValue \<Rightarrow> DptError + u8 list" where
  "encode_dpt9 fl value = bind_res (val_f64 value) (\<lambda>v.
     if is_nan v then Inr (to_be16 DPT9_INVALID)
     else if \<not> is_finite v then Inl (OutOfRange ''KNX F16 needs a finite value'')
     else dpt9_search fl (f64_mult v (f64_lit 100)) [0 ..< 16])"

definition decode_dpt10 :: "u8 list \<Rightarrow> DptError + DptValue" where
  "decode_dpt10 payload = bind_res (check_len payload 3) (\<lambda>_. Inr (DvBytes (take 3 payload)))"

definition encode_dpt10 :: "DptValue \<Rightarrow> DptError + u8 list" where
  "encode_dpt10 value = (case value of
     DvBytes b \<Rightarrow> if length b = 3 then Inr b else Inl TypeMismatch
   | DvUInt secs \<Rightarrow>
       if 86399 < secs then Inl (OutOfRange ''expected 0..=86399 seconds'')
       else let hours = low_u8 (secs div 3600); minutes = low_u8 ((secs mod 3600) div 60); seconds = low_u8 (secs mod 60)
         in Inr [hours AND 0x1F, minutes AND 0x3F, seconds AND 0x3F]
   | _ \<Rightarrow> Inl TypeMismatch)"

definition decode_dpt12 :: "u8 list \<Rightarrow> DptError + DptValue" where
  "decode_dpt12 payload = bind_res (check_len payload 4) (\<lambda>_.
     Inr (DvUInt (be32 (payload ! 0) (payload ! 1) (payload ! 2) (payload ! 3))))"

definition encode_dpt12 :: "FloatLib \<Rightarrow> DptValue \<Rightarrow> DptError + u8 list" where
  "encode_dpt12 fl value = bind_res (val_u32 fl value) (\<lambda>v. Inr (to_be32 v))"

definition decode_dpt13 :: "u8 list \<Rightarrow> DptError + DptValue" where
  "decode_dpt13 payload = bind_res (check_len payload 4) (\<lambda>_.
     Inr (DvInt (be32 (payload ! 0) (payload ! 1) (payload ! 2) (payload ! 3))))"

definition encode_dpt13 :: "FloatLib \<Rightarrow> DptValue \<Rightarrow> DptError + u8 list" where
  "encode_dpt13 fl value = bind_res (val_i32 fl value) (\<lambda>v. Inr (to_be32 v))"

definition decode_dpt14 :: "u8 list \<Rightarrow> DptError + DptValue" where
  "decode_dpt14 payload = bind_res (check_len payload 4) (\<lambda>_.
     Inr (DvFloat (f32_from_bits (be32 (payload ! 0) (payload ! 1) (payload ! 2) (payload ! 3)))))"

definition encode_dpt14 :: "FloatLib \<Rightarrow> DptValue \<Rightarrow> DptError + u8 list" where
  "encode_dpt14 fl value = bind_res (val_f64 value) (\<lambda>v.
     let f = f64_to_f32 v in
     if is_finite v \<and> \<not> is_finite f then Inl (OutOfRange ''value exceeds the f32 range'')
     else Inr (to_be32 (f32_to_bits (nan_bits fl) f)))"

definition bcd_digits_valid :: "u8 list \<Rightarrow> bool" where
  "bcd_digits_valid octets = list_all (\<lambda>b. drop_bit 4 b \<le> 9 \<and> (b AND 0x0F) \<le> 9) octets"

definition decode_dpt15 :: "u8 list \<Rightarrow> DptError + DptValue" where
  "decode_dpt15 payload = bind_res (check_len payload 4) (\<lambda>_.
     if \<not> bcd_digits_valid (take 3 payload) then Inl (OutOfRange ''DPT 15 digit above 9'') else Inr (DvBytes (take 4 payload)))"

definition dpt15_digit :: "nat \<Rightarrow> u32 \<times> u8 list \<Rightarrow> u32 \<times> u8 list" where
  "dpt15_digit i = (\<lambda>(v, buf). let digit = low_u8 (v mod 10); v = v div 10
     in (v, buf[i div 2 := buf ! (i div 2) OR (if i mod 2 = 0 then push_bit 4 digit else digit)]))"

definition encode_dpt15 :: "FloatLib \<Rightarrow> DptValue \<Rightarrow> DptError + u8 list" where
  "encode_dpt15 fl value = (case value of
     DvBytes b \<Rightarrow>
       if length b = 4 then (if \<not> bcd_digits_valid (take 3 b) then Inl (OutOfRange ''DPT 15 digit above 9'') else Inr b)
       else Inl (OutOfRange ''DPT 15 has four octets'')
   | _ \<Rightarrow> bind_res (val_u32_max fl value 999999) (\<lambda>v. Inr (snd (fold dpt15_digit (rev [0 ..< 6]) (v, replicate 4 0)))))"

definition decode_dpt18 :: "u8 list \<Rightarrow> DptError + DptValue" where
  "decode_dpt18 payload = bind_res (check_len payload 1) (\<lambda>_. Inr (DvUInt (ucast (payload ! 0))))"

definition encode_dpt18 :: "FloatLib \<Rightarrow> DptValue \<Rightarrow> DptError + u8 list" where
  "encode_dpt18 fl value = bind_res (val_u32_max fl value 0xFF) (\<lambda>v.
     if v AND 0x40 \<noteq> 0 then Inl (OutOfRange ''DPT 18 bit 6 is reserved (0)'') else Inr [low_u8 v])"

definition decode_dpt27 :: "u8 list \<Rightarrow> DptError + DptValue" where
  "decode_dpt27 payload = bind_res (check_len payload 4) (\<lambda>_.
     Inr (DvUInt (be32 (payload ! 0) (payload ! 1) (payload ! 2) (payload ! 3))))"

definition encode_dpt27 :: "FloatLib \<Rightarrow> DptValue \<Rightarrow> DptError + u8 list" where
  "encode_dpt27 fl value = bind_res (val_u32 fl value) (\<lambda>v. Inr (to_be32 v))"

definition be64 :: "u8 list \<Rightarrow> u64" where
  "be64 p = push_bit 32 (ucast (be32 (p ! 0) (p ! 1) (p ! 2) (p ! 3))) OR ucast (be32 (p ! 4) (p ! 5) (p ! 6) (p ! 7))"

definition to_be64 :: "u64 \<Rightarrow> u8 list" where
  "to_be64 w = to_be32 (ucast (drop_bit 32 w)) @ to_be32 (ucast w)"

definition decode_dpt29 :: "u8 list \<Rightarrow> DptError + DptValue" where
  "decode_dpt29 payload = bind_res (check_len payload 8) (\<lambda>_. Inr (DvInt64 (be64 payload)))"

definition encode_dpt29 :: "FloatLib \<Rightarrow> DptValue \<Rightarrow> DptError + u8 list" where
  "encode_dpt29 fl value = bind_res (val_i64 fl value) (\<lambda>v. Inr (to_be64 v))"

definition decode_dpt232 :: "u8 list \<Rightarrow> DptError + DptValue" where
  "decode_dpt232 payload = bind_res (check_len payload 3) (\<lambda>_.
     Inr (DvUInt ((push_bit 16 (ucast (payload ! 0)) OR push_bit 8 (ucast (payload ! 1))) OR ucast (payload ! 2))))"

definition encode_dpt232 :: "FloatLib \<Rightarrow> DptValue \<Rightarrow> DptError + u8 list" where
  "encode_dpt232 fl value = bind_res (val_u32_max fl value 0x00FFFFFF) (\<lambda>rgb.
     Inr [low_u8 (drop_bit 16 rgb AND 0xFF), low_u8 (drop_bit 8 rgb AND 0xFF), low_u8 (rgb AND 0xFF)])"

definition numeric_decode :: "dpt \<Rightarrow> u8 list \<Rightarrow> DptError + DptValue" where
  "numeric_decode d payload = (let m = dpt_main d in
     if m = 1 then decode_dpt1 payload
     else if m = 2 then decode_masked payload DPT2_MASK
     else if m = 3 then decode_masked payload DPT3_MASK
     else if m = 4 then decode_dpt4 payload
     else if m = 5 then decode_dpt5 d payload
     else if m = 6 then decode_dpt6 d payload
     else if m = 7 then decode_dpt7 payload
     else if m = 8 then decode_dpt8 payload
     else if m = 9 then decode_dpt9 payload
     else if m = 10 then decode_dpt10 payload
     else if m = 12 then decode_dpt12 payload
     else if m = 13 then decode_dpt13 payload
     else if m = 14 then decode_dpt14 payload
     else if m = 15 then decode_dpt15 payload
     else if m = 17 then decode_masked payload DPT17_MASK
     else if m = 18 then decode_dpt18 payload
     else if m = 26 then decode_masked payload DPT26_MASK
     else if m = 27 then decode_dpt27 payload
     else if m = 29 then decode_dpt29 payload
     else if m = 232 then decode_dpt232 payload
     else if m \<in> set [20, 21, 25, 236, 238] then decode_masked payload 0xFF
     else if m = 22 then decode_uint_be payload 2
     else if m = 30 then decode_uint_be payload 3
     else if m = 23 then decode_masked payload DPT23_MASK
     else if m = 31 then decode_masked payload DPT31_MASK
     else Inl (UnsupportedDpt d))"

definition numeric_encode :: "FloatLib \<Rightarrow> dpt \<Rightarrow> DptValue \<Rightarrow> DptError + u8 list" where
  "numeric_encode fl d value = (let m = dpt_main d in
     if m = 1 then encode_dpt1 value
     else if m = 2 then encode_masked fl value DPT2_MASK
     else if m = 3 then encode_masked fl value DPT3_MASK
     else if m = 4 then encode_dpt4 fl d value
     else if m = 5 then encode_dpt5 fl d value
     else if m = 6 then encode_dpt6 fl d value
     else if m = 7 then encode_dpt7 fl value
     else if m = 8 then encode_dpt8 fl value
     else if m = 9 then encode_dpt9 fl value
     else if m = 10 then encode_dpt10 value
     else if m = 12 then encode_dpt12 fl value
     else if m = 13 then encode_dpt13 fl value
     else if m = 14 then encode_dpt14 fl value
     else if m = 15 then encode_dpt15 fl value
     else if m = 17 then encode_masked fl value DPT17_MASK
     else if m = 18 then encode_dpt18 fl value
     else if m = 26 then encode_masked fl value DPT26_MASK
     else if m = 27 then encode_dpt27 fl value
     else if m = 29 then encode_dpt29 fl value
     else if m = 232 then encode_dpt232 fl value
     else if m \<in> set [20, 21, 25, 236, 238] then encode_masked fl value 0xFF
     else if m = 22 then encode_uint_be fl value 2
     else if m = 30 then encode_uint_be fl value 3
     else if m = 23 then encode_masked fl value DPT23_MASK
     else if m = 31 then encode_masked fl value DPT31_MASK
     else Inl (UnsupportedDpt d))"

section \<open>The multi-field groups\<close>

definition compound_len :: "u16 \<Rightarrow> nat option" where
  "compound_len m =
     (if m \<in> set [200, 201, 202, 204, 207, 211, 217, 234, 237, 239, 244, 246] then Some 2
      else if m \<in> set [11, 203, 205, 206, 209, 223, 225, 240, 250, 254] then Some 3
      else if m \<in> set [210, 214, 220, 231, 241, 253, 276] then Some 4
      else if m \<in> set [215, 216, 218, 248, 252] then Some 5
      else if m \<in> set [212, 219, 221, 222, 224, 229, 235, 242, 245, 249, 251, 274] then Some 6
      else if m \<in> set [271, 272] then Some 7
      else if m \<in> set [19, 213, 230, 243, 255, 273, 275, 288] then Some 8
      else if m \<in> set [265, 268] then Some 9
      else if m \<in> set [247, 257, 266] then Some 12
      else if m = 269 then Some 14
      else if m \<in> set [256, 285] then Some 16
      else if m = 270 then Some 20
      else if m = 277 then Some 36
      else if m = 278 then Some 42
      else if m = 281 then Some 44
      else if m = 279 then Some 48
      else if m = 282 then Some 50
      else if m = 283 then Some 56
      else if m = 280 then Some 78
      else if m = 284 then Some 86
      else None)"

definition DPT267 :: u16 where "DPT267 = 267"
definition DPT267_HEADER :: nat where "DPT267_HEADER = 8"

definition compound_handles :: "u16 \<Rightarrow> bool" where
  "compound_handles m \<longleftrightarrow> compound_len m \<noteq> None \<or> m = DPT267"

definition compound_decode :: "dpt \<Rightarrow> u8 list \<Rightarrow> DptError + DptValue" where
  "compound_decode d payload =
     (if dpt_main d = DPT267
      then (if length payload \<le> DPT267_HEADER then Inl PayloadTooShort else Inr (DvBytes payload))
      else bind_res (ok_or (compound_len (dpt_main d)) (UnsupportedDpt d)) (\<lambda>n.
        if length payload < n then Inl PayloadTooShort else Inr (DvBytes (take n payload))))"

definition compound_encode :: "dpt \<Rightarrow> DptValue \<Rightarrow> DptError + u8 list" where
  "compound_encode d value = (case value of
     DvBytes bytes \<Rightarrow>
       if dpt_main d = DPT267
       then (if length bytes \<le> DPT267_HEADER then Inl (OutOfRange ''DPT 267 needs a date and time and a terminated string'')
             else if last bytes \<noteq> 0 then Inl (OutOfRange ''DPT 267 string must end with a NUL octet'')
             else Inr bytes)
       else bind_res (ok_or (compound_len (dpt_main d)) (UnsupportedDpt d)) (\<lambda>n.
         if length bytes \<noteq> n then Inl (OutOfRange ''value must have exactly the octets of the DPT'') else Inr bytes)
   | _ \<Rightarrow> Inl TypeMismatch)"

section \<open>Texts\<close>

definition decode_dpt16 :: "dpt \<Rightarrow> u8 list \<Rightarrow> DptError + u32 list" where
  "decode_dpt16 d payload =
     (if length payload < 14 then Inl PayloadTooShort
      else let used = takeWhile (\<lambda>b. b \<noteq> 0) (take 14 payload) in
        if dpt_sub d = 0 \<and> list_ex (\<lambda>b. 0x7F < b) used then Inl (OutOfRange ''DPT 16.000 is ASCII (0..=127)'')
        else Inr (map ucast used))"

definition encode_dpt16 :: "dpt \<Rightarrow> u32 list \<Rightarrow> u8 list" where
  "encode_dpt16 d value =
     (let limit = (if dpt_sub d = 0 then 0x7F else 0xFF);
          chars = take 14 (takeWhile (\<lambda>c. c \<noteq> 0) value)
      in map (\<lambda>ch. if ch \<le> limit then ucast ch else 0x3F) chars @ replicate (14 - length chars) 0)"

definition decode_dpt24 :: "u8 list \<Rightarrow> u32 list" where
  "decode_dpt24 payload = map ucast (takeWhile (\<lambda>b. b \<noteq> 0) payload)"

fun encode_dpt24_chars :: "u32 list \<Rightarrow> DptError + u8 list" where
  "encode_dpt24_chars [] = Inr []"
| "encode_dpt24_chars (ch # rest) =
     (if ch = 0 then Inl (OutOfRange ''DPT 24 text contains a NUL'')
      else if 0xFF < ch then Inl (OutOfRange ''DPT 24 is ISO 8859-1; character above U+00FF'')
      else bind_res (encode_dpt24_chars rest) (\<lambda>buf. Inr (ucast ch # buf)))"

definition encode_dpt24 :: "u32 list \<Rightarrow> DptError + u8 list" where
  "encode_dpt24 value = bind_res (encode_dpt24_chars value) (\<lambda>buf. Inr (buf @ [0]))"

definition decode_dpt28 :: "u8 list \<Rightarrow> DptError + u32 list" where
  "decode_dpt28 payload =
     (if payload = [] then Inr []
      else ok_or (utf8_decode (takeWhile (\<lambda>b. b \<noteq> 0) payload)) (OutOfRange ''invalid UTF-8 in DPT 28 payload''))"

definition encode_dpt28 :: "u32 list \<Rightarrow> DptError + u8 list" where
  "encode_dpt28 value =
     (if 0 \<in> set value then Inl (OutOfRange ''DPT 28 text contains a NUL'') else Inr (utf8_encode value @ [0]))"

definition string_decode :: "dpt \<Rightarrow> u8 list \<Rightarrow> DptError + DptValue" where
  "string_decode d payload =
     (if dpt_main d = 16 then map_sum id DvText (decode_dpt16 d payload)
      else if dpt_main d = 24 then Inr (DvText (decode_dpt24 payload))
      else if dpt_main d = 28 then map_sum id DvText (decode_dpt28 payload)
      else Inl TypeMismatch)"

definition string_encode :: "dpt \<Rightarrow> DptValue \<Rightarrow> DptError + u8 list" where
  "string_encode d value = bind_res (ok_or (as_str value) TypeMismatch) (\<lambda>s.
     if dpt_main d = 16 then Inr (encode_dpt16 d s)
     else if dpt_main d = 24 then encode_dpt24 s
     else if dpt_main d = 28 then encode_dpt28 s
     else Inl TypeMismatch)"

section \<open>The codec\<close>

definition dpt_decode :: "dpt \<Rightarrow> u8 list \<Rightarrow> DptError + DptValue" where
  "dpt_decode d payload =
     (if dpt_main d \<in> set [16, 24, 28] then string_decode d payload
      else if compound_handles (dpt_main d) then compound_decode d payload
      else numeric_decode d payload)"

definition dpt_encode :: "FloatLib \<Rightarrow> dpt \<Rightarrow> DptValue \<Rightarrow> DptError + u8 list" where
  "dpt_encode fl d value =
     (if dpt_main d \<in> set [16, 24, 28] then string_encode d value
      else if compound_handles (dpt_main d) then compound_encode d value
      else numeric_encode fl d value)"

end
