(* ===== verification/Ip_Client.thy ===== *)
theory Ip_Client
  imports Ip_Net Dpt_Value
begin

text \<open>
  The KNXnet/IP tunnel client (\<^verbatim>\<open>knx-rs-ip/src/tunnel.rs\<close>): the connect handshake, sending with
  acknowledgement and repetition, heartbeats, incoming frames and reconnection. The socket is
  connected to one peer; what it receives while the client waits is a list of arrivals, whose end
  is the deadline of the wait. The frames handed to the application are a list, too.
\<close>

datatype KnxIpError =
    IpIo string | IpFrame KnxIpParseError | IpCemi CemiError | IpDpt DptError | IpMulticast string string | InvalidConfig string
  | IpTimeout string | ConnectionRejected u8 | IpProtocol string | IpClosed | InvalidUrl string

type_synonym Arrival = "string + u8 list"

definition CONNECT_TIMEOUT_MS :: nat where "CONNECT_TIMEOUT_MS = 10 * 1000"
definition HEARTBEAT_INTERVAL_MS :: nat where "HEARTBEAT_INTERVAL_MS = 60 * 1000"
definition CLIENT_RETRIES :: nat where "CLIENT_RETRIES = 3"
definition MAX_HEARTBEAT_FAILURES :: u8 where "MAX_HEARTBEAT_FAILURES = 3"
definition RECONNECT_DELAY_INITIAL_MS :: nat where "RECONNECT_DELAY_INITIAL_MS = 1 * 1000"
definition RECONNECT_DELAY_MAX_MS :: nat where "RECONNECT_DELAY_MAX_MS = 60 * 1000"

record TunnelConfig =
  cfg_remote :: SocketAddr
  auto_reconnect :: bool

definition tunnel_config_new :: "SocketAddr \<Rightarrow> TunnelConfig" where
  "tunnel_config_new remote = \<lparr>cfg_remote = remote, auto_reconnect = False\<rparr>"

definition with_auto_reconnect :: "TunnelConfig \<Rightarrow> TunnelConfig" where
  "with_auto_reconnect c = c\<lparr>auto_reconnect := True\<rparr>"

record TunnelState =
  cs_channel_id :: u8
  cs_local_addr :: SocketAddr
  cs_send_seq :: u8
  cs_recv_seq :: u8
  cs_heartbeat_failures :: u8

text \<open>What the client did to its surroundings: the datagrams sent and the frames delivered.\<close>

record ClientIo =
  io_sent :: "u8 list list"
  io_delivered :: "CemiFrame list"

text \<open>The error of the n-th send, if it fails, and whether the application still receives.\<close>

record ClientEnv =
  ce_send_error :: "nat \<Rightarrow> string option"
  ce_receiving :: bool

definition client_send :: "ClientEnv \<Rightarrow> u8 list \<Rightarrow> ClientIo \<Rightarrow> (KnxIpError + unit) \<times> ClientIo" where
  "client_send env bytes io =
     (case ce_send_error env (length (io_sent io)) of None \<Rightarrow> Inr () | Some e \<Rightarrow> Inl (IpIo e),
      io\<lparr>io_sent := io_sent io @ [bytes]\<rparr>)"

definition client_serialize :: "KnxIpFrame \<Rightarrow> KnxIpError + u8 list" where
  "client_serialize frame = map_sum IpFrame id (knxip_try_to_bytes frame)"

definition client_deliver :: "ClientEnv \<Rightarrow> CemiFrame \<Rightarrow> ClientIo \<Rightarrow> ClientIo" where
  "client_deliver env cemi io = (if ce_receiving env then io\<lparr>io_delivered := io_delivered io @ [cemi]\<rparr> else io)"

section \<open>Connecting\<close>

text \<open>The client takes the first datagram that arrives for the answer.\<close>

definition do_connect :: "ClientEnv \<Rightarrow> SocketAddr \<Rightarrow> Arrival list \<Rightarrow> ClientIo \<Rightarrow> (KnxIpError + u8) \<times> ClientIo" where
  "do_connect env local_addr arrivals io =
     (let h = build_hpai local_addr; frame = connect_request h h tunnel_cri in
      case client_serialize frame of Inl e \<Rightarrow> (Inl e, io)
      | Inr bytes \<Rightarrow>
        (case client_send env bytes io of (Inl e, io) \<Rightarrow> (Inl e, io)
         | (Inr _, io) \<Rightarrow>
           (case arrivals of
              [] \<Rightarrow> (Inl (IpTimeout ''connect response''), io)
            | Inl e # _ \<Rightarrow> (Inl (IpIo e), io)
            | Inr data # _ \<Rightarrow>
              (case knxip_parse data of Inl e \<Rightarrow> (Inl (IpFrame e), io)
               | Inr resp \<Rightarrow>
                   if service_type resp \<noteq> ConnectResponse then (Inl (IpProtocol ''expected ConnectResponse''), io)
                   else if length (body resp) < 2 then (Inl (IpProtocol ''connect response too short''), io)
                   else let ch = body resp ! 0; st = body resp ! 1 in
                     if st \<noteq> E_NO_ERROR then (Inl (ConnectionRejected st), io) else (Inr ch, io)))))"

definition tunnel_state_new :: "u8 \<Rightarrow> SocketAddr \<Rightarrow> TunnelState" where
  "tunnel_state_new ch local_addr =
     \<lparr>cs_channel_id = ch, cs_local_addr = local_addr, cs_send_seq = 0, cs_recv_seq = 0, cs_heartbeat_failures = 0\<rparr>"

section \<open>Incoming frames\<close>

definition client_tunneling_request :: "ClientEnv \<Rightarrow> KnxIpFrame \<Rightarrow> TunnelState \<times> ClientIo \<Rightarrow> TunnelState \<times> ClientIo" where
  "client_tunneling_request env frame = (\<lambda>(st, io).
     case connection_header_parse (body frame) of None \<Rightarrow> (st, io)
     | Some ch \<Rightarrow>
       if channel_id ch \<noteq> cs_channel_id st then (st, io)
       else let ack = tunneling_ack (cs_channel_id st) (sequence_counter ch) E_NO_ERROR;
                io = (case client_serialize ack of Inr bytes \<Rightarrow> snd (client_send env bytes io) | Inl _ \<Rightarrow> io)
         in if sequence_counter ch \<noteq> cs_recv_seq st then (st, io)
            else let st = st\<lparr>cs_recv_seq := cs_recv_seq st + 1\<rparr> in
              case cemi_parse (drop (unat CONNECTION_HEADER_LEN) (body frame)) of
                Inr cemi \<Rightarrow> (st, client_deliver env cemi io)
              | Inl _ \<Rightarrow> (st, io))"

definition handle_incoming :: "ClientEnv \<Rightarrow> u8 list \<Rightarrow> TunnelState \<times> ClientIo \<Rightarrow> bool \<times> TunnelState \<times> ClientIo" where
  "handle_incoming env data = (\<lambda>(st, io).
     case knxip_parse data of Inl _ \<Rightarrow> (True, st, io)
     | Inr frame \<Rightarrow>
       (case service_type frame of
          TunnelingRequest \<Rightarrow> (True, client_tunneling_request env frame (st, io))
        | DisconnectRequest \<Rightarrow>
            let resp = \<lparr>service_type = DisconnectResponse, body = [cs_channel_id st, E_NO_ERROR]\<rparr>;
                io = (case client_serialize resp of Inr bytes \<Rightarrow> snd (client_send env bytes io) | Inl _ \<Rightarrow> io)
            in (False, st, io)
        | _ \<Rightarrow> (True, st, io)))"

section \<open>Sending\<close>

text \<open>
  \<open>wait_for_ack\<close>: our acknowledgement ends the wait; a request of the server is served at once; any
  other frame is kept for later. The arrivals that are left stay in the socket.
\<close>

definition ack_for :: "TunnelState \<Rightarrow> KnxIpFrame \<Rightarrow> u8 option" where
  "ack_for st resp =
     (if service_type resp = TunnelingAck then
        (case connection_header_parse (body resp) of
           Some ch \<Rightarrow> if channel_id ch = cs_channel_id st \<and> sequence_counter ch = cs_send_seq st then Some (ch_status ch) else None
         | None \<Rightarrow> None)
      else None)"

fun wait_for_ack :: "ClientEnv \<Rightarrow> Arrival list \<Rightarrow> u8 list list \<Rightarrow> TunnelState \<times> ClientIo \<Rightarrow>
    (KnxIpError + u8 list list) \<times> Arrival list \<times> TunnelState \<times> ClientIo" where
  "wait_for_ack env [] buffered s = (Inl (IpTimeout ''tunneling ack''), [], s)"
| "wait_for_ack env (Inl e # rest) buffered s = (Inl (IpIo e), rest, s)"
| "wait_for_ack env (Inr data # rest) buffered s =
     (case knxip_parse data of
        Inl _ \<Rightarrow> wait_for_ack env rest buffered s
      | Inr resp \<Rightarrow>
        (case ack_for (fst s) resp of
           Some st \<Rightarrow> if st \<noteq> E_NO_ERROR then (Inl (IpProtocol ''tunneling ack error''), rest, s) else (Inr buffered, rest, s)
         | None \<Rightarrow>
             if service_type resp = TunnelingRequest then wait_for_ack env rest buffered (client_tunneling_request env resp s)
             else wait_for_ack env rest (buffered @ [data]) s))"

text \<open>The frames kept are handled after the acknowledgement; a disconnect among them ends the connection.\<close>

fun handle_buffered :: "ClientEnv \<Rightarrow> u8 list list \<Rightarrow> TunnelState \<times> ClientIo \<Rightarrow> (KnxIpError + unit) \<times> TunnelState \<times> ClientIo" where
  "handle_buffered env [] s = (Inr (), s)"
| "handle_buffered env (data # rest) s =
     (case handle_incoming env data s of
        (True, s) \<Rightarrow> handle_buffered env rest s
      | (False, s) \<Rightarrow> (Inl IpClosed, s))"

text \<open>One round of waiting per attempt. What is left of the last round stays in the socket.\<close>

fun send_attempts :: "ClientEnv \<Rightarrow> u8 list \<Rightarrow> Arrival list list \<Rightarrow> nat \<Rightarrow> TunnelState \<times> ClientIo \<Rightarrow>
    (KnxIpError + unit) \<times> Arrival list \<times> TunnelState \<times> ClientIo" where
  "send_attempts env frame_bytes rounds 0 s = (Inl (IpTimeout ''tunneling ack after max retries''), [], s)"
| "send_attempts env frame_bytes rounds (Suc n) (st, io) =
     (case client_send env frame_bytes io of (Inl e, io) \<Rightarrow> (Inl e, [], st, io)
      | (Inr _, io) \<Rightarrow>
        (case wait_for_ack env (case rounds of [] \<Rightarrow> [] | r # _ \<Rightarrow> r) [] (st, io) of
           (Inr buffered, left, st, io) \<Rightarrow>
             (case handle_buffered env buffered (st\<lparr>cs_send_seq := cs_send_seq st + 1\<rparr>, io) of (r, s) \<Rightarrow> (r, left, s))
         | (Inl (IpTimeout _), _, s) \<Rightarrow> send_attempts env frame_bytes (tl rounds) n s
         | (Inl e, left, s) \<Rightarrow> (Inl e, left, s)))"

definition send_with_retry :: "ClientEnv \<Rightarrow> CemiFrame \<Rightarrow> Arrival list list \<Rightarrow> TunnelState \<times> ClientIo \<Rightarrow>
    (KnxIpError + unit) \<times> Arrival list \<times> TunnelState \<times> ClientIo" where
  "send_with_retry env cemi rounds = (\<lambda>(st, io).
     case client_serialize (tunneling_request (cs_channel_id st) (cs_send_seq st) (as_bytes cemi)) of
       Inl e \<Rightarrow> (Inl e, [], st, io)
     | Inr frame_bytes \<Rightarrow> send_attempts env frame_bytes rounds CLIENT_RETRIES (st, io))"

section \<open>Heartbeats and the end\<close>

fun wait_for_heartbeat :: "ClientEnv \<Rightarrow> Arrival list \<Rightarrow> TunnelState \<times> ClientIo \<Rightarrow> (KnxIpError + unit) \<times> TunnelState \<times> ClientIo" where
  "wait_for_heartbeat env [] s = (Inl (IpTimeout ''heartbeat response''), s)"
| "wait_for_heartbeat env (Inl e # rest) s = (Inl (IpIo e), s)"
| "wait_for_heartbeat env (Inr data # rest) s =
     (case knxip_parse data of
        Inl _ \<Rightarrow> wait_for_heartbeat env rest s
      | Inr resp \<Rightarrow>
        if service_type resp = ConnectionStateResponse \<and> 2 \<le> length (body resp) \<and> body resp ! 0 = cs_channel_id (fst s)
        then (if body resp ! 1 \<noteq> E_NO_ERROR then (Inl (IpProtocol ''heartbeat rejected''), s) else (Inr (), s))
        else (case handle_incoming env data s of
            (True, s) \<Rightarrow> wait_for_heartbeat env rest s
          | (False, s) \<Rightarrow> (Inl IpClosed, s)))"

definition send_heartbeat :: "ClientEnv \<Rightarrow> Arrival list \<Rightarrow> TunnelState \<times> ClientIo \<Rightarrow> (KnxIpError + unit) \<times> TunnelState \<times> ClientIo" where
  "send_heartbeat env arrivals = (\<lambda>(st, io).
     case client_serialize (connection_state_request (cs_channel_id st) (build_hpai (cs_local_addr st))) of
       Inl e \<Rightarrow> (Inl e, st, io)
     | Inr bytes \<Rightarrow>
       (case client_send env bytes io of (Inl e, io) \<Rightarrow> (Inl e, st, io)
        | (Inr _, io) \<Rightarrow> wait_for_heartbeat env arrivals (st, io)))"

definition send_disconnect :: "ClientEnv \<Rightarrow> TunnelState \<times> ClientIo \<Rightarrow> (KnxIpError + unit) \<times> TunnelState \<times> ClientIo" where
  "send_disconnect env = (\<lambda>(st, io).
     case client_serialize (ip_disconnect_request (cs_channel_id st) (build_hpai (cs_local_addr st))) of
       Inl e \<Rightarrow> (Inl e, st, io)
     | Inr bytes \<Rightarrow> (let (r, io) = client_send env bytes io in (r, st, io)))"

section \<open>The background task\<close>

text \<open>
  \<open>try_reconnect\<close>: in each round either the delay passes or a command arrives, which ends the delay. A
  command to close ends the attempts, a frame to send is answered with an error, and then the
  connection is tried again. The result tells whether there is a connection, and the delay set
  for each round; no result means that the rounds given have not settled it.
\<close>

datatype Pause = DelayPassed | SendRefused | CloseRequested

definition next_delay :: "nat \<Rightarrow> nat" where
  "next_delay delay = min (delay * 2) RECONNECT_DELAY_MAX_MS"

fun reconnect_loop :: "nat \<Rightarrow> (Pause \<times> (KnxIpError + u8 \<times> SocketAddr)) list \<Rightarrow> TunnelState \<Rightarrow> (bool \<times> TunnelState \<times> nat list) option" where
  "reconnect_loop delay [] st = None"
| "reconnect_loop delay ((pause, outcome) # rest) st =
     (if pause = CloseRequested then Some (False, st, [])
      else case outcome of
        Inr (ch, local_addr) \<Rightarrow> Some (True, tunnel_state_new ch local_addr, [delay])
      | Inl e \<Rightarrow> map_option (\<lambda>(ok, st, delays). (ok, st, delay # delays)) (reconnect_loop (next_delay delay) rest st))"

definition try_reconnect :: "TunnelConfig \<Rightarrow> (Pause \<times> (KnxIpError + u8 \<times> SocketAddr)) list \<Rightarrow> TunnelState \<Rightarrow>
    (bool \<times> TunnelState \<times> nat list) option" where
  "try_reconnect config outcomes st =
     (if \<not> auto_reconnect config then Some (False, st, []) else reconnect_loop RECONNECT_DELAY_INITIAL_MS outcomes st)"

text \<open>
  One round of \<open>tunnel_task\<close>. \<open>Reconnecting\<close> stands for the call of \<open>try_reconnect\<close>: its outcome decides
  whether the task goes on.
\<close>

datatype ClientInput = Received "u8 list" | RecvError string | CmdSend CemiFrame "Arrival list list" | CmdClose
  | HeartbeatTick "Arrival list"

datatype TaskNext = Continue | Reconnecting | Ended

fun task_step :: "ClientEnv \<Rightarrow> TunnelConfig \<Rightarrow> ClientInput \<Rightarrow> TunnelState \<times> ClientIo \<Rightarrow> TaskNext \<times> TunnelState \<times> ClientIo" where
  "task_step env config (RecvError e) s = (Reconnecting, s)"
| "task_step env config (Received data) s =
     (case handle_incoming env data s of (True, s) \<Rightarrow> (Continue, s) | (False, s) \<Rightarrow> (Reconnecting, s))"
| "task_step env config (CmdSend frame rounds) s =
     (case send_with_retry env frame rounds s of
        (Inl e, left, s) \<Rightarrow> (if auto_reconnect config then Reconnecting else Continue, s)
      | (Inr _, left, s) \<Rightarrow> (Continue, s))"
| "task_step env config CmdClose s = (case send_disconnect env s of (_, s) \<Rightarrow> (Ended, s))"
| "task_step env config (HeartbeatTick arrivals) s =
     (case send_heartbeat env arrivals s of
        (Inl e, st, io) \<Rightarrow>
          let st = st\<lparr>cs_heartbeat_failures := cs_heartbeat_failures st + 1\<rparr>
          in (if MAX_HEARTBEAT_FAILURES \<le> cs_heartbeat_failures st then Reconnecting else Continue, st, io)
      | (Inr _, st, io) \<Rightarrow> (Continue, st\<lparr>cs_heartbeat_failures := 0\<rparr>, io))"

end
