(* ===== verification/Ip_Router.thy ===== *)
theory Ip_Router
  imports Ip_Client
begin

text \<open>
  The KNXnet/IP router connection (\<^verbatim>\<open>knx-rs-ip/src/router.rs\<close>): the sliding-window rate limiter, the
  handling of datagrams from the multicast group and the loop of the task. Instants are integers
  in milliseconds from any origin. Shown: over any run, fifty-one consecutive transmissions
  take more than a second, nothing is sent in a pause, and a sender that waits is let through.
\<close>

definition MAX_PACKETS_PER_SEC :: nat where "MAX_PACKETS_PER_SEC = 50"
definition DEFAULT_ROUTING_BUSY_WAIT_MS :: u16 where "DEFAULT_ROUTING_BUSY_WAIT_MS = 50"

section \<open>The rate limiter\<close>

record RateLimiter =
  rl_timestamps :: "int list"
  rl_max_per_sec :: nat
  rl_paused_until :: "int option"

definition rate_limiter_new :: "nat \<Rightarrow> RateLimiter" where
  "rate_limiter_new max_per_sec = \<lparr>rl_timestamps = [], rl_max_per_sec = max_per_sec, rl_paused_until = None\<rparr>"

text \<open>No wait means that a transmission is allowed, and recorded.\<close>

definition limiter_window :: "int \<Rightarrow> RateLimiter \<Rightarrow> int option \<times> RateLimiter" where
  "limiter_window now rl =
     (let window_start = now - 1000;
          rl = rl\<lparr>rl_timestamps := dropWhile (\<lambda>t. t < window_start) (rl_timestamps rl)\<rparr>
      in if length (rl_timestamps rl) < rl_max_per_sec rl
         then (None, rl\<lparr>rl_timestamps := rl_timestamps rl @ [now]\<rparr>)
         else (case rl_timestamps rl of
             [] \<Rightarrow> (None, rl)
           | oldest # _ \<Rightarrow> (Some ((oldest + 1000) - now), rl)))"

definition limiter_check :: "int \<Rightarrow> RateLimiter \<Rightarrow> int option \<times> RateLimiter" where
  "limiter_check now rl =
     (case rl_paused_until rl of
        Some until \<Rightarrow> if now < until then (Some (until - now), rl) else limiter_window now (rl\<lparr>rl_paused_until := None\<rparr>)
      | None \<Rightarrow> limiter_window now rl)"

definition limiter_pause :: "int \<Rightarrow> int \<Rightarrow> RateLimiter \<Rightarrow> RateLimiter" where
  "limiter_pause now duration rl = rl\<lparr>rl_paused_until := Some (now + duration)\<rparr>"

section \<open>The task\<close>

record RoutingLost =
  lost_source :: SocketAddr
  lost_device_state :: u8
  lost_messages :: u16

datatype KnxReceiveEvent = FrameEvent CemiFrame | RoutingLostEvent RoutingLost

text \<open>The events wait in a bounded channel, in order; here they are the list of all events handed over.\<close>

definition handle_routing_packet ::
  "int \<Rightarrow> u8 list \<Rightarrow> SocketAddr \<Rightarrow> KnxReceiveEvent list \<times> RateLimiter \<Rightarrow> KnxReceiveEvent list \<times> RateLimiter" where
  "handle_routing_packet now data source = (\<lambda>(events, rl).
     case knxip_parse data of Inl _ \<Rightarrow> (events, rl)
     | Inr frame \<Rightarrow>
       (case service_type frame of
          RoutingIndication \<Rightarrow> (case cemi_parse (body frame) of
              Inr cemi \<Rightarrow> (events @ [FrameEvent cemi], rl) | Inl _ \<Rightarrow> (events, rl))
        | RoutingLostMessage \<Rightarrow>
            if length (body frame) = 4 \<and> body frame ! 0 = 4
            then (events @ [RoutingLostEvent \<lparr>lost_source = source, lost_device_state = body frame ! 1,
                    lost_messages = be16 (body frame ! 2) (body frame ! 3)\<rparr>], rl)
            else (events, rl)
        | RoutingBusy \<Rightarrow>
            let wait_ms = (if 4 \<le> length (body frame) then be16 (body frame ! 2) (body frame ! 3) else DEFAULT_ROUTING_BUSY_WAIT_MS)
            in (events, limiter_pause now (uint wait_ms) rl)
        | _ \<Rightarrow> (events, rl)))"

text \<open>
  \<open>rate_limited_send\<close> asks again after the time it was told to wait; the list holds the instants at which it
  asks. The frame is written and sent once it is allowed.
\<close>

fun rate_limited_wait :: "int list \<Rightarrow> RateLimiter \<Rightarrow> (int \<times> RateLimiter) option" where
  "rate_limited_wait [] rl = None"
| "rate_limited_wait (now # later) rl =
     (case limiter_check now rl of
        (None, rl) \<Rightarrow> Some (now, rl)
      | (Some wait, rl) \<Rightarrow> rate_limited_wait later rl)"

definition routing_datagram :: "CemiFrame \<Rightarrow> KnxIpError + u8 list" where
  "routing_datagram cemi = client_serialize (routing_indication (as_bytes cemi))"

text \<open>What the frame-only receiver of the connection returns of the events.\<close>

fun router_recv :: "KnxReceiveEvent list \<Rightarrow> (CemiFrame \<times> KnxReceiveEvent list) option" where
  "router_recv [] = None"
| "router_recv (FrameEvent f # rest) = Some (f, rest)"
| "router_recv (RoutingLostEvent _ # rest) = router_recv rest"

section \<open>Runs of the limiter\<close>

datatype LimiterCall = Asked int | Paused int int

fun call_time :: "LimiterCall \<Rightarrow> int" where
  "call_time (Asked now) = now" | "call_time (Paused now duration) = now"

text \<open>The instants at which a transmission was allowed.\<close>

fun limiter_run :: "LimiterCall list \<Rightarrow> RateLimiter \<Rightarrow> int list \<times> RateLimiter" where
  "limiter_run [] rl = ([], rl)"
| "limiter_run (Asked now # calls) rl =
     (let (wait, rl) = limiter_check now rl; (granted, rl) = limiter_run calls rl
      in ((if wait = None then now # granted else granted), rl))"
| "limiter_run (Paused now duration # calls) rl = limiter_run calls (limiter_pause now duration rl)"

text \<open>
  The invariant of a run: what was granted is what fell out of the window, all of it more than a second
  before \<open>now\<close>, followed by the time stamps.
\<close>

definition window_inv :: "int list \<Rightarrow> int \<Rightarrow> RateLimiter \<Rightarrow> bool" where
  "window_inv granted now rl \<longleftrightarrow> (\<exists>old. granted = old @ rl_timestamps rl \<and> (\<forall>t\<in>set old. t + 1000 < now)) \<and>
     length (rl_timestamps rl) \<le> rl_max_per_sec rl \<and> 0 < rl_max_per_sec rl \<and>
     (\<forall>i. i + rl_max_per_sec rl < length granted \<longrightarrow> granted ! i + 1000 < granted ! (i + rl_max_per_sec rl))"

lemma window_inv_later: "window_inv granted now rl \<Longrightarrow> now \<le> now' \<Longrightarrow> window_inv granted now' rl"
  unfolding window_inv_def by (fastforce intro: order_less_le_trans)

lemma window_inv_pause [simp]: "window_inv granted now (rl\<lparr>rl_paused_until := p\<rparr>) = window_inv granted now rl"
  by (simp add: window_inv_def)

lemma limiter_window_inv:
  assumes "window_inv granted now rl" and "limiter_window now rl = (wait, rl')"
  shows "window_inv (if wait = None then granted @ [now] else granted) now rl'"
proof -
  obtain old where old: "granted = old @ rl_timestamps rl" "\<forall>t\<in>set old. t + 1000 < now" using assms(1) by (auto simp: window_inv_def)
  let ?drop = "takeWhile (\<lambda>t. t < now - 1000) (rl_timestamps rl)" and ?keep = "dropWhile (\<lambda>t. t < now - 1000) (rl_timestamps rl)"
  let ?n = "rl_max_per_sec rl" and ?old = "old @ ?drop"
  have g: "granted = ?old @ ?keep" by (simp add: old(1))
  have o: "\<forall>t\<in>set ?old. t + 1000 < now" using old(2) set_takeWhileD by fastforce
  have n: "0 < ?n" "length ?keep \<le> ?n" "\<forall>i. i + ?n < length granted \<longrightarrow> granted ! i + 1000 < granted ! (i + ?n)"
    using assms(1) length_dropWhile_le [of "\<lambda>t. t < now - 1000" "rl_timestamps rl"] by (auto simp: window_inv_def)
  obtain out where out: "granted = out @ ?keep" "\<forall>t\<in>set out. t + 1000 < now" using g o by blast
  show ?thesis
  proof (cases "length ?keep < ?n")
    case True
    then have r: "wait = None" "rl' = rl\<lparr>rl_timestamps := ?keep @ [now]\<rparr>" using assms(2) by (auto simp: limiter_window_def Let_def)
    have "(granted @ [now]) ! i + 1000 < (granted @ [now]) ! (i + ?n)" if "i + ?n < length (granted @ [now])" for i
    proof (cases "i + ?n < length granted")
      case False
      then have i: "i + ?n = length granted" using that by simp
      moreover have "length granted = length ?old + length ?keep" using arg_cong [OF g, of length] by (simp only: length_append)
      ultimately have "i < length ?old" using True by simp
      then have "granted ! i \<in> set ?old" by (subst g) (metis nth_append nth_mem)
      then show ?thesis using o i n(1) by (simp add: nth_append)
    qed (use n that in \<open>simp add: nth_append\<close>)
    then show ?thesis using r out n(1) True by (auto simp: window_inv_def)
  next
    case False
    then obtain a ks where k: "?keep = a # ks" using n(1) by (cases ?keep) auto
    then have "wait \<noteq> None" "rl' = rl\<lparr>rl_timestamps := ?keep\<rparr>" using assms(2) False by (auto simp: limiter_window_def Let_def)
    then show ?thesis using out n by (simp add: window_inv_def) blast
  qed
qed

lemma limiter_check_inv:
  assumes "window_inv granted now rl" and "limiter_check now rl = (wait, rl')"
  shows "window_inv (if wait = None then granted @ [now] else granted) now rl'"
  using assms limiter_window_inv [of granted now rl wait rl'] limiter_window_inv [of granted now "rl\<lparr>rl_paused_until := None\<rparr>" wait rl']
  by (auto simp: limiter_check_def split: option.splits if_splits)

lemma limiter_run_inv:
  "window_inv granted now rl \<Longrightarrow> sorted (map call_time calls) \<Longrightarrow> (\<forall>c\<in>set calls. now \<le> call_time c) \<Longrightarrow>
   limiter_run calls rl = (next_ones, rl') \<Longrightarrow> \<exists>now'. window_inv (granted @ next_ones) now' rl'"
proof (induction calls arbitrary: granted now rl next_ones)
  case (Cons c calls)
  show ?case
  proof (cases c)
    case (Asked t)
    obtain w rl1 where ch: "limiter_check t rl = (w, rl1)" by fastforce
    obtain m where m: "limiter_run calls rl1 = (m, rl')" "next_ones = (if w = None then t # m else m)"
      using Cons.prems(4) by (auto simp: Asked ch Let_def split: prod.splits)
    have "window_inv (if w = None then granted @ [t] else granted) t rl1"
      using limiter_check_inv [OF window_inv_later ch] Cons.prems(1,3) Asked by simp
    from Cons.IH [OF this _ _ m(1)] show ?thesis using Cons.prems(2) Asked m(2) by (auto split: if_splits)
  next
    case (Paused t d)
    have "window_inv granted t (limiter_pause t d rl)"
      using window_inv_later Cons.prems(1,3) Paused by (simp add: limiter_pause_def)
    from Cons.IH [OF this] show ?thesis using Cons.prems(2,4) Paused by auto
  qed
qed auto

text \<open>
  C14: The router never sends too fast. Over any run of requests to send and pauses, with a
  clock that does not go back, fifty-one consecutive transmissions take more than a second. A pause
  is kept: until it ends no request is granted, and each is told the time that is left.
  And no sender starves: a request is granted as soon as no pause is on and the oldest of the last
  fifty transmissions lies more than a second back.
\<close>
theorem rate_limit:
  assumes "sorted (map call_time calls)" and "limiter_run calls (rate_limiter_new MAX_PACKETS_PER_SEC) = (granted, rl)"
  shows "(\<forall>i. i + 50 < length granted \<longrightarrow> granted ! i + 1000 < granted ! (i + 50)) \<and>
    (now < since + duration \<longrightarrow> limiter_check now (limiter_pause since duration rl) =
       (Some (since + duration - now), limiter_pause since duration rl)) \<and>
    ((\<forall>until. rl_paused_until rl = Some until \<longrightarrow> until \<le> now) \<and>
       (\<forall>i. i + 50 = length granted \<longrightarrow> granted ! i + 1000 < now) \<longrightarrow> fst (limiter_check now rl) = None)"
proof -
  have max_const: "rl_max_per_sec (snd (limiter_run calls rl)) = rl_max_per_sec rl" for calls rl
  proof (induction calls arbitrary: rl)
    case (Cons c calls)
    have "rl_max_per_sec (snd (limiter_check now rl)) = rl_max_per_sec rl" for now
      by (auto simp: Let_def limiter_check_def limiter_window_def split: option.split list.split)
    then show ?case using Cons by (cases c) (simp_all add: Let_def case_prod_beta limiter_pause_def)
  qed simp
  obtain first where "\<forall>c\<in>set calls. first \<le> call_time c"
    using assms(1) by (cases calls) auto
  moreover have "window_inv [] first (rate_limiter_new MAX_PACKETS_PER_SEC)" for first
    by (simp add: window_inv_def rate_limiter_new_def MAX_PACKETS_PER_SEC_def)
  ultimately obtain last where w: "window_inv granted last rl" using limiter_run_inv [OF _ assms(1) _ assms(2)] by fastforce
  have m: "rl_max_per_sec rl = 50"
    using max_const [of calls "rate_limiter_new MAX_PACKETS_PER_SEC"] assms(2) by (simp add: rate_limiter_new_def MAX_PACKETS_PER_SEC_def)
  have "fst (limiter_check now rl) = None"
    if p: "\<forall>until. rl_paused_until rl = Some until \<longrightarrow> until \<le> now" and o: "\<forall>i. i + 50 = length granted \<longrightarrow> granted ! i + 1000 < now"
  proof -
    obtain old where old: "granted = old @ rl_timestamps rl" "length (rl_timestamps rl) \<le> 50" using w m by (auto simp: window_inv_def)
    have "length (dropWhile (\<lambda>t. t < now - 1000) (rl_timestamps rl)) < 50"
    proof (cases "length (rl_timestamps rl) = 50")
      case True
      then obtain a ts where a: "rl_timestamps rl = a # ts" by (cases "rl_timestamps rl") auto
      then have "granted ! length old = a" "length old + 50 = length granted" using old True by (simp_all add: nth_append)
      then have "a < now - 1000" using o by force
      then show ?thesis using a True length_dropWhile_le [of "\<lambda>t. t < now - 1000" ts] by auto
    qed (use old(2) length_dropWhile_le [of "\<lambda>t. t < now - 1000" "rl_timestamps rl"] in linarith)
    then show ?thesis using p m by (auto simp: limiter_check_def limiter_window_def Let_def split: option.split)
  qed
  with w m show ?thesis by (auto simp: window_inv_def limiter_check_def limiter_pause_def)
qed

theorem rate_limit_witness:
  "limiter_run [Asked 0, Paused 10 40, Asked 20, Asked 50] (rate_limiter_new MAX_PACKETS_PER_SEC) =
     ([0, 50], \<lparr>rl_timestamps = [0, 50], rl_max_per_sec = 50, rl_paused_until = None\<rparr>) \<and>
   fst (limiter_check 60 \<lparr>rl_timestamps = [0, 50], rl_max_per_sec = 50, rl_paused_until = None\<rparr>) = None"
proof -
  have r: "limiter_run [Asked 0, Paused 10 40, Asked 20, Asked 50] (rate_limiter_new MAX_PACKETS_PER_SEC) =
     ([0, 50], \<lparr>rl_timestamps = [0, 50], rl_max_per_sec = 50, rl_paused_until = None\<rparr>)"
    by (simp add: limiter_check_def limiter_window_def limiter_pause_def rate_limiter_new_def MAX_PACKETS_PER_SEC_def Let_def)
  with rate_limit [OF _ r, of 60 0 0] show ?thesis by simp
qed

end
