(* ===== verification/Knxip_Dib.thy ===== *)
theory Knxip_Dib
  imports Prelude
begin

text \<open>
  Description information blocks of KNXnet/IP discovery (\<^verbatim>\<open>knx-rs-core/src/knxip/dib.rs\<close>): sequences
  of length-prefixed blocks, their validation, the typed view of the device information block and
  the builders. What a sequence of length-prefixed blocks promises is stated once, in the locale
  \<open>block_splitter\<close>; the search request parameters rest on it as well.
\<close>

section \<open>Sequences of length-prefixed blocks\<close>

text \<open>
  A splitter takes the first block off a non-empty buffer. It succeeds exactly on buffers that
  start with a good block.
\<close>

locale block_splitter =
  fixes split_off :: "u8 list \<Rightarrow> 'e + u8 list \<times> u8 list" and good_block :: "u8 list \<Rightarrow> bool"
  assumes split_iff: "bs \<noteq> [] \<Longrightarrow> split_off bs = Inr (b, t) \<longleftrightarrow> good_block b \<and> bs = b @ t"
    and good_nonempty: "good_block b \<Longrightarrow> b \<noteq> []"
begin

lemma split_good: "good_block b \<Longrightarrow> split_off (b @ t) = Inr (b, t)"
  by (simp add: split_iff good_nonempty)

lemma split_shorter: "bs \<noteq> [] \<Longrightarrow> split_off bs = Inr (b, t) \<Longrightarrow> length t < length bs"
  using good_nonempty [of b] by (auto simp: split_iff)

lemma blocks_unique: "list_all good_block bl \<Longrightarrow> list_all good_block cl \<Longrightarrow> concat bl = concat cl \<Longrightarrow> bl = cl"
proof (induction bl arbitrary: cl)
  case Nil
  then show ?case by (cases cl) (auto dest: good_nonempty)
next
  case (Cons b bl)
  from Cons.prems(1) have b: "good_block b" by simp
  then obtain c cs where cl: "cl = c # cs"
    using Cons.prems(3) good_nonempty by (cases cl) auto
  then have "split_off (b @ concat bl) = split_off (c @ concat cs)" using Cons.prems(3) by simp
  with split_good [OF b] split_good [of c] Cons.prems(2) cl have "b = c" "concat bl = concat cs" by auto
  with Cons.IH [of cs] Cons.prems cl show ?case by simp
qed

end

section \<open>Codes\<close>

definition DIB_HEADER_LEN :: nat where "DIB_HEADER_LEN = 2"

datatype (plugins only:) DibType = DeviceInformation | SupportedServiceFamilies | IpConfiguration | IpCurrentConfiguration
  | KnxAddresses | SecuredServiceFamilies | TunnelingInformation | ExtendedDeviceInformation | ManufacturerData

definition dib_type_from_raw :: "u8 \<Rightarrow> DibType option" where
  "dib_type_from_raw raw = map_of
     [(0x01, DeviceInformation), (0x02, SupportedServiceFamilies), (0x03, IpConfiguration),
      (0x04, IpCurrentConfiguration), (0x05, KnxAddresses), (0x06, SecuredServiceFamilies),
      (0x07, TunnelingInformation), (0x08, ExtendedDeviceInformation), (0xFE, ManufacturerData)] raw"

fun dib_type_u8 :: "DibType \<Rightarrow> u8" where
  "dib_type_u8 DeviceInformation = 0x01"
| "dib_type_u8 SupportedServiceFamilies = 0x02"
| "dib_type_u8 IpConfiguration = 0x03"
| "dib_type_u8 IpCurrentConfiguration = 0x04"
| "dib_type_u8 KnxAddresses = 0x05"
| "dib_type_u8 SecuredServiceFamilies = 0x06"
| "dib_type_u8 TunnelingInformation = 0x07"
| "dib_type_u8 ExtendedDeviceInformation = 0x08"
| "dib_type_u8 ManufacturerData = 0xFE"

datatype KnxMedium = Tp1 | Pl110 | RadioFrequency | MediumIp

definition knx_medium_from_raw :: "u8 \<Rightarrow> KnxMedium option" where
  "knx_medium_from_raw raw = map_of [(0x02, Tp1), (0x04, Pl110), (0x10, RadioFrequency), (0x20, MediumIp)] raw"

fun knx_medium_u8 :: "KnxMedium \<Rightarrow> u8" where
  "knx_medium_u8 Tp1 = 0x02"
| "knx_medium_u8 Pl110 = 0x04"
| "knx_medium_u8 RadioFrequency = 0x10"
| "knx_medium_u8 MediumIp = 0x20"

datatype DibParseError =
    TruncatedHeader nat nat
  | InvalidStructureLength nat nat
  | OddStructureLength nat nat
  | TruncatedStructure nat nat nat
  | UnexpectedDescriptionType u8 u8
  | InvalidDeviceInformationLength nat
  | DuplicateDescriptionType u8

lemma dib_type_inverse [simp]: "dib_type_from_raw (dib_type_u8 t) = Some t"
  by (cases t) (simp_all add: dib_type_from_raw_def)

lemma knx_medium_inverse [simp]: "knx_medium_from_raw (knx_medium_u8 m) = Some m"
  by (cases m) (simp_all add: knx_medium_from_raw_def)

section \<open>Blocks and the validating iterator\<close>

record Dib =
  dib_bytes :: "u8 list"

definition dib_structure_length :: "Dib \<Rightarrow> nat" where
  "dib_structure_length d = length (dib_bytes d)"

definition description_type_raw :: "Dib \<Rightarrow> u8" where
  "description_type_raw d = dib_bytes d ! 1"

definition description_type :: "Dib \<Rightarrow> DibType option" where
  "description_type d = dib_type_from_raw (description_type_raw d)"

definition dib_info :: "Dib \<Rightarrow> u8 list" where
  "dib_info d = drop DIB_HEADER_LEN (dib_bytes d)"

record DibIterator =
  di_remaining :: "u8 list"
  di_offset :: nat
  di_failed :: bool

definition dib_iterator_new :: "u8 list \<Rightarrow> DibIterator" where
  "dib_iterator_new bytes = \<lparr>di_remaining = bytes, di_offset = 0, di_failed = False\<rparr>"

definition dib_fail :: "DibParseError \<Rightarrow> DibIterator \<Rightarrow> DibIterator \<times> (DibParseError + Dib) option" where
  "dib_fail e it = (it\<lparr>di_failed := True, di_remaining := []\<rparr>, Some (Inl e))"

definition dib_next :: "DibIterator \<Rightarrow> DibIterator \<times> (DibParseError + Dib) option" where
  "dib_next it =
     (let rest = di_remaining it; offset = di_offset it in
      if di_failed it \<or> rest = [] then (it, None)
      else if length rest < DIB_HEADER_LEN then dib_fail (TruncatedHeader offset (length rest)) it
      else let len = unat (rest ! 0) in
        if len < DIB_HEADER_LEN then dib_fail (InvalidStructureLength offset len) it
        else if len mod 2 \<noteq> 0 then dib_fail (OddStructureLength offset len) it
        else if len > length rest then dib_fail (TruncatedStructure offset len (length rest)) it
        else (it\<lparr>di_remaining := drop len rest, di_offset := offset + len\<rparr>, Some (Inr \<lparr>dib_bytes = take len rest\<rparr>)))"

section \<open>Sequences\<close>

text \<open>The loop of \<open>DibSequence::parse\<close>; \<open>seen\<close> are the four words of the bit set of type codes.\<close>

function dib_parse_loop :: "u64 list \<Rightarrow> DibIterator \<Rightarrow> DibParseError + unit" where
  "dib_parse_loop seen it =
     (case dib_next it of
        (it', None) \<Rightarrow> Inr ()
      | (it', Some (Inl e)) \<Rightarrow> Inl e
      | (it', Some (Inr dib)) \<Rightarrow>
          let type_code = description_type_raw dib; type_index = unat type_code;
              word = type_index div 64; mask = push_bit (type_index mod 64) 1
          in if seen ! word AND mask \<noteq> 0 then Inl (DuplicateDescriptionType type_code)
             else dib_parse_loop (seen[word := seen ! word OR mask]) it')"
  by pat_completeness auto

lemma dib_next_shorter: "dib_next it = (it', Some (Inr d)) \<Longrightarrow> length (di_remaining it') < length (di_remaining it)"
  by (auto simp: dib_next_def dib_fail_def DIB_HEADER_LEN_def Let_def split: if_splits)

termination dib_parse_loop
  by (relation "measure (\<lambda>(seen, it). length (di_remaining it))") (auto dest!: dib_next_shorter [OF sym])

record DibSequence =
  ds_bytes :: "u8 list"

definition dib_sequence_parse :: "u8 list \<Rightarrow> DibParseError + DibSequence" where
  "dib_sequence_parse bytes =
     bind_res (dib_parse_loop (replicate 4 0) (dib_iterator_new bytes)) (\<lambda>_. Inr \<lparr>ds_bytes = bytes\<rparr>)"

text \<open>
  Iterating over a validated sequence. \<open>None\<close> stands for a length that is zero, on which the iterator
  would not advance, or larger than the rest, on which \<open>split_at\<close> panics.
\<close>

function dib_collect :: "u8 list \<Rightarrow> Dib list option" where
  "dib_collect rest =
     (if rest = [] then Some []
      else let len = unat (rest ! 0) in
        if len = 0 \<or> len > length rest then None
        else map_option (Cons \<lparr>dib_bytes = take len rest\<rparr>) (dib_collect (drop len rest)))"
  by pat_completeness auto

termination dib_collect
  by (relation "measure length") auto

definition dib_get_raw :: "u8 \<Rightarrow> DibSequence \<Rightarrow> Dib option" where
  "dib_get_raw type_code s =
     Option.bind (dib_collect (ds_bytes s)) (List.find (\<lambda>d. description_type_raw d = type_code))"

definition dib_get :: "DibType \<Rightarrow> DibSequence \<Rightarrow> Dib option" where
  "dib_get t s = dib_get_raw (dib_type_u8 t) s"

section \<open>Validation\<close>

definition dib_block :: "u8 list \<Rightarrow> bool" where
  "dib_block b \<longleftrightarrow> 2 \<le> length b \<and> even (length b) \<and> unat (b ! 0) = length b"

text \<open>One step of the iterator, as a splitter of buffers.\<close>

definition dib_split :: "u8 list \<Rightarrow> DibParseError + u8 list \<times> u8 list" where
  "dib_split bs = (case dib_next (dib_iterator_new bs) of
     (it, Some (Inr d)) \<Rightarrow> Inr (dib_bytes d, di_remaining it) | (_, Some (Inl e)) \<Rightarrow> Inl e
   | (_, None) \<Rightarrow> Inl (TruncatedHeader 0 0))"

lemma dib_split_iff: "bs \<noteq> [] \<Longrightarrow> dib_split bs = Inr (b, t) \<longleftrightarrow> dib_block b \<and> bs = b @ t"
proof -
  assume ne: "bs \<noteq> []"
  have "dib_block b" "bs = b @ t" if "dib_split bs = Inr (b, t)"
    using that by (auto simp: dib_split_def dib_next_def dib_iterator_new_def dib_fail_def DIB_HEADER_LEN_def
        dib_block_def Let_def even_iff_mod_2_eq_zero split: if_splits)
  moreover have "dib_split (b @ t) = Inr (b, t)" if "dib_block b"
    using that by (auto simp: dib_split_def dib_next_def dib_iterator_new_def dib_fail_def DIB_HEADER_LEN_def
        dib_block_def Let_def nth_append even_iff_mod_2_eq_zero)
  ultimately show ?thesis by blast
qed

interpretation dibs: block_splitter dib_split dib_block
  by unfold_locales (auto simp: dib_split_iff dib_block_def)

lemma dib_next_block: "dib_block b \<Longrightarrow>
    dib_next \<lparr>di_remaining = b @ t, di_offset = k, di_failed = False\<rparr> =
      (\<lparr>di_remaining = t, di_offset = k + length b, di_failed = False\<rparr>, Some (Inr \<lparr>dib_bytes = b\<rparr>))"
  by (auto simp: dib_next_def DIB_HEADER_LEN_def dib_block_def Let_def nth_append even_iff_mod_2_eq_zero)

lemma dib_next_cases:
  assumes "rest \<noteq> []"
  obtains b t where "dib_block b" "rest = b @ t"
  | it e where "dib_next \<lparr>di_remaining = rest, di_offset = k, di_failed = False\<rparr> = (it, Some (Inl e))"
      "\<And>bl. list_all dib_block bl \<Longrightarrow> rest \<noteq> concat bl"
proof (cases "\<exists>b t. dib_block b \<and> rest = b @ t")
  case False
  have none: "list_all dib_block bl \<Longrightarrow> rest \<noteq> concat bl" for bl
    using assms False by (cases bl) auto
  let ?n = "unat (rest ! 0)"
  have "\<not> (2 \<le> ?n \<and> even ?n \<and> ?n \<le> length rest)"
  proof
    assume n: "2 \<le> ?n \<and> even ?n \<and> ?n \<le> length rest"
    then have "dib_block (take ?n rest)" by (auto simp: dib_block_def)
    with False show False by (metis append_take_drop_id)
  qed
  then have "\<exists>it e. dib_next \<lparr>di_remaining = rest, di_offset = k, di_failed = False\<rparr> = (it, Some (Inl e))"
    using assms by (auto simp: dib_next_def dib_fail_def DIB_HEADER_LEN_def Let_def even_iff_mod_2_eq_zero)
  with none that(2) show ?thesis by blast
qed (use that(1) in blast)

text \<open>The bit set of the type codes seen so far.\<close>

definition in_seen :: "u64 list \<Rightarrow> u8 \<Rightarrow> bool" where
  "in_seen seen c \<longleftrightarrow> bit (seen ! (unat c div 64)) (unat c mod 64)"

lemma in_seen_test: "seen ! (unat c div 64) AND push_bit (unat c mod 64) 1 \<noteq> 0 \<longleftrightarrow> in_seen seen c"
  by (simp add: in_seen_def and_exp_eq_0_iff_not_bit push_bit_of_1)

lemma in_seen_add:
  assumes "length seen = 4"
  shows "in_seen (seen[unat c div 64 := seen ! (unat c div 64) OR push_bit (unat c mod 64) 1]) d \<longleftrightarrow>
    d = c \<or> in_seen seen d"
proof -
  have d: "d = c \<longleftrightarrow> unat d div 64 = unat c div 64 \<and> unat d mod 64 = unat c mod 64"
    by (metis div_mult_mod_eq word_unat_eq_iff)
  have "unat c div 64 < 4" by (rule less_mult_imp_div_less) simp
  then have here: "seen[unat c div 64 := w] ! (unat c div 64) = w" for w using assms by simp
  have one: "bit (push_bit (unat c mod 64) (1::u64)) n \<longleftrightarrow> n = unat c mod 64" for n
    by (auto simp: bit_simps)
  show ?thesis
  proof (cases "unat d div 64 = unat c div 64")
    case True
    then show ?thesis
      unfolding d in_seen_def True here bit_or_iff one by blast
  qed (simp add: d in_seen_def)
qed

declare dib_parse_loop.simps [simp del]

lemma dib_loop_accepts:
  assumes "length seen = 4"
  shows "dib_parse_loop seen \<lparr>di_remaining = rest, di_offset = k, di_failed = False\<rparr> = Inr () \<longleftrightarrow>
    (\<exists>bl. list_all dib_block bl \<and> rest = concat bl \<and> distinct (map (\<lambda>b. b ! 1) bl) \<and> (\<forall>b \<in> set bl. \<not> in_seen seen (b ! 1)))"
  using assms
proof (induction "length rest" arbitrary: rest seen k rule: less_induct)
  case less
  let ?it = "\<lparr>di_remaining = rest, di_offset = k, di_failed = False\<rparr>"
  show ?case
  proof (cases "rest = []")
    case True
    then show ?thesis
      by (subst dib_parse_loop.simps) (auto simp: dib_next_def intro!: exI [of _ "[]"])
  next
    case False
    then show ?thesis
    proof (cases rule: dib_next_cases [where k = k])
      case (1 b t)
      let ?c = "b ! 1"
      define seen' where "seen' = seen[unat ?c div 64 := seen ! (unat ?c div 64) OR push_bit (unat ?c mod 64) 1]"
      have len: "length seen' = 4" and add: "in_seen seen' d \<longleftrightarrow> d = ?c \<or> in_seen seen d" for d
        unfolding seen'_def by (simp_all only: length_list_update less.prems in_seen_add [OF less.prems])
      have step: "dib_parse_loop seen ?it = (if in_seen seen ?c then Inl (DuplicateDescriptionType ?c)
          else dib_parse_loop seen' \<lparr>di_remaining = t, di_offset = k + length b, di_failed = False\<rparr>)"
        by (subst dib_parse_loop.simps)
          (simp add: 1 dib_next_block description_type_raw_def Let_def in_seen_test seen'_def del: push_bit_of_1)
      have ih: "dib_parse_loop seen' \<lparr>di_remaining = t, di_offset = k + length b, di_failed = False\<rparr> = Inr () \<longleftrightarrow>
        (\<exists>bl. list_all dib_block bl \<and> t = concat bl \<and> distinct (map (\<lambda>b. b ! 1) bl) \<and> (\<forall>d \<in> set bl. \<not> in_seen seen' (d ! 1)))"
        using 1 len by (intro less.hyps) (auto simp: dib_block_def)
      have split: "(list_all dib_block bl \<and> rest = concat bl) = (\<exists>cl. bl = b # cl \<and> list_all dib_block cl \<and> t = concat cl)" for bl
      proof
        assume a: "list_all dib_block bl \<and> rest = concat bl"
        then obtain c cl where cl: "bl = c # cl" using False by (cases bl) auto
        with a have c: "dib_block c" "list_all dib_block cl" and eq: "c @ concat cl = b @ t" using 1(2) by simp_all
        from dibs.split_good [OF c(1), of "concat cl"] dibs.split_good [OF 1(1), of t]
        have "c = b \<and> concat cl = t" unfolding eq by simp
        with cl c show "\<exists>cl. bl = b # cl \<and> list_all dib_block cl \<and> t = concat cl" by auto
      qed (use 1 in auto)
      have "(\<exists>bl. (list_all dib_block bl \<and> rest = concat bl) \<and> Q bl) \<longleftrightarrow>
          (\<exists>cl. (list_all dib_block cl \<and> t = concat cl) \<and> Q (b # cl))" for Q
        unfolding split by blast
      note ex = this [of "\<lambda>bl. distinct (map (\<lambda>b. b ! 1) bl) \<and> (\<forall>b \<in> set bl. \<not> in_seen seen (b ! 1))",
          unfolded conj_assoc]
      show ?thesis
      proof (cases "in_seen seen ?c")
        case True
        then show ?thesis unfolding ex step by simp
      next
        case False
        have "(distinct (map (\<lambda>b. b ! 1) cl) \<and> (\<forall>d \<in> set cl. \<not> in_seen seen' (d ! 1))) \<longleftrightarrow>
          distinct (map (\<lambda>b. b ! 1) (b # cl)) \<and> (\<forall>d \<in> set (b # cl). \<not> in_seen seen (d ! 1))" for cl
          using False by (auto simp: add image_iff)
        then show ?thesis
          unfolding ex step using ih False by simp
      qed
    next
      case (2 it e)
      then show ?thesis
        by (subst dib_parse_loop.simps) auto
    qed
  qed
qed

declare dib_collect.simps [simp del]

lemma dib_collect_concat: "list_all dib_block bl \<Longrightarrow> dib_collect (concat bl) = Some (map (\<lambda>b. \<lparr>dib_bytes = b\<rparr>) bl)"
proof (induction bl)
  case (Cons b bl)
  from Cons.prems have "b \<noteq> []" "unat (b ! 0) = length b" by (auto simp: dib_block_def)
  with Cons show ?case
    by (subst dib_collect.simps) (auto simp: nth_append Let_def)
qed (simp add: dib_collect.simps)

lemma dib_sequence_accepts: "dib_sequence_parse bytes = Inr s \<longleftrightarrow> s = \<lparr>ds_bytes = bytes\<rparr> \<and>
    (\<exists>bl. list_all dib_block bl \<and> bytes = concat bl \<and> distinct (map (\<lambda>b. b ! 1) bl))"
proof -
  have "\<not> in_seen (replicate 4 0) c" for c
  proof -
    have "unat c div 64 < 4" by (rule less_mult_imp_div_less) simp
    then show ?thesis by (simp add: in_seen_def)
  qed
  then have "dib_parse_loop (replicate 4 0) (dib_iterator_new bytes) = Inr () \<longleftrightarrow>
      (\<exists>bl. list_all dib_block bl \<and> bytes = concat bl \<and> distinct (map (\<lambda>b. b ! 1) bl))"
    using dib_loop_accepts [of "replicate 4 0" bytes 0] by (auto simp: dib_iterator_new_def)
  then show ?thesis by (auto simp: dib_sequence_parse_def result_simps)
qed

lemma find_map: "List.find P (map g xs) = map_option g (List.find (\<lambda>x. P (g x)) xs)"
  by (induction xs) auto

text \<open>
  C37: A buffer is accepted as a sequence of description blocks exactly when it is the concatenation
  of blocks of even length, at least two, that carry their own length, with no description type
  twice. The iteration over an accepted sequence does not fail and gives exactly these blocks, and
  looking a type up finds its block, if there is one. There is only one such decomposition.
\<close>
theorem dib_sequence:
  "(dib_sequence_parse bytes = Inr s \<longleftrightarrow> s = \<lparr>ds_bytes = bytes\<rparr> \<and>
      (\<exists>bl. list_all dib_block bl \<and> bytes = concat bl \<and> distinct (map (\<lambda>b. b ! 1) bl))) \<and>
   (list_all dib_block bl \<and> bytes = concat bl \<longrightarrow>
      dib_collect bytes = Some (map (\<lambda>b. \<lparr>dib_bytes = b\<rparr>) bl) \<and>
      dib_get_raw t \<lparr>ds_bytes = bytes\<rparr> = map_option (\<lambda>b. \<lparr>dib_bytes = b\<rparr>) (List.find (\<lambda>b. b ! 1 = t) bl) \<and>
      (\<forall>cl. list_all dib_block cl \<and> bytes = concat cl \<longrightarrow> cl = bl))"
  using dib_sequence_accepts dibs.blocks_unique
  by (auto simp: dib_collect_concat dib_get_raw_def find_map description_type_raw_def)

theorem dib_sequence_witness:
  "dib_get_raw 2 \<lparr>ds_bytes = [4, 5, 0x11, 0x01, 4, 2, 2, 1]\<rparr> = Some \<lparr>dib_bytes = [4, 2, 2, 1]\<rparr>"
  using dib_sequence [of "[4, 5, 0x11, 0x01, 4, 2, 2, 1]" _ "[[4, 5, 0x11, 0x01], [4, 2, 2, 1]]" 2]
  by (simp add: dib_block_def)

section \<open>Device information\<close>

definition KNX_MEDIUM_OFFSET :: nat where "KNX_MEDIUM_OFFSET = DIB_HEADER_LEN"
definition DEVICE_STATUS_OFFSET :: nat where "DEVICE_STATUS_OFFSET = KNX_MEDIUM_OFFSET + 1"
definition INDIVIDUAL_ADDRESS_OFFSET :: nat where "INDIVIDUAL_ADDRESS_OFFSET = DEVICE_STATUS_OFFSET + 1"
definition INDIVIDUAL_ADDRESS_LEN :: nat where "INDIVIDUAL_ADDRESS_LEN = 2"
definition PROJECT_INSTALLATION_ID_OFFSET :: nat where
  "PROJECT_INSTALLATION_ID_OFFSET = INDIVIDUAL_ADDRESS_OFFSET + INDIVIDUAL_ADDRESS_LEN"
definition PROJECT_INSTALLATION_ID_LEN :: nat where "PROJECT_INSTALLATION_ID_LEN = 2"
definition SERIAL_NUMBER_OFFSET :: nat where
  "SERIAL_NUMBER_OFFSET = PROJECT_INSTALLATION_ID_OFFSET + PROJECT_INSTALLATION_ID_LEN"
definition SERIAL_NUMBER_LEN :: nat where "SERIAL_NUMBER_LEN = 6"
definition ROUTING_MULTICAST_OFFSET :: nat where "ROUTING_MULTICAST_OFFSET = SERIAL_NUMBER_OFFSET + SERIAL_NUMBER_LEN"
definition ROUTING_MULTICAST_LEN :: nat where "ROUTING_MULTICAST_LEN = 4"
definition MAC_ADDRESS_OFFSET :: nat where "MAC_ADDRESS_OFFSET = ROUTING_MULTICAST_OFFSET + ROUTING_MULTICAST_LEN"
definition MAC_ADDRESS_LEN :: nat where "MAC_ADDRESS_LEN = 6"
definition FRIENDLY_NAME_OFFSET :: nat where "FRIENDLY_NAME_OFFSET = MAC_ADDRESS_OFFSET + MAC_ADDRESS_LEN"
definition FRIENDLY_NAME_LEN :: nat where "FRIENDLY_NAME_LEN = 30"
definition DEVICE_INFORMATION_LEN :: nat where "DEVICE_INFORMATION_LEN = FRIENDLY_NAME_OFFSET + FRIENDLY_NAME_LEN"

lemmas device_info_offsets = KNX_MEDIUM_OFFSET_def DEVICE_STATUS_OFFSET_def INDIVIDUAL_ADDRESS_OFFSET_def
  INDIVIDUAL_ADDRESS_LEN_def PROJECT_INSTALLATION_ID_OFFSET_def PROJECT_INSTALLATION_ID_LEN_def SERIAL_NUMBER_OFFSET_def
  SERIAL_NUMBER_LEN_def ROUTING_MULTICAST_OFFSET_def ROUTING_MULTICAST_LEN_def MAC_ADDRESS_OFFSET_def
  MAC_ADDRESS_LEN_def FRIENDLY_NAME_OFFSET_def FRIENDLY_NAME_LEN_def DEVICE_INFORMATION_LEN_def DIB_HEADER_LEN_def

record DeviceInformationDib =
  did_dib :: Dib

definition device_information_parse :: "Dib \<Rightarrow> DibParseError + DeviceInformationDib" where
  "device_information_parse d =
     (if description_type_raw d \<noteq> dib_type_u8 DeviceInformation
      then Inl (UnexpectedDescriptionType (dib_type_u8 DeviceInformation) (description_type_raw d))
      else if dib_structure_length d \<noteq> DEVICE_INFORMATION_LEN
      then Inl (InvalidDeviceInformationLength (dib_structure_length d))
      else Inr \<lparr>did_dib = d\<rparr>)"

definition device_information_find_in :: "u8 list \<Rightarrow> DibParseError + DeviceInformationDib option" where
  "device_information_find_in bytes = bind_res (dib_sequence_parse bytes) (\<lambda>sequence.
     case dib_get DeviceInformation sequence of
       None \<Rightarrow> Inr None
     | Some d \<Rightarrow> bind_res (device_information_parse d) (\<lambda>v. Inr (Some v)))"

definition did_octet :: "nat \<Rightarrow> DeviceInformationDib \<Rightarrow> u8" where
  "did_octet i v = dib_bytes (did_dib v) ! i"

definition did_octets :: "nat \<Rightarrow> nat \<Rightarrow> DeviceInformationDib \<Rightarrow> u8 list" where
  "did_octets off n v = buf_slice off (off + n) (dib_bytes (did_dib v))"

definition knx_medium_raw :: "DeviceInformationDib \<Rightarrow> u8" where
  "knx_medium_raw v = did_octet KNX_MEDIUM_OFFSET v"

definition knx_medium :: "DeviceInformationDib \<Rightarrow> KnxMedium option" where
  "knx_medium v = knx_medium_from_raw (knx_medium_raw v)"

definition device_status :: "DeviceInformationDib \<Rightarrow> u8" where
  "device_status v = did_octet DEVICE_STATUS_OFFSET v"

definition is_programming_mode :: "DeviceInformationDib \<Rightarrow> bool" where
  "is_programming_mode v \<longleftrightarrow> device_status v AND 0x01 \<noteq> 0"

definition did_individual_address :: "DeviceInformationDib \<Rightarrow> u16" where
  "did_individual_address v = be16 (did_octet INDIVIDUAL_ADDRESS_OFFSET v) (did_octet (INDIVIDUAL_ADDRESS_OFFSET + 1) v)"

definition project_installation_identifier :: "DeviceInformationDib \<Rightarrow> u16" where
  "project_installation_identifier v =
     be16 (did_octet PROJECT_INSTALLATION_ID_OFFSET v) (did_octet (PROJECT_INSTALLATION_ID_OFFSET + 1) v)"

definition project_number :: "DeviceInformationDib \<Rightarrow> u16" where
  "project_number v = drop_bit 4 (project_installation_identifier v)"

definition installation_number :: "DeviceInformationDib \<Rightarrow> u8" where
  "installation_number v = did_octet (PROJECT_INSTALLATION_ID_OFFSET + 1) v AND 0x0F"

definition did_serial_number :: "DeviceInformationDib \<Rightarrow> u8 list" where
  "did_serial_number v = did_octets SERIAL_NUMBER_OFFSET SERIAL_NUMBER_LEN v"

definition did_routing_multicast_address :: "DeviceInformationDib \<Rightarrow> u8 list" where
  "did_routing_multicast_address v = did_octets ROUTING_MULTICAST_OFFSET ROUTING_MULTICAST_LEN v"

definition did_mac_address :: "DeviceInformationDib \<Rightarrow> u8 list" where
  "did_mac_address v = did_octets MAC_ADDRESS_OFFSET MAC_ADDRESS_LEN v"

definition friendly_name_bytes :: "DeviceInformationDib \<Rightarrow> u8 list" where
  "friendly_name_bytes v = did_octets FRIENDLY_NAME_OFFSET FRIENDLY_NAME_LEN v"

text \<open>Text as the sequence of its code points.\<close>

definition did_friendly_name :: "DeviceInformationDib \<Rightarrow> u32 list" where
  "did_friendly_name v = map ucast (takeWhile (\<lambda>byte. byte \<noteq> 0) (friendly_name_bytes v))"

section \<open>Building blocks\<close>

datatype ServiceFamily = FamilyCore | FamilyDeviceManagement | FamilyTunneling | FamilyRouting | FamilyRemoteLogging
  | FamilyRemoteConfiguration | FamilyObjectServer

fun service_family_u8 :: "ServiceFamily \<Rightarrow> u8" where
  "service_family_u8 FamilyCore = 0x02"
| "service_family_u8 FamilyDeviceManagement = 0x03"
| "service_family_u8 FamilyTunneling = 0x04"
| "service_family_u8 FamilyRouting = 0x05"
| "service_family_u8 FamilyRemoteLogging = 0x06"
| "service_family_u8 FamilyRemoteConfiguration = 0x07"
| "service_family_u8 FamilyObjectServer = 0x08"

record DeviceInformation =
  medium :: KnxMedium
  programming_mode :: bool
  di_individual_address :: u16
  di_project_installation_identifier :: u16
  di_serial_number :: "u8 list"
  routing_multicast_address :: "u8 list"
  mac_address :: "u8 list"
  friendly_name :: "u32 list"

definition latin1 :: "u32 \<Rightarrow> u8" where
  "latin1 ch = (if ch \<le> 0xFF then ucast ch else 0x3F)"

definition device_information_to_bytes :: "DeviceInformation \<Rightarrow> u8 list" where
  "device_information_to_bytes d =
     (let dib = replicate DEVICE_INFORMATION_LEN 0;
          dib = dib[0 := if DEVICE_INFORMATION_LEN \<le> 255 then of_nat DEVICE_INFORMATION_LEN else 0xFF];
          dib = dib[1 := dib_type_u8 DeviceInformation];
          dib = dib[KNX_MEDIUM_OFFSET := knx_medium_u8 (medium d)];
          dib = dib[DEVICE_STATUS_OFFSET := of_bool (programming_mode d)];
          dib = buf_write INDIVIDUAL_ADDRESS_OFFSET (to_be16 (di_individual_address d)) dib;
          dib = buf_write PROJECT_INSTALLATION_ID_OFFSET (to_be16 (di_project_installation_identifier d)) dib;
          dib = buf_write SERIAL_NUMBER_OFFSET (di_serial_number d) dib;
          dib = buf_write ROUTING_MULTICAST_OFFSET (routing_multicast_address d) dib;
          dib = buf_write MAC_ADDRESS_OFFSET (mac_address d) dib
      in buf_write FRIENDLY_NAME_OFFSET (map latin1 (take FRIENDLY_NAME_LEN (friendly_name d))) dib)"

definition MAX_SERVICE_FAMILIES :: nat where
  "MAX_SERVICE_FAMILIES = (255 - DIB_HEADER_LEN) div 2"

definition supported_service_families_dib :: "(ServiceFamily \<times> u8) list \<Rightarrow> u8 list" where
  "supported_service_families_dib families =
     (let families = take (min (length families) MAX_SERVICE_FAMILIES) families;
          len = DIB_HEADER_LEN + 2 * length families
      in [if len \<le> 255 then of_nat len else 0xFF, dib_type_u8 SupportedServiceFamilies]
         @ concat (map (\<lambda>(family, version). [service_family_u8 family, version]) families))"

text \<open>The fields have the sizes of the fixed-size arrays of the source.\<close>

definition device_information_ok :: "DeviceInformation \<Rightarrow> bool" where
  "device_information_ok d \<longleftrightarrow> length (di_serial_number d) = 6 \<and> length (routing_multicast_address d) = 4 \<and>
     length (mac_address d) = 6"

lemma device_information_octets:
  assumes "device_information_ok d"
  shows "device_information_to_bytes d = [54, 1, knx_medium_u8 (medium d), of_bool (programming_mode d)]
    @ to_be16 (di_individual_address d) @ to_be16 (di_project_installation_identifier d) @ di_serial_number d
    @ routing_multicast_address d @ mac_address d
    @ map latin1 (take 30 (friendly_name d)) @ replicate (30 - length (friendly_name d)) 0"
proof -
  let ?h = "[54, 1, knx_medium_u8 (medium d), of_bool (programming_mode d)]"
  let ?a = "?h @ to_be16 (di_individual_address d)"
  let ?p = "?a @ to_be16 (di_project_installation_identifier d)"
  let ?s = "?p @ di_serial_number d" let ?r = "?s @ routing_multicast_address d" let ?m = "?r @ mac_address d"
  let ?n = "map latin1 (take 30 (friendly_name d))"
  have l: "length (di_serial_number d) = 6" "length (routing_multicast_address d) = 4" "length (mac_address d) = 6"
    using assms by (simp_all add: device_information_ok_def)
  have h: "(replicate 54 0)[0 := 54, 1 := 1, 2 := knx_medium_u8 (medium d), 3 := of_bool (programming_mode d)] = ?h @ replicate 50 (0::u8)"
  proof -
    have "replicate 54 (0::u8) = [0, 0, 0, 0] @ replicate 50 0"
      by (simp add: numeral_eq_Suc)
    then show ?thesis by (simp add: numeral_eq_Suc)
  qed
  have "device_information_to_bytes d = buf_write 24 ?n (buf_write 18 (mac_address d) (buf_write 14 (routing_multicast_address d)
      (buf_write 8 (di_serial_number d) (buf_write 6 (to_be16 (di_project_installation_identifier d))
      (buf_write 4 (to_be16 (di_individual_address d)) (?h @ replicate 50 0))))))"
    unfolding h [symmetric] by (simp add: device_information_to_bytes_def device_info_offsets Let_def)
  also have "buf_write 4 (to_be16 (di_individual_address d)) (?h @ replicate 50 0) = ?a @ replicate 48 0"
    by (subst buf_write_at [where n = 2]) simp_all
  also have "buf_write 6 (to_be16 (di_project_installation_identifier d)) \<dots> = ?p @ replicate 46 0"
    by (subst buf_write_at [where n = 2]) simp_all
  also have "buf_write 8 (di_serial_number d) \<dots> = ?s @ replicate 40 0"
    by (subst buf_write_at [where n = 6]) (simp_all add: l)
  also have "buf_write 14 (routing_multicast_address d) \<dots> = ?r @ replicate 36 0"
    by (subst buf_write_at [where n = 4]) (simp_all add: l)
  also have "buf_write 18 (mac_address d) \<dots> = ?m @ replicate 30 0"
    by (subst buf_write_at [where n = 6]) (simp_all add: l)
  also have "buf_write 24 ?n \<dots> = (?m @ ?n) @ replicate (30 - min (length (friendly_name d)) 30) 0"
    by (subst buf_write_at [where n = "min (length (friendly_name d)) 30"]) (simp_all add: l)
  also have "30 - min (length (friendly_name d)) 30 = 30 - length (friendly_name d)" by simp
  finally show ?thesis by simp
qed

lemma families_block: "dib_block (supported_service_families_dib fs)"
  "supported_service_families_dib fs ! 1 = 2"
  "dib_info \<lparr>dib_bytes = supported_service_families_dib fs\<rparr> =
     concat (map (\<lambda>(f, v). [service_family_u8 f, v]) (take 126 fs))"
proof -
  have n: "length (concat (map (\<lambda>(f, v). [service_family_u8 f, v]) xs)) = 2 * length xs" for xs
    by (induction xs) auto
  have t: "take (min (length fs) 126) fs = take 126 fs" by (simp add: min_def)
  have b: "supported_service_families_dib fs = [of_nat (2 + 2 * min (length fs) 126), 2]
      @ concat (map (\<lambda>(f, v). [service_family_u8 f, v]) (take 126 fs))"
    by (simp add: supported_service_families_dib_def Let_def MAX_SERVICE_FAMILIES_def DIB_HEADER_LEN_def t min_def
        del: of_nat_add of_nat_mult)
  have u: "unat (of_nat (2 + 2 * min (length fs) 126) :: u8) = 2 + 2 * min (length fs) 126"
    by (rule unat_octet) simp
  show "dib_block (supported_service_families_dib fs)"
    unfolding dib_block_def b using u n [of "take 126 fs"] by (simp add: min.commute del: of_nat_add of_nat_mult)
  show "supported_service_families_dib fs ! 1 = 2" by (simp add: b)
  show "dib_info \<lparr>dib_bytes = supported_service_families_dib fs\<rparr> =
     concat (map (\<lambda>(f, v). [service_family_u8 f, v]) (take 126 fs))"
    by (simp add: dib_info_def b DIB_HEADER_LEN_def)
qed

lemma information_block:
  assumes "device_information_ok d"
  shows "dib_block (device_information_to_bytes d)" "device_information_to_bytes d ! 1 = 1"
    "length (device_information_to_bytes d) = 54"
proof -
  show "length (device_information_to_bytes d) = 54"
    using assms by (simp add: device_information_octets device_information_ok_def)
  then show "dib_block (device_information_to_bytes d)"
    by (simp add: dib_block_def device_information_octets [OF assms])
qed (simp add: device_information_octets [OF assms])

lemma information_fields:
  assumes "device_information_ok d"
  defines "v \<equiv> \<lparr>did_dib = \<lparr>dib_bytes = device_information_to_bytes d\<rparr>\<rparr>"
  shows "knx_medium v = Some (medium d)" "is_programming_mode v = programming_mode d"
    "did_individual_address v = di_individual_address d"
    "project_installation_identifier v = di_project_installation_identifier d"
    "did_serial_number v = di_serial_number d" "did_routing_multicast_address v = routing_multicast_address d"
    "did_mac_address v = mac_address d"
    "friendly_name_bytes v = map latin1 (take 30 (friendly_name d)) @ replicate (30 - length (friendly_name d)) 0"
  using assms(1)
  by (simp_all add: v_def did_octet_def did_octets_def device_information_octets [OF assms(1)] device_info_offsets
      device_information_ok_def knx_medium_def knx_medium_raw_def is_programming_mode_def device_status_def
      did_individual_address_def project_installation_identifier_def did_serial_number_def
      did_routing_multicast_address_def did_mac_address_def friendly_name_bytes_def nth_append nth_Cons_numeral
      to_be16_def buf_slice_def)

lemma latin1_name:
  "map ucast (takeWhile (\<lambda>b. b \<noteq> 0) (map latin1 xs @ replicate n 0)) =
    map (\<lambda>c. if c \<le> 0xFF then c else 0x3F) (takeWhile (\<lambda>c. c \<noteq> 0) (xs :: u32 list))"
proof (induction xs)
  case (Cons c xs)
  have small: "ucast (ucast c :: u8) = c" if "c \<le> 0xFF"
  proof -
    have "(0xFF :: u32) = mask 8" by (simp add: mask_eq_exp_minus_1)
    with that have "bit c n \<Longrightarrow> n < 8" for n using le_mask_bits by metis
    then show ?thesis by (intro bit_word_eqI) (auto simp: bit_simps)
  qed
  then have "latin1 c = 0 \<longleftrightarrow> c = 0"
    by (auto simp: latin1_def)
  with Cons small show ?case by (auto simp: latin1_def)
qed (cases n; simp)

text \<open>A device information block and a families block, read back.\<close>

lemma description_blocks:
  fixes d :: DeviceInformation and fs :: "(ServiceFamily \<times> u8) list"
  assumes "device_information_ok d"
  defines "bytes \<equiv> device_information_to_bytes d @ supported_service_families_dib fs"
  shows "dib_sequence_parse bytes = Inr \<lparr>ds_bytes = bytes\<rparr>"
    and "dib_get DeviceInformation \<lparr>ds_bytes = bytes\<rparr> = Some \<lparr>dib_bytes = device_information_to_bytes d\<rparr>"
    and "dib_get SupportedServiceFamilies \<lparr>ds_bytes = bytes\<rparr> = Some \<lparr>dib_bytes = supported_service_families_dib fs\<rparr>"
    and "device_information_parse \<lparr>dib_bytes = device_information_to_bytes d\<rparr> =
      Inr \<lparr>did_dib = \<lparr>dib_bytes = device_information_to_bytes d\<rparr>\<rparr>"
proof -
  let ?bl = "[device_information_to_bytes d, supported_service_families_dib fs]"
  note b = information_block [OF assms(1)] families_block [of fs]
  have bl: "list_all dib_block ?bl" "distinct (map (\<lambda>b. b ! 1) ?bl)" "bytes = concat ?bl" using b by (simp_all add: bytes_def)
  show "dib_sequence_parse bytes = Inr \<lparr>ds_bytes = bytes\<rparr>" using bl unfolding dib_sequence_accepts by blast
  have g: "dib_collect bytes = Some (map (\<lambda>b. \<lparr>dib_bytes = b\<rparr>) ?bl)"
    unfolding bl(3) by (rule dib_collect_concat [OF bl(1)])
  show "dib_get DeviceInformation \<lparr>ds_bytes = bytes\<rparr> = Some \<lparr>dib_bytes = device_information_to_bytes d\<rparr>"
    "dib_get SupportedServiceFamilies \<lparr>ds_bytes = bytes\<rparr> = Some \<lparr>dib_bytes = supported_service_families_dib fs\<rparr>"
    using g b by (simp_all add: dib_get_def dib_get_raw_def description_type_raw_def)
  show "device_information_parse \<lparr>dib_bytes = device_information_to_bytes d\<rparr> =
      Inr \<lparr>did_dib = \<lparr>dib_bytes = device_information_to_bytes d\<rparr>\<rparr>"
    using b by (simp add: description_type_raw_def device_information_parse_def dib_structure_length_def device_info_offsets)
qed

text \<open>
  What a server writes into a description, the device information block followed by the
  supported service families, a client reads back: the sequence is accepted, the device information
  is found in it with the medium, programming mode, addresses, serial number and MAC address it was built
  from, and the families block holds the pairs given, at most 126. The name comes back up to its
  first zero and cut after thirty characters, with a question mark for each character
  outside ISO 8859-1.
\<close>
lemma device_information_roundtrip:
  assumes "device_information_ok d"
  shows "\<exists>v s. device_information_find_in (device_information_to_bytes d @ supported_service_families_dib fs) = Inr (Some v) \<and>
    knx_medium v = Some (medium d) \<and> is_programming_mode v = programming_mode d \<and>
    did_individual_address v = di_individual_address d \<and>
    project_installation_identifier v = di_project_installation_identifier d \<and>
    did_serial_number v = di_serial_number d \<and> did_routing_multicast_address v = routing_multicast_address d \<and>
    did_mac_address v = mac_address d \<and>
    did_friendly_name v = map (\<lambda>c. if c \<le> 0xFF then c else 0x3F) (takeWhile (\<lambda>c. c \<noteq> 0) (take 30 (friendly_name d))) \<and>
    dib_get SupportedServiceFamilies s = Some \<lparr>dib_bytes = supported_service_families_dib fs\<rparr> \<and>
    dib_sequence_parse (device_information_to_bytes d @ supported_service_families_dib fs) = Inr s \<and>
    dib_info \<lparr>dib_bytes = supported_service_families_dib fs\<rparr> =
      concat (map (\<lambda>(f, version). [service_family_u8 f, version]) (take 126 fs))"
proof -
  let ?s = "\<lparr>ds_bytes = device_information_to_bytes d @ supported_service_families_dib fs\<rparr>"
  let ?v = "\<lparr>did_dib = \<lparr>dib_bytes = device_information_to_bytes d\<rparr>\<rparr>"
  have "did_friendly_name ?v = map (\<lambda>c. if c \<le> 0xFF then c else 0x3F) (takeWhile (\<lambda>c. c \<noteq> 0) (take 30 (friendly_name d)))"
    by (simp add: did_friendly_name_def information_fields [OF assms] latin1_name)
  then show ?thesis
    using description_blocks(1-3) [OF assms, of fs] description_blocks(4) [OF assms] information_fields [OF assms] families_block(3) [of fs]
    by (intro exI [of _ ?v] exI [of _ ?s]) (simp add: device_information_find_in_def)
qed

definition sample_information :: DeviceInformation where
  "sample_information = \<lparr>medium = MediumIp, programming_mode = True, di_individual_address = 0x1101,
     di_project_installation_identifier = 0, di_serial_number = [0, 250, 0, 0, 0, 1],
     routing_multicast_address = [224, 0, 23, 12], mac_address = [1, 2, 3, 4, 5, 6], friendly_name = [75, 78, 88]\<rparr>"

end
