(* ===== verification/Knxip_Srp.thy ===== *)
theory Knxip_Srp
  imports Knxip_Dib
begin

text \<open>
  Search request parameters (\<^verbatim>\<open>knx-rs-core/src/knxip/srp.rs\<close>): the length-prefixed structures that
  follow the discovery endpoint of an extended search request, and their builders.
\<close>

section \<open>Parameters\<close>

definition SRP_HEADER_LEN :: nat where "SRP_HEADER_LEN = 2"
definition MANDATORY_FLAG :: u8 where "MANDATORY_FLAG = 0x80"
definition TYPE_MASK :: u8 where "TYPE_MASK = 0x7F"
definition MAC_ADDRESS_DATA_LEN :: nat where "MAC_ADDRESS_DATA_LEN = 6"
definition SERVICE_DATA_LEN :: nat where "SERVICE_DATA_LEN = 2"

datatype SrpType = SrpInvalid | SelectByProgrammingMode | SelectByMacAddress | SelectByService | RequestDibs

definition srp_type_from_raw :: "u8 \<Rightarrow> SrpType option" where
  "srp_type_from_raw raw = map_of [(0x00, SrpInvalid), (0x01, SelectByProgrammingMode), (0x02, SelectByMacAddress),
     (0x03, SelectByService), (0x04, RequestDibs)] raw"

fun srp_type_u8 :: "SrpType \<Rightarrow> u8" where
  "srp_type_u8 SrpInvalid = 0x00"
| "srp_type_u8 SelectByProgrammingMode = 0x01"
| "srp_type_u8 SelectByMacAddress = 0x02"
| "srp_type_u8 SelectByService = 0x03"
| "srp_type_u8 RequestDibs = 0x04"

datatype SrpParseError = SrpTooShort nat | LengthBelowHeader nat | LengthExceedsData nat nat

record Srp =
  srp_bytes :: "u8 list"

definition is_mandatory :: "Srp \<Rightarrow> bool" where
  "is_mandatory s \<longleftrightarrow> srp_bytes s ! 1 AND MANDATORY_FLAG \<noteq> 0"

definition srp_type_raw :: "Srp \<Rightarrow> u8" where
  "srp_type_raw s = srp_bytes s ! 1 AND TYPE_MASK"

definition srp_type :: "Srp \<Rightarrow> SrpType option" where
  "srp_type s = srp_type_from_raw (srp_type_raw s)"

definition srp_data :: "Srp \<Rightarrow> u8 list" where
  "srp_data s = drop SRP_HEADER_LEN (srp_bytes s)"

section \<open>Sequences\<close>

definition srp_split_first :: "u8 list \<Rightarrow> SrpParseError + Srp \<times> u8 list" where
  "srp_split_first bytes =
     (if length bytes < SRP_HEADER_LEN then Inl (SrpTooShort (length bytes))
      else let len = unat (bytes ! 0) in
        if len < SRP_HEADER_LEN then Inl (LengthBelowHeader len)
        else if len > length bytes then Inl (LengthExceedsData len (length bytes))
        else Inr (\<lparr>srp_bytes = take len bytes\<rparr>, drop len bytes))"

lemma srp_split_shorter: "srp_split_first bs = Inr (s, t) \<Longrightarrow> bs \<noteq> [] \<and> length t < length bs"
  by (auto simp: srp_split_first_def SRP_HEADER_LEN_def Let_def split: if_splits)

record SrpSequence =
  ss_bytes :: "u8 list"

function srp_check :: "u8 list \<Rightarrow> SrpParseError + unit" where
  "srp_check rest =
     (if rest = [] then Inr ()
      else case srp_split_first rest of Inl e \<Rightarrow> Inl e | Inr (_, tail) \<Rightarrow> srp_check tail)"
  by pat_completeness auto

termination srp_check
  by (relation "measure length") (auto dest: srp_split_shorter)

definition srp_sequence_parse :: "u8 list \<Rightarrow> SrpParseError + SrpSequence" where
  "srp_sequence_parse bytes = bind_res (srp_check bytes) (\<lambda>_. Inr \<lparr>ss_bytes = bytes\<rparr>)"

text \<open>The iterator ends at the first structure it can not split off.\<close>

function srp_iter :: "u8 list \<Rightarrow> Srp list" where
  "srp_iter rest =
     (if rest = [] then []
      else case srp_split_first rest of Inl _ \<Rightarrow> [] | Inr (s, tail) \<Rightarrow> s # srp_iter tail)"
  by pat_completeness auto

termination srp_iter
  by (relation "measure length") (auto dest: srp_split_shorter)

declare srp_check.simps [simp del] srp_iter.simps [simp del]

section \<open>Builders\<close>

definition srp_build :: "SrpType \<Rightarrow> bool \<Rightarrow> u8 list \<Rightarrow> u8 list" where
  "srp_build t mandatory data =
     (let len = SRP_HEADER_LEN + length data in
      [if len \<le> 255 then of_nat len else 0xFF, srp_type_u8 t OR (if mandatory then MANDATORY_FLAG else 0)] @ data)"

definition programming_mode_srp :: "u8 list" where
  "programming_mode_srp = srp_build SelectByProgrammingMode True []"

definition mac_address_srp :: "u8 list \<Rightarrow> u8 list" where
  "mac_address_srp mac = srp_build SelectByMacAddress True mac"

definition service_srp :: "ServiceFamily \<Rightarrow> u8 \<Rightarrow> u8 list" where
  "service_srp family minimum_version = srp_build SelectByService True [service_family_u8 family, minimum_version]"

definition request_dibs_srp :: "DibType list \<Rightarrow> u8 list option" where
  "request_dibs_srp types =
     (if types = [] then None
      else let types = take (min (length types) 252) types;
               data = map dib_type_u8 types;
               data = (if length data mod 2 = 1 then data @ [0] else data)
        in Some (srp_build RequestDibs False data))"

section \<open>What is accepted\<close>

definition srp_block :: "u8 list \<Rightarrow> bool" where
  "srp_block b \<longleftrightarrow> 2 \<le> length b \<and> unat (b ! 0) = length b"

definition srp_split :: "u8 list \<Rightarrow> SrpParseError + u8 list \<times> u8 list" where
  "srp_split bs = bind_res (srp_split_first bs) (\<lambda>(s, t). Inr (srp_bytes s, t))"

lemma srp_split_iff: "srp_split bs = Inr (b, t) \<longleftrightarrow> srp_block b \<and> bs = b @ t"
proof
  assume "srp_split bs = Inr (b, t)"
  then show "srp_block b \<and> bs = b @ t"
    by (auto simp: srp_split_def srp_split_first_def SRP_HEADER_LEN_def srp_block_def Let_def result_simps split: if_splits)
qed (auto simp: srp_split_def srp_split_first_def SRP_HEADER_LEN_def srp_block_def Let_def nth_append)

interpretation srps: block_splitter srp_split srp_block
  by unfold_locales (auto simp: srp_split_iff srp_block_def)

lemma srp_step: "srp_block b \<Longrightarrow> srp_split_first (b @ t) = Inr (\<lparr>srp_bytes = b\<rparr>, t)"
  by (auto simp: srp_split_first_def SRP_HEADER_LEN_def srp_block_def Let_def nth_append)

lemma srp_concat:
  assumes "list_all srp_block bl"
  shows "srp_check (concat bl) = Inr ()" "srp_iter (concat bl) = map (\<lambda>b. \<lparr>srp_bytes = b\<rparr>) bl"
  using assms
proof (induction bl)
  case (Cons b bl)
  { case 1 then show ?case
      using Cons.IH by (subst srp_check.simps) (auto simp: srp_step srp_block_def) }
  { case 2 then show ?case
      using Cons.IH by (subst srp_iter.simps) (auto simp: srp_step srp_block_def) }
qed (simp_all add: srp_check.simps srp_iter.simps)

lemma srp_check_blocks: "srp_check bytes = Inr () \<Longrightarrow> \<exists>bl. list_all srp_block bl \<and> bytes = concat bl"
proof (induction bytes rule: srp_check.induct)
  case (1 rest)
  show ?case
  proof (cases "rest = []")
    case False
    with 1(2) obtain s t where s: "srp_split_first rest = Inr (s, t)" "srp_check t = Inr ()"
      by (subst (asm) srp_check.simps) (auto split: sum.splits)
    then have "srp_split rest = Inr (srp_bytes s, t)" by (simp add: srp_split_def)
    then have b: "srp_block (srp_bytes s)" "rest = srp_bytes s @ t" by (simp_all add: srp_split_iff)
    from 1(1) [OF False s(1) refl s(2)] obtain bl where "list_all srp_block bl" "t = concat bl" by blast
    with b show ?thesis by (intro exI [of _ "srp_bytes s # bl"]) simp
  qed (simp add: exI [of _ "[]"])
qed

lemma srp_build_block:
  assumes "length d \<le> 253"
  shows "srp_block (srp_build t m d)" "srp_data \<lparr>srp_bytes = srp_build t m d\<rparr> = d"
    "srp_type \<lparr>srp_bytes = srp_build t m d\<rparr> = Some t" "is_mandatory \<lparr>srp_bytes = srp_build t m d\<rparr> = m"
proof -
  have "unat (of_nat (2 + length d) :: u8) = 2 + length d"
    using assms by (intro unat_octet) simp
  then show "srp_block (srp_build t m d)"
    using assms by (simp add: srp_block_def srp_build_def SRP_HEADER_LEN_def Let_def del: of_nat_add)
  show "srp_data \<lparr>srp_bytes = srp_build t m d\<rparr> = d"
    by (simp add: srp_data_def srp_build_def SRP_HEADER_LEN_def Let_def)
  show "srp_type \<lparr>srp_bytes = srp_build t m d\<rparr> = Some t" "is_mandatory \<lparr>srp_bytes = srp_build t m d\<rparr> = m"
    by (cases t; cases m; simp add: srp_type_def srp_type_raw_def is_mandatory_def srp_build_def TYPE_MASK_def
        MANDATORY_FLAG_def srp_type_from_raw_def Let_def)+
qed

text \<open>
  A buffer is accepted as a sequence of search request parameters exactly when it is the
  concatenation of structures of at least two octets that carry their own length; the iteration then
  gives exactly these. A request built from a programming mode, a MAC address, a service and a
  description parameter is accepted, and each parameter is read back with its type, its
  mandatory flag and its data; the list of descriptions is padded to an even length.
\<close>
lemma srp_sequence:
  assumes "request_dibs_srp types = Some r" and "length mac = 6" and "length types \<le> 252"
  shows "(srp_sequence_parse bytes = Inr s \<longleftrightarrow> s = \<lparr>ss_bytes = bytes\<rparr> \<and> (\<exists>bl. list_all srp_block bl \<and> bytes = concat bl)) \<and>
    (list_all srp_block bl \<longrightarrow> srp_iter (concat bl) = map (\<lambda>b. \<lparr>srp_bytes = b\<rparr>) bl) \<and>
    map (\<lambda>p. (srp_type p, is_mandatory p, srp_data p))
      (srp_iter (programming_mode_srp @ mac_address_srp mac @ service_srp family version @ r)) =
    [(Some SelectByProgrammingMode, True, []), (Some SelectByMacAddress, True, mac),
     (Some SelectByService, True, [service_family_u8 family, version]),
     (Some RequestDibs, False, map dib_type_u8 types @ (if even (length types) then [] else [0]))]"
proof -
  let ?d = "map dib_type_u8 types @ (if even (length types) then [] else [0])"
  have t: "take (min (length types) 252) types = types" using assms(3) by simp
  have r: "r = srp_build RequestDibs False ?d"
    using assms(1) unfolding request_dibs_srp_def t by (auto simp: Let_def odd_iff_mod_2_eq_one split: if_splits)
  have l: "length ?d \<le> 253" using assms(3) by simp
  let ?bl = "[programming_mode_srp, mac_address_srp mac, service_srp family version, r]"
  have "list_all srp_block ?bl"
    using l assms(2) by (simp add: programming_mode_srp_def mac_address_srp_def service_srp_def r srp_build_block)
  from srp_concat(2) [OF this]
  have "srp_iter (programming_mode_srp @ mac_address_srp mac @ service_srp family version @ r) = map (\<lambda>b. \<lparr>srp_bytes = b\<rparr>) ?bl"
    by simp
  then show ?thesis
    using srp_concat srp_check_blocks [of bytes] l assms(2)
    by (auto simp: srp_sequence_parse_def result_simps programming_mode_srp_def mac_address_srp_def service_srp_def r srp_build_block)
qed

end
