(* ===== verification/Ip_Server.thy ===== *)
theory Ip_Server
  imports Ip_Net Knxip_Srp
begin

text \<open>
  The KNXnet/IP device server (\<^verbatim>\<open>knx-rs-ip/src/tunnel_server.rs\<close>): its clients with their queues and
  the frame on the wire, the events on their way to the application, the description it answers
  searches with, and one function per handler. A handler threads the list of datagrams sent;
  the state of the event channel, the outcome of a send and the clock are the environment
  of its step.
\<close>

definition MAX_TUNNELS :: nat where "MAX_TUNNELS = 4"
definition TUNNEL_TIMEOUT_MS :: nat where "TUNNEL_TIMEOUT_MS = 120 * 1000"
definition MAX_EVENT_BACKLOG :: nat where "MAX_EVENT_BACKLOG = 1024"
definition MAX_CLIENT_QUEUE :: nat where "MAX_CLIENT_QUEUE = 128"
definition REQUEST_TIMEOUT_MS :: nat where "REQUEST_TIMEOUT_MS = 1 * 1000"
definition MAX_RETRIES :: u8 where "MAX_RETRIES = 3"

section \<open>Clients\<close>

record InFlight =
  if_sequence :: u8
  if_datagram :: "u8 list"
  if_attempts :: u8
  if_deadline :: nat
  if_last_error :: "string option"

record TunnelClient =
  tc_channel_id :: u8
  tc_ctrl_addr :: SocketAddr
  tc_data_addr :: SocketAddr
  tc_send_seq :: u8
  tc_recv_seq :: u8
  tc_last_heartbeat :: nat
  tc_outbox :: "u8 list list"
  tc_in_flight :: "InFlight option"
  tc_overflow_reported :: bool

definition tunnel_client_new :: "u8 \<Rightarrow> SocketAddr \<Rightarrow> SocketAddr \<Rightarrow> nat \<Rightarrow> TunnelClient" where
  "tunnel_client_new ch ctrl_addr data_addr now =
     \<lparr>tc_channel_id = ch, tc_ctrl_addr = ctrl_addr, tc_data_addr = data_addr, tc_send_seq = 0, tc_recv_seq = 0,
      tc_last_heartbeat = now, tc_outbox = [], tc_in_flight = None, tc_overflow_reported = False\<rparr>"

definition tunnel_enqueue :: "u8 list \<Rightarrow> TunnelClient \<Rightarrow> TunnelClient" where
  "tunnel_enqueue cemi t =
     (let t = (if MAX_CLIENT_QUEUE \<le> length (tc_outbox t)
               then t\<lparr>tc_outbox := tl (tc_outbox t), tc_overflow_reported := True\<rparr> else t)
      in t\<lparr>tc_outbox := tc_outbox t @ [cemi]\<rparr>)"

text \<open>The attempt counter is an octet that the code increments without wrapping.\<close>

definition transmit :: "IpEnv \<Rightarrow> TunnelClient \<Rightarrow> Sent \<Rightarrow> TunnelClient \<times> Sent" where
  "transmit env t sent =
     (case tc_in_flight t of
        None \<Rightarrow> (t, sent)
      | Some f \<Rightarrow>
          let f = f\<lparr>if_attempts := if_attempts f + 1, if_deadline := env_now env + REQUEST_TIMEOUT_MS\<rparr>;
              (err, sent) = send_to env (if_datagram f) (tc_data_addr t) sent
          in (t\<lparr>tc_in_flight := Some (f\<lparr>if_last_error := err\<rparr>)\<rparr>, sent))"

text \<open>The loop of \<open>pump\<close>: the next frame that can be written, and the frames behind it.\<close>

fun pump_next :: "u8 \<Rightarrow> u8 \<Rightarrow> u8 list list \<Rightarrow> (u8 list \<times> u8 list list) option" where
  "pump_next ch sequence [] = None"
| "pump_next ch sequence (cemi # rest) =
     (case serialize_frame (tunneling_request ch sequence cemi) of
        Some datagram \<Rightarrow> Some (datagram, rest)
      | None \<Rightarrow> pump_next ch sequence rest)"

definition pump :: "IpEnv \<Rightarrow> TunnelClient \<Rightarrow> Sent \<Rightarrow> TunnelClient \<times> Sent" where
  "pump env t sent =
     (if tc_in_flight t \<noteq> None then (t, sent)
      else let sequence = tc_send_seq t in
        case pump_next (tc_channel_id t) sequence (tc_outbox t) of
          None \<Rightarrow> (t\<lparr>tc_outbox := [], tc_overflow_reported := False\<rparr>, sent)
        | Some (datagram, rest) \<Rightarrow>
            transmit env (t\<lparr>tc_outbox := rest, tc_in_flight := Some
              \<lparr>if_sequence = sequence, if_datagram = datagram, if_attempts = 0, if_deadline = env_now env,
               if_last_error = None\<rparr>\<rparr>) sent)"

definition tunnel_offer :: "IpEnv \<Rightarrow> u8 list \<Rightarrow> TunnelClient \<Rightarrow> Sent \<Rightarrow> TunnelClient \<times> Sent" where
  "tunnel_offer env cemi t sent = pump env (tunnel_enqueue cemi t) sent"

section \<open>The device description\<close>

record DeviceDescription =
  dd_name :: "u32 list"
  dd_individual_address :: IndividualAddress
  dd_serial_number :: "u8 list"
  dd_mac_address :: "u8 list"
  dd_medium :: KnxMedium
  dd_project_installation_identifier :: u16
  dd_programming_mode :: bool

definition device_description_new :: "u32 list \<Rightarrow> IndividualAddress \<Rightarrow> u8 list \<Rightarrow> u8 list \<Rightarrow> DeviceDescription" where
  "device_description_new name individual_address serial_number mac =
     \<lparr>dd_name = name, dd_individual_address = individual_address, dd_serial_number = serial_number,
      dd_mac_address = mac, dd_medium = MediumIp, dd_project_installation_identifier = 0, dd_programming_mode = False\<rparr>"

definition families :: "bool \<Rightarrow> (ServiceFamily \<times> u8) list" where
  "families routing =
     (let families = [(FamilyCore, 1), (FamilyTunneling, 1)]
      in if routing then families @ [(FamilyRouting, 1)] else families)"

definition description_information :: "DeviceDescription \<Rightarrow> bool \<Rightarrow> DeviceInformation" where
  "description_information d routing =
     \<lparr>medium = dd_medium d, programming_mode = dd_programming_mode d,
      di_individual_address = ia_raw (dd_individual_address d),
      di_project_installation_identifier = dd_project_installation_identifier d,
      di_serial_number = dd_serial_number d,
      routing_multicast_address = (if routing then KNX_MULTICAST_ADDR else [0, 0, 0, 0]),
      mac_address = dd_mac_address d, friendly_name = dd_name d\<rparr>"

definition description_dibs :: "DeviceDescription \<Rightarrow> bool \<Rightarrow> u8 list" where
  "description_dibs d routing =
     device_information_to_bytes (description_information d routing) @ supported_service_families_dib (families routing)"

text \<open>\<open>Some True\<close>: satisfied, \<open>Some False\<close>: understood but not satisfied, \<open>None\<close>: not understood.\<close>

definition srp_satisfied :: "DeviceDescription \<Rightarrow> bool \<Rightarrow> Srp \<Rightarrow> bool option" where
  "srp_satisfied d routing srp =
     (let data = srp_data srp in
      case srp_type srp of
        Some SelectByProgrammingMode \<Rightarrow> if data = [] then Some (dd_programming_mode d) else None
      | Some SelectByMacAddress \<Rightarrow> if length data = 6 then Some (data = dd_mac_address d) else None
      | Some SelectByService \<Rightarrow>
          if length data = 2
          then Some (list_ex (\<lambda>(family, version). service_family_u8 family = data ! 0 \<and> version \<ge> data ! 1) (families routing))
          else None
      | Some RequestDibs \<Rightarrow> if data \<noteq> [] then Some True else None
      | _ \<Rightarrow> None)"

definition answers_extended_search :: "DeviceDescription \<Rightarrow> u8 list \<Rightarrow> bool \<Rightarrow> bool" where
  "answers_extended_search d srps routing =
     (case srp_sequence_parse srps of
        Inl _ \<Rightarrow> False
      | Inr s \<Rightarrow> list_all (\<lambda>srp. \<not> (srp_satisfied d routing srp \<noteq> Some True \<and> is_mandatory srp)) (srp_iter (ss_bytes s)))"

section \<open>Events\<close>

datatype ServerEvent = TunnelFrame CemiFrame | RoutingFrame CemiFrame

text \<open>\<open>eq_taken\<close> is what the channel to the application took, in order.\<close>

record EventQueue =
  eq_taken :: "ServerEvent list"
  eq_backlog :: "ServerEvent list"

definition event_push :: "IpEnv \<Rightarrow> ServerEvent \<Rightarrow> EventQueue \<Rightarrow> EventQueue" where
  "event_push env event q =
     (if eq_backlog q = [] then
        (case env_channel env of
           ChannelOpen \<Rightarrow> q\<lparr>eq_taken := eq_taken q @ [event]\<rparr>
         | ChannelClosed \<Rightarrow> q
         | ChannelFull \<Rightarrow> q\<lparr>eq_backlog := eq_backlog q @ [event]\<rparr>)
      else if length (eq_backlog q) < MAX_EVENT_BACKLOG then q\<lparr>eq_backlog := eq_backlog q @ [event]\<rparr>
      else q)"

definition has_room :: "EventQueue \<Rightarrow> bool" where
  "has_room q \<longleftrightarrow> length (eq_backlog q) < MAX_EVENT_BACKLOG"

definition has_backlog :: "EventQueue \<Rightarrow> bool" where
  "has_backlog q \<longleftrightarrow> eq_backlog q \<noteq> []"

text \<open>\<open>deliver\<close> waits while the channel is full.\<close>

definition event_deliver :: "IpEnv \<Rightarrow> EventQueue \<Rightarrow> EventQueue option" where
  "event_deliver env q =
     (case env_channel env of
        ChannelFull \<Rightarrow> None
      | ChannelOpen \<Rightarrow> Some (case eq_backlog q of
          [] \<Rightarrow> q
        | event # rest \<Rightarrow> q\<lparr>eq_backlog := rest, eq_taken := eq_taken q @ [event]\<rparr>)
      | ChannelClosed \<Rightarrow> Some (q\<lparr>eq_backlog := []\<rparr>))"

record ServerState =
  sv_tunnels :: "TunnelClient list"
  sv_next_channel_id :: u8
  sv_events :: EventQueue
  sv_description :: "DeviceDescription option"
  sv_routing :: bool

definition server_init :: "DeviceDescription option \<Rightarrow> SocketAddr option \<Rightarrow> ServerState" where
  "server_init d multicast_target =
     \<lparr>sv_tunnels = [], sv_next_channel_id = 1, sv_events = \<lparr>eq_taken = [], eq_backlog = []\<rparr>,
      sv_description = d, sv_routing = (multicast_target \<noteq> None)\<rparr>"

definition set_description :: "DeviceDescription \<Rightarrow> ServerState \<Rightarrow> ServerState" where
  "set_description d s = s\<lparr>sv_description := Some d\<rparr>"

section \<open>Discovery\<close>

definition reply_endpoint :: "u8 list \<Rightarrow> SocketAddr \<Rightarrow> SocketAddr option" where
  "reply_endpoint bdy src =
     (case hpai_parse bdy of
        None \<Rightarrow> None
      | Some h \<Rightarrow> if protocol h = Ipv4Udp then Some (hpai_to_socket_addr h src) else None)"

definition source_address_towards :: "IpEnv \<Rightarrow> SocketAddr \<Rightarrow> u8 list option" where
  "source_address_towards env target =
     (case env_probe env target of
        Some (V4 local _) \<Rightarrow> if local \<noteq> UNSPECIFIED then Some local else None
      | _ \<Rightarrow> None)"

definition control_endpoint :: "IpEnv \<Rightarrow> SocketAddr \<Rightarrow> Hpai" where
  "control_endpoint env requester =
     (let p = local_port env in
      case requester of
        V6 _ _ _ _ \<Rightarrow> nat_udp p
      | V4 _ _ \<Rightarrow>
          let addr = (case env_local_addr env of
              Some (V4 bound _) \<Rightarrow> if bound \<noteq> UNSPECIFIED then Some bound else source_address_towards env requester
            | _ \<Rightarrow> source_address_towards env requester)
          in case addr of None \<Rightarrow> nat_udp p | Some i \<Rightarrow> \<lparr>protocol = Ipv4Udp, ip = i, port = p\<rparr>)"

definition handle_search :: "IpEnv \<Rightarrow> SocketAddr \<Rightarrow> KnxIpFrame \<Rightarrow> ServerState \<Rightarrow> Sent \<Rightarrow> Sent" where
  "handle_search env src frame s sent =
     (case sv_description s of
        None \<Rightarrow> sent
      | Some d \<Rightarrow> (case reply_endpoint (body frame) src of
          None \<Rightarrow> sent
        | Some reply_to \<Rightarrow>
            let response = search_response (control_endpoint env src) (description_dibs d (sv_routing s))
            in send_frame_to env response reply_to sent))"

definition handle_search_extended :: "IpEnv \<Rightarrow> SocketAddr \<Rightarrow> KnxIpFrame \<Rightarrow> ServerState \<Rightarrow> Sent \<Rightarrow> Sent" where
  "handle_search_extended env src frame s sent =
     (case sv_description s of
        None \<Rightarrow> sent
      | Some d \<Rightarrow> (case reply_endpoint (body frame) src of
          None \<Rightarrow> sent
        | Some reply_to \<Rightarrow>
            let parameters = drop (unat HPAI_LEN) (body frame) in
            if \<not> answers_extended_search d parameters (sv_routing s) then sent
            else let response = search_response_extended (control_endpoint env src) (description_dibs d (sv_routing s))
              in send_frame_to env response reply_to sent))"

definition handle_description :: "IpEnv \<Rightarrow> SocketAddr \<Rightarrow> KnxIpFrame \<Rightarrow> ServerState \<Rightarrow> Sent \<Rightarrow> Sent" where
  "handle_description env src frame s sent =
     (case sv_description s of
        None \<Rightarrow> sent
      | Some d \<Rightarrow> (case reply_endpoint (body frame) src of
          None \<Rightarrow> sent
        | Some reply_to \<Rightarrow>
            send_frame_to env (description_response (description_dibs d (sv_routing s))) reply_to sent))"

section \<open>Connections\<close>

text \<open>The position of the first client that satisfies a condition.\<close>

fun find_index :: "('a \<Rightarrow> bool) \<Rightarrow> 'a list \<Rightarrow> nat option" where
  "find_index P [] = None"
| "find_index P (x # xs) = (if P x then Some 0 else map_option Suc (find_index P xs))"

definition build_connect_response :: "u8 \<Rightarrow> u8 \<Rightarrow> u16 \<Rightarrow> u16 \<Rightarrow> u8 list option" where
  "build_connect_response ch st individual_addr p =
     serialize_frame \<lparr>service_type = ConnectResponse,
       body = [ch] @ [st] @ hpai_to_bytes (nat_udp p) @ tunnel_crd individual_addr\<rparr>"

definition send_bytes :: "IpEnv \<Rightarrow> u8 list option \<Rightarrow> SocketAddr \<Rightarrow> Sent \<Rightarrow> Sent" where
  "send_bytes env resp dst sent = (case resp of Some bytes \<Rightarrow> snd (send_to env bytes dst sent) | None \<Rightarrow> sent)"

definition next_id :: "u8 \<Rightarrow> u8" where
  "next_id ch = (let ch = ch + 1 in if ch = 0 then 1 else ch)"

function find_channel :: "u8 list \<Rightarrow> u8 \<Rightarrow> u16 \<Rightarrow> u8 option" where
  "find_channel ids ch attempts =
     (if ch \<in> set ids
      then let ch = next_id ch; attempts = attempts + 1
           in if attempts > 255 then None else find_channel ids ch attempts
      else Some ch)"
  by auto
termination
proof (relation "measure (\<lambda>(_, _, a). if a = - 1 then 257 else 256 - unat a)")
  fix ids :: "u8 list" and ch ch' :: u8 and a a' :: u16
  assume "a' = a + 1" "\<not> 255 < a'"
  then have "unat (a + 1) < 256" by (simp add: word_less_nat_alt)
  moreover have "a \<noteq> - 1 \<Longrightarrow> unat (a + 1) = Suc (unat a)"
    by (metis add.commute add_eq_0_iff unatSuc)
  ultimately show "((ids, ch', a'), ids, ch, a) \<in> measure (\<lambda>(_, _, a). if a = - 1 then 257 else 256 - unat a)"
    using \<open>a' = a + 1\<close> by (auto simp: add_eq_0_iff)
qed simp

declare find_channel.simps [simp del]

definition handle_connect ::
  "IpEnv \<Rightarrow> SocketAddr \<Rightarrow> KnxIpFrame \<Rightarrow> TunnelClient list \<Rightarrow> u8 \<Rightarrow> Sent \<Rightarrow> TunnelClient list \<times> u8 \<times> Sent" where
  "handle_connect env src frame tunnels next_channel_id sent =
     (if length (body frame) < 20 then (tunnels, next_channel_id, sent)
      else case hpai_parse (body frame) of None \<Rightarrow> (tunnels, next_channel_id, sent)
      | Some ctrl_hpai \<Rightarrow>
        let data_offset = unat HPAI_LEN in
        case hpai_parse (drop data_offset (body frame)) of None \<Rightarrow> (tunnels, next_channel_id, sent)
        | Some data_hpai \<Rightarrow>
          let ctrl_addr = hpai_to_socket_addr ctrl_hpai src;
              data_addr = hpai_to_socket_addr data_hpai src;
              cri_offset = data_offset + unat HPAI_LEN;
              conn_type = (if cri_offset + 1 < length (body frame) then body frame ! (cri_offset + 1) else 0);
              p = local_port env
          in if conn_type = DEVICE_MGMT_CONNECTION
             then (tunnels, next_channel_id, send_bytes env (build_connect_response 0 E_CONNECTION_TYPE 0 p) ctrl_addr sent)
             else if MAX_TUNNELS \<le> length tunnels
             then (tunnels, next_channel_id, send_bytes env (build_connect_response 0 E_NO_MORE_CONNECTIONS 0 p) ctrl_addr sent)
             else case find_channel (map tc_channel_id tunnels) next_channel_id 0 of
               None \<Rightarrow> (tunnels, next_channel_id, sent)
             | Some ch \<Rightarrow>
                 let assigned_ia = TUNNEL_IA_BASE OR ucast ch
                 in (tunnels @ [tunnel_client_new ch ctrl_addr data_addr (env_now env)], next_id ch,
                     send_bytes env (build_connect_response ch E_NO_ERROR assigned_ia p) ctrl_addr sent))"

definition handle_heartbeat ::
  "IpEnv \<Rightarrow> SocketAddr \<Rightarrow> KnxIpFrame \<Rightarrow> TunnelClient list \<Rightarrow> Sent \<Rightarrow> TunnelClient list \<times> Sent" where
  "handle_heartbeat env src frame tunnels sent =
     (if body frame = [] then (tunnels, sent)
      else let ch = body frame ! 0;
               tunnel = find_index (\<lambda>t. tc_channel_id t = ch \<and> tc_ctrl_addr t = src) tunnels;
               (tunnels, dst, st) = (case tunnel of
                   Some i \<Rightarrow> (tunnels[i := (tunnels ! i)\<lparr>tc_last_heartbeat := env_now env\<rparr>], tc_ctrl_addr (tunnels ! i), E_NO_ERROR)
                 | None \<Rightarrow> (tunnels, src, E_CONNECTION_ID))
           in (tunnels, send_frame_to env \<lparr>service_type = ConnectionStateResponse, body = [ch, st]\<rparr> dst sent))"

definition handle_disconnect ::
  "IpEnv \<Rightarrow> SocketAddr \<Rightarrow> KnxIpFrame \<Rightarrow> TunnelClient list \<Rightarrow> Sent \<Rightarrow> TunnelClient list \<times> Sent" where
  "handle_disconnect env src frame tunnels sent =
     (if body frame = [] then (tunnels, sent)
      else let ch = body frame ! 0;
               ctrl_addr = map_option tc_ctrl_addr (List.find (\<lambda>t. tc_channel_id t = ch \<and> tc_ctrl_addr t = src) tunnels);
               (tunnels, st) = (if ctrl_addr \<noteq> None then (filter (\<lambda>t. tc_channel_id t \<noteq> ch) tunnels, E_NO_ERROR)
                                else (tunnels, E_CONNECTION_ID))
           in (tunnels, send_frame_to env \<lparr>service_type = DisconnectResponse, body = [ch, st]\<rparr>
                (case ctrl_addr of Some a \<Rightarrow> a | None \<Rightarrow> src) sent))"

section \<open>Tunnelling\<close>

definition send_tunneling_ack :: "IpEnv \<Rightarrow> SocketAddr \<Rightarrow> u8 \<Rightarrow> u8 \<Rightarrow> u8 \<Rightarrow> Sent \<Rightarrow> Sent" where
  "send_tunneling_ack env dst ch sequence st sent = send_frame_to env (tunneling_ack ch sequence st) dst sent"

definition CONFIRM_FLAG :: u8 where "CONFIRM_FLAG = 0x01"

definition confirmation_of :: "CemiFrame \<Rightarrow> u8 list option" where
  "confirmation_of cemi =
     (let bytes = as_bytes cemi in
      if bytes = [] \<or> bytes ! 0 \<noteq> message_code_u8 LDataReq then None
      else if length bytes \<le> 1 then None
      else let control_1 = 2 + unat (bytes ! 1);
               confirmation = bytes[0 := message_code_u8 LDataCon]
           in if length confirmation \<le> control_1 then None
              else Some (confirmation[control_1 := confirmation ! control_1 AND NOT CONFIRM_FLAG]))"

definition as_indication :: "CemiFrame \<Rightarrow> u8 list" where
  "as_indication cemi =
     (let bytes = as_bytes cemi in
      if bytes \<noteq> [] \<and> bytes ! 0 = message_code_u8 LDataReq then bytes[0 := message_code_u8 LDataInd] else bytes)"

definition handle_tunneling_request ::
  "IpEnv \<Rightarrow> SocketAddr \<Rightarrow> KnxIpFrame \<Rightarrow> TunnelClient list \<Rightarrow> EventQueue \<Rightarrow> Sent \<Rightarrow> TunnelClient list \<times> EventQueue \<times> Sent" where
  "handle_tunneling_request env src frame tunnels q sent =
     (case connection_header_parse (body frame) of
        None \<Rightarrow> (tunnels, q, sent)
      | Some ch \<Rightarrow>
        case find_index (\<lambda>t. tc_channel_id t = channel_id ch) tunnels of
          None \<Rightarrow> (tunnels, q, send_tunneling_ack env src (channel_id ch) (sequence_counter ch) E_CONNECTION_ID sent)
        | Some i \<Rightarrow>
          let t = tunnels ! i in
          if tc_data_addr t \<noteq> src
          then (tunnels, q, send_tunneling_ack env src (channel_id ch) (sequence_counter ch) E_CONNECTION_ID sent)
          else let sent = send_tunneling_ack env (tc_data_addr t) (channel_id ch) (sequence_counter ch) E_NO_ERROR sent in
          if sequence_counter ch \<noteq> tc_recv_seq t then (tunnels, q, sent)
          else let t = t\<lparr>tc_recv_seq := tc_recv_seq t + 1\<rparr> in
          case cemi_parse (drop (unat CONNECTION_HEADER_LEN) (body frame)) of
            Inl _ \<Rightarrow> (tunnels[i := t], q, sent)
          | Inr cemi \<Rightarrow>
              let (t, sent) = (case confirmation_of cemi of
                    Some confirmation \<Rightarrow> tunnel_offer env confirmation t sent
                  | None \<Rightarrow> (t, sent))
              in (tunnels[i := t], event_push env (TunnelFrame cemi) q, sent))"

fun offer_all :: "IpEnv \<Rightarrow> u8 list \<Rightarrow> TunnelClient list \<Rightarrow> Sent \<Rightarrow> TunnelClient list \<times> Sent" where
  "offer_all env cemi [] sent = ([], sent)"
| "offer_all env cemi (t # ts) sent =
     (let (t, sent) = tunnel_offer env cemi t sent; (ts, sent) = offer_all env cemi ts sent in (t # ts, sent))"

definition send_to_all :: "IpEnv \<Rightarrow> SocketAddr option \<Rightarrow> CemiFrame \<Rightarrow> ServerState \<Rightarrow> Sent \<Rightarrow> ServerState \<times> Sent" where
  "send_to_all env multicast cemi s sent =
     (let cemi = as_indication cemi;
          sent = (case multicast of
              Some m \<Rightarrow> send_frame_to env (routing_indication cemi) m sent
            | None \<Rightarrow> sent);
          (tunnels, sent) = offer_all env cemi (sv_tunnels s) sent
      in (s\<lparr>sv_tunnels := tunnels\<rparr>, sent))"

definition send_to_tunnel_client :: "IpEnv \<Rightarrow> u8 \<Rightarrow> CemiFrame \<Rightarrow> ServerState \<Rightarrow> Sent \<Rightarrow> ServerState \<times> Sent" where
  "send_to_tunnel_client env ch cemi s sent =
     (case find_index (\<lambda>t. tc_channel_id t = ch) (sv_tunnels s) of
        None \<Rightarrow> (s, sent)
      | Some i \<Rightarrow>
          let (t, sent) = tunnel_offer env (as_indication cemi) (sv_tunnels s ! i) sent
          in (s\<lparr>sv_tunnels := (sv_tunnels s)[i := t]\<rparr>, sent))"

definition tunnel_ack :: "IpEnv \<Rightarrow> u8 \<Rightarrow> TunnelClient \<Rightarrow> Sent \<Rightarrow> TunnelClient \<times> Sent" where
  "tunnel_ack env sequence t sent =
     (if (case tc_in_flight t of Some f \<Rightarrow> if_sequence f = sequence | None \<Rightarrow> False)
      then pump env (t\<lparr>tc_in_flight := None, tc_send_seq := sequence + 1\<rparr>) sent
      else (t, sent))"

definition handle_tunneling_ack ::
  "IpEnv \<Rightarrow> SocketAddr \<Rightarrow> KnxIpFrame \<Rightarrow> TunnelClient list \<Rightarrow> Sent \<Rightarrow> TunnelClient list \<times> Sent" where
  "handle_tunneling_ack env src frame tunnels sent =
     (case connection_header_parse (body frame) of
        None \<Rightarrow> (tunnels, sent)
      | Some header \<Rightarrow>
        case find_index (\<lambda>t. tc_channel_id t = channel_id header \<and> tc_data_addr t = src) tunnels of
          None \<Rightarrow> (tunnels, sent)
        | Some i \<Rightarrow>
            let (t, sent) = tunnel_ack env (sequence_counter header) (tunnels ! i) sent
            in (tunnels[i := t], sent))"

section \<open>Deadlines\<close>

definition next_ack_deadline :: "TunnelClient list \<Rightarrow> nat option" where
  "next_ack_deadline tunnels =
     (let deadlines = List.map_filter (\<lambda>t. map_option if_deadline (tc_in_flight t)) tunnels
      in if deadlines = [] then None else Some (Min (set deadlines)))"

text \<open>A client whose acknowledgement is due is sent the frame again, or lost after the last attempt.\<close>

datatype Expiry = Waiting | SendAgain | Lost

definition ack_expiry :: "nat \<Rightarrow> TunnelClient \<Rightarrow> Expiry" where
  "ack_expiry now t =
     (case tc_in_flight t of
        None \<Rightarrow> Waiting
      | Some f \<Rightarrow> if if_deadline f > now then Waiting else if if_attempts f < MAX_RETRIES then SendAgain else Lost)"

fun expire_loop :: "IpEnv \<Rightarrow> TunnelClient list \<Rightarrow> Sent \<Rightarrow> TunnelClient list \<times> u8 list \<times> Sent" where
  "expire_loop env [] sent = ([], [], sent)"
| "expire_loop env (t # ts) sent =
     (case ack_expiry (env_now env) t of
        Waiting \<Rightarrow> let (ts, lost, sent) = expire_loop env ts sent in (t # ts, lost, sent)
      | SendAgain \<Rightarrow>
          let (t, sent) = transmit env t sent; (ts, lost, sent) = expire_loop env ts sent in (t # ts, lost, sent)
      | Lost \<Rightarrow> let (ts, lost, sent) = expire_loop env ts sent in (t # ts, tc_channel_id t # lost, sent))"

definition drop_lost_tunnel :: "IpEnv \<Rightarrow> u8 \<Rightarrow> TunnelClient list \<times> Sent \<Rightarrow> TunnelClient list \<times> Sent" where
  "drop_lost_tunnel env ch = (\<lambda>(tunnels, sent).
     case find_index (\<lambda>t. tc_channel_id t = ch) tunnels of
       None \<Rightarrow> (tunnels, sent)
     | Some position \<Rightarrow>
         (take position tunnels @ drop (Suc position) tunnels,
          send_frame_to env (ip_disconnect_request ch (nat_udp (local_port env))) (tc_ctrl_addr (tunnels ! position)) sent))"

definition expire_acks :: "IpEnv \<Rightarrow> TunnelClient list \<Rightarrow> Sent \<Rightarrow> TunnelClient list \<times> Sent" where
  "expire_acks env tunnels sent =
     (let (tunnels, lost, sent) = expire_loop env tunnels sent in fold (drop_lost_tunnel env) lost (tunnels, sent))"

definition cleanup_stale_tunnels :: "IpEnv \<Rightarrow> TunnelClient list \<Rightarrow> TunnelClient list" where
  "cleanup_stale_tunnels env tunnels =
     filter (\<lambda>t. env_now env - tc_last_heartbeat t < TUNNEL_TIMEOUT_MS) tunnels"

section \<open>The server task\<close>

definition handle_packet :: "IpEnv \<Rightarrow> u8 list \<Rightarrow> SocketAddr \<Rightarrow> ServerState \<Rightarrow> Sent \<Rightarrow> ServerState \<times> Sent" where
  "handle_packet env data src s sent =
     (case knxip_parse data of Inl _ \<Rightarrow> (s, sent)
      | Inr frame \<Rightarrow>
        case service_type frame of
          RoutingIndication \<Rightarrow> (case cemi_parse (body frame) of
              Inr cemi \<Rightarrow> (s\<lparr>sv_events := event_push env (RoutingFrame cemi) (sv_events s)\<rparr>, sent)
            | Inl _ \<Rightarrow> (s, sent))
        | ConnectRequest \<Rightarrow>
            let (tunnels, next, sent) = handle_connect env src frame (sv_tunnels s) (sv_next_channel_id s) sent
            in (s\<lparr>sv_tunnels := tunnels, sv_next_channel_id := next\<rparr>, sent)
        | ConnectionStateRequest \<Rightarrow>
            let (tunnels, sent) = handle_heartbeat env src frame (sv_tunnels s) sent in (s\<lparr>sv_tunnels := tunnels\<rparr>, sent)
        | DisconnectRequest \<Rightarrow>
            let (tunnels, sent) = handle_disconnect env src frame (sv_tunnels s) sent in (s\<lparr>sv_tunnels := tunnels\<rparr>, sent)
        | TunnelingRequest \<Rightarrow>
            let (tunnels, q, sent) = handle_tunneling_request env src frame (sv_tunnels s) (sv_events s) sent
            in (s\<lparr>sv_tunnels := tunnels, sv_events := q\<rparr>, sent)
        | TunnelingAck \<Rightarrow>
            let (tunnels, sent) = handle_tunneling_ack env src frame (sv_tunnels s) sent in (s\<lparr>sv_tunnels := tunnels\<rparr>, sent)
        | SearchRequest \<Rightarrow> (s, handle_search env src frame s sent)
        | SearchRequestExtended \<Rightarrow> (s, handle_search_extended env src frame s sent)
        | DescriptionRequest \<Rightarrow> (s, handle_description env src frame s sent)
        | _ \<Rightarrow> (s, sent))"

text \<open>
  One round of the loop of \<open>server_task\<close>: any arm that is ready may run. A datagram is read only
  while the event queue has room; an acknowledgement is due at the first deadline.
\<close>

datatype ServerInput =
    Datagram "u8 list" SocketAddr | CmdSendFrame CemiFrame | CmdSendToTunnel u8 CemiFrame
  | Deliver | AckDue | CleanupTick | SetDescription DeviceDescription

fun server_step :: "SocketAddr option \<Rightarrow> IpEnv \<Rightarrow> ServerInput \<Rightarrow> ServerState \<times> Sent \<Rightarrow> (ServerState \<times> Sent) option" where
  "server_step multicast env (Datagram data src) (s, sent) =
     (if has_room (sv_events s) then Some (handle_packet env data src s sent) else None)"
| "server_step multicast env (CmdSendFrame cemi) (s, sent) = Some (send_to_all env multicast cemi s sent)"
| "server_step multicast env (CmdSendToTunnel ch cemi) (s, sent) = Some (send_to_tunnel_client env ch cemi s sent)"
| "server_step multicast env Deliver (s, sent) =
     (if has_backlog (sv_events s)
      then map_option (\<lambda>q. (s\<lparr>sv_events := q\<rparr>, sent)) (event_deliver env (sv_events s)) else None)"
| "server_step multicast env AckDue (s, sent) =
     (case next_ack_deadline (sv_tunnels s) of
        Some d \<Rightarrow> if d \<le> env_now env
          then let (tunnels, sent) = expire_acks env (sv_tunnels s) sent in Some (s\<lparr>sv_tunnels := tunnels\<rparr>, sent)
          else None
      | None \<Rightarrow> None)"
| "server_step multicast env CleanupTick (s, sent) =
     Some (s\<lparr>sv_tunnels := cleanup_stale_tunnels env (sv_tunnels s)\<rparr>, sent)"
| "server_step multicast env (SetDescription d) (s, sent) = Some (set_description d s, sent)"

text \<open>The end of the task: the remaining clients are told.\<close>

definition server_end :: "IpEnv \<Rightarrow> ServerState \<Rightarrow> Sent \<Rightarrow> Sent" where
  "server_end env s sent =
     fold (\<lambda>t. send_frame_to env (ip_disconnect_request (tc_channel_id t) (nat_udp (local_port env))) (tc_ctrl_addr t))
       (sv_tunnels s) sent"

end
