(* ===== verification/Stop_And_Wait.thy ===== *)
theory Stop_And_Wait
  imports Prelude "HOL-Library.Sublist"
begin

text \<open>
  The contract of a stop-and-wait sender: a bounded queue of frames of which the first is on the
  wire, numbered by an octet. The locale derives, from what each single operation does, what a
  whole run shows: frames are acknowledged in the order they were offered, each once, numbered
  without gaps, and what goes out never runs ahead of the acknowledgements.
\<close>

datatype 'f SenderOp = Offer 'f | Ack u8 | Retry

fun sender_run :: "('e \<Rightarrow> 'f SenderOp \<Rightarrow> 's \<Rightarrow> 's) \<Rightarrow> ('e \<times> 'f SenderOp) list \<Rightarrow> 's \<Rightarrow> 's" where
  "sender_run step [] s = s"
| "sender_run step ((e, op) # ops) s = sender_run step ops (step e op s)"

fun offered :: "('e \<times> 'f SenderOp) list \<Rightarrow> 'f list" where
  "offered [] = []"
| "offered ((e, Offer f) # ops) = f # offered ops"
| "offered ((e, _) # ops) = offered ops"

text \<open>The frames whose acknowledgements arrive in a run.\<close>

fun confirmed_now :: "('s \<Rightarrow> 'f list) \<Rightarrow> ('s \<Rightarrow> u8) \<Rightarrow> 'f SenderOp \<Rightarrow> 's \<Rightarrow> 'f list" where
  "confirmed_now queue seq (Ack n) s = (if queue s \<noteq> [] \<and> n = seq s then [hd (queue s)] else [])"
| "confirmed_now queue seq _ s = []"

fun confirmed :: "('e \<Rightarrow> 'f SenderOp \<Rightarrow> 's \<Rightarrow> 's) \<Rightarrow> ('s \<Rightarrow> 'f list) \<Rightarrow> ('s \<Rightarrow> u8) \<Rightarrow> ('e \<times> 'f SenderOp) list \<Rightarrow> 's \<Rightarrow> 'f list" where
  "confirmed step queue seq [] s = []"
| "confirmed step queue seq ((e, op) # ops) s = confirmed_now queue seq op s @ confirmed step queue seq ops (step e op s)"

text \<open>No frame is offered while the queue is full.\<close>

fun never_full :: "('e \<Rightarrow> 'f SenderOp \<Rightarrow> 's \<Rightarrow> 's) \<Rightarrow> ('s \<Rightarrow> 'f list) \<Rightarrow> nat \<Rightarrow> ('e \<times> 'f SenderOp) list \<Rightarrow> 's \<Rightarrow> bool" where
  "never_full step queue cap [] s = True"
| "never_full step queue cap ((e, op) # ops) s \<longleftrightarrow>
     length (queue s) + length (offered [(e, op)]) \<le> cap \<and> never_full step queue cap ops (step e op s)"

lemma offered_Cons: "offered ((e, op) # ops) = offered [(e, op)] @ offered ops"
  by (cases op) simp_all

definition queue_offer :: "nat \<Rightarrow> 'f \<Rightarrow> 'f list \<Rightarrow> 'f list" where
  "queue_offer cap f q = (if length q < cap then q @ [f] else hd q # drop 2 q @ [f])"

locale stop_and_wait =
  fixes inv :: "'s \<Rightarrow> bool" and queue :: "'s \<Rightarrow> 'f list" and seq :: "'s \<Rightarrow> u8"
    and wire :: "'s \<Rightarrow> 'w list" and packet :: "'s \<Rightarrow> u8 \<Rightarrow> 'f \<Rightarrow> 'w"
    and step :: "'e \<Rightarrow> 'f SenderOp \<Rightarrow> 's \<Rightarrow> 's" and cap :: nat and fits :: "'f \<Rightarrow> bool"
  assumes cap_pos: "0 < cap"
    and inv_step: "inv s \<Longrightarrow> (\<And>f. op = Offer f \<Longrightarrow> fits f) \<Longrightarrow> inv (step e op s)"
    and offer_step: "inv s \<Longrightarrow> fits f \<Longrightarrow>
      queue (step e (Offer f) s) = queue_offer cap f (queue s) \<and> seq (step e (Offer f) s) = seq s"
    and ack_step: "inv s \<Longrightarrow> queue (step e (Ack n) s) = drop (length (confirmed_now queue seq (Ack n) s)) (queue s) \<and>
      seq (step e (Ack n) s) = seq s + of_nat (length (confirmed_now queue seq (Ack n) s))"
    and retry_step: "inv s \<Longrightarrow> queue (step e Retry s) = queue s \<and> seq (step e Retry s) = seq s"
    and packet_step: "inv s \<Longrightarrow> (\<And>f. op = Offer f \<Longrightarrow> fits f) \<Longrightarrow> packet (step e op s) = packet s"
    and wire_step: "inv s \<Longrightarrow> (\<And>f. op = Offer f \<Longrightarrow> fits f) \<Longrightarrow>
      \<exists>n. wire (step e op s) = wire s @ replicate n (packet s (seq (step e op s)) (hd (queue (step e op s)))) \<and>
        (0 < n \<longrightarrow> queue (step e op s) \<noteq> [])"
begin

lemma step_queue:
  assumes "inv s" and "\<And>f. op = Offer f \<Longrightarrow> fits f"
  shows "seq (step e op s) = seq s + of_nat (length (confirmed_now queue seq op s))"
    and "queue s \<noteq> [] \<Longrightarrow> \<exists>r. confirmed_now queue seq op s @ queue (step e op s) = hd (queue s) # r"
    and "subseq (confirmed_now queue seq op s @ queue (step e op s)) (queue s @ offered [(e, op)])"
    and "length (queue s) + length (offered [(e, op)]) \<le> cap \<Longrightarrow>
      confirmed_now queue seq op s @ queue (step e op s) = queue s @ offered [(e, op)]"
proof -
  have d: "subseq (drop 2 q) (tl q)" for q :: "'f list"
    by (cases q) (auto intro: subseq_Cons' suffix_imp_subseq suffix_drop simp: numeral_2_eq_2)
  have s: "subseq (hd q # drop 2 q) q" if "q \<noteq> []" for q :: "'f list"
    using d [of q] that by (cases q) simp_all
  note laws = offer_step [OF assms(1)] ack_step [OF assms(1)] retry_step [OF assms(1)]
  show "seq (step e op s) = seq s + of_nat (length (confirmed_now queue seq op s))"
    using laws assms(2) by (cases op) auto
  show "\<exists>r. confirmed_now queue seq op s @ queue (step e op s) = hd (queue s) # r" if "queue s \<noteq> []"
    using laws assms(2) that by (cases op; cases "queue s") (auto simp: queue_offer_def)
  show "subseq (confirmed_now queue seq op s @ queue (step e op s)) (queue s @ offered [(e, op)])"
  proof (cases op)
    case (Offer f)
    show ?thesis
      using laws(1) [OF assms(2) [OF Offer]] cap_pos s [of "queue s"] Offer
      by (cases "queue s = []") (auto simp: queue_offer_def list_emb_append_mono simp flip: append_Cons)
  next
    case (Ack n)
    then show ?thesis using laws(2) [of e n] by (cases "queue s") auto
  qed (use laws in auto)
  show "confirmed_now queue seq op s @ queue (step e op s) = queue s @ offered [(e, op)]"
    if "length (queue s) + length (offered [(e, op)]) \<le> cap"
    using laws assms(2) that by (cases op; cases "queue s") (auto simp: queue_offer_def)
qed

text \<open>A run, by induction over its operations.\<close>

abbreviation run where "run \<equiv> sender_run step"
abbreviation conf where "conf \<equiv> confirmed step queue seq"

lemma fits_step: "\<forall>f\<in>set (offered ((e, op) # ops)). fits f \<Longrightarrow> op = Offer f \<Longrightarrow> fits f"
  by simp

lemma fits_rest: "\<forall>f\<in>set (offered ((e, op) # ops)). fits f \<Longrightarrow> \<forall>f\<in>set (offered ops). fits f"
  by (cases op) simp_all

lemma run_queue:
  "inv s \<Longrightarrow> \<forall>f\<in>set (offered ops). fits f \<Longrightarrow>
   inv (run ops s) \<and> seq (run ops s) = seq s + of_nat (length (conf ops s)) \<and>
   subseq (conf ops s @ queue (run ops s)) (queue s @ offered ops) \<and>
   (never_full step queue cap ops s \<longrightarrow> conf ops s @ queue (run ops s) = queue s @ offered ops)"
proof (induction ops arbitrary: s)
  case (Cons p ops)
  obtain e op where p: "p = (e, op)" by (cases p)
  let ?s = "step e op s" and ?c = "confirmed_now queue seq op s"
  note f = fits_step [OF Cons.prems(2) [unfolded p]]
  note st = step_queue [OF Cons.prems(1) f, of op e]
  note IH = Cons.IH [OF inv_step [OF Cons.prems(1) f, where e = e and op = op] fits_rest [OF Cons.prems(2) [unfolded p]]]
  have "subseq (?c @ conf ops ?s @ queue (run ops ?s)) (?c @ queue ?s @ offered ops)"
    by (rule list_emb_append_mono) (use IH in simp_all)
  also have "subseq \<dots> (queue s @ offered [(e, op)] @ offered ops)"
    using list_emb_append_mono [OF st(3) list_emb_refl [of "offered ops"]] by simp
  finally have "subseq (conf (p # ops) s @ queue (run (p # ops) s)) (queue s @ offered (p # ops))"
    unfolding p by (subst offered_Cons) simp
  moreover have "conf (p # ops) s @ queue (run (p # ops) s) = queue s @ offered (p # ops)"
    if "never_full step queue cap (p # ops) s"
    using that st(4) IH unfolding p by (subst offered_Cons) simp
  ultimately show ?case using IH st(1) by (simp add: p)
qed simp

text \<open>What is first in the queue is first confirmed, or still first.\<close>

lemma run_head:
  "inv s \<Longrightarrow> \<forall>f\<in>set (offered ops). fits f \<Longrightarrow> queue s \<noteq> [] \<Longrightarrow>
   \<exists>r. conf ops s @ queue (run ops s) = hd (queue s) # r"
proof (induction ops arbitrary: s)
  case Nil
  then show ?case by (cases "queue s") auto
next
  case (Cons p ops)
  obtain e op where p: "p = (e, op)" by (cases p)
  let ?s = "step e op s" and ?c = "confirmed_now queue seq op s"
  note f = fits_step [OF Cons.prems(2) [unfolded p]]
  obtain r where r: "?c @ queue ?s = hd (queue s) # r"
    using step_queue(2) [OF Cons.prems(1) f Cons.prems(3), of op e] by blast
  show ?case
  proof (cases ?c)
    case Nil
    then have "queue ?s \<noteq> []" "hd (queue ?s) = hd (queue s)" using r by auto
    then show ?thesis
      using Cons.IH [OF inv_step [OF Cons.prems(1) f, where e = e and op = op] fits_rest [OF Cons.prems(2) [unfolded p]]] Nil
      by (simp add: p)
  qed (use r p in simp)
qed

text \<open>What goes out is the frame after the last confirmed one, under its number.\<close>

lemma run_wire:
  "inv s \<Longrightarrow> \<forall>f\<in>set (offered ops). fits f \<Longrightarrow>
   \<exists>ks. sorted ks \<and> (\<forall>k\<in>set ks. k \<le> length (conf ops s) \<and> k < length (conf ops s @ queue (run ops s))) \<and>
     wire (run ops s) = wire s @ map (\<lambda>k. packet s (seq s + of_nat k) ((conf ops s @ queue (run ops s)) ! k)) ks"
proof (induction ops arbitrary: s)
  case (Cons p ops)
  obtain e op where p: "p = (e, op)" by (cases p)
  let ?s = "step e op s" and ?c = "confirmed_now queue seq op s"
  let ?l = "conf ops ?s @ queue (run ops ?s)" and ?l' = "conf (p # ops) s @ queue (run (p # ops) s)"
  note f = fits_step [OF Cons.prems(2) [unfolded p]]
  note i = inv_step [OF Cons.prems(1) f, of op e] and fr = fits_rest [OF Cons.prems(2) [unfolded p]]
  obtain ks where ks: "sorted ks" "\<forall>k\<in>set ks. k \<le> length (conf ops ?s) \<and> k < length ?l"
    "wire (run ops ?s) = wire ?s @ map (\<lambda>k. packet ?s (seq ?s + of_nat k) (?l ! k)) ks"
    using Cons.IH [OF i fr] by auto
  obtain n where n: "wire ?s = wire s @ replicate n (packet s (seq ?s) (hd (queue ?s)))" "0 < n \<longrightarrow> queue ?s \<noteq> []"
    using wire_step [OF Cons.prems(1) f, of op e] by auto
  let ?ks = "replicate n (length ?c) @ map (\<lambda>k. length ?c + k) ks"
  have l: "?l' = ?c @ ?l" by (simp add: p)
  have seq: "seq ?s = seq s + of_nat (length ?c)" by (rule step_queue(1) [OF Cons.prems(1) f])
  have hd: "0 < length ?l \<and> ?l ! 0 = hd (queue ?s)" if "0 < n"
    using run_head [OF i fr] n(2) that by force
  have "sorted ?ks" using ks(1) by (auto simp: sorted_append sorted_map monoD intro: sorted_wrt_mono_rel)
  moreover have "\<forall>k\<in>set ?ks. k \<le> length (conf (p # ops) s) \<and> k < length ?l'"
    using ks(2) hd unfolding l by (auto simp: p)
  moreover have "wire (run (p # ops) s) = wire s @ map (\<lambda>k. packet s (seq s + of_nat k) (?l' ! k)) ?ks"
    using hd unfolding l
    by (auto simp: p ks(3) n(1) seq packet_step [OF Cons.prems(1) f] nth_append algebra_simps map_replicate_const)
  ultimately show ?case by blast
qed simp

end

end
