(* ===== verification/Ip_Tunnels.thy ===== *)
theory Ip_Tunnels
  imports Ip_Server Stop_And_Wait
begin

text \<open>
  The tunnels of the device server. One client is a stop-and-wait sender: \<open>client_ok\<close> is the
  invariant of its record, \<open>tunnel_queue\<close> the frames it has still to acknowledge, and the contract
  of \<open>Stop_And_Wait\<close> is interpreted on the operations of the code. \<open>server_ok\<close> is the invariant of
  the whole server, kept by every step of its task.
\<close>

section \<open>One client\<close>

text \<open>A frame fits when it can be written into a tunnelling request.\<close>

definition tunnel_fits :: "u8 list \<Rightarrow> bool" where
  "tunnel_fits cemi \<longleftrightarrow> length cemi \<le> 65525"

definition tunnel_datagram :: "u8 \<Rightarrow> u8 \<Rightarrow> u8 list \<Rightarrow> u8 list" where
  "tunnel_datagram ch sequence cemi =
     [HEADER_LEN, PROTOCOL_VERSION_10] @ to_be16 (service_type_u16 TunnelingRequest) @ to_be16 (of_nat (10 + length cemi))
     @ connection_header_to_bytes \<lparr>channel_id = ch, sequence_counter = sequence, ch_status = E_NO_ERROR\<rparr> @ cemi"

lemma serialize_tunnel [simp]:
  "tunnel_fits cemi \<Longrightarrow> serialize_frame (tunneling_request ch sequence cemi) = Some (tunnel_datagram ch sequence cemi)"
  by (simp add: serialize_frame_def knxip_try_to_bytes_def tunneling_request_def tunnel_datagram_def tunnel_fits_def
      connection_header_to_bytes_def Let_def add.commute)

lemma drop_tunnel_datagram [simp]: "drop 10 (tunnel_datagram ch sequence cemi) = cemi"
  by (simp add: tunnel_datagram_def to_be16_def connection_header_to_bytes_def)

definition flight_cemi :: "InFlight \<Rightarrow> u8 list" where
  "flight_cemi f = drop 10 (if_datagram f)"

definition tunnel_queue :: "TunnelClient \<Rightarrow> u8 list list" where
  "tunnel_queue t = (case tc_in_flight t of None \<Rightarrow> [] | Some f \<Rightarrow> [flight_cemi f]) @ tc_outbox t"

definition client_ok :: "TunnelClient \<Rightarrow> bool" where
  "client_ok t \<longleftrightarrow> length (tc_outbox t) \<le> MAX_CLIENT_QUEUE \<and> list_all tunnel_fits (tc_outbox t) \<and>
     (case tc_in_flight t of
        None \<Rightarrow> tc_outbox t = []
      | Some f \<Rightarrow> if_sequence f = tc_send_seq t \<and> 1 \<le> if_attempts f \<and> if_attempts f \<le> MAX_RETRIES \<and>
          tunnel_fits (flight_cemi f) \<and>
          if_datagram f = tunnel_datagram (tc_channel_id t) (tc_send_seq t) (flight_cemi f))"

text \<open>What a step of the server does to one client, as the operations of a sender.\<close>

fun tunnel_step :: "IpEnv \<Rightarrow> u8 list SenderOp \<Rightarrow> TunnelClient \<times> Sent \<Rightarrow> TunnelClient \<times> Sent" where
  "tunnel_step env (Offer cemi) (t, sent) = tunnel_offer env cemi t sent"
| "tunnel_step env (Ack sequence) (t, sent) = tunnel_ack env sequence t sent"
| "tunnel_step env Retry (t, sent) = (if ack_expiry (env_now env) t = SendAgain then transmit env t sent else (t, sent))"

text \<open>What \<open>pump\<close> does with an empty wire.\<close>

definition on_wire :: "IpEnv \<Rightarrow> string option \<Rightarrow> u8 list \<Rightarrow> u8 list list \<Rightarrow> TunnelClient \<Rightarrow> TunnelClient" where
  "on_wire env err cemi rest t = t\<lparr>tc_outbox := rest, tc_in_flight := Some
     \<lparr>if_sequence = tc_send_seq t, if_datagram = tunnel_datagram (tc_channel_id t) (tc_send_seq t) cemi, if_attempts = 1,
      if_deadline = env_now env + REQUEST_TIMEOUT_MS, if_last_error = err\<rparr>\<rparr>"

lemma pump_eq:
  assumes "tc_in_flight t = None" and "list_all tunnel_fits (tc_outbox t)"
  shows "pump env t sent =
    (case tc_outbox t of
       [] \<Rightarrow> (t\<lparr>tc_outbox := [], tc_overflow_reported := False\<rparr>, sent)
     | cemi # rest \<Rightarrow> (on_wire env (env_send_error env (length sent)) cemi rest t,
         sent @ [(tunnel_datagram (tc_channel_id t) (tc_send_seq t) cemi, tc_data_addr t)]))"
  using assms by (cases "tc_outbox t") (auto simp: pump_def transmit_def send_to_def on_wire_def Let_def)

lemma client_in_flight: "client_ok t \<Longrightarrow> tc_in_flight t = None \<Longrightarrow> tc_outbox t = []"
  by (simp add: client_ok_def)

lemma on_wire_ok:
  "tunnel_fits cemi \<Longrightarrow> list_all tunnel_fits rest \<Longrightarrow> length rest \<le> MAX_CLIENT_QUEUE \<Longrightarrow> client_ok (on_wire env err cemi rest t)"
  by (simp add: client_ok_def on_wire_def flight_cemi_def MAX_RETRIES_def word_le_nat_alt)

lemma on_wire_fields [simp]:
  "tc_channel_id (on_wire env err cemi rest t) = tc_channel_id t" "tc_ctrl_addr (on_wire env err cemi rest t) = tc_ctrl_addr t"
  "tc_data_addr (on_wire env err cemi rest t) = tc_data_addr t" "tc_send_seq (on_wire env err cemi rest t) = tc_send_seq t"
  "tc_recv_seq (on_wire env err cemi rest t) = tc_recv_seq t"
  "tc_last_heartbeat (on_wire env err cemi rest t) = tc_last_heartbeat t"
  "tunnel_queue (on_wire env err cemi rest t) = cemi # rest"
  by (simp_all add: on_wire_def tunnel_queue_def flight_cemi_def)

lemma queue_empty: "client_ok t \<Longrightarrow> tunnel_queue t = [] \<longleftrightarrow> tc_in_flight t = None"
  by (auto simp: tunnel_queue_def client_ok_def split: option.splits)

lemma queue_tl: "client_ok t \<Longrightarrow> tl (tunnel_queue t) = tc_outbox t"
  by (auto simp: tunnel_queue_def client_ok_def split: option.splits)

lemma queue_idle [simp]:
  "tunnel_queue (t\<lparr>tc_in_flight := None, tc_send_seq := n, tc_outbox := [], tc_overflow_reported := b\<rparr>) = []"
  by (simp add: tunnel_queue_def)

text \<open>Each operation of the code, in terms of the queue.\<close>

lemma offer_eq:
  assumes "client_ok t" and "tunnel_fits cemi"
  shows "tunnel_offer env cemi t sent =
    (if tc_in_flight t = None
     then (on_wire env (env_send_error env (length sent)) cemi [] t,
           sent @ [(tunnel_datagram (tc_channel_id t) (tc_send_seq t) cemi, tc_data_addr t)])
     else (tunnel_enqueue cemi t, sent))"
proof (cases "tc_in_flight t")
  case None
  then have o: "tc_outbox t = []" using assms(1) by (rule client_in_flight [rotated])
  have e: "tunnel_enqueue cemi t = t\<lparr>tc_outbox := [cemi]\<rparr>"
    by (simp add: tunnel_enqueue_def o MAX_CLIENT_QUEUE_def Let_def)
  show ?thesis
    unfolding tunnel_offer_def e using None assms(2) by (subst pump_eq) (simp_all add: on_wire_def)
next
  case (Some f)
  then show ?thesis by (simp add: tunnel_offer_def pump_def tunnel_enqueue_def Let_def)
qed

lemma enqueue_fields [simp]:
  "tc_channel_id (tunnel_enqueue cemi t) = tc_channel_id t" "tc_ctrl_addr (tunnel_enqueue cemi t) = tc_ctrl_addr t"
  "tc_data_addr (tunnel_enqueue cemi t) = tc_data_addr t" "tc_send_seq (tunnel_enqueue cemi t) = tc_send_seq t"
  "tc_recv_seq (tunnel_enqueue cemi t) = tc_recv_seq t" "tc_last_heartbeat (tunnel_enqueue cemi t) = tc_last_heartbeat t"
  "tc_in_flight (tunnel_enqueue cemi t) = tc_in_flight t"
  by (simp_all add: tunnel_enqueue_def Let_def)

lemma enqueue_outbox: "tc_outbox (tunnel_enqueue cemi t) =
   (if MAX_CLIENT_QUEUE \<le> length (tc_outbox t) then tl (tc_outbox t) else tc_outbox t) @ [cemi]"
  by (simp add: tunnel_enqueue_def Let_def)

lemma enqueue_queue:
  "tc_in_flight t \<noteq> None \<Longrightarrow> tunnel_queue (tunnel_enqueue cemi t) = queue_offer (1 + MAX_CLIENT_QUEUE) cemi (tunnel_queue t)"
  by (auto simp: tunnel_queue_def enqueue_outbox queue_offer_def drop_Suc MAX_CLIENT_QUEUE_def numeral_2_eq_2)

lemma enqueue_ok: "client_ok t \<Longrightarrow> tc_in_flight t \<noteq> None \<Longrightarrow> tunnel_fits cemi \<Longrightarrow> client_ok (tunnel_enqueue cemi t)"
  by (auto simp: client_ok_def enqueue_outbox MAX_CLIENT_QUEUE_def list_all_iff dest: list.set_sel(2) [rotated])

lemma transmit_eq:
  "tc_in_flight t = Some f \<Longrightarrow> transmit env t sent =
    (t\<lparr>tc_in_flight := Some (f\<lparr>if_attempts := if_attempts f + 1, if_deadline := env_now env + REQUEST_TIMEOUT_MS,
       if_last_error := env_send_error env (length sent)\<rparr>)\<rparr>, sent @ [(if_datagram f, tc_data_addr t)])"
  by (simp add: transmit_def send_to_def Let_def)

lemma send_again: "ack_expiry now t = SendAgain \<longleftrightarrow>
   (\<exists>f. tc_in_flight t = Some f \<and> if_deadline f \<le> now \<and> if_attempts f < MAX_RETRIES)"
  by (auto simp: ack_expiry_def split: option.splits)

lemma ack_eq:
  assumes "client_ok t"
  shows "tunnel_ack env n t sent =
    (if tunnel_queue t = [] \<or> n \<noteq> tc_send_seq t then (t, sent)
     else let t' = t\<lparr>tc_in_flight := None, tc_send_seq := n + 1\<rparr> in
       case tc_outbox t of
         [] \<Rightarrow> (t'\<lparr>tc_outbox := [], tc_overflow_reported := False\<rparr>, sent)
       | cemi # rest \<Rightarrow> (on_wire env (env_send_error env (length sent)) cemi rest t',
           sent @ [(tunnel_datagram (tc_channel_id t) (n + 1) cemi, tc_data_addr t)]))"
proof (cases "tc_in_flight t")
  case None
  then show ?thesis using client_in_flight [OF assms] by (simp add: tunnel_ack_def tunnel_queue_def)
next
  case (Some f)
  then have f: "if_sequence f = tc_send_seq t" "list_all tunnel_fits (tc_outbox t)" using assms by (auto simp: client_ok_def)
  then show ?thesis
    using Some pump_eq [of "t\<lparr>tc_in_flight := None, tc_send_seq := n + 1\<rparr>" env sent]
    by (auto simp: tunnel_ack_def tunnel_queue_def Let_def split: list.split)
qed

text \<open>Whatever happens, a client keeps its invariant, its channel and its addresses.\<close>

lemma tunnel_step_ok:
  assumes "client_ok t" and "\<And>cemi. op = Offer cemi \<Longrightarrow> tunnel_fits cemi"
  shows "client_ok (fst (tunnel_step env op (t, sent)))"
proof (cases op)
  case (Offer cemi)
  then show ?thesis
    using offer_eq [OF assms(1) assms(2) [OF Offer]] enqueue_ok [OF assms(1) _ assms(2) [OF Offer]] on_wire_ok assms(2)
    by auto
next
  case (Ack n)
  have "list_all tunnel_fits (tc_outbox t)" "length (tc_outbox t) \<le> MAX_CLIENT_QUEUE"
    using assms(1) by (simp_all add: client_ok_def)
  moreover have "client_ok (t\<lparr>tc_in_flight := None, tc_send_seq := n + 1, tc_outbox := [], tc_overflow_reported := False\<rparr>)"
    by (simp add: client_ok_def)
  ultimately show ?thesis
    using ack_eq [OF assms(1), of env n sent] assms(1) Ack by (auto simp: Let_def intro!: on_wire_ok split: list.splits)
next
  case Retry
  have a: "1 \<le> a + 1 \<and> a + 1 \<le> 3" if "1 \<le> a" "a < (3 :: u8)" for a
    using that by (simp add: word_less_nat_alt word_le_nat_alt unat_word_ariths)
  show ?thesis
  proof (cases "ack_expiry (env_now env) t = SendAgain")
    case True
    then show ?thesis
      using assms(1) Retry by (auto simp: send_again transmit_eq client_ok_def flight_cemi_def MAX_RETRIES_def a)
  qed (simp add: Retry assms(1))
qed

lemma tunnel_step_fields:
  assumes "client_ok t" and "\<And>cemi. op = Offer cemi \<Longrightarrow> tunnel_fits cemi"
  shows "tc_channel_id (fst (tunnel_step env op (t, sent))) = tc_channel_id t"
    and "tc_ctrl_addr (fst (tunnel_step env op (t, sent))) = tc_ctrl_addr t"
    and "tc_data_addr (fst (tunnel_step env op (t, sent))) = tc_data_addr t"
    and "tc_recv_seq (fst (tunnel_step env op (t, sent))) = tc_recv_seq t"
    and "tc_last_heartbeat (fst (tunnel_step env op (t, sent))) = tc_last_heartbeat t"
  using offer_eq [OF assms(1)] ack_eq [OF assms(1)] assms(2)
  by (cases op; auto simp: send_again transmit_eq Let_def split: list.splits)+

lemma tunnel_step_wire:
  assumes "client_ok t" and "\<And>cemi. op = Offer cemi \<Longrightarrow> tunnel_fits cemi"
  shows "\<exists>n. snd (tunnel_step env op (t, sent)) = sent @ replicate n
      (tunnel_datagram (tc_channel_id t) (tc_send_seq (fst (tunnel_step env op (t, sent))))
        (hd (tunnel_queue (fst (tunnel_step env op (t, sent))))), tc_data_addr t) \<and>
    (0 < n \<longrightarrow> tunnel_queue (fst (tunnel_step env op (t, sent))) \<noteq> [])"
proof (cases op)
  case (Offer cemi)
  then show ?thesis
    using offer_eq [OF assms(1) assms(2) [OF Offer], of env sent]
    by (cases "tc_in_flight t") (auto intro: exI [of _ 0] exI [of _ 1])
next
  case (Ack n)
  then show ?thesis
    using ack_eq [OF assms(1), of env n sent]
    by (auto simp: Let_def intro: exI [of _ 0] exI [of _ 1] split: list.splits)
next
  case Retry
  then show ?thesis
    using assms(1) by (auto simp: send_again transmit_eq tunnel_queue_def flight_cemi_def client_ok_def
        intro: exI [of _ 0] exI [of _ 1])
qed

interpretation client: stop_and_wait "\<lambda>(t, sent). client_ok t" "\<lambda>(t, sent). tunnel_queue t"
  "\<lambda>(t, sent). tc_send_seq t" snd
  "\<lambda>(t, sent) n cemi. (tunnel_datagram (tc_channel_id t) n cemi, tc_data_addr t)" tunnel_step "1 + MAX_CLIENT_QUEUE" tunnel_fits
proof (unfold_locales, goal_cases)
  case (2 s op e)
  then show ?case using tunnel_step_ok [of "fst s" op e "snd s"] by (cases s) (auto simp: case_prod_beta)
next
  case (3 s cemi e)
  then show ?case
    using offer_eq [of "fst s" cemi e "snd s"] enqueue_queue [of "fst s" cemi] queue_empty [of "fst s"]
    by (cases s; cases "tc_in_flight (fst s)") (auto simp: queue_offer_def MAX_CLIENT_QUEUE_def)
next
  case (4 s e n)
  then show ?case
    using ack_eq [of "fst s" e n "snd s"] queue_tl [of "fst s"] by (cases s) (auto simp: Let_def drop_Suc split: list.splits)
next
  case (5 s e)
  then show ?case by (cases s) (auto simp: send_again transmit_eq tunnel_queue_def flight_cemi_def)
next
  case (6 s op e)
  then show ?case using tunnel_step_fields [of "fst s" op e "snd s"] by (cases s) (auto simp: case_prod_beta fun_eq_iff)
next
  case (7 s op e)
  then show ?case using tunnel_step_wire [of "fst s" op e "snd s"] by (cases s) (auto simp: case_prod_beta)
qed (simp add: MAX_CLIENT_QUEUE_def)

text \<open>The frames that a client acknowledges in a run of operations.\<close>

definition client_confirmed :: "(IpEnv \<times> u8 list SenderOp) list \<Rightarrow> TunnelClient \<times> Sent \<Rightarrow> u8 list list" where
  "client_confirmed = confirmed tunnel_step (\<lambda>(t, sent). tunnel_queue t) (\<lambda>(t, sent). tc_send_seq t)"

text \<open>
  C9: A client of the server is a stop-and-wait receiver of what the server
  queues for it, over any run of frames offered, acknowledgements and expired deadlines. The
  frames it acknowledges, followed by those still waiting, are a subsequence of the frames
  offered: no frame is repeated or reordered, and none is lost unless one is offered while 129
  wait. The sequence number counts the acknowledged frames. What goes out to the client is at any
  time the first frame it has not acknowledged, numbered by its position: it is never sent a
  frame before it acknowledged the previous one, and never an older one again.
\<close>
theorem tunnel_stop_and_wait:
  assumes "client_ok t" and "\<forall>cemi\<in>set (offered ops). tunnel_fits cemi"
    and "sender_run tunnel_step ops (t, sent) = (t', sent')"
  shows "client_ok t' \<and> subseq (client_confirmed ops (t, sent) @ tunnel_queue t') (tunnel_queue t @ offered ops) \<and>
    (never_full tunnel_step (\<lambda>(t, sent). tunnel_queue t) (1 + MAX_CLIENT_QUEUE) ops (t, sent) \<longrightarrow>
      client_confirmed ops (t, sent) @ tunnel_queue t' = tunnel_queue t @ offered ops) \<and>
    tc_send_seq t' = tc_send_seq t + of_nat (length (client_confirmed ops (t, sent))) \<and>
    (\<exists>ks. sorted ks \<and> (\<forall>k\<in>set ks. k \<le> length (client_confirmed ops (t, sent))) \<and>
      sent' = sent @ map (\<lambda>k. (tunnel_datagram (tc_channel_id t) (tc_send_seq t + of_nat k)
        ((client_confirmed ops (t, sent) @ tunnel_queue t') ! k), tc_data_addr t)) ks)"
  using client.run_queue [of "(t, sent)" ops] client.run_wire [of "(t, sent)" ops] assms
  unfolding client_confirmed_def by auto

definition sample_client :: TunnelClient where
  "sample_client = tunnel_client_new 1 (V4 [192, 168, 1, 2] 3672) (V4 [192, 168, 1, 2] 3673) 0"

definition sample_env :: IpEnv where
  "sample_env = \<lparr>env_now = 5000, env_local_addr = Some (V4 [192, 168, 1, 9] 3671), env_send_error = (\<lambda>n. None),
     env_probe = (\<lambda>a. None), env_channel = ChannelOpen\<rparr>"

lemma sample_client_ok [simp]: "client_ok (tunnel_client_new ch c d now)"
  by (simp add: client_ok_def tunnel_client_new_def)

theorem tunnel_stop_and_wait_witness:
  "let ops = map (Pair sample_env) [Offer [0x29, 1], Offer [0x29, 2], Ack 0, Retry, Ack 7]; p = (sample_client, []);
       (t', sent') = sender_run tunnel_step ops p
   in client_confirmed ops p @ tunnel_queue t' = [[0x29, 1], [0x29, 2]] \<and> tunnel_queue t' = [[0x29, 2]] \<and> tc_send_seq t' = 1"
proof -
  let ?ops = "map (Pair sample_env) [Offer [0x29, 1], Offer [0x29, 2], Ack 0, Retry, Ack (7::u8)]"
  let ?p = "(sample_client, [])"
  note ev = sample_client_def tunnel_client_new_def sample_env_def tunnel_offer_def tunnel_enqueue_def pump_def transmit_def
    tunnel_fits_def send_to_def tunnel_queue_def tunnel_ack_def ack_expiry_def Let_def MAX_CLIENT_QUEUE_def
    REQUEST_TIMEOUT_MS_def flight_cemi_def
  obtain t' sent' where r: "sender_run tunnel_step ?ops ?p = (t', sent')" by fastforce
  have "client_ok sample_client" by (simp add: sample_client_def)
  moreover have "\<forall>cemi\<in>set (offered ?ops). tunnel_fits cemi" by (simp add: tunnel_fits_def)
  moreover have "never_full tunnel_step (\<lambda>(t, sent). tunnel_queue t) (1 + MAX_CLIENT_QUEUE) ?ops ?p" by (simp add: ev)
  moreover have "tunnel_queue sample_client = []" by (simp add: ev)
  ultimately have "client_confirmed ?ops ?p @ tunnel_queue t' = [[0x29, 1], [0x29, 2]]"
    using tunnel_stop_and_wait [OF _ _ r] by simp
  moreover have "tunnel_queue t' = [[0x29, 2]] \<and> tc_send_seq t' = 1" using r by (auto simp: ev)
  ultimately show ?thesis by (simp only: Let_def r prod.case)
qed

section \<open>The invariant of the server\<close>

lemma find_index_Some: "find_index P xs = Some i \<longleftrightarrow> i < length xs \<and> P (xs ! i) \<and> (\<forall>j<i. \<not> P (xs ! j))"
proof (induction xs arbitrary: i)
  case (Cons x xs)
  show ?case by (cases i) (auto simp: Cons.IH All_less_Suc2)
qed simp

lemma find_index_None: "find_index P xs = None \<longleftrightarrow> (\<forall>x\<in>set xs. \<not> P x)"
  by (induction xs) auto

definition tunnels_ok :: "TunnelClient list \<Rightarrow> bool" where
  "tunnels_ok ts \<longleftrightarrow> length ts \<le> MAX_TUNNELS \<and> distinct (map tc_channel_id ts) \<and> 0 \<notin> set (map tc_channel_id ts) \<and>
     list_all client_ok ts"

definition server_ok :: "ServerState \<Rightarrow> bool" where
  "server_ok s \<longleftrightarrow> tunnels_ok (sv_tunnels s) \<and> sv_next_channel_id s \<noteq> 0 \<and>
     length (eq_backlog (sv_events s)) \<le> MAX_EVENT_BACKLOG"

lemma tunnels_ok_update:
  "tunnels_ok ts \<Longrightarrow> i < length ts \<Longrightarrow> client_ok t \<Longrightarrow> tc_channel_id t = tc_channel_id (ts ! i) \<Longrightarrow> tunnels_ok (ts[i := t])"
  using list_update_id [of "map tc_channel_id ts" i]
  by (simp add: tunnels_ok_def map_update list_all_length nth_list_update)

lemma tunnels_ok_filter: "tunnels_ok ts \<Longrightarrow> tunnels_ok (filter P ts)"
  using order_trans [OF length_filter_le [of P ts]] by (auto simp: tunnels_ok_def distinct_map_filter list_all_iff)

lemma tunnels_ok_nth: "tunnels_ok ts \<Longrightarrow> i < length ts \<Longrightarrow> client_ok (ts ! i)"
  by (simp add: tunnels_ok_def list_all_length)

lemma next_id_nonzero [simp]: "next_id ch \<noteq> 0"
  by (simp add: next_id_def Let_def)

lemma find_channel_free: "find_channel ids ch a = Some c \<Longrightarrow> ch \<noteq> 0 \<Longrightarrow> c \<noteq> 0 \<and> c \<notin> set ids"
proof (induction ids ch a rule: find_channel.induct)
  case (1 ids ch a)
  show ?case
    using "1.IH" "1.prems"(1) [unfolded find_channel.simps [of ids ch a]] "1.prems"(2) by (auto simp: Let_def split: if_splits)
qed

text \<open>Frames of the code always fit.\<close>

lemma cemi_wf_fits:
  assumes "cemi_wf f"
  shows "length (frame_data f) \<le> 520"
proof -
  have "ctrl_offset f = 2 + unat (frame_data f ! 1)" using assms by (simp add: cemi_wf_def Let_def)
  then show ?thesis
    using cemi_wfD(3) [OF assms] unat_bounds(1) [of "npdu_length f"] unat_bounds(1) [of "frame_data f ! 1"] by linarith
qed

lemma indication_fits: "cemi_wf f \<Longrightarrow> tunnel_fits (as_indication f)"
  using cemi_wf_fits [of f] by (simp add: tunnel_fits_def as_indication_def as_bytes_def Let_def)

lemma confirmation_fits: "cemi_wf f \<Longrightarrow> confirmation_of f = Some c \<Longrightarrow> tunnel_fits c"
  using cemi_wf_fits [of f]
  by (auto simp: tunnel_fits_def confirmation_of_def as_bytes_def Let_def split: if_splits)

lemma parsed_wf: "cemi_parse d = Inr f \<Longrightarrow> cemi_wf f"
  by (simp add: parse_accepts_wf)

text \<open>Each handler keeps the invariant.\<close>

lemma offer_step: "tunnel_offer env cemi t sent = tunnel_step env (Offer cemi) (t, sent)" by simp
lemma ack_step: "tunnel_ack env n t sent = tunnel_step env (Ack n) (t, sent)" by simp
lemma retry_step: "ack_expiry (env_now env) t = SendAgain \<Longrightarrow> transmit env t sent = tunnel_step env Retry (t, sent)" by simp

lemma client_ok_ignores [simp]:
  "client_ok (t\<lparr>tc_recv_seq := n\<rparr>) = client_ok t" "client_ok (t\<lparr>tc_last_heartbeat := h\<rparr>) = client_ok t"
  by (cases "tc_in_flight t"; simp add: client_ok_def)+

lemma connect_ok:
  assumes "tunnels_ok ts" and "next \<noteq> 0" and "handle_connect env src frame ts next sent = (ts', next', sent')"
  shows "tunnels_ok ts' \<and> next' \<noteq> 0"
  using assms find_channel_free [of "map tc_channel_id ts" "next" 0]
  by (auto simp: handle_connect_def Let_def tunnels_ok_def tunnel_client_new_def [of _ _ _ "env_now env", THEN arg_cong [where f = tc_channel_id], simplified]
      split: if_splits option.splits)

lemma heartbeat_ok:
  assumes "tunnels_ok ts" and "handle_heartbeat env src frame ts sent = (ts', sent')"
  shows "tunnels_ok ts'"
  using assms tunnels_ok_nth [OF assms(1)]
  by (auto simp: handle_heartbeat_def Let_def find_index_Some intro!: tunnels_ok_update split: if_splits option.splits)

lemma disconnect_ok:
  assumes "tunnels_ok ts" and "handle_disconnect env src frame ts sent = (ts', sent')"
  shows "tunnels_ok ts'"
  using assms by (auto simp: handle_disconnect_def Let_def tunnels_ok_filter split: if_splits)

lemma step_at_ok:
  assumes "tunnel_step env op (t, sent) = (t', sent')" and "tunnels_ok ts" and "i < length ts" and "client_ok t"
    and "tc_channel_id t = tc_channel_id (ts ! i)" and "\<And>cemi. op = Offer cemi \<Longrightarrow> tunnel_fits cemi"
  shows "tunnels_ok (ts[i := t'])"
  using tunnel_step_ok [OF assms(4,6), of op env sent] tunnel_step_fields(1) [OF assms(4,6), of op env sent] assms
  by (auto intro: tunnels_ok_update)

lemma tunneling_ack_ok:
  assumes "tunnels_ok ts" and "handle_tunneling_ack env src frame ts sent = (ts', sent')"
  shows "tunnels_ok ts'"
  using assms tunnels_ok_nth [OF assms(1)]
  by (auto simp: handle_tunneling_ack_def find_index_Some ack_step simp del: tunnel_step.simps
      intro: step_at_ok [where op = "Ack n" for n] split: option.splits prod.splits)

lemma tunneling_request_ok:
  assumes "tunnels_ok ts" and "handle_tunneling_request env src frame ts q sent = (ts', q', sent')"
  shows "tunnels_ok ts'"
  using assms tunnels_ok_nth [OF assms(1)]
  by (auto simp: handle_tunneling_request_def find_index_Some offer_step Let_def simp del: tunnel_step.simps
      intro: tunnels_ok_update step_at_ok [where op = "Offer c" for c] dest: confirmation_fits [OF parsed_wf]
      split: option.splits prod.splits if_splits sum.splits)

lemma offer_all_keeps:
  assumes "tunnel_fits cemi" and "offer_all env cemi ts sent = (ts', sent')" and "list_all client_ok ts"
  shows "map tc_channel_id ts' = map tc_channel_id ts \<and> list_all client_ok ts'"
  using assms(2,3)
proof (induction ts arbitrary: sent ts' sent')
  case (Cons t ts)
  then show ?case
    using tunnel_step_ok [of t "Offer cemi" env sent] tunnel_step_fields(1) [of t "Offer cemi" env sent] assms(1)
    by (auto split: prod.splits)
qed simp

lemma tunnels_ok_keeps:
  assumes "tunnels_ok ts" and "map tc_channel_id ts' = map tc_channel_id ts" and "list_all client_ok ts'"
  shows "tunnels_ok ts'"
proof -
  have "length ts' = length ts" using assms(2) by (rule map_eq_imp_length_eq)
  then show ?thesis using assms unfolding tunnels_ok_def by simp
qed

lemma expire_loop_keeps:
  assumes "expire_loop env ts sent = (ts', lost, sent')" and "list_all client_ok ts"
  shows "map tc_channel_id ts' = map tc_channel_id ts \<and> list_all client_ok ts'"
  using assms
proof (induction ts arbitrary: sent ts' lost sent')
  case (Cons t ts)
  then show ?case
    using tunnel_step_ok [of t Retry env sent] tunnel_step_fields(1) [of t Retry env sent]
    by (auto simp: Let_def split: prod.splits Expiry.splits)
qed simp

lemma tunnels_ok_remove:
  assumes "tunnels_ok ts" and "i < length ts"
  shows "tunnels_ok (take i ts @ drop (Suc i) ts)"
proof -
  obtain a t b where "ts = a @ t # b" "take i ts @ drop (Suc i) ts = a @ b"
    using id_take_nth_drop [OF assms(2)] by blast
  with assms(1) show ?thesis by (auto simp: tunnels_ok_def)
qed

lemma drop_lost_ok:
  assumes "drop_lost_tunnel env ch (ts, sent) = (ts', sent')" and "tunnels_ok ts"
  shows "tunnels_ok ts'"
  using assms by (auto simp: drop_lost_tunnel_def find_index_Some intro: tunnels_ok_remove split: option.splits)

lemma drop_all_ok: "fold (drop_lost_tunnel env) lost (ts, sent) = (ts', sent') \<Longrightarrow> tunnels_ok ts \<Longrightarrow> tunnels_ok ts'"
proof (induction lost arbitrary: ts sent)
  case (Cons ch lost)
  obtain us se where d: "drop_lost_tunnel env ch (ts, sent) = (us, se)" by fastforce
  show ?case using Cons.IH [of us se] drop_lost_ok [OF d Cons.prems(2)] Cons.prems(1) d by simp
qed simp

lemma expire_ok:
  assumes "expire_acks env ts sent = (ts', sent')" and "tunnels_ok ts"
  shows "tunnels_ok ts'"
proof -
  obtain us lost se where l: "expire_loop env ts sent = (us, lost, se)" by (cases "expire_loop env ts sent")
  have "list_all client_ok ts" using assms(2) by (simp add: tunnels_ok_def)
  with expire_loop_keeps [OF l] tunnels_ok_keeps [OF assms(2)] have "tunnels_ok us" by blast
  with assms(1) show ?thesis using drop_all_ok unfolding expire_acks_def l by simp
qed

lemma cleanup_ok: "tunnels_ok ts \<Longrightarrow> tunnels_ok (cleanup_stale_tunnels env ts)"
  by (simp add: cleanup_stale_tunnels_def tunnels_ok_filter)

lemma push_backlog: "length (eq_backlog q) \<le> MAX_EVENT_BACKLOG \<Longrightarrow> length (eq_backlog (event_push env ev q)) \<le> MAX_EVENT_BACKLOG"
  by (auto simp: event_push_def MAX_EVENT_BACKLOG_def split: ChannelState.split)

lemma tunneling_request_backlog:
  "handle_tunneling_request env src frame ts q sent = (ts', q', sent') \<Longrightarrow> q' = q \<or> (\<exists>ev. q' = event_push env ev q)"
  by (auto simp: handle_tunneling_request_def Let_def split: option.splits prod.splits if_splits sum.splits)

text \<open>The frames that the application hands over are well formed, as every \<open>CemiFrame\<close> is.\<close>

fun input_ok :: "ServerInput \<Rightarrow> bool" where
  "input_ok (CmdSendFrame cemi) \<longleftrightarrow> cemi_wf cemi"
| "input_ok (CmdSendToTunnel ch cemi) \<longleftrightarrow> cemi_wf cemi"
| "input_ok _ \<longleftrightarrow> True"

lemma packet_ok: "server_ok s \<Longrightarrow> server_ok (fst (handle_packet env data src s sent))"
proof (cases "knxip_parse data")
  case (Inr frame)
  assume "server_ok s"
  then have s: "tunnels_ok (sv_tunnels s)" "sv_next_channel_id s \<noteq> 0" "length (eq_backlog (sv_events s)) \<le> MAX_EVENT_BACKLOG"
    by (simp_all add: server_ok_def)
  then show ?thesis
    using connect_ok [OF s(1,2), of env src frame sent] heartbeat_ok [OF s(1), of env src frame sent]
      disconnect_ok [OF s(1), of env src frame sent] tunneling_ack_ok [OF s(1), of env src frame sent]
      tunneling_request_ok [OF s(1), of env src frame "sv_events s" sent]
      tunneling_request_backlog [of env src frame "sv_tunnels s" "sv_events s" sent]
    by (cases "service_type frame") (auto simp: handle_packet_def Inr server_ok_def push_backlog split: prod.splits sum.splits)
qed (simp add: handle_packet_def)

lemma server_step_ok:
  assumes "server_step mc env input (s, sent) = Some (s', sent')" and "server_ok s" and "input_ok input"
  shows "server_ok s'"
proof (cases input)
  case (Datagram data src)
  then show ?thesis using assms(1) packet_ok [OF assms(2), of env data src sent] by (auto split: if_splits)
next
  case (CmdSendFrame cemi)
  obtain se where o: "offer_all env (as_indication cemi) (sv_tunnels s) se = (sv_tunnels s', sent')" "s' = s\<lparr>sv_tunnels := sv_tunnels s'\<rparr>"
    using assms(1) CmdSendFrame by (auto simp: send_to_all_def Let_def split: prod.splits)
  have t: "tunnels_ok (sv_tunnels s)" using assms(2) by (simp add: server_ok_def)
  then have "list_all client_ok (sv_tunnels s)" by (simp add: tunnels_ok_def)
  moreover have "tunnel_fits (as_indication cemi)" using assms(3) CmdSendFrame indication_fits by simp
  ultimately have "tunnels_ok (sv_tunnels s')" using offer_all_keeps [OF _ o(1)] tunnels_ok_keeps [OF t] by blast
  then show ?thesis using assms(2) by (subst o(2)) (simp add: server_ok_def)
next
  case (CmdSendToTunnel ch cemi)
  have t: "tunnels_ok (sv_tunnels s)" using assms(2) by (simp add: server_ok_def)
  show ?thesis
  proof (cases "find_index (\<lambda>t. tc_channel_id t = ch) (sv_tunnels s)")
    case None
    then show ?thesis using assms(1,2) CmdSendToTunnel by (simp add: send_to_tunnel_client_def)
  next
    case (Some i)
    obtain t' se where o: "tunnel_step env (Offer (as_indication cemi)) (sv_tunnels s ! i, sent) = (t', se)" by fastforce
    have "tunnels_ok ((sv_tunnels s)[i := t'])"
      by (rule step_at_ok [OF o t]) (use Some assms(3) CmdSendToTunnel tunnels_ok_nth [OF t] indication_fits in \<open>auto simp: find_index_Some\<close>)
    then show ?thesis
      using assms(1,2) o Some CmdSendToTunnel by (auto simp: send_to_tunnel_client_def server_ok_def)
  qed
next
  case Deliver
  then show ?thesis
    using assms by (auto simp: event_deliver_def server_ok_def has_backlog_def split: if_splits ChannelState.splits list.splits)
next
  case AckDue
  then show ?thesis
    using assms expire_ok [of env "sv_tunnels s"] by (auto simp: server_ok_def Let_def split: option.splits if_splits prod.splits)
next
  case CleanupTick
  then show ?thesis using assms cleanup_ok by (auto simp: server_ok_def)
next
  case (SetDescription d)
  then show ?thesis using assms by (auto simp: server_ok_def set_description_def)
qed

text \<open>All states that the task can reach, whatever its environment does.\<close>

inductive server_reachable :: "SocketAddr option \<Rightarrow> ServerState \<Rightarrow> Sent \<Rightarrow> bool" for mc where
  server_start: "server_reachable mc (server_init d mc) []"
| server_next: "server_reachable mc s sent \<Longrightarrow> input_ok input \<Longrightarrow> server_step mc env input (s, sent) = Some (s', sent') \<Longrightarrow>
    server_reachable mc s' sent'"

lemma server_init_ok: "server_ok (server_init d mc)"
  by (simp add: server_ok_def server_init_def tunnels_ok_def)

lemma reachable_ok: "server_reachable mc s sent \<Longrightarrow> server_ok s"
  by (induction rule: server_reachable.induct) (auto intro: server_init_ok server_step_ok)

end
