(* ===== verification/Ip_Samples.thy ===== *)
theory Ip_Samples
  imports Ip_Tunnels
begin

text \<open>A server with one client, reached by a connect request.\<close>

definition connect_octets :: "u8 list" where
  "connect_octets = [0x06, 0x10, 0x02, 0x05, 0x00, 0x1A, 0x08, 0x01, 192, 168, 1, 2, 0x0E, 0x58, 0x08, 0x01, 192, 168, 1, 2, 0x0E, 0x59,
     0x04, 0x04, 0x02, 0x00]"

definition one_client :: ServerState where
  "one_client = (server_init None None)\<lparr>sv_tunnels := [tunnel_client_new 1 (V4 [192, 168, 1, 2] 3672) (V4 [192, 168, 1, 2] 3673) 5000],
     sv_next_channel_id := 2\<rparr>"

definition connect_answer :: Sent where
  "connect_answer = [([6, 0x10, 2, 6, 0, 20, 1, 0, 8, 1, 0, 0, 0, 0, 0x0E, 0x57, 4, 4, 0xFF, 1], V4 [192, 168, 1, 2] 3672)]"

lemma connect_parses: "knxip_parse connect_octets = Inr \<lparr>service_type = ConnectRequest, body = drop 6 connect_octets\<rparr>"
  by (simp add: knxip_parse_def connect_octets_def HEADER_LEN_def PROTOCOL_VERSION_10_def be16_def service_type_from_raw_def
      buf_slice_def Let_def ok_or_def)

lemma sample_handle_connect:
  "handle_connect sample_env (V4 [192, 168, 1, 2] 3672) \<lparr>service_type = ConnectRequest, body = drop 6 connect_octets\<rparr> [] 1 [] =
    ([tunnel_client_new 1 (V4 [192, 168, 1, 2] 3672) (V4 [192, 168, 1, 2] 3673) 5000], 2, connect_answer)"
  by (simp add: handle_connect_def
      hpai_parse_def HPAI_LEN_def host_protocol_from_raw_def connect_octets_def be16_def hpai_to_socket_addr_def
      is_unspecified_def local_port_def sample_env_def DEVICE_MGMT_CONNECTION_def MAX_TUNNELS_def find_channel.simps
      next_id_def one_client_def connect_answer_def send_bytes_def build_connect_response_def serialize_frame_def
      knxip_try_to_bytes_def HEADER_LEN_def PROTOCOL_VERSION_10_def to_be16_def hpai_to_bytes_def nat_udp_def tunnel_crd_def
      TUNNEL_IA_BASE_def CRI_CRD_LEN_def TUNNEL_CONNECTION_def E_NO_ERROR_def send_to_def Let_def)

lemma sample_connect:
  "server_step None sample_env (Datagram connect_octets (V4 [192, 168, 1, 2] 3672)) (server_init None None, []) =
    Some (one_client, connect_answer)"
  using sample_handle_connect
  by (simp add: has_room_def server_init_def MAX_EVENT_BACKLOG_def handle_packet_def connect_parses one_client_def)

lemma one_client_reachable: "server_reachable None one_client connect_answer"
  by (rule server_next [OF server_start _ sample_connect]) simp

end
