(* ===== verification/Ip_Steps.thy ===== *)
theory Ip_Steps
  imports Ip_Samples
begin

text \<open>
  What one step of the server task does to each of its clients, and what holds in every state the
  task can reach.
\<close>

section \<open>What a step does to a client\<close>

lemma offer_all_client:
  "t \<in> set ts \<Longrightarrow> \<exists>se. fst (tunnel_offer env cemi t se) \<in> set (fst (offer_all env cemi ts sent))"
proof (induction ts arbitrary: sent)
  case (Cons u ts)
  show ?case
  proof (cases "t = u")
    case True
    then show ?thesis by (intro exI [of _ sent]) (simp add: case_prod_beta Let_def)
  next
    case False
    then show ?thesis using Cons by (simp add: case_prod_beta Let_def) blast
  qed
qed simp

lemma expire_loop_client:
  "t \<in> set ts \<Longrightarrow>
   (case ack_expiry (env_now env) t of
      Waiting \<Rightarrow> t \<in> set (fst (expire_loop env ts sent))
    | SendAgain \<Rightarrow> (\<exists>se. fst (transmit env t se) \<in> set (fst (expire_loop env ts sent)))
    | Lost \<Rightarrow> t \<in> set (fst (expire_loop env ts sent)) \<and> tc_channel_id t \<in> set (fst (snd (expire_loop env ts sent))))"
proof (induction ts arbitrary: sent)
  case (Cons u ts)
  show ?case
  proof (cases "t = u")
    case True
    then show ?thesis by (cases "ack_expiry (env_now env) u") (auto simp: case_prod_beta Let_def)
  next
    case False
    then have "t \<in> set ts" using Cons.prems by simp
    note IH = Cons.IH [OF this]
    show ?thesis
      using IH [of sent] IH [of "snd (transmit env u sent)"]
      by (cases "ack_expiry (env_now env) u"; cases "ack_expiry (env_now env) t") (auto simp: case_prod_beta Let_def)
  qed
qed simp

lemma expire_loop_lost:
  "expire_loop env ts sent = (ts', lost, sent') \<Longrightarrow>
   lost = map tc_channel_id (filter (\<lambda>t. ack_expiry (env_now env) t = Lost) ts)"
proof (induction ts arbitrary: sent ts' lost sent')
  case (Cons u ts)
  then show ?case by (auto simp: Let_def split: prod.splits Expiry.splits)
qed simp

lemma remove_at:
  assumes "distinct (map g xs)" and "find_index (\<lambda>x. g x = c) xs = Some i"
  shows "take i xs @ drop (Suc i) xs = filter (\<lambda>x. g x \<noteq> c) xs"
proof -
  have i: "i < length xs" "g (xs ! i) = c" using assms(2) by (auto simp: find_index_Some)
  obtain a b where ab: "xs = a @ (xs ! i) # b" "take i xs @ drop (Suc i) xs = a @ b"
    using id_take_nth_drop [OF i(1)] by blast
  have "c \<notin> g ` set a" "c \<notin> g ` set b" using assms(1) i(2) by (subst (asm) ab(1); auto)+
  then have "filter (\<lambda>x. g x \<noteq> c) a = a" "filter (\<lambda>x. g x \<noteq> c) b = b" by (auto simp: filter_id_conv)
  then have "filter (\<lambda>x. g x \<noteq> c) (a @ (xs ! i) # b) = a @ b" using i(2) by simp
  then show ?thesis using ab by simp
qed

lemma drop_lost_filter:
  "tunnels_ok ts \<Longrightarrow> fst (drop_lost_tunnel env ch (ts, sent)) = filter (\<lambda>t. tc_channel_id t \<noteq> ch) ts"
  by (auto simp: drop_lost_tunnel_def tunnels_ok_def find_index_None remove_at filter_id_conv split: option.splits)

lemma drop_all_filter:
  "tunnels_ok ts \<Longrightarrow> fst (fold (drop_lost_tunnel env) lost (ts, sent)) = filter (\<lambda>t. tc_channel_id t \<notin> set lost) ts"
proof (induction lost arbitrary: ts sent)
  case (Cons ch lost)
  obtain us se where d: "drop_lost_tunnel env ch (ts, sent) = (us, se)" by fastforce
  then have u: "us = filter (\<lambda>t. tc_channel_id t \<noteq> ch) ts" using drop_lost_filter [OF Cons.prems, of env ch sent] by simp
  then show ?case using Cons.IH [of us se] tunnels_ok_filter [OF Cons.prems] d by (simp add: conj_commute)
qed simp

text \<open>The invitation to reconnect goes out to each client that is dropped.\<close>

lemma disconnect_request_written: "\<exists>bytes. serialize_frame (ip_disconnect_request ch h) = Some bytes"
  by (rule serialize_frame_fits) (simp add: ip_disconnect_request_def connection_management_body_def)

lemma drop_lost_sent: "\<exists>rest. snd (drop_lost_tunnel env ch (ts, sent)) = sent @ rest"
  using send_frame_to_prefix by (auto simp: drop_lost_tunnel_def split: option.splits)

lemma drop_all_sent: "\<exists>rest. snd (fold (drop_lost_tunnel env) lost (ts, sent)) = sent @ rest"
proof (induction lost arbitrary: ts sent)
  case (Cons ch lost)
  obtain us se where d: "drop_lost_tunnel env ch (ts, sent) = (us, se)" by fastforce
  then show ?case using Cons.IH [of us se] drop_lost_sent [of env ch ts sent] by auto
qed simp

lemma drop_all_told:
  assumes "tunnels_ok ts" and "t \<in> set ts" and "tc_channel_id t \<in> set lost"
    and "serialize_frame (ip_disconnect_request (tc_channel_id t) (nat_udp (local_port env))) = Some bytes"
  shows "(bytes, tc_ctrl_addr t) \<in> set (snd (fold (drop_lost_tunnel env) lost (ts, sent)))"
  using assms
proof (induction lost arbitrary: ts sent)
  case (Cons ch lost)
  obtain us se where d: "drop_lost_tunnel env ch (ts, sent) = (us, se)" by fastforce
  show ?case
  proof (cases "tc_channel_id t = ch")
    case False
    then have "t \<in> set us" using drop_lost_filter [OF Cons.prems(1), of env ch sent] d Cons.prems(2) by simp
    then show ?thesis
      using Cons.IH [of us se] drop_lost_ok [OF d Cons.prems(1)] Cons.prems False by (simp add: d)
  next
    case True
    then obtain i where i: "find_index (\<lambda>t. tc_channel_id t = ch) ts = Some i"
      using Cons.prems(2) by (cases "find_index (\<lambda>t. tc_channel_id t = ch) ts") (auto simp: find_index_None)
    then have "ts ! i = t"
      using Cons.prems(1,2) True by (auto simp: find_index_Some tunnels_ok_def distinct_map dest!: inj_onD)
    then have "(bytes, tc_ctrl_addr t) \<in> set se"
      using d i Cons.prems(4) True by (auto simp: drop_lost_tunnel_def send_frame_to_def send_to_def)
    then show ?thesis using drop_all_sent [of env lost us se] d by auto
  qed
qed simp

lemma expire_acks_client:
  assumes "tunnels_ok ts" and "t \<in> set ts" and "expire_acks env ts sent = (ts', sent')"
  shows "case ack_expiry (env_now env) t of
      Waiting \<Rightarrow> t \<in> set ts'
    | SendAgain \<Rightarrow> (\<exists>se. fst (transmit env t se) \<in> set ts')
    | Lost \<Rightarrow> tc_channel_id t \<notin> tc_channel_id ` set ts' \<and>
        (\<exists>bytes. serialize_frame (ip_disconnect_request (tc_channel_id t) (nat_udp (local_port env))) = Some bytes \<and>
          (bytes, tc_ctrl_addr t) \<in> set sent')"
proof -
  obtain us lost se where l: "expire_loop env ts sent = (us, lost, se)" by (cases "expire_loop env ts sent")
  have f: "fold (drop_lost_tunnel env) lost (us, se) = (ts', sent')" using assms(3) by (simp add: expire_acks_def l)
  have c: "list_all client_ok ts" using assms(1) by (simp add: tunnels_ok_def)
  have u: "tunnels_ok us" using expire_loop_keeps [OF l c] tunnels_ok_keeps [OF assms(1)] by blast
  have ts': "ts' = filter (\<lambda>t. tc_channel_id t \<notin> set lost) us" using drop_all_filter [OF u, of env lost se] f by simp
  have inj: "v = t" if "v \<in> set ts" "tc_channel_id v = tc_channel_id t" for v
    using that assms(1,2) by (auto simp: tunnels_ok_def distinct_map dest: inj_onD)
  have lost: "ack_expiry (env_now env) t = Lost" if "tc_channel_id t \<in> set lost"
  proof -
    from that obtain v where v: "v \<in> set ts" "ack_expiry (env_now env) v = Lost" "tc_channel_id v = tc_channel_id t"
      unfolding expire_loop_lost [OF l] by auto
    with inj [OF v(1,3)] show ?thesis by simp
  qed
  note cl = expire_loop_client [OF assms(2), of env sent, unfolded l fst_conv snd_conv]
  have id: "tc_channel_id (fst (transmit env t se)) = tc_channel_id t" for se
    by (simp add: transmit_def send_to_def Let_def split: option.split)
  obtain bytes where b: "serialize_frame (ip_disconnect_request (tc_channel_id t) (nat_udp (local_port env))) = Some bytes"
    using disconnect_request_written by blast
  show ?thesis
  proof (cases "ack_expiry (env_now env) t")
    case Waiting
    then show ?thesis using cl lost by (auto simp: ts')
  next
    case SendAgain
    then obtain e where "fst (transmit env t e) \<in> set us" using cl by auto
    then have "fst (transmit env t e) \<in> set ts'" using SendAgain lost id [of e] by (auto simp: ts')
    then show ?thesis using SendAgain by auto
  next
    case Lost
    then have "t \<in> set us" "tc_channel_id t \<in> set lost" using cl by simp_all
    then show ?thesis using drop_all_told [OF u _ _ b, of lost se] Lost b f by (auto simp: ts')
  qed
qed

text \<open>A datagram from elsewhere leaves a client alone.\<close>

lemma keep_at: "t \<in> set ts \<Longrightarrow> i < length ts \<Longrightarrow> ts ! i \<noteq> t \<Longrightarrow> t \<in> set (ts[i := x])"
  by (metis in_set_conv_nth length_list_update nth_list_update_neq)

lemma found_in: "List.find P xs = Some v \<Longrightarrow> v \<in> set xs \<and> P v"
  by (induction xs) (auto split: if_splits)

lemma foreign_datagram:
  assumes "tunnels_ok (sv_tunnels s)" and "t \<in> set (sv_tunnels s)" and "src \<noteq> tc_ctrl_addr t" and "src \<noteq> tc_data_addr t"
  shows "t \<in> set (sv_tunnels (fst (handle_packet env data src s sent)))"
proof (cases "knxip_parse data")
  case (Inr frame)
  have inj: "v = t" if "v \<in> set (sv_tunnels s)" "tc_channel_id v = tc_channel_id t" for v
    using that assms(1,2) by (auto simp: tunnels_ok_def distinct_map dest: inj_onD)
  show ?thesis
  proof (cases "service_type frame")
    case ConnectRequest
    then show ?thesis
      using assms(2) by (auto simp: handle_packet_def Inr handle_connect_def Let_def split: option.splits if_splits prod.splits)
  next
    case ConnectionStateRequest
    then show ?thesis
      using assms(2,3) by (auto simp: handle_packet_def Inr handle_heartbeat_def Let_def find_index_Some intro!: keep_at split: option.splits if_splits)
  next
    case DisconnectRequest
    have "tc_channel_id t \<noteq> ch" if "List.find (\<lambda>v. tc_channel_id v = ch \<and> tc_ctrl_addr v = src) (sv_tunnels s) = Some v" for ch v
      using found_in [OF that] inj [of v] assms(3) by blast
    then show ?thesis
      using DisconnectRequest assms(2) by (auto simp: handle_packet_def Inr handle_disconnect_def Let_def split: if_splits)
  next
    case TunnelingRequest
    then show ?thesis
      using assms(2,4) by (auto simp: handle_packet_def Inr handle_tunneling_request_def Let_def find_index_Some
          intro!: keep_at split: option.splits if_splits sum.splits prod.splits)
  next
    case TunnelingAck
    then show ?thesis
      using assms(2,4) by (auto simp: handle_packet_def Inr handle_tunneling_ack_def find_index_Some intro!: keep_at split: option.splits prod.splits)
  qed (use assms(2) in \<open>auto simp: handle_packet_def Inr split: sum.splits\<close>)
qed (use assms(2) in \<open>simp add: handle_packet_def\<close>)

text \<open>
  C10: What one step of the server task does to a connected client, in any
  reachable state. A datagram from an address that is neither of the client's two endpoints
  leaves it as it is, and so does an expired deadline of another client: only its own silence
  costs a client its tunnel, after three transmissions of a frame that were each given their
  time; it is told so, and its channel is free. A frame the application sends is queued for it;
  a cleanup removes it exactly when it was silent for 120 seconds.
\<close>
theorem tunnel_client_steps:
  assumes "server_reachable mc s sent" and "t \<in> set (sv_tunnels s)"
    and "server_step mc env input (s, sent) = Some (s', sent')"
  shows "case input of
      Datagram data src \<Rightarrow> src \<notin> {tc_ctrl_addr t, tc_data_addr t} \<longrightarrow> t \<in> set (sv_tunnels s')
    | AckDue \<Rightarrow>
        (case tc_in_flight t of None \<Rightarrow> t \<in> set (sv_tunnels s')
         | Some f \<Rightarrow>
           if env_now env < if_deadline f then t \<in> set (sv_tunnels s')
           else if if_attempts f < 3 then \<exists>se. fst (transmit env t se) \<in> set (sv_tunnels s')
           else if_attempts f = 3 \<and> tc_channel_id t \<notin> tc_channel_id ` set (sv_tunnels s') \<and>
             (\<exists>bytes. serialize_frame (ip_disconnect_request (tc_channel_id t) (nat_udp (local_port env))) = Some bytes \<and>
               (bytes, tc_ctrl_addr t) \<in> set sent'))
    | CmdSendFrame cemi \<Rightarrow> \<exists>se. fst (tunnel_offer env (as_indication cemi) t se) \<in> set (sv_tunnels s')
    | CmdSendToTunnel ch cemi \<Rightarrow>
        if ch = tc_channel_id t then fst (tunnel_offer env (as_indication cemi) t sent) \<in> set (sv_tunnels s')
        else t \<in> set (sv_tunnels s')
    | CleanupTick \<Rightarrow> (t \<in> set (sv_tunnels s')) = (env_now env < tc_last_heartbeat t + 120 * 1000)
    | _ \<Rightarrow> t \<in> set (sv_tunnels s')"
proof -
  have ts: "tunnels_ok (sv_tunnels s)" using reachable_ok [OF assms(1)] by (simp add: server_ok_def)
  have c: "client_ok t" using ts assms(2) by (auto simp: tunnels_ok_def list_all_iff)
  have inj: "v = t" if "v \<in> set (sv_tunnels s)" "tc_channel_id v = tc_channel_id t" for v
    using that ts assms(2) by (auto simp: tunnels_ok_def distinct_map dest: inj_onD)
  show ?thesis
  proof (cases input)
    case (Datagram data src)
    then show ?thesis using foreign_datagram [OF ts assms(2), of src env data sent] assms(3) by (auto split: if_splits)
  next
    case (CmdSendFrame cemi)
    then show ?thesis
      using offer_all_client [OF assms(2)] assms(3) by (auto simp: send_to_all_def Let_def case_prod_beta)
  next
    case (CmdSendToTunnel ch cemi)
    show ?thesis
    proof (cases "find_index (\<lambda>t. tc_channel_id t = ch) (sv_tunnels s)")
      case None
      then have "s' = s" using assms(3) CmdSendToTunnel by (simp add: send_to_tunnel_client_def)
      moreover have "ch \<noteq> tc_channel_id t" using None assms(2) by (auto simp: find_index_None)
      ultimately show ?thesis using assms(2) CmdSendToTunnel by simp
    next
      case (Some i)
      then have i: "i < length (sv_tunnels s)" "tc_channel_id (sv_tunnels s ! i) = ch" by (auto simp: find_index_Some)
      have s': "sv_tunnels s' = (sv_tunnels s)[i := fst (tunnel_offer env (as_indication cemi) (sv_tunnels s ! i) sent)]"
        using assms(3) CmdSendToTunnel Some by (auto simp: send_to_tunnel_client_def case_prod_beta Let_def)
      show ?thesis
      proof (cases "ch = tc_channel_id t")
        case True
        then have "sv_tunnels s ! i = t" using inj i by simp
        then show ?thesis using CmdSendToTunnel True set_update_memI [OF i(1)] by (simp add: s')
      next
        case False
        then have "sv_tunnels s ! i \<noteq> t" using i(2) by auto
        then show ?thesis using CmdSendToTunnel False keep_at [OF assms(2) i(1)] by (simp add: s')
      qed
    qed
  next
    case AckDue
    obtain ts' se where e: "expire_acks env (sv_tunnels s) sent = (ts', se)" by fastforce
    then have s': "sv_tunnels s' = ts'" "sent' = se" using assms(3) AckDue by (auto split: option.splits if_splits)
    have "if_attempts f = 3" if "tc_in_flight t = Some f" "\<not> if_attempts f < 3" for f
      using c that by (auto simp: client_ok_def MAX_RETRIES_def)
    then show ?thesis
      using expire_acks_client [OF ts assms(2) e] AckDue
      by (auto simp: s' ack_expiry_def MAX_RETRIES_def split: option.splits if_splits)
  qed (use assms(2,3) in \<open>auto simp: cleanup_stale_tunnels_def TUNNEL_TIMEOUT_MS_def set_description_def split: if_splits\<close>)
qed

definition idle_client :: TunnelClient where
  "idle_client = tunnel_client_new 1 (V4 [192, 168, 1, 2] 3672) (V4 [192, 168, 1, 2] 3673) 5000"

theorem tunnel_client_steps_witness:
  "let env = sample_env\<lparr>env_now := 125000\<rparr>
   in sv_tunnels one_client = [idle_client] \<and>
      (\<exists>s'. server_step None env CleanupTick (one_client, connect_answer) = Some (s', connect_answer) \<and> idle_client \<notin> set (sv_tunnels s'))"
proof -
  let ?env = "sample_env\<lparr>env_now := 125000\<rparr>"
  let ?s = "one_client\<lparr>sv_tunnels := cleanup_stale_tunnels ?env (sv_tunnels one_client)\<rparr>"
  have m: "sv_tunnels one_client = [idle_client]" by (simp add: one_client_def idle_client_def)
  have st: "server_step None ?env CleanupTick (one_client, connect_answer) = Some (?s, connect_answer)" by simp
  have "idle_client \<notin> set (sv_tunnels ?s)"
    using tunnel_client_steps [OF one_client_reachable _ st, of idle_client] m
    by (simp add: idle_client_def tunnel_client_new_def sample_env_def)
  then show ?thesis unfolding Let_def using m st by blast
qed

text \<open>
  C8: In every state that the server task can reach, whatever datagrams,
  commands and failures it meets: at most four tunnels, with distinct channels that are never
  zero; at most 1024 events held back; and for each client at most 128 frames waiting, none of
  them unless one is on the wire. The frame on the wire was sent one to three times and is a
  tunnelling request on the client's channel with the sequence number the client is to
  acknowledge next.
\<close>
theorem server_invariant:
  assumes "server_reachable mc s sent"
  shows "length (sv_tunnels s) \<le> 4 \<and> distinct (map tc_channel_id (sv_tunnels s)) \<and>
    length (eq_backlog (sv_events s)) \<le> 1024 \<and>
    (\<forall>t\<in>set (sv_tunnels s). tc_channel_id t \<noteq> 0 \<and> length (tc_outbox t) \<le> 128 \<and>
      (case tc_in_flight t of
         None \<Rightarrow> tc_outbox t = []
       | Some f \<Rightarrow> if_attempts f \<in> {1, 2, 3} \<and> if_sequence f = tc_send_seq t \<and>
           (\<exists>cemi. knxip_parse (if_datagram f) = Inr (tunneling_request (tc_channel_id t) (tc_send_seq t) cemi))))"
proof -
  have a: "a \<in> {1, 2, 3}" if "1 \<le> a" "a \<le> 3" for a :: u8
  proof -
    have "unat a = 1 \<or> unat a = 2 \<or> unat a = 3" using that by (auto simp: word_le_nat_alt)
    then show ?thesis by (auto simp: word_unat_eq_iff)
  qed
  have p: "knxip_parse (tunnel_datagram ch n cemi) = Inr (tunneling_request ch n cemi)" if "tunnel_fits cemi" for ch n cemi
    using serialize_tunnel [OF that, of ch n] by (simp add: serialize_frame_iff knxip_written)
  have cl: "length (tc_outbox t) \<le> 128 \<and> (case tc_in_flight t of
       None \<Rightarrow> tc_outbox t = []
     | Some f \<Rightarrow> if_attempts f \<in> {1, 2, 3} \<and> if_sequence f = tc_send_seq t \<and>
         (\<exists>cemi. knxip_parse (if_datagram f) = Inr (tunneling_request (tc_channel_id t) (tc_send_seq t) cemi)))"
    if "client_ok t" for t
  proof (cases "tc_in_flight t")
    case None
    then show ?thesis using that by (simp add: client_ok_def)
  next
    case (Some f)
    then show ?thesis
      using that a [of "if_attempts f"] p [of "flight_cemi f"]
      by (auto simp: client_ok_def MAX_CLIENT_QUEUE_def MAX_RETRIES_def simp del: insert_iff)
  qed
  have "tunnels_ok (sv_tunnels s)" "length (eq_backlog (sv_events s)) \<le> MAX_EVENT_BACKLOG"
    using reachable_ok [OF assms] by (simp_all add: server_ok_def)
  then show ?thesis
    using cl by (auto simp: tunnels_ok_def list_all_iff MAX_TUNNELS_def MAX_EVENT_BACKLOG_def simp del: insert_iff)
qed

theorem server_invariant_witness: "length (sv_tunnels one_client) \<le> 4 \<and> length (sv_tunnels one_client) = 1"
  using server_invariant [OF one_client_reachable] by (simp add: one_client_def)

end
