(* ===== verification/Ip_Requests.thy ===== *)
theory Ip_Requests
  imports Ip_Steps
begin

text \<open>
  The frames that tunnel clients send to the device server: what a confirmation is, and that each
  request is taken over exactly once, however often its datagram is repeated.
\<close>

section \<open>Message codes changed in place\<close>

definition recode :: "u8 \<Rightarrow> CemiFrame \<Rightarrow> CemiFrame" where
  "recode mc f = f\<lparr>frame_data := (frame_data f)[0 := mc]\<rparr>"

lemma recode_wf: "cemi_wf f \<Longrightarrow> message_code_try_from mc = Inr x \<Longrightarrow> cemi_wf (recode mc f)"
  by (auto simp: recode_def cemi_wf_def Let_def)

lemma recode_view: "cemi_wf f \<Longrightarrow> cemi_view_of (recode mc f) = (cemi_view_of f)\<lparr>v_code := mc\<rparr>"
proof -
  assume wf: "cemi_wf f"
  have "0 < length (frame_data f)" "2 \<le> ctrl_offset f" using cemi_wfD [OF wf] by linarith+
  then show ?thesis by (simp add: recode_def message_code_raw_def view_defs)
qed

text \<open>The confirmation is the request under another message code, with the confirm flag cleared.\<close>

lemma confirmation_eq:
  assumes "cemi_wf f"
  shows "confirmation_of f =
    (if message_code_raw f = message_code_u8 LDataReq
     then Some (as_bytes (set_confirm NoError (recode (message_code_u8 LDataCon) f))) else None)"
proof -
  have c: "2 + unat (frame_data f ! 1) = ctrl_offset f" "ctrl_offset f < length (frame_data f)" "1 < length (frame_data f)"
    "frame_data f \<noteq> []"
    using cemi_wfD [OF assms] assms by (auto simp: cemi_wf_def Let_def)
  then show ?thesis
    by (auto simp: confirmation_of_def as_bytes_def message_code_raw_def set_confirm_def set_ctrl_def recode_def
        set_masked_def CONFIRM_FLAG_def control_masks Let_def)
qed

lemma confirmation_parses:
  assumes "cemi_wf f" and "confirmation_of f = Some bytes"
  shows "\<exists>c. cemi_parse bytes = Inr c \<and>
    cemi_view_of c = (cemi_view_of f)\<lparr>v_code := message_code_u8 LDataCon, v_confirm := NoError\<rparr>"
proof -
  let ?r = "recode (message_code_u8 LDataCon) f"
  have r: "cemi_wf ?r" by (rule recode_wf [OF assms(1), of _ LDataCon]) (simp add: message_code_try_from_def)
  have b: "bytes = as_bytes (set_confirm NoError ?r)" using assms(2) confirmation_eq [OF assms(1)] by (simp split: if_splits)
  have "cemi_parse bytes = Inr (set_confirm NoError ?r)"
    unfolding b using cemi_apply_wf [OF r, of "SetConfirm NoError"] by (simp add: reparse_wf)
  moreover have "cemi_view_of (set_confirm NoError ?r) = (cemi_view_of f)\<lparr>v_code := message_code_u8 LDataCon, v_confirm := NoError\<rparr>"
    using cemi_apply_view [OF r, of "SetConfirm NoError"] recode_view [OF assms(1)] by simp
  ultimately show ?thesis by blast
qed

section \<open>Requests\<close>

lemma serialize_ack: "\<exists>bytes. serialize_frame (tunneling_ack ch n st) = Some bytes"
  by (rule serialize_frame_fits) (simp add: tunneling_ack_def connection_header_to_bytes_def)

definition ack_datagram :: "u8 \<Rightarrow> u8 \<Rightarrow> u8 \<Rightarrow> u8 list" where
  "ack_datagram ch n st = the (serialize_frame (tunneling_ack ch n st))"

lemma send_ack_eq: "send_tunneling_ack env dst ch n st sent = sent @ [(ack_datagram ch n st, dst)]"
  using serialize_ack [of ch n st] by (auto simp: send_tunneling_ack_def send_frame_to_def send_to_def ack_datagram_def)

lemma ack_datagram_parses: "knxip_parse (ack_datagram ch n st) = Inr (tunneling_ack ch n st)"
proof -
  obtain bytes where b: "serialize_frame (tunneling_ack ch n st) = Some bytes" using serialize_ack by blast
  then show ?thesis using knxip_written [of _ bytes] by (simp add: ack_datagram_def serialize_frame_iff [symmetric])
qed

text \<open>The channel of a client finds it.\<close>

lemma find_channel_of:
  assumes "tunnels_ok ts" and "t \<in> set ts"
  shows "\<exists>i. find_index (\<lambda>v. tc_channel_id v = tc_channel_id t) ts = Some i \<and> ts ! i = t"
proof -
  obtain i where i: "find_index (\<lambda>v. tc_channel_id v = tc_channel_id t) ts = Some i"
    using assms(2) by (cases "find_index (\<lambda>v. tc_channel_id v = tc_channel_id t) ts") (auto simp: find_index_None)
  then have "ts ! i = t"
    using assms by (auto simp: find_index_Some tunnels_ok_def distinct_map dest!: inj_onD)
  with i show ?thesis by blast
qed

text \<open>The client after its request was taken over.\<close>

definition took_over :: "IpEnv \<Rightarrow> CemiFrame \<Rightarrow> TunnelClient \<Rightarrow> Sent \<Rightarrow> TunnelClient \<times> Sent" where
  "took_over env c t sent =
     (let t = t\<lparr>tc_recv_seq := tc_recv_seq t + 1\<rparr> in
      case confirmation_of c of Some confirmation \<Rightarrow> tunnel_offer env confirmation t sent | None \<Rightarrow> (t, sent))"

lemma request_handled:
  assumes "tunnels_ok ts" and "t \<in> set ts" and "src = tc_data_addr t"
    and "body frame = body (tunneling_request (tc_channel_id t) n cemi)" and "cemi_parse cemi = Inr c"
  shows "\<exists>i. i < length ts \<and> ts ! i = t \<and> handle_tunneling_request env src frame ts q sent =
    (let sent = sent @ [(ack_datagram (tc_channel_id t) n E_NO_ERROR, src)] in
     if n \<noteq> tc_recv_seq t then (ts, q, sent)
     else let (t', sent) = took_over env c t sent in (ts[i := t'], event_push env (TunnelFrame c) q, sent))"
proof -
  obtain i where i: "find_index (\<lambda>v. tc_channel_id v = tc_channel_id t) ts = Some i" "ts ! i = t"
    using find_channel_of [OF assms(1,2)] by blast
  have h: "connection_header_parse (body frame) = Some \<lparr>channel_id = tc_channel_id t, sequence_counter = n, ch_status = E_NO_ERROR\<rparr>"
    "drop (unat CONNECTION_HEADER_LEN) (body frame) = cemi"
    by (simp_all add: assms(4) tunneling_request_def connection_header_inverse)
      (simp add: connection_header_to_bytes_def CONNECTION_HEADER_LEN_def)
  show ?thesis
  proof (intro exI conjI)
    show "i < length ts" using i(1) by (simp add: find_index_Some)
  qed (use i in \<open>auto simp: handle_tunneling_request_def h assms(3,5) send_ack_eq took_over_def Let_def\<close>)
qed

lemma packet_request:
  assumes "knxip_parse data = Inr frame" and "service_type frame = TunnelingRequest"
  shows "handle_packet env data src s sent =
    (let (ts, q, sent) = handle_tunneling_request env src frame (sv_tunnels s) (sv_events s) sent
     in (s\<lparr>sv_tunnels := ts, sv_events := q\<rparr>, sent))"
  using assms by (simp add: handle_packet_def)

lemma server_unchanged [simp]: "s\<lparr>sv_tunnels := sv_tunnels s, sv_events := sv_events s\<rparr> = s"
  by (cases s) simp

lemma queue_ignores_recv [simp]: "tunnel_queue (t\<lparr>tc_recv_seq := n\<rparr>) = tunnel_queue t"
  by (simp add: tunnel_queue_def cong: option.case_cong)

lemma took_over_client:
  assumes "client_ok t" and "cemi_parse cemi = Inr c"
  shows "tc_channel_id (fst (took_over env c t sent)) = tc_channel_id t \<and>
    tc_data_addr (fst (took_over env c t sent)) = tc_data_addr t \<and>
    tc_recv_seq (fst (took_over env c t sent)) = tc_recv_seq t + 1 \<and>
    tunnel_queue (fst (took_over env c t sent)) = (case confirmation_of c of
        Some confirmation \<Rightarrow> queue_offer (1 + MAX_CLIENT_QUEUE) confirmation (tunnel_queue t) | None \<Rightarrow> tunnel_queue t)"
proof (cases "confirmation_of c")
  case (Some confirmation)
  let ?t = "t\<lparr>tc_recv_seq := tc_recv_seq t + 1\<rparr>"
  have t: "client_ok ?t" using assms(1) by simp
  have f: "tunnel_fits confirmation" using confirmation_fits [OF parsed_wf [OF assms(2)] Some] .
  show ?thesis
    using tunnel_step_fields [OF t, of "Offer confirmation" env sent] client.offer_step [of "(?t, sent)" confirmation env] t f
    by (simp add: took_over_def Some Let_def case_prod_beta)
qed (simp add: took_over_def)

lemma took_over_sent:
  assumes "client_ok t" and "cemi_parse cemi = Inr c"
  shows "snd (took_over env c t sent) = sent @ (case confirmation_of c of
      Some confirmation \<Rightarrow> if tunnel_queue t = [] then [(tunnel_datagram (tc_channel_id t) (tc_send_seq t) confirmation, tc_data_addr t)] else []
    | None \<Rightarrow> [])"
proof (cases "confirmation_of c")
  case (Some confirmation)
  let ?t = "t\<lparr>tc_recv_seq := tc_recv_seq t + 1\<rparr>"
  have t: "client_ok ?t" using assms(1) by simp
  have f: "tunnel_fits confirmation" using confirmation_fits [OF parsed_wf [OF assms(2)] Some] .
  show ?thesis
    using offer_eq [OF t f, of env sent] queue_empty [OF assms(1)]
    by (simp add: took_over_def Some Let_def)
qed (simp add: took_over_def)

text \<open>
  C11: A tunnelling request from a connected client is always acknowledged
  under its own number, and taken over exactly when it has the number the server expects: the
  application gets its frame, the expected number moves on, and an L_Data.req joins the
  client's queue as an L_Data.con that differs from it in the message code and the confirm flag
  only. What the server sends is stated exactly: the acknowledgement first, and after it the
  confirmation when nothing else waits for the client. The same datagram again is acknowledged again
  and has no other effect.
\<close>
theorem tunnel_request_once:
  assumes "server_reachable mc s sent" and "t \<in> set (sv_tunnels s)"
    and "knxip_parse data = Inr (tunneling_request (tc_channel_id t) n cemi)"
    and "cemi_parse cemi = Inr c"
    and "handle_packet env data (tc_data_addr t) s sent = (s', sent')"
    and "handle_packet env' data (tc_data_addr t) s' sent' = (s'', sent'')"
  shows "let a = (ack_datagram (tc_channel_id t) n E_NO_ERROR, tc_data_addr t) in
    knxip_parse (fst a) = Inr (tunneling_ack (tc_channel_id t) n E_NO_ERROR) \<and>
    (if n \<noteq> tc_recv_seq t then s' = s \<and> sent' = sent @ [a]
     else sv_events s' = event_push env (TunnelFrame c) (sv_events s) \<and>
       (\<exists>t'\<in>set (sv_tunnels s'). tc_channel_id t' = tc_channel_id t \<and> tc_recv_seq t' = tc_recv_seq t + 1 \<and>
          (if message_code_raw c = message_code_u8 LDataReq
           then \<exists>confirmation c'. tunnel_queue t' = queue_offer 129 confirmation (tunnel_queue t) \<and>
             cemi_parse confirmation = Inr c' \<and>
             cemi_view_of c' = (cemi_view_of c)\<lparr>v_code := message_code_u8 LDataCon, v_confirm := NoError\<rparr> \<and>
             sent' = sent @ [a] @ (if tunnel_queue t = []
               then [(tunnel_datagram (tc_channel_id t) (tc_send_seq t) confirmation, tc_data_addr t)] else [])
           else tunnel_queue t' = tunnel_queue t \<and> sent' = sent @ [a])) \<and>
       s'' = s' \<and> sent'' = sent' @ [a])"
proof -
  have ts: "tunnels_ok (sv_tunnels s)" using reachable_ok [OF assms(1)] by (simp add: server_ok_def)
  have ct: "client_ok t" using ts assms(2) by (auto simp: tunnels_ok_def list_all_iff)
  let ?f = "tunneling_request (tc_channel_id t) n cemi"
  have sf: "service_type ?f = TunnelingRequest" by (simp add: tunneling_request_def)
  let ?a = "(ack_datagram (tc_channel_id t) n E_NO_ERROR, tc_data_addr t)"
  obtain i where i: "i < length (sv_tunnels s)" "sv_tunnels s ! i = t" and h:
    "handle_tunneling_request env (tc_data_addr t) ?f (sv_tunnels s) (sv_events s) sent =
      (if n \<noteq> tc_recv_seq t then (sv_tunnels s, sv_events s, sent @ [?a])
       else let (t', se) = took_over env c t (sent @ [?a])
         in ((sv_tunnels s)[i := t'], event_push env (TunnelFrame c) (sv_events s), se))"
    using request_handled [OF ts assms(2) refl refl assms(4), of env n "sv_events s" sent] unfolding Let_def by blast
  note first = assms(5) [unfolded packet_request [OF assms(3) sf] h]
  show ?thesis
  proof (cases "n = tc_recv_seq t")
    case False
    then show ?thesis using first ack_datagram_parses by auto
  next
    case True
    obtain t' se where t': "took_over env c t (sent @ [?a]) = (t', se)" by fastforce
    note tk = took_over_client [OF ct assms(4), of env "sent @ [?a]", unfolded t' fst_conv]
      took_over_sent [OF ct assms(4), of env "sent @ [?a]", unfolded t' snd_conv]
    have s': "s' = s\<lparr>sv_tunnels := (sv_tunnels s)[i := t'], sv_events := event_push env (TunnelFrame c) (sv_events s)\<rparr>"
      "sent' = se" using first True t' by auto
    have m: "t' \<in> set (sv_tunnels s')" using i(1) by (simp add: s' set_update_memI)
    have "server_ok s'" using packet_ok [OF reachable_ok [OF assms(1)], of env data "tc_data_addr t" sent] assms(5) by simp
    then have ok: "tunnels_ok (sv_tunnels s')" by (simp add: server_ok_def)
    have "n \<noteq> tc_recv_seq t'" using True tk by simp
    moreover have "body ?f = body (tunneling_request (tc_channel_id t') n cemi)" using tk by simp
    ultimately have "handle_tunneling_request env' (tc_data_addr t') ?f (sv_tunnels s') (sv_events s') sent' =
        (sv_tunnels s', sv_events s', sent' @ [?a])"
      using request_handled [OF ok m refl _ assms(4), where frame = ?f and n = n and env = env' and q = "sv_events s'" and sent = sent'] tk by (auto simp: Let_def)
    then have again: "s'' = s'" "sent'' = sent' @ [?a]"
      using assms(6) tk by (simp_all add: packet_request [OF assms(3) sf])
    have wf: "cemi_wf c" by (rule parsed_wf [OF assms(4)])
    have q: "if message_code_raw c = message_code_u8 LDataReq
        then \<exists>confirmation c'. tunnel_queue t' = queue_offer 129 confirmation (tunnel_queue t) \<and>
          cemi_parse confirmation = Inr c' \<and>
          cemi_view_of c' = (cemi_view_of c)\<lparr>v_code := message_code_u8 LDataCon, v_confirm := NoError\<rparr> \<and>
          sent' = sent @ [?a] @ (if tunnel_queue t = []
            then [(tunnel_datagram (tc_channel_id t) (tc_send_seq t) confirmation, tc_data_addr t)] else [])
        else tunnel_queue t' = tunnel_queue t \<and> sent' = sent @ [?a]"
    proof (cases "confirmation_of c")
      case None
      then show ?thesis using tk confirmation_eq [OF wf] s'(2) by (simp split: if_splits)
    next
      case (Some confirmation)
      then show ?thesis
        using tk confirmation_eq [OF wf] confirmation_parses [OF wf Some] s'(2) by (auto simp: MAX_CLIENT_QUEUE_def split: if_splits)
    qed
    have ev: "sv_events s' = event_push env (TunnelFrame c) (sv_events s)" by (simp add: s')
    have served: "tc_channel_id t' = tc_channel_id t" "tc_recv_seq t' = tc_recv_seq t + 1" using tk by simp_all
    have no: "\<not> n \<noteq> tc_recv_seq t" using True by simp
    show ?thesis
      unfolding Let_def if_not_P [OF no]
      by (intro conjI bexI [of _ t']) (rule served q m | simp add: ev again ack_datagram_parses)+
  qed
qed

definition read_request :: "u8 list" where
  "read_request = [0x11, 0, 0xBC, 0xE0, 0, 0, 8, 1, 1, 0, 0]"

definition request_octets :: "u8 list" where
  "request_octets = tunnel_datagram 1 0 read_request"

lemma read_request_parses: "cemi_parse read_request = Inr \<lparr>frame_data = read_request, ctrl_offset = 2\<rparr>"
  by (simp add: cemi_parse_def read_request_def message_code_try_from_def frame_offsets Let_def)

theorem tunnel_request_once_witness:
  "\<exists>s' sent'. handle_packet sample_env request_octets (V4 [192, 168, 1, 2] 3673) one_client connect_answer = (s', sent') \<and>
     eq_taken (sv_events s') = [TunnelFrame \<lparr>frame_data = read_request, ctrl_offset = 2\<rparr>]"
proof -
  obtain s' sent' where 1: "handle_packet sample_env request_octets (tc_data_addr idle_client) one_client connect_answer = (s', sent')"
    by fastforce
  obtain s'' sent'' where 2: "handle_packet sample_env request_octets (tc_data_addr idle_client) s' sent' = (s'', sent'')"
    by fastforce
  have m: "idle_client \<in> set (sv_tunnels one_client)" by (simp add: one_client_def idle_client_def)
  have p: "knxip_parse request_octets = Inr (tunneling_request (tc_channel_id idle_client) 0 read_request)"
  proof -
    have "tunnel_fits read_request" by (simp add: tunnel_fits_def read_request_def)
    from serialize_tunnel [OF this, of 1 0] have "knxip_try_to_bytes (tunneling_request 1 0 read_request) = Inr request_octets"
      by (simp only: serialize_frame_iff request_octets_def)
    from knxip_written [OF this] show ?thesis by (simp add: idle_client_def tunnel_client_new_def)
  qed
  have "sv_events s' = event_push sample_env (TunnelFrame \<lparr>frame_data = read_request, ctrl_offset = 2\<rparr>) (sv_events one_client)"
    using tunnel_request_once [OF one_client_reachable m p read_request_parses 1 2]
    by (simp add: Let_def idle_client_def tunnel_client_new_def)
  moreover have "tc_data_addr idle_client = V4 [192, 168, 1, 2] 3673" by (simp add: idle_client_def tunnel_client_new_def)
  ultimately show ?thesis
    using 1 by (auto simp: event_push_def one_client_def server_init_def sample_env_def)
qed

end
