(* ===== verification/Ip_Discovery.thy ===== *)
theory Ip_Discovery
  imports Ip_Requests
begin

text \<open>
  Discovery: the client side (\<^verbatim>\<open>knx-rs-ip/src/discovery.rs\<close>) and what the searches of a client find on the device server. Shown: a search is answered with a
  response that the client reads as the description the server was started with, and an
  extended search is answered exactly when the server satisfies every mandatory selector.
\<close>

section \<open>The client\<close>

record GatewayInfo =
  gi_address :: SocketAddr
  gi_name :: "u32 list"
  gi_individual_address :: u16
  gi_raw_body :: "u8 list"

datatype SearchResponseParseError = SrFrame KnxIpParseError | ControlEndpoint | SrDib DibParseError
  | MissingDeviceInformation | MissingSupportedServiceFamilies

definition map_err :: "('e \<Rightarrow> 'f) \<Rightarrow> 'e + 'a \<Rightarrow> 'f + 'a" where
  "map_err f = map_sum f id"

definition parse_search_response :: "u8 list \<Rightarrow> SocketAddr \<Rightarrow> SearchResponseParseError + GatewayInfo option" where
  "parse_search_response data src =
     bind_res (map_err SrFrame (knxip_parse data)) (\<lambda>frame.
     if service_type frame \<noteq> SearchResponse then Inr None
     else let bdy = body frame in
       bind_res (ok_or (hpai_parse bdy) ControlEndpoint) (\<lambda>h.
       let address = (if is_unspecified h then socket_addr_with_port src (port h) else V4 (ip h) (port h)) in
       bind_res (map_err SrDib (dib_sequence_parse (drop (unat HPAI_LEN) bdy))) (\<lambda>dibs.
       bind_res (bind_res (ok_or (dib_get DeviceInformation dibs) MissingDeviceInformation)
          (\<lambda>d. map_err SrDib (device_information_parse d))) (\<lambda>v.
       bind_res (ok_or (dib_get SupportedServiceFamilies dibs) MissingSupportedServiceFamilies) (\<lambda>_.
       Inr (Some \<lparr>gi_address = address, gi_name = did_friendly_name v,
         gi_individual_address = did_individual_address v, gi_raw_body = bdy\<rparr>))))))"

definition discovery_hpai :: "u8 list \<Rightarrow> u16 \<Rightarrow> Hpai" where
  "discovery_hpai local_addr p =
     \<lparr>protocol = Ipv4Udp, ip = (if local_addr = UNSPECIFIED then [0, 0, 0, 0] else local_addr), port = p\<rparr>"

text \<open>
  \<open>discover_on\<close>: the search request, and what the loop makes of the datagrams that arrive before the
  deadline. A response that cannot be parsed is passed over, and so is a receive error.
\<close>

definition discovery_request :: "Hpai \<Rightarrow> KnxIpParseError + u8 list" where
  "discovery_request h = knxip_try_to_bytes \<lparr>service_type = SearchRequest, body = hpai_to_bytes h\<rparr>"

fun discover_collect :: "(string + u8 list \<times> SocketAddr) list \<Rightarrow> GatewayInfo list" where
  "discover_collect [] = []"
| "discover_collect (Inl error # rest) = discover_collect rest"
| "discover_collect (Inr (data, src) # rest) =
     (case parse_search_response data src of
        Inr (Some info) \<Rightarrow> info # discover_collect rest
      | _ \<Rightarrow> discover_collect rest)"

section \<open>A search finds the server\<close>

text \<open>What a client learns of a description: the name is cut to thirty characters of ISO 8859-1.\<close>

definition shown_name :: "u32 list \<Rightarrow> u32 list" where
  "shown_name name = map (\<lambda>c. if c \<le> 0xFF then c else 0x3F) (takeWhile (\<lambda>c. c \<noteq> 0) (take 30 name))"

definition env_ok :: "IpEnv \<Rightarrow> bool" where
  "env_ok env \<longleftrightarrow> (case env_local_addr env of Some a \<Rightarrow> socket_addr_ok a | None \<Rightarrow> True) \<and>
     (\<forall>target a. env_probe env target = Some a \<longrightarrow> socket_addr_ok a)"

lemma control_endpoint_ok: "env_ok env \<Longrightarrow> hpai_ok (control_endpoint env src)"
proof -
  assume e: "env_ok env"
  have "\<And>target i p. env_probe env target = Some (V4 i p) \<Longrightarrow> length i = 4" using e by (fastforce simp: env_ok_def)
  then show ?thesis
    using e by (auto simp: control_endpoint_def source_address_towards_def hpai_ok_def nat_udp_def env_ok_def Let_def
        split: SocketAddr.split option.split)
qed

lemma families_length: "length (supported_service_families_dib (families routing)) \<le> 8"
  by (simp add: supported_service_families_dib_def families_def MAX_SERVICE_FAMILIES_def DIB_HEADER_LEN_def Let_def)

lemma description_length: "device_information_ok (description_information d routing) \<Longrightarrow> length (description_dibs d routing) \<le> 62"
  using families_length [of routing] by (simp add: description_dibs_def information_block)

lemma response_read:
  assumes "device_information_ok (description_information d routing)" and "hpai_ok h"
    and "serialize_frame (search_response h (description_dibs d routing)) = Some bytes"
  shows "parse_search_response bytes src = Inr (Some \<lparr>gi_address = hpai_to_socket_addr h src, gi_name = shown_name (dd_name d),
      gi_individual_address = ia_raw (dd_individual_address d), gi_raw_body = hpai_to_bytes h @ description_dibs d routing\<rparr>)"
proof -
  have p: "knxip_parse bytes = Inr (search_response h (description_dibs d routing))"
    using assms(3) by (simp add: serialize_frame_iff knxip_written)
  have n: "did_friendly_name \<lparr>did_dib = \<lparr>dib_bytes = device_information_to_bytes (description_information d routing)\<rparr>\<rparr> = shown_name (dd_name d)"
    by (simp add: did_friendly_name_def information_fields [OF assms(1)] latin1_name shown_name_def) (simp add: description_information_def)
  show ?thesis
    using description_blocks(1-3) [OF assms(1), of "families routing"] description_blocks(4) [OF assms(1)]
      hpai_inverse [OF assms(2)] information_fields(3) [OF assms(1)] n
    by (simp add: parse_search_response_def p map_err_def search_response_def HPAI_LEN_def hpai_to_socket_addr_def description_dibs_def
        Let_def description_information_def)
qed

text \<open>The reply goes to the endpoint the request names.\<close>

lemma search_answered:
  assumes "sv_description s = Some d" and "device_information_ok (description_information d (sv_routing s))" and "env_ok env"
    and "knxip_parse data = Inr (search_request h)" and "hpai_ok h" and "protocol h = Ipv4Udp"
  shows "\<exists>bytes. handle_packet env data src s sent = (s, sent @ [(bytes, hpai_to_socket_addr h src)]) \<and>
    serialize_frame (search_response (control_endpoint env src) (description_dibs d (sv_routing s))) = Some bytes"
proof -
  obtain bytes where b: "serialize_frame (search_response (control_endpoint env src) (description_dibs d (sv_routing s))) = Some bytes"
    using serialize_frame_fits [of "search_response (control_endpoint env src) (description_dibs d (sv_routing s))"]
      description_length [OF assms(2)] by (fastforce simp: search_response_def)
  have "reply_endpoint (body (search_request h)) src = Some (hpai_to_socket_addr h src)"
    using hpai_inverse [OF assms(5), of "[]"] assms(6) by (simp add: reply_endpoint_def search_request_def)
  then show ?thesis
    using b assms(1,4) by (auto simp: handle_packet_def search_request_def handle_search_def send_frame_to_def send_to_def)
qed

definition sample_description :: DeviceDescription where
  "sample_description = device_description_new [75, 78, 88] (IndividualAddress 0x1101) [0, 250, 0, 0, 0, 1] [1, 2, 3, 4, 5, 6]"

text \<open>
  C15: A client that searches finds the server. The server answers a search for
  which it has a description, to the endpoint the search names (or to its sender, in NAT mode),
  and changes nothing else. The client reads the answer as a gateway with the
  individual address and the name of the description, the name cut to thirty ISO 8859-1 characters, at the
  control endpoint the server gave; if the server could not name one, at the address
  the answer came from, with the server's port.
\<close>
theorem discovery_answered:
  assumes "sv_description s = Some d" and "device_information_ok (description_information d (sv_routing s))" and "env_ok env"
    and "discovery_request (discovery_hpai own p) = Inr data" and "length own = 4"
  shows "\<exists>bytes reply_to. handle_packet env data src s sent = (s, sent @ [(bytes, reply_to)]) \<and>
    reply_to = hpai_to_socket_addr (discovery_hpai own p) src \<and>
    (\<exists>info. discover_collect [Inr (bytes, server)] = [info] \<and> gi_name info = shown_name (dd_name d) \<and>
      gi_individual_address info = ia_raw (dd_individual_address d) \<and>
      gi_address info =
        (case (src, env_local_addr env) of
           (V4 _ _, Some (V4 bound q)) \<Rightarrow> if bound \<noteq> UNSPECIFIED then V4 bound q
             else hpai_to_socket_addr (control_endpoint env src) server
         | _ \<Rightarrow> hpai_to_socket_addr (control_endpoint env src) server))"
proof -
  let ?h = "discovery_hpai own p" and ?c = "control_endpoint env src"
  have h: "hpai_ok ?h" "protocol ?h = Ipv4Udp" using assms(5) by (simp_all add: discovery_hpai_def hpai_ok_def)
  have "knxip_parse data = Inr (search_request ?h)"
    using assms(4) unfolding discovery_request_def search_request_def by (rule knxip_written)
  from search_answered [OF assms(1-3) this h] obtain bytes where
    b: "handle_packet env data src s sent = (s, sent @ [(bytes, hpai_to_socket_addr ?h src)])"
    "serialize_frame (search_response ?c (description_dibs d (sv_routing s))) = Some bytes" by blast
  note r = response_read [OF assms(2) control_endpoint_ok [OF assms(3)] b(2), of server]
  have "hpai_to_socket_addr ?c server = V4 bound q"
    if "src = V4 i j" "env_local_addr env = Some (V4 bound q)" "bound \<noteq> UNSPECIFIED" for i j bound q
    using that by (simp add: control_endpoint_def local_port_def hpai_to_socket_addr_def is_unspecified_def UNSPECIFIED_def)
  with r b show ?thesis by (auto split: SocketAddr.split option.split)
qed

definition described :: ServerState where
  "described = server_init (Some sample_description) None"

theorem discovery_answered_witness:
  "\<exists>data bytes. discovery_request (discovery_hpai [192, 168, 1, 7] 50000) = Inr data \<and>
     handle_packet sample_env data (V4 [192, 168, 1, 7] 50000) described [] = (described, [(bytes, V4 [192, 168, 1, 7] 50000)]) \<and>
     map gi_address (discover_collect [Inr (bytes, V4 [192, 168, 1, 9] 3671)]) = [V4 [192, 168, 1, 9] 3671]"
proof -
  let ?own = "[192, 168, 1, 7] :: u8 list"
  obtain data where d: "discovery_request (discovery_hpai ?own 50000) = Inr data"
    by (simp add: discovery_request_def knxip_try_to_bytes_def Let_def)
  have 1: "sv_description described = Some sample_description" by (simp add: described_def server_init_def)
  have 2: "device_information_ok (description_information sample_description (sv_routing described))"
    by (simp add: device_information_ok_def description_information_def sample_description_def device_description_new_def
        KNX_MULTICAST_ADDR_def)
  have 3: "env_ok sample_env" by (simp add: env_ok_def sample_env_def)
  have own: "length ?own = 4" by simp
  have "hpai_to_socket_addr (discovery_hpai ?own 50000) (V4 ?own 50000) = V4 ?own 50000"
    by (simp add: hpai_to_socket_addr_def discovery_hpai_def is_unspecified_def UNSPECIFIED_def)
  with discovery_answered [OF 1 2 3 d own, of "V4 ?own 50000" "[]" "V4 [192, 168, 1, 9] 3671"] d show ?thesis
    by (auto simp: sample_env_def UNSPECIFIED_def)
qed

section \<open>The extended search\<close>

text \<open>The parameters a client can send, and what each asks of a server.\<close>

datatype SearchParam = InProgrammingMode | HasMac "u8 list" | Offers ServiceFamily u8 | WantsDibs "DibType list" | UnknownParam u8 "u8 list"

fun param_octets :: "SearchParam \<Rightarrow> u8 list" where
  "param_octets InProgrammingMode = programming_mode_srp"
| "param_octets (HasMac mac) = mac_address_srp mac"
| "param_octets (Offers family version) = service_srp family version"
| "param_octets (WantsDibs types) = (case request_dibs_srp types of Some b \<Rightarrow> b | None \<Rightarrow> [])"
| "param_octets (UnknownParam code data) = [of_nat (2 + length data), code] @ data"

fun param_ok :: "SearchParam \<Rightarrow> bool" where
  "param_ok (HasMac mac) \<longleftrightarrow> length mac = 6"
| "param_ok (WantsDibs types) \<longleftrightarrow> types \<noteq> []"
| "param_ok (UnknownParam code data) \<longleftrightarrow> length data \<le> 253 \<and> srp_type_from_raw (code AND TYPE_MASK) = None"
| "param_ok _ \<longleftrightarrow> True"

fun selects :: "SearchParam \<Rightarrow> DeviceDescription \<Rightarrow> bool \<Rightarrow> bool" where
  "selects InProgrammingMode d routing \<longleftrightarrow> dd_programming_mode d"
| "selects (HasMac mac) d routing \<longleftrightarrow> mac = dd_mac_address d"
| "selects (Offers family version) d routing \<longleftrightarrow> version \<le> 1 \<and>
     (family = FamilyCore \<or> family = FamilyTunneling \<or> family = FamilyRouting \<and> routing)"
| "selects (WantsDibs types) d routing \<longleftrightarrow> True"
| "selects (UnknownParam code data) d routing \<longleftrightarrow> code AND MANDATORY_FLAG = 0"

lemma service_family_inj: "service_family_u8 f = service_family_u8 g \<longleftrightarrow> f = g"
  by (cases f; cases g; simp)

lemma request_dibs_eq:
  assumes "types \<noteq> []"
  shows "\<exists>data. data \<noteq> [] \<and> length data \<le> 253 \<and> request_dibs_srp types = Some (srp_build RequestDibs False data)"
proof -
  let ?t = "take (min (length types) 252) types"
  let ?d = "if length ?t mod 2 = 1 then map dib_type_u8 ?t @ [0] else map dib_type_u8 ?t"
  have "request_dibs_srp types = Some (srp_build RequestDibs False ?d)" using assms by (simp add: request_dibs_srp_def Let_def)
  moreover have "?d \<noteq> []" using assms by auto
  moreover have "length ?d \<le> 253" by auto
  ultimately show ?thesis by blast
qed

lemma param_block:
  assumes "param_ok p"
  shows "srp_block (param_octets p)"
    and "(srp_satisfied d routing \<lparr>srp_bytes = param_octets p\<rparr> \<noteq> Some True \<and> is_mandatory \<lparr>srp_bytes = param_octets p\<rparr>) \<longleftrightarrow> \<not> selects p d routing"
proof -
  have "srp_block (param_octets p) \<and>
    ((srp_satisfied d routing \<lparr>srp_bytes = param_octets p\<rparr> \<noteq> Some True \<and> is_mandatory \<lparr>srp_bytes = param_octets p\<rparr>) \<longleftrightarrow> \<not> selects p d routing)"
  proof (cases p)
    case (WantsDibs types)
    then obtain data where "data \<noteq> []" "length data \<le> 253" "request_dibs_srp types = Some (srp_build RequestDibs False data)"
      using request_dibs_eq assms by auto
    then show ?thesis using WantsDibs by (simp add: srp_build_block srp_satisfied_def)
  next
    case (UnknownParam code data)
    have "unat (of_nat (2 + length data) :: u8) = 2 + length data" using assms UnknownParam by (intro unat_octet) simp
    then show ?thesis
      using assms UnknownParam
      by (simp add: srp_block_def srp_satisfied_def srp_type_def srp_type_raw_def is_mandatory_def Let_def del: of_nat_add)
  qed (use assms in \<open>auto simp: programming_mode_srp_def mac_address_srp_def service_srp_def srp_build_block srp_satisfied_def
      families_def service_family_inj Let_def\<close>)
  then show "srp_block (param_octets p)"
    "(srp_satisfied d routing \<lparr>srp_bytes = param_octets p\<rparr> \<noteq> Some True \<and> is_mandatory \<lparr>srp_bytes = param_octets p\<rparr>) \<longleftrightarrow> \<not> selects p d routing"
    by blast+
qed

text \<open>
  C16: An extended search with any list of parameters is answered exactly
  when the server satisfies every one of them that is mandatory: it is in programming mode, has
  the MAC address, offers the service family in that version; a parameter of a kind it does not know
  excludes it if it is mandatory, and a wish for description blocks never does. The answer is an
  extended search response with the body of the plain one, and nothing else changes.
\<close>
theorem extended_search_filters:
  assumes "sv_description s = Some d" and "device_information_ok (description_information d (sv_routing s))" and "env_ok env"
    and "list_all param_ok ps" and "hpai_ok h" and "protocol h = Ipv4Udp"
    and "knxip_parse data = Inr (search_request_extended h (concat (map param_octets ps)))"
  shows "if list_all (\<lambda>p. selects p d (sv_routing s)) ps
    then \<exists>bytes plain. handle_packet env data src s sent = (s, sent @ [(bytes, hpai_to_socket_addr h src)]) \<and>
      serialize_frame (search_response (control_endpoint env src) (description_dibs d (sv_routing s))) = Some plain \<and>
      (\<exists>frame. knxip_parse plain = Inr frame \<and> knxip_parse bytes = Inr (frame\<lparr>service_type := SearchResponseExtended\<rparr>))
    else handle_packet env data src s sent = (s, sent)"
proof -
  let ?bl = "map param_octets ps" and ?c = "control_endpoint env src" and ?dibs = "description_dibs d (sv_routing s)"
  let ?f = "search_response_extended ?c ?dibs"
  have bl: "list_all srp_block ?bl" using assms(4) by (auto simp: list_all_iff param_block)
  have reply: "reply_endpoint (body (search_request_extended h (concat ?bl))) src = Some (hpai_to_socket_addr h src)"
    using hpai_inverse [OF assms(5)] assms(6) by (simp add: reply_endpoint_def search_request_extended_def)
  have pars: "drop (unat HPAI_LEN) (body (search_request_extended h (concat ?bl))) = concat ?bl"
    by (simp add: search_request_extended_def HPAI_LEN_def)
  have "answers_extended_search d (concat ?bl) (sv_routing s) \<longleftrightarrow>
      list_all (\<lambda>p. \<not> (srp_satisfied d (sv_routing s) \<lparr>srp_bytes = param_octets p\<rparr> \<noteq> Some True \<and>
        is_mandatory \<lparr>srp_bytes = param_octets p\<rparr>)) ps"
    using srp_concat [OF bl] by (simp add: answers_extended_search_def srp_sequence_parse_def list_all_iff)
  also have "\<dots> \<longleftrightarrow> list_all (\<lambda>p. selects p d (sv_routing s)) ps"
    unfolding list_all_iff using assms(4) by (intro ball_cong refl, subst param_block(2)) (auto simp: list_all_iff)
  finally have a: "answers_extended_search d (concat ?bl) (sv_routing s) \<longleftrightarrow> list_all (\<lambda>p. selects p d (sv_routing s)) ps" .
  have n: "6 + length (hpai_to_bytes ?c @ ?dibs) \<le> 65535" using description_length [OF assms(2)] by simp
  obtain bytes plain where b: "serialize_frame ?f = Some bytes" "serialize_frame (search_response ?c ?dibs) = Some plain"
    using serialize_frame_fits [of ?f] serialize_frame_fits [of "search_response ?c ?dibs"] n
    by (fastforce simp: search_response_extended_def search_response_def)
  then have p: "knxip_parse bytes = Inr ?f" "knxip_parse plain = Inr (search_response ?c ?dibs)"
    by (simp_all add: serialize_frame_iff knxip_written)
  have hp: "handle_packet env data src s sent = (s, if answers_extended_search d (concat ?bl) (sv_routing s)
      then sent @ [(bytes, hpai_to_socket_addr h src)] else sent)"
  proof -
    have st: "service_type (search_request_extended h (concat ?bl)) = SearchRequestExtended" by (simp add: search_request_extended_def)
    show ?thesis
      by (simp only: handle_packet_def assms(7) sum.case st ServiceType.case handle_search_extended_def assms(1) option.case reply pars
          Let_def send_frame_to_def send_to_def b(1) snd_conv) simp
  qed
  show ?thesis
    using p b(2) unfolding hp a by (auto simp: search_response_extended_def)
qed

theorem extended_search_filters_witness:
  "\<exists>data. knxip_parse data = Inr (search_request_extended (nat_udp 50000) (mac_address_srp [1, 2, 3, 4, 5, 7])) \<and>
     handle_packet sample_env data (V4 [192, 168, 1, 7] 50000) described [] = (described, [])"
proof -
  obtain data where "serialize_frame (search_request_extended (nat_udp 50000) (mac_address_srp [1, 2, 3, 4, 5, 7])) = Some data"
    using serialize_frame_fits [of "search_request_extended (nat_udp 50000) (mac_address_srp [1, 2, 3, 4, 5, 7])"]
    by (fastforce simp: search_request_extended_def mac_address_srp_def srp_build_def)
  then have d: "knxip_parse data = Inr (search_request_extended (nat_udp 50000) (concat (map param_octets [HasMac [1, 2, 3, 4, 5, 7]])))"
    by (simp add: serialize_frame_iff knxip_written)
  have 1: "sv_description described = Some sample_description" by (simp add: described_def server_init_def)
  have 2: "device_information_ok (description_information sample_description (sv_routing described))"
    by (simp add: device_information_ok_def description_information_def sample_description_def device_description_new_def
        KNX_MULTICAST_ADDR_def)
  have 3: "env_ok sample_env" by (simp add: env_ok_def sample_env_def)
  have 4: "hpai_ok (nat_udp 50000)" "protocol (nat_udp 50000) = Ipv4Udp" by (simp_all add: hpai_ok_def nat_udp_def)
  have "\<not> list_all (\<lambda>p. selects p sample_description (sv_routing described)) [HasMac [1, 2, 3, 4, 5, 7]]"
    by (simp add: sample_description_def device_description_new_def)
  with extended_search_filters [OF 1 2 3 _ 4 d, of "V4 [192, 168, 1, 7] 50000" "[]"] d show ?thesis by auto
qed

end
