(* ===== verification/Ip_Exchange.thy ===== *)
theory Ip_Exchange
  imports Ip_Discovery Ip_Client
begin

text \<open>
  The tunnel client and the device server together: the handshake gives both the same channel, and
  a frame the client sends is taken over by the server and confirmed to the client, after which both
  are in step again.
\<close>

section \<open>What the client makes of the server's datagrams\<close>

definition in_step :: "TunnelState \<Rightarrow> TunnelClient \<Rightarrow> bool" where
  "in_step st t \<longleftrightarrow> cs_channel_id st = tc_channel_id t \<and> cs_send_seq st = tc_recv_seq t \<and> cs_recv_seq st = tc_send_seq t"

definition healthy :: "ClientEnv \<Rightarrow> bool" where
  "healthy env \<longleftrightarrow> ce_receiving env \<and> (\<forall>n. ce_send_error env n = None)"

lemma client_send_healthy: "(\<forall>n. ce_send_error env n = None) \<Longrightarrow> client_send env bytes io = (Inr (), io\<lparr>io_sent := io_sent io @ [bytes]\<rparr>)"
  by (simp add: client_send_def)

lemma client_serialize_some: "serialize_frame f = Some bytes \<Longrightarrow> client_serialize f = Inr bytes"
  by (simp add: client_serialize_def serialize_frame_iff)

lemma ack_serialized: "client_serialize (tunneling_ack ch n st) = Inr (ack_datagram ch n st)"
  using serialize_ack [of ch n st] by (auto simp: ack_datagram_def client_serialize_some)

lemma tunnel_datagram_parses: "tunnel_fits cemi \<Longrightarrow> knxip_parse (tunnel_datagram ch n cemi) = Inr (tunneling_request ch n cemi)"
  using serialize_tunnel [of cemi ch n] by (metis serialize_frame_iff knxip_written)

lemma request_served:
  assumes "healthy env" and "ch = cs_channel_id st" and "cs_recv_seq st = n" and "cemi_parse cemi = Inr c"
  shows "client_tunneling_request env (tunneling_request ch n cemi) (st, io) =
    (st\<lparr>cs_recv_seq := n + 1\<rparr>, io\<lparr>io_sent := io_sent io @ [ack_datagram ch n E_NO_ERROR], io_delivered := io_delivered io @ [c]\<rparr>)"
proof -
  have "connection_header_parse (body (tunneling_request ch n cemi)) = Some \<lparr>channel_id = ch, sequence_counter = n, ch_status = E_NO_ERROR\<rparr>"
    by (simp add: tunneling_request_def connection_header_inverse)
  moreover have "drop (unat CONNECTION_HEADER_LEN) (body (tunneling_request ch n cemi)) = cemi"
    by (simp add: tunneling_request_def connection_header_to_bytes_def CONNECTION_HEADER_LEN_def)
  ultimately show ?thesis
    using assms by (simp add: client_tunneling_request_def ack_serialized client_send_healthy client_deliver_def healthy_def)
qed

lemma incoming_served:
  assumes "healthy env" and "ch = cs_channel_id st" and "cs_recv_seq st = n" and "cemi_parse cemi = Inr c" and "tunnel_fits cemi"
  shows "handle_incoming env (tunnel_datagram ch n cemi) (st, io) =
    (True, st\<lparr>cs_recv_seq := n + 1\<rparr>, io\<lparr>io_sent := io_sent io @ [ack_datagram ch n E_NO_ERROR], io_delivered := io_delivered io @ [c]\<rparr>)"
  using request_served [OF assms(1-4)] assms(5)
  by (simp add: handle_incoming_def tunnel_datagram_parses) (simp add: tunneling_request_def)

text \<open>The two answers of the server, in either order.\<close>

lemma ack_for_ack: "ack_for st (tunneling_ack (cs_channel_id st) (cs_send_seq st) e) = Some e"
  using connection_header_inverse [of "\<lparr>channel_id = cs_channel_id st, sequence_counter = cs_send_seq st, ch_status = e\<rparr>" "[]"]
  by (simp add: ack_for_def tunneling_ack_def)

lemma wait_ack_first:
  "wait_for_ack env (Inr (ack_datagram (cs_channel_id st) (cs_send_seq st) E_NO_ERROR) # rest) buffered (st, io) = (Inr buffered, rest, st, io)"
  by (simp add: ack_datagram_parses ack_for_ack)

lemma wait_request:
  assumes "healthy env" and "ch = cs_channel_id st" and "cs_recv_seq st = n" and "cemi_parse cemi = Inr c" and "tunnel_fits cemi"
  shows "wait_for_ack env (Inr (tunnel_datagram ch n cemi) # rest) buffered (st, io) =
    wait_for_ack env rest buffered (st\<lparr>cs_recv_seq := n + 1\<rparr>,
      io\<lparr>io_sent := io_sent io @ [ack_datagram ch n E_NO_ERROR], io_delivered := io_delivered io @ [c]\<rparr>)"
  using request_served [OF assms(1-4)] assms(5)
  by (simp add: tunnel_datagram_parses ack_for_def) (simp add: tunneling_request_def)

section \<open>The exchange\<close>

text \<open>The client handles what is left in its socket.\<close>

fun drain_socket :: "ClientEnv \<Rightarrow> Arrival list \<Rightarrow> TunnelState \<times> ClientIo \<Rightarrow> TunnelState \<times> ClientIo" where
  "drain_socket env [] s = s"
| "drain_socket env (Inl e # rest) s = s"
| "drain_socket env (Inr data # rest) s = drain_socket env rest (snd (handle_incoming env data s))"

lemma client_exchange:
  assumes "healthy env" and "cs_recv_seq st = n" and "cemi_parse conf = Inr c" and "tunnel_fits conf"
    and "tunnel_fits (as_bytes f)"
    and "arrivals \<in> {[a, b], [b, a]}" and "a = Inr (ack_datagram (cs_channel_id st) (cs_send_seq st) E_NO_ERROR)"
    and "b = Inr (tunnel_datagram (cs_channel_id st) n conf)"
  shows "\<exists>left st1 io1. send_with_retry env f (arrivals # rounds) (st, io) = (Inr (), left, st1, io1) \<and>
    drain_socket env left (st1, io1) = (st\<lparr>cs_send_seq := cs_send_seq st + 1, cs_recv_seq := n + 1\<rparr>,
      io\<lparr>io_sent := io_sent io @ [tunnel_datagram (cs_channel_id st) (cs_send_seq st) (as_bytes f), ack_datagram (cs_channel_id st) n E_NO_ERROR],
        io_delivered := io_delivered io @ [c]\<rparr>)"
proof -
  let ?d = "tunnel_datagram (cs_channel_id st) (cs_send_seq st) (as_bytes f)"
  have s: "client_serialize (tunneling_request (cs_channel_id st) (cs_send_seq st) (as_bytes f)) = Inr ?d"
    by (rule client_serialize_some) (rule serialize_tunnel [OF assms(5)])
  have h: "\<forall>n. ce_send_error env n = None" using assms(1) by (simp add: healthy_def)
  note inc = incoming_served [OF assms(1) _ _ assms(3,4)]
  note wr = wait_request [OF assms(1) _ _ assms(3,4)]
  have "arrivals = [a, b] \<or> arrivals = [b, a]" using assms(6) by simp
  then show ?thesis
    using wait_ack_first [of env "st\<lparr>cs_recv_seq := n + 1\<rparr>"] assms(2)
    by (auto simp: send_with_retry_def s CLIENT_RETRIES_def numeral_3_eq_3 client_send_healthy [OF h] assms(7,8) wait_ack_first wr inc
        simp del: wait_for_ack.simps)
qed

text \<open>The server's side: an idle client's request is acknowledged and its confirmation goes out at once.\<close>

lemma server_takes_request:
  assumes "server_ok s" and "t \<in> set (sv_tunnels s)" and "tunnel_queue t = []" and "cemi_wf f"
    and "confirmation_of f = Some conf"
  shows "\<exists>s' t'. handle_packet env (tunnel_datagram (tc_channel_id t) (tc_recv_seq t) (as_bytes f)) (tc_data_addr t) s sent =
      (s', sent @ [(ack_datagram (tc_channel_id t) (tc_recv_seq t) E_NO_ERROR, tc_data_addr t),
        (tunnel_datagram (tc_channel_id t) (tc_send_seq t) conf, tc_data_addr t)]) \<and>
    server_ok s' \<and> sv_events s' = event_push env (TunnelFrame f) (sv_events s) \<and> t' \<in> set (sv_tunnels s') \<and>
    tunnel_queue t' = [conf] \<and> tc_channel_id t' = tc_channel_id t \<and> tc_data_addr t' = tc_data_addr t \<and>
    tc_send_seq t' = tc_send_seq t \<and> tc_recv_seq t' = tc_recv_seq t + 1"
proof -
  have ts: "tunnels_ok (sv_tunnels s)" using assms(1) by (simp add: server_ok_def)
  have ct: "client_ok t" using ts assms(2) by (auto simp: tunnels_ok_def list_all_iff)
  have fit: "tunnel_fits (as_bytes f)" using cemi_wf_fits [OF assms(4)] by (simp add: tunnel_fits_def as_bytes_def)
  have cfit: "tunnel_fits conf" by (rule confirmation_fits [OF assms(4,5)])
  let ?fr = "tunneling_request (tc_channel_id t) (tc_recv_seq t) (as_bytes f)"
  let ?d = "tunnel_datagram (tc_channel_id t) (tc_recv_seq t) (as_bytes f)"
  let ?sent = "sent @ [(ack_datagram (tc_channel_id t) (tc_recv_seq t) E_NO_ERROR, tc_data_addr t)]"
  let ?t = "t\<lparr>tc_recv_seq := tc_recv_seq t + 1\<rparr>"
  obtain i where i: "i < length (sv_tunnels s)" and h: "handle_tunneling_request env (tc_data_addr t) ?fr (sv_tunnels s) (sv_events s) sent =
      (let (t', sent) = took_over env f t ?sent in ((sv_tunnels s)[i := t'], event_push env (TunnelFrame f) (sv_events s), sent))"
    using request_handled [OF ts assms(2) refl refl reparse_wf [OF assms(4)], of env "tc_recv_seq t" "sv_events s" sent]
    by (auto simp: Let_def)
  have idle: "tc_in_flight t = None" using queue_empty [OF ct] assms(3) by simp
  then have o: "took_over env f t ?sent = (on_wire env (env_send_error env (length ?sent)) conf [] ?t,
      ?sent @ [(tunnel_datagram (tc_channel_id t) (tc_send_seq t) conf, tc_data_addr t)])"
    using offer_eq [of ?t conf env ?sent] ct cfit by (simp add: took_over_def assms(5))
  let ?s' = "s\<lparr>sv_tunnels := (sv_tunnels s)[i := on_wire env (env_send_error env (length ?sent)) conf [] ?t],
    sv_events := event_push env (TunnelFrame f) (sv_events s)\<rparr>"
  have hp: "handle_packet env ?d (tc_data_addr t) s sent = (?s', ?sent @ [(tunnel_datagram (tc_channel_id t) (tc_send_seq t) conf, tc_data_addr t)])"
    using packet_request [OF tunnel_datagram_parses [OF fit]] h o by (simp add: tunneling_request_def)
  moreover have "server_ok ?s'" using packet_ok [OF assms(1), of env ?d "tc_data_addr t" sent] by (simp only: hp fst_conv)
  moreover have "on_wire env (env_send_error env (length ?sent)) conf [] ?t \<in> set (sv_tunnels ?s')" using i by (simp add: set_update_memI)
  ultimately show ?thesis
    by (intro exI [of _ ?s'] exI [of _ "on_wire env (env_send_error env (length ?sent)) conf [] ?t"]) simp
qed

lemma server_takes_ack:
  assumes "server_ok s" and "t \<in> set (sv_tunnels s)" and "tunnel_queue t = [cemi]"
  shows "\<exists>s' t'. handle_packet env (ack_datagram (tc_channel_id t) (tc_send_seq t) E_NO_ERROR) (tc_data_addr t) s sent = (s', sent) \<and>
    sv_events s' = sv_events s \<and> t' \<in> set (sv_tunnels s') \<and> tunnel_queue t' = [] \<and> tc_channel_id t' = tc_channel_id t \<and>
    tc_data_addr t' = tc_data_addr t \<and> tc_send_seq t' = tc_send_seq t + 1 \<and> tc_recv_seq t' = tc_recv_seq t"
proof -
  have ts: "tunnels_ok (sv_tunnels s)" using assms(1) by (simp add: server_ok_def)
  have ct: "client_ok t" using ts assms(2) by (auto simp: tunnels_ok_def list_all_iff)
  let ?fr = "tunneling_ack (tc_channel_id t) (tc_send_seq t) E_NO_ERROR"
  have hd: "connection_header_parse (body ?fr) = Some \<lparr>channel_id = tc_channel_id t, sequence_counter = tc_send_seq t, ch_status = E_NO_ERROR\<rparr>"
    using connection_header_inverse [of _ "[]"] by (simp add: tunneling_ack_def)
  obtain i where i: "find_index (\<lambda>v. tc_channel_id v = tc_channel_id t \<and> tc_data_addr v = tc_data_addr t) (sv_tunnels s) = Some i"
    using assms(2) by (cases "find_index (\<lambda>v. tc_channel_id v = tc_channel_id t \<and> tc_data_addr v = tc_data_addr t) (sv_tunnels s)")
      (auto simp: find_index_None)
  then have it: "i < length (sv_tunnels s)" "sv_tunnels s ! i = t"
    using ts assms(2) by (auto simp: find_index_Some tunnels_ok_def distinct_map dest!: inj_onD)
  let ?t = "t\<lparr>tc_in_flight := None, tc_send_seq := tc_send_seq t + 1, tc_outbox := [], tc_overflow_reported := False\<rparr>"
  have a: "tunnel_ack env (tc_send_seq t) t sent = (?t, sent)"
    using ack_eq [OF ct, of env "tc_send_seq t" sent] assms(3) queue_tl [OF ct] by (simp add: Let_def)
  have "handle_packet env (ack_datagram (tc_channel_id t) (tc_send_seq t) E_NO_ERROR) (tc_data_addr t) s sent =
      (s\<lparr>sv_tunnels := (sv_tunnels s)[i := ?t]\<rparr>, sent)"
    using hd i it a by (simp add: handle_packet_def ack_datagram_parses handle_tunneling_ack_def)
      (simp add: tunneling_ack_def handle_tunneling_ack_def)
  moreover have "?t \<in> set (sv_tunnels (s\<lparr>sv_tunnels := (sv_tunnels s)[i := ?t]\<rparr>))" using it by (simp add: set_update_memI)
  ultimately show ?thesis by (intro exI [of _ "s\<lparr>sv_tunnels := (sv_tunnels s)[i := ?t]\<rparr>"] exI [of _ ?t]) simp
qed

text \<open>
  C13: The client and the server in step, and the server owing the client nothing: a
  frame that the client sends as L_Data.req reaches the application of the server exactly once, the call
  on the client succeeds with one transmission, and the client's application gets the confirmation,
  the same frame as L_Data.con. This holds whether the server's acknowledgement or its
  confirmation arrives first. With the client's acknowledgement back at the server both are in step
  again, and nothing is owed.
\<close>
theorem tunnel_exchange:
  assumes "server_reachable mc s sent" and "t \<in> set (sv_tunnels s)" and "in_step st t" and "tunnel_queue t = []"
    and "cemi_wf f" and "message_code_raw f = message_code_u8 LDataReq" and "healthy cenv"
  shows "let d = tunnel_datagram (tc_channel_id t) (tc_recv_seq t) (as_bytes f);
      a = ack_datagram (tc_channel_id t) (tc_recv_seq t) E_NO_ERROR;
      k = ack_datagram (tc_channel_id t) (tc_send_seq t) E_NO_ERROR
    in \<exists>b c s1 s2 st2 t2.
    handle_packet env d (tc_data_addr t) s sent = (s1, sent @ [(a, tc_data_addr t), (b, tc_data_addr t)]) \<and>
    sv_events s1 = event_push env (TunnelFrame f) (sv_events s) \<and>
    (\<forall>arrivals\<in>{[Inr a, Inr b], [Inr b, Inr a]}. \<exists>left st1 io1.
      send_with_retry cenv f (arrivals # rounds) (st, io) = (Inr (), left, st1, io1) \<and>
      drain_socket cenv left (st1, io1) =
        (st2, io\<lparr>io_sent := io_sent io @ [d, k], io_delivered := io_delivered io @ [c]\<rparr>)) \<and>
    cemi_view_of c = (cemi_view_of f)\<lparr>v_code := message_code_u8 LDataCon, v_confirm := NoError\<rparr> \<and>
    handle_packet env' k (tc_data_addr t) s1 sent' = (s2, sent') \<and> sv_events s2 = sv_events s1 \<and>
    t2 \<in> set (sv_tunnels s2) \<and> in_step st2 t2 \<and> tunnel_queue t2 = []"
proof -
  obtain conf where conf: "confirmation_of f = Some conf" using confirmation_eq [OF assms(5)] assms(6) by simp
  obtain c where c: "cemi_parse conf = Inr c" "cemi_view_of c = (cemi_view_of f)\<lparr>v_code := message_code_u8 LDataCon, v_confirm := NoError\<rparr>"
    using confirmation_parses [OF assms(5) conf] by blast
  have fit: "tunnel_fits (as_bytes f)" using cemi_wf_fits [OF assms(5)] by (simp add: tunnel_fits_def as_bytes_def)
  note cfit = confirmation_fits [OF assms(5) conf]
  have e: "cs_channel_id st = tc_channel_id t" "cs_send_seq st = tc_recv_seq t" "cs_recv_seq st = tc_send_seq t"
    using assms(3) by (simp_all add: in_step_def)
  let ?d = "tunnel_datagram (tc_channel_id t) (tc_recv_seq t) (as_bytes f)"
  let ?a = "ack_datagram (tc_channel_id t) (tc_recv_seq t) E_NO_ERROR"
  let ?b = "tunnel_datagram (tc_channel_id t) (tc_send_seq t) conf"
  let ?k = "ack_datagram (tc_channel_id t) (tc_send_seq t) E_NO_ERROR"
  obtain s1 t1 where s1: "handle_packet env ?d (tc_data_addr t) s sent = (s1, sent @ [(?a, tc_data_addr t), (?b, tc_data_addr t)])"
    "server_ok s1" "sv_events s1 = event_push env (TunnelFrame f) (sv_events s)" "t1 \<in> set (sv_tunnels s1)" "tunnel_queue t1 = [conf]"
    "tc_channel_id t1 = tc_channel_id t" "tc_data_addr t1 = tc_data_addr t" "tc_send_seq t1 = tc_send_seq t"
    "tc_recv_seq t1 = tc_recv_seq t + 1"
    using server_takes_request [OF reachable_ok [OF assms(1)] assms(2,4,5) conf, of env sent] by blast
  obtain s2 t2 where s2: "handle_packet env' ?k (tc_data_addr t) s1 sent' = (s2, sent')" "sv_events s2 = sv_events s1"
    "t2 \<in> set (sv_tunnels s2)" "tunnel_queue t2 = []" "tc_channel_id t2 = tc_channel_id t" "tc_send_seq t2 = tc_send_seq t + 1"
    "tc_recv_seq t2 = tc_recv_seq t + 1"
    using server_takes_ack [OF s1(2,4,5), of env' sent'] unfolding s1(6-9) by blast
  let ?st2 = "st\<lparr>cs_send_seq := tc_recv_seq t + 1, cs_recv_seq := tc_send_seq t + 1\<rparr>"
  have "\<exists>left st1 io1. send_with_retry cenv f (arrivals # rounds) (st, io) = (Inr (), left, st1, io1) \<and>
      drain_socket cenv left (st1, io1) = (?st2, io\<lparr>io_sent := io_sent io @ [?d, ?k], io_delivered := io_delivered io @ [c]\<rparr>)"
    if "arrivals \<in> {[Inr ?a, Inr ?b], [Inr ?b, Inr ?a]}" for arrivals
    by (rule client_exchange [OF assms(7) e(3) c(1) cfit fit, unfolded e, OF that refl refl])
  note x = this
  have i: "in_step ?st2 t2" using s2 e by (simp add: in_step_def)
  show ?thesis
    unfolding Let_def
    by (intro exI [of _ ?b] exI [of _ c] exI [of _ s1] exI [of _ s2]
        exI [of _ ?st2] exI [of _ t2] conjI ballI s1(1,3) x c(2) s2(1-4) i)
qed

text \<open>The group read request of the samples, sent on the channel of the sample server.\<close>

theorem tunnel_exchange_witness:
  "\<exists>s1 b conf. handle_packet sample_env (tunnel_datagram 1 0 read_request) (V4 [192, 168, 1, 2] 3673) one_client connect_answer =
      (s1, connect_answer @ [(ack_datagram 1 0 0, V4 [192, 168, 1, 2] 3673), (b, V4 [192, 168, 1, 2] 3673)]) \<and>
    eq_taken (sv_events s1) = [TunnelFrame \<lparr>frame_data = read_request, ctrl_offset = 2\<rparr>] \<and> v_code (cemi_view_of conf) = 0x2E"
proof -
  let ?f = "\<lparr>frame_data = read_request, ctrl_offset = 2\<rparr>"
  let ?env = "\<lparr>ce_send_error = \<lambda>n. None :: string option, ce_receiving = True\<rparr>" and ?io = "\<lparr>io_sent = [], io_delivered = []\<rparr>"
  have st: "in_step (tunnel_state_new 1 (V4 [192, 168, 1, 2] 3673)) idle_client"
    by (simp add: in_step_def tunnel_state_new_def idle_client_def tunnel_client_new_def)
  have m: "idle_client \<in> set (sv_tunnels one_client)" by (simp add: one_client_def idle_client_def)
  have q: "tunnel_queue idle_client = []" by (simp add: tunnel_queue_def idle_client_def tunnel_client_new_def)
  have f: "cemi_wf ?f" by (rule parsed_wf [OF read_request_parses])
  have c: "message_code_raw ?f = message_code_u8 LDataReq" by (simp add: message_code_raw_def read_request_def)
  have h: "healthy ?env" by (simp add: healthy_def)
  have t: "tc_data_addr idle_client = V4 [192, 168, 1, 2] 3673" "tc_channel_id idle_client = 1" "tc_recv_seq idle_client = 0"
    by (simp_all add: idle_client_def tunnel_client_new_def)
  obtain s1 b conf where x: "handle_packet sample_env (tunnel_datagram 1 0 read_request) (tc_data_addr idle_client) one_client connect_answer =
      (s1, connect_answer @ [(ack_datagram 1 0 E_NO_ERROR, tc_data_addr idle_client), (b, tc_data_addr idle_client)])"
    "sv_events s1 = event_push sample_env (TunnelFrame ?f) (sv_events one_client)"
    "cemi_view_of conf = (cemi_view_of ?f)\<lparr>v_code := message_code_u8 LDataCon, v_confirm := NoError\<rparr>"
    using tunnel_exchange [OF one_client_reachable m st q f c h, of sample_env "[]" ?io sample_env "[]"]
    unfolding Let_def t as_bytes_def by auto
  have "eq_taken (sv_events s1) = [TunnelFrame ?f]"
    by (simp add: x(2) event_push_def one_client_def server_init_def sample_env_def)
  moreover have "v_code (cemi_view_of conf) = 0x2E" by (simp add: x(3))
  ultimately show ?thesis using x(1) unfolding t E_NO_ERROR_def by blast
qed

section \<open>The handshake\<close>

text \<open>With at most three channels in use the search for a free one succeeds.\<close>

lemma unat_next_id:
  assumes "ch \<noteq> 0"
  shows "unat (next_id ch) = unat ch mod 255 + 1"
proof (cases "ch + 1 = 0")
  case True
  then have "ch = - 1" by (simp only: add_eq_0_iff2)
  then have "ch = 255" by simp
  then show ?thesis by (simp add: next_id_def)
next
  case False
  then have n: "unat (ch + 1) = Suc (unat ch)" using unatSuc [of ch] by (simp add: add.commute)
  moreover have "unat (ch + 1) < 256" using unat_bounds(1) [of "ch + 1"] by simp
  ultimately have "unat ch < 255" by linarith
  then show ?thesis using False n by (simp add: next_id_def Let_def)
qed

lemma find_channel_taken:
  assumes "find_channel ids ch a = None" and "a < 255"
  shows "ch \<in> set ids \<and> find_channel ids (next_id ch) (a + 1) = None"
proof -
  have "\<not> 255 < a + 1" using assms(2) by (simp add: word_less_nat_alt unat_word_ariths)
  then show ?thesis using assms(1) by (simp add: find_channel.simps [of ids ch a] Let_def split: if_splits)
qed

lemma four_distinct:
  "a mod 255 + 1 = b \<Longrightarrow> b mod 255 + 1 = c \<Longrightarrow> c mod 255 + 1 = d \<Longrightarrow> 0 < a \<Longrightarrow> a \<le> 255 \<Longrightarrow> distinct [a, b, c, d :: nat]"
  by (cases "a = 255"; cases "a = 254"; cases "a = 253"; auto)

lemma find_channel_some:
  assumes "length ids \<le> 3" and "ch \<noteq> 0"
  shows "\<exists>c. find_channel ids ch 0 = Some c"
proof (rule ccontr)
  let ?a = "next_id ch" let ?b = "next_id ?a" let ?c = "next_id ?b"
  assume "\<nexists>c. find_channel ids ch 0 = Some c"
  then have n0: "find_channel ids ch 0 = None" by auto
  note n1 = find_channel_taken [OF n0, simplified]
  note n2 = find_channel_taken [OF n1 [THEN conjunct2], simplified]
  note n3 = find_channel_taken [OF n2 [THEN conjunct2], simplified]
  have "{ch, ?a, ?b, ?c} \<subseteq> set ids"
    using n1 n2 n3 find_channel_taken [OF n3 [THEN conjunct2], simplified] by simp
  then have "card {ch, ?a, ?b, ?c} \<le> 3"
    using card_mono [of "set ids" "{ch, ?a, ?b, ?c}"] card_length [of ids] assms(1) by simp
  moreover have "0 < unat ch" "unat ch \<le> 255" using unat_bounds(1) [of ch] assms(2) by (auto simp: unat_gt_0)
  then have "distinct [unat ch, unat ?a, unat ?b, unat ?c]"
    using unat_next_id [OF assms(2)] unat_next_id [OF next_id_nonzero, of ch] unat_next_id [OF next_id_nonzero, of ?a]
    by (intro four_distinct) (assumption | simp only:)+
  then have "card (unat ` {ch, ?a, ?b, ?c}) = 4" using distinct_card [of "[unat ch, unat ?a, unat ?b, unat ?c]"] by simp
  ultimately show False using card_image_le [of "{ch, ?a, ?b, ?c}" unat] by simp
qed


lemma connect_serialized:
  assumes "socket_addr_ok local_addr"
  defines "fr \<equiv> connect_request (build_hpai local_addr) (build_hpai local_addr) tunnel_cri"
  shows "\<exists>d. serialize_frame fr = Some d \<and> client_serialize fr = Inr d \<and> knxip_parse d = Inr fr \<and> service_type fr = ConnectRequest \<and>
    length (body fr) = 20 \<and> hpai_parse (body fr) = Some (build_hpai local_addr) \<and>
    hpai_parse (drop 8 (body fr)) = Some (build_hpai local_addr) \<and> body fr ! 17 = TUNNEL_CONNECTION"
proof -
  have ok: "hpai_ok (build_hpai local_addr)" using assms(1) by (cases local_addr) (simp_all add: hpai_ok_def nat_udp_def)
  have n: "length (hpai_to_bytes (build_hpai local_addr)) = 8"
    using ok by (simp add: hpai_to_bytes_def hpai_ok_def to_be16_def)
  then have "length (body fr) = 20" by (simp add: fr_def connect_request_def tunnel_cri_def)
  then have "\<exists>d. serialize_frame fr = Some d" by (intro serialize_frame_fits) simp
  then obtain d where d: "serialize_frame fr = Some d" by blast
  then have "knxip_parse d = Inr fr" by (simp add: serialize_frame_iff knxip_written)
  then show ?thesis
    using hpai_inverse [OF ok] n d
    by (simp add: client_serialize_some fr_def connect_request_def) (simp add: tunnel_cri_def nth_append)
qed

definition connect_datagram :: "SocketAddr \<Rightarrow> u8 list" where
  "connect_datagram local_addr =
     the (serialize_frame (connect_request (build_hpai local_addr) (build_hpai local_addr) tunnel_cri))"

lemma response_serialized:
  "\<exists>bytes. build_connect_response ch st ia p = Some bytes \<and>
    knxip_parse bytes = Inr \<lparr>service_type = ConnectResponse, body = [ch, st] @ hpai_to_bytes (nat_udp p) @ tunnel_crd ia\<rparr>"
proof -
  let ?f = "\<lparr>service_type = ConnectResponse, body = [ch, st] @ hpai_to_bytes (nat_udp p) @ tunnel_crd ia\<rparr>"
  have "6 + length (body ?f) \<le> 65535" by (simp add: hpai_to_bytes_def nat_udp_def to_be16_def tunnel_crd_def Let_def)
  then obtain bytes where "serialize_frame ?f = Some bytes" using serialize_frame_fits by blast
  then show ?thesis by (auto simp: build_connect_response_def serialize_frame_iff knxip_written)
qed

lemma connect_handled:
  fixes src :: SocketAddr
  assumes "socket_addr_ok local_addr"
  defines "ep \<equiv> hpai_to_socket_addr (build_hpai local_addr) src"
  shows "handle_packet env (connect_datagram local_addr) src s sent =
    (if MAX_TUNNELS \<le> length (sv_tunnels s)
     then (s, send_bytes env (build_connect_response 0 E_NO_MORE_CONNECTIONS 0 (local_port env)) ep sent)
     else case find_channel (map tc_channel_id (sv_tunnels s)) (sv_next_channel_id s) 0 of None \<Rightarrow> (s, sent)
     | Some ch \<Rightarrow> (s\<lparr>sv_tunnels := sv_tunnels s @ [tunnel_client_new ch ep ep (env_now env)], sv_next_channel_id := next_id ch\<rparr>,
         send_bytes env (build_connect_response ch E_NO_ERROR (TUNNEL_IA_BASE OR ucast ch) (local_port env)) ep sent))"
  using connect_serialized [OF assms(1)]
  by (auto simp: connect_datagram_def handle_packet_def handle_connect_def Let_def HPAI_LEN_def TUNNEL_CONNECTION_def
      DEVICE_MGMT_CONNECTION_def ep_def split: option.split)

lemma connect_client:
  assumes "socket_addr_ok local_addr" and "healthy cenv"
    and "knxip_parse resp = Inr \<lparr>service_type = ConnectResponse, body = [ch, st] @ rest\<rparr>"
  shows "do_connect cenv local_addr (Inr resp # arrivals) io =
    (if st = E_NO_ERROR then Inr ch else Inl (ConnectionRejected st), io\<lparr>io_sent := io_sent io @ [connect_datagram local_addr]\<rparr>)"
  using connect_serialized [OF assms(1)] assms(2,3)
  by (auto simp: do_connect_def Let_def connect_datagram_def client_send_healthy healthy_def)

text \<open>
  C12: A client that connects to the server. While fewer than four tunnels are open the
  server opens one on a channel that no other client has and that is not zero, the client's call
  returns that channel, and client and server are in step with nothing owed. With four tunnels open
  the server changes nothing and the client's call fails with the status for no more connections.
  Either way the client sent one datagram and the server one answer, to the endpoint that the
  request names.
\<close>
theorem tunnel_connects:
  assumes "server_reachable mc s sent" and "socket_addr_ok local_addr" and "healthy cenv"
  shows "let d = connect_datagram local_addr; ep = hpai_to_socket_addr (build_hpai local_addr) src;
      io' = io\<lparr>io_sent := io_sent io @ [d]\<rparr>
    in \<exists>resp s'. handle_packet env d src s sent = (s', sent @ [(resp, ep)]) \<and>
      (if length (sv_tunnels s) < 4
       then \<exists>ch t. do_connect cenv local_addr (Inr resp # arrivals) io = (Inr ch, io') \<and> ch \<noteq> 0 \<and>
         ch \<notin> tc_channel_id ` set (sv_tunnels s) \<and> sv_tunnels s' = sv_tunnels s @ [t] \<and>
         in_step (tunnel_state_new ch local_addr) t \<and> tunnel_queue t = [] \<and> tc_data_addr t = ep \<and> tc_last_heartbeat t = env_now env
       else s' = s \<and> do_connect cenv local_addr (Inr resp # arrivals) io = (Inl (ConnectionRejected E_NO_MORE_CONNECTIONS), io'))"
proof -
  let ?ep = "hpai_to_socket_addr (build_hpai local_addr) src" and ?p = "local_port env"
  have ok: "server_ok s" by (rule reachable_ok [OF assms(1)])
  show ?thesis
  proof (cases "length (sv_tunnels s) < 4")
    case True
    then have "\<exists>c. find_channel (map tc_channel_id (sv_tunnels s)) (sv_next_channel_id s) 0 = Some c"
      using ok by (intro find_channel_some) (simp_all add: server_ok_def)
    then obtain ch where c: "find_channel (map tc_channel_id (sv_tunnels s)) (sv_next_channel_id s) 0 = Some ch" by blast
    have f: "ch \<noteq> 0 \<and> ch \<notin> set (map tc_channel_id (sv_tunnels s))" using find_channel_free [OF c] ok by (simp add: server_ok_def)
    obtain resp where r: "build_connect_response ch E_NO_ERROR (TUNNEL_IA_BASE OR ucast ch) ?p = Some resp"
      "knxip_parse resp = Inr \<lparr>service_type = ConnectResponse, body = [ch, E_NO_ERROR] @ hpai_to_bytes (nat_udp ?p) @ tunnel_crd (TUNNEL_IA_BASE OR ucast ch)\<rparr>"
      using response_serialized by blast
    let ?t = "tunnel_client_new ch ?ep ?ep (env_now env)"
    have "in_step (tunnel_state_new ch local_addr) ?t \<and> tunnel_queue ?t = [] \<and> tc_data_addr ?t = ?ep \<and> tc_last_heartbeat ?t = env_now env"
      by (simp add: in_step_def tunnel_state_new_def tunnel_client_new_def tunnel_queue_def)
    then show ?thesis
      using True f connect_handled [OF assms(2), of env src s sent] connect_client [OF assms(2,3) r(2), of arrivals io]
      by (simp add: Let_def c r(1) send_bytes_def send_to_def MAX_TUNNELS_def)
  next
    case False
    obtain resp where r: "build_connect_response 0 E_NO_MORE_CONNECTIONS 0 ?p = Some resp"
      "knxip_parse resp = Inr \<lparr>service_type = ConnectResponse, body = [0, E_NO_MORE_CONNECTIONS] @ hpai_to_bytes (nat_udp ?p) @ tunnel_crd 0\<rparr>"
      using response_serialized by blast
    then show ?thesis
      using False connect_handled [OF assms(2), of env src s sent] connect_client [OF assms(2,3) r(2), of arrivals io]
      by (simp add: Let_def r(1) send_bytes_def send_to_def MAX_TUNNELS_def E_NO_MORE_CONNECTIONS_def E_NO_ERROR_def)
  qed
qed

theorem tunnel_connects_witness:
  "\<exists>resp s'. handle_packet sample_env (connect_datagram (V4 [192, 168, 1, 9] 3672)) (V4 [192, 168, 1, 9] 3672) one_client connect_answer =
      (s', connect_answer @ [(resp, V4 [192, 168, 1, 9] 3672)]) \<and> length (sv_tunnels s') = 2"
proof -
  have h: "healthy \<lparr>ce_send_error = \<lambda>n. None, ce_receiving = True\<rparr>" by (simp add: healthy_def)
  have m: "length (sv_tunnels one_client) = 1" by (simp add: one_client_def)
  have e: "hpai_to_socket_addr (build_hpai (V4 [192, 168, 1, 9] 3672)) (V4 [192, 168, 1, 9] 3672) = V4 [192, 168, 1, 9] 3672"
    by (simp add: hpai_to_socket_addr_def is_unspecified_def)
  show ?thesis
    using tunnel_connects [OF one_client_reachable _ h, where local_addr = "V4 [192, 168, 1, 9] 3672" and env = sample_env
        and src = "V4 [192, 168, 1, 9] 3672" and io = "\<lparr>io_sent = [], io_delivered = []\<rparr>" and arrivals = "[]"]
    unfolding Let_def e by (auto simp: m)
qed

end
