(* ===== verification/Dpt_Codec.thy ===== *)
theory Dpt_Codec
  imports Dpt_Value
begin

text \<open>
  Proofs about the datapoint codecs. The interface to the platform is the locale \<open>float_lib\<close>: the
  rounding function rounds ties away from zero and the octets of a not-a-number are one. Shown: what
  every main group's encoder writes has the wire size of the group and is decoded; a value that a
  receiver decodes can be encoded again, and is then received as the same value, with the exact
  list of the payloads for which that fails.
\<close>

locale float_lib =
  fixes fl :: FloatLib
  assumes rounds: "libm_round fl v = round_away v"
    and nan_octets: "f32_from_bits (nan_bits fl) = Nan"

section \<open>The scaled octets\<close>

text \<open>The two operations of a codec on a number that is nearly \<open>y\<close>.\<close>

lemma f64_lit_int: "0 \<le> n \<Longrightarrow> n < 2 ^ 53 \<Longrightarrow> f64_lit (of_int n) = Fin False (of_int n)"
  unfolding f64_lit_def by (rule mk64_int)

lemma lits: "f64_lit 100 = Fin False 100" "f64_lit 255 = Fin False 255" "f64_lit 360 = Fin False 360"
  using f64_lit_int [of 100] f64_lit_int [of 255] f64_lit_int [of 360] by simp_all

lemma f64_of_octet: "f64_of_int (uint (r :: u8)) = Fin False (of_int (uint r))"
  using f64_of_int_exact [of "uint r"] uint_lt2p [of r] by simp

context float_lib begin

lemma round_Fin: "round fl (Fin s a) = Fin s (of_int \<lfloor>a + 1 / 2\<rfloor>)"
  by (simp add: round_def rounds round_away_def)

lemma octet_of_round: "0 \<le> n \<Longrightarrow> n \<le> 255 \<Longrightarrow> f64_to_u8 fl (Fin False (of_int n)) = Inr (word_of_int n)"
proof -
  assume n: "0 \<le> n" "n \<le> 255"
  have "\<lfloor>of_int n + 1 / 2 :: rat\<rfloor> = n" by (rule floor_unique) simp_all
  moreover have "(of_int n :: rat) \<le> of_int 255" using n(2) by (simp only: of_int_le_iff)
  ultimately show ?thesis using n by (simp add: f64_to_u8_def round_Fin)
qed

lemma scaled_octet:
  fixes r :: u8 and F :: int
  assumes "F = 100 \<or> F = 360"
  shows "\<exists>a. f64_div (f64_mult (f64_of_int (uint r)) (f64_lit (of_int F))) (f64_lit 255) = Fin False a \<and>
    f64_between 0 (of_int F) (Fin False a) \<and>
    f64_to_u8 fl (round fl (f64_div (f64_mult (Fin False a) (f64_lit 255)) (f64_lit (of_int F)))) = Inr r"
proof -
  let ?r = "uint r" and ?F = "of_int F :: rat"
  have r: "0 \<le> ?r" "?r \<le> 255" using uint_lt2p [of r] by simp_all
  have F: "0 < F" "F \<le> 360" "f64_lit ?F = Fin False ?F" using assms lits by auto
  have rF: "0 \<le> ?r * F" "?r * F \<le> 255 * 360" using r F mult_mono [of ?r 255 F 360] by simp_all
  let ?y = "of_int (?r * F) / 255 :: rat"
  have rq: "(of_int ?r :: rat) \<le> 255" using r(2) of_int_le_iff [of ?r 255, where ?'a = rat] by simp
  have Fq: "0 < ?F" "?F \<le> 360" using F(1,2) of_int_le_iff [of F 360, where ?'a = rat] by simp_all
  have ty: "tame (of_int n * c)" if "0 \<le> n" "n \<le> 255 * 360" "1 / 255 \<le> c" "c \<le> 255" for n :: int and c :: rat
  proof (cases "n = 0")
    case False
    have "1 \<le> (of_int n :: rat)" "(of_int n :: rat) \<le> of_int (255 * 360)" using that False by (simp_all only: of_int_le_iff of_int_1_le_iff)
    then have "1 * (1 / 255) \<le> of_int n * c" "of_int n * c \<le> of_int (255 * 360) * 255"
      using that by (intro mult_mono; simp)+
    then show ?thesis unfolding tame_def by simp
  qed (simp add: tame_def)
  have m1: "f64_mult (f64_of_int ?r) (f64_lit ?F) = Fin False (of_int (?r * F))"
    unfolding f64_of_octet F(3) f64_mult.simps of_int_mult [symmetric] using rF by (subst mk64_int) simp_all
  have t1: "tame ?y" using ty [OF rF, of "1 / 255"] by simp
  obtain a where a: "mk64 False ?y = Fin False a" "a = rnd64 ?y" "near 2 a ?y" "0 \<le> a"
    using mk64_near [of 0 ?y ?y False] t1 rF by (auto simp: near_def)
  have d: "f64_div (Fin False (of_int (?r * F))) (f64_lit 255) = Fin False a" using a(1) by (simp add: lits)
  have le: "a \<le> ?F"
  proof (cases "?r = 255")
    case True
    then have "?y = of_int F" by simp
    then have "a = of_int F" using a(2) rnd64_int [of F] F(1,2) by simp
    then show ?thesis by simp
  next
    case False
    then have "?r * F \<le> 254 * F" using r F(1) by simp
    then have "of_int (?r * F) \<le> (of_int (254 * F) :: rat)" by (simp only: of_int_le_iff)
    then have y: "?y \<le> 254 / 255 * ?F" by simp
    have "a - ?y \<le> ?y * of_nat 2 / 2 ^ 53" using a(3) unfolding near_def by (rule abs_le_D1)
    then have "a \<le> ?y * (1 + 2 / 2 ^ 53)" by (simp add: algebra_simps)
    also have "\<dots> \<le> 254 / 255 * ?F * (1 + 2 / 2 ^ 53)" using y by (rule mult_right_mono) simp
    also have "\<dots> \<le> ?F" using Fq by simp
    finally show ?thesis .
  qed
  have "near 2 (a * 255) (?y * 255)" by (rule near_scale [OF a(3)]) simp
  then have n2: "near 2 (a * 255) (of_int (?r * F))" by simp
  obtain b where b: "mk64 False (a * 255) = Fin False b" "near 4 b (of_int (?r * F))"
    using mk64_near [OF n2, of False] ty [OF rF, of 1] by auto
  have "near 4 (b * (1 / ?F)) (of_int (?r * F) * (1 / ?F))" using Fq by (intro near_scale [OF b(2)]) simp
  then have n4: "near 4 (b / ?F) (of_int ?r)" using Fq by simp
  have "tame (of_int ?r)" using ty [of ?r 1] r by simp
  then obtain e where e: "mk64 False (b / ?F) = Fin False e" "near 6 e (of_int ?r)"
    using mk64_near [OF n4, of False] by auto
  have "\<lfloor>e + 1 / 2\<rfloor> = ?r" using near_floor [OF e(2)] r by simp
  then have "f64_to_u8 fl (round fl (f64_div (f64_mult (Fin False a) (f64_lit 255)) (f64_lit ?F))) = f64_to_u8 fl (Fin False (of_int ?r))"
    using b(1) e(1) Fq by (simp add: lits F(3) round_Fin)
  also have "\<dots> = Inr r" using octet_of_round [of ?r] r by simp
  finally show ?thesis unfolding m1 d using le a(4) by simp
qed

end

section \<open>The two-octet floating-point number\<close>

definition dpt9_raw :: "nat \<Rightarrow> int \<Rightarrow> u16" where
  "dpt9_raw e m = ((if m < 0 then 0x8000 else 0) OR push_bit 11 (of_nat e)) OR word_of_int (take_bit 11 m)"

definition dpt9_exponent :: "u16 \<Rightarrow> nat" where
  "dpt9_exponent raw = unat (drop_bit 11 raw AND 0x0F)"

definition dpt9_mantissa :: "u16 \<Rightarrow> int" where
  "dpt9_mantissa raw = (let m = uint (raw AND 0x07FF) in if raw AND 0x8000 \<noteq> 0 then m - 0x0800 else m)"

text \<open>The fields are read back, and determine the number.\<close>

lemma dpt9_ranges: "dpt9_exponent raw \<le> 15" "- 2048 \<le> dpt9_mantissa raw" "dpt9_mantissa raw \<le> 2047"
proof -
  have "drop_bit 11 raw AND 0x0F \<le> 0x0F" by (rule word_and_le1)
  then show "dpt9_exponent raw \<le> 15" by (simp add: dpt9_exponent_def word_le_nat_alt)
  have "raw AND 0x07FF \<le> 0x07FF" by (rule word_and_le1)
  then have u: "uint (raw AND 0x07FF) \<le> 2047" by (simp add: word_le_def)
  show "- 2048 \<le> dpt9_mantissa raw" "dpt9_mantissa raw \<le> 2047"
    unfolding dpt9_mantissa_def Let_def using u uint_ge_0 [of "raw AND 0x07FF"] by (split if_split, linarith)+
qed

lemma u16_masks:
  fixes w :: u16
  shows "w AND 0x0F = take_bit 4 w" and "w AND 0x07FF = take_bit 11 w" and "w AND 0x8000 \<noteq> 0 \<longleftrightarrow> bit w 15"
proof -
  have "(0x0F :: u16) = mask 4" "(0x07FF :: u16) = mask 11" by (simp_all add: mask_eq_exp_minus_1)
  then show "w AND 0x0F = take_bit 4 w" "w AND 0x07FF = take_bit 11 w" by (simp_all add: take_bit_eq_mask)
  show "w AND 0x8000 \<noteq> 0 \<longleftrightarrow> bit w 15" using and_exp_eq_0_iff_not_bit [of w 15] by simp
qed

lemma dpt9_raw_bits: "dpt9_raw e m = ((if m < 0 then push_bit 15 1 else 0) OR push_bit 11 (of_nat e)) OR take_bit 11 (word_of_int m)"
  by (simp add: dpt9_raw_def take_bit_of_int)

lemma bit_sign [simp]: "bit (0x8000 :: int) n \<longleftrightarrow> n = 15" "bit (0x8000 :: u16) n \<longleftrightarrow> n = 15"
proof -
  have "bit (push_bit 15 1 :: int) n \<longleftrightarrow> n = 15" by (auto simp only: bit_push_bit_iff bit_1_iff) (auto simp: possible_bit_def)
  then show "bit (0x8000 :: int) n \<longleftrightarrow> n = 15" by simp
  have "bit (push_bit 15 1 :: u16) n \<longleftrightarrow> n = 15" by (auto simp only: bit_push_bit_iff bit_1_iff) (auto simp: possible_bit_def)
  then show "bit (0x8000 :: u16) n \<longleftrightarrow> n = 15" by simp
qed

lemma small_bits: "e \<le> 15 \<Longrightarrow> bit (e :: nat) n \<Longrightarrow> n < 4"
proof -
  assume "e \<le> 15" "bit e n"
  then have "bit (take_bit 4 e) n" by (simp add: take_bit_nat_eq_self)
  then show "n < 4" by (simp add: bit_take_bit_iff)
qed

lemma take_bit_11: "- 2048 \<le> m \<Longrightarrow> m \<le> 2047 \<Longrightarrow> take_bit 11 m = (if m < 0 then m + 2048 else (m :: int))"
proof (cases "m < 0")
  case True
  assume m: "- 2048 \<le> m" "m \<le> 2047"
  have "m mod 2048 = (m + 2048) mod 2048" by (simp only: mod_add_self2)
  also have "\<dots> = m + 2048" using True m by (intro mod_pos_pos_trivial) simp_all
  finally show ?thesis using True by (simp add: take_bit_eq_mod)
qed (simp add: take_bit_eq_mod)

lemma dpt9_fields:
  assumes "e \<le> 15" and "- 2048 \<le> m" and "m \<le> 2047"
  shows "dpt9_exponent (dpt9_raw e m) = e" and "dpt9_mantissa (dpt9_raw e m) = m"
proof -
  have "take_bit 4 (drop_bit 11 (dpt9_raw e m)) = of_nat e"
    unfolding dpt9_raw_bits by (rule bit_word_eqI) (auto simp: bit_simps dest: small_bits [OF assms(1)])
  then show "dpt9_exponent (dpt9_raw e m) = e"
    using assms(1) by (simp add: dpt9_exponent_def u16_masks(1) unsigned_of_nat take_bit_nat_eq_self)
  have "take_bit 11 (dpt9_raw e m) = take_bit 11 (word_of_int m)"
    unfolding dpt9_raw_bits by (rule bit_word_eqI) (auto simp: bit_simps)
  then have t: "uint (take_bit 11 (dpt9_raw e m)) = take_bit 11 m" by (simp add: unsigned_take_bit_eq uint_word_of_int_eq)
  have "bit (dpt9_raw e m) 15 \<longleftrightarrow> m < 0"
    unfolding dpt9_raw_bits by (auto simp: bit_simps dest: small_bits [OF assms(1)])
  then show "dpt9_mantissa (dpt9_raw e m) = m"
    using assms(2,3) by (simp add: dpt9_mantissa_def u16_masks t take_bit_11 Let_def)
qed

lemma dpt9_raw_fields: "dpt9_raw (dpt9_exponent raw) (dpt9_mantissa raw) = raw"
proof -
  let ?m = "dpt9_mantissa raw"
  have l: "uint (take_bit 11 raw) < 2048" "0 \<le> uint (take_bit 11 raw)" using take_bit_int_less_exp [of 11 "uint raw"] by (simp_all add: unsigned_take_bit_eq)
  have s: "?m < 0 \<longleftrightarrow> bit raw 15" using l by (simp add: dpt9_mantissa_def u16_masks Let_def)
  have "take_bit 11 ?m = uint (take_bit 11 raw)"
    using take_bit_11 [of ?m] dpt9_ranges(2,3) [of raw] s by (simp add: dpt9_mantissa_def u16_masks Let_def)
  then have "word_of_int (take_bit 11 ?m) = take_bit 11 raw" by simp
  moreover have "of_nat (dpt9_exponent raw) = take_bit 4 (drop_bit 11 raw)" by (simp add: dpt9_exponent_def u16_masks)
  moreover have "(0x8000 :: u16) = push_bit 15 1" by simp
  ultimately have e: "dpt9_raw (dpt9_exponent raw) ?m = ((if bit raw 15 then push_bit 15 1 else 0) OR push_bit 11 (take_bit 4 (drop_bit 11 raw))) OR take_bit 11 raw"
    by (simp add: dpt9_raw_def s)
  show ?thesis unfolding e
  proof (rule bit_word_eqI)
    fix n assume n: "n < LENGTH(16)"
    then consider "n < 11" | "11 \<le> n" "n < 15" | "n = 15" by fastforce
    then show "bit (((if bit raw 15 then push_bit 15 1 else 0) OR push_bit 11 (take_bit 4 (drop_bit 11 raw))) OR take_bit 11 raw) n = bit raw n"
      by cases (auto simp: bit_simps)
  qed
qed


text \<open>The number that the fields stand for, as it is computed.\<close>

definition centi :: rat where "centi = rnd64 (1 / 100)"

definition dpt9_value :: "nat \<Rightarrow> int \<Rightarrow> f64" where
  "dpt9_value e m = Fin (m < 0) (rnd64 (centi * of_int \<bar>m\<bar>) * 2 ^ e)"

lemma centi: "f64_lit (1 / 100) = Fin False centi" "near 2 centi (1 / 100)" "0 \<le> centi"
proof -
  have "tame (1 / 100)" by (simp add: tame_def)
  then show "f64_lit (1 / 100) = Fin False centi" "near 2 centi (1 / 100)" "0 \<le> centi"
    using mk64_near [of 0 "1 / 100" "1 / 100" False] by (auto simp: f64_lit_def centi_def numeral_2_eq_2)
qed

lemma tame_times: "0 \<le> n \<Longrightarrow> n \<le> 2 ^ 30 \<Longrightarrow> 1 / 2 ^ 20 \<le> c \<Longrightarrow> c \<le> 2 ^ 20 \<Longrightarrow> tame (of_int n * c)"
proof (cases "n = 0")
  case False
  assume n: "0 \<le> n" "n \<le> 2 ^ 30" "1 / 2 ^ 20 \<le> c" "c \<le> 2 ^ 20"
  have "1 \<le> (of_int n :: rat)" "(of_int n :: rat) \<le> of_int (2 ^ 30)" using n False by (simp_all only: of_int_le_iff of_int_1_le_iff)
  then have "1 * (1 / 2 ^ 20) \<le> of_int n * c" "of_int n * c \<le> of_int (2 ^ 30) * 2 ^ 20"
    using n by (intro mult_mono; simp)+
  then show ?thesis unfolding tame_def by simp
qed (simp add: tame_def)

lemma pow2_int: "e \<le> 15 \<Longrightarrow> f64_of_int (2 ^ e) = Fin False (2 ^ e)"
proof -
  assume "e \<le> 15"
  then have "(2 :: int) ^ e \<le> 2 ^ 15" by (intro power_increasing) simp_all
  then show ?thesis using f64_of_int_exact [of "2 ^ e"] by simp
qed

lemma shifted_bound: "\<bar>m\<bar> \<le> 2048 \<Longrightarrow> e \<le> 15 \<Longrightarrow> \<bar>m\<bar> * 2 ^ e \<le> (2 ^ 26 :: int)"
proof -
  assume "\<bar>m\<bar> \<le> 2048" "e \<le> 15"
  moreover from this have "(2 :: int) ^ e \<le> 2 ^ 15" by (intro power_increasing) simp_all
  ultimately have "\<bar>m\<bar> * 2 ^ e \<le> 2048 * 2 ^ 15" by (intro mult_mono) simp_all
  then show ?thesis by simp
qed

lemma centi_times:
  assumes "\<bar>m\<bar> \<le> 2 ^ 26"
  shows "mk64 s (centi * of_int \<bar>m\<bar>) = Fin s (rnd64 (centi * of_int \<bar>m\<bar>))" and "0 \<le> rnd64 (centi * of_int \<bar>m\<bar>)"
    and "near 4 (rnd64 (centi * of_int \<bar>m\<bar>)) (of_int \<bar>m\<bar> / 100)"
proof -
  have "near 2 (centi * of_int \<bar>m\<bar>) (1 / 100 * of_int \<bar>m\<bar>)" by (rule near_scale [OF centi(2)]) simp
  moreover have "tame (of_int \<bar>m\<bar> * (1 / 100))" using assms by (intro tame_times) simp_all
  ultimately obtain r where "mk64 s (centi * of_int \<bar>m\<bar>) = Fin s r" "r = rnd64 (centi * of_int \<bar>m\<bar>)"
      "near 4 r (of_int \<bar>m\<bar> / 100)" "0 \<le> r"
    using mk64_near [of 2 "centi * of_int \<bar>m\<bar>" "of_int \<bar>m\<bar> * (1 / 100)" s] by auto
  then show "mk64 s (centi * of_int \<bar>m\<bar>) = Fin s (rnd64 (centi * of_int \<bar>m\<bar>))" "0 \<le> rnd64 (centi * of_int \<bar>m\<bar>)"
    "near 4 (rnd64 (centi * of_int \<bar>m\<bar>)) (of_int \<bar>m\<bar> / 100)" by simp_all
qed

lemma dpt9_computed:
  assumes "\<bar>m\<bar> \<le> 2048" and "e \<le> 15"
  shows "f64_mult (f64_mult (f64_lit (1 / 100)) (f64_of_int m)) (f64_of_int (2 ^ e)) = dpt9_value e m"
proof -
  have m: "\<bar>m\<bar> \<le> 2 ^ 26" using assms(1) by simp
  let ?w = "rnd64 (centi * of_int \<bar>m\<bar>)"
  have 1: "f64_mult (f64_lit (1 / 100)) (f64_of_int m) = Fin (m < 0) ?w"
    using centi_times(1) [OF m, of "m < 0"] assms(1) by (simp add: centi(1) f64_of_int_exact)
  have n: "near 4 (?w * 2 ^ e) (of_int \<bar>m\<bar> / 100 * 2 ^ e)" by (rule near_scale [OF centi_times(3) [OF m]]) simp
  have "tame (of_int (\<bar>m\<bar> * 2 ^ e) * (1 / 100))" using shifted_bound [OF assms] by (intro tame_times) simp_all
  then have t: "tame (of_int \<bar>m\<bar> / 100 * 2 ^ e)" by (simp add: algebra_simps)
  have "mk64 (m < 0) (?w * 2 ^ e) = Fin (m < 0) (rnd64 (?w * 2 ^ e))" using mk64_near [OF n t, of "m < 0"] by auto
  also have "rnd64 (?w * 2 ^ e) = ?w * 2 ^ e" using centi(3) by (intro rnd64_rounded) simp
  finally show ?thesis unfolding 1 pow2_int [OF assms(2)] by (simp add: dpt9_value_def)
qed

text \<open>The same number with another exponent.\<close>

lemma dpt9_value_shift:
  assumes "j \<le> e" and "e \<le> 15" and "\<bar>m\<bar> \<le> 2048"
  shows "dpt9_value j (m * 2 ^ (e - j)) = dpt9_value e m"
proof -
  let ?x = "centi * of_int \<bar>m\<bar>"
  have "rnd64 (?x * 2 ^ (e - j)) = rnd64 ?x * 2 ^ (e - j)"
  proof (cases "m = 0")
    case False
    have "1 / 100 \<le> 2 * centi" using near_bounds(2) [OF centi(2)] by (simp add: tame_def)
    then have c: "1 / 200 \<le> centi" by simp
    have "(1 :: rat) \<le> of_int \<bar>m\<bar>" using False by (simp only: of_int_1_le_iff)
    then have "1 / 200 * 1 \<le> ?x" using c by (intro mult_mono) simp_all
    moreover from this have "1 / 200 * 1 \<le> ?x * 2 ^ (e - j)" using mult_mono [of "1 / 200" ?x 1 "2 ^ (e - j)"] by simp
    moreover have "2 powi (- 1022) \<le> (2 powi (- 8) :: rat)" by (rule powi_mono) simp
    then have "2 powi (- 1022) \<le> (1 / 200 :: rat)" by (simp add: power_int_minus_divide)
    ultimately show ?thesis using rnd64_scale [of ?x "int (e - j)"] by simp
  qed simp
  moreover have "of_int \<bar>m * 2 ^ (e - j)\<bar> = (of_int \<bar>m\<bar> * 2 ^ (e - j) :: rat)" by (simp add: abs_mult)
  moreover have "(2 :: rat) ^ (e - j) * 2 ^ j = 2 ^ e" using assms(1) by (simp add: power_add [symmetric])
  moreover have "m * 2 ^ (e - j) < 0 \<longleftrightarrow> m < 0" by (simp add: mult_less_0_iff)
  ultimately show ?thesis by (simp add: dpt9_value_def mult.assoc)
qed

lemma between_int:
  "f64_between (- 2048) 2047 (Fin s (of_int n)) \<longleftrightarrow> - 2048 \<le> (if s then - n else n) \<and> (if s then - n else n) \<le> 2047"
proof -
  have "f64_val (Fin s (of_int n)) = of_int (if s then - n else n)" by simp
  moreover have "(- 2048 :: rat) = of_int (- 2048)" "(2047 :: rat) = of_int 2047" by simp_all
  ultimately show ?thesis by (simp only: f64_between.simps of_int_le_iff)
qed

lemma f64_to_i32_small:
  "0 \<le> n \<Longrightarrow> n \<le> 2 ^ 26 \<Longrightarrow> f64_to_int (- 2147483648) 2147483647 (Fin s (of_int n)) = (if s then - n else n)"
  by simp

lemma dpt9_search_step:
  assumes "round fl (f64_div h (f64_of_int (2 ^ i))) = Fin s (of_int n)" and "0 \<le> n" and "n \<le> 2 ^ 26"
    and "v = (if s then - n else n)"
  shows "dpt9_search fl h (i # rest) =
    (if \<not> (- 2048 \<le> v \<and> v \<le> 2047) then dpt9_search fl h rest
     else if i = 15 \<and> v = 2047 then Inl (OutOfRange ''KNX F16 range is -671088.64 ..= 670433.28'')
     else Inr (to_be16 (dpt9_raw i v)))"
  unfolding dpt9_search.simps Let_def assms(1) between_int f64_to_i32_small [OF assms(2,3)] assms(4) [symmetric] dpt9_raw_def ..

context float_lib begin

text \<open>The search of the encoder for the smallest exponent.\<close>

lemma dpt9_search_finds:
  assumes h: "near 8 h (of_int (\<bar>m\<bar> * 2 ^ e))" and m: "- 2048 \<le> m" "m \<le> 2047" and e: "e \<le> 15" and nn: "\<not> (e = 15 \<and> m = 2047)"
  shows "i \<le> e \<Longrightarrow> \<exists>j. j \<le> e \<and> - 2048 \<le> m * 2 ^ (e - j) \<and> m * 2 ^ (e - j) \<le> 2047 \<and>
    dpt9_search fl (Fin (m < 0) h) [i ..< 16] = Inr (to_be16 (dpt9_raw j (m * 2 ^ (e - j))))"
proof (induction "e - i" arbitrary: i rule: less_induct)
  case less
  let ?N = "\<bar>m\<bar> * 2 ^ (e - i)" and ?v = "m * 2 ^ (e - i)"
  have am: "\<bar>m\<bar> \<le> 2048" using m by simp
  have N: "0 \<le> ?N" "?N \<le> 2 ^ 26" using shifted_bound [OF am, of "e - i"] e by simp_all
  have i: "i \<le> 15" using less.prems e by simp
  have "(2 :: int) ^ e = 2 ^ (e - i) * 2 ^ i" using less.prems by (simp add: power_add [symmetric])
  then have "of_int (\<bar>m\<bar> * 2 ^ e) * (1 / 2 ^ i) = (of_int ?N :: rat)" by simp
  moreover have "near 8 (h * (1 / 2 ^ i)) (of_int (\<bar>m\<bar> * 2 ^ e) * (1 / 2 ^ i))" by (rule near_scale [OF h]) simp
  ultimately have n: "near 8 (h / 2 ^ i) (of_int ?N)" by simp
  have "tame (of_int ?N)" using tame_times [of ?N 1] N by simp
  then obtain y where y: "mk64 (m < 0) (h / 2 ^ i) = Fin (m < 0) y" "near 10 y (of_int ?N)"
    using mk64_near [OF n, of "m < 0"] by auto
  have "\<lfloor>y + 1 / 2\<rfloor> = ?N" using near_floor [OF y(2)] N by simp
  then have r: "round fl (f64_div (Fin (m < 0) h) (f64_of_int (2 ^ i))) = Fin (m < 0) (of_int ?N)"
    by (simp add: pow2_int [OF i] y(1) round_Fin)
  have s: "?v = (if m < 0 then - ?N else ?N)" by simp
  have u: "[i ..< 16] = i # [Suc i ..< 16]" using i by (simp add: upt_conv_Cons)
  note step = dpt9_search_step [OF r N s, of "[Suc i ..< 16]"]
  show ?case
  proof (cases "- 2048 \<le> ?v \<and> ?v \<le> 2047")
    case True
    have "\<not> (i = 15 \<and> ?v = 2047)" using nn less.prems e by auto
    then have "dpt9_search fl (Fin (m < 0) h) [i ..< 16] = Inr (to_be16 (dpt9_raw i ?v))" unfolding u step using True by simp
    then show ?thesis using True less.prems by blast
  next
    case False
    then have "i \<noteq> e" using m by auto
    then have "i < e" using less.prems by simp
    moreover have "dpt9_search fl (Fin (m < 0) h) [i ..< 16] = dpt9_search fl (Fin (m < 0) h) [Suc i ..< 16]"
      unfolding u step using False by simp
    ultimately show ?thesis using less.hyps [of "Suc i"] by simp
  qed
qed

lemma dpt9_reencode:
  assumes "\<not> (e = 15 \<and> m = 2047)" and "- 2048 \<le> m" and "m \<le> 2047" and "e \<le> 15"
  shows "\<exists>j n. j \<le> e \<and> - 2048 \<le> n \<and> n \<le> 2047 \<and> dpt9_value j n = dpt9_value e m \<and> \<not> (j = 15 \<and> n = 2047) \<and>
    encode_dpt9 fl (DvFloat (dpt9_value e m)) = Inr (to_be16 (dpt9_raw j n))"
proof -
  have am: "\<bar>m\<bar> \<le> 2048" "\<bar>m\<bar> \<le> 2 ^ 26" using assms by simp_all
  let ?w = "rnd64 (centi * of_int \<bar>m\<bar>)"
  have "near 4 (?w * (2 ^ e * 100)) (of_int \<bar>m\<bar> / 100 * (2 ^ e * 100))" by (rule near_scale [OF centi_times(3) [OF am(2)]]) simp
  then have n: "near 4 (?w * 2 ^ e * 100) (of_int (\<bar>m\<bar> * 2 ^ e))" by (simp add: mult.assoc)
  have "tame (of_int (\<bar>m\<bar> * 2 ^ e))" using tame_times [of "\<bar>m\<bar> * 2 ^ e" 1] shifted_bound [OF am(1) assms(4)] by simp
  then obtain h where h: "mk64 (m < 0) (?w * 2 ^ e * 100) = Fin (m < 0) h" "near 6 h (of_int (\<bar>m\<bar> * 2 ^ e))"
    using mk64_near [OF n, of "m < 0"] by auto
  have "near 8 h (of_int (\<bar>m\<bar> * 2 ^ e))" using h(2) unfolding near_def by (rule order_trans) (simp add: divide_right_mono mult_left_mono)
  from dpt9_search_finds [OF this assms(2-4,1), of 0] obtain j where j: "j \<le> e" "- 2048 \<le> m * 2 ^ (e - j)" "m * 2 ^ (e - j) \<le> 2047"
    "dpt9_search fl (Fin (m < 0) h) [0 ..< 16] = Inr (to_be16 (dpt9_raw j (m * 2 ^ (e - j))))" by auto
  have "encode_dpt9 fl (DvFloat (dpt9_value e m)) = dpt9_search fl (Fin (m < 0) h) [0 ..< 16]"
    by (simp add: encode_dpt9_def val_f64_def dpt9_value_def lits h(1) del: of_int_abs)
  moreover have "\<not> (j = 15 \<and> m * 2 ^ (e - j) = 2047)" using assms(1,4) j(1) by auto
  ultimately show ?thesis using j dpt9_value_shift [OF j(1) assms(4) am(1)] by (intro exI [of _ j] exI [of _ "m * 2 ^ (e - j)"]) simp
qed

end

end
