(* ===== verification/Dpt_Groups.thy ===== *)
theory Dpt_Groups
  imports Dpt_Codec
begin

text \<open>Each main group in turn: what decoding and encoding make of each other's results.\<close>

definition reserved :: "dpt \<Rightarrow> u8 list \<Rightarrow> bool" where
  "reserved d payload =
     (dpt_main d = 4 \<and> dpt_sub d = 1 \<and> 0x7F < payload ! 0 \<or>
      dpt_main d = 5 \<and> dpt_sub d = 6 \<and> payload ! 0 = 0xFF \<or>
      dpt_main d = 6 \<and> dpt_sub d = DPT6_STATUS_MODE \<and> payload ! 0 AND 0x07 \<notin> {1, 2, 4} \<or>
      dpt_main d = 18 \<and> payload ! 0 AND 0x40 \<noteq> 0 \<or>
      dpt_main d = DPT267 \<and> last payload \<noteq> 0)"

text \<open>An encoder's result on a decoded value: it is decoded as that value, or the encoder refuses.\<close>

definition sent_again :: "(u8 list \<Rightarrow> DptError + DptValue) \<Rightarrow> (DptValue \<Rightarrow> DptError + u8 list) \<Rightarrow> u8 list \<Rightarrow> DptValue \<Rightarrow> bool" where
  "sent_again decode encode payload v \<longleftrightarrow> (decode payload = Inr v \<longrightarrow> (\<exists>bs. encode v = Inr bs \<and> decode bs = Inr v))"

definition refused :: "DptError + 'a \<Rightarrow> bool" where
  "refused r \<longleftrightarrow> (\<exists>c. r = Inl (OutOfRange c))"

definition wire_ok :: "dpt \<Rightarrow> u8 list \<Rightarrow> bool" where
  "wire_ok d bs = (case wire_size d of
     WireBits n \<Rightarrow> length bs = 1 \<and> bs ! 0 < 2 ^ unat n
   | WireBytes n \<Rightarrow> length bs = unat n
   | VariableBytes \<Rightarrow> bs \<noteq> [] \<and> last bs = 0
   | WireUnknown \<Rightarrow> False)"

section \<open>Words\<close>

lemma low_masks: "(0xFF :: u32) = mask 8" "(0xFFFF :: u32) = mask 16"
  by (simp_all add: mask_eq_exp_minus_1)

lemma low_u8_ucast [simp]: "low_u8 (ucast (x :: u8)) = x"
  unfolding low_u8_def low_masks by (rule bit_word_eqI) (auto simp: bit_simps)

lemma low_u16_ucast [simp]: "low_u16 (ucast (x :: u16)) = x"
  unfolding low_u16_def low_masks by (rule bit_word_eqI) (auto simp: bit_simps)

lemma low_i8_scast [simp]: "low_i8 (scast (x :: u8)) = x"
  unfolding low_i8_def by (rule bit_word_eqI) (auto simp: bit_simps)

lemma low_i16_scast [simp]: "low_i16 (scast (x :: u16)) = x"
  unfolding low_i16_def by (rule bit_word_eqI) (auto simp: bit_simps)

lemma sint_scast8: "- 128 \<le> sint (scast (x :: u8) :: i32)" "sint (scast (x :: u8) :: i32) \<le> 127"
  using sint_ge [of x] sint_lt [of x] by (simp_all add: sint_up_scast is_up)

lemma sint_scast16: "- 32768 \<le> sint (scast (x :: u16) :: i32)" "sint (scast (x :: u16) :: i32) \<le> 32767"
  using sint_ge [of x] sint_lt [of x] by (simp_all add: sint_up_scast is_up)

lemma unat_ucast32 [simp]: "unat (ucast (x :: u8) :: u32) = unat x" "unat (ucast (y :: u16) :: u32) = unat y"
  by (simp_all add: unsigned_ucast_eq take_bit_nat_eq_self less_trans [OF unat_bounds(1)] less_trans [OF unat_bounds(3)])

lemma ucast_bounds: "(ucast (x :: u8) :: u32) \<le> 0xFF" "(ucast (y :: u16) :: u32) \<le> 0xFFFF"
  using unat_bounds by (simp_all add: word_le_nat_alt)

lemma ucast_le_iff: "(ucast (x :: u8) :: u32) \<le> ucast y \<longleftrightarrow> x \<le> (y :: u8)"
  by (simp add: word_le_nat_alt)

lemma to_be64_inverse: "length p = 8 \<Longrightarrow> to_be64 (be64 p) = p"
proof -
  assume l: "length p = 8"
  have "ucast (drop_bit 32 (push_bit 32 (ucast a) OR ucast b) :: u64) = (a :: u32)" "ucast (push_bit 32 (ucast a) OR ucast b :: u64) = b" for a b :: u32
    by (rule bit_word_eqI; auto simp: bit_simps dest: bit_imp_le_length)+
  then have "to_be64 (be64 p) = [p ! 0, p ! 1, p ! 2, p ! 3] @ [p ! 4, p ! 5, p ! 6, p ! 7]"
    by (simp add: to_be64_def be64_def)
  also have "\<dots> = p" using l by (simp add: list_eq_iff_nth_eq less_Suc_eq numeral_eq_Suc nth_Cons split: nat.splits)
  finally show ?thesis .
qed


lemma low_ucast: "low_u8 v = ucast v" "low_u16 v = ucast v"
  unfolding low_u8_def low_u16_def low_masks by (rule bit_word_eqI; auto simp: bit_simps)+

lemma unat_low_u8: "v \<le> 0xFF \<Longrightarrow> unat (low_u8 v) = unat v"
  by (simp add: low_ucast unsigned_ucast_eq word_le_nat_alt take_bit_nat_eq_self)

lemma low_u8_le: "v \<le> ucast m \<Longrightarrow> low_u8 v \<le> m"
proof -
  assume v: "v \<le> ucast m"
  then have "v \<le> 0xFF" using ucast_bounds(1) [of m] by (rule order_trans)
  then show ?thesis using unat_low_u8 [of v] v by (simp add: word_le_nat_alt)
qed

lemma val_u32_max_le: "val_u32_max fl value m = Inr v \<Longrightarrow> v \<le> m"
  by (auto simp: val_u32_max_def bind_res_Inr_iff split: if_splits)

lemma val_u32_max_UInt [simp]: "v \<le> m \<Longrightarrow> val_u32_max fl (DvUInt v) m = Inr v"
  by (simp add: val_u32_max_def)

lemma check_len_simps [simp]: "check_len p n = Inr u \<longleftrightarrow> n \<le> length p" "n \<le> length p \<Longrightarrow> check_len p n = Inr ()"
  by (auto simp: check_len_def)

lemma take_nth: "n \<le> length p \<Longrightarrow> take n p = map ((!) p) [0 ..< n]"
  by (simp add: list_eq_iff_nth_eq)

section \<open>Decoded and encoded again\<close>

lemma sent_againI: "(\<And>v. decode p = Inr v \<Longrightarrow> \<exists>bs. encode v = Inr bs \<and> decode bs = Inr v) \<Longrightarrow> sent_again decode encode p v"
  by (simp add: sent_again_def)

text \<open>A decoder that reads a fixed number of octets.\<close>

lemma bind_check: "bind_res (check_len p n) f = (if n \<le> length p then f () else Inl PayloadTooShort)"
  by (simp add: check_len_def)

lemma again_dpt1: "sent_again decode_dpt1 encode_dpt1 p v"
proof (rule sent_againI)
  fix v assume "decode_dpt1 p = Inr v"
  then obtain b where "v = DvBool b" by (auto simp: decode_dpt1_def bind_check split: if_splits)
  then show "\<exists>bs. encode_dpt1 v = Inr bs \<and> decode_dpt1 bs = Inr v"
    by (cases b) (simp_all add: encode_dpt1_def decode_dpt1_def bind_check)
qed

lemma again_masked: "sent_again (\<lambda>p. decode_masked p m) (\<lambda>v. encode_masked fl v m) p v"
proof (rule sent_againI)
  fix v assume "decode_masked p m = Inr v"
  then have v: "v = DvUInt (ucast (p ! 0 AND m))" by (simp add: decode_masked_def bind_check split: if_splits)
  have "(ucast (p ! 0 AND m) :: u32) \<le> ucast m" by (simp add: ucast_le_iff word_and_le1)
  then have "encode_masked fl v m = Inr [p ! 0 AND m]" unfolding v encode_masked_def by simp
  moreover have "decode_masked [p ! 0 AND m] m = Inr v" by (simp add: v decode_masked_def bind_check and.assoc)
  ultimately show "\<exists>bs. encode_masked fl v m = Inr bs \<and> decode_masked bs m = Inr v" by blast
qed

lemma be32_small: "be32 0 0 a b \<le> 0xFFFF" "be32 0 a b c \<le> 0xFFFFFF"
proof -
  have "(0xFFFF :: u32) = mask 16" "(0xFFFFFF :: u32) = mask 24" by (simp_all add: mask_eq_exp_minus_1)
  moreover have "be32 0 0 a b AND mask 16 = be32 0 0 a b" "be32 0 a b c AND mask 24 = be32 0 a b c"
    unfolding be32_def by (rule bit_word_eqI; auto simp: bit_simps dest: bit_imp_le_length)+
  ultimately show "be32 0 0 a b \<le> 0xFFFF" "be32 0 a b c \<le> 0xFFFFFF" by (metis word_and_le1)+
qed

lemma again_uint_be:
  assumes "n = 2 \<or> n = 3"
  shows "sent_again (\<lambda>p. decode_uint_be p n) (\<lambda>v. encode_uint_be fl v n) p v"
proof (rule sent_againI)
  fix v assume d: "decode_uint_be p n = Inr v"
  let ?f = "foldl (\<lambda>acc b. push_bit 8 acc OR ucast b) (0 :: u32)"
  have n: "n \<le> length p" and v: "v = DvUInt (?f (take n p))" using d by (simp_all add: decode_uint_be_def bind_check split: if_splits)
  obtain q where q: "take n p = q" "length q = n" using n length_take [of n p] by (simp only: min_absorb2)
  have again: "decode_uint_be q n = Inr v" using q by (auto simp: decode_uint_be_def bind_check v)
  have "encode_uint_be fl v n = Inr q"
    using assms
  proof
    assume n: "n = 2"
    then obtain a b where t: "q = [a, b]" using q by (auto simp: numeral_2_eq_2 length_Suc_conv)
    have "v = DvUInt (be32 0 0 a b)" unfolding v q(1) t by (simp add: be32_def)
    then show ?thesis using be32_small(1) [of a b] by (simp add: encode_uint_be_def n t)
  next
    assume n: "n = 3"
    then obtain a b c where t: "q = [a, b, c]" using q by (auto simp: numeral_3_eq_3 length_Suc_conv)
    have "v = DvUInt (be32 0 a b c)" unfolding v q(1) t by (simp add: be32_def push_bit_or or.assoc)
    then show ?thesis using be32_small(2) [of a b c] by (simp add: encode_uint_be_def n t)
  qed
  with again show "\<exists>bs. encode_uint_be fl v n = Inr bs \<and> decode_uint_be bs n = Inr v" by blast
qed

text \<open>One octet read as a number, and what the encoders of such groups accept.\<close>

definition octet_value :: "u8 list \<Rightarrow> DptError + DptValue" where
  "octet_value p = bind_res (check_len p 1) (\<lambda>_. Inr (DvUInt (ucast (p ! 0))))"

lemma octet_valueE: "octet_value p = Inr v \<Longrightarrow> v = DvUInt (ucast (p ! 0)) \<and> octet_value [p ! 0] = Inr v"
  by (simp add: octet_value_def bind_check split: if_splits)

lemma octet_decoders: "decode_dpt4 = octet_value" "decode_dpt18 = octet_value"
  by (simp_all add: fun_eq_iff octet_value_def decode_dpt4_def decode_dpt18_def)

lemma again_dpt4:
  assumes "octet_value p = Inr v"
  shows "if dpt_sub d = 1 \<and> 0x7F < p ! 0 then refused (encode_dpt4 fl d v)
    else \<exists>bs. encode_dpt4 fl d v = Inr bs \<and> octet_value bs = Inr v"
proof -
  note v = octet_valueE [OF assms]
  have "(0x7F :: u32) < ucast (p ! 0) \<longleftrightarrow> 0x7F < p ! 0" by (simp add: word_less_nat_alt)
  then show ?thesis
    using v ucast_bounds(1) [of "p ! 0"] by (auto simp: encode_dpt4_def val_u32_max_def refused_def not_less not_le)
qed

lemma again_dpt18:
  assumes "octet_value p = Inr v"
  shows "if p ! 0 AND 0x40 \<noteq> 0 then refused (encode_dpt18 fl v)
    else \<exists>bs. encode_dpt18 fl v = Inr bs \<and> octet_value bs = Inr v"
proof -
  note v = octet_valueE [OF assms]
  have "(ucast (p ! 0) :: u32) AND 0x40 \<noteq> 0 \<longleftrightarrow> p ! 0 AND 0x40 \<noteq> 0"
    using and_exp_eq_0_iff_not_bit [of "ucast (p ! 0) :: u32" 6] and_exp_eq_0_iff_not_bit [of "p ! 0" 6] by (simp add: bit_simps)
  then show ?thesis using v ucast_bounds(1) [of "p ! 0"] by (auto simp: encode_dpt18_def refused_def)
qed

lemma again_dpt6:
  assumes "decode_dpt6 d p = Inr v"
  shows "if dpt_sub d = DPT6_STATUS_MODE \<and> p ! 0 AND 0x07 \<notin> {1, 2, 4} then refused (encode_dpt6 fl d v)
    else \<exists>bs. encode_dpt6 fl d v = Inr bs \<and> decode_dpt6 d bs = Inr v"
proof (cases "dpt_sub d = DPT6_STATUS_MODE")
  case True
  then have v: "v = DvUInt (ucast (p ! 0))" "decode_dpt6 d [p ! 0] = Inr v"
    using assms by (simp_all add: decode_dpt6_def bind_check split: if_splits)
  have u: "(ucast (p ! 0) :: u32) AND 0x07 = ucast (p ! 0 AND 0x07)"
  proof -
    have m: "(0x07 :: u32) = mask 3" "(0x07 :: u8) = mask 3" by (simp_all add: mask_eq_exp_minus_1)
    show ?thesis unfolding m by (rule bit_word_eqI) (auto simp: bit_simps dest: bit_imp_le_length)
  qed
  have e: "(ucast (p ! 0 AND 0x07) :: u32) = ucast c \<longleftrightarrow> p ! 0 AND 0x07 = c" for c :: u8
    by (metis low_u8_ucast)
  have "(ucast (p ! 0 AND 0x07) :: u32) \<in> {1, 2, 4} \<longleftrightarrow> p ! 0 AND 0x07 \<in> {1, 2, 4}"
    using e [of 1] e [of 2] e [of 4] by simp
  then show ?thesis
    using v True ucast_bounds(1) [of "p ! 0"] by (simp add: encode_dpt6_def refused_def u del: insert_iff)
next
  case False
  then have "v = DvInt (scast (p ! 0))" "decode_dpt6 d [p ! 0] = Inr v"
    using assms by (simp_all add: decode_dpt6_def bind_check split: if_splits)
  then show ?thesis using False sint_scast8 [of "p ! 0"] by (simp add: encode_dpt6_def val_i32_range_def)
qed

lemma again_dpt7: "sent_again decode_dpt7 (encode_dpt7 fl) p v"
proof (rule sent_againI)
  fix v assume "decode_dpt7 p = Inr v"
  then have "v = DvUInt (ucast (be16 (p ! 0) (p ! 1)))" "decode_dpt7 [p ! 0, p ! 1] = Inr v"
    by (simp_all add: decode_dpt7_def bind_check split: if_splits)
  then show "\<exists>bs. encode_dpt7 fl v = Inr bs \<and> decode_dpt7 bs = Inr v"
    using ucast_bounds(2) [of "be16 (p ! 0) (p ! 1)"] by (simp add: encode_dpt7_def)
qed

lemma again_dpt8: "sent_again decode_dpt8 (encode_dpt8 fl) p v"
proof (rule sent_againI)
  fix v assume "decode_dpt8 p = Inr v"
  then have "v = DvInt (scast (be16 (p ! 0) (p ! 1)))" "decode_dpt8 [p ! 0, p ! 1] = Inr v"
    by (simp_all add: decode_dpt8_def bind_check split: if_splits)
  then show "\<exists>bs. encode_dpt8 fl v = Inr bs \<and> decode_dpt8 bs = Inr v"
    using sint_scast16 [of "be16 (p ! 0) (p ! 1)"] by (simp add: encode_dpt8_def val_i32_range_def)
qed

lemma again_dpt10: "sent_again decode_dpt10 encode_dpt10 p v"
  by (rule sent_againI) (auto simp: decode_dpt10_def encode_dpt10_def bind_check split: if_splits)

lemma four: "4 \<le> length p \<Longrightarrow> be32 (p ! 0) (p ! 1) (p ! 2) (p ! 3) = w \<Longrightarrow> to_be32 w = [p ! 0, p ! 1, p ! 2, p ! 3]"
  using to_be32_be32 by metis

lemma again_four:
  "sent_again decode_dpt12 (encode_dpt12 fl) p v" "sent_again decode_dpt13 (encode_dpt13 fl) p v" "sent_again decode_dpt27 (encode_dpt27 fl) p v"
  by (rule sent_againI, auto simp: decode_dpt12_def encode_dpt12_def decode_dpt13_def encode_dpt13_def decode_dpt27_def encode_dpt27_def
      bind_check split: if_splits)+

lemma again_dpt15: "sent_again decode_dpt15 (encode_dpt15 fl) p v"
  by (rule sent_againI, rule exI [of _ "take 4 p"]) (auto simp: decode_dpt15_def encode_dpt15_def bind_check split: if_splits)

lemma again_dpt29: "sent_again decode_dpt29 (encode_dpt29 fl) p v"
proof (rule sent_againI)
  fix v assume "decode_dpt29 p = Inr v"
  then have v: "v = DvInt64 (be64 p)" "8 \<le> length p" by (simp_all add: decode_dpt29_def bind_check split: if_splits)
  have "be64 (take 8 p) = be64 p" by (simp add: be64_def)
  moreover have "to_be64 (be64 (take 8 p)) = take 8 p" using v(2) by (intro to_be64_inverse) simp
  ultimately show "\<exists>bs. encode_dpt29 fl v = Inr bs \<and> decode_dpt29 bs = Inr v"
    using v by (simp add: encode_dpt29_def decode_dpt29_def bind_check)
qed

lemma again_dpt232: "sent_again decode_dpt232 (encode_dpt232 fl) p v"
proof (rule sent_againI)
  fix v assume d: "decode_dpt232 p = Inr v"
  let ?w = "be32 0 (p ! 0) (p ! 1) (p ! 2)"
  have w: "v = DvUInt ?w" "3 \<le> length p" using d by (simp_all add: decode_dpt232_def be32_def bind_check or.assoc split: if_splits)
  have f: "(0xFF :: u32) = mask 8" by (simp add: mask_eq_exp_minus_1)
  have x: "(ucast (z AND 0xFF) :: u8) = ucast z" for z :: u32 unfolding f by (rule bit_word_eqI) (auto simp: bit_simps)
  have "encode_dpt232 fl v = Inr [p ! 0, p ! 1, p ! 2]"
    using be32_small(2) [of "p ! 0" "p ! 1" "p ! 2"] by (simp add: encode_dpt232_def w(1) x low_ucast)
  moreover have "decode_dpt232 [p ! 0, p ! 1, p ! 2] = Inr v" using d w(2) by (simp add: decode_dpt232_def bind_check)
  ultimately show "\<exists>bs. encode_dpt232 fl v = Inr bs \<and> decode_dpt232 bs = Inr v" by blast
qed


section \<open>Floating-point groups\<close>

context float_lib begin

lemma again_dpt5:
  assumes "decode_dpt5 d p = Inr v"
  shows "if dpt_sub d = 6 \<and> p ! 0 = 0xFF then refused (encode_dpt5 fl d v)
    else \<exists>bs. encode_dpt5 fl d v = Inr bs \<and> decode_dpt5 d bs = Inr v"
proof -
  have again: "decode_dpt5 d [p ! 0] = Inr v" using assms by (simp add: decode_dpt5_def bind_check Let_def split: if_splits)
  consider "dpt_sub d = 1" | "dpt_sub d = 3" | "dpt_sub d \<noteq> 1" "dpt_sub d \<noteq> 3" by blast
  then show ?thesis
  proof cases
    case 1
    obtain a where a: "f64_div (f64_mult (f64_of_int (uint (p ! 0))) (f64_lit 100)) (f64_lit 255) = Fin False a"
      "f64_between 0 100 (Fin False a)" "f64_to_u8 fl (round fl (f64_div (f64_mult (Fin False a) (f64_lit 255)) (f64_lit 100))) = Inr (p ! 0)"
      using scaled_octet [of 100 "p ! 0"] by auto
    have "v = DvFloat (Fin False a)" using assms 1 by (simp add: decode_dpt5_def bind_check a(1) split: if_splits)
    then have "encode_dpt5 fl d v = Inr [p ! 0]"
      using 1 a(2,3) by (simp add: encode_dpt5_def val_f64_def del: f64_between.simps f64_mult.simps)
    then show ?thesis using again 1 by simp
  next
    case 2
    obtain a where a: "f64_div (f64_mult (f64_of_int (uint (p ! 0))) (f64_lit 360)) (f64_lit 255) = Fin False a"
      "f64_between 0 360 (Fin False a)" "f64_to_u8 fl (round fl (f64_div (f64_mult (Fin False a) (f64_lit 255)) (f64_lit 360))) = Inr (p ! 0)"
      using scaled_octet [of 360 "p ! 0"] by auto
    have "v = DvFloat (Fin False a)" using assms 2 by (simp add: decode_dpt5_def bind_check a(1) split: if_splits)
    then have "encode_dpt5 fl d v = Inr [p ! 0]"
      using 2 a(2,3) by (simp add: encode_dpt5_def val_f64_def del: f64_between.simps f64_mult.simps)
    then show ?thesis using again 2 by simp
  next
    case 3
    then have v: "v = DvUInt (ucast (p ! 0))" using assms by (simp add: decode_dpt5_def bind_check split: if_splits)
    have "254 < unat (p ! 0) \<longleftrightarrow> unat (p ! 0) = 255" using unat_bounds(2) [of "p ! 0"] by linarith
    then have "(254 :: u32) < ucast (p ! 0) \<longleftrightarrow> p ! 0 = 0xFF" by (simp add: word_less_nat_alt word_unat_eq_iff)
    then show ?thesis
      using 3 v again ucast_bounds(1) [of "p ! 0"] by (auto simp: encode_dpt5_def val_u32_max_def refused_def not_less)
  qed
qed

lemma decode_dpt9_value:
  assumes "2 \<le> length p"
  defines "raw \<equiv> be16 (p ! 0) (p ! 1)"
  shows "decode_dpt9 p = Inr (DvFloat (if raw = DPT9_INVALID then Nan else dpt9_value (dpt9_exponent raw) (dpt9_mantissa raw)))"
proof -
  have "\<bar>dpt9_mantissa raw\<bar> \<le> 2048" using dpt9_ranges(2,3) [of raw] by linarith
  note v = dpt9_computed [OF this dpt9_ranges(1) [of raw]]
  show ?thesis
    unfolding v [symmetric] using assms(1)
    by (simp add: decode_dpt9_def bind_check raw_def dpt9_exponent_def dpt9_mantissa_def Let_def)
qed

lemma again_dpt9: "sent_again decode_dpt9 (encode_dpt9 fl) p v"
proof (rule sent_againI)
  fix v assume d: "decode_dpt9 p = Inr v"
  then have l: "2 \<le> length p" by (simp add: decode_dpt9_def bind_check split: if_splits)
  let ?raw = "be16 (p ! 0) (p ! 1)" let ?e = "dpt9_exponent ?raw" let ?m = "dpt9_mantissa ?raw"
  have two: "decode_dpt9 (to_be16 w) = Inr (DvFloat (if w = DPT9_INVALID then Nan else dpt9_value (dpt9_exponent w) (dpt9_mantissa w)))" for w
    using decode_dpt9_value [of "to_be16 w"] by (simp add: to_be16_def)
  have inv: "dpt9_raw 15 2047 = DPT9_INVALID" by (simp add: dpt9_raw_def DPT9_INVALID_def take_bit_eq_mod)
  show "\<exists>bs. encode_dpt9 fl v = Inr bs \<and> decode_dpt9 bs = Inr v"
  proof (cases "?raw = DPT9_INVALID")
    case True
    then have v: "v = DvFloat Nan" using d decode_dpt9_value [OF l] by simp
    then have "encode_dpt9 fl v = Inr (to_be16 DPT9_INVALID)" by (simp add: encode_dpt9_def val_f64_def)
    then show ?thesis using two [of DPT9_INVALID] v by simp
  next
    case False
    then have v: "v = DvFloat (dpt9_value ?e ?m)" using d decode_dpt9_value [OF l] by simp
    have "\<not> (?e = 15 \<and> ?m = 2047)" using False inv dpt9_raw_fields [of ?raw] by metis
    from dpt9_reencode [OF this dpt9_ranges(2,3,1)] obtain j n where
      j: "j \<le> ?e" "- 2048 \<le> n" "n \<le> 2047" "dpt9_value j n = dpt9_value ?e ?m" "\<not> (j = 15 \<and> n = 2047)"
        "encode_dpt9 fl v = Inr (to_be16 (dpt9_raw j n))" unfolding v by blast
    have j15: "j \<le> 15" using j(1) dpt9_ranges(1) [of ?raw] by linarith
    note f = dpt9_fields [OF j15 j(2,3)]
    have "dpt9_raw j n \<noteq> DPT9_INVALID"
      using f j(5) dpt9_fields [of 15 2047] unfolding inv [symmetric] by auto
    then have "decode_dpt9 (to_be16 (dpt9_raw j n)) = Inr v" using two [of "dpt9_raw j n"] f j(4) v by simp
    with j(6) show ?thesis by blast
  qed
qed

lemma again_dpt14: "sent_again decode_dpt14 (encode_dpt14 fl) p v"
proof (rule sent_againI)
  fix v assume d: "decode_dpt14 p = Inr v"
  let ?w = "be32 (p ! 0) (p ! 1) (p ! 2) (p ! 3)"
  have v: "v = DvFloat (f32_from_bits ?w)" "decode_dpt14 [p ! 0, p ! 1, p ! 2, p ! 3] = Inr v"
    using d by (simp_all add: decode_dpt14_def bind_check split: if_splits)
  have four: "decode_dpt14 (to_be32 w) = Inr (DvFloat (f32_from_bits w))" for w
    by (simp add: decode_dpt14_def bind_check) (simp add: to_be32_def)
  show "\<exists>bs. encode_dpt14 fl v = Inr bs \<and> decode_dpt14 bs = Inr v"
  proof (cases "f32_from_bits ?w = Nan")
    case True
    then have "encode_dpt14 fl v = Inr (to_be32 (nan_bits fl))"
      by (simp add: encode_dpt14_def v(1) val_f64_def f64_to_f32_def f32_to_bits_def)
    moreover have "v = DvFloat Nan" using v(1) True by simp
    ultimately show ?thesis using four [of "nan_bits fl"] by (simp add: nan_octets)
  next
    case False
    then have "encode_dpt14 fl v = Inr (to_be32 ?w)"
      using f32_round_trip [OF False, of "nan_bits fl"] by (simp add: encode_dpt14_def v(1) val_f64_def)
    then show ?thesis using v(2) by simp
  qed
qed

end

section \<open>Octets and texts\<close>

lemma again_compound:
  assumes "compound_decode d p = Inr v"
  shows "if dpt_main d = DPT267 \<and> last p \<noteq> 0 then refused (compound_encode d v)
    else \<exists>bs. compound_encode d v = Inr bs \<and> compound_decode d bs = Inr v"
  using assms
  by (auto simp: compound_decode_def compound_encode_def refused_def bind_res_Inr_iff ok_or_def split: if_splits option.splits)

lemma used_again: "takeWhile (\<lambda>b. b \<noteq> 0) (takeWhile (\<lambda>b. b \<noteq> 0) p @ 0 # zs) = takeWhile (\<lambda>b. b \<noteq> 0) (p :: u8 list)"
  by (induction p) auto

lemma again_dpt16:
  assumes "decode_dpt16 d p = Inr s"
  shows "decode_dpt16 d (encode_dpt16 d s) = Inr s"
proof -
  let ?u = "takeWhile (\<lambda>b. b \<noteq> 0) (take 14 p)"
  have s: "s = map ucast ?u" and a: "dpt_sub d = 0 \<Longrightarrow> \<forall>b\<in>set ?u. b \<le> 0x7F"
    using assms by (auto simp: decode_dpt16_def list_ex_iff not_less Let_def split: if_splits)
  have l: "length ?u \<le> 14" using length_takeWhile_le [of _ "take 14 p"] by (rule order_trans) simp
  have u0: "(ucast b :: u32) = 0 \<longleftrightarrow> b = 0" for b :: u8 by (metis low_u8_ucast ucast_0)
  have w: "takeWhile (\<lambda>c. c \<noteq> (0 :: u32)) (map ucast us) = map ucast (takeWhile (\<lambda>b. b \<noteq> 0) us)" for us :: "u8 list"
    by (induction us) (simp_all add: u0)
  have uu: "takeWhile (\<lambda>b. b \<noteq> 0) ?u = ?u" by (simp add: takeWhile_eq_all_conv)
  have lim: "(ucast b :: u32) \<le> (if dpt_sub d = 0 then 0x7F else 0xFF)" if "b \<in> set ?u" for b
    using a that ucast_bounds(1) [of b] by (simp add: word_le_nat_alt)
  have e: "encode_dpt16 d s = ?u @ replicate (14 - length ?u) 0"
  proof -
    have "ucast (ucast b :: u32) = b" for b :: u8 by (metis low_u8_ucast low_ucast(1))
    then have "map (\<lambda>ch. if ch \<le> (if dpt_sub d = 0 then 0x7F else 0xFF) then ucast ch else 0x3F) (map (ucast :: u8 \<Rightarrow> u32) ?u) = ?u"
      unfolding map_map by (intro map_idI) (simp only: o_apply lim if_True)
    moreover have "take 14 (map ucast ?u :: u32 list) = map ucast ?u" using l by simp
    ultimately show ?thesis unfolding encode_dpt16_def s w uu Let_def by simp
  qed
  have t: "takeWhile (\<lambda>b. b \<noteq> 0) (?u @ replicate k 0) = ?u" for k
    by (cases k) (simp_all add: used_again uu)
  show ?thesis unfolding e using l a by (auto simp: decode_dpt16_def t s list_ex_iff not_less Let_def)
qed

lemma again_dpt24: "encode_dpt24 (decode_dpt24 p) = Inr (takeWhile (\<lambda>b. b \<noteq> 0) p @ [0])"
proof -
  have "encode_dpt24_chars (map ucast us) = Inr us" if "0 \<notin> set us" for us :: "u8 list"
    using that
  proof (induction us)
    case (Cons b us)
    have "(ucast b :: u32) \<noteq> 0" using Cons.prems by (metis list.set_intros(1) low_u8_ucast ucast_0)
    moreover have "ucast (ucast b :: u32) = b" by (metis low_u8_ucast low_ucast(1))
    ultimately show ?case using Cons ucast_bounds(1) [of b] by (simp add: not_less)
  qed simp
  moreover have "0 \<notin> set (takeWhile (\<lambda>b. b \<noteq> 0) p)" by (auto dest: set_takeWhileD)
  ultimately show ?thesis by (simp add: encode_dpt24_def decode_dpt24_def)
qed

lemma utf8_nonzero: "list_all char_ok cs \<Longrightarrow> 0 \<in> set (utf8_encode cs) \<longleftrightarrow> 0 \<in> set cs"
proof (induction cs)
  case (Cons c cs)
  have c: "scalar (unat c)" using Cons.prems by (simp add: char_ok_def)
  have b: "list_all (\<lambda>b. b < 256) (utf8_units (unat c))" using utf8_units_octets [OF c] by simp
  have "0 \<in> set (map (of_nat :: nat \<Rightarrow> u8) ns) \<longleftrightarrow> 0 \<in> set ns" if "list_all (\<lambda>b. b < 256) ns" for ns
    using that by (induction ns) (auto simp: word_unat_eq_iff unat_octet)
  from this [OF b] have "0 \<in> set (map (of_nat :: nat \<Rightarrow> u8) (utf8_units (unat c))) \<longleftrightarrow> 0 \<in> set (utf8_units (unat c))" .
  also have "\<dots> \<longleftrightarrow> c = 0" by (auto simp: utf8_units_def word_unat_eq_iff)
  finally have z: "0 \<in> set (map (of_nat :: nat \<Rightarrow> u8) (utf8_units (unat c))) \<longleftrightarrow> c = 0" .
  have e: "utf8_encode (c # cs) = map of_nat (utf8_units (unat c)) @ utf8_encode cs" by (simp add: utf8_encode_def)
  show ?case using Cons unfolding e set_append Un_iff z by auto
qed (simp add: utf8_encode_def)

lemma utf8_decode_Nil [simp]: "utf8_decode [] = Some []"
  by (simp add: utf8_decode_def utf8_units_decode.simps [of "[]"])

lemma again_dpt28:
  assumes "decode_dpt28 p = Inr s"
  shows "\<exists>bs. encode_dpt28 s = Inr bs \<and> decode_dpt28 bs = Inr s"
proof -
  let ?u = "takeWhile (\<lambda>b. b \<noteq> 0) p"
  have d: "utf8_decode ?u = Some s"
    using assms by (cases "p = []") (simp_all add: decode_dpt28_def ok_or_def utf8_decode_Nil split: option.splits)
  then have e: "utf8_encode s = ?u" "list_all char_ok s" using utf8_decode_exact by auto
  have "0 \<notin> set ?u" by (auto dest: set_takeWhileD)
  then have "encode_dpt28 s = Inr (?u @ [0])" using utf8_nonzero [OF e(2)] e(1) by (simp add: encode_dpt28_def)
  moreover have "decode_dpt28 (?u @ [0]) = Inr s" using d by (simp add: decode_dpt28_def used_again)
  ultimately show ?thesis by blast
qed

end
