(* ===== verification/Dpt_Wire.thy ===== *)
theory Dpt_Wire
  imports Dpt_Groups
begin

text \<open>
  The codec as a whole: what goes on the wire for every datapoint type, and what comes back from it.
\<close>

section \<open>Which codec a main group has\<close>

definition mask_of :: "u16 \<Rightarrow> u8" where
  "mask_of m = (if m = 2 then DPT2_MASK else if m = 3 then DPT3_MASK else if m = 17 then DPT17_MASK
     else if m = 26 then DPT26_MASK else if m = 23 then DPT23_MASK else if m = 31 then DPT31_MASK else 0xFF)"

lemma numeric_dispatch:
  "dpt_main d = 1 \<Longrightarrow> numeric_decode d = decode_dpt1" "dpt_main d = 1 \<Longrightarrow> numeric_encode fl d = encode_dpt1"
  "dpt_main d \<in> set [2, 3, 17, 26, 23, 31, 20, 21, 25, 236, 238] \<Longrightarrow> numeric_decode d = (\<lambda>p. decode_masked p (mask_of (dpt_main d)))"
  "dpt_main d \<in> set [2, 3, 17, 26, 23, 31, 20, 21, 25, 236, 238] \<Longrightarrow> numeric_encode fl d = (\<lambda>v. encode_masked fl v (mask_of (dpt_main d)))"
  "dpt_main d = 4 \<Longrightarrow> numeric_decode d = octet_value" "dpt_main d = 4 \<Longrightarrow> numeric_encode fl d = encode_dpt4 fl d"
  "dpt_main d = 5 \<Longrightarrow> numeric_decode d = decode_dpt5 d" "dpt_main d = 5 \<Longrightarrow> numeric_encode fl d = encode_dpt5 fl d"
  "dpt_main d = 6 \<Longrightarrow> numeric_decode d = decode_dpt6 d" "dpt_main d = 6 \<Longrightarrow> numeric_encode fl d = encode_dpt6 fl d"
  "dpt_main d = 7 \<Longrightarrow> numeric_decode d = decode_dpt7" "dpt_main d = 7 \<Longrightarrow> numeric_encode fl d = encode_dpt7 fl"
  "dpt_main d = 8 \<Longrightarrow> numeric_decode d = decode_dpt8" "dpt_main d = 8 \<Longrightarrow> numeric_encode fl d = encode_dpt8 fl"
  "dpt_main d = 9 \<Longrightarrow> numeric_decode d = decode_dpt9" "dpt_main d = 9 \<Longrightarrow> numeric_encode fl d = encode_dpt9 fl"
  "dpt_main d = 10 \<Longrightarrow> numeric_decode d = decode_dpt10" "dpt_main d = 10 \<Longrightarrow> numeric_encode fl d = encode_dpt10"
  "dpt_main d = 12 \<Longrightarrow> numeric_decode d = decode_dpt12" "dpt_main d = 12 \<Longrightarrow> numeric_encode fl d = encode_dpt12 fl"
  "dpt_main d = 13 \<Longrightarrow> numeric_decode d = decode_dpt13" "dpt_main d = 13 \<Longrightarrow> numeric_encode fl d = encode_dpt13 fl"
  "dpt_main d = 14 \<Longrightarrow> numeric_decode d = decode_dpt14" "dpt_main d = 14 \<Longrightarrow> numeric_encode fl d = encode_dpt14 fl"
  "dpt_main d = 15 \<Longrightarrow> numeric_decode d = decode_dpt15" "dpt_main d = 15 \<Longrightarrow> numeric_encode fl d = encode_dpt15 fl"
  "dpt_main d = 18 \<Longrightarrow> numeric_decode d = octet_value" "dpt_main d = 18 \<Longrightarrow> numeric_encode fl d = encode_dpt18 fl"
  "dpt_main d = 27 \<Longrightarrow> numeric_decode d = decode_dpt27" "dpt_main d = 27 \<Longrightarrow> numeric_encode fl d = encode_dpt27 fl"
  "dpt_main d = 29 \<Longrightarrow> numeric_decode d = decode_dpt29" "dpt_main d = 29 \<Longrightarrow> numeric_encode fl d = encode_dpt29 fl"
  "dpt_main d = 232 \<Longrightarrow> numeric_decode d = decode_dpt232" "dpt_main d = 232 \<Longrightarrow> numeric_encode fl d = encode_dpt232 fl"
  "dpt_main d = 22 \<Longrightarrow> numeric_decode d = (\<lambda>p. decode_uint_be p 2)" "dpt_main d = 22 \<Longrightarrow> numeric_encode fl d = (\<lambda>v. encode_uint_be fl v 2)"
  "dpt_main d = 30 \<Longrightarrow> numeric_decode d = (\<lambda>p. decode_uint_be p 3)" "dpt_main d = 30 \<Longrightarrow> numeric_encode fl d = (\<lambda>v. encode_uint_be fl v 3)"
  by (auto simp: fun_eq_iff numeric_decode_def numeric_encode_def octet_decoders mask_of_def)

definition numeric_mains :: "u16 list" where
  "numeric_mains = [1, 2, 3, 17, 26, 23, 31, 20, 21, 25, 236, 238, 4, 5, 6, 7, 8, 9, 10, 12, 13, 14, 15, 18, 27, 29, 232, 22, 30]"

lemma numeric_unsupported:
  "dpt_main d \<notin> set numeric_mains \<Longrightarrow> numeric_decode d p = Inl (UnsupportedDpt d) \<and> numeric_encode fl d v = Inl (UnsupportedDpt d)"
  by (simp add: numeric_decode_def numeric_encode_def numeric_mains_def)

lemma map_sum_Inr: "map_sum id f r = Inr v \<longleftrightarrow> (\<exists>s. r = Inr s \<and> v = f s)"
  by (cases r) auto

text \<open>One case per codec.\<close>

lemma numeric_cases:
  assumes "m \<in> set numeric_mains"
  obtains "m = 1" | "m \<in> set [2, 3, 17, 26, 23, 31, 20, 21, 25, 236, 238]" | "m = 4" | "m = 5" | "m = 6" | "m = 7" | "m = 8" | "m = 9"
    | "m = 10" | "m = 12" | "m = 13" | "m = 14" | "m = 15" | "m = 18" | "m = 27" | "m = 29" | "m = 232" | "m = 22" | "m = 30"
  using assms unfolding numeric_mains_def by auto

lemma numeric_kind: "m \<in> set numeric_mains \<Longrightarrow> m \<notin> set [16, 24, 28] \<and> \<not> compound_handles m \<and> m \<noteq> DPT267"
proof -
  have "list_all (\<lambda>m. m \<notin> set [16, 24, 28] \<and> \<not> compound_handles m \<and> m \<noteq> DPT267) numeric_mains"
    by (simp add: numeric_mains_def compound_handles_def compound_len_def DPT267_def)
  then show "m \<in> set numeric_mains \<Longrightarrow> m \<notin> set [16, 24, 28] \<and> \<not> compound_handles m \<and> m \<noteq> DPT267"
    unfolding list_all_iff by blast
qed


section \<open>Decoded and sent again\<close>

context float_lib begin

lemma numeric_again:
  assumes "numeric_decode d p = Inr v"
  shows "if reserved d p then refused (numeric_encode fl d v)
    else \<exists>bs. numeric_encode fl d v = Inr bs \<and> numeric_decode d bs = Inr v"
proof -
  have m: "dpt_main d \<in> set numeric_mains" using numeric_unsupported [of d p] assms by auto
  from m show ?thesis
  proof (cases rule: numeric_cases)
    case 1 then show ?thesis using assms again_dpt1 [of p v] by (simp add: numeric_dispatch reserved_def DPT267_def sent_again_def)
  next
    case 2
    have r: "\<not> reserved d p" using 2 by (auto simp: reserved_def DPT267_def)
    show ?thesis using assms r again_masked [of "mask_of (dpt_main d)" fl p v] unfolding sent_again_def numeric_dispatch(3,4) [OF 2] by simp
  next
    case 3 then show ?thesis using assms again_dpt4 [of p v d fl] by (simp add: numeric_dispatch reserved_def DPT267_def)
  next
    case 4 then show ?thesis using assms again_dpt5 [of d p v] by (simp add: numeric_dispatch reserved_def DPT267_def)
  next
    case 5 then show ?thesis using assms again_dpt6 [of d p v fl] by (simp add: numeric_dispatch reserved_def DPT267_def)
  next
    case 6 then show ?thesis using assms again_dpt7 [of fl p v] by (simp add: numeric_dispatch reserved_def DPT267_def sent_again_def)
  next
    case 7 then show ?thesis using assms again_dpt8 [of fl p v] by (simp add: numeric_dispatch reserved_def DPT267_def sent_again_def)
  next
    case 8 then show ?thesis using assms again_dpt9 [of p v] by (simp add: numeric_dispatch reserved_def DPT267_def sent_again_def)
  next
    case 9 then show ?thesis using assms again_dpt10 [of p v] by (simp add: numeric_dispatch reserved_def DPT267_def sent_again_def)
  next
    case 10 then show ?thesis using assms again_four(1) [of fl p v] by (simp add: numeric_dispatch reserved_def DPT267_def sent_again_def)
  next
    case 11 then show ?thesis using assms again_four(2) [of fl p v] by (simp add: numeric_dispatch reserved_def DPT267_def sent_again_def)
  next
    case 12 then show ?thesis using assms again_dpt14 [of p v] by (simp add: numeric_dispatch reserved_def DPT267_def sent_again_def)
  next
    case 13 then show ?thesis using assms again_dpt15 [of fl p v] by (simp add: numeric_dispatch reserved_def DPT267_def sent_again_def)
  next
    case 14 then show ?thesis using assms again_dpt18 [of p v fl] by (simp add: numeric_dispatch reserved_def DPT267_def)
  next
    case 15 then show ?thesis using assms again_four(3) [of fl p v] by (simp add: numeric_dispatch reserved_def DPT267_def sent_again_def)
  next
    case 16 then show ?thesis using assms again_dpt29 [of fl p v] by (simp add: numeric_dispatch reserved_def DPT267_def sent_again_def)
  next
    case 17 then show ?thesis using assms again_dpt232 [of fl p v] by (simp add: numeric_dispatch reserved_def DPT267_def sent_again_def)
  next
    case 18 then show ?thesis using assms again_uint_be [of 2 fl p v] by (simp add: numeric_dispatch reserved_def DPT267_def sent_again_def)
  next
    case 19 then show ?thesis using assms again_uint_be [of 3 fl p v] by (simp add: numeric_dispatch reserved_def DPT267_def sent_again_def)
  qed
qed

lemma decoded_again:
  assumes "dpt_decode d p = Inr v"
  shows "if reserved d p then refused (dpt_encode fl d v)
    else \<exists>bs. dpt_encode fl d v = Inr bs \<and> dpt_decode d bs = Inr v"
proof -
  consider "dpt_main d = 16" | "dpt_main d = 24" | "dpt_main d = 28" | "dpt_main d \<notin> set [16, 24, 28]" "compound_handles (dpt_main d)"
    | "dpt_main d \<notin> set [16, 24, 28]" "\<not> compound_handles (dpt_main d)" by auto
  then show ?thesis
  proof cases
    case 1
    then obtain s where "decode_dpt16 d p = Inr s" "v = DvText s" using assms by (auto simp: dpt_decode_def string_decode_def map_sum_Inr)
    then show ?thesis
      using 1 again_dpt16 [of d p s] by (simp add: dpt_encode_def dpt_decode_def string_encode_def string_decode_def reserved_def DPT267_def)
  next
    case 2
    then have v: "v = DvText (decode_dpt24 p)" using assms by (simp add: dpt_decode_def string_decode_def)
    have "decode_dpt24 (takeWhile (\<lambda>b. b \<noteq> 0) p @ [0]) = decode_dpt24 p" by (simp add: decode_dpt24_def used_again)
    then show ?thesis
      using 2 again_dpt24 [of p] by (simp add: v dpt_encode_def dpt_decode_def string_encode_def string_decode_def reserved_def DPT267_def)
  next
    case 3
    then obtain s where "decode_dpt28 p = Inr s" "v = DvText s" using assms by (auto simp: dpt_decode_def string_decode_def map_sum_Inr)
    then show ?thesis
      using 3 again_dpt28 [of p s] by (auto simp: dpt_encode_def dpt_decode_def string_encode_def string_decode_def reserved_def DPT267_def)
  next
    case 4
    have "dpt_main d \<notin> set numeric_mains" using 4(2) numeric_kind by blast
    then have "reserved d p \<longleftrightarrow> dpt_main d = DPT267 \<and> last p \<noteq> 0" by (auto simp: reserved_def numeric_mains_def)
    moreover have e: "dpt_encode fl d v = compound_encode d v" "dpt_decode d = compound_decode d"
      using 4 by (simp_all add: dpt_encode_def dpt_decode_def fun_eq_iff)
    ultimately show ?thesis using again_compound [OF assms [unfolded e]] unfolding e by (simp only:)
  next
    case 5
    then show ?thesis using assms numeric_again [of d p v] by (simp add: dpt_encode_def dpt_decode_def)
  qed
qed

end


section \<open>Encoded and decoded\<close>

text \<open>What an encoder writes: the octets by their number and the bounds on a single one.\<close>

lemma wrote_masked: "encode_masked fl v m = Inr bs \<Longrightarrow> \<exists>x. bs = [x] \<and> x \<le> m"
  by (auto simp: encode_masked_def bind_res_Inr_iff dest!: val_u32_max_le intro: low_u8_le)

lemma wrote_octet:
  "encode_dpt1 v = Inr bs \<Longrightarrow> \<exists>x. bs = [x] \<and> x \<le> 1"
  "encode_dpt4 fl d v = Inr bs \<Longrightarrow> \<exists>x. bs = [x] \<and> (dpt_sub d = 1 \<longrightarrow> x \<le> 0x7F)"
  "encode_dpt5 fl d v = Inr bs \<Longrightarrow> \<exists>x. bs = [x] \<and> (dpt_sub d = 6 \<longrightarrow> x \<le> 254)"
  "encode_dpt18 fl v = Inr bs \<Longrightarrow> \<exists>x. bs = [x] \<and> x AND 0x40 = 0"
  "encode_dpt6 fl d v = Inr bs \<Longrightarrow> \<exists>x. bs = [x] \<and> (dpt_sub d = DPT6_STATUS_MODE \<longrightarrow> x AND 0x07 \<in> {1, 2, 4})"
proof -
  show "encode_dpt1 v = Inr bs \<Longrightarrow> \<exists>x. bs = [x] \<and> x \<le> 1" by (auto simp: encode_dpt1_def bind_res_Inr_iff)
  have le: "v \<le> 0x7F \<Longrightarrow> low_u8 v \<le> 0x7F" "v \<le> 254 \<Longrightarrow> low_u8 v \<le> 254" for v
    using low_u8_le [of v "0x7F"] low_u8_le [of v 254] by simp_all
  show "encode_dpt4 fl d v = Inr bs \<Longrightarrow> \<exists>x. bs = [x] \<and> (dpt_sub d = 1 \<longrightarrow> x \<le> 0x7F)"
    by (auto simp: encode_dpt4_def bind_res_Inr_iff le dest!: val_u32_max_le)
  show "encode_dpt5 fl d v = Inr bs \<Longrightarrow> \<exists>x. bs = [x] \<and> (dpt_sub d = 6 \<longrightarrow> x \<le> 254)"
    by (auto simp: encode_dpt5_def bind_res_Inr_iff le split: if_splits dest!: val_u32_max_le)
  have m: "(0x07 :: u32) = mask 3" "(0x07 :: u8) = mask 3" by (simp_all add: mask_eq_exp_minus_1)
  have c: "low_u8 v AND 0x07 = ucast (v AND 0x07)" for v
    unfolding low_ucast m by (rule bit_word_eqI) (auto simp: bit_simps)
  have "low_u8 v AND 0x40 = 0 \<longleftrightarrow> v AND 0x40 = 0" for v
    using and_exp_eq_0_iff_not_bit [of v 6] and_exp_eq_0_iff_not_bit [of "low_u8 v" 6] by (simp add: low_ucast bit_simps)
  then show "encode_dpt18 fl v = Inr bs \<Longrightarrow> \<exists>x. bs = [x] \<and> x AND 0x40 = 0"
    by (auto simp: encode_dpt18_def bind_res_Inr_iff split: if_splits)
  show "encode_dpt6 fl d v = Inr bs \<Longrightarrow> \<exists>x. bs = [x] \<and> (dpt_sub d = DPT6_STATUS_MODE \<longrightarrow> x AND 0x07 \<in> {1, 2, 4})"
    by (auto simp: encode_dpt6_def bind_res_Inr_iff c split: if_splits)
qed

lemma dpt9_search_wrote: "dpt9_search fl h es = Inr bs \<Longrightarrow> length bs = 2"
  by (induction fl h es rule: dpt9_search.induct) (auto simp: Let_def split: if_splits)

lemma wrote_length:
  "encode_uint_be fl v n = Inr bs \<Longrightarrow> n \<le> 4 \<Longrightarrow> length bs = n"
  "encode_dpt7 fl v = Inr bs \<Longrightarrow> length bs = 2" "encode_dpt8 fl v = Inr bs \<Longrightarrow> length bs = 2"
  "encode_dpt9 fl v = Inr bs \<Longrightarrow> length bs = 2" "encode_dpt10 v = Inr bs \<Longrightarrow> length bs = 3"
  "encode_dpt12 fl v = Inr bs \<Longrightarrow> length bs = 4" "encode_dpt13 fl v = Inr bs \<Longrightarrow> length bs = 4"
  "encode_dpt14 fl v = Inr bs \<Longrightarrow> length bs = 4" "encode_dpt27 fl v = Inr bs \<Longrightarrow> length bs = 4"
  "encode_dpt29 fl v = Inr bs \<Longrightarrow> length bs = 8" "encode_dpt232 fl v = Inr bs \<Longrightarrow> length bs = 3"
  by (auto simp: encode_uint_be_def encode_dpt7_def encode_dpt8_def encode_dpt9_def encode_dpt10_def encode_dpt12_def encode_dpt13_def
      encode_dpt14_def encode_dpt27_def encode_dpt29_def encode_dpt232_def to_be64_def bind_res_Inr_iff Let_def
      split: if_splits DptValue.splits dest: dpt9_search_wrote)

text \<open>Six decimal digits in three octets.\<close>

lemma low_digit: "low_u8 (v mod 10) \<le> 9"
proof -
  have "unat (v mod 10) < 10" by (simp add: unat_mod)
  then show ?thesis using low_u8_le [of "v mod 10" 9] by (simp add: word_le_nat_alt)
qed

lemma bcd_octet:
  fixes a b :: u8
  assumes "a \<le> 9" and "b \<le> 9"
  shows "drop_bit 4 (push_bit 4 a OR b) \<le> 9 \<and> (push_bit 4 a OR b) AND 0x0F \<le> 9"
proof -
  have f: "(0x0F :: u8) = mask 4" by (simp add: mask_eq_exp_minus_1)
  have "take_bit 4 a = a" "take_bit 4 b = b"
    using assms by (simp_all add: word_unat_eq_iff unsigned_take_bit_eq take_bit_nat_eq_self word_le_nat_alt)
  then have n: "bit a k \<Longrightarrow> k < 4" "bit b k \<Longrightarrow> k < 4" for k by (metis bit_take_bit_iff)+
  have "drop_bit 4 (push_bit 4 a OR b) = a" by (rule bit_word_eqI) (auto simp: bit_simps dest: n)
  moreover have "(push_bit 4 a OR b) AND 0x0F = b" unfolding f by (rule bit_word_eqI) (auto simp: bit_simps dest: n)
  ultimately show ?thesis using assms by simp
qed

lemma wrote_dpt15: "encode_dpt15 fl v = Inr bs \<Longrightarrow> length bs = 4 \<and> bcd_digits_valid (take 3 bs)"
proof -
  have u: "rev [0 ..< 6] = [5, 4, 3, 2, 1, 0 :: nat]" by (simp add: upt_rec)
  have l: "replicate 4 0 = [0, 0, 0, 0 :: u8]" by (simp add: numeral_eq_Suc)
  have up: "[p, q, r, s][2 := x] = [p, q, x, s]" "take 3 [p, q, r, s] = [p, q, r]" for p q r s x :: u8 by (simp_all add: numeral_2_eq_2 numeral_3_eq_3)
  have b: "length (snd (fold dpt15_digit (rev [0 ..< 6]) (w, replicate 4 0))) = 4"
      "bcd_digits_valid (take 3 (snd (fold dpt15_digit (rev [0 ..< 6]) (w, replicate 4 0))))" for w
    using bcd_octet [OF low_digit low_digit]
    by (simp_all add: u l up dpt15_digit_def Let_def bcd_digits_valid_def or.commute)
  show "encode_dpt15 fl v = Inr bs \<Longrightarrow> length bs = 4 \<and> bcd_digits_valid (take 3 bs)"
    by (cases v) (auto simp: encode_dpt15_def bind_res_Inr_iff b split: if_splits)
qed


text \<open>A decoder that has its octets succeeds.\<close>

lemma decodes:
  "1 \<le> length p \<Longrightarrow> \<exists>v. decode_dpt1 p = Inr v" "1 \<le> length p \<Longrightarrow> \<exists>v. decode_masked p m = Inr v"
  "1 \<le> length p \<Longrightarrow> \<exists>v. octet_value p = Inr v" "1 \<le> length p \<Longrightarrow> \<exists>v. decode_dpt5 d p = Inr v"
  "1 \<le> length p \<Longrightarrow> \<exists>v. decode_dpt6 d p = Inr v" "2 \<le> length p \<Longrightarrow> \<exists>v. decode_dpt7 p = Inr v"
  "2 \<le> length p \<Longrightarrow> \<exists>v. decode_dpt8 p = Inr v" "2 \<le> length p \<Longrightarrow> \<exists>v. decode_dpt9 p = Inr v"
  "3 \<le> length p \<Longrightarrow> \<exists>v. decode_dpt10 p = Inr v" "4 \<le> length p \<Longrightarrow> \<exists>v. decode_dpt12 p = Inr v"
  "4 \<le> length p \<Longrightarrow> \<exists>v. decode_dpt13 p = Inr v" "4 \<le> length p \<Longrightarrow> \<exists>v. decode_dpt14 p = Inr v"
  "4 \<le> length p \<Longrightarrow> bcd_digits_valid (take 3 p) \<Longrightarrow> \<exists>v. decode_dpt15 p = Inr v" "4 \<le> length p \<Longrightarrow> \<exists>v. decode_dpt27 p = Inr v"
  "8 \<le> length p \<Longrightarrow> \<exists>v. decode_dpt29 p = Inr v" "3 \<le> length p \<Longrightarrow> \<exists>v. decode_dpt232 p = Inr v"
  "n \<le> length p \<Longrightarrow> \<exists>v. decode_uint_be p n = Inr v"
  by (simp_all add: decode_dpt1_def decode_masked_def octet_value_def decode_dpt5_def decode_dpt6_def decode_dpt7_def decode_dpt8_def
      decode_dpt9_def decode_dpt10_def decode_dpt12_def decode_dpt13_def decode_dpt14_def decode_dpt15_def decode_dpt27_def
      decode_dpt29_def decode_dpt232_def decode_uint_be_def bind_check Let_def)

definition wire_sound :: "dpt \<Rightarrow> u8 list \<Rightarrow> bool" where
  "wire_sound d bs \<longleftrightarrow> wire_ok d bs \<and> (\<exists>v. dpt_decode d bs = Inr v) \<and> \<not> reserved d bs"

lemma mask_bounds:
  assumes "m \<in> set [2, 3, 17, 26, 23, 31, 20, 21, 25, 236, 238]" and "x \<le> mask_of m"
  shows "case wire_size_of_main m of WireBits n \<Rightarrow> x < 2 ^ unat n | WireBytes n \<Rightarrow> n = 1 | _ \<Rightarrow> False"
proof -
  have l: "x \<le> 0x03 \<Longrightarrow> x < 4" "x \<le> 0x0F \<Longrightarrow> x < 16" "x \<le> 0x07 \<Longrightarrow> x < 8" by (simp_all add: word_less_nat_alt word_le_nat_alt)
  consider "m = 2 \<or> m = 23" | "m = 3" | "m = 31" | "m = 17 \<or> m = 26 \<or> m = 20 \<or> m = 21 \<or> m = 25 \<or> m = 236 \<or> m = 238"
    using assms(1) by auto
  then show ?thesis
  proof cases
    case 1 then show ?thesis using assms(2) l(1) by (elim disjE) (simp_all add: wire_size_of_main_def mask_of_def DPT2_MASK_def DPT23_MASK_def)
  next
    case 2 then show ?thesis using assms(2) l(2) by (simp add: wire_size_of_main_def mask_of_def DPT3_MASK_def)
  next
    case 3 then show ?thesis using assms(2) l(3) by (simp add: wire_size_of_main_def mask_of_def DPT31_MASK_def)
  next
    case 4 then show ?thesis by (elim disjE) (simp_all add: wire_size_of_main_def)
  qed
qed

context float_lib begin

lemma numeric_sound:
  assumes "numeric_encode fl d v = Inr bs"
  shows "wire_ok d bs \<and> (\<exists>v. numeric_decode d bs = Inr v) \<and> \<not> reserved d bs"
proof -
  note sizes = wire_ok_def wire_size_def wire_size_of_main_def reserved_def DPT267_def
  have m: "dpt_main d \<in> set numeric_mains" using numeric_unsupported [of d bs fl v] assms by auto
  from m show ?thesis
  proof (cases rule: numeric_cases)
    case 1
    then obtain x where x: "bs = [x]" "x \<le> 1" using assms wrote_octet(1) [of v bs] by (auto simp: numeric_dispatch)
    then have "x < 2" by (simp add: word_less_nat_alt word_le_nat_alt)
    then show ?thesis using 1 x decodes(1) [of bs] by (simp add: numeric_dispatch sizes)
  next
    case 2
    then obtain x where x: "bs = [x]" "x \<le> mask_of (dpt_main d)" using assms wrote_masked [of fl v _ bs] unfolding numeric_dispatch(4) [OF 2] by blast
    have "\<not> reserved d bs" using 2 by (auto simp: reserved_def DPT267_def)
    moreover have "wire_ok d bs" using mask_bounds [OF 2 x(2)] by (simp add: wire_ok_def wire_size_def x(1) split: DptWireSize.splits)
    ultimately show ?thesis using x decodes(2) [of bs] unfolding numeric_dispatch(3) [OF 2] by simp
  next
    case 3
    then obtain x where x: "bs = [x]" "dpt_sub d = 1 \<longrightarrow> x \<le> 0x7F" using assms wrote_octet(2) [of fl d v bs] by (auto simp: numeric_dispatch)
    then show ?thesis using 3 decodes(3) [of bs] by (simp add: numeric_dispatch sizes) (simp add: not_less)
  next
    case 4
    then obtain x where x: "bs = [x]" "dpt_sub d = 6 \<longrightarrow> x \<le> 254" using assms wrote_octet(3) [of fl d v bs] by (auto simp: numeric_dispatch)
    then have "dpt_sub d = 6 \<longrightarrow> x \<noteq> 0xFF" by auto
    then show ?thesis using 4 x decodes(4) [of bs d] by (simp add: numeric_dispatch sizes)
  next
    case 5
    then obtain x where x: "bs = [x]" "dpt_sub d = DPT6_STATUS_MODE \<longrightarrow> x AND 0x07 \<in> {1, 2, 4}"
      using assms wrote_octet(5) [of fl d v bs] by (auto simp: numeric_dispatch)
    then show ?thesis using 5 decodes(5) [of bs d] by (auto simp: numeric_dispatch sizes)
  next
    case 6 then show ?thesis using assms wrote_length(2) [of fl v bs] decodes(6) [of bs] by (simp add: numeric_dispatch sizes)
  next
    case 7 then show ?thesis using assms wrote_length(3) [of fl v bs] decodes(7) [of bs] by (simp add: numeric_dispatch sizes)
  next
    case 8 then show ?thesis using assms wrote_length(4) [of fl v bs] decodes(8) [of bs] by (simp add: numeric_dispatch sizes)
  next
    case 9 then show ?thesis using assms wrote_length(5) [of v bs] decodes(9) [of bs] by (simp add: numeric_dispatch sizes)
  next
    case 10 then show ?thesis using assms wrote_length(6) [of fl v bs] decodes(10) [of bs] by (simp add: numeric_dispatch sizes)
  next
    case 11 then show ?thesis using assms wrote_length(7) [of fl v bs] decodes(11) [of bs] by (simp add: numeric_dispatch sizes)
  next
    case 12 then show ?thesis using assms wrote_length(8) [of fl v bs] decodes(12) [of bs] by (simp add: numeric_dispatch sizes)
  next
    case 13 then show ?thesis using assms wrote_dpt15 [of fl v bs] decodes(13) [of bs] by (simp add: numeric_dispatch sizes)
  next
    case 14
    then obtain x where x: "bs = [x]" "x AND 0x40 = 0" using assms wrote_octet(4) [of fl v bs] by (auto simp: numeric_dispatch)
    then show ?thesis using 14 decodes(3) [of bs] by (simp add: numeric_dispatch sizes)
  next
    case 15 then show ?thesis using assms wrote_length(9) [of fl v bs] decodes(14) [of bs] by (simp add: numeric_dispatch sizes)
  next
    case 16 then show ?thesis using assms wrote_length(10) [of fl v bs] decodes(15) [of bs] by (simp add: numeric_dispatch sizes)
  next
    case 17 then show ?thesis using assms wrote_length(11) [of fl v bs] decodes(16) [of bs] by (simp add: numeric_dispatch sizes)
  next
    case 18 then show ?thesis using assms wrote_length(1) [of fl v 2 bs] decodes(17) [of 2 bs] by (simp add: numeric_dispatch sizes)
  next
    case 19 then show ?thesis using assms wrote_length(1) [of fl v 3 bs] decodes(17) [of 3 bs] by (simp add: numeric_dispatch sizes)
  qed
qed

end


text \<open>A text is made of characters; any other value is one.\<close>

definition value_ok :: "DptValue \<Rightarrow> bool" where
  "value_ok v = (case v of DvText s \<Rightarrow> list_all char_ok s | _ \<Rightarrow> True)"

definition compound_mains :: "u16 list" where
  "compound_mains = [200, 201, 202, 204, 207, 211, 217, 234, 237, 239, 244, 246, 11, 203, 205, 206, 209, 223, 225, 240, 250, 254,
     210, 214, 220, 231, 241, 253, 276, 215, 216, 218, 248, 252, 212, 219, 221, 222, 224, 229, 235, 242, 245, 249, 251, 274, 271, 272,
     19, 213, 230, 243, 255, 273, 275, 288, 265, 268, 247, 257, 266, 269, 256, 285, 270, 277, 278, 281, 279, 282, 283, 280, 284]"

lemma compound_sizes:
  "list_all (\<lambda>m. \<exists>k. wire_size_of_main m = WireBytes k \<and> compound_len m = Some (unat k)) compound_mains"
  unfolding compound_mains_def list.pred_inject
  by (intro conjI TrueI; simp add: compound_len_def wire_size_of_main_def)

lemma compound_size:
  assumes "compound_len m = Some n"
  shows "\<exists>k. wire_size_of_main m = WireBytes k \<and> unat k = n"
proof -
  have "m \<in> set compound_mains"
  proof (rule ccontr)
    assume "m \<notin> set compound_mains"
    then have "compound_len m = None" by (simp add: compound_len_def compound_mains_def)
    then show False using assms by simp
  qed
  then obtain k where "wire_size_of_main m = WireBytes k" "compound_len m = Some (unat k)"
    using compound_sizes unfolding list_all_iff by blast
  then show ?thesis using assms by simp
qed

lemma text_kinds: "wire_size_of_main 16 = WireBytes 14" "wire_size_of_main 24 = VariableBytes" "wire_size_of_main 28 = VariableBytes"
  by (simp_all add: wire_size_of_main_def)

lemma text_plain: "dpt_main d \<in> set [16, 24, 28] \<Longrightarrow> \<not> reserved d bs"
  by (auto simp: reserved_def DPT267_def)

lemma text_handled: "dpt_main d \<in> set [16, 24, 28] \<Longrightarrow> dpt_decode d = string_decode d \<and> dpt_encode fl d = string_encode d"
  by (auto simp: dpt_decode_def dpt_encode_def fun_eq_iff)

lemma until_nul: "0 \<notin> set xs \<Longrightarrow> takeWhile (\<lambda>b. b \<noteq> (0 :: u8)) (xs @ [0]) = xs"
  by (induction xs) auto

lemma wrote_dpt16: "length (encode_dpt16 d s) = 14 \<and> (\<exists>t. decode_dpt16 d (encode_dpt16 d s) = Inr t)"
proof -
  let ?c = "take 14 (takeWhile (\<lambda>c. c \<noteq> 0) s)" and ?f = "\<lambda>ch. if ch \<le> (if dpt_sub d = 0 then 0x7F else 0xFF) then ucast ch else (0x3F :: u8)"
  have l: "length (encode_dpt16 d s) = 14" by (simp add: encode_dpt16_def Let_def)
  have u: "ch \<le> 0x7F \<Longrightarrow> (ucast ch :: u8) \<le> 0x7F" for ch :: u32 using low_u8_le [of ch "0x7F"] by (simp add: low_ucast)
  have "\<forall>b\<in>set (encode_dpt16 d s). b \<le> 0x7F" if "dpt_sub d = 0" using that by (auto simp: encode_dpt16_def Let_def u)
  then have "\<not> list_ex (\<lambda>b. 0x7F < b) (takeWhile (\<lambda>b. b \<noteq> 0) (take 14 (encode_dpt16 d s)))" if "dpt_sub d = 0"
    using that by (auto simp: list_ex_iff not_less dest!: set_takeWhileD in_set_takeD)
  then show ?thesis using l by (simp add: decode_dpt16_def Let_def)
qed

context float_lib begin

lemma encoded_sound:
  assumes "dpt_encode fl d v = Inr bs" and "value_ok v"
  shows "wire_sound d bs"
proof -
  consider "dpt_main d = 16" | "dpt_main d = 24" | "dpt_main d = 28" | "dpt_main d \<notin> set [16, 24, 28]" "compound_handles (dpt_main d)"
    | "dpt_main d \<notin> set [16, 24, 28]" "\<not> compound_handles (dpt_main d)" by auto
  then show ?thesis
  proof cases
    case 1
    then obtain s where s: "bs = encode_dpt16 d s"
      using assms(1) text_handled [of d fl] by (cases v) (auto simp: string_encode_def bind_res_Inr_iff)
    obtain t where t: "decode_dpt16 d bs = Inr t" "length bs = 14" using wrote_dpt16 [of d s] s by blast
    have "wire_ok d bs" using t 1 by (simp add: wire_ok_def wire_size_def text_kinds)
    moreover have "dpt_decode d bs = Inr (DvText t)" using t 1 text_handled [of d] by (simp add: string_decode_def)
    ultimately show ?thesis using text_plain [of d bs] 1 unfolding wire_sound_def by simp
  next
    case 2
    then obtain s buf where s: "bs = buf @ [0]"
      using assms(1) text_handled [of d fl] by (cases v) (auto simp: string_encode_def encode_dpt24_def bind_res_Inr_iff)
    have "wire_ok d bs" using s 2 by (simp add: wire_ok_def wire_size_def text_kinds)
    moreover have "dpt_decode d bs = Inr (DvText (decode_dpt24 bs))" using s 2 text_handled [of d] by (simp add: string_decode_def)
    ultimately show ?thesis using text_plain [of d bs] 2 unfolding wire_sound_def by simp
  next
    case 3
    then obtain s where s: "v = DvText s" "bs = utf8_encode s @ [0]" "0 \<notin> set s"
      using assms(1) text_handled [of d fl] by (cases v) (auto simp: string_encode_def encode_dpt28_def split: if_splits)
    then have ok: "list_all char_ok s" using assms(2) by (simp add: value_ok_def)
    have "takeWhile (\<lambda>b. b \<noteq> 0) bs = utf8_encode s" unfolding s(2) by (rule until_nul) (simp add: utf8_nonzero [OF ok] s(3))
    then have t: "decode_dpt28 bs = Inr s" using utf8_inverse [OF ok] s(2) by (simp add: decode_dpt28_def)
    have "wire_ok d bs" using s 3 by (simp add: wire_ok_def wire_size_def text_kinds)
    moreover have "dpt_decode d bs = Inr (DvText s)" using t s 3 text_handled [of d] by (simp add: string_decode_def)
    ultimately show ?thesis using text_plain [of d bs] 3 unfolding wire_sound_def by simp
  next
    case 4
    then have e: "compound_encode d v = Inr bs" "dpt_decode d = compound_decode d"
      using assms(1) by (simp_all add: dpt_encode_def dpt_decode_def fun_eq_iff)
    have nn: "dpt_main d \<notin> set numeric_mains" using 4(2) numeric_kind by blast
    then have r: "reserved d bs \<longleftrightarrow> dpt_main d = DPT267 \<and> last bs \<noteq> 0" by (auto simp: reserved_def numeric_mains_def)
    show ?thesis
    proof (cases "dpt_main d = DPT267")
      case True
      have "wire_size_of_main DPT267 = VariableBytes" by (simp add: wire_size_of_main_def DPT267_def)
      moreover have "8 < length bs" "last bs = 0"
        using e(1) True by (cases v; simp add: compound_encode_def DPT267_HEADER_def split: if_splits)+
      ultimately show ?thesis
        using e(2) r True by (auto simp: wire_sound_def wire_ok_def wire_size_def compound_decode_def DPT267_HEADER_def)
    next
      case False
      then obtain n where n: "compound_len (dpt_main d) = Some n" using 4(2) by (auto simp: compound_handles_def)
      then obtain k where k: "wire_size_of_main (dpt_main d) = WireBytes k" "unat k = n" using compound_size by blast
      have l: "length bs = n" using e(1) n False by (cases v) (auto simp: compound_encode_def split: if_splits)
      then show ?thesis using e(2) r n k False by (simp add: wire_sound_def wire_ok_def wire_size_def compound_decode_def)
    qed
  next
    case 5
    then have "numeric_encode fl d v = Inr bs" "dpt_decode d = numeric_decode d"
      using assms(1) by (simp_all add: dpt_encode_def dpt_decode_def fun_eq_iff)
    then show ?thesis using numeric_sound [of d v bs] by (simp add: wire_sound_def)
  qed
qed

end

text \<open>The reference rounding function and the quiet not-a-number are such a platform.\<close>

definition reference_lib :: FloatLib where
  "reference_lib = \<lparr>libm_round = round_away, nan_bits = 0x7FC00000\<rparr>"

lemma quiet_nan: "f32_from_bits 0x7FC00000 = Nan"
proof -
  have "drop_bit 23 (0x7FC00000 :: int) = 255" "take_bit 8 (255 :: int) = 255" "take_bit 23 (0x7FC00000 :: int) = 0x400000"
    by (simp_all add: drop_bit_eq_div take_bit_eq_mod)
  then show ?thesis by (simp add: f32_from_bits_def Let_def)
qed

interpretation reference: float_lib reference_lib
  by unfold_locales (simp_all add: reference_lib_def quiet_nan)

text \<open>
  C17: For every datapoint type and every platform that rounds as documented. What an
  encoder writes has the wire size of the type, is decoded, and the value that is decoded can be
  encoded again and is then decoded as the same value: a value that has been on the bus once stays
  the same from then on, in floating-point and text types too. A value that was decoded from any
  octets whatsoever has this property unless the octets are reserved (ASCII above 127, tariff 255,
  a mode that is not one-hot, the reserved bit of a scene control, an unterminated text after a date);
  the encoder refuses the value of reserved octets, and never writes such octets.
\<close>
theorem dpt_values_travel:
  assumes "float_lib fl"
  shows "(dpt_encode fl d v = Inr bs \<longrightarrow> value_ok v \<longrightarrow>
      wire_ok d bs \<and> \<not> reserved d bs \<and>
      (\<exists>v' bs'. dpt_decode d bs = Inr v' \<and> dpt_encode fl d v' = Inr bs' \<and> dpt_decode d bs' = Inr v')) \<and>
    (dpt_decode d octets = Inr w \<longrightarrow>
      (if reserved d octets then \<exists>c. dpt_encode fl d w = Inl (OutOfRange c)
       else \<exists>bs'. dpt_encode fl d w = Inr bs' \<and> dpt_decode d bs' = Inr w))"
proof (intro conjI impI)
  assume e: "dpt_encode fl d v = Inr bs" "value_ok v"
  note s = float_lib.encoded_sound [OF assms e, unfolded wire_sound_def]
  then obtain v' where v': "dpt_decode d bs = Inr v'" by blast
  have "\<exists>bs'. dpt_encode fl d v' = Inr bs' \<and> dpt_decode d bs' = Inr v'"
    using float_lib.decoded_again [OF assms v'] s by simp
  with v' s show "wire_ok d bs" "\<not> reserved d bs"
    "\<exists>v' bs'. dpt_decode d bs = Inr v' \<and> dpt_encode fl d v' = Inr bs' \<and> dpt_decode d bs' = Inr v'" by blast+
next
  assume "dpt_decode d octets = Inr w"
  from float_lib.decoded_again [OF assms this]
  show "if reserved d octets then \<exists>c. dpt_encode fl d w = Inl (OutOfRange c)
    else \<exists>bs'. dpt_encode fl d w = Inr bs' \<and> dpt_decode d bs' = Inr w" unfolding refused_def .
qed

theorem dpt_values_travel_witness:
  "\<exists>w bs'. dpt_decode (dpt_new 9 1) [0x0C, 0x1A] = Inr w \<and> dpt_encode reference_lib (dpt_new 9 1) w = Inr bs' \<and>
    dpt_decode (dpt_new 9 1) bs' = Inr w"
proof -
  have "\<exists>w. dpt_decode (dpt_new 9 1) [0x0C, 0x1A] = Inr w"
    by (simp add: dpt_decode_def dpt_new_def compound_handles_def compound_len_def DPT267_def numeric_decode_def decode_dpt9_def bind_check Let_def)
  then obtain w where w: "dpt_decode (dpt_new 9 1) [0x0C, 0x1A] = Inr w" by blast
  have "\<not> reserved (dpt_new 9 1) [0x0C, 0x1A]" by (simp add: reserved_def dpt_new_def DPT267_def)
  then show ?thesis using dpt_values_travel [OF reference.float_lib_axioms, of "dpt_new 9 1" _ _ "[0x0C, 0x1A]" w] w by simp
qed

end
