(* ===== verification/Ip_Ops.thy ===== *)
theory Ip_Ops
  imports Ip_Client Bau_System Dpt_Wire
begin

text \<open>
  Group operations of a client (\<^verbatim>\<open>knx-rs-ip/src/ops.rs\<close>): a value becomes a datapoint encoding, a
  group service and a cEMI frame, which the connection sends. The connection is a parameter, the
  function that sends a frame. Shown: a value a client writes is read by the application of every
  associated device as the value the datapoint type makes of it.
\<close>

section \<open>Errors\<close>

definition hex_digit :: "nat \<Rightarrow> char" where
  "hex_digit n = ''0123456789abcdef'' ! n"

definition show_hex2 :: "u8 \<Rightarrow> string" where
  "show_hex2 b = ''0x'' @ [hex_digit (unat b div 16), hex_digit (unat b mod 16)]"

fun show_apdu_error :: "ApduEncodeError \<Rightarrow> string" where
  "show_apdu_error (InlineValueOutOfRange value mx) = ''inline group value '' @ show_hex2 value @ '' exceeds '' @ show_hex2 mx"
| "show_apdu_error EmptyBytePayload = ''byte-sized group value is empty''"
| "show_apdu_error (PayloadLengthMismatch expected actual) =
     ''group value payload length mismatch: expected '' @ show_nat expected @ '', got '' @ show_nat actual"
| "show_apdu_error UnsupportedGroupValueSize = ''DPT wire size is unsupported for runtime group communication''"

definition from_apdu_error :: "ApduEncodeError \<Rightarrow> KnxIpError" where
  "from_apdu_error e = IpProtocol (''APDU error: '' @ show_apdu_error e)"

section \<open>Frames\<close>

definition TPCI_DATA_GROUP :: u8 where "TPCI_DATA_GROUP = 0x00"

datatype GroupValueService = GvsResponse | GvsWrite

fun with_payload :: "GroupValueService \<Rightarrow> GroupValuePayload \<Rightarrow> GroupValueApdu" where
  "with_payload GvsResponse payload = GResponse payload"
| "with_payload GvsWrite payload = GWrite payload"

definition build_cemi_group_frame :: "GroupAddress \<Rightarrow> u8 list \<Rightarrow> KnxIpError + CemiFrame" where
  "build_cemi_group_frame ga payload =
     map_sum IpCemi id (try_new_l_data LDataReq (IndividualAddress 0) (DestGroup ga) Low payload)"

definition build_group_value_frame :: "GroupAddress \<Rightarrow> GroupValueApdu \<Rightarrow> KnxIpError + CemiFrame" where
  "build_group_value_frame ga g =
     bind_res (map_sum from_apdu_error id (group_try_to_bytes g TPCI_DATA_GROUP)) (build_cemi_group_frame ga)"

definition build_dpt_group_frame :: "FloatLib \<Rightarrow> GroupAddress \<Rightarrow> GroupValueService \<Rightarrow> dpt \<Rightarrow> DptValue \<Rightarrow> KnxIpError + CemiFrame" where
  "build_dpt_group_frame fl ga service d v =
     bind_res (map_sum IpDpt id (dpt_encode fl d v)) (\<lambda>encoded.
     bind_res (map_sum from_apdu_error id (from_dpt_encoded d encoded)) (\<lambda>payload.
     build_group_value_frame ga (with_payload service payload)))"

definition build_group_read :: "GroupAddress \<Rightarrow> KnxIpError + CemiFrame" where
  "build_group_read ga = build_group_value_frame ga GRead"

section \<open>Operations\<close>

text \<open>\<open>send\<close> is the connection: it takes a frame and returns its outcome.\<close>

definition group_write_raw :: "(CemiFrame \<Rightarrow> KnxIpError + unit) \<Rightarrow> GroupAddress \<Rightarrow> GroupValuePayload \<Rightarrow> KnxIpError + unit" where
  "group_write_raw send ga payload = bind_res (build_group_value_frame ga (GWrite payload)) send"

definition group_write_value :: "(CemiFrame \<Rightarrow> KnxIpError + unit) \<Rightarrow> FloatLib \<Rightarrow> GroupAddress \<Rightarrow> dpt \<Rightarrow> DptValue \<Rightarrow> KnxIpError + unit" where
  "group_write_value send fl ga d v = bind_res (build_dpt_group_frame fl ga GvsWrite d v) send"

definition group_read :: "(CemiFrame \<Rightarrow> KnxIpError + unit) \<Rightarrow> GroupAddress \<Rightarrow> KnxIpError + unit" where
  "group_read send ga = bind_res (build_group_read ga) send"

definition group_respond_raw :: "(CemiFrame \<Rightarrow> KnxIpError + unit) \<Rightarrow> GroupAddress \<Rightarrow> GroupValuePayload \<Rightarrow> KnxIpError + unit" where
  "group_respond_raw send ga payload = bind_res (build_group_value_frame ga (GResponse payload)) send"

definition group_respond_value :: "(CemiFrame \<Rightarrow> KnxIpError + unit) \<Rightarrow> FloatLib \<Rightarrow> GroupAddress \<Rightarrow> dpt \<Rightarrow> DptValue \<Rightarrow> KnxIpError + unit" where
  "group_respond_value send fl ga d v = bind_res (build_dpt_group_frame fl ga GvsResponse d v) send"

section \<open>A written value arrives\<close>

text \<open>What an encoder writes fits a group service, but for the three-bit type, which has none.\<close>

lemma wire_ok_payload:
  assumes "wire_ok d bs" and "dpt_main d \<noteq> 31"
  shows "\<exists>p bytes. from_dpt_encoded d bs = Inr p \<and> group_try_to_bytes (with_payload s p) 0 = Inr bytes"
proof (cases "wire_size d")
  case (WireBits n)
  then have n: "n \<in> {1, 2, 3, 4}" by (rule wire_size_bits)
  obtain b where b: "bs = [b]" "b < 2 ^ unat n"
    using assms(1) WireBits by (auto simp: wire_ok_def length_Suc_conv)
  then have "unat b < 2 ^ unat n" "b \<le> drop_bit (6 - unat n) APCI_SHORT_DATA_MASK" "b \<le> APCI_SHORT_DATA_MASK"
    using n by (auto simp: APCI_SHORT_DATA_MASK_def word_less_nat_alt word_le_nat_alt drop_bit_eq_div)
  then have "from_dpt_encoded d bs = Inr (Inline b)" "b \<le> APCI_SHORT_DATA_MASK"
    using n b WireBits assms(2) by (auto simp: from_dpt_encoded_def Let_def not_less)
  then show ?thesis by (cases s) (auto simp: group_try_to_bytes_def Let_def split: prod.splits)
next
  case (WireBytes n)
  then have "bs \<noteq> []" "from_dpt_encoded d bs = Inr (PBytes bs)"
    using assms wire_size_bytes [OF WireBytes] by (auto simp: wire_ok_def from_dpt_encoded_def word_le_nat_alt)
  then show ?thesis by (cases s) (auto simp: group_try_to_bytes_def Let_def split: prod.splits)
next
  case VariableBytes
  then have "bs \<noteq> []" "from_dpt_encoded d bs = Inr (PBytes bs)"
    using assms by (auto simp: wire_ok_def from_dpt_encoded_def)
  then show ?thesis by (cases s) (auto simp: group_try_to_bytes_def Let_def split: prod.splits)
qed (use assms in \<open>simp add: wire_ok_def\<close>)

text \<open>
  C19: From a client to the application of a device. A value that its datapoint type can
  encode becomes a frame; a device that receives the frame takes it into every group object that is
  associated with the address and accepts writes. If such an object has the same datapoint type and
  size, the application reads the value that the octets stand for: the value itself, or for a
  floating-point type the value rounded to its precision.
\<close>
theorem client_value_arrives:
  assumes "float_lib fl" and "dpt_encode fl d v = Inr bs" and "value_ok v"
    and "dpt_main d \<noteq> 31" and "length bs \<le> 254" and "ga_raw ga \<noteq> 0"
    and "at_get_tsap (ga_raw ga) (address_table b) = Some tsap" and "actions (transport b) = []"
  shows "\<exists>frame b' v'. build_dpt_group_frame fl ga GvsWrite d v = Inr frame \<and> process_frame frame now b = Inr b' \<and>
    dpt_decode d bs = Inr v' \<and>
    (\<forall>j go. j \<in> set (asaps_for_tsap tsap (association_table b)) \<longrightarrow> bus_accepts write_enable j b \<longrightarrow>
       store_get j (group_objects b) = Some go \<longrightarrow> go_dpt go = Some d \<longrightarrow> length (go_data go) = length bs \<longrightarrow>
       (\<exists>go'. store_get j (group_objects b') = Some go' \<and> go_comm_flag go' = CfUpdated \<and> go_value dpt_decode go' = Inr v'))"
proof -
  have w: "wire_ok d bs" "\<exists>v'. dpt_decode d bs = Inr v'"
    using float_lib.encoded_sound [OF assms(1-3)] by (auto simp: wire_sound_def)
  then obtain v' where v': "dpt_decode d bs = Inr v'" by blast
  obtain p bytes where p: "from_dpt_encoded d bs = Inr p" "group_try_to_bytes (GWrite p) 0 = Inr bytes"
    using wire_ok_payload [OF w(1) assms(4), of GvsWrite] by auto
  have data: "payload_data p = bs" by (rule from_dpt_encoded_data [OF p(1)])
  have apdu: "apdu_parse bytes (npdu_of bytes) = Some \<lparr>apdu_type = GroupValueWrite, apdu_data = bs\<rparr>"
    using group_roundtrip_gen [OF p(2), where t = GroupValueWrite and p = p] data assms(5) by simp
  note shape = group_bytes_shape [OF p(2), simplified]
  have len: "length bytes \<le> 256" using p(2) data assms(5)
    by (cases p) (auto simp: group_try_to_bytes_def Let_def split: prod.splits if_splits)
  let ?f = "\<lparr>frame_data = l_data_octets LDataReq (IndividualAddress 0) (DestGroup ga) Low bytes, ctrl_offset = 2\<rparr>"
  have t: "try_new_l_data LDataReq (IndividualAddress 0) (DestGroup ga) Low bytes = Inr ?f" by (rule try_new_l_data_frame [OF len])
  then have f: "new_l_data LDataReq (IndividualAddress 0) (DestGroup ga) Low bytes = Some ?f" by (simp add: new_l_data_def)
  have b: "build_dpt_group_frame fl ga GvsWrite d v = Inr ?f"
    using assms(2) p t by (simp add: build_dpt_group_frame_def build_group_value_frame_def build_cemi_group_frame_def TPCI_DATA_GROUP_def)
  note ff = frame_fields [OF f]
  from unnumbered_frame [OF f shape apdu] assms(6) obtain q where
    tp: "cemi_tpdu ?f = Some (TData DataGroup q \<lparr>apdu_type = GroupValueWrite, apdu_data = bs\<rparr>)" by auto
  have code: "message_code_raw ?f \<noteq> message_code_u8 LDataCon" and dst: "at_get_tsap (destination_address_raw ?f) (address_table b) = Some tsap"
    using assms(7) by (simp_all add: ff)
  from group_telegram_effect [OF code tp _ dst assms(8), of now] obtain b' where b': "process_frame ?f now b = Inr b'"
    "\<And>k. store_get k (group_objects b') =
      (if k \<in> set (asaps_for_tsap tsap (association_table b)) \<and> bus_accepts write_enable k b
       then map_option (\<lambda>go. go\<lparr>go_data := copy_prefix bs (go_data go), go_comm_flag := CfUpdated\<rparr>) (store_get k (group_objects b))
       else store_get k (group_objects b))"
    by (auto simp: admits_def)
  show ?thesis
    using b b'(1) v' by (intro exI [of _ ?f] exI [of _ b'] exI [of _ v'] conjI allI impI) (simp_all add: b'(2) go_value_def copy_prefix_same)
qed

theorem client_value_arrives_witness:
  "\<exists>frame b' go'. build_dpt_group_frame reference_lib (GroupAddress 0x0801) GvsWrite (dpt_new 1 1) (DvBool True) = Inr frame \<and>
    process_frame frame 7 (sample_bau\<lparr>group_objects := \<lparr>gs_objects = [go_with_dpt 1 (dpt_new 1 1)]\<rparr>\<rparr>) = Inr b' \<and>
    store_get 1 (group_objects b') = Some go' \<and> go_value dpt_decode go' = Inr (DvBool True)"
proof -
  let ?b = "sample_bau\<lparr>group_objects := \<lparr>gs_objects = [go_with_dpt 1 (dpt_new 1 1)]\<rparr>\<rparr>"
  have e: "dpt_encode reference_lib (dpt_new 1 1) (DvBool True) = Inr [1]" "dpt_decode (dpt_new 1 1) [1] = Inr (DvBool True)"
    by (simp_all add: dpt_encode_def dpt_decode_def dpt_new_def compound_handles_def compound_len_def DPT267_def
        numeric_encode_def numeric_decode_def encode_dpt1_def decode_dpt1_def check_len_def)
  have s: "store_get 1 (group_objects ?b) = Some (go_with_dpt 1 (dpt_new 1 1))" "bus_accepts write_enable 1 ?b"
    by (simp_all add: store_get_def bus_accepts_def)
  have g: "go_dpt (go_with_dpt 1 (dpt_new 1 1)) = Some (dpt_new 1 1)" "length (go_data (go_with_dpt 1 (dpt_new 1 1))) = 1"
    by (simp_all add: go_with_dpt_def data_length_def wire_size_def wire_size_of_main_def dpt_new_def)
  have h: "value_ok (DvBool True)" "dpt_main (dpt_new 1 1) \<noteq> 31" "at_get_tsap (ga_raw (GroupAddress 0x0801)) (address_table ?b) = Some 1"
    "actions (transport ?b) = []" by (simp_all add: value_ok_def dpt_new_def)
  have "\<exists>frame b' v'. build_dpt_group_frame reference_lib (GroupAddress 0x0801) GvsWrite (dpt_new 1 1) (DvBool True) = Inr frame \<and>
    process_frame frame 7 ?b = Inr b' \<and> dpt_decode (dpt_new 1 1) [1] = Inr v' \<and>
    (\<forall>j go. j \<in> set (asaps_for_tsap 1 (association_table ?b)) \<longrightarrow> bus_accepts write_enable j ?b \<longrightarrow>
       store_get j (group_objects ?b) = Some go \<longrightarrow> go_dpt go = Some (dpt_new 1 1) \<longrightarrow> length (go_data go) = length [1 :: u8] \<longrightarrow>
       (\<exists>go'. store_get j (group_objects b') = Some go' \<and> go_comm_flag go' = CfUpdated \<and> go_value dpt_decode go' = Inr v'))"
    by (rule client_value_arrives [OF reference.float_lib_axioms e(1) h(1,2) _ _ h(3,4)]) simp_all
  then obtain frame b' where r: "build_dpt_group_frame reference_lib (GroupAddress 0x0801) GvsWrite (dpt_new 1 1) (DvBool True) = Inr frame"
    "process_frame frame 7 ?b = Inr b'" "\<exists>go'. store_get 1 (group_objects b') = Some go' \<and> go_value dpt_decode go' = Inr (DvBool True)"
    using e(2) s g by fastforce
  then show ?thesis by blast
qed

end
