(* ===== verification/Dpt_Typed.thy ===== *)
theory Dpt_Typed
  imports Dpt_Wire
begin

text \<open>
  The structured datapoint values (\<^verbatim>\<open>knx-rs-core/src/dpt/typed/\<close>): records with named fields for the
  multi-field types, read from and written to the octets of their format. The trait \<open>TypedDpt\<close> is
  the record of its operations; its contract is the locale \<open>typed_value\<close>, which every type of the
  code interprets. The contract says which octets a value is written as: the octets read, without
  their reserved bits.
\<close>

section \<open>The trait\<close>

record 'a TypedDpt =
  typed_dpt :: dpt
  typed_len :: nat
  typed_decode :: "u8 list \<Rightarrow> DptError + 'a"
  typed_encode :: "'a \<Rightarrow> DptError + u8 list"

definition from_value :: "'a TypedDpt \<Rightarrow> DptValue \<Rightarrow> DptError + 'a" where
  "from_value T value = (case value of
     DvBytes bytes \<Rightarrow>
       if length bytes \<noteq> typed_len T then Inl (OutOfRange ''value must have exactly the octets of the DPT'')
       else typed_decode T bytes
   | _ \<Rightarrow> Inl TypeMismatch)"

definition to_value :: "'a TypedDpt \<Rightarrow> 'a \<Rightarrow> DptError + DptValue" where
  "to_value T x = map_sum id DvBytes (typed_encode T x)"

definition octets :: "nat \<Rightarrow> u8 list \<Rightarrow> DptError + u8 list" where
  "octets n payload = (if length payload < n then Inl PayloadTooShort else Inr (take n payload))"

definition flag :: "u8 \<Rightarrow> nat \<Rightarrow> bool" where
  "flag octet n \<longleftrightarrow> drop_bit n octet AND 1 = 1"

definition flag_bit :: "bool \<Rightarrow> nat \<Rightarrow> u8" where
  "flag_bit b n = (if b then push_bit n 1 else 0)"

definition ensure :: "bool \<Rightarrow> string \<Rightarrow> DptError + unit" where
  "ensure ok ctx = (if ok then Inr () else Inl (OutOfRange ctx))"

definition percent_to_raw :: "FloatLib \<Rightarrow> f64 \<Rightarrow> DptError + u8" where
  "percent_to_raw fl percent =
     bind_res (ensure (is_finite percent \<and> f64_between 0 100 percent) ''percentage outside 0..=100'') (\<lambda>_.
       Inr (word_of_int (f64_to_int 0 255 (libm_round fl (f64_div (f64_mult percent (f64_lit 255)) (f64_lit 100))))))"

definition raw_to_percent :: "u8 \<Rightarrow> f64" where
  "raw_to_percent raw = f64_div (f64_mult (f64_of_int (uint raw)) (f64_lit 100)) (f64_lit 255)"

lemma flag_iff: "flag b n \<longleftrightarrow> bit b n"
  by (simp add: flag_def and_one_eq odd_iff_mod_2_eq_one [symmetric] bit_iff_odd_drop_bit)

lemma bit_flag_bit [simp]: "bit (flag_bit s n) k \<longleftrightarrow> s \<and> k = n \<and> n < 8"
  by (auto simp: flag_bit_def bit_simps)

lemma ensure_Inr [simp]: "ensure ok ctx = Inr x \<longleftrightarrow> ok"
  by (simp add: ensure_def)

lemma bind_ensure: "bind_res (ensure ok ctx) f = Inr y \<longleftrightarrow> ok \<and> f () = Inr y"
  by (simp add: ensure_def)

lemma bind_unit: "bind_res (m :: 'e + unit) f = Inr y \<longleftrightarrow> m = Inr () \<and> f () = Inr y"
  by (cases m) simp_all

lemma bind_octets: "bind_res (octets n p) f = Inr y \<longleftrightarrow> n \<le> length p \<and> f (take n p) = Inr y"
  by (simp add: octets_def)

section \<open>The contract\<close>

text \<open>
  \<open>masks\<close> are the bits of the format that carry a field, \<open>regular\<close> the octets that \<open>encode\<close> can
  write. What \<open>encode\<close> writes is regular and read back as the same value; regular octets are
  written again without their reserved bits.
\<close>

definition masked :: "u8 list \<Rightarrow> u8 list \<Rightarrow> u8 list" where
  "masked masks p = map2 (AND) p masks"

locale typed_value =
  fixes T :: "'a TypedDpt" and masks :: "u8 list" and regular :: "u8 list \<Rightarrow> bool"
  assumes size: "compound_len (dpt_main (typed_dpt T)) = Some (typed_len T)"
    and short: "length p < typed_len T \<Longrightarrow> typed_decode T p = Inl PayloadTooShort"
    and extra: "typed_len T \<le> length p \<Longrightarrow> typed_decode T p = typed_decode T (take (typed_len T) p)"
    and written: "typed_encode T x = Inr bs \<Longrightarrow>
      length bs = typed_len T \<and> regular bs \<and> masked masks bs = bs \<and> typed_decode T bs = Inr x"
    and again: "length p = typed_len T \<Longrightarrow> typed_decode T p = Inr x \<Longrightarrow> regular p \<Longrightarrow> typed_encode T x = Inr (masked masks p)"
begin

lemma handled: "dpt_decode (typed_dpt T) = compound_decode (typed_dpt T)" "dpt_encode fl (typed_dpt T) = compound_encode (typed_dpt T)"
    "dpt_main (typed_dpt T) \<noteq> DPT267"
proof -
  have "compound_len 16 = None" "compound_len 24 = None" "compound_len 28 = None" "compound_len DPT267 = None"
    by (simp_all add: compound_len_def DPT267_def)
  then have "dpt_main (typed_dpt T) \<notin> set [16, 24, 28, DPT267]" using size by auto
  moreover have "compound_handles (dpt_main (typed_dpt T))" using size by (simp add: compound_handles_def)
  ultimately show "dpt_decode (typed_dpt T) = compound_decode (typed_dpt T)"
    "dpt_encode fl (typed_dpt T) = compound_encode (typed_dpt T)" "dpt_main (typed_dpt T) \<noteq> DPT267"
    by (simp_all add: dpt_decode_def dpt_encode_def fun_eq_iff)
qed

lemma value_sent:
  assumes "to_value T x = Inr v"
  shows "\<exists>bs. dpt_encode fl (typed_dpt T) v = Inr bs \<and> length bs = typed_len T \<and> masked masks bs = bs \<and>
    dpt_decode (typed_dpt T) bs = Inr v \<and> from_value T v = Inr x"
proof -
  obtain bs where bs: "typed_encode T x = Inr bs" "v = DvBytes bs"
    using assms by (cases "typed_encode T x") (auto simp: to_value_def)
  with written [OF bs(1)] size show ?thesis
    by (simp add: handled compound_encode_def compound_decode_def from_value_def)
qed

lemma value_received:
  "bind_res (dpt_decode (typed_dpt T) p) (from_value T) = typed_decode T p"
proof (cases "length p < typed_len T")
  case True then show ?thesis using size short [OF True] by (simp add: handled compound_decode_def)
next
  case False then show ?thesis using size extra [of p] by (simp add: handled compound_decode_def from_value_def)
qed

lemma value_forwarded:
  assumes "length p = typed_len T" and "typed_decode T p = Inr x" and "regular p"
  shows "to_value T x = Inr (DvBytes (masked masks p))"
  using again [OF assms] by (simp add: to_value_def)

end

section \<open>Dates\<close>

record Date =
  da_day :: u8
  da_month :: u8
  da_year :: u16

definition date_validate :: "Date \<Rightarrow> DptError + unit" where
  "date_validate d =
     bind_res (ensure (1 \<le> da_day d \<and> da_day d \<le> 31) ''day of month outside 1..=31'') (\<lambda>_.
     bind_res (ensure (1 \<le> da_month d \<and> da_month d \<le> 12) ''month outside 1..=12'') (\<lambda>_.
     ensure (1990 \<le> da_year d \<and> da_year d \<le> 2089) ''year outside 1990..=2089''))"

definition date_decode :: "u8 list \<Rightarrow> DptError + Date" where
  "date_decode payload = bind_res (octets 3 payload) (\<lambda>o3.
     let year = (ucast (o3 ! 2 AND 0x7F) :: u16);
         date = \<lparr>da_day = o3 ! 0 AND 0x1F, da_month = o3 ! 1 AND 0x0F, da_year = (if 90 \<le> year then 1900 + year else 2000 + year)\<rparr>
     in bind_res (date_validate date) (\<lambda>_. Inr date))"

definition date_encode :: "Date \<Rightarrow> DptError + u8 list" where
  "date_encode d = bind_res (date_validate d) (\<lambda>_. Inr [da_day d, da_month d, ucast (da_year d mod 100)])"

definition date_typed :: "Date TypedDpt" where
  "date_typed = \<lparr>typed_dpt = dpt_new 11 1, typed_len = 3, typed_decode = date_decode, typed_encode = date_encode\<rparr>"

record DateTime =
  dt_year :: u16
  dt_month :: u8
  dt_day :: u8
  dt_day_of_week :: u8
  dt_hour :: u8
  dt_minute :: u8
  dt_second :: u8
  dt_fault :: bool
  dt_working_day :: bool
  dt_working_day_invalid :: bool
  dt_year_invalid :: bool
  dt_date_invalid :: bool
  dt_day_of_week_invalid :: bool
  dt_time_invalid :: bool
  dt_summer_time :: bool
  dt_clock_synchronised :: bool
  dt_source_reliable :: bool

definition datetime_validate :: "DateTime \<Rightarrow> DptError + unit" where
  "datetime_validate d =
     bind_res (ensure (1900 \<le> dt_year d \<and> dt_year d \<le> 2155) ''year outside 1900..=2155'') (\<lambda>_.
     bind_res (ensure (dt_day_of_week d \<le> 7) ''day of week outside 0..=7'') (\<lambda>_.
     bind_res
       (if dt_date_invalid d then ensure (dt_month d \<le> 15 \<and> dt_day d \<le> 31) ''month or day does not fit its field''
        else bind_res (ensure (1 \<le> dt_month d \<and> dt_month d \<le> 12) ''month outside 1..=12'') (\<lambda>_.
          ensure (1 \<le> dt_day d \<and> dt_day d \<le> 31) ''day of month outside 1..=31'')) (\<lambda>_.
     if dt_time_invalid d
     then ensure (dt_hour d \<le> 31 \<and> dt_minute d \<le> 63 \<and> dt_second d \<le> 63) ''hour, minutes or seconds do not fit their field''
     else bind_res (ensure (dt_hour d \<le> 24) ''hour outside 0..=24'') (\<lambda>_.
          bind_res (ensure (dt_minute d \<le> 59) ''minutes outside 0..=59'') (\<lambda>_.
          bind_res (ensure (dt_second d \<le> 59) ''seconds outside 0..=59'') (\<lambda>_.
          ensure (dt_hour d < 24 \<or> dt_minute d = 0 \<and> dt_second d = 0) ''hour 24 needs minutes and seconds 0''))))))"

definition datetime_decode :: "u8 list \<Rightarrow> DptError + DateTime" where
  "datetime_decode payload = bind_res (octets 8 payload) (\<lambda>o8.
     let flags = o8 ! 6; clock = o8 ! 7;
         value = \<lparr>dt_year = 1900 + ucast (o8 ! 0), dt_month = o8 ! 1 AND 0x0F, dt_day = o8 ! 2 AND 0x1F,
           dt_day_of_week = drop_bit 5 (o8 ! 3), dt_hour = o8 ! 3 AND 0x1F, dt_minute = o8 ! 4 AND 0x3F,
           dt_second = o8 ! 5 AND 0x3F, dt_fault = flag flags 7, dt_working_day = flag flags 6,
           dt_working_day_invalid = flag flags 5, dt_year_invalid = flag flags 4, dt_date_invalid = flag flags 3,
           dt_day_of_week_invalid = flag flags 2, dt_time_invalid = flag flags 1, dt_summer_time = flag flags 0,
           dt_clock_synchronised = flag clock 7, dt_source_reliable = flag clock 6\<rparr>
     in bind_res (datetime_validate value) (\<lambda>_. Inr value))"

definition datetime_encode :: "DateTime \<Rightarrow> DptError + u8 list" where
  "datetime_encode d = bind_res (datetime_validate d) (\<lambda>_.
     let year = ucast (dt_year d - 1900);
         flags = flag_bit (dt_fault d) 7 OR flag_bit (dt_working_day d) 6 OR flag_bit (dt_working_day_invalid d) 5 OR
           flag_bit (dt_year_invalid d) 4 OR flag_bit (dt_date_invalid d) 3 OR flag_bit (dt_day_of_week_invalid d) 2 OR
           flag_bit (dt_time_invalid d) 1 OR flag_bit (dt_summer_time d) 0;
         clock = flag_bit (dt_clock_synchronised d) 7 OR flag_bit (dt_source_reliable d) 6
     in Inr [year, dt_month d, dt_day d, push_bit 5 (dt_day_of_week d) OR dt_hour d, dt_minute d, dt_second d, flags, clock])"

definition datetime_typed :: "DateTime TypedDpt" where
  "datetime_typed = \<lparr>typed_dpt = dpt_new 19 1, typed_len = 8, typed_decode = datetime_decode, typed_encode = datetime_encode\<rparr>"

section \<open>Status\<close>

record StatusBuc =
  buc_relative_power :: u8
  buc_relative_power_valid :: bool
  buc_fault :: bool
  buc_stage1_active :: bool
  buc_stage2_active :: bool

definition buc_decode :: "u8 list \<Rightarrow> DptError + StatusBuc" where
  "buc_decode payload = bind_res (octets 2 payload) (\<lambda>o2.
     let power = o2 ! 0; attributes = o2 ! 1;
         value = \<lparr>buc_relative_power = power, buc_relative_power_valid = flag attributes 0, buc_fault = flag attributes 1,
           buc_stage1_active = flag attributes 2, buc_stage2_active = flag attributes 3\<rparr>
     in bind_res (if buc_relative_power_valid value then ensure (power \<le> 100) ''relative power outside 0..=100'' else Inr ())
       (\<lambda>_. Inr value))"

definition buc_encode :: "StatusBuc \<Rightarrow> DptError + u8 list" where
  "buc_encode s = bind_res (ensure (buc_relative_power s \<le> 100) ''relative power outside 0..=100'') (\<lambda>_.
     let attributes = flag_bit (buc_relative_power_valid s) 0 OR flag_bit (buc_fault s) 1 OR
       flag_bit (buc_stage1_active s) 2 OR flag_bit (buc_stage2_active s) 3
     in Inr [buc_relative_power s, attributes])"

definition buc_typed :: "StatusBuc TypedDpt" where
  "buc_typed = \<lparr>typed_dpt = dpt_new 207 100, typed_len = 2, typed_decode = buc_decode, typed_encode = buc_encode\<rparr>"

record StatusAct =
  act_position :: u8
  act_failure :: bool
  act_manual_override :: bool
  act_calibration_mode :: bool
  act_valve_kick :: bool
  act_synchronization_mode :: bool

definition act_decode :: "u8 list \<Rightarrow> DptError + StatusAct" where
  "act_decode payload = bind_res (octets 2 payload) (\<lambda>o2.
     let position = o2 ! 0; attributes = o2 ! 1
     in bind_res (ensure (position \<le> 100) ''position outside 0..=100'') (\<lambda>_.
        Inr \<lparr>act_position = position, act_failure = flag attributes 0, act_manual_override = flag attributes 1,
          act_calibration_mode = flag attributes 2, act_valve_kick = flag attributes 3,
          act_synchronization_mode = flag attributes 4\<rparr>))"

definition act_encode :: "StatusAct \<Rightarrow> DptError + u8 list" where
  "act_encode s = bind_res (ensure (act_position s \<le> 100) ''position outside 0..=100'') (\<lambda>_.
     let attributes = flag_bit (act_failure s) 0 OR flag_bit (act_manual_override s) 1 OR
       flag_bit (act_calibration_mode s) 2 OR flag_bit (act_valve_kick s) 3 OR flag_bit (act_synchronization_mode s) 4
     in Inr [act_position s, attributes])"

definition act_typed :: "StatusAct TypedDpt" where
  "act_typed = \<lparr>typed_dpt = dpt_new 207 105, typed_len = 2, typed_decode = act_decode, typed_encode = act_encode\<rparr>"

record StatusLightingActuator =
  sla_actual_value :: u8
  sla_valid_actual_value :: bool
  sla_locked :: bool
  sla_forced :: bool
  sla_night_mode_active :: bool
  sla_staircase_lighting :: bool
  sla_dimming :: bool
  sla_local_override :: bool
  sla_failure :: bool

definition actual_percent :: "StatusLightingActuator \<Rightarrow> f64" where
  "actual_percent s = raw_to_percent (sla_actual_value s)"

definition set_actual_percent :: "FloatLib \<Rightarrow> f64 \<Rightarrow> StatusLightingActuator \<Rightarrow> DptError + StatusLightingActuator" where
  "set_actual_percent fl percent s = bind_res (percent_to_raw fl percent) (\<lambda>raw. Inr (s\<lparr>sla_actual_value := raw\<rparr>))"

definition sla_decode :: "u8 list \<Rightarrow> DptError + StatusLightingActuator" where
  "sla_decode payload = bind_res (octets 2 payload) (\<lambda>o2.
     let attributes = o2 ! 1
     in Inr \<lparr>sla_actual_value = o2 ! 0, sla_valid_actual_value = flag attributes 0, sla_locked = flag attributes 1,
       sla_forced = flag attributes 2, sla_night_mode_active = flag attributes 3, sla_staircase_lighting = flag attributes 4,
       sla_dimming = flag attributes 5, sla_local_override = flag attributes 6, sla_failure = flag attributes 7\<rparr>)"

definition sla_encode :: "StatusLightingActuator \<Rightarrow> DptError + u8 list" where
  "sla_encode s =
     (let attributes = flag_bit (sla_valid_actual_value s) 0 OR flag_bit (sla_locked s) 1 OR flag_bit (sla_forced s) 2 OR
        flag_bit (sla_night_mode_active s) 3 OR flag_bit (sla_staircase_lighting s) 4 OR flag_bit (sla_dimming s) 5 OR
        flag_bit (sla_local_override s) 6 OR flag_bit (sla_failure s) 7
      in Inr [sla_actual_value s, attributes])"

definition sla_typed :: "StatusLightingActuator TypedDpt" where
  "sla_typed = \<lparr>typed_dpt = dpt_new 207 600, typed_len = 2, typed_decode = sla_decode, typed_encode = sla_encode\<rparr>"

section \<open>Metering and colour\<close>

record Z8Status =
  z8_out_of_service :: bool
  z8_fault :: bool
  z8_overridden :: bool
  z8_in_alarm :: bool
  z8_alarm_unacknowledged :: bool

definition z8_from_octet :: "u8 \<Rightarrow> Z8Status" where
  "z8_from_octet octet = \<lparr>z8_out_of_service = flag octet 0, z8_fault = flag octet 1, z8_overridden = flag octet 2,
     z8_in_alarm = flag octet 3, z8_alarm_unacknowledged = flag octet 4\<rparr>"

definition z8_to_octet :: "Z8Status \<Rightarrow> u8" where
  "z8_to_octet z = flag_bit (z8_out_of_service z) 0 OR flag_bit (z8_fault z) 1 OR flag_bit (z8_overridden z) 2 OR
     flag_bit (z8_in_alarm z) 3 OR flag_bit (z8_alarm_unacknowledged z) 4"

record MeteringValue =
  mv_count :: i32
  mv_value_info_field :: u8
  mv_status :: Z8Status

definition metering_decode :: "u8 list \<Rightarrow> DptError + MeteringValue" where
  "metering_decode payload = bind_res (octets 6 payload) (\<lambda>o6.
     Inr \<lparr>mv_count = be32 (o6 ! 0) (o6 ! 1) (o6 ! 2) (o6 ! 3), mv_value_info_field = o6 ! 4,
       mv_status = z8_from_octet (o6 ! 5)\<rparr>)"

definition metering_encode :: "MeteringValue \<Rightarrow> DptError + u8 list" where
  "metering_encode m = Inr (to_be32 (mv_count m) @ [mv_value_info_field m, z8_to_octet (mv_status m)])"

definition metering_typed :: "MeteringValue TypedDpt" where
  "metering_typed = \<lparr>typed_dpt = dpt_new 229 1, typed_len = 6, typed_decode = metering_decode, typed_encode = metering_encode\<rparr>"

record TariffActiveEnergy =
  tae_energy :: i32
  tae_tariff :: u8
  tae_energy_valid :: bool
  tae_tariff_valid :: bool

definition tariff_decode :: "u8 list \<Rightarrow> DptError + TariffActiveEnergy" where
  "tariff_decode payload = bind_res (octets 6 payload) (\<lambda>o6.
     let tariff = o6 ! 4; validity = o6 ! 5;
         value = \<lparr>tae_energy = be32 (o6 ! 0) (o6 ! 1) (o6 ! 2) (o6 ! 3), tae_tariff = tariff,
           tae_energy_valid = (\<not> flag validity 1), tae_tariff_valid = (\<not> flag validity 0)\<rparr>
     in bind_res (if tae_tariff_valid value then ensure (tariff \<le> 254) ''tariff outside 0..=254'' else Inr ())
       (\<lambda>_. Inr value))"

definition tariff_encode :: "TariffActiveEnergy \<Rightarrow> DptError + u8 list" where
  "tariff_encode t = bind_res (ensure (tae_tariff t \<le> 254) ''tariff outside 0..=254'') (\<lambda>_.
     Inr (to_be32 (tae_energy t) @ [tae_tariff t, flag_bit (\<not> tae_energy_valid t) 1 OR flag_bit (\<not> tae_tariff_valid t) 0]))"

definition tariff_typed :: "TariffActiveEnergy TypedDpt" where
  "tariff_typed = \<lparr>typed_dpt = dpt_new 235 1, typed_len = 6, typed_decode = tariff_decode, typed_encode = tariff_encode\<rparr>"

record Rgbw =
  rgbw_red :: u8
  rgbw_green :: u8
  rgbw_blue :: u8
  rgbw_white :: u8
  rgbw_red_valid :: bool
  rgbw_green_valid :: bool
  rgbw_blue_valid :: bool
  rgbw_white_valid :: bool

definition rgbw_decode :: "u8 list \<Rightarrow> DptError + Rgbw" where
  "rgbw_decode payload = bind_res (octets 6 payload) (\<lambda>o6.
     let valid = o6 ! 5
     in Inr \<lparr>rgbw_red = o6 ! 0, rgbw_green = o6 ! 1, rgbw_blue = o6 ! 2, rgbw_white = o6 ! 3,
       rgbw_red_valid = flag valid 3, rgbw_green_valid = flag valid 2, rgbw_blue_valid = flag valid 1,
       rgbw_white_valid = flag valid 0\<rparr>)"

definition rgbw_encode :: "Rgbw \<Rightarrow> DptError + u8 list" where
  "rgbw_encode c =
     (let valid = flag_bit (rgbw_red_valid c) 3 OR flag_bit (rgbw_green_valid c) 2 OR
        flag_bit (rgbw_blue_valid c) 1 OR flag_bit (rgbw_white_valid c) 0
      in Inr [rgbw_red c, rgbw_green c, rgbw_blue c, rgbw_white c, 0, valid])"

definition rgbw_typed :: "Rgbw TypedDpt" where
  "rgbw_typed = \<lparr>typed_dpt = dpt_new 251 600, typed_len = 6, typed_decode = rgbw_decode, typed_encode = rgbw_encode\<rparr>"


section \<open>Every type keeps the contract\<close>

lemma full_octet [simp]: "(b :: u8) AND 0xFF = b"
proof -
  have "(0xFF :: u8) = -1" by simp
  then show ?thesis by (simp only: and.right_neutral)
qed

lemma low_fields:
  fixes x :: u8
  shows "x \<le> 15 \<Longrightarrow> x AND 0x0F = x" and "x \<le> 31 \<Longrightarrow> x AND 0x1F = x" and "x \<le> 63 \<Longrightarrow> x AND 0x3F = x" and "x \<le> 127 \<Longrightarrow> x AND 0x7F = x"
  using le_mask_and [of x 4] le_mask_and [of x 5] le_mask_and [of x 6] le_mask_and [of x 7] by (simp_all add: mask_numeral)

lemma flags_written:
  "flag_bit a 0 OR flag_bit b 1 OR flag_bit c 2 OR flag_bit d 3 = x \<longleftrightarrow>
     (bit x 0 \<longleftrightarrow> a) \<and> (bit x 1 \<longleftrightarrow> b) \<and> (bit x 2 \<longleftrightarrow> c) \<and> (bit x 3 \<longleftrightarrow> d) \<and> \<not> bit x 4 \<and> \<not> bit x 5 \<and> \<not> bit x 6 \<and> \<not> bit x 7"
  by (subst u8_eq_bits) (auto simp: bit_simps)

lemma octets_short: "length p < n \<Longrightarrow> bind_res (octets n p) f = Inl PayloadTooShort"
  by (simp add: octets_def)

lemma octets_extra: "n \<le> length p \<Longrightarrow> bind_res (octets n p) f = bind_res (octets n (take n p)) f"
  by (simp add: octets_def)

lemma listed:
  fixes p :: "u8 list"
  shows "length p = 2 \<Longrightarrow> p = [p ! 0, p ! 1]" "length p = 3 \<Longrightarrow> p = [p ! 0, p ! 1, p ! 2]"
  "length p = 6 \<Longrightarrow> p = [p ! 0, p ! 1, p ! 2, p ! 3, p ! 4, p ! 5]"
  "length p = 8 \<Longrightarrow> p = [p ! 0, p ! 1, p ! 2, p ! 3, p ! 4, p ! 5, p ! 6, p ! 7]"
  by (auto intro!: nth_equalityI simp: less_Suc_eq numeral_eq_Suc)

lemma masked_lists:
  "masked [] bs = []" "masked (m # ms) (b # bs) = (b AND m) # masked ms bs"
  "length p = 2 \<Longrightarrow> masked [a, b] p = [p ! 0 AND a, p ! 1 AND b]"
  "length p = 3 \<Longrightarrow> masked [a, b, c] p = [p ! 0 AND a, p ! 1 AND b, p ! 2 AND c]"
  "length p = 6 \<Longrightarrow> masked [a, b, c, d, e, f] p = [p ! 0 AND a, p ! 1 AND b, p ! 2 AND c, p ! 3 AND d, p ! 4 AND e, p ! 5 AND f]"
  "length p = 8 \<Longrightarrow> masked [a, b, c, d, e, f, g, h] p =
    [p ! 0 AND a, p ! 1 AND b, p ! 2 AND c, p ! 3 AND d, p ! 4 AND e, p ! 5 AND f, p ! 6 AND g, p ! 7 AND h]"
  unfolding masked_def by (simp, simp) (subst listed, assumption, simp)+

named_theorems typed_simps

lemmas [typed_simps] = from_value_def to_value_def masked_lists bind_octets bind_ensure flag_iff bit_or_iff bit_and_iff Let_def compound_len_def
  date_typed_def date_decode_def date_encode_def date_validate_def
  datetime_typed_def datetime_decode_def datetime_encode_def datetime_validate_def
  buc_typed_def buc_decode_def buc_encode_def act_typed_def act_decode_def act_encode_def
  sla_typed_def sla_decode_def sla_encode_def
  metering_typed_def metering_decode_def metering_encode_def z8_from_octet_def z8_to_octet_def
  tariff_typed_def tariff_decode_def tariff_encode_def rgbw_typed_def rgbw_decode_def rgbw_encode_def

lemma ranged: "a \<le> 100 \<Longrightarrow> a \<le> 254" for a :: u8
  by (simp add: word_le_nat_alt)

text \<open>All formats are read from the first octets, so only the fields are left to check.\<close>

lemma typed_valueI:
  fixes T :: "'a TypedDpt"
  assumes "compound_len (dpt_main (typed_dpt T)) = Some (typed_len T)"
    and "\<And>p. typed_decode T p = bind_res (octets (typed_len T) p) f"
    and "\<And>x bs. typed_encode T x = Inr bs \<Longrightarrow> length bs = typed_len T \<and> regular bs \<and> masked masks bs = bs \<and> f bs = Inr x"
    and "\<And>p x. length p = typed_len T \<Longrightarrow> f p = Inr x \<Longrightarrow> regular p \<Longrightarrow> typed_encode T x = Inr (masked masks p)"
  shows "typed_value T masks regular"
proof
  fix p :: "u8 list" and x bs
  show "length p < typed_len T \<Longrightarrow> typed_decode T p = Inl PayloadTooShort" by (simp add: assms(2) octets_short)
  show "typed_len T \<le> length p \<Longrightarrow> typed_decode T p = typed_decode T (take (typed_len T) p)" by (simp add: assms(2) octets_extra [symmetric])
  show "typed_encode T x = Inr bs \<Longrightarrow> length bs = typed_len T \<and> regular bs \<and> masked masks bs = bs \<and> typed_decode T bs = Inr x"
    using assms(3) [of x bs] by (simp add: assms(2) octets_def)
  show "length p = typed_len T \<Longrightarrow> typed_decode T p = Inr x \<Longrightarrow> regular p \<Longrightarrow> typed_encode T x = Inr (masked masks p)"
    using assms(4) [of p x] by (simp add: assms(2) octets_def)
qed (rule assms(1))

interpretation rgbw: typed_value rgbw_typed "[0xFF, 0xFF, 0xFF, 0xFF, 0, 0x0F]" "\<lambda>_. True"
proof (rule typed_valueI)
  show "compound_len (dpt_main (typed_dpt rgbw_typed)) = Some (typed_len rgbw_typed)" by (simp add: typed_simps dpt_new_def)
  show "typed_decode rgbw_typed p = bind_res (octets (typed_len rgbw_typed) p)
     (\<lambda>o6. let valid = o6 ! 5
     in Inr \<lparr>rgbw_red = o6 ! 0, rgbw_green = o6 ! 1, rgbw_blue = o6 ! 2, rgbw_white = o6 ! 3,
       rgbw_red_valid = flag valid 3, rgbw_green_valid = flag valid 2, rgbw_blue_valid = flag valid 1,
       rgbw_white_valid = flag valid 0\<rparr>)" for p by (simp add: rgbw_typed_def rgbw_decode_def)
qed (auto simp: typed_simps u8_eq_bits)

interpretation sla: typed_value sla_typed "[0xFF, 0xFF]" "\<lambda>_. True"
proof (rule typed_valueI)
  show "compound_len (dpt_main (typed_dpt sla_typed)) = Some (typed_len sla_typed)" by (simp add: typed_simps dpt_new_def)
  show "typed_decode sla_typed p = bind_res (octets (typed_len sla_typed) p)
     (\<lambda>o2.
     let attributes = o2 ! 1
     in Inr \<lparr>sla_actual_value = o2 ! 0, sla_valid_actual_value = flag attributes 0, sla_locked = flag attributes 1,
       sla_forced = flag attributes 2, sla_night_mode_active = flag attributes 3, sla_staircase_lighting = flag attributes 4,
       sla_dimming = flag attributes 5, sla_local_override = flag attributes 6, sla_failure = flag attributes 7\<rparr>)" for p by (simp add: sla_typed_def sla_decode_def)
qed (auto simp: typed_simps u8_eq_bits)

interpretation act: typed_value act_typed "[0xFF, 0x1F]" "\<lambda>_. True"
proof (rule typed_valueI)
  show "compound_len (dpt_main (typed_dpt act_typed)) = Some (typed_len act_typed)" by (simp add: typed_simps dpt_new_def)
  show "typed_decode act_typed p = bind_res (octets (typed_len act_typed) p)
     (\<lambda>o2.
     let position = o2 ! 0; attributes = o2 ! 1
     in bind_res (ensure (position \<le> 100) ''position outside 0..=100'') (\<lambda>_.
        Inr \<lparr>act_position = position, act_failure = flag attributes 0, act_manual_override = flag attributes 1,
          act_calibration_mode = flag attributes 2, act_valve_kick = flag attributes 3,
          act_synchronization_mode = flag attributes 4\<rparr>))" for p by (simp add: act_typed_def act_decode_def)
qed (auto simp: typed_simps u8_eq_bits)

interpretation buc: typed_value buc_typed "[0xFF, 0x0F]" "\<lambda>p. p ! 0 \<le> 100"
proof (rule typed_valueI)
  show "compound_len (dpt_main (typed_dpt buc_typed)) = Some (typed_len buc_typed)" by (simp add: typed_simps dpt_new_def)
  show "typed_decode buc_typed p = bind_res (octets (typed_len buc_typed) p)
     (\<lambda>o2.
     let power = o2 ! 0; attributes = o2 ! 1;
         value = \<lparr>buc_relative_power = power, buc_relative_power_valid = flag attributes 0, buc_fault = flag attributes 1,
           buc_stage1_active = flag attributes 2, buc_stage2_active = flag attributes 3\<rparr>
     in bind_res (if buc_relative_power_valid value then ensure (power \<le> 100) ''relative power outside 0..=100'' else Inr ())
       (\<lambda>_. Inr value))" for p by (simp add: buc_typed_def buc_decode_def)
qed (auto simp: typed_simps u8_eq_bits split: if_splits)

lemma z8_octet: "z8_from_octet (z8_to_octet z) = z" "z8_to_octet z AND 0x1F = z8_to_octet z" "z8_to_octet (z8_from_octet b) = b AND 0x1F"
  by (auto simp: z8_from_octet_def z8_to_octet_def u8_eq_bits flag_iff bit_or_iff bit_and_iff)

lemma validity_octet:
  "(flag_bit a (Suc 0) OR flag_bit b 0) AND 0x03 = flag_bit a (Suc 0) OR flag_bit b 0"
  "flag_bit (bit x (Suc 0)) (Suc 0) OR flag_bit (bit x 0) 0 = x AND 0x03"
  by (auto simp: u8_eq_bits bit_or_iff bit_and_iff)

lemma word_octets: "\<exists>a b c d. to_be32 w = [a, b, c, d] \<and> be32 a b c d = w"
  by (auto simp: to_be32_def)

interpretation metering: typed_value metering_typed "[0xFF, 0xFF, 0xFF, 0xFF, 0xFF, 0x1F]" "\<lambda>_. True"
proof (rule typed_valueI)
  show "compound_len (dpt_main (typed_dpt metering_typed)) = Some (typed_len metering_typed)" by (simp add: typed_simps dpt_new_def)
  show "typed_decode metering_typed p = bind_res (octets (typed_len metering_typed) p)
     (\<lambda>o6.
     Inr \<lparr>mv_count = be32 (o6 ! 0) (o6 ! 1) (o6 ! 2) (o6 ! 3), mv_value_info_field = o6 ! 4,
       mv_status = z8_from_octet (o6 ! 5)\<rparr>)" for p by (simp add: metering_typed_def metering_decode_def)
next
  fix x bs assume "typed_encode metering_typed x = Inr bs"
  with word_octets [of "mv_count x"] show "length bs = typed_len metering_typed \<and> True \<and>
      masked [0xFF, 0xFF, 0xFF, 0xFF, 0xFF, 0x1F] bs = bs \<and> (\<lambda>o6.
     Inr \<lparr>mv_count = be32 (o6 ! 0) (o6 ! 1) (o6 ! 2) (o6 ! 3), mv_value_info_field = o6 ! 4,
       mv_status = z8_from_octet (o6 ! 5)\<rparr>) bs = Inr x"
    by (auto simp: metering_typed_def metering_encode_def masked_lists z8_octet)
qed (auto simp: metering_typed_def metering_encode_def masked_lists z8_octet)

interpretation tariff: typed_value tariff_typed "[0xFF, 0xFF, 0xFF, 0xFF, 0xFF, 0x03]" "\<lambda>p. p ! 4 \<le> 254"
proof (rule typed_valueI)
  show "compound_len (dpt_main (typed_dpt tariff_typed)) = Some (typed_len tariff_typed)" by (simp add: typed_simps dpt_new_def)
  show "typed_decode tariff_typed p = bind_res (octets (typed_len tariff_typed) p)
     (\<lambda>o6.
     let tariff = o6 ! 4; validity = o6 ! 5;
         value = \<lparr>tae_energy = be32 (o6 ! 0) (o6 ! 1) (o6 ! 2) (o6 ! 3), tae_tariff = tariff,
           tae_energy_valid = (\<not> flag validity 1), tae_tariff_valid = (\<not> flag validity 0)\<rparr>
     in bind_res (if tae_tariff_valid value then ensure (tariff \<le> 254) ''tariff outside 0..=254'' else Inr ())
       (\<lambda>_. Inr value))" for p by (simp add: tariff_typed_def tariff_decode_def)
next
  fix x bs assume "typed_encode tariff_typed x = Inr bs"
  with word_octets [of "tae_energy x"] show "length bs = typed_len tariff_typed \<and> bs ! 4 \<le> 254 \<and>
      masked [0xFF, 0xFF, 0xFF, 0xFF, 0xFF, 0x03] bs = bs \<and> (\<lambda>o6.
     let tariff = o6 ! 4; validity = o6 ! 5;
         value = \<lparr>tae_energy = be32 (o6 ! 0) (o6 ! 1) (o6 ! 2) (o6 ! 3), tae_tariff = tariff,
           tae_energy_valid = (\<not> flag validity 1), tae_tariff_valid = (\<not> flag validity 0)\<rparr>
     in bind_res (if tae_tariff_valid value then ensure (tariff \<le> 254) ''tariff outside 0..=254'' else Inr ())
       (\<lambda>_. Inr value)) bs = Inr x"
    by (auto simp: tariff_typed_def tariff_encode_def masked_lists validity_octet bind_ensure flag_iff bit_or_iff Let_def)
qed ((auto simp: tariff_typed_def tariff_encode_def masked_lists validity_octet bind_ensure flag_iff Let_def split: if_splits); auto simp: u8_eq_bits bit_or_iff bit_and_iff)

text \<open>The two-digit year: a year of the range is its last two digits, and 90 is the border.\<close>

lemma unat_ucast_small: "unat w < 2 ^ LENGTH('b) \<Longrightarrow> unat (ucast w :: 'b::len word) = unat w"
  by (simp add: unsigned_ucast_eq unsigned_take_bit_eq take_bit_nat_eq_self_iff)

definition full_year :: "u8 \<Rightarrow> u16" where
  "full_year y = (if 90 \<le> (ucast y :: u16) then 1900 + ucast y else 2000 + ucast y)"

lemma unat_full_year: "unat y < 128 \<Longrightarrow> unat (full_year y) = (if 90 \<le> unat y then 1900 + unat y else 2000 + unat y)"
  by (simp add: full_year_def unat_word_ariths word_le_nat_alt unat_ucast_small)

lemma last_digits:
  fixes year :: u16
  shows "unat (ucast (year mod 100) :: u8) = unat year mod 100"
proof -
  have m: "unat (year mod 100) = unat year mod 100" by (simp add: unat_mod_distrib)
  moreover have "unat year mod 100 < 100" by simp
  ultimately have "unat (year mod 100) < 2 ^ LENGTH(8)" by simp
  from unat_ucast_small [OF this] show ?thesis by (simp only: m)
qed

lemma date_year:
  fixes year :: u16
  assumes "1990 \<le> year" and "year \<le> 2089"
  shows "(ucast (year mod 100) :: u8) AND 0x7F = ucast (year mod 100)" and "(ucast (year mod 100) :: u8) < 100"
    and "full_year (ucast (year mod 100)) = year"
proof -
  let ?n = "unat year"
  have n: "1990 \<le> ?n" "?n \<le> 2089" using assms by (simp_all add: word_le_nat_alt)
  have l: "?n mod 100 < 100" by simp
  show "(ucast (year mod 100) :: u8) AND 0x7F = ucast (year mod 100)" using l by (intro low_fields(4)) (simp add: word_le_nat_alt last_digits)
  show "(ucast (year mod 100) :: u8) < 100" using l by (simp add: word_less_nat_alt last_digits)
  have "unat (full_year (ucast (year mod 100))) = (if 90 \<le> ?n mod 100 then 1900 + ?n mod 100 else 2000 + ?n mod 100)"
    using l unat_full_year [of "ucast (year mod 100)"] by (simp add: last_digits)
  moreover have "(if 90 \<le> n mod 100 then 1900 + n mod 100 else 2000 + n mod 100) = n" if "1990 \<le> n" "n \<le> 2089" for n :: nat
  proof -
    have "n div 100 = 19 \<or> n div 100 = 20" using that by (auto simp: div_nat_eqI)
    moreover have "100 * (n div 100) + n mod 100 = n" "n mod 100 < 100" by (rule mult_div_mod_eq) simp
    ultimately show ?thesis using that by (cases "90 \<le> n mod 100"; simp only: if_True if_False; linarith)
  qed
  ultimately show "full_year (ucast (year mod 100)) = year" using n by (simp add: word_unat_eq_iff)
qed

lemma date_digits:
  fixes y :: u8
  assumes "y < 100"
  shows "ucast (full_year y mod 100) = y"
proof -
  have y: "unat y < 100" using assms by (simp add: word_less_nat_alt)
  have "(1900 + n) mod 100 = n \<and> (2000 + n) mod 100 = n" if "n < 100" for n :: nat
    using that mod_mult_self1 [of n 19 100] mod_mult_self1 [of n 20 100] by (simp add: add.commute)
  then have "unat (full_year y) mod 100 = unat y" using y unat_full_year [of y] by simp
  then show ?thesis using last_digits [of "full_year y"] by (simp add: word_unat_eq_iff)
qed

interpretation date: typed_value date_typed "[0x1F, 0x0F, 0x7F]" "\<lambda>p. p ! 2 AND 0x7F < 100"
proof (rule typed_valueI)
  show "compound_len (dpt_main (typed_dpt date_typed)) = Some (typed_len date_typed)" by (simp add: typed_simps dpt_new_def)
  show "typed_decode date_typed p = bind_res (octets (typed_len date_typed) p)
     (\<lambda>o3.
     let year = (ucast (o3 ! 2 AND 0x7F) :: u16);
         date = \<lparr>da_day = o3 ! 0 AND 0x1F, da_month = o3 ! 1 AND 0x0F, da_year = (if 90 \<le> year then 1900 + year else 2000 + year)\<rparr>
     in bind_res (date_validate date) (\<lambda>_. Inr date))" for p by (simp add: date_typed_def date_decode_def)
next
  fix x bs assume e: "typed_encode date_typed x = Inr bs"
  then have r: "1 \<le> da_day x" "da_day x \<le> 31" "1 \<le> da_month x" "da_month x \<le> 12" "1990 \<le> da_year x" "da_year x \<le> 2089"
      "bs = [da_day x, da_month x, ucast (da_year x mod 100)]"
    by (simp_all add: date_typed_def date_encode_def date_validate_def bind_unit)
  have m: "da_month x \<le> 15" using r(4) by (simp add: word_le_nat_alt)
  show "length bs = typed_len date_typed \<and> bs ! 2 AND 0x7F < 100 \<and> masked [0x1F, 0x0F, 0x7F] bs = bs \<and> (\<lambda>o3.
     let year = (ucast (o3 ! 2 AND 0x7F) :: u16);
         date = \<lparr>da_day = o3 ! 0 AND 0x1F, da_month = o3 ! 1 AND 0x0F, da_year = (if 90 \<le> year then 1900 + year else 2000 + year)\<rparr>
     in bind_res (date_validate date) (\<lambda>_. Inr date)) bs = Inr x"
    using r m date_year [OF r(5,6)] low_fields
    by (simp add: date_typed_def masked_lists Let_def date_validate_def bind_unit full_year_def)
next
  fix p x assume "length p = typed_len date_typed" "(\<lambda>o3.
     let year = (ucast (o3 ! 2 AND 0x7F) :: u16);
         date = \<lparr>da_day = o3 ! 0 AND 0x1F, da_month = o3 ! 1 AND 0x0F, da_year = (if 90 \<le> year then 1900 + year else 2000 + year)\<rparr>
     in bind_res (date_validate date) (\<lambda>_. Inr date)) p = Inr x" "p ! 2 AND 0x7F < 100"
  then show "typed_encode date_typed x = Inr (masked [0x1F, 0x0F, 0x7F] p)"
    using date_digits [of "p ! 2 AND 0x7F"]
    by (auto simp: date_typed_def masked_lists Let_def date_validate_def date_encode_def bind_unit full_year_def)
qed

lemma octet_bits_31: "\<And>x. x AND 0x1F \<le> (31 :: u8)"
  by (rule word_and_le1)

lemma day_hour:
  fixes d h x :: u8
  shows "d \<le> 7 \<Longrightarrow> h \<le> 31 \<Longrightarrow> drop_bit 5 (push_bit 5 d OR h) = d \<and> (push_bit 5 d OR h) AND 0x1F = h"
    and "push_bit 5 (drop_bit 5 x) OR (x AND 0x1F) = x"
proof -
  have n: "\<not> bit w n" if "w \<le> mask k" "k \<le> n" for w :: u8 and k n using le_mask_bits [OF that(1)] that(2) by fastforce
  have m: "mask 3 = (7 :: u8)" "mask 5 = (31 :: u8)" by (simp_all add: mask_numeral)
  show "d \<le> 7 \<Longrightarrow> h \<le> 31 \<Longrightarrow> drop_bit 5 (push_bit 5 d OR h) = d \<and> (push_bit 5 d OR h) AND 0x1F = h"
    using n [of d 3] n [of h 5] m by (auto simp: u8_eq_bits bit_simps)
  show "push_bit 5 (drop_bit 5 x) OR (x AND 0x1F) = x" by (auto simp: u8_eq_bits bit_simps)
qed

definition datetime_value :: "u8 list \<Rightarrow> DateTime" where
  "datetime_value o8 = (let flags = o8 ! 6; clock = o8 ! 7 in
     \<lparr>dt_year = 1900 + ucast (o8 ! 0), dt_month = o8 ! 1 AND 0x0F, dt_day = o8 ! 2 AND 0x1F,
       dt_day_of_week = drop_bit 5 (o8 ! 3), dt_hour = o8 ! 3 AND 0x1F, dt_minute = o8 ! 4 AND 0x3F,
       dt_second = o8 ! 5 AND 0x3F, dt_fault = flag flags 7, dt_working_day = flag flags 6,
       dt_working_day_invalid = flag flags 5, dt_year_invalid = flag flags 4, dt_date_invalid = flag flags 3,
       dt_day_of_week_invalid = flag flags 2, dt_time_invalid = flag flags 1, dt_summer_time = flag flags 0,
       dt_clock_synchronised = flag clock 7, dt_source_reliable = flag clock 6\<rparr>)"

lemma datetime_ranges:
  assumes "datetime_validate d = Inr ()"
  shows "1900 \<le> dt_year d \<and> dt_year d \<le> 2155 \<and> dt_month d \<le> 15 \<and> dt_day d \<le> 31 \<and> dt_day_of_week d \<le> 7 \<and>
    dt_hour d \<le> 31 \<and> dt_minute d \<le> 63 \<and> dt_second d \<le> 63"
  using assms by (auto simp: datetime_validate_def bind_unit word_le_nat_alt split: if_splits)

lemma datetime_flags:
  "(flag_bit a 7 OR flag_bit b 6 OR flag_bit c 5 OR flag_bit d 4 OR flag_bit e 3 OR flag_bit f 2 OR flag_bit g (Suc 0) OR flag_bit h 0 = x) =
     ((bit x 7 = a) \<and> (bit x 6 = b) \<and> (bit x 5 = c) \<and> (bit x 4 = d) \<and> (bit x 3 = e) \<and> (bit x 2 = f) \<and> (bit x (Suc 0) = g) \<and> (bit x 0 = h))"
  by (subst u8_eq_bits) (auto simp: bit_or_iff)

lemma clock_flags: "flag_bit (bit x 7) 7 OR flag_bit (bit x 6) 6 = x AND 0xC0"
    "(flag_bit a 7 OR flag_bit b 6) AND 0xC0 = flag_bit a 7 OR flag_bit b 6"
  by (auto simp: u8_eq_bits bit_or_iff bit_and_iff)

lemma datetime_year:
  fixes year :: u16
  shows "1900 \<le> year \<Longrightarrow> year \<le> 2155 \<Longrightarrow> 1900 + ucast (ucast (year - 1900) :: u8) = year"
    and "ucast (1900 + (ucast y :: u16) - 1900) = (y :: u8)"
proof -
  assume y: "1900 \<le> year" "year \<le> 2155"
  then have "unat (year - 1900) = unat year - 1900" by (simp add: unat_sub word_le_nat_alt)
  then have "unat (year - 1900) < 2 ^ LENGTH(8)" using y by (simp add: word_le_nat_alt)
  then have "unat (ucast (ucast (year - 1900) :: u8) :: u16) = unat (year - 1900)" by (simp add: unat_ucast_small)
  then show "1900 + ucast (ucast (year - 1900) :: u8) = year" by (simp add: word_unat_eq_iff [symmetric])
next
  show "ucast (1900 + (ucast y :: u16) - 1900) = (y :: u8)" by (simp add: bit_eq_iff bit_simps)
qed

lemma octet_widened [simp]: "ucast (ucast (y :: u8) :: u16) = y"
  by (simp add: bit_eq_iff bit_simps)

interpretation datetime: typed_value datetime_typed "[0xFF, 0x0F, 0x1F, 0xFF, 0x3F, 0x3F, 0xFF, 0xC0]" "\<lambda>_. True"
proof (rule typed_valueI)
  show "compound_len (dpt_main (typed_dpt datetime_typed)) = Some (typed_len datetime_typed)" by (simp add: typed_simps dpt_new_def)
  show "typed_decode datetime_typed p = bind_res (octets (typed_len datetime_typed) p)
     (\<lambda>o8. bind_res (datetime_validate (datetime_value o8)) (\<lambda>_. Inr (datetime_value o8)))" for p
    by (simp add: datetime_typed_def datetime_decode_def datetime_value_def Let_def)
next
  fix x bs assume "typed_encode datetime_typed x = Inr bs"
  then have e: "datetime_encode x = Inr bs" by (simp add: datetime_typed_def)
  then have v: "datetime_validate x = Inr ()" by (simp add: datetime_encode_def bind_unit)
  note r = datetime_ranges [OF v]
  have d: "datetime_value bs = x"
    using e r v day_hour(1) [of "dt_day_of_week x" "dt_hour x"] datetime_year(1) [of "dt_year x"]
    by (auto simp: datetime_encode_def datetime_value_def low_fields flag_iff bit_or_iff)
  have "length bs = 8 \<and> masked [0xFF, 0x0F, 0x1F, 0xFF, 0x3F, 0x3F, 0xFF, 0xC0] bs = bs"
    using e r v by (auto simp: datetime_encode_def masked_lists low_fields clock_flags Let_def)
  with d v show "length bs = typed_len datetime_typed \<and> True \<and> masked [0xFF, 0x0F, 0x1F, 0xFF, 0x3F, 0x3F, 0xFF, 0xC0] bs = bs \<and>
      bind_res (datetime_validate (datetime_value bs)) (\<lambda>_. Inr (datetime_value bs)) = Inr x" by (simp add: datetime_typed_def)
next
  fix p x assume l: "length p = typed_len datetime_typed"
    and "bind_res (datetime_validate (datetime_value p)) (\<lambda>_. Inr (datetime_value p)) = Inr x"
  then have x: "datetime_validate x = Inr ()" "x = datetime_value p" by (auto simp: bind_unit)
  show "typed_encode datetime_typed x = Inr (masked [0xFF, 0x0F, 0x1F, 0xFF, 0x3F, 0x3F, 0xFF, 0xC0] p)"
    using l x(1) unfolding x(2)
    by (simp add: datetime_typed_def datetime_encode_def masked_lists datetime_value_def Let_def flag_iff datetime_year(2) day_hour(2)
        datetime_flags clock_flags)
qed

section \<open>What the types promise\<close>

text \<open>
  A value that can be written is sent by the codec as octets of the length of its type, and the
  receiver reads the same value; what is received is what the octets decode to; and a value that was
  read from regular octets is sent on as the same octets without their reserved bits.
\<close>

definition carried :: "FloatLib \<Rightarrow> 'a TypedDpt \<Rightarrow> u8 list \<Rightarrow> (u8 list \<Rightarrow> bool) \<Rightarrow> bool" where
  "carried fl T masks regular \<longleftrightarrow>
     (\<forall>x v. to_value T x = Inr v \<longrightarrow>
        (\<exists>bs. dpt_encode fl (typed_dpt T) v = Inr bs \<and> length bs = typed_len T \<and>
           dpt_decode (typed_dpt T) bs = Inr v \<and> from_value T v = Inr x)) \<and>
     (\<forall>p. bind_res (dpt_decode (typed_dpt T) p) (from_value T) = typed_decode T p) \<and>
     (\<forall>p x. length p = typed_len T \<longrightarrow> regular p \<longrightarrow> typed_decode T p = Inr x \<longrightarrow>
        to_value T x = Inr (DvBytes (masked masks p)))"

context typed_value begin

lemma carries: "carried fl T masks regular"
  unfolding carried_def using value_sent [of _ _ fl] value_received value_forwarded by blast

end

text \<open>
  C18: Every structured datapoint type of the code carries its values: dates,
  dates with time, the three status types, the two metering types and the colour with a white
  channel. The masks name the bits of each format that carry a field; only three formats have octets
  that are read and cannot be written again as they are: a two-digit year above 99, a percentage above
  100 marked invalid, and a tariff of 255 marked invalid.
\<close>
theorem typed_values_carried:
  "carried fl date_typed [0x1F, 0x0F, 0x7F] (\<lambda>p. p ! 2 AND 0x7F < 100) \<and>
   carried fl datetime_typed [0xFF, 0x0F, 0x1F, 0xFF, 0x3F, 0x3F, 0xFF, 0xC0] (\<lambda>_. True) \<and>
   carried fl buc_typed [0xFF, 0x0F] (\<lambda>p. p ! 0 \<le> 100) \<and>
   carried fl act_typed [0xFF, 0x1F] (\<lambda>_. True) \<and>
   carried fl sla_typed [0xFF, 0xFF] (\<lambda>_. True) \<and>
   carried fl metering_typed [0xFF, 0xFF, 0xFF, 0xFF, 0xFF, 0x1F] (\<lambda>_. True) \<and>
   carried fl tariff_typed [0xFF, 0xFF, 0xFF, 0xFF, 0xFF, 0x03] (\<lambda>p. p ! 4 \<le> 254) \<and>
   carried fl rgbw_typed [0xFF, 0xFF, 0xFF, 0xFF, 0, 0x0F] (\<lambda>_. True)"
  by (intro conjI date.carries datetime.carries buc.carries act.carries sla.carries metering.carries tariff.carries rgbw.carries)

text \<open>A year octet above 99 is outside the range of the field, but is read as a year from 2000 to 2027.\<close>

lemma date_year_above_99:
  "date_decode [1, 1, 100] = Inr \<lparr>da_day = 1, da_month = 1, da_year = 2000\<rparr>"
  "date_encode \<lparr>da_day = 1, da_month = 1, da_year = 2000\<rparr> = Inr [1, 1, 0]"
  by (simp_all add: date_decode_def date_encode_def date_validate_def octets_def ensure_def Let_def)

context float_lib begin

lemma round_twice: "round fl (round fl v) = round fl v"
proof (cases v)
  case (Fin s a)
  have "\<lfloor>of_int n + 1 / 2 :: rat\<rfloor> = n" for n by linarith
  then show ?thesis using Fin by (simp add: round_Fin)
qed (simp_all add: round_def rounds round_away_def)

text \<open>Setting the percentage that was read changes nothing.\<close>

lemma percent_kept: "set_actual_percent fl (actual_percent s) s = Inr s"
proof -
  obtain a where a: "raw_to_percent (sla_actual_value s) = Fin False a" "f64_between 0 100 (Fin False a)"
    and u: "f64_to_u8 fl (round fl (f64_div (f64_mult (Fin False a) (f64_lit 255)) (f64_lit 100))) = Inr (sla_actual_value s)"
    using scaled_octet [of 100 "sla_actual_value s"] by (auto simp: raw_to_percent_def)
  let ?r = "round fl (f64_div (f64_mult (Fin False a) (f64_lit 255)) (f64_lit 100))"
  have "word_of_int (f64_to_int 0 255 ?r) = sla_actual_value s"
    using u by (simp add: f64_to_u8_def round_twice Let_def split: if_splits)
  then show ?thesis using a
    by (simp add: set_actual_percent_def actual_percent_def percent_to_raw_def ensure_def round_def del: f64_between.simps)
qed

end

end
