(* ===== verification/Prod_Registry.thy ===== *)
theory Prod_Registry
  imports Utf8 Address
begin

text \<open>
  The registry of the product hash (\<^verbatim>\<open>knx-rs-prod/src/hash.rs\<close>): which attributes of which elements
  of an application program contribute to the hash, under which short name and as which type. The
  three lists are the table of the code, in its order, cut for size. A text is the \<open>string\<close> of
  its octets.
\<close>

datatype KnxprodError = PeIo string string | PeXml string | PeZip string | PeMissingElement string
  | PeInvalidStructure string | PeSigning string | PeMasterData string | PeValidation string

text \<open>The constructors have the short names the table uses.\<close>

datatype AttrType = St | AP | Bo | U16 | U32 | I32 | I64 | By | Dbl

record AttrInfo =
  xml_name :: string
  short :: string
  attr_type :: AttrType
  attr_default :: "string option"

datatype ElementKind = Attrs "AttrInfo list" "string option" | InnerTextBase64 u8 | InnerTextUInt32 u8 | InnerTextString u8

record ElementInfo =
  el_kind :: ElementKind
  el_ordered :: bool

definition attr :: "string \<Rightarrow> string \<Rightarrow> AttrType \<Rightarrow> string option \<Rightarrow> AttrInfo" where
  "attr n s t d = \<lparr>xml_name = n, short = s, attr_type = t, attr_default = d\<rparr>"

definition el :: "AttrInfo list \<Rightarrow> ElementInfo" where
  "el as = \<lparr>el_kind = Attrs as None, el_ordered = False\<rparr>"

definition els :: "AttrInfo list \<Rightarrow> string \<Rightarrow> ElementInfo" where
  "els as sort_attr = \<lparr>el_kind = Attrs as (Some sort_attr), el_ordered = False\<rparr>"

definition elo :: "AttrInfo list \<Rightarrow> ElementInfo" where
  "elo as = \<lparr>el_kind = Attrs as None, el_ordered = True\<rparr>"

definition tag :: "char \<Rightarrow> u8" where "tag c = of_nat (of_char c)"

definition strt :: "u8 \<Rightarrow> ElementInfo" where
  "strt t = \<lparr>el_kind = InnerTextString t, el_ordered = False\<rparr>"

definition u32t :: "u8 \<Rightarrow> ElementInfo" where
  "u32t t = \<lparr>el_kind = InnerTextUInt32 t, el_ordered = False\<rparr>"

definition b64 :: "u8 \<Rightarrow> ElementInfo" where
  "b64 t = \<lparr>el_kind = InnerTextBase64 t, el_ordered = False\<rparr>"

definition registry_1 :: "(string \<times> ElementInfo) list" where
  "registry_1 =
    [(''ApplicationProgram'', els [attr ''AdditionalAddressesCount'' ''AAC'' I32 (Some ''0''),
        attr ''ApplicationNumber'' ''AN'' U16 None, attr ''ApplicationVersion'' ''AV'' By None,
        attr ''ConvertedFromPreEts4Data'' ''CVETS'' Bo (Some ''0''), attr ''DynamicTableManagement'' ''DTM'' Bo None,
        attr ''Id'' ''I'' AP None, attr ''IPConfig'' ''IP'' St (Some ''Tool''), attr ''IsSecureEnabled'' ''ISE'' Bo None,
        attr ''Linkable'' ''L'' Bo None, attr ''LoadProcedureStyle'' ''LPS'' St None,
        attr ''MaskVersion'' ''MV'' St None, attr ''MaxSecurityGroupKeyTableEntries'' ''MSGK'' U16 (Some ''0''),
        attr ''MaxSecurityIndividualAddressEntries'' ''MSIAE'' U16 (Some ''0''),
        attr ''MaxSecurityP2PKeyTableEntries'' ''MSP2'' U16 (Some ''0''),
        attr ''MaxSecurityProxyGroupKeyTableEntries'' ''MSPGK'' U16 (Some ''0''),
        attr ''MaxSecurityProxyIndividualAddressTableEntries'' ''MSPIA'' U16 (Some ''0''),
        attr ''MaxTunnelingUserEntries'' ''MTUE'' U16 (Some ''0''), attr ''MaxUserEntries'' ''MUE'' U16 (Some ''0''),
        attr ''OriginalManufacturer'' ''OEM'' St None, attr ''PeiType'' ''PT'' By None,
        attr ''PreEts4Style'' ''PES'' Bo (Some ''0''), attr ''ProgramType'' ''PrT'' St None,
        attr ''ReplacesVersions'' ''RV'' St None, attr ''TunnelingAddressIndices'' ''TAI'' St None] ''Id''),
     (''ComObjectRef'', els [attr ''Id'' ''I'' AP None, attr ''MayRead'' ''MR'' Bo (Some ''0''),
        attr ''ObjectSize'' ''S'' St None, attr ''ReadFlagLocked'' ''RFL'' Bo (Some ''0''),
        attr ''ReadOnInitFlagLocked'' ''ROIFL'' Bo (Some ''0''), attr ''RefId'' ''R'' AP None,
        attr ''TransmitFlagLocked'' ''TFL'' Bo (Some ''0''), attr ''UpdateFlagLocked'' ''UFL'' Bo (Some ''0''),
        attr ''WriteFlagLocked'' ''WFL'' Bo (Some ''0'')] ''Id''),
     (''AbsoluteSegment'', els [attr ''Address'' ''A'' U32 None, attr ''Id'' ''I'' AP None, attr ''Size'' ''S'' U32 None,
        attr ''UserMemory'' ''UM'' Bo (Some ''0'')] ''Id''),
     (''Data'', b64 (tag (CHR ''D''))),
     (''Mask'', b64 (tag (CHR ''M''))),
     (''AddressTable'', el [attr ''CodeSegment'' ''C'' AP None, attr ''MaxEntries'' ''ATM'' U32 None,
        attr ''Offset'' ''O'' U32 None]),
     (''LoadProcedure'', el [attr ''MergeId'' ''M'' By None]),
     (''LdCtrlConnect'', elo [attr ''AppliesTo'' ''AT'' St (Some ''auto'')]),
     (''LdCtrlCompareProp'', elo [attr ''AllowCachedValue'' ''ACV'' Bo (Some ''0''),
        attr ''AppliesTo'' ''AT'' St (Some ''auto''), attr ''Count'' ''C'' U16 (Some ''1''),
        attr ''InlineData'' ''D'' St None, attr ''Invert'' ''Inv'' Bo (Some ''0''), attr ''Mask'' ''M'' St None,
        attr ''ObjIdx'' ''I'' By None, attr ''ObjType'' ''T'' U16 None, attr ''Occurrence'' ''O'' By (Some ''0''),
        attr ''PropId'' ''P'' By None, attr ''Range'' ''R'' St None, attr ''RetryInterval'' ''RI'' U16 (Some ''0''),
        attr ''StartElement'' ''S'' U16 (Some ''1''), attr ''TimeOut'' ''TO'' U16 (Some ''0'')]),
     (''LdCtrlUnload'', elo [attr ''AppliesTo'' ''AT'' St (Some ''auto''), attr ''LsmIdx'' ''I'' By None,
        attr ''ObjType'' ''T'' U16 None, attr ''Occurrence'' ''O'' By (Some ''0'')]),
     (''LdCtrlAbsSegment'', elo [attr ''Access'' ''AC'' By None, attr ''Address'' ''A'' U16 None,
        attr ''AppliesTo'' ''AT'' St (Some ''auto''), attr ''LsmIdx'' ''I'' By None, attr ''MemType'' ''M'' By None,
        attr ''ObjType'' ''T'' U16 None, attr ''Occurrence'' ''O'' By (Some ''0''), attr ''SegFlags'' ''SF'' By None,
        attr ''SegType'' ''ST'' By None, attr ''Size'' ''S'' U32 None]),
     (''LdCtrlTaskSegment'', elo [attr ''Address'' ''A'' U16 None, attr ''AppliesTo'' ''AT'' St (Some ''auto''),
        attr ''LsmIdx'' ''I'' By None, attr ''ObjType'' ''T'' U16 None, attr ''Occurrence'' ''O'' By (Some ''0'')]),
     (''LdCtrlLoad'', elo [attr ''AppliesTo'' ''AT'' St (Some ''auto''), attr ''LsmIdx'' ''I'' By None,
        attr ''ObjType'' ''T'' U16 None, attr ''Occurrence'' ''O'' By (Some ''0'')]),
     (''LdCtrlLoadCompleted'', elo [attr ''AppliesTo'' ''AT'' St (Some ''auto''), attr ''LsmIdx'' ''I'' By None,
        attr ''ObjType'' ''T'' U16 None, attr ''Occurrence'' ''O'' By (Some ''0'')]),
     (''LdCtrlRestart'', elo [attr ''AppliesTo'' ''AT'' St (Some ''auto'')]),
     (''LdCtrlDisconnect'', elo [attr ''AppliesTo'' ''AT'' St (Some ''auto'')]),
     (''Options'', el [attr ''CustomerAdjustableParameters'' ''CAP'' St (Some ''0''),
        attr ''LegacyPatchManufacturerIdInTaskSegment'' ''LPMTS'' Bo (Some ''0''),
        attr ''LineCoupler0912NewProgrammingStyle'' ''L'' Bo (Some ''0''),
        attr ''MasterResetOnCRCMismatch'' ''MR'' Bo (Some ''0''),
        attr ''MaxRoutingApduLength'' ''MPAL'' U32 (Some ''0''), attr ''NotLoadable'' ''NL'' St None,
        attr ''SupportsExtendedMemoryServices'' ''SEMS'' Bo (Some ''0''),
        attr ''SupportsExtendedPropertyServices'' ''SEPS'' Bo (Some ''0''),
        attr ''SupportsIpSystemBroadcast'' ''SISB'' Bo (Some ''0'')]),
     (''ComObjectTable'', els [attr ''CodeSegment'' ''C'' AP None, attr ''Offset'' ''O'' U32 None] ''CodeSegment''),
     (''ComObject'', els [attr ''Id'' ''I'' AP None, attr ''MayRead'' ''MR'' Bo (Some ''0''),
        attr ''Number'' ''N'' U32 None, attr ''ReadFlagLocked'' ''RFL'' Bo (Some ''0''),
        attr ''ReadOnInitFlagLocked'' ''ROIFL'' Bo (Some ''0''), attr ''SecurityRequired'' ''SR'' St (Some ''None''),
        attr ''TransmitFlagLocked'' ''TFL'' Bo (Some ''0''), attr ''UpdateFlagLocked'' ''UFL'' Bo (Some ''0''),
        attr ''WriteFlagLocked'' ''WFL'' Bo (Some ''0'')] ''Id''),
     (''ParameterType'', els [attr ''Id'' ''I'' AP None, attr ''Name'' ''N'' St None] ''Id''),
     (''TypeNumber'', el [attr ''Increment'' ''I'' I64 (Some ''1''), attr ''maxInclusive'' ''max'' I64 None,
        attr ''minInclusive'' ''min'' I64 None, attr ''SizeInBit'' ''S'' By None, attr ''Type'' ''T'' St None]),
     (''TypeRestriction'', el [attr ''Base'' ''B'' St None, attr ''SizeInBit'' ''S'' U32 None]),
     (''Enumeration'', els [attr ''BinaryValue'' ''BV'' St None, attr ''Id'' ''I'' AP None,
        attr ''Value'' ''V'' U32 None] ''Id'')]"

definition registry_2 :: "(string \<times> ElementInfo) list" where
  "registry_2 =
    [(''ParameterRef'', els [attr ''CustomerAdjustable'' ''CA'' Bo (Some ''0''), attr ''Id'' ''I'' AP None,
        attr ''RefId'' ''R'' AP None, attr ''Value'' ''V'' St None] ''Id''),
     (''AssociationTable'', el [attr ''CodeSegment'' ''C'' AP None, attr ''MaxEntries'' ''ASM'' U32 None,
        attr ''Offset'' ''O'' U32 None]),
     (''Parameter'', els [attr ''BitOffset'' ''BO'' By (Some ''0''), attr ''CustomerAdjustable'' ''CA'' Bo (Some ''0''),
        attr ''DefaultUnionParameter'' ''DEF'' Bo (Some ''0''), attr ''Id'' ''I'' AP None,
        attr ''LegacyPatchAlways'' ''LPA'' Bo (Some ''0''), attr ''Offset'' ''O'' U32 (Some ''0''),
        attr ''ParameterType'' ''PT'' AP None, attr ''Value'' ''V'' St None] ''Id''),
     (''Memory'', els [attr ''BitOffset'' ''BO'' By None, attr ''CodeSegment'' ''C'' AP None,
        attr ''Offset'' ''O'' U32 None] ''CodeSegment''),
     (''ParameterBlock'', elo [attr ''Id'' ''I'' AP None, attr ''ParamRefId'' ''R'' AP None]),
     (''ParameterCalculation'', els [attr ''Id'' ''I'' AP None, attr ''Language'' ''L'' St None,
        attr ''LRTransformationFunc'' ''LRF'' St (Some ''1''),
        attr ''LRTransformationParameters'' ''LRP'' St (Some ''1''),
        attr ''RLTransformationFunc'' ''RLF'' St (Some ''1''),
        attr ''RLTransformationParameters'' ''RLP'' St (Some ''1'')] ''Id''),
     (''ComObjectRefRef'', elo [attr ''RefId'' ''R'' AP None]),
     (''ParameterRefRef'', elo [attr ''AliasName'' ''AN'' St None, attr ''RefId'' ''R'' AP None]),
     (''ParameterValidation'', els [attr ''Id'' ''I'' AP None, attr ''ValidationFunc'' ''VF'' St None,
        attr ''ValidationParameters'' ''VP'' St (Some ''0'')] ''Id''),
     (''When'', elo [attr ''default'' ''D'' Bo (Some ''0''), attr ''test'' ''T'' St None]),
     (''when'', elo [attr ''default'' ''D'' Bo (Some ''0''), attr ''test'' ''T'' St None]),
     (''ParameterSeparator'', elo [attr ''Id'' ''I'' AP None]),
     (''Choose'', elo [attr ''ParamRefId'' ''R'' AP None]),
     (''choose'', elo [attr ''ParamRefId'' ''R'' AP None]),
     (''RelativeSegment'', els [attr ''Id'' ''I'' AP None, attr ''LoadStateMachine'' ''LSM'' By None,
        attr ''Offset'' ''O'' U32 None, attr ''Size'' ''S'' U32 None] ''Id''),
     (''TypeFloat'', el [attr ''Encoding'' ''E'' St None, attr ''Increment'' ''I'' Dbl (Some ''1''),
        attr ''maxInclusive'' ''max'' Dbl None, attr ''minInclusive'' ''min'' Dbl None]),
     (''TypeText'', el [attr ''SizeInBit'' ''S'' U32 None]),
     (''TypeTime'', el [attr ''maxInclusive'' ''max'' I64 None, attr ''minInclusive'' ''min'' I64 None,
        attr ''SizeInBit'' ''S'' By None, attr ''Unit'' ''U'' St None]),
     (''TypeDate'', el [attr ''DisplayTheYear'' ''Y'' Bo (Some ''1''), attr ''Encoding'' ''E'' St None]),
     (''TypeIPAddress'', el [attr ''AddressType'' ''AT'' St None, attr ''Version'' ''V'' St (Some ''IPv4'')]),
     (''TypeColor'', el [attr ''Space'' ''S'' St None]),
     (''TypeRawData'', el [attr ''MaxSize'' ''M'' U32 None]),
     (''Property'', el [attr ''BitOffset'' ''BO'' By None, attr ''ObjectIndex'' ''OI'' By None,
        attr ''ObjectType'' ''OT'' U16 None, attr ''Occurrence'' ''OC'' By (Some ''0''), attr ''Offset'' ''O'' U32 None,
        attr ''PropertyId'' ''PID'' By None]),
     (''Offset'', u32t (tag (CHR ''O''))),
     (''Fixup'', el [attr ''CodeSegment'' ''C'' AP None, attr ''FunctionRef'' ''F'' St None]),
     (''OnError'', els [attr ''Cause'' ''C'' St None, attr ''Ignore'' ''I'' Bo (Some ''0'')] ''Cause''),
     (''SecurityRole'', els [attr ''Id'' ''I'' AP None, attr ''Mask'' ''M'' U16 None] ''Id''),
     (''BusInterface'', els [attr ''AccessType'' ''AT'' St None, attr ''AddressIndex'' ''AI'' U16 None,
        attr ''Id'' ''I'' AP None] ''Id''),
     (''Allocator'', el [attr ''maxInclusive'' ''MI'' I64 None, attr ''Name'' ''N'' St None,
        attr ''Start'' ''S'' I64 None]),
     (''Argument'', el [attr ''Alignment'' ''Ali'' U16 (Some ''1''), attr ''Allocates'' ''A'' I64 None,
        attr ''Name'' ''N'' St None]),
     (''Extension'', el []),
     (''ChannelIndependentBlock'', elo []),
     (''Channel'', elo [attr ''Id'' ''I'' AP None, attr ''Number'' ''N'' St None]),
     (''Rename'', elo [attr ''Id'' ''I'' AP None, attr ''RefId'' ''R'' AP None]),
     (''Assign'', elo [attr ''SourceParamRefRef'' ''S'' AP None, attr ''TargetParamRefRef'' ''T'' AP None,
        attr ''Value'' ''V'' St None]),
     (''BinaryDataRef'', elo [attr ''RefId'' ''R'' AP None]),
     (''Module'', elo [attr ''RefId'' ''R'' AP None]),
     (''Repeat'', elo [attr ''Count'' ''C'' U32 (Some ''0''), attr ''ParameterRefId'' ''PRID'' AP None]),
     (''NumericArg'', el [attr ''AllocatorRefId'' ''ARI'' AP None, attr ''BaseValue'' ''BV'' AP None,
        attr ''RefId'' ''R'' AP None, attr ''Value'' ''V'' I64 None]),
     (''TextArg'', el [attr ''RefId'' ''R'' AP None]),
     (''LdCtrlMaxLength'', elo [attr ''AppliesTo'' ''A'' St (Some ''auto''), attr ''LsmIdx'' ''I'' By None,
        attr ''ObjType'' ''T'' U16 None, attr ''Occurrence'' ''O'' By (Some ''0''), attr ''Size'' ''S'' U32 None]),
     (''LdCtrlRelSegment'', elo [attr ''AppliesTo'' ''AT'' St (Some ''auto''), attr ''Fill'' ''F'' By None,
        attr ''LsmIdx'' ''I'' By None, attr ''Mode'' ''M'' By None, attr ''ObjType'' ''T'' U16 None,
        attr ''Occurrence'' ''O'' By (Some ''0''), attr ''Size'' ''S'' U32 None]),
     (''LdCtrlTaskPtr'', elo [attr ''AppliesTo'' ''AT'' St (Some ''auto''), attr ''InitPtr'' ''IP'' U16 None,
        attr ''LsmIdx'' ''I'' By None, attr ''ObjType'' ''T'' U16 None, attr ''Occurrence'' ''O'' By (Some ''0''),
        attr ''SavePtr'' ''S'' U16 None, attr ''SerialPtr'' ''SP'' U16 None]),
     (''LdCtrlTaskCtrl1'', elo [attr ''Address'' ''A'' U16 None, attr ''AppliesTo'' ''AT'' St (Some ''auto''),
        attr ''Count'' ''C'' By None, attr ''LsmIdx'' ''I'' By None, attr ''ObjType'' ''T'' U16 None,
        attr ''Occurrence'' ''O'' By (Some ''0'')])]"

definition registry_3 :: "(string \<times> ElementInfo) list" where
  "registry_3 =
    [(''LdCtrlTaskCtrl2'', elo [attr ''Address'' ''A'' U16 None, attr ''AppliesTo'' ''AT'' St (Some ''auto''),
        attr ''Callback'' ''C'' U16 None, attr ''LsmIdx'' ''I'' By None, attr ''ObjType'' ''T'' U16 None,
        attr ''Occurrence'' ''O'' By (Some ''0''), attr ''Seg0'' ''S0'' U16 None, attr ''Seg1'' ''S1'' U16 None]),
     (''LdCtrlWriteProp'', elo [attr ''AppliesTo'' ''AT'' St (Some ''auto''), attr ''Count'' ''C'' U16 (Some ''1''),
        attr ''InlineData'' ''D'' St None, attr ''ObjIdx'' ''I'' By None, attr ''ObjType'' ''T'' U16 None,
        attr ''Occurrence'' ''O'' By (Some ''0''), attr ''PropId'' ''P'' By None,
        attr ''StartElement'' ''S'' U16 (Some ''1''), attr ''Verify'' ''V'' Bo None]),
     (''LdCtrlLoadImageProp'', elo [attr ''AppliesTo'' ''AT'' St (Some ''auto''), attr ''Count'' ''C'' U16 (Some ''1''),
        attr ''ObjIdx'' ''I'' By None, attr ''ObjType'' ''T'' U16 None, attr ''Occurrence'' ''O'' By (Some ''0''),
        attr ''PropId'' ''P'' By None, attr ''StartElement'' ''S'' U16 (Some ''1'')]),
     (''LdCtrlInvokeFunctionProp'', elo [attr ''AppliesTo'' ''AT'' St (Some ''auto''), attr ''InlineData'' ''D'' St None,
        attr ''ObjIdx'' ''I'' By None, attr ''ObjType'' ''T'' U16 None, attr ''Occurrence'' ''O'' By (Some ''0''),
        attr ''PropId'' ''P'' By None]),
     (''LdCtrlReadFunctionProp'', elo [attr ''AppliesTo'' ''AT'' St (Some ''auto''), attr ''ObjIdx'' ''I'' By None,
        attr ''ObjType'' ''T'' U16 None, attr ''Occurrence'' ''O'' By (Some ''0''), attr ''PropId'' ''P'' By None]),
     (''LdCtrlWriteMem'', elo [attr ''Address'' ''A'' U32 None, attr ''AddressSpace'' ''AS'' St (Some ''Standard''),
        attr ''AppliesTo'' ''AT'' St (Some ''auto''), attr ''InlineData'' ''D'' St None, attr ''Size'' ''S'' U32 None,
        attr ''Verify'' ''V'' Bo None]),
     (''LdCtrlCompareMem'', elo [attr ''Address'' ''A'' U32 None, attr ''AddressSpace'' ''AS'' St (Some ''Standard''),
        attr ''AllowCachedValue'' ''ACV'' Bo (Some ''0''), attr ''AppliesTo'' ''AT'' St (Some ''auto''),
        attr ''InlineData'' ''D'' St None, attr ''Invert'' ''Inv'' Bo (Some ''0''), attr ''Mask'' ''M'' St None,
        attr ''Range'' ''R'' St None, attr ''RetryInterval'' ''RI'' U16 (Some ''0''), attr ''Size'' ''S'' U32 None,
        attr ''TimeOut'' ''TO'' U16 (Some ''0'')]),
     (''LdCtrlLoadImageMem'', elo [attr ''Address'' ''A'' U32 None, attr ''AddressSpace'' ''AS'' St (Some ''Standard''),
        attr ''AppliesTo'' ''AT'' St (Some ''auto''), attr ''Size'' ''S'' U32 None]),
     (''LdCtrlWriteRelMem'', elo [attr ''AppliesTo'' ''AT'' St (Some ''auto''), attr ''InlineData'' ''D'' St None,
        attr ''ObjIdx'' ''I'' By None, attr ''ObjType'' ''T'' U16 None, attr ''Occurrence'' ''O'' By (Some ''0''),
        attr ''Offset'' ''O'' U32 None, attr ''Size'' ''S'' U32 None, attr ''Verify'' ''V'' Bo None]),
     (''LdCtrlCompareRelMem'', elo [attr ''AllowCachedValue'' ''ACV'' Bo (Some ''0''),
        attr ''AppliesTo'' ''AT'' St (Some ''auto''), attr ''InlineData'' ''D'' St None,
        attr ''Invert'' ''Inv'' Bo (Some ''0''), attr ''Mask'' ''M'' St None, attr ''ObjIdx'' ''I'' By None,
        attr ''ObjType'' ''T'' U16 None, attr ''Occurrence'' ''O'' By (Some ''0''), attr ''Offset'' ''O'' U32 None,
        attr ''Range'' ''R'' St None, attr ''RetryInterval'' ''RI'' U16 (Some ''0''), attr ''Size'' ''S'' U32 None,
        attr ''TimeOut'' ''TO'' U16 (Some ''0'')]),
     (''LdCtrlLoadImageRelMem'', elo [attr ''AppliesTo'' ''AT'' St (Some ''auto''), attr ''ObjIdx'' ''I'' By None,
        attr ''ObjType'' ''T'' U16 None, attr ''Occurrence'' ''O'' By (Some ''0''), attr ''Offset'' ''O'' U32 None,
        attr ''Size'' ''S'' U32 None]),
     (''LdCtrlMasterReset'', elo [attr ''AppliesTo'' ''AT'' St (Some ''auto''), attr ''ChannelNumber'' ''CN'' By None,
        attr ''EraseCode'' ''EC'' By None]),
     (''LdCtrlDelay'', elo [attr ''AppliesTo'' ''AT'' St (Some ''auto''), attr ''MilliSeconds'' ''M'' U16 None]),
     (''LdCtrlSetControlVariable'', elo [attr ''AppliesTo'' ''AT'' St (Some ''auto''), attr ''Name'' ''N'' St None,
        attr ''Value'' ''V'' Bo None]),
     (''LdCtrlMapError'', elo [attr ''AppliesTo'' ''AT'' St (Some ''auto''), attr ''LdCtrlFilter'' ''L'' By (Some ''0''),
        attr ''MappedError'' ''M'' U32 None, attr ''OriginalError'' ''O'' U32 None]),
     (''LdCtrlProgressText'', elo [attr ''AppliesTo'' ''AT'' St (Some ''auto'')]),
     (''LdCtrlDeclarePropDesc'', elo [attr ''AppliesTo'' ''AT'' St (Some ''auto''), attr ''LsmIdx'' ''I'' By None,
        attr ''MaxElements'' ''M'' U16 None, attr ''ObjType'' ''T'' U16 None, attr ''Occurrence'' ''O'' By (Some ''0''),
        attr ''PropId'' ''P'' By None, attr ''PropType'' ''PT'' St None, attr ''ReadAccess'' ''R'' By None,
        attr ''Writable'' ''W'' Bo None, attr ''WriteAccess'' ''WA'' By None]),
     (''LdCtrlClearLCFilterTable'', elo [attr ''AppliesTo'' ''AT'' St (Some ''auto''),
        attr ''UseFunctionProp'' ''U'' Bo (Some ''0'')]),
     (''LdCtrlClearCachedObjectTypes'', elo [attr ''AppliesTo'' ''A'' St (Some ''auto'')]),
     (''LdCtrlMerge'', elo [attr ''AppliesTo'' ''AT'' St (Some ''auto''), attr ''MergeId'' ''M'' By None]),
     (''RLTransformation'', strt (tag (CHR ''R''))),
     (''LRTransformation'', strt (tag (CHR ''L''))),
     (''Script'', strt (tag (CHR ''S''))),
     (''Manufacturer'', el [attr ''RefId'' ''R'' St None])]"

definition REGISTRY_ORDER :: "(string \<times> ElementInfo) list" where
  "REGISTRY_ORDER = registry_1 @ registry_2 @ registry_3"

text \<open>A hash map of the table: a later entry of a name replaces an earlier one.\<close>

type_synonym registry = "string \<Rightarrow> ElementInfo option"

definition build_registry :: registry where
  "build_registry = map_of (rev REGISTRY_ORDER)"

end
