(* ===== verification/Prod_Hash.thy ===== *)
theory Prod_Hash
  imports Prod_Registry Float64 "HOL-Library.Sorting_Algorithms" "HOL-Library.List_Lexorder" "HOL-Library.Char_ord"
begin

text \<open>
  The hash of an application program (\<^verbatim>\<open>knx-rs-prod/src/hash.rs\<close>): the octets each attribute
  contributes, the traversal of the XML events with the sorting of siblings, and the digest. The XML
  reader is a list of the events it delivers; the digest, base64, entity unescaping and the table of
  upper-case characters are the record \<open>HashLib\<close>. The two functions that call each other count down
  a fuel; it is enough when it exceeds the number of events.
\<close>

record HashLib =
  md5 :: "u8 list \<Rightarrow> u8 list"
  b64_encode :: "u8 list \<Rightarrow> string"
  b64_decode :: "string \<Rightarrow> string + u8 list"
  xml_unescape :: "string \<Rightarrow> string option"
  char_is_uppercase :: "u32 \<Rightarrow> bool"

section \<open>Texts\<close>

definition str_octets :: "string \<Rightarrow> u8 list" where
  "str_octets s = map (\<lambda>c. of_nat (of_char c)) s"

definition str_chars :: "string \<Rightarrow> u32 list" where
  "str_chars s = (case utf8_decode (str_octets s) of Some cs \<Rightarrow> cs | None \<Rightarrow> [])"

definition chars_str :: "u32 list \<Rightarrow> string" where
  "chars_str cs = map (\<lambda>b. char_of (unat b)) (utf8_encode cs)"

definition char_is_whitespace :: "u32 \<Rightarrow> bool" where
  "char_is_whitespace c \<longleftrightarrow> 0x09 \<le> c \<and> c \<le> 0x0D \<or> 0x2000 \<le> c \<and> c \<le> 0x200A \<or>
     c \<in> set [0x20, 0x85, 0xA0, 0x1680, 0x2028, 0x2029, 0x202F, 0x205F, 0x3000]"

definition str_trim :: "string \<Rightarrow> string" where
  "str_trim s = chars_str (rev (dropWhile char_is_whitespace (rev (dropWhile char_is_whitespace (str_chars s)))))"

definition starts_with :: "string \<Rightarrow> string \<Rightarrow> bool" where
  "starts_with pat s \<longleftrightarrow> take (length pat) s = pat"

fun str_find :: "string \<Rightarrow> string \<Rightarrow> nat option" where
  "str_find pat s = (if starts_with pat s then Some 0 else case s of [] \<Rightarrow> None | _ # r \<Rightarrow> map_option Suc (str_find pat r))"

declare str_find.simps [simp del]

definition is_char_boundary :: "string \<Rightarrow> nat \<Rightarrow> bool" where
  "is_char_boundary s i \<longleftrightarrow> i = 0 \<or> i = length s \<or> i < length s \<and> \<not> continuation (of_char (s ! i))"

text \<open>\<open>replace("\r\n", "\n").replace('\r', "\n")\<close>\<close>

definition CR :: char where "CR = CHR 0x0D"
definition LF :: char where "LF = CHR 0x0A"

fun replace_crlf :: "string \<Rightarrow> string" where
  "replace_crlf (a # b # s) = (if a = CR \<and> b = LF then LF # replace_crlf s else a # replace_crlf (b # s))"
| "replace_crlf s = s"

definition normalize_lines :: "string \<Rightarrow> string" where
  "normalize_lines s = map (\<lambda>c. if c = CR then LF else c) (replace_crlf s)"

definition lower_ascii :: "char \<Rightarrow> char" where
  "lower_ascii c = (if of_char c \<ge> (65 :: nat) \<and> of_char c \<le> (90 :: nat) then char_of (of_char c + 32 :: nat) else c)"

definition eq_ignore_ascii_case :: "string \<Rightarrow> string \<Rightarrow> bool" where
  "eq_ignore_ascii_case s t \<longleftrightarrow> map lower_ascii s = map lower_ascii t"

text \<open>\<open>str::parse\<close> of a signed integer and of a binary64 number, as its bits.\<close>

definition parse_int :: "nat \<Rightarrow> string \<Rightarrow> int option" where
  "parse_int mx s = (case s of
     c # cs \<Rightarrow> if c = CHR ''-'' then (if cs = [] then None else map_option (\<lambda>n. - int n) (parse_digits (Suc mx) 0 cs))
                else map_option int (parse_uint mx s)
   | [] \<Rightarrow> None)"

definition digits_value :: "string \<Rightarrow> nat" where
  "digits_value ds = foldl (\<lambda>acc c. acc * 10 + (of_char c - 48)) 0 ds"

definition parse_exponent :: "string \<Rightarrow> int option" where
  "parse_exponent s = (case s of [] \<Rightarrow> Some 0
   | c # r \<Rightarrow> if c = CHR ''e'' \<or> c = CHR ''E'' then
       (let (neg, ds) = (case r of d # ds \<Rightarrow> if d = CHR ''-'' then (True, ds) else if d = CHR ''+'' then (False, ds) else (False, r) | [] \<Rightarrow> (False, []))
        in if ds = [] \<or> \<not> list_all is_digit ds then None else Some (if neg then - int (digits_value ds) else int (digits_value ds)))
     else None)"

definition parse_decimal :: "string \<Rightarrow> rat option" where
  "parse_decimal s =
     (let ip = takeWhile is_digit s; r = dropWhile is_digit s;
          (fp, r) = (case r of c # q \<Rightarrow> if c = CHR ''.'' then (takeWhile is_digit q, dropWhile is_digit q) else ([], r) | [] \<Rightarrow> ([], []))
      in if ip = [] \<and> fp = [] then None
         else map_option (\<lambda>e. of_nat (digits_value (ip @ fp)) * 10 powi (e - int (length fp))) (parse_exponent r))"

definition f64_to_bits :: "bool \<Rightarrow> f64 \<Rightarrow> u64" where
  "f64_to_bits neg v = (case v of Nan \<Rightarrow> word_of_int (of_bool neg * 2 ^ 63 + 4095 * 2 ^ 51)
     | Inf s \<Rightarrow> word_of_int (of_bool s * 2 ^ 63 + 2047 * 2 ^ 52)
     | Fin s a \<Rightarrow>
         if a = 0 then word_of_int (of_bool s * 2 ^ 63)
         else let e = max (ilog2 a) (- 1022); m = \<lfloor>a * 2 powi (52 - e)\<rfloor>
           in word_of_int (of_bool s * 2 ^ 63 + (if m < 2 ^ 52 then m else (e + 1023) * 2 ^ 52 + (m - 2 ^ 52))))"

definition parse_f64 :: "string \<Rightarrow> u64 option" where
  "parse_f64 s =
     (let (neg, r) = (case s of c # cs \<Rightarrow> if c = CHR ''-'' then (True, cs) else if c = CHR ''+'' then (False, cs) else (False, s) | [] \<Rightarrow> (False, []))
      in if r = [] then None
         else case parse_decimal r of Some x \<Rightarrow> Some (f64_to_bits neg (mk64 neg x))
         | None \<Rightarrow>
             if eq_ignore_ascii_case r ''inf'' \<or> eq_ignore_ascii_case r ''infinity'' then Some (f64_to_bits neg (Inf neg))
             else if eq_ignore_ascii_case r ''nan'' then Some (f64_to_bits neg Nan) else None)"

section \<open>What an attribute contributes\<close>

text \<open>The writers append to a buffer; here they return what they append.\<close>

definition NULL_SENTINEL :: string where "NULL_SENTINEL = ''$<null>$''"

fun write_varint :: "nat \<Rightarrow> u8 list" where
  "write_varint value =
     (let byte = of_nat (value mod 128); rest = value div 128
      in if rest \<noteq> 0 then (byte OR 0x80) # write_varint rest else [byte])"

declare write_varint.simps [simp del]

definition write_string :: "string \<Rightarrow> u8 list" where
  "write_string s = write_varint (length s) @ str_octets s"

definition write_bool :: "bool \<Rightarrow> u8 list" where "write_bool v = [of_bool v]"
definition write_byte :: "u8 \<Rightarrow> u8 list" where "write_byte v = [v]"
definition write_u16 :: "u16 \<Rightarrow> u8 list" where "write_u16 v = [ucast v, ucast (drop_bit 8 v)]"
definition write_u32 :: "u32 \<Rightarrow> u8 list" where "write_u32 v = to_le32 v"
definition write_i64 :: "u64 \<Rightarrow> u8 list" where
  "write_i64 v = map (\<lambda>i. ucast (drop_bit (8 * i) v)) [0 ..< 8]"

fun nth_dash :: "nat \<Rightarrow> string \<Rightarrow> nat option" where
  "nth_dash n [] = None"
| "nth_dash n (c # cs) =
     (if c = CHR ''-'' then (if n = 1 then Some 0 else map_option Suc (nth_dash (n - 1) cs)) else map_option Suc (nth_dash n cs))"

definition normalize_appl_prog_id :: "string \<Rightarrow> string" where
  "normalize_appl_prog_id ident = (case str_find ''_A-'' ident of None \<Rightarrow> ident
   | Some a_pos \<Rightarrow> (case nth_dash 2 (drop (a_pos + 3) ident) of None \<Rightarrow> ident
     | Some i \<Rightarrow> let fp_start = a_pos + 3 + i; fp_end = fp_start + 5
         in if fp_end \<le> length ident \<and> is_char_boundary ident fp_end then take fp_start ident @ drop fp_end ident else ident))"

definition write_attr :: "AttrInfo \<Rightarrow> string option \<Rightarrow> KnxprodError + u8 list" where
  "write_attr info raw =
     (let raw = (case raw of Some s \<Rightarrow> if s = [] then None else Some s | None \<Rightarrow> None);
          effective = (case raw of Some s \<Rightarrow> Some s | None \<Rightarrow> attr_default info);
          invalid = (\<lambda>v. PeInvalidStructure (''unparseable '' @ short info @ '': '' @ v))
      in map_sum id (\<lambda>bytes. write_string (short info) @ bytes)
        (case effective of None \<Rightarrow> Inr (write_string NULL_SENTINEL)
         | Some v \<Rightarrow> (case attr_type info of
             St \<Rightarrow> Inr (write_string v)
           | AP \<Rightarrow> Inr (write_string (normalize_appl_prog_id v))
           | Bo \<Rightarrow> Inr (write_bool (v = ''1'' \<or> eq_ignore_ascii_case v ''true''))
           | U16 \<Rightarrow> ok_or (map_option (\<lambda>n. write_u16 (of_nat n)) (parse_uint 65535 v)) (invalid v)
           | U32 \<Rightarrow> ok_or (map_option (\<lambda>n. write_u32 (of_nat n)) (parse_uint 4294967295 v)) (invalid v)
           | I32 \<Rightarrow> ok_or (map_option (\<lambda>n. write_u32 (word_of_int n)) (parse_int 2147483647 v)) (invalid v)
           | I64 \<Rightarrow> ok_or (map_option (\<lambda>n. write_i64 (word_of_int n)) (parse_int 9223372036854775807 v)) (invalid v)
           | By \<Rightarrow> ok_or (map_option (\<lambda>n. write_byte (of_nat n)) (parse_uint 255 v)) (invalid v)
           | Dbl \<Rightarrow> ok_or (map_option write_i64 (parse_f64 v)) (invalid v))))"

section \<open>The order of siblings\<close>

text \<open>
  Siblings that keep their order come first, in document order; the others follow, sorted by key.
  Keys are compared without case first, by the weights of their characters, then by case.
\<close>

datatype SortKey = Ordered int | Sorted string

definition DOTNET_PRIMARY :: "nat list" where
  "DOTNET_PRIMARY =
    [0, 0, 0, 0, 0, 0, 0, 0, 0, 0, 0, 0, 0, 0, 0, 0,
     0, 0, 0, 0, 0, 0, 0, 0, 0, 0, 0, 0, 0, 0, 0, 0,
     1, 7, 11, 23, 33, 24, 22, 10, 12, 13, 19, 27, 4, 3, 9, 20,
     34, 35, 36, 37, 38, 39, 40, 41, 42, 43, 6, 5, 28, 29, 30, 8,
     18, 44, 45, 46, 47, 48, 49, 50, 51, 52, 53, 54, 55, 56, 57, 58,
     59, 60, 61, 62, 63, 64, 65, 66, 67, 68, 69, 14, 21, 15, 26, 2,
     25, 44, 45, 46, 47, 48, 49, 50, 51, 52, 53, 54, 55, 56, 57, 58,
     59, 60, 61, 62, 63, 64, 65, 66, 67, 68, 69, 16, 31, 17, 32, 0]"

definition base_letter :: "u32 \<Rightarrow> char option" where
  "base_letter c =
     (if 0xE0 \<le> c \<and> c \<le> 0xE5 \<or> c = 0xE6 \<or> 0xC0 \<le> c \<and> c \<le> 0xC5 \<or> c = 0xC6 then Some (CHR ''a'')
      else if 0xE8 \<le> c \<and> c \<le> 0xEB \<or> 0xC8 \<le> c \<and> c \<le> 0xCB then Some (CHR ''e'')
      else if 0xEC \<le> c \<and> c \<le> 0xEF \<or> 0xCC \<le> c \<and> c \<le> 0xCF then Some (CHR ''i'')
      else if 0xF2 \<le> c \<and> c \<le> 0xF6 \<or> 0xD2 \<le> c \<and> c \<le> 0xD6 then Some (CHR ''o'')
      else if 0xF9 \<le> c \<and> c \<le> 0xFC \<or> 0xD9 \<le> c \<and> c \<le> 0xDC then Some (CHR ''u'')
      else if c = 0xF1 \<or> c = 0xD1 then Some (CHR ''n'')
      else if c = 0xDF then Some (CHR ''s'')
      else if c = 0xFD \<or> c = 0xFF \<or> c = 0xDD then Some (CHR ''y'')
      else None)"

definition char_primary_weight :: "u32 \<Rightarrow> u16" where
  "char_primary_weight c =
     (if c < 128 then of_nat (DOTNET_PRIMARY ! unat c)
      else case base_letter c of Some b \<Rightarrow> of_nat (DOTNET_PRIMARY ! of_char b) | None \<Rightarrow> 0x100 + min (ucast c) 0xFEFF)"

text \<open>\<open>Iterator::cmp\<close>\<close>

definition iter_cmp :: "'a::linorder list \<Rightarrow> 'a list \<Rightarrow> comp" where
  "iter_cmp xs ys = (if xs < ys then Less else if xs = ys then Equiv else Greater)"

definition primary_weights :: "string \<Rightarrow> u16 list" where
  "primary_weights s = map char_primary_weight (str_chars s)"

definition case_weights :: "HashLib \<Rightarrow> string \<Rightarrow> u8 list" where
  "case_weights lib s = map (\<lambda>c. of_bool (char_is_uppercase lib c)) (str_chars s)"

definition cmp_invariant :: "HashLib \<Rightarrow> string \<Rightarrow> string \<Rightarrow> comp" where
  "cmp_invariant lib a b =
     (let primary = iter_cmp (primary_weights a) (primary_weights b)
      in if primary \<noteq> Equiv then primary else iter_cmp (case_weights lib a) (case_weights lib b))"

fun sort_key_cmp :: "HashLib \<Rightarrow> SortKey \<Rightarrow> SortKey \<Rightarrow> comp" where
  "sort_key_cmp lib (Ordered a) (Ordered b) = (if a < b then Less else if a = b then Equiv else Greater)"
| "sort_key_cmp lib (Sorted a) (Sorted b) = cmp_invariant lib a b"
| "sort_key_cmp lib (Ordered _) (Sorted _) = Less"
| "sort_key_cmp lib (Sorted _) (Ordered _) = Greater"

text \<open>The comparison is that of a linear preorder, as the sorting of the library demands.\<close>

definition sort_rank :: "HashLib \<Rightarrow> SortKey \<Rightarrow> bool \<times> int \<times> u16 list \<times> u8 list" where
  "sort_rank lib k = (case k of Ordered n \<Rightarrow> (False, n, [], []) | Sorted s \<Rightarrow> (True, 0, primary_weights s, case_weights lib s))"

lemma compare_default: "compare default x y = (if x < y then Less else if x = y then Equiv else Greater)"
  by transfer auto

lemma iter_cmp_default: "iter_cmp = compare default"
  by (simp add: iter_cmp_def fun_eq_iff compare_default)

lemma sort_key_cmp_rank:
  "sort_key_cmp lib = compare (key (sort_rank lib) (prod_lex default (prod_lex default (prod_lex default default))))"
proof (intro ext)
  show "sort_key_cmp lib j k = compare (key (sort_rank lib) (prod_lex default (prod_lex default (prod_lex default default)))) j k" for j k
  proof -
    show ?thesis
      by (cases j; cases k) (simp_all add: sort_rank_def compare_prod_lex_apply cmp_invariant_def iter_cmp_default compare_default Let_def)
  qed
qed

lift_definition sort_key_order :: "HashLib \<Rightarrow> SortKey comparator" is sort_key_cmp
  unfolding sort_key_cmp_rank using compare by blast

section \<open>The XML events\<close>

text \<open>
  What the XML reader delivers. Names are local names; the attributes of a start tag are those the
  reader accepts, with their normalised values, in document order. At the end it delivers \<open>Eof\<close>.
\<close>

datatype event = Start string "(string \<times> string) list" | Empty string "(string \<times> string) list" | End
  | Text string | CData string | GeneralRef string | Eof | Other

type_synonym reader = "(string + event) list"

definition decode_entity :: "string \<Rightarrow> string" where
  "decode_entity entity =
     (if entity = ''lt'' then ''<'' else if entity = ''gt'' then ''>'' else if entity = ''amp'' then ''&''
      else if entity = ''apos'' then [CHR 0x27] else if entity = ''quot'' then [CHR 0x22] else [])"

definition text_of :: "HashLib \<Rightarrow> string \<Rightarrow> string" where
  "text_of lib raw = normalize_lines (case xml_unescape lib raw of Some u \<Rightarrow> u | None \<Rightarrow> [])"

definition write_collected_text :: "HashLib \<Rightarrow> ElementKind \<Rightarrow> string \<Rightarrow> KnxprodError + u8 list" where
  "write_collected_text lib kind text =
     (let trimmed = str_trim text
      in if trimmed = [] then Inr []
         else case kind of
           InnerTextBase64 _ \<Rightarrow> map_sum (\<lambda>e. PeInvalidStructure (''invalid base64 inner text: '' @ e)) id (b64_decode lib trimmed)
         | InnerTextUInt32 _ \<Rightarrow> Inr (write_string text)
         | InnerTextString _ \<Rightarrow> Inr (write_string text)
         | Attrs _ _ \<Rightarrow> Inr [])"

text \<open>The result is the text's octets, the depth and the rest of the events; the callers ignore the depth.\<close>

fun collect_remaining_text :: "HashLib \<Rightarrow> ElementKind \<Rightarrow> string \<Rightarrow> reader \<Rightarrow> KnxprodError + u8 list \<times> int \<times> reader" where
  "collect_remaining_text lib kind buf [] = map_sum id (\<lambda>bytes. (bytes, 0, [])) (write_collected_text lib kind buf)"
| "collect_remaining_text lib kind buf (Inl e # rd) = Inl (PeXml e)"
| "collect_remaining_text lib kind buf (Inr ev # rd) =
     (case ev of Text raw \<Rightarrow> collect_remaining_text lib kind (buf @ text_of lib raw) rd
      | CData raw \<Rightarrow> collect_remaining_text lib kind (buf @ normalize_lines raw) rd
      | GeneralRef r \<Rightarrow> collect_remaining_text lib kind (buf @ decode_entity r) rd
      | _ \<Rightarrow> map_sum id (\<lambda>bytes. (bytes, 0, rd)) (write_collected_text lib kind buf))"

definition text_found :: "HashLib \<Rightarrow> ElementKind \<Rightarrow> int \<Rightarrow> string \<Rightarrow> reader \<Rightarrow> KnxprodError + u8 list \<times> int \<times> reader" where
  "text_found lib kind depth text rd =
     (if 0 < depth then map_sum id (\<lambda>bytes. (bytes, depth, rd)) (write_collected_text lib kind text)
      else collect_remaining_text lib kind text rd)"

fun scan_for_inner_text :: "HashLib \<Rightarrow> ElementKind \<Rightarrow> int \<Rightarrow> reader \<Rightarrow> KnxprodError + u8 list \<times> int \<times> reader" where
  "scan_for_inner_text lib kind depth [] = Inr ([], 0, [])"
| "scan_for_inner_text lib kind depth (Inl e # rd) = Inl (PeXml e)"
| "scan_for_inner_text lib kind depth (Inr ev # rd) =
     (case ev of Start _ _ \<Rightarrow> scan_for_inner_text lib kind (depth + 1) rd
      | End \<Rightarrow> scan_for_inner_text lib kind (depth - 1) rd
      | Text raw \<Rightarrow>
          if str_trim (text_of lib raw) = [] then scan_for_inner_text lib kind depth rd
          else text_found lib kind depth (text_of lib raw) rd
      | CData raw \<Rightarrow>
          if str_trim (normalize_lines raw) = [] then scan_for_inner_text lib kind depth rd
          else text_found lib kind depth (normalize_lines raw) rd
      | GeneralRef r \<Rightarrow>
          if decode_entity r \<noteq> [] then text_found lib kind depth (decode_entity r) rd
          else scan_for_inner_text lib kind depth rd
      | Eof \<Rightarrow> Inr ([], 0, rd)
      | _ \<Rightarrow> scan_for_inner_text lib kind depth rd)"

section \<open>Elements\<close>

fun write_attrs :: "AttrInfo list \<Rightarrow> (string \<Rightarrow> string option) \<Rightarrow> KnxprodError + u8 list" where
  "write_attrs [] attr_map = Inr []"
| "write_attrs (info # infos) attr_map =
     bind_res (write_attr info (attr_map (xml_name info))) (\<lambda>bytes.
     bind_res (write_attrs infos attr_map) (\<lambda>more. Inr (bytes @ more)))"

definition serialize_registry_attrs ::
  "ElementInfo \<Rightarrow> (string \<times> string) list \<Rightarrow> KnxprodError + u8 list \<times> string option \<times> bool"
where
  "serialize_registry_attrs info attributes = (case el_kind info of
     Attrs attrs sort_attr_name \<Rightarrow>
       let attr_map = map_of (rev attributes);
           sort_key = map_option normalize_appl_prog_id (Option.bind sort_attr_name attr_map)
       in bind_res (write_attrs attrs attr_map) (\<lambda>buf. Inr (buf, sort_key, el_ordered info))
   | InnerTextUInt32 t \<Rightarrow> Inr ([t], None, False)
   | InnerTextString t \<Rightarrow> Inr ([t], None, False)
   | InnerTextBase64 t \<Rightarrow> Inr ([t], None, False))"

record GenResult =
  g_bytes :: "u8 list"
  g_order_key :: "string option"
  g_order_is_relevant :: bool

text \<open>The end of \<open>process_element\<close>: the digest of the octets is the key of an element without one.\<close>

definition gen_result :: "HashLib \<Rightarrow> u8 list \<Rightarrow> string option \<Rightarrow> bool \<Rightarrow> GenResult" where
  "gen_result lib stream order_key relevant =
     \<lparr>g_bytes = stream,
      g_order_key = (if order_key = None \<and> stream \<noteq> [] then Some (b64_encode lib (md5 lib stream)) else order_key),
      g_order_is_relevant = relevant\<rparr>"

fun is_inner :: "ElementKind \<Rightarrow> bool" where
  "is_inner (Attrs _ _) = False" | "is_inner _ = True"

definition order_relevant :: "bool \<Rightarrow> string \<Rightarrow> string \<Rightarrow> bool" where
  "order_relevant is_ordered name parent_name \<longleftrightarrow>
     is_ordered \<and> \<not> (name = ''ParameterRefRef'' \<and> (parent_name = ''LParameters'' \<or> parent_name = ''RParameters''))"

definition add_child :: "GenResult \<Rightarrow> int \<times> (SortKey \<times> u8 list) list \<Rightarrow> int \<times> (SortKey \<times> u8 list) list" where
  "add_child result acc = (case acc of (counter, entries) \<Rightarrow> (case g_order_key result of None \<Rightarrow> (counter, entries)
   | Some k \<Rightarrow> if g_order_is_relevant result then (counter + 1, entries @ [(Ordered counter, g_bytes result)])
               else (counter, entries @ [(Sorted k, g_bytes result)])))"

definition sorted_octets :: "HashLib \<Rightarrow> (SortKey \<times> u8 list) list \<Rightarrow> u8 list" where
  "sorted_octets lib entries = concat (map snd (Sorting_Algorithms.sort (key fst (sort_key_order lib)) entries))"

fun process_element :: "HashLib \<Rightarrow> registry \<Rightarrow> nat \<Rightarrow> reader \<Rightarrow> string \<Rightarrow> (string \<times> string) list \<Rightarrow> bool \<Rightarrow> string \<Rightarrow>
    (KnxprodError + GenResult \<times> reader) option"
  and children_loop :: "HashLib \<Rightarrow> registry \<Rightarrow> nat \<Rightarrow> reader \<Rightarrow> string \<Rightarrow> int \<times> (SortKey \<times> u8 list) list \<Rightarrow>
    (KnxprodError + u8 list \<times> reader) option"
where
  "process_element lib reg 0 rd name attributes is_empty parent_name = None"
| "process_element lib reg (Suc fuel) rd name attributes is_empty parent_name =
     (case reg name of
        Some info \<Rightarrow>
          (case serialize_registry_attrs info attributes of Inl e \<Rightarrow> Some (Inl e)
           | Inr (attr_bytes, sort_val, is_ordered) \<Rightarrow>
               map_option (map_sum id (\<lambda>(content, rd).
                   (gen_result lib (attr_bytes @ content) sort_val (order_relevant is_ordered name parent_name), rd)))
                 (if is_inner (el_kind info)
                  then Some (map_sum id (\<lambda>(content, depth, rd). (content, rd)) (scan_for_inner_text lib (el_kind info) 0 rd))
                  else if is_empty then Some (Inr ([], rd))
                  else children_loop lib reg fuel rd name (0, [])))
      | None \<Rightarrow>
          map_option (map_sum id (\<lambda>(content, rd). (gen_result lib content None False, rd)))
            (if is_empty then Some (Inr ([], rd)) else children_loop lib reg fuel rd name (0, [])))"
| "children_loop lib reg 0 rd parent_name acc = None"
| "children_loop lib reg (Suc fuel) [] parent_name acc = Some (Inr (sorted_octets lib (snd acc), []))"
| "children_loop lib reg (Suc fuel) (Inl e # rd) parent_name acc = Some (Inl (PeXml e))"
| "children_loop lib reg (Suc fuel) (Inr ev # rd) parent_name acc =
     (let element = (\<lambda>name attributes is_empty.
        (case process_element lib reg fuel rd name attributes is_empty parent_name of None \<Rightarrow> None
         | Some (Inl e) \<Rightarrow> Some (Inl e)
         | Some (Inr (result, rd)) \<Rightarrow> children_loop lib reg fuel rd parent_name (add_child result acc)))
      in case ev of Start name attributes \<Rightarrow> element name attributes False
         | Empty name attributes \<Rightarrow> element name attributes True
         | End \<Rightarrow> Some (Inr (sorted_octets lib (snd acc), rd))
         | Eof \<Rightarrow> Some (Inr (sorted_octets lib (snd acc), rd))
         | _ \<Rightarrow> children_loop lib reg fuel rd parent_name acc)"

definition read_children :: "HashLib \<Rightarrow> registry \<Rightarrow> nat \<Rightarrow> reader \<Rightarrow> string \<Rightarrow> (KnxprodError + u8 list \<times> reader) option" where
  "read_children lib reg fuel rd parent_name = children_loop lib reg fuel rd parent_name (0, [])"

fun serialize_app_program :: "HashLib \<Rightarrow> registry \<Rightarrow> reader \<Rightarrow> (KnxprodError + u8 list) option" where
  "serialize_app_program lib reg [] = Some (Inl (PeMissingElement ''ApplicationPrograms''))"
| "serialize_app_program lib reg (Inl e # rd) = Some (Inl (PeXml e))"
| "serialize_app_program lib reg (Inr ev # rd) =
     (case ev of Start name attributes \<Rightarrow>
        if name = ''ApplicationPrograms''
        then map_option (map_sum id fst) (read_children lib reg (2 * length rd + 1) rd ''ApplicationPrograms'')
        else serialize_app_program lib reg rd
      | Eof \<Rightarrow> Some (Inl (PeMissingElement ''ApplicationPrograms''))
      | _ \<Rightarrow> serialize_app_program lib reg rd)"

section \<open>The hash\<close>

record AppProgramHash =
  aph_md5 :: "u8 list"
  aph_fingerprint :: u16

definition hash_application_program :: "HashLib \<Rightarrow> reader \<Rightarrow> (KnxprodError + AppProgramHash) option" where
  "hash_application_program lib xml =
     map_option (map_sum id (\<lambda>bytes. let digest = md5 lib bytes
        in \<lparr>aph_md5 = digest, aph_fingerprint = push_bit 8 (ucast (digest ! 0)) OR ucast (digest ! 15)\<rparr>))
       (serialize_app_program lib build_registry xml)"

definition hex_upper :: "nat \<Rightarrow> char" where "hex_upper n = ''0123456789ABCDEF'' ! n"
definition hex_lower :: "nat \<Rightarrow> char" where "hex_lower n = ''0123456789abcdef'' ! n"

definition fingerprint_hex :: "AppProgramHash \<Rightarrow> string" where
  "fingerprint_hex h = (let n = unat (aph_fingerprint h)
     in map hex_upper [n div 4096 mod 16, n div 256 mod 16, n div 16 mod 16, n mod 16])"

definition hash_base64 :: "HashLib \<Rightarrow> AppProgramHash \<Rightarrow> string" where
  "hash_base64 lib h = b64_encode lib (aph_md5 h)"

definition md5_hex :: "AppProgramHash \<Rightarrow> string" where
  "md5_hex h = concat (map (\<lambda>b. [hex_lower (unat b div 16), hex_lower (unat b mod 16)]) (aph_md5 h))"

section \<open>The fuel suffices\<close>

lemma map_sum_right: "map_sum id f m = Inr y \<longleftrightarrow> (\<exists>x. m = Inr x \<and> y = f x)"
  by (cases m) auto

lemma collected_rest: "collect_remaining_text lib kind buf rd = Inr (bytes, depth, rd') \<Longrightarrow> length rd' \<le> length rd"
  by (induction lib kind buf rd rule: collect_remaining_text.induct)
     (auto split: event.splits simp: le_SucI map_sum_right)

lemma scanned_rest: "scan_for_inner_text lib kind depth rd = Inr (bytes, d, rd') \<Longrightarrow> length rd' \<le> length rd"
  by (induction lib kind depth rd rule: scan_for_inner_text.induct)
     (auto split: event.splits if_splits simp: le_SucI text_found_def map_sum_right dest: collected_rest)

end
