(* ===== verification/Prod_Tree.thy ===== *)
theory Prod_Tree
  imports Prod_Hash
begin

text \<open>
  What the product hash depends on. The traversal of the events is compared with a function on the
  tree of elements: the streaming code computes for the events of a tree what the function computes
  for the tree. On the tree it is seen that the order of siblings without an order does not matter,
  nor do the fingerprints in the identifiers, which are derived from the hash.
\<close>

section \<open>The traversal ends\<close>








section \<open>The tree\<close>

text \<open>
  The content of an element of inner text: blank pieces, comments among them, then the text, which
  the reader delivers in pieces.
\<close>

fun blank_piece :: "HashLib \<Rightarrow> event \<Rightarrow> bool" where
  "blank_piece lib (Text raw) \<longleftrightarrow> str_trim (text_of lib raw) = []"
| "blank_piece lib (CData raw) \<longleftrightarrow> str_trim (normalize_lines raw) = []"
| "blank_piece lib (GeneralRef r) \<longleftrightarrow> decode_entity r = []"
| "blank_piece lib Other \<longleftrightarrow> True"
| "blank_piece lib _ \<longleftrightarrow> False"

fun text_piece :: "event \<Rightarrow> bool" where
  "text_piece (Text _) \<longleftrightarrow> True" | "text_piece (CData _) \<longleftrightarrow> True" | "text_piece (GeneralRef _) \<longleftrightarrow> True"
| "text_piece _ \<longleftrightarrow> False"

fun piece_text :: "HashLib \<Rightarrow> event \<Rightarrow> string" where
  "piece_text lib (Text raw) = text_of lib raw"
| "piece_text lib (CData raw) = normalize_lines raw"
| "piece_text lib (GeneralRef r) = decode_entity r"
| "piece_text lib _ = []"

definition inner_text :: "HashLib \<Rightarrow> event list \<Rightarrow> string" where
  "inner_text lib ps = concat (map (piece_text lib) (dropWhile (blank_piece lib) ps))"

text \<open>
  An element has children, or closes itself, or, where the registry says so, holds a text. Between
  the elements there is what the traversal passes over: white space and other text, comments,
  processing instructions.
\<close>

datatype xml =
    Elem string "(string \<times> string) list" "xml list"
  | Void string "(string \<times> string) list"
  | Leaf string "(string \<times> string) list" "event list"
  | Misc event

fun xml_events :: "xml \<Rightarrow> reader" where
  "xml_events (Elem n as cs) = Inr (Start n as) # concat (map xml_events cs) @ [Inr End]"
| "xml_events (Void n as) = [Inr (Empty n as)]"
| "xml_events (Leaf n as ps) = Inr (Start n as) # map Inr ps @ [Inr End]"
| "xml_events (Misc ev) = [Inr ev]"

definition inner_element :: "registry \<Rightarrow> string \<Rightarrow> bool" where
  "inner_element reg n \<longleftrightarrow> (case reg n of Some info \<Rightarrow> is_inner (el_kind info) | None \<Rightarrow> False)"

text \<open>
  What is excluded is an element of inner text that has none: the code reads on behind it
  (\<open>empty_text_runs_on\<close> below).
\<close>

fun xml_ok :: "HashLib \<Rightarrow> registry \<Rightarrow> xml \<Rightarrow> bool" where
  "xml_ok lib reg (Elem n as cs) \<longleftrightarrow> \<not> inner_element reg n \<and> list_all (xml_ok lib reg) cs"
| "xml_ok lib reg (Void n as) \<longleftrightarrow> \<not> inner_element reg n"
| "xml_ok lib reg (Leaf n as ps) \<longleftrightarrow> inner_element reg n \<and>
     (let rest = dropWhile (blank_piece lib) ps in rest \<noteq> [] \<and> list_all text_piece rest)"
| "xml_ok lib reg (Misc ev) \<longleftrightarrow> text_piece ev \<or> ev = Other"

fun collect_res :: "('e + 'a) list \<Rightarrow> 'e + 'a list" where
  "collect_res [] = Inr []"
| "collect_res (r # rs) = bind_res r (\<lambda>x. map_sum id ((#) x) (collect_res rs))"

definition arrange :: "HashLib \<Rightarrow> GenResult list \<Rightarrow> u8 list" where
  "arrange lib rs = sorted_octets lib (snd (fold add_child rs (0, [])))"

definition element_result ::
  "HashLib \<Rightarrow> registry \<Rightarrow> string \<Rightarrow> string \<Rightarrow> (string \<times> string) list \<Rightarrow> (KnxprodError + u8 list) \<Rightarrow> KnxprodError + GenResult"
where
  "element_result lib reg p n as content = (case reg n of
     None \<Rightarrow> bind_res content (\<lambda>c. Inr (gen_result lib c None False))
   | Some info \<Rightarrow> bind_res (serialize_registry_attrs info as) (\<lambda>(attr_bytes, sort_val, is_ordered).
       bind_res content (\<lambda>c. Inr (gen_result lib (attr_bytes @ c) sort_val (order_relevant is_ordered n p)))))"

fun tree_result :: "HashLib \<Rightarrow> registry \<Rightarrow> string \<Rightarrow> xml \<Rightarrow> KnxprodError + GenResult" where
  "tree_result lib reg p (Elem n as cs) =
     element_result lib reg p n as (map_sum id (arrange lib) (collect_res (map (tree_result lib reg n) cs)))"
| "tree_result lib reg p (Void n as) = element_result lib reg p n as (Inr [])"
| "tree_result lib reg p (Leaf n as ps) =
     element_result lib reg p n as
       (write_collected_text lib (case reg n of Some info \<Rightarrow> el_kind info | None \<Rightarrow> Attrs [] None) (inner_text lib ps))"
| "tree_result lib reg p (Misc ev) = Inr (gen_result lib [] None False)"

fun xml_head :: "xml \<Rightarrow> string \<times> (string \<times> string) list" where
  "xml_head (Elem n as cs) = (n, as)" | "xml_head (Void n as) = (n, as)" | "xml_head (Leaf n as ps) = (n, as)"
| "xml_head (Misc ev) = ([], [])"

fun is_void :: "xml \<Rightarrow> bool" where "is_void (Void n as) = True" | "is_void _ = False"
fun is_misc :: "xml \<Rightarrow> bool" where "is_misc (Misc ev) = True" | "is_misc _ = False"

definition first_event :: "xml \<Rightarrow> event" where
  "first_event t = (if is_void t then Empty else Start) (fst (xml_head t)) (snd (xml_head t))"

lemma xml_events_Cons: "\<not> is_misc t \<Longrightarrow> xml_events t = Inr (first_event t) # tl (xml_events t)"
  by (cases t) (simp_all add: first_event_def)

lemma collected_pieces: "list_all text_piece ps \<Longrightarrow>
    collect_remaining_text lib kind buf (map Inr ps @ Inr End # rest) =
      map_sum id (\<lambda>bytes. (bytes, 0, rest)) (write_collected_text lib kind (buf @ concat (map (piece_text lib) ps)))"
proof (induction ps arbitrary: buf)
  case (Cons e ps)
  then show ?case by (cases e) simp_all
qed simp

lemma scanned_pieces: "dropWhile (blank_piece lib) ps \<noteq> [] \<Longrightarrow> list_all text_piece (dropWhile (blank_piece lib) ps) \<Longrightarrow>
    scan_for_inner_text lib kind 0 (map Inr ps @ Inr End # rest) =
      map_sum id (\<lambda>bytes. (bytes, 0, rest)) (write_collected_text lib kind (inner_text lib ps))"
proof (induction ps)
  case (Cons e ps)
  then show ?case by (cases e) (auto simp: inner_text_def text_found_def collected_pieces id_def split: if_splits)
qed simp

definition streamed :: "HashLib \<Rightarrow> registry \<Rightarrow> xml \<Rightarrow> bool" where
  "streamed lib reg t \<longleftrightarrow> (\<forall>rest p fuel. 2 * length (tl (xml_events t) @ rest) + 1 < fuel \<longrightarrow>
     process_element lib reg fuel (tl (xml_events t) @ rest) (fst (xml_head t)) (snd (xml_head t)) (is_void t) p =
       Some (map_sum id (\<lambda>r. (r, rest)) (tree_result lib reg p t)))"

lemma misc_skipped:
  assumes "xml_ok lib reg (Misc ev)"
  shows "children_loop lib reg (Suc fuel) (xml_events (Misc ev) @ rd) p acc = children_loop lib reg fuel rd p acc"
    and "add_child (gen_result lib [] None False) acc = acc"
  using assms by (cases ev; simp) (cases acc; simp add: add_child_def gen_result_def)

lemma children_streamed:
  assumes "\<forall>c\<in>set cs. xml_ok lib reg c \<and> (is_misc c \<or> streamed lib reg c)" and "2 * length (concat (map xml_events cs) @ Inr End # rest) < fuel"
  shows "children_loop lib reg fuel (concat (map xml_events cs) @ Inr End # rest) p acc =
    Some (map_sum id (\<lambda>rs. (sorted_octets lib (snd (fold add_child rs acc)), rest)) (collect_res (map (tree_result lib reg p) cs)))"
  using assms
proof (induction cs arbitrary: fuel acc)
  case Nil
  then obtain f where "fuel = Suc f" by (cases fuel) simp_all
  then show ?case by simp
next
  case (Cons c cs)
  let ?more = "concat (map xml_events cs) @ Inr End # rest" and ?body = "tl (xml_events c)"
  obtain f where f: "fuel = Suc f" using Cons.prems by (cases fuel) simp_all
  show ?case
  proof (cases "is_misc c")
    case True
    then obtain ev where ev: "c = Misc ev" by (cases c) simp_all
    have "2 * length ?more < f" using Cons.prems(2) f ev by simp
    note ih = Cons.IH [OF _ this, of acc]
    have eq: "concat (map xml_events (c # cs)) @ Inr End # rest = xml_events (Misc ev) @ ?more" using ev by simp
    have ok: "xml_ok lib reg (Misc ev)" using Cons.prems(1) ev by simp
    show ?thesis
      unfolding f eq misc_skipped(1) [OF ok] using ih Cons.prems(1) misc_skipped(2) [OF ok, of acc] ev
      by (cases "collect_res (map (tree_result lib reg p) cs)") simp_all
  next
    case False
    note split = xml_events_Cons [OF False]
    have len: "length (xml_events c) = Suc (length ?body)" using split by (metis length_Cons)
    then have enough: "2 * length (?body @ ?more) + 1 < f" "2 * length ?more < f" using Cons.prems(2) f by simp_all
    have p: "process_element lib reg f (?body @ ?more) (fst (xml_head c)) (snd (xml_head c)) (is_void c) p =
        Some (map_sum id (\<lambda>r. (r, ?more)) (tree_result lib reg p c))"
      using Cons.prems(1) False enough(1) unfolding streamed_def by simp
    note ih = Cons.IH [OF _ enough(2)]
    have eq: "concat (map xml_events (c # cs)) @ Inr End # rest = Inr (first_event c) # ?body @ ?more"
      by (subst list.map) (subst concat.simps, subst split, simp)
    show ?thesis
      unfolding f eq first_event_def using p ih Cons.prems(1)
      by (cases "is_void c"; cases "tree_result lib reg p c"; cases "collect_res (map (tree_result lib reg p) cs)") simp_all
  qed
qed

lemma tree_streamed: "xml_ok lib reg t \<Longrightarrow> is_misc t \<or> streamed lib reg t"
proof (induction t)
  case (Elem n as cs)
  then have cs: "\<forall>c\<in>set cs. xml_ok lib reg c \<and> (is_misc c \<or> streamed lib reg c)" by (simp add: list_all_iff)
  have "streamed lib reg (Elem n as cs)"
    unfolding streamed_def
  proof (intro allI impI)
    fix rest p and fuel :: nat
    assume *: "2 * length (tl (xml_events (Elem n as cs)) @ rest) + 1 < fuel"
    obtain f where f: "fuel = Suc f" using * by (cases fuel) simp_all
    note loop = children_streamed [OF cs, of rest f n "(0, [])"]
    show "process_element lib reg fuel (tl (xml_events (Elem n as cs)) @ rest) (fst (xml_head (Elem n as cs)))
        (snd (xml_head (Elem n as cs))) (is_void (Elem n as cs)) p = Some (map_sum id (\<lambda>r. (r, rest)) (tree_result lib reg p (Elem n as cs)))"
      using * Elem.prems loop unfolding f
      by (cases "collect_res (map (tree_result lib reg n) cs)")
        (auto simp: element_result_def arrange_def inner_element_def split: option.splits sum.splits)
  qed
  then show ?case by simp
next
  case (Void n as)
  have "process_element lib reg (Suc f) rest n as True p = Some (map_sum id (\<lambda>r. (r, rest)) (tree_result lib reg p (Void n as)))" for f rest p
    using Void by (auto simp: element_result_def inner_element_def split: option.splits sum.splits)
  then have "process_element lib reg fuel rest n as True p = Some (map_sum id (\<lambda>r. (r, rest)) (tree_result lib reg p (Void n as)))" if "0 < fuel" for fuel rest p
    using that by (cases fuel) (simp_all only: less_irrefl)
  then have "streamed lib reg (Void n as)" unfolding streamed_def by (simp del: process_element.simps tree_result.simps)
  then show ?case by simp
next
  case (Leaf n as ps)
  then obtain info where info: "reg n = Some info" "is_inner (el_kind info)" by (auto simp: inner_element_def split: option.splits)
  have "process_element lib reg (Suc f) (map Inr ps @ Inr End # rest) n as False p =
      Some (map_sum id (\<lambda>r. (r, rest)) (tree_result lib reg p (Leaf n as ps)))" for f rest p
    using Leaf info by (cases "write_collected_text lib (el_kind info) (inner_text lib ps)")
      (auto simp: element_result_def scanned_pieces Let_def split: option.splits sum.splits)
  then have "process_element lib reg fuel (map Inr ps @ Inr End # rest) n as False p =
      Some (map_sum id (\<lambda>r. (r, rest)) (tree_result lib reg p (Leaf n as ps)))" if "0 < fuel" for fuel rest p
    using that by (cases fuel) (simp_all only: less_irrefl)
  then have "streamed lib reg (Leaf n as ps)" unfolding streamed_def by (simp del: process_element.simps tree_result.simps)
  then show ?case by simp
qed simp

text \<open>
  An element of inner text without one takes the text of the element behind it: the end tag lowers
  the depth, the start tag of the sibling raises it to zero again, and there the text is taken as the
  element's own. The sibling itself contributes nothing.
\<close>

lemma empty_text_runs_on:
  assumes "reg n = Some info" and "is_inner (el_kind info)" and "str_trim (text_of lib t) \<noteq> []"
  shows "process_element lib reg (Suc f) (Inr End # xml_events (Leaf m as' [Text t]) @ rest) n as False p =
    process_element lib reg (Suc f) (map Inr [Text t] @ Inr End # rest) n as False p"
proof -
  have "scan_for_inner_text lib (el_kind info) 0 (Inr End # xml_events (Leaf m as' [Text t]) @ rest) =
      scan_for_inner_text lib (el_kind info) 0 (map Inr [Text t] @ Inr End # rest)"
    using assms(3) by (simp add: text_found_def)
  then show ?thesis unfolding process_element.simps assms(1) option.case using assms(2) by (simp only: if_True)
qed

section \<open>The document\<close>

definition preamble :: "(string + event) \<Rightarrow> bool" where
  "preamble e \<longleftrightarrow> (case e of Inl _ \<Rightarrow> False | Inr Eof \<Rightarrow> False | Inr (Start n _) \<Rightarrow> n \<noteq> ''ApplicationPrograms'' | _ \<Rightarrow> True)"

definition document_octets :: "HashLib \<Rightarrow> registry \<Rightarrow> xml list \<Rightarrow> KnxprodError + u8 list" where
  "document_octets lib reg programs =
     map_sum id (arrange lib) (collect_res (map (tree_result lib reg ''ApplicationPrograms'') programs))"

lemma serialize_tree:
  assumes "list_all preamble pre" and "list_all (xml_ok lib reg) programs"
  shows "serialize_app_program lib reg (pre @ xml_events (Elem ''ApplicationPrograms'' as programs) @ post) =
    Some (document_octets lib reg programs)"
  using assms(1)
proof (induction pre)
  case Nil
  let ?rd = "concat (map xml_events programs) @ Inr End # post"
  have "children_loop lib reg (2 * length ?rd + 1) ?rd ''ApplicationPrograms'' (0, []) =
      Some (map_sum id (\<lambda>rs. (arrange lib rs, post)) (collect_res (map (tree_result lib reg ''ApplicationPrograms'') programs)))"
    using assms(2) by (subst children_streamed) (auto simp: list_all_iff arrange_def dest: tree_streamed)
  then show ?case
    by (cases "collect_res (map (tree_result lib reg ''ApplicationPrograms'') programs)")
      (simp_all add: read_children_def document_octets_def del: children_loop.simps)
next
  case (Cons e pre)
  then show ?case by (cases e) (auto simp: preamble_def split: event.splits)
qed

section \<open>The order of siblings\<close>

fun entries :: "int \<Rightarrow> GenResult list \<Rightarrow> (SortKey \<times> u8 list) list" where
  "entries n [] = []"
| "entries n (r # rs) = (case g_order_key r of None \<Rightarrow> entries n rs
     | Some k \<Rightarrow> if g_order_is_relevant r then (Ordered n, g_bytes r) # entries (n + 1) rs else (Sorted k, g_bytes r) # entries n rs)"

lemma fold_entries: "snd (fold add_child rs (n, es)) = es @ entries n rs"
  by (induction rs arbitrary: n es) (simp_all add: add_child_def split: option.splits)

definition unordered_entry :: "GenResult \<Rightarrow> (SortKey \<times> u8 list) option" where
  "unordered_entry r = map_option (\<lambda>k. (Sorted k, g_bytes r)) (g_order_key r)"

lemma mset_map_filter: "mset xs = mset ys \<Longrightarrow> mset (List.map_filter f xs) = mset (List.map_filter f ys)"
  by (simp add: map_filter_def)

lemma mset_entries: "mset (entries n rs) =
    mset (entries n (filter g_order_is_relevant rs)) + mset (List.map_filter unordered_entry (filter (\<lambda>r. \<not> g_order_is_relevant r) rs))"
  by (induction rs arbitrary: n) (simp_all add: unordered_entry_def map_filter_simps split: option.splits)

lemma ordered_entry: "(Ordered i, b) \<in> set (entries n rs) \<Longrightarrow> n \<le> i"
  by (induction rs arbitrary: n) (fastforce split: option.splits if_splits)+

lemma ordered_entry_unique: "(Ordered i, b) \<in> set (entries n rs) \<Longrightarrow> (Ordered i, b') \<in> set (entries n rs) \<Longrightarrow> b = b'"
proof (induction rs arbitrary: n)
  case (Cons r rs)
  have "n + 1 \<le> i" if "(Ordered i, c) \<in> set (entries (n + 1) rs)" for c using that by (rule ordered_entry)
  then have new: "(Ordered n, c) \<notin> set (entries (n + 1) rs)" if "i = n" for c using that by fastforce
  show ?case using Cons.prems Cons.IH [of n] Cons.IH [of "n + 1"] new by (auto split: option.splits if_splits)
qed simp

lemma sorted_entry: "(Sorted k, b) \<in> set (entries n rs) \<Longrightarrow> \<exists>r\<in>set rs. \<not> g_order_is_relevant r \<and> g_order_key r = Some k \<and> g_bytes r = b"
  by (induction rs arbitrary: n) (auto split: option.splits if_splits)

text \<open>No two siblings are sorted by keys that compare equal, but for equal siblings.\<close>

definition clash_free :: "HashLib \<Rightarrow> GenResult list \<Rightarrow> bool" where
  "clash_free lib rs \<longleftrightarrow> (\<forall>r\<in>set rs. \<forall>r'\<in>set rs. \<forall>k k'.
     \<not> g_order_is_relevant r \<longrightarrow> \<not> g_order_is_relevant r' \<longrightarrow> g_order_key r = Some k \<longrightarrow> g_order_key r' = Some k' \<longrightarrow>
     cmp_invariant lib k k' = Equiv \<longrightarrow> k = k' \<and> g_bytes r = g_bytes r')"

lemma compare_sort_key: "compare (sort_key_order lib) = sort_key_cmp lib"
  by (simp add: sort_key_order.rep_eq)

lemma equivalent_entries:
  assumes "clash_free lib rs" and "e \<in> set (entries n rs)" and "e' \<in> set (entries n rs)"
    and "compare (key fst (sort_key_order lib)) e e' = Equiv"
  shows "e = e'"
proof -
  obtain k b k' b' where e: "e = (k, b)" "e' = (k', b')" by (cases e; cases e')
  have c: "sort_key_cmp lib k k' = Equiv" using assms(4) e by (simp add: compare_sort_key)
  show ?thesis
  proof (cases k)
    case (Ordered i)
    then have "k' = Ordered i" using c by (cases k') (simp_all split: if_splits)
    then show ?thesis using ordered_entry_unique [of i b n rs b'] assms(2,3) e Ordered by simp
  next
    case (Sorted s)
    then obtain s' where s': "k' = Sorted s'" using c by (cases k') simp_all
    obtain r where r: "r \<in> set rs" "\<not> g_order_is_relevant r" "g_order_key r = Some s" "g_bytes r = b"
      using sorted_entry assms(2) e Sorted by blast
    obtain r' where r': "r' \<in> set rs" "\<not> g_order_is_relevant r'" "g_order_key r' = Some s'" "g_bytes r' = b'"
      using sorted_entry assms(3) e s' by blast
    have "cmp_invariant lib s s' = Equiv" using c Sorted s' by simp
    then have "s = s' \<and> g_bytes r = g_bytes r'"
      using assms(1) r(1-3) r'(1-3) unfolding clash_free_def by blast
    then show ?thesis using e Sorted s' r(4) r'(4) by simp
  qed
qed

lemma sort_permuted:
  assumes "mset xs = mset ys" and "\<And>x y. x \<in> set xs \<Longrightarrow> y \<in> set xs \<Longrightarrow> compare cmp x y = Equiv \<Longrightarrow> x = y"
  shows "Sorting_Algorithms.sort cmp xs = Sorting_Algorithms.sort cmp ys"
proof (rule sort_eqI)
  show "mset xs = mset (Sorting_Algorithms.sort cmp ys)" using assms(1) by simp
  show "Sorting_Algorithms.sorted cmp (Sorting_Algorithms.sort cmp ys)" by simp
  fix y assume y: "y \<in> set xs"
  have refl: "compare cmp y y = Equiv" by simp
  have seg: "stable_segment cmp y zs = replicate (count (mset zs) y) y" if "set zs = set xs" for zs
  proof -
    have "filter (\<lambda>x. compare cmp y x = Equiv) zs = filter (\<lambda>x. y = x) zs"
      by (rule filter_cong [OF HOL.refl]) (use that y assms(2) refl in blast)
    then show ?thesis by (simp only: filter_eq_replicate_mset [symmetric] replicate_count_mset_eq_filter_eq)
  qed
  have "set ys = set xs" using assms(1) by (rule mset_eq_setD [symmetric])
  then show "stable_segment cmp y xs = stable_segment cmp y (Sorting_Algorithms.sort cmp ys)"
    unfolding stable_sort by (simp only: seg [of xs] seg [of ys] assms(1))
qed

lemma arrange_permuted:
  assumes "clash_free lib rs" and "filter g_order_is_relevant rs = filter g_order_is_relevant rs'"
    and "mset (filter (\<lambda>r. \<not> g_order_is_relevant r) rs) = mset (filter (\<lambda>r. \<not> g_order_is_relevant r) rs')"
  shows "arrange lib rs = arrange lib rs'"
proof -
  have "mset (entries 0 rs) = mset (entries 0 rs')"
    unfolding mset_entries [of 0 rs] mset_entries [of 0 rs'] assms(2) mset_map_filter [OF assms(3)] by (rule refl)
  then have "Sorting_Algorithms.sort (key fst (sort_key_order lib)) (entries 0 rs) =
      Sorting_Algorithms.sort (key fst (sort_key_order lib)) (entries 0 rs')"
    by (rule sort_permuted) (rule equivalent_entries [OF assms(1)])
  then show ?thesis by (simp add: arrange_def fold_entries sorted_octets_def)
qed

fun keeps_place :: "registry \<Rightarrow> string \<Rightarrow> xml \<Rightarrow> bool" where
  "keeps_place reg p t = (\<not> is_misc t \<and> (case reg (fst (xml_head t)) of None \<Rightarrow> False
   | Some info \<Rightarrow> order_relevant (\<not> is_inner (el_kind info) \<and> el_ordered info) (fst (xml_head t)) p))"

lemma attrs_ordered:
  "serialize_registry_attrs info as = Inr (bs, k, ord) \<Longrightarrow> ord = (\<not> is_inner (el_kind info) \<and> el_ordered info)"
  by (cases "el_kind info") (auto simp: serialize_registry_attrs_def Let_def bind_res_Inr_iff)

lemma result_keeps_place: "tree_result lib reg p t = Inr r \<Longrightarrow> g_order_is_relevant r = keeps_place reg p t"
  by (cases t) (auto simp: element_result_def gen_result_def bind_res_Inr_iff order_relevant_def split: option.splits dest: attrs_ordered)

lemma collect_all: "(\<And>x. x \<in> set xs \<Longrightarrow> f x = Inr (g x)) \<Longrightarrow> collect_res (map f xs) = Inr (map g xs)"
  by (induction xs) simp_all

lemma filter_map_on: "(\<And>x. x \<in> set xs \<Longrightarrow> q (g x) = q' x) \<Longrightarrow> filter q (map g xs) = map g (filter q' xs)"
  by (induction xs) simp_all

lemma siblings_permuted:
  assumes "mset cs = mset cs'" and "filter (keeps_place reg n) cs = filter (keeps_place reg n) cs'"
    and res: "\<And>c. c \<in> set cs \<Longrightarrow> tree_result lib reg n c = Inr (g c)" and "clash_free lib (map g cs)"
  shows "tree_result lib reg p (Elem n as cs) = tree_result lib reg p (Elem n as cs')"
proof -
  have set: "set cs' = set cs" using assms(1) by (rule mset_eq_setD [symmetric])
  have all: "collect_res (map (tree_result lib reg n) cs) = Inr (map g cs)" "collect_res (map (tree_result lib reg n) cs') = Inr (map g cs')"
    using res set by (auto intro: collect_all)
  have place: "g_order_is_relevant (g c) = keeps_place reg n c" if "c \<in> set cs" for c
    using result_keeps_place [OF res [OF that]] .
  have "filter g_order_is_relevant (map g cs) = filter g_order_is_relevant (map g cs')"
    using filter_map_on [of cs g_order_is_relevant g "keeps_place reg n"] filter_map_on [of cs' g_order_is_relevant g "keeps_place reg n"]
      place set assms(2) by simp
  moreover have "mset (filter (\<lambda>r. \<not> g_order_is_relevant r) (map g cs)) = mset (filter (\<lambda>r. \<not> g_order_is_relevant r) (map g cs'))"
    using assms(1) by simp
  ultimately have "arrange lib (map g cs) = arrange lib (map g cs')"
    by (rule arrange_permuted [OF assms(4)])
  then show ?thesis by (simp only: tree_result.simps all map_sum.simps id_apply)
qed

section \<open>The fingerprint in the identifiers\<close>

text \<open>Two identifiers of an application program that differ in the fingerprint.\<close>

definition refinger :: "string \<Rightarrow> string \<Rightarrow> bool" where
  "refinger v v' \<longleftrightarrow> (\<exists>m a b fp fp' s.
     v = m @ ''_A-'' @ a @ ''-'' @ b @ ''-'' @ fp @ s \<and> v' = m @ ''_A-'' @ a @ ''-'' @ b @ ''-'' @ fp' @ s \<and>
     CHR ''_'' \<notin> set m \<and> CHR ''-'' \<notin> set a \<and> CHR ''-'' \<notin> set b \<and> length fp = 4 \<and> length fp' = 4 \<and>
     (s = [] \<or> \<not> continuation (of_char (hd s))))"

lemma find_program: "CHR ''_'' \<notin> set m \<Longrightarrow> str_find ''_A-'' (m @ ''_A-'' @ r) = Some (length m)"
proof (induction m)
  case Nil then show ?case by (simp add: str_find.simps [of _ "CHR ''_'' # _"] starts_with_def)
next
  case (Cons c m)
  then have "\<not> starts_with ''_A-'' ((c # m) @ ''_A-'' @ r)" by (auto simp: starts_with_def)
  then show ?case using Cons by (subst str_find.simps) simp
qed

lemma nth_dash_first: "CHR ''-'' \<notin> set b \<Longrightarrow> nth_dash 1 (b @ ''-'' @ r) = Some (length b)"
  by (induction b) auto

lemma nth_dash_second: "CHR ''-'' \<notin> set a \<Longrightarrow> CHR ''-'' \<notin> set b \<Longrightarrow>
    nth_dash 2 (a @ ''-'' @ b @ ''-'' @ r) = Some (length a + 1 + length b)"
  using nth_dash_first [of b r] by (induction a) auto

lemma normalized_id:
  assumes "CHR ''_'' \<notin> set m" "CHR ''-'' \<notin> set a" "CHR ''-'' \<notin> set b" "length fp = 4" "s = [] \<or> \<not> continuation (of_char (hd s))"
  shows "normalize_appl_prog_id (m @ ''_A-'' @ a @ ''-'' @ b @ ''-'' @ fp @ s) = m @ ''_A-'' @ a @ ''-'' @ b @ s"
proof -
  let ?v = "m @ ''_A-'' @ a @ ''-'' @ b @ ''-'' @ fp @ s" and ?i = "length m + 3 + (length a + 1 + length b)"
  have split: "?v = (m @ ''_A-'' @ a @ ''-'' @ b) @ (''-'' @ fp) @ s" "length (m @ ''_A-'' @ a @ ''-'' @ b) = ?i"
    "length (''-'' @ fp) = 5" using assms(4) by simp_all
  have start: "take ?i ?v = m @ ''_A-'' @ a @ ''-'' @ b" unfolding split(1) using split(2) by (metis append_eq_conv_conj)
  have "?v = ((m @ ''_A-'' @ a @ ''-'' @ b) @ (''-'' @ fp)) @ s" "length ((m @ ''_A-'' @ a @ ''-'' @ b) @ (''-'' @ fp)) = ?i + 5"
    using assms(4) by simp_all
  then have drop: "drop (?i + 5) ?v = s" by (metis append_eq_conv_conj)
  have len: "?i + 5 \<le> length ?v" "length ?v = ?i + 5 + length s" using assms(4) by simp_all
  have bound: "is_char_boundary ?v (?i + 5)"
  proof (cases s)
    case Nil then show ?thesis using len by (simp only: is_char_boundary_def) simp
  next
    case (Cons c s')
    have "?v ! (?i + 5) = hd s" using Cons drop len by (metis hd_drop_conv_nth length_Cons less_add_Suc1 add_Suc_right)
    then show ?thesis using assms(4,5) Cons by (simp only: is_char_boundary_def) simp
  qed
  have found: "str_find ''_A-'' ?v = Some (length m)" using assms(1) by (rule find_program)
  have rest: "drop (length m + 3) ?v = a @ ''-'' @ b @ ''-'' @ fp @ s" by simp
  show ?thesis
    unfolding normalize_appl_prog_id_def found option.case rest nth_dash_second [OF assms(2,3)] Let_def
    using start drop len(1) bound by (simp only: if_True simp_thms) simp
qed

lemma refinger_normalize: "refinger v v' \<Longrightarrow> normalize_appl_prog_id v = normalize_appl_prog_id v' \<and> v \<noteq> [] \<and> v' \<noteq> []"
  unfolding refinger_def
proof (elim exE conjE)
  fix m a b fp fp' s
  assume v: "v = m @ ''_A-'' @ a @ ''-'' @ b @ ''-'' @ fp @ s" "v' = m @ ''_A-'' @ a @ ''-'' @ b @ ''-'' @ fp' @ s"
    and parts: "CHR ''_'' \<notin> set m" "CHR ''-'' \<notin> set a" "CHR ''-'' \<notin> set b" "length fp = 4" "length fp' = 4"
      "s = [] \<or> \<not> continuation (of_char (hd s))"
  have "normalize_appl_prog_id v = normalize_appl_prog_id v'"
    unfolding v normalized_id [OF parts(1-4,6)] normalized_id [OF parts(1-3,5,6)] by (rule refl)
  then show ?thesis using v by simp
qed

text \<open>
  What two documents may differ in without an effect on the hash: the attributes outside the
  registry, and the fingerprint in an identifier.
\<close>

definition same_value :: "bool \<Rightarrow> string option \<Rightarrow> string option \<Rightarrow> bool" where
  "same_value program v v' \<longleftrightarrow> v = v' \<or> program \<and> (\<exists>w w'. v = Some w \<and> v' = Some w' \<and> refinger w w')"

definition same_attributes :: "registry \<Rightarrow> string \<Rightarrow> (string \<times> string) list \<Rightarrow> (string \<times> string) list \<Rightarrow> bool" where
  "same_attributes reg n as as' \<longleftrightarrow> (case reg n of None \<Rightarrow> True | Some info \<Rightarrow> (case el_kind info of
     Attrs attrs sort_attr \<Rightarrow>
       (\<forall>a\<in>set attrs. same_value (attr_type a = AP) (map_of (rev as) (xml_name a)) (map_of (rev as') (xml_name a))) \<and>
       (\<forall>s. sort_attr = Some s \<longrightarrow> same_value True (map_of (rev as) s) (map_of (rev as') s))
   | _ \<Rightarrow> True))"

inductive same_program :: "registry \<Rightarrow> xml \<Rightarrow> xml \<Rightarrow> bool" for reg where
  elem: "same_attributes reg n as as' \<Longrightarrow> list_all2 (same_program reg) cs cs' \<Longrightarrow> same_program reg (Elem n as cs) (Elem n as' cs')"
| void: "same_attributes reg n as as' \<Longrightarrow> same_program reg (Void n as) (Void n as')"
| leaf: "same_attributes reg n as as' \<Longrightarrow> same_program reg (Leaf n as ps) (Leaf n as' ps)"
| misc: "same_program reg (Misc ev) (Misc ev')"
  monos list_all2_mono

lemma same_write_attr: "same_value (attr_type a = AP) v v' \<Longrightarrow> write_attr a v = write_attr a v'"
  by (auto simp: same_value_def write_attr_def dest!: refinger_normalize)

lemma same_write_attrs:
  "\<forall>a\<in>set attrs. same_value (attr_type a = AP) (m (xml_name a)) (m' (xml_name a)) \<Longrightarrow> write_attrs attrs m = write_attrs attrs m'"
proof (induction attrs)
  case (Cons a attrs)
  then have "write_attr a (m (xml_name a)) = write_attr a (m' (xml_name a))" by (intro same_write_attr) simp
  then show ?case using Cons by simp
qed simp

lemma same_sort_value: "same_value True v v' \<Longrightarrow> map_option normalize_appl_prog_id v = map_option normalize_appl_prog_id v'"
  by (auto simp: same_value_def dest: refinger_normalize)

lemma same_registry_attrs:
  assumes "same_attributes reg n as as'" and "reg n = Some info"
  shows "serialize_registry_attrs info as = serialize_registry_attrs info as'"
proof (cases "el_kind info")
  case (Attrs attrs sort_attr)
  have "write_attrs attrs (map_of (rev as)) = write_attrs attrs (map_of (rev as'))"
    using assms Attrs by (intro same_write_attrs) (simp add: same_attributes_def)
  moreover have "map_option normalize_appl_prog_id (Option.bind sort_attr (map_of (rev as))) =
      map_option normalize_appl_prog_id (Option.bind sort_attr (map_of (rev as')))"
    using assms Attrs by (cases sort_attr) (auto simp: same_attributes_def intro: same_sort_value)
  ultimately show ?thesis using Attrs by (simp only: serialize_registry_attrs_def ElementKind.case Let_def)
qed (simp_all add: serialize_registry_attrs_def)

lemma same_element_result: "same_attributes reg n as as' \<Longrightarrow> element_result lib reg p n as c = element_result lib reg p n as' c"
  by (cases "reg n") (simp_all add: element_result_def same_registry_attrs)

lemma same_tree_result: "same_program reg t t' \<Longrightarrow> tree_result lib reg p t = tree_result lib reg p t'"
proof (induction arbitrary: p rule: same_program.induct)
  case (elem n as as' cs cs')
  have "map (tree_result lib reg n) cs = map (tree_result lib reg n) cs'"
    using elem.IH by (auto simp: list_all2_conv_all_nth intro: nth_equalityI)
  then show ?case using same_element_result [OF elem.hyps(1)] by (simp only: tree_result.simps)
qed (use same_element_result in \<open>simp_all only: tree_result.simps\<close>)

section \<open>What the hash depends on\<close>

text \<open>An example: a registry of two elements, a sorted and an ordered one.\<close>

definition sample_lib :: HashLib where
  "sample_lib = \<lparr>md5 = (\<lambda>_. replicate 16 0), b64_encode = (\<lambda>_. ''AAAA''), b64_decode = (\<lambda>_. Inr []),
     xml_unescape = Some, char_is_uppercase = (\<lambda>c. 65 \<le> c \<and> c \<le> 90)\<rparr>"

definition sample_registry :: registry where
  "sample_registry = [''Parameter'' \<mapsto> els [attr ''Id'' ''I'' AP None, attr ''Text'' ''T'' St None] ''Id'',
     ''Channel'' \<mapsto> elo [attr ''Name'' ''N'' St None], ''Script'' \<mapsto> strt 83]"




text \<open>An application program before and after signing, without further elements.\<close>

definition unsigned_program :: xml where
  "unsigned_program = Elem ''ApplicationProgram'' [(''Id'', ''M-00FA_A-0001-01-0000''), (''ApplicationNumber'', ''1'')] []"

definition signed_program :: xml where
  "signed_program = Elem ''ApplicationProgram''
     [(''Id'', ''M-00FA_A-0001-01-B17E''), (''ApplicationNumber'', ''1''), (''Hash'', ''AAAA'')] []"

text \<open>Three children of a channel: two sorted ones and one that keeps its place.\<close>

definition sample_p1 :: xml where "sample_p1 = Elem ''Parameter'' [(''Id'', ''P-1'')] []"
definition sample_p2 :: xml where "sample_p2 = Elem ''Parameter'' [(''Id'', ''P-2'')] []"
definition sample_channel :: xml where "sample_channel = Elem ''Channel'' [(''Name'', ''d'')] []"

definition sample_result :: "xml \<Rightarrow> GenResult" where
  "sample_result c = projr (tree_result sample_lib sample_registry ''Channel'' c)"

lemma sample_results:
  "tree_result sample_lib sample_registry ''Channel'' sample_p2 =
    Inr \<lparr>g_bytes = [1, 73, 3, 80, 45, 50, 1, 84, 8, 36, 60, 110, 117, 108, 108, 62, 36], g_order_key = Some ''P-2'', g_order_is_relevant = False\<rparr>"
  "tree_result sample_lib sample_registry ''Channel'' sample_p1 =
    Inr \<lparr>g_bytes = [1, 73, 3, 80, 45, 49, 1, 84, 8, 36, 60, 110, 117, 108, 108, 62, 36], g_order_key = Some ''P-1'', g_order_is_relevant = False\<rparr>"
  "tree_result sample_lib sample_registry ''Channel'' sample_channel =
    Inr \<lparr>g_bytes = [1, 78, 1, 100], g_order_key = Some ''AAAA'', g_order_is_relevant = True\<rparr>"
  by (code_simp)+

lemma sample_keeps:
  "keeps_place sample_registry ''Channel'' sample_p1 = False" "keeps_place sample_registry ''Channel'' sample_p2 = False"
  "keeps_place sample_registry ''Channel'' sample_channel = True"
  by code_simp+

lemma sample_compare:
  "cmp_invariant sample_lib ''P-1'' ''P-2'' = Less" "cmp_invariant sample_lib ''P-2'' ''P-1'' = Greater"
  by code_simp+

lemma map_of_rev_absent: "list_all (\<lambda>e. fst e \<noteq> n) xs \<Longrightarrow> map_of (rev xs) n = None"
  by (induction xs) (auto simp: map_add_def)

lemma registry_program: "build_registry ''ApplicationProgram'' = Some (snd (hd registry_1))"
proof -
  have "list_all (\<lambda>e. fst e \<noteq> ''ApplicationProgram'') registry_3" "list_all (\<lambda>e. fst e \<noteq> ''ApplicationProgram'') registry_2"
    "list_all (\<lambda>e. fst e \<noteq> ''ApplicationProgram'') (tl registry_1)"
    unfolding registry_1_def registry_2_def registry_3_def list.sel list.pred_inject fst_conv by simp_all
  note absent = this [THEN map_of_rev_absent]
  have first: "registry_1 = (''ApplicationProgram'', snd (hd registry_1)) # tl registry_1" by (simp add: registry_1_def)
  have "map_of (rev registry_1) ''ApplicationProgram'' = Some (snd (hd registry_1))"
    by (subst first) (use absent(3) in \<open>simp add: map_add_def\<close>)
  then show ?thesis using absent(1,2) by (simp add: build_registry_def REGISTRY_ORDER_def map_add_def)
qed

lemma signed_ok: "xml_ok lib build_registry unsigned_program" "xml_ok lib build_registry signed_program"
  by (simp_all add: unsigned_program_def signed_program_def registry_program registry_1_def els_def inner_element_def)

lemma signed_same: "same_program build_registry unsigned_program signed_program"
proof -
  have "refinger ''M-00FA_A-0001-01-0000'' ''M-00FA_A-0001-01-B17E''"
    unfolding refinger_def
    by (rule exI [of _ "''M-00FA''"], rule exI [of _ "''0001''"], rule exI [of _ "''01''"], rule exI [of _ "''0000''"],
        rule exI [of _ "''B17E''"], rule exI [of _ "[]"]) simp
  then show ?thesis
    unfolding unsigned_program_def signed_program_def
    by (intro same_program.elem)
      (simp_all add: same_attributes_def registry_program registry_1_def els_def attr_def same_value_def)
qed



text \<open>
  C21: The order of the children of an element matters for its digest only among those whose place is
  significant: if the children are permuted and those keep their order, and no two different other
  children are sorted by keys that compare equal, then the octets of the element are the same.
\<close>

theorem sibling_order:
  assumes "mset cs = mset cs'" and "filter (keeps_place reg n) cs = filter (keeps_place reg n) cs'"
    and "\<forall>c\<in>set cs. tree_result lib reg n c = Inr (g c)" and "clash_free lib (map g cs)"
  shows "tree_result lib reg p (Elem n as cs) = tree_result lib reg p (Elem n as cs')"
  using siblings_permuted [OF assms(1,2) _ assms(4)] assms(3) by blast

theorem sibling_order_witness:
  "tree_result sample_lib sample_registry ''X'' (Elem ''Channel'' [(''Name'', ''c'')] [sample_p2, sample_channel, sample_p1]) =
    tree_result sample_lib sample_registry ''X'' (Elem ''Channel'' [(''Name'', ''c'')] [sample_channel, sample_p1, sample_p2])"
proof (rule sibling_order [of _ _ _ _ _ sample_result])
  show "clash_free sample_lib (map sample_result [sample_p2, sample_channel, sample_p1])"
    by (simp add: clash_free_def sample_result_def sample_results sample_compare)
qed (simp_all add: sample_keeps sample_result_def sample_results add_mset_commute del: keeps_place.simps)

text \<open>
  C22: Two documents whose elements differ only in attributes that are not in the registry, as the
  hash that is written into the document, and in the fingerprints of the program identifiers among
  the attributes, which are derived from the hash, have the same hash.
\<close>

theorem hash_survives_signing:
  assumes "list_all2 (same_program build_registry) programs programs'"
    and "list_all preamble pre" and "list_all (xml_ok lib build_registry) programs" and "list_all (xml_ok lib build_registry) programs'"
  shows "hash_application_program lib (pre @ xml_events (Elem ''ApplicationPrograms'' as programs) @ post) =
    hash_application_program lib (pre @ xml_events (Elem ''ApplicationPrograms'' as' programs') @ post')"
proof -
  have "map (tree_result lib build_registry ''ApplicationPrograms'') programs = map (tree_result lib build_registry ''ApplicationPrograms'') programs'"
    using assms(1) same_tree_result by (auto simp: list_all2_conv_all_nth intro!: nth_equalityI)
  then have "document_octets lib build_registry programs = document_octets lib build_registry programs'"
    by (simp only: document_octets_def)
  then show ?thesis
    by (simp only: hash_application_program_def serialize_tree [OF assms(2,3)] serialize_tree [OF assms(2,4)])
qed

theorem hash_survives_signing_witness:
  "hash_application_program sample_lib ([] @ xml_events (Elem ''ApplicationPrograms'' [] [unsigned_program]) @ []) =
   hash_application_program sample_lib ([] @ xml_events (Elem ''ApplicationPrograms'' [] [signed_program]) @ [])"
  using hash_survives_signing [of "[unsigned_program]" "[signed_program]" "[]" sample_lib "[]" "[]" "[]" "[]"]
  by (simp add: signed_ok signed_same)

end
