(* ===== verification/Prod_Scan.thy ===== *)
theory Prod_Scan
  imports Prod_Hash
begin

text \<open>
  The scanner of open tags (\<^verbatim>\<open>knx-rs-prod/src/xml_scan.rs\<close>). The code walks an index over the octets
  of the text; here the recursion is on the octets from the index on. Slicing a text between
  characters panics: \<open>None\<close>.
\<close>

section \<open>Tags\<close>

definition DQ :: char where "DQ = CHR 0x22"
definition SQ :: char where "SQ = CHR 0x27"

definition is_quote :: "char \<Rightarrow> bool" where "is_quote c \<longleftrightarrow> c = DQ \<or> c = SQ"

fun tag_end :: "char option \<Rightarrow> string \<Rightarrow> nat option" where
  "tag_end quote [] = None"
| "tag_end quote (c # cs) = (case quote of
     Some q \<Rightarrow> map_option Suc (tag_end (if c = q then None else quote) cs)
   | None \<Rightarrow> if is_quote c then map_option Suc (tag_end (Some c) cs)
             else if c = CHR ''>'' then Some 0 else map_option Suc (tag_end None cs))"

definition find_tag_end :: "string \<Rightarrow> nat \<Rightarrow> nat option" where
  "find_tag_end xml start = map_option (\<lambda>i. start + 1 + i) (tag_end None (drop (start + 1) xml))"

record OpenTag =
  tag_of :: string
  body_of :: string

definition strip_slash :: "string \<Rightarrow> string" where
  "strip_slash body = (if body \<noteq> [] \<and> last body = CHR ''/'' then butlast body else body)"

definition tag_name :: "string \<Rightarrow> string" where
  "tag_name body = chars_str (takeWhile (\<lambda>c. \<not> char_is_whitespace c) (str_chars (strip_slash body)))"

text \<open>
  Where the scan goes on after the octet \<open><\<close> of a comment, a character data section or a tag
  that is not an open tag.
\<close>

definition skip_past :: "string \<Rightarrow> string \<Rightarrow> nat" where
  "skip_past pat s = (case str_find pat s of None \<Rightarrow> length s | Some e \<Rightarrow> e + 3)"

definition skipped :: "string \<Rightarrow> nat option" where
  "skipped s =
     (if starts_with ''<!--'' s then Some (skip_past ''-->'' s)
      else if starts_with ''<![CDATA['' s then Some (skip_past '']]>'' s)
      else case tl s of c # _ \<Rightarrow>
          if c \<in> {CHR ''/'', CHR ''!'', CHR ''?''}
          then Some (case find_tag_end s 0 of None \<Rightarrow> length s | Some e \<Rightarrow> e + 1) else None
        | [] \<Rightarrow> None)"

lemma str_find_bound: "str_find pat s = Some e \<Longrightarrow> e + length pat \<le> length s"
proof (induction s arbitrary: e)
  case Nil then show ?case by (subst (asm) str_find.simps) (auto simp: starts_with_def split: if_splits)
next
  case (Cons c s)
  show ?case
  proof (cases "starts_with pat (c # s)")
    case True
    then have "e = 0" using Cons.prems by (subst (asm) str_find.simps) simp
    then show ?thesis using True unfolding starts_with_def by (metis add_0 length_take min.cobounded1)
  next
    case False
    then show ?thesis using Cons by (subst (asm) (2) str_find.simps) auto
  qed
qed

lemma tag_end_bound: "tag_end q s = Some e \<Longrightarrow> e < length s"
  by (induction q s arbitrary: e rule: tag_end.induct) (auto split: option.splits if_splits)

lemma skipped_positive: "s \<noteq> [] \<Longrightarrow> skipped s = Some n \<Longrightarrow> 0 < n"
  by (cases s) (auto simp: skipped_def skip_past_def split: if_splits option.splits list.splits)

lemma found_bound: "find_tag_end s 0 = Some e \<Longrightarrow> 0 < e \<and> e < length s"
  by (auto simp: find_tag_end_def dest: tag_end_bound)

function open_tags :: "string \<Rightarrow> OpenTag list" where
  "open_tags [] = []"
| "open_tags (c # cs) =
     (if c \<noteq> CHR ''<'' then open_tags cs
      else case skipped (c # cs) of Some n \<Rightarrow> open_tags (drop n (c # cs))
      | None \<Rightarrow> (case find_tag_end (c # cs) 0 of None \<Rightarrow> []
        | Some e \<Rightarrow> let body = take (e - 1) cs in \<lparr>tag_of = tag_name body, body_of = body\<rparr> # open_tags (drop (e + 1) (c # cs))))"
  by pat_completeness auto

termination open_tags
proof (relation "measure length", simp_all, goal_cases)
  case (1 c cs n)
  then have "0 < n" using skipped_positive by blast
  then show ?case by simp
qed

declare open_tags.simps [simp del]

section \<open>Attributes\<close>

definition byte_is_whitespace :: "char \<Rightarrow> bool" where
  "byte_is_whitespace c \<longleftrightarrow> char_is_whitespace (of_nat (of_char c))"

text \<open>Whether a text can be cut before the given octets of it.\<close>

definition at_boundary :: "string \<Rightarrow> bool" where
  "at_boundary s \<longleftrightarrow> s = [] \<or> \<not> continuation (of_char (hd s))"

definition name_char :: "char \<Rightarrow> bool" where
  "name_char c \<longleftrightarrow> c \<noteq> CHR ''='' \<and> \<not> byte_is_whitespace c"

lemma rest_shorter:
  assumes "dropWhile P (dropWhile Q (dropWhile R s)) = c # r" and "dropWhile S r = q # v" and "dropWhile T v = d # rest"
  shows "length rest < length s"
proof -
  have "length rest < length v" "length v < length r" "length r < length s"
    using assms length_dropWhile_le [of T v] length_dropWhile_le [of S r] length_dropWhile_le [of P "dropWhile Q (dropWhile R s)"]
      length_dropWhile_le [of Q "dropWhile R s"] length_dropWhile_le [of R s] by simp_all
  then show ?thesis by simp
qed

function attrs_loop :: "string \<Rightarrow> (string \<times> string) list option" where
  "attrs_loop s =
     (if s = [] then Some []
      else let at_name = dropWhile byte_is_whitespace s; name = takeWhile name_char at_name;
               after_name = dropWhile name_char at_name
        in if \<not> (at_boundary at_name \<and> at_boundary after_name) then None
           else case dropWhile byte_is_whitespace after_name of
             [] \<Rightarrow> Some []
           | c # r \<Rightarrow> if c \<noteq> CHR ''='' then Some []
               else case dropWhile byte_is_whitespace r of
                 [] \<Rightarrow> Some []
               | q # v \<Rightarrow> if \<not> is_quote q then Some []
                   else case dropWhile (\<lambda>c. c \<noteq> q) v of
                     [] \<Rightarrow> Some []
                   | _ # rest \<Rightarrow> map_option (\<lambda>attrs. if name \<noteq> [] then (name, takeWhile (\<lambda>c. c \<noteq> q) v) # attrs else attrs)
                       (attrs_loop rest))"
  by auto

termination attrs_loop
  by (relation "measure length") (auto intro: rest_shorter)

declare attrs_loop.simps [simp del]

definition parse_attrs :: "string \<Rightarrow> (string \<times> string) list option" where
  "parse_attrs body = attrs_loop (dropWhile (\<lambda>c. \<not> byte_is_whitespace c) (strip_slash body))"

end
