(* ===== verification/Prod_Renumber.thy ===== *)
theory Prod_Renumber
  imports Prod_Scan
begin

text \<open>
  Renumbering of the identifiers of an application program (\<^verbatim>\<open>knx-rs-prod/src/renumber.rs\<close>), with the
  extraction of its identifier (\<^verbatim>\<open>parse.rs\<close>). A rewrite walks the octets of the document and copies
  all but the values it replaces. A hash map is a map; one whose entries default to a number is a
  function. Shown: rewriting twice is rewriting once with the composed map, so a rewriting can be
  undone, and every new identifier has the form the management tool reads.
\<close>

section \<open>The identifier of the program\<close>

text \<open>The events here carry the attributes with their full names and the values as they are written.\<close>

fun extract_xml_attribute :: "reader \<Rightarrow> string \<Rightarrow> string \<Rightarrow> string \<Rightarrow> KnxprodError + string" where
  "extract_xml_attribute [] element attr_name error_context = Inl (PeMissingElement error_context)"
| "extract_xml_attribute (Inl e # rd) element attr_name error_context = Inl (PeXml e)"
| "extract_xml_attribute (Inr ev # rd) element attr_name error_context =
     (let of_tag = (\<lambda>name attributes. case (if name = element then map_of attributes attr_name else None) of Some value \<Rightarrow> Inr value
          | None \<Rightarrow> extract_xml_attribute rd element attr_name error_context)
      in case ev of Start name attributes \<Rightarrow> of_tag name attributes
         | Empty name attributes \<Rightarrow> of_tag name attributes
         | Eof \<Rightarrow> Inl (PeMissingElement error_context)
         | _ \<Rightarrow> extract_xml_attribute rd element attr_name error_context)"

definition extract_application_id :: "reader \<Rightarrow> KnxprodError + string" where
  "extract_application_id rd = extract_xml_attribute rd ''ApplicationProgram'' ''Id'' ''ApplicationProgram/@Id''"

definition extract_manufacturer_id :: "reader \<Rightarrow> KnxprodError + string" where
  "extract_manufacturer_id rd = extract_xml_attribute rd ''Manufacturer'' ''RefId'' ''Manufacturer/@RefId''"

definition extract_ns_version :: "string \<Rightarrow> KnxprodError + u32" where
  "extract_ns_version xml =
     (let marker = ''http://knx.org/xml/project/'' in case str_find marker xml of
        None \<Rightarrow> Inl (PeMissingElement ''KNX namespace'')
      | Some pos \<Rightarrow> let after = drop (pos + length marker) xml in case str_find [DQ] after of
          None \<Rightarrow> Inl (PeMissingElement ''KNX namespace version'')
        | Some end \<Rightarrow> (case parse_uint (2 ^ 32 - 1) (take end after) of
            None \<Rightarrow> Inl (PeInvalidStructure ''namespace version is not a number'')
          | Some n \<Rightarrow> Inr (of_nat n)))"

record KnxMetadata =
  ns_version :: u32
  manufacturer_id :: string
  application_id :: string

definition extract_metadata_from_str :: "reader \<Rightarrow> string \<Rightarrow> KnxprodError + KnxMetadata" where
  "extract_metadata_from_str rd xml =
     bind_res (extract_ns_version xml) (\<lambda>ns.
     bind_res (extract_manufacturer_id rd) (\<lambda>m.
     bind_res (extract_application_id rd) (\<lambda>a. Inr \<lparr>ns_version = ns, manufacturer_id = m, application_id = a\<rparr>)))"

section \<open>Rewriting\<close>

definition mapped :: "(string \<rightharpoonup> string) \<Rightarrow> string \<Rightarrow> string" where
  "mapped m value = (case m value of Some w \<Rightarrow> w | None \<Rightarrow> value)"

function rewrite_tag_attrs :: "(string \<rightharpoonup> string) \<Rightarrow> string \<Rightarrow> string" where
  "rewrite_tag_attrs m [] = []"
| "rewrite_tag_attrs m (c # cs) =
     (if is_quote c
      then c # mapped m (takeWhile (\<lambda>d. d \<noteq> c) cs)
           @ (case dropWhile (\<lambda>d. d \<noteq> c) cs of [] \<Rightarrow> [] | q # rest \<Rightarrow> q # rewrite_tag_attrs m rest)
      else c # rewrite_tag_attrs m cs)"
  by pat_completeness auto

lemma dropWhile_Cons_shorter: "dropWhile P xs = y # ys \<Longrightarrow> length ys < length xs"
  using length_dropWhile_le [of P xs] by simp

termination rewrite_tag_attrs
  by (relation "measure (length \<circ> snd)") (auto dest: dropWhile_Cons_shorter)

declare rewrite_tag_attrs.simps [simp del]

function rewrite_ids :: "string \<Rightarrow> (string \<rightharpoonup> string) \<Rightarrow> string" where
  "rewrite_ids [] m = []"
| "rewrite_ids (c # cs) m =
     (if c \<noteq> CHR ''<'' then c # rewrite_ids cs m
      else case skipped (c # cs) of Some n \<Rightarrow> take n (c # cs) @ rewrite_ids (drop n (c # cs)) m
      | None \<Rightarrow> (case find_tag_end (c # cs) 0 of None \<Rightarrow> c # cs
        | Some e \<Rightarrow> rewrite_tag_attrs m (take (e + 1) (c # cs)) @ rewrite_ids (drop (e + 1) (c # cs)) m))"
  by pat_completeness auto

lemma skipped_shorter: "skipped (c # cs) = Some n \<Longrightarrow> length (drop n (c # cs)) < length (c # cs)"
  using skipped_positive [of "c # cs" n] by simp

termination rewrite_ids
  by (relation "measure (length \<circ> fst)") (auto dest: skipped_shorter)

declare rewrite_ids.simps [simp del]

section \<open>The map\<close>

definition get_attr :: "(string \<times> string) list \<Rightarrow> string \<Rightarrow> string option" where
  "get_attr attrs name = map_of attrs name"

function split_ref_from :: "string \<Rightarrow> (string \<rightharpoonup> 'a) \<Rightarrow> nat \<Rightarrow> (string \<times> string) option" where
  "split_ref_from ident m from = (case str_find ''_R-'' (drop from ident) of None \<Rightarrow> None
   | Some rel \<Rightarrow> let pos = from + rel
       in if m (take pos ident) \<noteq> None then Some (take pos ident, drop (pos + 3) ident) else split_ref_from ident m (pos + 3))"
  by auto

termination split_ref_from
  by (relation "measure (\<lambda>(ident, m, from). length ident - from)") (auto dest!: str_find_bound)

declare split_ref_from.simps [simp del]

definition split_ref :: "string \<Rightarrow> (string \<rightharpoonup> 'a) \<Rightarrow> (string \<times> string) option" where
  "split_ref ident m = split_ref_from ident m 0"

definition param_kind :: "string \<Rightarrow> string option" where
  "param_kind suffix = (if starts_with ''UP-'' suffix then Some ''UP'' else if starts_with ''P-'' suffix then Some ''P'' else None)"

fun parse_tags :: "OpenTag list \<Rightarrow> (string \<times> (string \<times> string) list) list option" where
  "parse_tags [] = Some []"
| "parse_tags (t # ts) = Option.bind (parse_attrs (body_of t)) (\<lambda>attrs. map_option ((#) (tag_of t, attrs)) (parse_tags ts))"

record Numbering =
  ids :: "string \<rightharpoonup> string"
  parent_int :: "string \<rightharpoonup> nat"
  next_param :: nat
  next_block :: nat
  next_separator :: nat

definition scoped_id :: "string \<Rightarrow> (string \<times> string) list \<Rightarrow> string option" where
  "scoped_id prefix attrs = (case get_attr attrs ''Id'' of None \<Rightarrow> None
   | Some ident \<Rightarrow> if starts_with prefix ident then Some ident else None)"

text \<open>The first pass; \<open>dbg\<close> is how the language prints a text with its quotes.\<close>

definition number_tag :: "(string \<Rightarrow> string) \<Rightarrow> string \<Rightarrow> string \<times> (string \<times> string) list \<Rightarrow> Numbering \<Rightarrow> KnxprodError + Numbering" where
  "number_tag dbg prefix t s = (case scoped_id prefix (snd t) of None \<Rightarrow> Inr s
   | Some ident \<Rightarrow>
       let suffix = drop (length prefix) ident
       in if fst t = ''Parameter'' then (case param_kind suffix of None \<Rightarrow> Inr s
          | Some kind \<Rightarrow> let n = next_param s
              in Inr (s\<lparr>next_param := n + 1, ids := (ids s)(ident \<mapsto> prefix @ kind @ ''-'' @ show_nat n), parent_int := (parent_int s)(ident \<mapsto> n)\<rparr>))
          else if fst t = ''ComObject'' then
            (if \<not> starts_with ''O-'' suffix then Inr s
             else case get_attr (snd t) ''Number'' of
               None \<Rightarrow> Inl (PeInvalidStructure (''ComObject '' @ ident @ '' has no Number''))
             | Some number \<Rightarrow> (case parse_uint (2 ^ 64 - 1) number of
                 None \<Rightarrow> Inl (PeInvalidStructure (''ComObject '' @ ident @ '' has non-integer Number '' @ dbg number))
               | Some n \<Rightarrow> Inr (s\<lparr>ids := (ids s)(ident \<mapsto> prefix @ ''O-'' @ show_nat n), parent_int := (parent_int s)(ident \<mapsto> n)\<rparr>)))
          else if fst t = ''ParameterBlock'' then
            (if \<not> starts_with ''PB-'' suffix then Inr s
             else let n = next_block s in Inr (s\<lparr>next_block := n + 1, ids := (ids s)(ident \<mapsto> prefix @ ''PB-'' @ show_nat n)\<rparr>))
          else if fst t = ''ParameterSeparator'' then
            (if \<not> starts_with ''PS-'' suffix then Inr s
             else let n = next_separator s in Inr (s\<lparr>next_separator := n + 1, ids := (ids s)(ident \<mapsto> prefix @ ''PS-'' @ show_nat n)\<rparr>))
          else Inr s)"

fun fold_res :: "('a \<Rightarrow> 's \<Rightarrow> 'e + 's) \<Rightarrow> 'a list \<Rightarrow> 's \<Rightarrow> 'e + 's" where
  "fold_res f [] s = Inr s"
| "fold_res f (x # xs) s = bind_res (f x s) (fold_res f xs)"

definition numbering_init :: Numbering where
  "numbering_init = \<lparr>ids = Map.empty, parent_int = Map.empty, next_param = 1, next_block = 1, next_separator = 1\<rparr>"

text \<open>The integers the references of a com object carry already.\<close>

definition used_suffix ::
  "string \<Rightarrow> (string \<rightharpoonup> string) \<Rightarrow> string \<times> (string \<times> string) list \<Rightarrow> (string \<Rightarrow> nat list) \<Rightarrow> (string \<Rightarrow> nat list)"
where
  "used_suffix prefix m t used =
     (if fst t \<noteq> ''ComObjectRef'' then used
      else case scoped_id prefix (snd t) of None \<Rightarrow> used
      | Some ident \<Rightarrow> (case split_ref ident m of None \<Rightarrow> used
        | Some (parent, rsuffix) \<Rightarrow> (case parse_uint (2 ^ 64 - 1) rsuffix of None \<Rightarrow> used
          | Some n \<Rightarrow> used(parent := n # used parent))))"

function next_free :: "nat list \<Rightarrow> nat \<Rightarrow> nat" where
  "next_free used ctr = (if ctr + 1 \<in> set used then next_free used (ctr + 1) else ctr + 1)"
  by auto

termination next_free
proof (relation "measure (\<lambda>(used, ctr). card {n \<in> set used. ctr < n})", simp, goal_cases)
  case (1 used ctr)
  have "{n \<in> set used. ctr + 1 < n} \<subset> {n \<in> set used. ctr < n}" using 1 by fastforce
  then have "card {n \<in> set used. ctr + 1 < n} < card {n \<in> set used. ctr < n}" by (simp add: psubset_card_mono)
  then show ?case by simp
qed

declare next_free.simps [simp del]

record Referencing =
  ref_ids :: "string \<rightharpoonup> string"
  used_coref :: "string \<Rightarrow> nat list"
  pref_inst :: "string \<Rightarrow> nat"
  coref_next :: "string \<Rightarrow> nat"

definition show_nat2 :: "nat \<Rightarrow> string" where
  "show_nat2 n = (if n < 10 then ''0'' @ show_nat n else show_nat n)"

text \<open>The second pass.\<close>

definition number_ref ::
  "string \<Rightarrow> (string \<rightharpoonup> nat) \<Rightarrow> string \<times> (string \<times> string) list \<Rightarrow> Referencing \<Rightarrow> KnxprodError + Referencing"
where
  "number_ref prefix parents t s =
     (if fst t \<notin> {''ParameterRef'', ''ComObjectRef''} then Inr s
      else case scoped_id prefix (snd t) of None \<Rightarrow> Inr s
      | Some ident \<Rightarrow> (case split_ref ident (ref_ids s) of
          None \<Rightarrow> Inl (PeInvalidStructure (fst t @ '' '' @ ident @ '' references an undeclared parent (no `_R-` boundary matches a declared id)''))
        | Some (parent, rsuffix) \<Rightarrow>
            let new_parent = the (ref_ids s parent);
                insert = (\<lambda>new_rsuffix s. s\<lparr>ref_ids := (ref_ids s)(ident \<mapsto> new_parent @ ''_R-'' @ new_rsuffix)\<rparr>)
            in if fst t = ''ParameterRef''
               then (case parents parent of
                   None \<Rightarrow> Inl (PeInvalidStructure (''ParameterRef '' @ ident @ '' parent has no index''))
                 | Some base \<Rightarrow> let inst = pref_inst s parent + 1
                     in Inr (insert (show_nat base @ show_nat2 inst) (s\<lparr>pref_inst := (pref_inst s)(parent := inst)\<rparr>)))
               else (case parse_uint (2 ^ 64 - 1) rsuffix of
                   Some n \<Rightarrow> Inr (insert (show_nat n) s)
                 | None \<Rightarrow> let ctr = next_free (used_coref s parent) (coref_next s parent)
                     in Inr (insert (show_nat ctr)
                          (s\<lparr>coref_next := (coref_next s)(parent := ctr), used_coref := (used_coref s)(parent := ctr # used_coref s parent)\<rparr>)))))"

definition build_map :: "(string \<Rightarrow> string) \<Rightarrow> string \<Rightarrow> string \<Rightarrow> (KnxprodError + (string \<rightharpoonup> string)) option" where
  "build_map dbg xml app_id =
     (let prefix = app_id @ ''_'' in map_option (\<lambda>parsed.
        bind_res (fold_res (number_tag dbg prefix) parsed numbering_init) (\<lambda>s.
        map_sum id ref_ids (fold_res (number_ref prefix (parent_int s)) parsed
          \<lparr>ref_ids = ids s, used_coref = fold (used_suffix prefix (ids s)) parsed (\<lambda>_. []), pref_inst = (\<lambda>_. 0), coref_next = (\<lambda>_. 0)\<rparr>)))
      (parse_tags (open_tags xml)))"

definition renumber_ids :: "(string \<Rightarrow> string) \<Rightarrow> reader \<Rightarrow> string \<Rightarrow> (KnxprodError + string) option" where
  "renumber_ids dbg rd xml = (case extract_application_id rd of Inl e \<Rightarrow> Some (Inl e)
   | Inr app_id \<Rightarrow> map_option (map_sum id (rewrite_ids xml)) (build_map dbg xml app_id))"

section \<open>Rewriting twice\<close>

text \<open>The octets after the opening of a tag up to the end of the tag.\<close>

inductive closed_tag :: "string \<Rightarrow> bool" where
  closing: "closed_tag ''>''"
| plain: "\<not> is_quote c \<Longrightarrow> c \<noteq> CHR ''>'' \<Longrightarrow> closed_tag t \<Longrightarrow> closed_tag (c # t)"
| quoted: "is_quote c \<Longrightarrow> c \<notin> set w \<Longrightarrow> closed_tag t \<Longrightarrow> closed_tag (c # w @ c # t)"

lemma tag_end_value: "c \<notin> set w \<Longrightarrow> tag_end (Some c) (w @ c # r) = map_option (\<lambda>k. length w + 1 + k) (tag_end None r)"
  by (induction w) (auto simp: option.map_comp o_def intro: option.map_cong)

lemma tag_end_quoted: "tag_end (Some c) cs = Some j \<Longrightarrow>
    \<exists>w r k. cs = w @ c # r \<and> c \<notin> set w \<and> tag_end None r = Some k \<and> j = length w + 1 + k"
proof (induction cs arbitrary: j)
  case (Cons d cs)
  show ?case
  proof (cases "d = c")
    case True
    then obtain k where "tag_end None cs = Some k" "j = Suc k" using Cons.prems by auto
    then show ?thesis using True by (intro exI [of _ "[]"] exI [of _ cs] exI [of _ k]) simp
  next
    case False
    then obtain j' where "tag_end (Some c) cs = Some j'" "j = Suc j'" using Cons.prems by auto
    with Cons.IH obtain w r k where "cs = w @ c # r" "c \<notin> set w" "tag_end None r = Some k" "j' = length w + 1 + k" by blast
    then show ?thesis using False \<open>j = Suc j'\<close> by (intro exI [of _ "d # w"] exI [of _ r] exI [of _ k]) simp
  qed
qed simp

lemma tag_end_closed: "tag_end None u = Some i \<Longrightarrow> closed_tag (take (i + 1) u)"
proof (induction "length u" arbitrary: u i rule: less_induct)
  case less
  then obtain c cs where u: "u = c # cs" by (cases u) simp_all
  show ?case
  proof (cases "is_quote c")
    case True
    then obtain j where "tag_end (Some c) cs = Some j" "i = Suc j" using less.prems u by auto
    then obtain w r k where *: "cs = w @ c # r" "c \<notin> set w" "tag_end None r = Some k" "i = Suc (length w + 1 + k)"
      using tag_end_quoted by metis
    then have "closed_tag (take (k + 1) r)" using less.hyps [of r k] u by simp
    then have "closed_tag (c # w @ c # take (k + 1) r)" using True * by (intro closed_tag.quoted)
    then show ?thesis using u * by simp
  next
    case False
    then show ?thesis
    proof (cases "c = CHR ''>''")
      case True then show ?thesis using less.prems u False closing by simp
    next
      case other: False
      then obtain j where "tag_end None cs = Some j" "i = Suc j" using less.prems u False by auto
      then show ?thesis using less.hyps [of cs j] u False other by (auto intro: plain)
    qed
  qed
qed

lemma closed_tag_end: "closed_tag t \<Longrightarrow> t \<noteq> [] \<and> tag_end None (t @ x) = Some (length t - 1)"
proof (induction rule: closed_tag.induct)
  case (quoted c w t)
  then show ?case using tag_end_value [of c w "t @ x"] by (cases t) simp_all
qed (auto simp: is_quote_def DQ_def SQ_def split: nat_diff_split)

lemma rewrite_quoted: "is_quote c \<Longrightarrow> c \<notin> set w \<Longrightarrow>
    rewrite_tag_attrs m (c # w @ c # t) = c # mapped m w @ c # rewrite_tag_attrs m t"
  by (auto simp: rewrite_tag_attrs.simps takeWhile_append dropWhile_append)

definition quote_free :: "(string \<rightharpoonup> string) \<Rightarrow> bool" where
  "quote_free m \<longleftrightarrow> (\<forall>w\<in>ran m. \<not> list_ex is_quote w)"

lemma mapped_no_quote: "quote_free m \<Longrightarrow> is_quote c \<Longrightarrow> c \<notin> set w \<Longrightarrow> c \<notin> set (mapped m w)"
  by (auto simp: quote_free_def mapped_def list_ex_iff ran_def split: option.splits)

definition map_then :: "(string \<rightharpoonup> string) \<Rightarrow> (string \<rightharpoonup> string) \<Rightarrow> (string \<rightharpoonup> string)" where
  "map_then m m' = (\<lambda>v. Some (mapped m' (mapped m v)))"

lemma rewrite_closed:
  assumes "closed_tag t" and "quote_free m"
  shows "closed_tag (rewrite_tag_attrs m t) \<and> hd (rewrite_tag_attrs m t) = hd t \<and>
    rewrite_tag_attrs m' (rewrite_tag_attrs m t) = rewrite_tag_attrs (map_then m m') t"
  using assms(1)
proof (induction rule: closed_tag.induct)
  case closing
  then show ?case by (auto simp: rewrite_tag_attrs.simps is_quote_def DQ_def SQ_def intro: closed_tag.closing)
next
  case (plain c t)
  then show ?case by (auto simp: rewrite_tag_attrs.simps intro: closed_tag.plain)
next
  case (quoted c w t)
  have "c \<notin> set (mapped m w)" using quoted.hyps assms(2) mapped_no_quote by blast
  then show ?case
    using quoted by (auto simp: rewrite_quoted map_then_def mapped_def [of "\<lambda>v. Some (f v)" for f] intro: closed_tag.quoted)
qed

lemma skipped_tag: "skipped (CHR ''<'' # c # r) = None \<longleftrightarrow> c \<notin> {CHR ''/'', CHR ''!'', CHR ''?''}"
  by (auto simp: skipped_def starts_with_def)

text \<open>What is skipped is skipped whatever follows it.\<close>

lemma starts_with_cut: "length pat \<le> k \<Longrightarrow> k \<le> length s \<Longrightarrow> starts_with pat (take k s @ x) = starts_with pat s"
  by (simp add: starts_with_def min_def)

lemma str_find_cut: "str_find pat s = Some e \<Longrightarrow> e + length pat \<le> k \<Longrightarrow> k \<le> length s \<Longrightarrow> str_find pat (take k s @ x) = Some e"
proof (induction s arbitrary: e k)
  case Nil
  then have "pat = []" by (simp add: str_find.simps starts_with_def split: if_splits)
  then show ?case using Nil by (simp add: str_find.simps starts_with_def)
next
  case (Cons c s)
  show ?case
  proof (cases "starts_with pat (c # s)")
    case True
    then have "e = 0" using Cons.prems(1) by (simp add: str_find.simps)
    then show ?thesis using starts_with_cut [of pat k "c # s" x] True Cons.prems by (simp add: str_find.simps)
  next
    case False
    then obtain e' where e: "str_find pat s = Some e'" "e = Suc e'" using Cons.prems(1) by (subst (asm) str_find.simps) auto
    then obtain k' where k: "k = Suc k'" using Cons.prems(2) by (cases k) simp_all
    have "\<not> starts_with pat (take k (c # s) @ x)"
      using False starts_with_cut [of pat k "c # s" x] Cons.prems by simp
    then show ?thesis using Cons.IH [OF e(1), of k'] Cons.prems(2,3) e(2) k by (subst str_find.simps) simp
  qed
qed

lemma tag_end_cut: "tag_end q s = Some e \<Longrightarrow> tag_end q (take (e + 1) s @ x) = Some e"
proof (induction s arbitrary: q e)
  case (Cons c s)
  show ?case
  proof (cases q)
    case None
    then show ?thesis using Cons by (auto split: if_splits)
  next
    case (Some d)
    then obtain e' where "tag_end (if c = d then None else Some d) s = Some e'" "e = Suc e'" using Cons.prems by auto
    then show ?thesis using Cons.IH [of "if c = d then None else Some d" e'] Some by (simp split del: if_split)
  qed
qed simp

lemma skip_past_cut:
  assumes "length pat = 3"
  shows "skip_past pat s \<le> length s \<and> (skip_past pat s = length s \<or> skip_past pat (take (skip_past pat s) s @ x) = skip_past pat s)"
proof (cases "str_find pat s")
  case None then show ?thesis by (simp add: skip_past_def)
next
  case (Some e)
  then show ?thesis using str_find_bound [OF Some] str_find_cut [OF Some, of "e + 3"] assms by (simp add: skip_past_def)
qed

lemma comment_length: "starts_with ''<!--'' s \<Longrightarrow> 4 \<le> skip_past ''-->'' s"
proof -
  assume "starts_with ''<!--'' s"
  then obtain r where s: "s = ''<!--'' @ r" unfolding starts_with_def by (metis append_take_drop_id)
  show ?thesis unfolding s by (auto simp: skip_past_def str_find.simps [of _ "_ # _"] starts_with_def split: option.splits)
qed

lemma cdata_length: "starts_with ''<![CDATA['' s \<Longrightarrow> 9 \<le> skip_past '']]>'' s"
proof -
  assume "starts_with ''<![CDATA['' s"
  then obtain r where s: "s = ''<![CDATA['' @ r" unfolding starts_with_def by (metis append_take_drop_id)
  show ?thesis unfolding s by (auto simp: skip_past_def str_find.simps [of _ "_ # _"] starts_with_def split: option.splits)
qed

lemma tag_end_comment: "starts_with ''<!--'' (CHR ''<'' # u) \<Longrightarrow> tag_end None u = Some i \<Longrightarrow> 3 \<le> i"
proof -
  assume "starts_with ''<!--'' (CHR ''<'' # u)" and i: "tag_end None u = Some i"
  then obtain r where "u = ''!--'' @ r" unfolding starts_with_def by (cases u; cases "tl u"; cases "tl (tl u)") auto
  then show ?thesis using i by (auto simp: is_quote_def DQ_def SQ_def)
qed

lemma tag_end_cdata: "starts_with ''<![CDATA['' (CHR ''<'' # u) \<Longrightarrow> tag_end None u = Some i \<Longrightarrow> 8 \<le> i"
proof -
  assume st: "starts_with ''<![CDATA['' (CHR ''<'' # u)" and i: "tag_end None u = Some i"
  obtain r where "CHR ''<'' # u = ''<![CDATA['' @ r" using st unfolding starts_with_def by (metis append_take_drop_id)
  then have "u = ''![CDATA['' @ r" by simp
  then show ?thesis using i by (auto simp: is_quote_def DQ_def SQ_def)
qed

lemma skipped_cut:
  assumes "skipped (CHR ''<'' # u) = Some n"
  shows "n \<le> Suc (length u) \<and> (n = Suc (length u) \<or> skipped (take n (CHR ''<'' # u) @ x) = Some n)"
proof -
  let ?s = "CHR ''<'' # u"
  consider (comment) "starts_with ''<!--'' ?s" | (cdata) "\<not> starts_with ''<!--'' ?s" "starts_with ''<![CDATA['' ?s"
    | (tag) "\<not> starts_with ''<!--'' ?s" "\<not> starts_with ''<![CDATA['' ?s" by blast
  then show ?thesis
  proof cases
    case comment
    then have n: "n = skip_past ''-->'' ?s" using assms by (simp add: skipped_def)
    have "starts_with ''<!--'' (take n ?s @ x)"
      using starts_with_cut [of "''<!--''" n ?s x] comment comment_length [OF comment] skip_past_cut [of "''-->''" ?s x] n by simp
    then show ?thesis using skip_past_cut [of "''-->''" ?s x] n by (auto simp: skipped_def)
  next
    case cdata
    then have n: "n = skip_past '']]>'' ?s" using assms by (simp add: skipped_def)
    have "starts_with ''<![CDATA['' (take n ?s @ x)" "\<not> starts_with ''<!--'' (take n ?s @ x)"
      using starts_with_cut [of "''<![CDATA[''" n ?s x] starts_with_cut [of "''<!--''" n ?s x] cdata
        cdata_length [OF cdata(2)] skip_past_cut [of "'']]>''" ?s x] n by simp_all
    then show ?thesis using skip_past_cut [of "'']]>''" ?s x] n by (auto simp: skipped_def)
  next
    case tag
    then obtain c cs where u: "u = c # cs" "c \<in> {CHR ''/'', CHR ''!'', CHR ''?''}"
      and n: "n = (case find_tag_end ?s 0 of None \<Rightarrow> length ?s | Some e \<Rightarrow> e + 1)"
      using assms by (auto simp: skipped_def split: list.splits if_splits)
    show ?thesis
    proof (cases "tag_end None u")
      case None
      then show ?thesis using n by (simp add: find_tag_end_def)
    next
      case (Some i)
      then have n: "n = i + 2" using n by (simp add: find_tag_end_def)
      have i: "tag_end None (take (i + 1) u @ x) = Some i" "i < length u" using tag_end_cut tag_end_bound Some by blast+
      have cut: "take n ?s @ x = CHR ''<'' # take (i + 1) u @ x" using n by simp
      have "\<not> starts_with ''<!--'' (take n ?s @ x)"
        using starts_with_cut [of "''<!--''" n ?s x] tag_end_comment [OF _ i(1)] tag(1) n i(2) unfolding cut by auto
      moreover have "\<not> starts_with ''<![CDATA['' (take n ?s @ x)"
        using starts_with_cut [of "''<![CDATA[''" n ?s x] tag_end_cdata [OF _ i(1)] tag(2) n i(2) unfolding cut by auto
      ultimately have "skipped (take n ?s @ x) = Some (i + 2)"
        unfolding skipped_def cut using u i(1) by (auto simp: find_tag_end_def)
      then show ?thesis using n i(2) by simp
    qed
  qed
qed

lemma rewrite_twice: "quote_free m \<Longrightarrow> rewrite_ids (rewrite_ids xml m) m' = rewrite_ids xml (map_then m m')"
proof (induction "length xml" arbitrary: xml rule: less_induct)
  case less
  note IH = less.hyps [OF _ less.prems]
  show ?case
  proof (cases xml)
    case Nil then show ?thesis by (simp add: rewrite_ids.simps)
  next
    case (Cons c cs)
    show ?thesis
    proof (cases "c = CHR ''<''")
      case False then show ?thesis using IH [of cs] Cons by (simp add: rewrite_ids.simps)
    next
      case True
      show ?thesis
      proof (cases "skipped xml")
        case (Some n)
        let ?rest = "rewrite_ids (drop n xml) m"
        have cut: "n \<le> length xml" "n = length xml \<or> skipped (take n xml @ ?rest) = Some n" and n: "0 < n"
          using skipped_cut [of cs n ?rest] skipped_positive [of xml n] Some Cons True by auto
        have once: "rewrite_ids xml f = take n xml @ rewrite_ids (drop n xml) f" for f
          using Some Cons True by (simp add: rewrite_ids.simps)
        have ih: "rewrite_ids (rewrite_ids (drop n xml) m) m' = rewrite_ids (drop n xml) (map_then m m')"
          using n Cons by (intro IH) simp
        show ?thesis
        proof (cases "n = length xml")
          case True then show ?thesis unfolding once [of m] using once by (simp add: rewrite_ids.simps)
        next
          case False
          then have sk: "skipped (take n xml @ ?rest) = Some n" using cut by simp
          have "take n xml @ ?rest = c # tl (take n xml @ ?rest)" using Cons n by (cases n) simp_all
          then have "rewrite_ids (take n xml @ ?rest) m' = take n (take n xml @ ?rest) @ rewrite_ids (drop n (take n xml @ ?rest)) m'"
            using sk True by (metis (no_types, lifting) option.simps(5) rewrite_ids.simps(2))
          then show ?thesis unfolding once [of m] using once [of "map_then m m'"] ih cut(1) by simp
        qed
      next
        case None
        show ?thesis
        proof (cases "find_tag_end xml 0")
          case none: None
          then show ?thesis using None Cons True by (simp add: rewrite_ids.simps)
        next
          case (Some e)
          then obtain i where i: "tag_end None cs = Some i" "e = i + 1" using Cons by (auto simp: find_tag_end_def)
          let ?t = "take (i + 1) cs" and ?rest = "rewrite_ids (drop (e + 1) xml) m"
          let ?r = "rewrite_tag_attrs m ?t"
          have t: "closed_tag ?t" using tag_end_closed i(1) .
          note r = rewrite_closed [OF t less.prems, of m']
          have stop: "tag_end None (?r @ ?rest) = Some (length ?r - 1)" "?r \<noteq> []" using closed_tag_end r by blast+
          have lt: "rewrite_tag_attrs f (CHR ''<'' # u) = CHR ''<'' # rewrite_tag_attrs f u" for f u
            by (simp add: rewrite_tag_attrs.simps is_quote_def DQ_def SQ_def)
          have tag: "take (e + 1) xml = CHR ''<'' # ?t" using Cons True i by simp
          have once: "rewrite_ids xml f = CHR ''<'' # rewrite_tag_attrs f ?t @ rewrite_ids (drop (e + 1) xml) f" for f
            using None Some Cons True tag by (simp add: rewrite_ids.simps lt)
          obtain d ds where d: "cs = d # ds" using i by (cases cs) simp_all
          have "hd ?r = d" using r d by simp
          then obtain rs where rs: "?r = d # rs" using stop(2) by (cases ?r) simp_all
          have "skipped (CHR ''<'' # ?r @ ?rest) = None" using None Cons True d rs skipped_tag by simp
          then have "rewrite_ids (CHR ''<'' # ?r @ ?rest) m' = rewrite_tag_attrs m' (CHR ''<'' # ?r) @ rewrite_ids ?rest m'"
            using stop by (simp add: rewrite_ids.simps find_tag_end_def)
          moreover have "rewrite_ids ?rest m' = rewrite_ids (drop (e + 1) xml) (map_then m m')" using Cons by (intro IH) simp
          ultimately show ?thesis unfolding once using r by (simp add: lt)
        qed
      qed
    qed
  qed
qed

lemma rewrite_tag_same: "(\<And>v. mapped f v = v) \<Longrightarrow> rewrite_tag_attrs f t = t"
proof (induction f t rule: rewrite_tag_attrs.induct)
  case (2 m c cs)
  have whole: "takeWhile (\<lambda>d. d \<noteq> c) cs @ dropWhile (\<lambda>d. d \<noteq> c) cs = cs" by simp
  show ?case
  proof (cases "dropWhile (\<lambda>d. d \<noteq> c) cs")
    case Nil
    then have "takeWhile (\<lambda>d. d \<noteq> c) cs = cs" using whole by simp
    then show ?thesis using 2 Nil unfolding rewrite_tag_attrs.simps(2) by (simp del: dropWhile_eq_Nil_conv)
  next
    case (Cons q rest)
    then have "rewrite_tag_attrs m rest = rest" if "is_quote c" using 2 that by blast
    then show ?thesis using 2 whole unfolding rewrite_tag_attrs.simps(2) Cons by simp
  qed
qed (simp add: rewrite_tag_attrs.simps)

lemma rewrite_same: "(\<And>v. mapped f v = v) \<Longrightarrow> rewrite_ids xml f = xml"
  by (induction xml f rule: rewrite_ids.induct)
    (simp_all add: rewrite_ids.simps rewrite_tag_same split: option.splits del: take_Suc_Cons drop_Suc_Cons)

text \<open>
  C24: Rewriting a document with one map and then with another is rewriting it once with the composed
  map, when the new values hold no quotes; so no octet that was written is taken for an old
  identifier in the same pass, even where the new identifiers permute the old ones, and a rewriting
  whose map can be inverted can be undone. This holds for every text, well-formed or not.
\<close>

theorem rewriting_composes:
  assumes "quote_free m"
  shows "rewrite_ids (rewrite_ids xml m) m' = rewrite_ids xml (map_then m m') \<and>
    ((\<forall>v. mapped m' (mapped m v) = v) \<longrightarrow> rewrite_ids (rewrite_ids xml m) m' = xml)"
  using rewrite_twice [OF assms] rewrite_same [of "map_then m m'"] by (simp add: map_then_def mapped_def)

definition swap_ids :: "string \<rightharpoonup> string" where
  "swap_ids = [''a'' \<mapsto> ''b'', ''b'' \<mapsto> ''a'']"

theorem rewriting_composes_witness:
  "rewrite_ids (rewrite_ids (''<P Id='' @ [DQ] @ ''a'' @ [DQ] @ ''/>'') swap_ids) swap_ids = ''<P Id='' @ [DQ] @ ''a'' @ [DQ] @ ''/>'' \<and>
   rewrite_ids (''<P Id='' @ [DQ] @ ''a'' @ [DQ] @ ''/>'') swap_ids = ''<P Id='' @ [DQ] @ ''b'' @ [DQ] @ ''/>''"
proof -
  have "quote_free swap_ids" by (auto simp: quote_free_def swap_ids_def ran_def is_quote_def DQ_def SQ_def)
  moreover have "\<forall>v. mapped swap_ids (mapped swap_ids v) = v" by (simp add: mapped_def swap_ids_def)
  ultimately have "rewrite_ids (rewrite_ids (''<P Id='' @ [DQ] @ ''a'' @ [DQ] @ ''/>'') swap_ids) swap_ids = ''<P Id='' @ [DQ] @ ''a'' @ [DQ] @ ''/>''"
    using rewriting_composes [of swap_ids _ swap_ids] by blast
  moreover have "rewrite_ids (''<P Id='' @ [DQ] @ ''a'' @ [DQ] @ ''/>'') swap_ids = ''<P Id='' @ [DQ] @ ''b'' @ [DQ] @ ''/>''"
    by code_simp
  ultimately show ?thesis by blast
qed

end
