(* ===== verification/Prod_Sanity.thy ===== *)
theory Prod_Sanity
  imports Prod_Renumber
begin

text \<open>
  The checks of a product document before it is packed (\<^verbatim>\<open>knx-rs-prod/src/sanity.rs\<close>): identifiers end
  in integers, references point to a declared identifier, none is declared twice. Shown: exactly
  which documents are accepted, and that the identifiers the renumbering gives pass the check.
\<close>

section \<open>The checks\<close>

definition INT_MARKERS :: "string list" where
  "INT_MARKERS = [''_UP-'', ''_P-'', ''_O-'', ''_R-'', ''_PB-'', ''_PS-'']"

definition segment :: "string \<Rightarrow> string" where
  "segment after = takeWhile (\<lambda>c. c \<noteq> CHR ''_'' \<and> c \<noteq> DQ) after"

text \<open>The markers are not empty; that the recursion ends needs it.\<close>

function bad_segment :: "string \<Rightarrow> string \<Rightarrow> string option" where
  "bad_segment marker search = (case (if marker = [] then None else str_find marker search) of None \<Rightarrow> None
   | Some pos \<Rightarrow> let after = drop (pos + length marker) search; seg = segment after
       in if seg = [] \<or> \<not> list_all is_digit seg then Some (marker @ seg) else bad_segment marker after)"
  by auto

termination bad_segment
proof (relation "measure (length \<circ> snd)", simp, goal_cases)
  case (1 marker search pos)
  then have "pos + length marker \<le> length search" "0 < length marker" by (auto dest: str_find_bound split: if_splits)
  then show ?case using 1 by (cases marker) simp_all
qed

declare bad_segment.simps [simp del]

fun find_map :: "('a \<Rightarrow> 'b option) \<Rightarrow> 'a list \<Rightarrow> 'b option" where
  "find_map f [] = None"
| "find_map f (x # xs) = (case f x of None \<Rightarrow> find_map f xs | Some y \<Rightarrow> Some y)"

definition bad_integer_suffix :: "string \<Rightarrow> string \<Rightarrow> string option" where
  "bad_integer_suffix value prefix =
     Option.bind (str_find prefix value) (\<lambda>scope_start.
       let after_prefix = drop (scope_start + length prefix) value
       in Option.bind (str_find ''-'' after_prefix) (\<lambda>d.
         let marker_end = d + 1; leading = ''_'' @ take marker_end after_prefix
         in if leading \<notin> set INT_MARKERS then None
            else find_map (\<lambda>marker. bad_segment marker (drop scope_start value)) INT_MARKERS))"

definition ends_with :: "string \<Rightarrow> string \<Rightarrow> bool" where
  "ends_with pat s \<longleftrightarrow> length pat \<le> length s \<and> drop (length s - length pat) s = pat"

definition is_reference_attr :: "string \<Rightarrow> bool" where
  "is_reference_attr name \<longleftrightarrow> ends_with ''RefId'' name \<or> ends_with ''RefRef'' name \<or> name = ''ParamRefId''"

record Found =
  declared :: "string list"
  dups :: "string list"
  bad_format :: "string list"
  references :: "string list"

definition the_list :: "'a option \<Rightarrow> 'a list" where
  "the_list r = (case r of None \<Rightarrow> [] | Some x \<Rightarrow> [x])"

definition check_attr :: "string \<Rightarrow> string \<times> string \<Rightarrow> Found \<Rightarrow> Found" where
  "check_attr prefix a s = (case a of (name, value) \<Rightarrow>
     if \<not> starts_with prefix value then s
     else if name = ''Id'' then
       (let s = (if value \<in> set (declared s) then s\<lparr>dups := dups s @ [value]\<rparr> else s\<lparr>declared := declared s @ [value]\<rparr>)
        in s\<lparr>bad_format := bad_format s @ the_list (bad_integer_suffix value prefix)\<rparr>)
     else if is_reference_attr name then
       s\<lparr>references := references s @ [value], bad_format := bad_format s @ the_list (bad_integer_suffix value prefix)\<rparr>
     else s)"

text \<open>\<open>sort\<close> and \<open>dedup\<close>; the texts are compared by their octets.\<close>

definition sort_dedup :: "string list \<Rightarrow> string list" where
  "sort_dedup xs = remdups_adj (List.sort xs)"

definition ELLIPSIS :: string where "ELLIPSIS = [CHR 0xE2, CHR 0x80, CHR 0xA6]"

definition join_lines :: "string list \<Rightarrow> string" where
  "join_lines ls = (case ls of [] \<Rightarrow> [] | l # ls \<Rightarrow> l @ concat (map (\<lambda>l. LF # l) ls))"

definition sanity_errors :: "Found \<Rightarrow> string list" where
  "sanity_errors s =
     map (\<lambda>b. ''non-integer id suffix: '' @ b) (sort_dedup (bad_format s)) @
     map (\<lambda>d. ''duplicate Id: '' @ d) (sort_dedup (dups s)) @
     map (\<lambda>d. ''dangling reference (no such Id): '' @ d) (sort_dedup (filter (\<lambda>r. r \<notin> set (declared s)) (references s)))"

definition report :: "string list \<Rightarrow> KnxprodError + unit" where
  "report errors =
     (if errors = [] then Inr ()
      else let total = length errors;
               errors = (if total > 40 then take 40 errors @ [ELLIPSIS @ '' and '' @ show_nat (total - 40) @ '' more''] else errors)
        in Inl (PeValidation (join_lines errors)))"

definition sanity_check :: "reader \<Rightarrow> string \<Rightarrow> (KnxprodError + unit) option" where
  "sanity_check rd xml = (case extract_application_id rd of Inl e \<Rightarrow> Some (Inl e)
   | Inr app_id \<Rightarrow> map_option (\<lambda>parsed. report (sanity_errors
         (fold (check_attr (app_id @ ''_'')) (concat (map snd parsed)) \<lparr>declared = [], dups = [], bad_format = [], references = []\<rparr>)))
       (parse_tags (open_tags xml)))"

section \<open>What is accepted\<close>

definition in_scope :: "string \<Rightarrow> (string \<times> string) list \<Rightarrow> (string \<times> string) list" where
  "in_scope prefix attrs = filter (\<lambda>(n, v). starts_with prefix v) attrs"

definition ids_of :: "(string \<times> string) list \<Rightarrow> string list" where
  "ids_of attrs = map snd (filter (\<lambda>(n, v). n = ''Id'') attrs)"

definition refs_of :: "(string \<times> string) list \<Rightarrow> string list" where
  "refs_of attrs = map snd (filter (\<lambda>(n, v). n \<noteq> ''Id'' \<and> is_reference_attr n) attrs)"

lemma sort_dedup_Nil [simp]: "sort_dedup xs = [] \<longleftrightarrow> xs = []"
proof -
  have "set (sort_dedup xs) = set xs" by (simp add: sort_dedup_def)
  then show ?thesis by (cases xs; cases "sort_dedup xs") auto
qed

lemma sanity_errors_Nil:
  "sanity_errors s = [] \<longleftrightarrow> bad_format s = [] \<and> dups s = [] \<and> set (references s) \<subseteq> set (declared s)"
  by (auto simp: sanity_errors_def filter_empty_conv)

lemma report_ok: "report errors = Inr () \<longleftrightarrow> errors = []"
  by (simp add: report_def Let_def)

lemma the_list_Nil [simp]: "the_list r = [] \<longleftrightarrow> r = None"
  by (cases r) (simp_all add: the_list_def)

lemma ids_of_Cons: "ids_of (in_scope prefix ((n, v) # as)) =
    (if starts_with prefix v \<and> n = ''Id'' then v # ids_of (in_scope prefix as) else ids_of (in_scope prefix as))"
  by (simp add: ids_of_def in_scope_def)

lemma refs_of_Cons: "refs_of (in_scope prefix ((n, v) # as)) =
    (if starts_with prefix v \<and> n \<noteq> ''Id'' \<and> is_reference_attr n then v # refs_of (in_scope prefix as) else refs_of (in_scope prefix as))"
  by (simp add: refs_of_def in_scope_def)

lemma of_Nil: "ids_of (in_scope prefix []) = []" "refs_of (in_scope prefix []) = []"
  by (simp_all add: ids_of_def refs_of_def in_scope_def)

lemma check_attr_parts:
  "references (check_attr prefix (n, v) s) =
     (if starts_with prefix v \<and> n \<noteq> ''Id'' \<and> is_reference_attr n then references s @ [v] else references s)"
  "set (declared (check_attr prefix (n, v) s)) = (if starts_with prefix v \<and> n = ''Id'' then insert v (set (declared s)) else set (declared s))"
  "dups (check_attr prefix (n, v) s) = (if starts_with prefix v \<and> n = ''Id'' \<and> v \<in> set (declared s) then dups s @ [v] else dups s)"
  "bad_format (check_attr prefix (n, v) s) =
     (if starts_with prefix v \<and> (n = ''Id'' \<or> is_reference_attr n) then bad_format s @ the_list (bad_integer_suffix v prefix) else bad_format s)"
  by (simp_all add: check_attr_def Let_def insert_absorb)

lemmas check_facts = check_attr_parts ids_of_Cons refs_of_Cons of_Nil

lemma check_references: "references (fold (check_attr prefix) as s) = references s @ refs_of (in_scope prefix as)"
  by (induction as arbitrary: s) (auto simp: check_facts)

lemma check_declared: "set (declared (fold (check_attr prefix) as s)) = set (declared s) \<union> set (ids_of (in_scope prefix as))"
proof (induction as arbitrary: s)
  case (Cons a as)
  obtain n v where "a = (n, v)" by (cases a)
  then show ?case using Cons.IH [of "check_attr prefix a s"] by (cases "starts_with prefix v \<and> n = ''Id''") (auto simp: check_facts)
qed (simp add: check_facts)

lemma check_dups:
  "dups (fold (check_attr prefix) as s) = [] \<longleftrightarrow>
     dups s = [] \<and> distinct (ids_of (in_scope prefix as)) \<and> set (declared s) \<inter> set (ids_of (in_scope prefix as)) = {}"
proof (induction as arbitrary: s)
  case (Cons a as)
  obtain n v where "a = (n, v)" by (cases a)
  then show ?case using Cons.IH [of "check_attr prefix a s"] by (cases "starts_with prefix v \<and> n = ''Id''") (auto simp: check_facts)
qed (simp add: check_facts)

lemma check_bad:
  "bad_format (fold (check_attr prefix) as s) = [] \<longleftrightarrow> bad_format s = [] \<and>
     (\<forall>v\<in>set (ids_of (in_scope prefix as)) \<union> set (refs_of (in_scope prefix as)). bad_integer_suffix v prefix = None)"
proof (induction as arbitrary: s)
  case (Cons a as)
  obtain n v where a: "a = (n, v)" by (cases a)
  have ih: "bad_format (fold (check_attr prefix) (a # as) s) = [] \<longleftrightarrow> bad_format (check_attr prefix (n, v) s) = [] \<and>
     (\<forall>v\<in>set (ids_of (in_scope prefix as)) \<union> set (refs_of (in_scope prefix as)). bad_integer_suffix v prefix = None)"
    using Cons.IH [of "check_attr prefix a s"] a by simp
  show ?case unfolding ih unfolding a check_facts by auto
qed (simp add: check_facts)

section \<open>Identifiers of the renumbering\<close>

text \<open>Every occurrence of the marker is followed by an integer.\<close>

definition clean :: "string \<Rightarrow> string \<Rightarrow> bool" where
  "clean marker s \<longleftrightarrow> (\<forall>pre post. s = pre @ marker @ post \<longrightarrow> segment post \<noteq> [] \<and> list_all is_digit (segment post))"

lemma str_find_split: "str_find pat s = Some e \<Longrightarrow> s = take e s @ pat @ drop (e + length pat) s"
proof (induction s arbitrary: e)
  case Nil
  then show ?case by (auto simp: str_find.simps starts_with_def split: if_splits)
next
  case (Cons c s)
  show ?case
  proof (cases "starts_with pat (c # s)")
    case True
    then have "e = 0" "take (length pat) (c # s) = pat" using Cons.prems by (simp_all add: str_find.simps starts_with_def)
    then show ?thesis by (metis add_0 append_Nil append_take_drop_id take0)
  next
    case False
    then obtain e' where "str_find pat s = Some e'" "e = Suc e'" using Cons.prems by (subst (asm) str_find.simps) auto
    then show ?thesis using Cons.IH by simp
  qed
qed

lemma clean_passes: "clean marker s \<Longrightarrow> bad_segment marker s = None"
proof (induction marker s rule: bad_segment.induct)
  case (1 marker s)
  show ?case
  proof (cases "if marker = [] then None else str_find marker s")
    case None then show ?thesis by (simp add: bad_segment.simps)
  next
    case (Some pos)
    then have split: "s = take pos s @ marker @ drop (pos + length marker) s" by (auto dest: str_find_split split: if_splits)
    have "clean marker (drop (pos + length marker) s)"
      unfolding clean_def
    proof (intro allI impI)
      fix pre post
      assume "drop (pos + length marker) s = pre @ marker @ post"
      then have "s = (take pos s @ marker @ pre) @ marker @ post" using split by simp
      then show "segment post \<noteq> [] \<and> list_all is_digit (segment post)" using "1.prems" unfolding clean_def by blast
    qed
    moreover have "segment (drop (pos + length marker) s) \<noteq> []" "list_all is_digit (segment (drop (pos + length marker) s))"
      using "1.prems" split unfolding clean_def by blast+
    ultimately show ?thesis using "1.IH" [OF Some] Some by (simp add: bad_segment.simps [of marker s])
  qed
qed

text \<open>A marker starts at an underscore, and has no other.\<close>

definition marker_form :: "string \<Rightarrow> bool" where
  "marker_form marker \<longleftrightarrow> (\<exists>k. marker = ''_'' @ k @ ''-'' \<and> CHR ''_'' \<notin> set k \<and> CHR ''-'' \<notin> set k)"

lemma markers_form: "marker \<in> set INT_MARKERS \<Longrightarrow> marker_form marker"
proof -
  assume "marker \<in> set INT_MARKERS"
  then consider "marker = ''_'' @ ''UP'' @ ''-''" | "marker = ''_'' @ ''P'' @ ''-''" | "marker = ''_'' @ ''O'' @ ''-''"
    | "marker = ''_'' @ ''R'' @ ''-''" | "marker = ''_'' @ ''PB'' @ ''-''" | "marker = ''_'' @ ''PS'' @ ''-''"
    by (auto simp: INT_MARKERS_def)
  then show ?thesis unfolding marker_form_def by cases (fastforce)+
qed

text \<open>A new identifier: that of the program, a kind with an integer, and any number of references with integers.\<close>

definition digits :: "string \<Rightarrow> bool" where
  "digits s \<longleftrightarrow> s \<noteq> [] \<and> list_all is_digit s"

inductive tail_ok :: "string \<Rightarrow> bool" where
  tail_Nil: "tail_ok []"
| tail_ref: "digits d \<Longrightarrow> tail_ok t \<Longrightarrow> tail_ok (''_R-'' @ d @ t)"

definition new_id :: "string \<Rightarrow> string \<Rightarrow> bool" where
  "new_id prefix v \<longleftrightarrow> (\<exists>k d t. v = prefix @ k @ ''-'' @ d @ t \<and> k \<in> {''P'', ''UP'', ''O'', ''PB'', ''PS''} \<and> digits d \<and> tail_ok t)"

lemma tail_append: "tail_ok t \<Longrightarrow> digits d \<Longrightarrow> tail_ok (t @ ''_R-'' @ d)"
  by (induction rule: tail_ok.induct) (use tail_ok.intros in force)+

lemma new_id_ref: "new_id prefix v \<Longrightarrow> digits d \<Longrightarrow> new_id prefix (v @ ''_R-'' @ d)"
  unfolding new_id_def by (metis (no_types, opaque_lifting) append.assoc tail_append)

lemma str_find_None: "str_find pat s = None \<Longrightarrow> s \<noteq> pre @ pat @ post"
proof (induction s arbitrary: pre)
  case Nil
  then show ?case by (auto simp: str_find.simps starts_with_def split: if_splits)
next
  case (Cons c s)
  then have "\<not> starts_with pat (c # s)" "str_find pat s = None" by (subst (asm) (2) str_find.simps; simp split: if_splits)+
  then show ?case using Cons.IH by (cases pre) (auto simp: starts_with_def)
qed

lemma occurs_split:
  assumes "marker_form marker" and "a @ CHR ''_'' # r = pre @ marker @ post"
  shows "(\<exists>p. a = pre @ marker @ p \<and> post = p @ CHR ''_'' # r) \<or> (\<exists>p. CHR ''_'' # r = p @ marker @ post)"
proof -
  obtain k where k: "marker = CHR ''_'' # k @ ''-''" "CHR ''_'' \<notin> set k" using assms(1) by (auto simp: marker_form_def)
  from assms(2) consider (first) us where "a = pre @ us" "us @ CHR ''_'' # r = marker @ post" | (second) us where "CHR ''_'' # r = us @ marker @ post"
    by (auto simp: append_eq_append_conv2)
  then show ?thesis
  proof cases
    case first
    then consider (in_a) vs where "us = marker @ vs" "vs @ CHR ''_'' # r = post" | (over) vs where "us @ vs = marker" "CHR ''_'' # r = vs @ post"
      by (auto simp: append_eq_append_conv2)
    then show ?thesis
    proof cases
      case in_a then show ?thesis using first by auto
    next
      case over
      show ?thesis
      proof (cases vs)
        case Nil then show ?thesis using over first by auto
      next
        case (Cons v vs')
        then have vs: "CHR ''_'' \<in> set vs" using over(2) by simp
        have "us = []"
        proof (cases us)
          case (Cons u us')
          then have "us' @ vs = k @ ''-''" using over(1) k(1) by simp
          then have "set us' \<union> set vs = set (k @ ''-'')" by (metis set_append)
          then have "CHR ''_'' \<in> set (k @ ''-'')" using vs by blast
          then show ?thesis using k(2) by simp
        qed simp
        then have "CHR ''_'' # r = [] @ marker @ post" using over by (simp only: append_Nil)
        then show ?thesis by blast
      qed
    qed
  next
    case second then show ?thesis by auto
  qed
qed

lemma clean_prefix:
  assumes "marker_form marker" and "str_find marker a = None" and "clean marker (CHR ''_'' # r)"
  shows "clean marker (a @ CHR ''_'' # r)"
  using occurs_split [OF assms(1), of a r] str_find_None [OF assms(2)] assms(3) unfolding clean_def by metis

lemma digits_plain: "digits d \<Longrightarrow> c \<in> set d \<Longrightarrow> c \<noteq> CHR ''_'' \<and> c \<noteq> CHR ''-'' \<and> \<not> is_quote c"
  by (auto simp: digits_def list_all_iff is_digit_def is_quote_def DQ_def SQ_def)

lemma segment_digits: "digits d \<Longrightarrow> t = [] \<or> hd t = CHR ''_'' \<Longrightarrow> segment (d @ t) = d"
proof -
  assume d: "digits d" and t: "t = [] \<or> hd t = CHR ''_''"
  then have "takeWhile (\<lambda>c. c \<noteq> CHR ''_'' \<and> c \<noteq> DQ) t = []" by (cases t) auto
  moreover have "\<forall>c\<in>set d. c \<noteq> CHR ''_'' \<and> c \<noteq> DQ" using digits_plain [OF d] by (auto simp: is_quote_def)
  ultimately show ?thesis by (simp add: segment_def takeWhile_append2)
qed

lemma same_kind: "CHR ''-'' \<notin> set k \<Longrightarrow> CHR ''-'' \<notin> set k' \<Longrightarrow> k @ CHR ''-'' # d = k' @ CHR ''-'' # d' \<Longrightarrow> k = k' \<and> d = d'"
  by (induction k arbitrary: k') (auto simp: Cons_eq_append_conv)

lemma clean_unit:
  assumes m: "marker_form marker" and k: "CHR ''_'' \<notin> set k" "CHR ''-'' \<notin> set k" and d: "digits d"
    and t: "t = [] \<or> hd t = CHR ''_''" "clean marker t"
  shows "clean marker (CHR ''_'' # k @ CHR ''-'' # d @ t)"
  unfolding clean_def
proof (intro allI impI)
  fix pre post
  let ?a = "CHR ''_'' # k @ CHR ''-'' # d"
  assume "CHR ''_'' # k @ CHR ''-'' # d @ t = pre @ marker @ post"
  then have eq: "?a @ t = pre @ marker @ post" by simp
  obtain k' where k': "marker = CHR ''_'' # k' @ ''-''" "CHR ''-'' \<notin> set k'" using m by (auto simp: marker_form_def)
  have "(\<exists>p. ?a = pre @ marker @ p \<and> post = p @ t) \<or> (\<exists>p. t = p @ marker @ post)"
  proof (cases t)
    case Nil then show ?thesis using eq by auto
  next
    case (Cons c r)
    then have "t = CHR ''_'' # r" using t(1) by simp
    then show ?thesis using occurs_split [OF m, of ?a r pre post] eq by metis
  qed
  then show "segment post \<noteq> [] \<and> list_all is_digit (segment post)"
  proof
    assume "\<exists>p. ?a = pre @ marker @ p \<and> post = p @ t"
    then obtain p where p: "?a = pre @ marker @ p" "post = p @ t" by blast
    have "CHR ''_'' \<notin> set (tl ?a)" using k(1) digits_plain [OF d] by auto
    then have "pre = []" using p(1) k' by (cases pre) auto
    then have "k @ CHR ''-'' # d = k' @ CHR ''-'' # p" using p(1) k'(1) by simp
    then have "k = k' \<and> d = p" by (rule same_kind [OF k(2) k'(2)])
    then have "segment post = d" using p(2) segment_digits [OF d t(1)] by simp
    then show ?thesis using d by (simp add: digits_def)
  next
    assume "\<exists>p. t = p @ marker @ post"
    then show ?thesis using t(2) unfolding clean_def by blast
  qed
qed

lemma tail_clean: "tail_ok t \<Longrightarrow> marker_form marker \<Longrightarrow> (t = [] \<or> hd t = CHR ''_'') \<and> clean marker t"
proof (induction rule: tail_ok.induct)
  case tail_Nil
  then show ?case by (auto simp: clean_def marker_form_def)
next
  case (tail_ref d t)
  then show ?case using clean_unit [of marker "''R''" d t] by simp
qed

lemma new_id_passes:
  assumes "new_id (app_id @ ''_'') v" and "\<forall>marker\<in>set INT_MARKERS. str_find marker app_id = None"
  shows "starts_with (app_id @ ''_'') v \<and> bad_integer_suffix v (app_id @ ''_'') = None"
proof -
  obtain k d t where v: "v = (app_id @ ''_'') @ k @ ''-'' @ d @ t" and k: "k \<in> {''P'', ''UP'', ''O'', ''PB'', ''PS''}"
    and d: "digits d" and t: "tail_ok t" using assms(1) unfolding new_id_def by blast
  have kk: "CHR ''_'' \<notin> set k" "CHR ''-'' \<notin> set k" using k by auto
  have st: "starts_with (app_id @ ''_'') v" unfolding v by (simp add: starts_with_def)
  have "bad_segment marker v = None" if "marker \<in> set INT_MARKERS" for marker
  proof (rule clean_passes)
    have form: "marker_form marker" using that by (rule markers_form)
    have "clean marker (app_id @ CHR ''_'' # k @ CHR ''-'' # d @ t)"
      using assms(2) that clean_unit [OF form kk d] tail_clean [OF t form] by (intro clean_prefix [OF form]) auto
    then show "clean marker v" unfolding v by simp
  qed
  then have "find_map (\<lambda>marker. bad_segment marker v) INT_MARKERS = None" by (simp add: INT_MARKERS_def)
  moreover have "str_find (app_id @ ''_'') v = Some 0" using st by (simp add: str_find.simps)
  ultimately show ?thesis using st by (auto simp: bad_integer_suffix_def Let_def split: bind_split)
qed

section \<open>What the passes insert\<close>

lemma fold_res_keeps:
  assumes "\<And>x s s'. f x s = Inr s' \<Longrightarrow> P s \<Longrightarrow> P s'" and "fold_res f xs s = Inr s'" and "P s"
  shows "P s'"
  using assms(2,3) by (induction xs arbitrary: s) (auto simp: bind_res_Inr_iff dest: assms(1))

definition all_new :: "string \<Rightarrow> (string \<rightharpoonup> string) \<Rightarrow> bool" where
  "all_new prefix m \<longleftrightarrow> (\<forall>k v. m k = Some v \<longrightarrow> new_id prefix v)"

lemma digits_show: "digits (show_nat n)"
  by (auto simp: digits_def list_all_iff intro: show_nat_digits)

lemma digits_append: "digits a \<Longrightarrow> digits b \<Longrightarrow> digits (a @ b)"
  by (simp add: digits_def)

lemma digits_show2: "digits (show_nat2 n)"
  using digits_append [of "''0''", OF _ digits_show] digits_show by (auto simp: show_nat2_def digits_def is_digit_def)

lemma new_id_base: "k \<in> {''P'', ''UP'', ''O'', ''PB'', ''PS''} \<Longrightarrow> new_id prefix (prefix @ k @ ''-'' @ show_nat n)"
  unfolding new_id_def using digits_show tail_Nil by (metis append_Nil2)

lemma all_new_insert: "all_new prefix m \<Longrightarrow> new_id prefix v \<Longrightarrow> all_new prefix (m(k \<mapsto> v))"
  by (simp add: all_new_def)

lemma number_tag_new: "number_tag dbg prefix t s = Inr s' \<Longrightarrow> all_new prefix (ids s) \<Longrightarrow> all_new prefix (ids s')"
proof -
  assume step: "number_tag dbg prefix t s = Inr s'" and new: "all_new prefix (ids s)"
  note base = new_id_base [of "''P''" prefix, simplified] new_id_base [of "''UP''" prefix, simplified] new_id_base [of "''O''" prefix, simplified]
    new_id_base [of "''PB''" prefix, simplified] new_id_base [of "''PS''" prefix, simplified]
  consider "scoped_id prefix (snd t) = None \<or> fst t \<notin> {''Parameter'', ''ComObject'', ''ParameterBlock'', ''ParameterSeparator''}"
    | i where "scoped_id prefix (snd t) = Some i" "fst t = ''Parameter''" | i where "scoped_id prefix (snd t) = Some i" "fst t = ''ComObject''"
    | i where "scoped_id prefix (snd t) = Some i" "fst t = ''ParameterBlock''" | i where "scoped_id prefix (snd t) = Some i" "fst t = ''ParameterSeparator''"
    by (cases "scoped_id prefix (snd t)") auto
  then show ?thesis
  proof cases
    case 1 then show ?thesis using step new by (cases "scoped_id prefix (snd t)") (simp_all add: number_tag_def)
  next
    case 2 then show ?thesis using step new base by (auto simp: number_tag_def param_kind_def all_new_insert Let_def split: if_splits)
  next
    case 3 then show ?thesis using step new base by (auto simp: number_tag_def all_new_insert split: if_splits option.splits)
  next
    case 4 then show ?thesis using step new base by (auto simp: number_tag_def all_new_insert Let_def split: if_splits)
  next
    case 5 then show ?thesis using step new base by (auto simp: number_tag_def all_new_insert Let_def split: if_splits)
  qed
qed

lemma split_ref_from_Some: "split_ref_from ident m from = Some (p, r) \<Longrightarrow> m p \<noteq> None"
proof (induction ident m "from" rule: split_ref_from.induct)
  case (1 ident m "from")
  then show ?case by (subst (asm) (2) split_ref_from.simps) (auto simp: Let_def split: option.splits if_splits)
qed

lemma number_ref_new: "number_ref prefix parents t s = Inr s' \<Longrightarrow> all_new prefix (ref_ids s) \<Longrightarrow> all_new prefix (ref_ids s')"
proof -
  assume step: "number_ref prefix parents t s = Inr s'" and new: "all_new prefix (ref_ids s)"
  show ?thesis
  proof (cases "ref_ids s' = ref_ids s")
    case True then show ?thesis using new by simp
  next
    case False
    then obtain ident parent r d where *: "split_ref ident (ref_ids s) = Some (parent, r)" "digits d"
      "ref_ids s' = (ref_ids s)(ident \<mapsto> the (ref_ids s parent) @ ''_R-'' @ d)"
      using step digits_show digits_append [OF digits_show digits_show2]
      by (fastforce simp: number_ref_def Let_def split: option.splits if_splits)
    then obtain v where "ref_ids s parent = Some v" using split_ref_from_Some unfolding split_ref_def by blast
    then show ?thesis using * new new_id_ref unfolding all_new_def by auto
  qed
qed

lemma build_map_new:
  assumes "build_map dbg xml app_id = Some (Inr m)"
  shows "all_new (app_id @ ''_'') m"
proof -
  let ?p = "app_id @ ''_''"
  obtain parsed s r where p: "fold_res (number_tag dbg ?p) parsed numbering_init = Inr s"
      "fold_res (number_ref ?p (parent_int s)) parsed \<lparr>ref_ids = ids s, used_coref = fold (used_suffix ?p (ids s)) parsed (\<lambda>_. []),
        pref_inst = (\<lambda>_. 0), coref_next = (\<lambda>_. 0)\<rparr> = Inr r" "m = ref_ids r"
    using assms by (auto simp: build_map_def Let_def bind_res_Inr_iff map_sum_right)
  have "all_new ?p (ids s)"
    by (rule fold_res_keeps [OF _ p(1), of "\<lambda>s. all_new ?p (ids s)"]) (auto dest: number_tag_new simp: numbering_init_def all_new_def)
  then show ?thesis
    unfolding p(3) by (intro fold_res_keeps [OF _ p(2), of "\<lambda>s. all_new ?p (ref_ids s)"]) (auto dest: number_ref_new)
qed

section \<open>What the checks and the renumbering promise\<close>

text \<open>
  C25: A document is accepted exactly when, among the attribute values in the scope of the program, no
  identifier is declared twice, every reference is to a declared identifier, and in none of them the
  check of suffixes finds, behind a marker of integers, a part that is none. An identifier whose first
  part has no such marker is not restricted.
\<close>

theorem sanity_accepts:
  "sanity_check rd xml = Some (Inr ()) \<longleftrightarrow> (\<exists>app_id parsed. extract_application_id rd = Inr app_id \<and> parse_tags (open_tags xml) = Some parsed \<and>
     (let attrs = in_scope (app_id @ ''_'') (concat (map snd parsed))
      in distinct (ids_of attrs) \<and> set (refs_of attrs) \<subseteq> set (ids_of attrs) \<and>
         list_all (\<lambda>v. bad_integer_suffix v (app_id @ ''_'') = None) (ids_of attrs @ refs_of attrs)))"
proof (cases "extract_application_id rd")
  case (Inr app_id)
  have "(sanity_errors (fold (check_attr (app_id @ ''_'')) as \<lparr>declared = [], dups = [], bad_format = [], references = []\<rparr>) = []) =
      (let attrs = in_scope (app_id @ ''_'') as
       in distinct (ids_of attrs) \<and> set (refs_of attrs) \<subseteq> set (ids_of attrs) \<and>
         list_all (\<lambda>v. bad_integer_suffix v (app_id @ ''_'') = None) (ids_of attrs @ refs_of attrs))" for as
    unfolding sanity_errors_Nil Let_def check_bad check_dups check_references check_declared by (auto simp: list_all_iff)
  then show ?thesis
    unfolding sanity_check_def Inr sum.case using report_ok by (cases "parse_tags (open_tags xml)") simp_all
qed (simp add: sanity_check_def)

text \<open>
  C23: Every identifier the renumbering assigns is in the scope of the program and ends in integers as the
  check demands, for a program whose own identifier holds none of the markers of integers.
\<close>

theorem renumbered_ids_pass:
  assumes "build_map dbg xml app_id = Some (Inr m)" and "\<forall>marker\<in>set INT_MARKERS. str_find marker app_id = None"
    and "m old = Some new"
  shows "starts_with (app_id @ ''_'') new \<and> bad_integer_suffix new (app_id @ ''_'') = None"
  using build_map_new [OF assms(1)] assms(3) new_id_passes [OF _ assms(2)] unfolding all_new_def by blast

definition sample_document :: string where
  "sample_document = ''<Parameter Id='' @ [DQ] @ ''M_UP-x'' @ [DQ] @ ''/>''"

lemma sample_parsed: "parse_tags (open_tags sample_document) = Some [(''Parameter'', [(''Id'', ''M_UP-x'')])]"
  by code_simp

lemma show_one: "show_nat (Suc 0) = ''1''"
  by code_simp

lemma sample_map: "build_map id sample_document ''M'' = Some (Inr [''M_UP-x'' \<mapsto> ''M_UP-1''])"
  by (simp add: build_map_def sample_parsed number_tag_def scoped_id_def get_attr_def starts_with_def param_kind_def
      numbering_init_def number_ref_def show_one Let_def)

theorem renumbered_ids_pass_witness:
  "bad_integer_suffix ''M_UP-x'' ''M_'' \<noteq> None \<and> bad_integer_suffix ''M_UP-1'' ''M_'' = None"
proof -
  have "\<forall>marker\<in>set INT_MARKERS. str_find marker ''M'' = None" by code_simp
  then have "bad_integer_suffix ''M_UP-1'' ''M_'' = None"
    using renumbered_ids_pass [OF sample_map, of "''M_UP-x''" "''M_UP-1''"] by simp
  moreover have "bad_integer_suffix ''M_UP-x'' ''M_'' \<noteq> None" by code_simp
  ultimately show ?thesis by blast
qed

end
