(* ===== verification/Author_Model.thy ===== *)
theory Author_Model
  imports Prod_Sanity
begin

text \<open>
  Authoring of a product (\<^verbatim>\<open>knx-rs-prod/src/author\<close>): the data of an application program, the operations
  that populate it and the identifiers of its parts. A handle is the index of what was registered;
  looking one up may panic, \<open>None\<close>. A writer gives the lines of its elements; \<open>render\<close> prints a line
  as the code does.
\<close>

section \<open>Texts\<close>

definition escape_char :: "char \<Rightarrow> string" where
  "escape_char c = (if c = CHR ''&'' then ''&amp;'' else if c = CHR ''<'' then ''&lt;''
     else if c = CHR ''>'' then ''&gt;'' else if c = DQ then ''&quot;'' else [c])"

definition escape_attr :: "string \<Rightarrow> string" where
  "escape_attr s = concat (map escape_char s)"

definition is_ascii_alphanumeric :: "char \<Rightarrow> bool" where
  "is_ascii_alphanumeric c \<longleftrightarrow> (let n = of_char c :: nat in 48 \<le> n \<and> n \<le> 57 \<or> 65 \<le> n \<and> n \<le> 90 \<or> 97 \<le> n \<and> n \<le> 122)"

definition hex_octet :: "nat \<Rightarrow> string" where
  "hex_octet n = [hex_upper (n div 16), hex_upper (n mod 16)]"

definition encode_id_char :: "char \<Rightarrow> string" where
  "encode_id_char c = (if is_ascii_alphanumeric c then [c] else ''.'' @ hex_octet (of_char c))"

text \<open>The octets of a character that is not ASCII are each written by themselves.\<close>

definition encode_id_component :: "string \<Rightarrow> string" where
  "encode_id_component s = concat (map encode_id_char s)"

definition xml_bool :: "bool \<Rightarrow> string" where
  "xml_bool b = (if b then ''true'' else ''false'')"

definition show_word :: "'a::len word \<Rightarrow> string" where
  "show_word w = show_nat (unat w)"

definition show_signed :: "64 word \<Rightarrow> string" where
  "show_signed w = (if sint w < 0 then ''-'' @ show_nat (nat (- sint w)) else show_nat (nat (sint w)))"

definition pad_zeros :: "nat \<Rightarrow> string \<Rightarrow> string" where
  "pad_zeros n s = replicate (n - length s) (CHR ''0'') @ s"

text \<open>\<open>split_once("_A-")\<close>\<close>

definition split_app :: "string \<Rightarrow> (string \<times> string) option" where
  "split_app s = map_option (\<lambda>i. (take i s, drop (i + 3) s)) (str_find ''_A-'' s)"

section \<open>Lines\<close>

datatype line = Open nat string "(string \<times> string) list" | Single nat string "(string \<times> string) list" | Close nat string | Declaration

definition render_attrs :: "(string \<times> string) list \<Rightarrow> string" where
  "render_attrs attrs = concat (map (\<lambda>(k, v). '' '' @ k @ ''='' @ [DQ] @ v @ [DQ]) attrs)"

fun render :: "line \<Rightarrow> string" where
  "render (Open n t attrs) = replicate n (CHR '' '') @ ''<'' @ t @ render_attrs attrs @ ''>'' @ [LF]"
| "render (Single n t attrs) = replicate n (CHR '' '') @ ''<'' @ t @ render_attrs attrs @ '' />'' @ [LF]"
| "render (Close n t) = replicate n (CHR '' '') @ ''</'' @ t @ ''>'' @ [LF]"
| "render Declaration = ''<?xml'' @ render_attrs [(''version'', ''1.0''), (''encoding'', ''utf-8'')] @ ''?>'' @ [LF]"

type_synonym writer = "line list option"

text \<open>One writer after the other; a panic ends them all.\<close>

fun write_all :: "writer list \<Rightarrow> writer" where
  "write_all [] = Some []"
| "write_all (w # ws) = Option.bind w (\<lambda>ls. map_option ((@) ls) (write_all ws))"

declare write_all.simps [simp del]

definition nth_opt :: "'a list \<Rightarrow> nat \<Rightarrow> 'a option" where
  "nth_opt xs i = (if i < length xs then Some (xs ! i) else None)"

section \<open>The parts of a program\<close>

record DptId =
  dpt_main_no :: u16
  dpt_sub_no :: u16

definition dpst :: "DptId \<Rightarrow> string" where
  "dpst d = ''DPST-'' @ show_word (dpt_main_no d) @ ''-'' @ show_word (dpt_sub_no d)"

record ComFlags =
  fl_read :: bool
  fl_write :: bool
  fl_transmit :: bool
  fl_update :: bool

definition ets_flag :: "bool \<Rightarrow> string" where
  "ets_flag enabled = (if enabled then ''Enabled'' else ''Disabled'')"

datatype Attr = AText | AName | AFunctionText | ASuffixText | AVisibleDescription | AInitialValue | AValue

fun attr_as_str :: "Attr \<Rightarrow> string" where
  "attr_as_str AText = ''Text''" | "attr_as_str AName = ''Name''" | "attr_as_str AFunctionText = ''FunctionText''"
| "attr_as_str ASuffixText = ''SuffixText''" | "attr_as_str AVisibleDescription = ''VisibleDescription''"
| "attr_as_str AInitialValue = ''InitialValue''" | "attr_as_str AValue = ''Value''"

record Translation =
  tr_ref_id :: string
  tr_attribute :: string
  tr_text :: string

record ComObject =
  co_suffix :: string
  co_name :: string
  co_number :: u32
  co_text :: string
  co_function_text :: string
  co_object_size :: string
  co_dpt :: DptId
  co_flags :: ComFlags

record Parameter =
  pa_suffix :: string
  pa_name :: string
  pa_type :: nat
  pa_text :: string
  pa_value :: string
  pa_offset :: nat

datatype ParamTypeKind = KText u16 | KNumber u16 string "64 word" "64 word" | KEnumeration u16 "(string \<times> 64 word) list"

fun size_bits :: "ParamTypeKind \<Rightarrow> u16" where
  "size_bits (KText n) = n" | "size_bits (KNumber n _ _ _) = n" | "size_bits (KEnumeration n _) = n"

record ParameterType =
  pt_name :: string
  pt_kind :: ParamTypeKind

record Baggage =
  bg_target_path :: string
  bg_name :: string
  bg_bytes :: "u8 list"
  bg_time_info :: "string option"
  bg_file_integrity :: "u32 option"

text \<open>The tree of the user interface.\<close>

datatype Dyn = ChannelIndependentBlock "Dyn list"
  | Channel string string string string "Dyn list"
  | ParameterBlock string string string "nat option" bool "Dyn list"
  | ParamRefRef nat
  | ComObjRefRef nat
  | Separator string string string
  | Choose nat "When list"
and When = When string "Dyn list"

text \<open>Load procedures and code segments.\<close>

datatype ProcType = PFull | PPar | PGrp | PFullPar | PFullGrp | PParGrp | PAll

fun proc_ets :: "ProcType \<Rightarrow> string" where
  "proc_ets PFull = ''full''" | "proc_ets PPar = ''par''" | "proc_ets PGrp = ''grp''" | "proc_ets PFullPar = ''full,par''"
| "proc_ets PFullGrp = ''full,grp''" | "proc_ets PParGrp = ''par,grp''" | "proc_ets PAll = ''all''"

datatype SegMemoryType = MRam | MEeprom | MFlash

fun mem_ets :: "SegMemoryType \<Rightarrow> string" where
  "mem_ets MRam = ''RAM''" | "mem_ets MEeprom = ''EEPROM''" | "mem_ets MFlash = ''FLASH''"

datatype ErrorCause = ResourceNotFound | CompareMismatch

fun cause_ets :: "ErrorCause \<Rightarrow> string" where
  "cause_ets ResourceNotFound = ''ResourceNotFound''" | "cause_ets CompareMismatch = ''CompareMismatch''"

datatype ObjTarget = TLsm u8 | TObject u16 u16 | TObjIdx u8 u16

record OnError =
  oe_cause :: ErrorCause
  oe_ignore :: bool
  oe_message_ref :: "string option"

record StepBase =
  sb_applies_to :: "ProcType option"
  sb_on_error :: "OnError list"

datatype Segment = Absolute "string option" u32 u32 "SegMemoryType option" bool | Relative "string option" u32 u8 u32

datatype LoadControl = LcConnect | LcDisconnect | LcRestart | LcUnload ObjTarget | LcLoad ObjTarget | LcLoadCompleted ObjTarget
  | LcAbsSegment ObjTarget u8 u32 u32 u8 u8 u8 | LcRelSegment ObjTarget u32 u8 u8
  | LcWriteMem u32 u32 bool "u8 list option" | LcLoadImageMem u32 u32 | LcWriteRelMem ObjTarget u32 u32 bool "u8 list option"
  | LcCompareProp ObjTarget u16 "u8 list option" | LcLoadImageProp ObjTarget u16 | LcDelay u16
  | LcProgressText "u32 option" "string option"

record LoadProcedure =
  lp_merge_id :: "u8 option"
  lp_steps :: "(LoadControl \<times> StepBase) list"

text \<open>The identity of the product.\<close>

record Product =
  pr_order_number :: string
  pr_text :: string
  pr_is_rail_mounted :: bool
  pr_default_language :: string

record Hardware2Program =
  hp_medium_types :: string
  hp_registration_number :: string

record Hardware =
  hw_serial_number :: string
  hw_version_number :: u32
  hw_name :: string
  hw_bus_current :: u32
  hw_has_individual_address :: bool
  hw_has_application_program :: bool
  hw_products :: "Product list"
  hw_programs :: "Hardware2Program list"

record CatalogItem =
  ci_name :: string
  ci_number :: string
  ci_serial_number :: string
  ci_version_number :: u32
  ci_order_number :: string
  ci_default_language :: string

record CatalogSection =
  cs_key :: string
  cs_name :: string
  cs_number :: string
  cs_default_language :: string
  cs_items :: "CatalogItem list"

record Message =
  me_suffix :: string
  me_name :: string
  me_text :: string

record Options =
  op_text_parameter_encoding :: string
  op_extended_memory :: bool
  op_extended_property :: bool

record AppProgram =
  app_prefix :: string
  parameters :: "Parameter list"
  parameter_types :: "ParameterType list"
  com_objects :: "ComObject list"
  language_order :: "string list"
  translated :: "(string \<times> Translation) list"
  baggages :: "Baggage list"
  segments :: "Segment list"
  parameter_segment :: "nat option"
  load_procedures :: "LoadProcedure list"
  dynamic :: "Dyn list"
  catalog_sections :: "CatalogSection list"
  hardware :: "Hardware list"
  messages :: "Message list"
  address_table_max :: "u32 option"
  association_table_max :: "u32 option"
  options :: "Options option"

definition app_new :: "string \<Rightarrow> AppProgram" where
  "app_new prefix = \<lparr>app_prefix = prefix, parameters = [], parameter_types = [], com_objects = [], language_order = [],
     translated = [], baggages = [], segments = [], parameter_segment = None, load_procedures = [], dynamic = [],
     catalog_sections = [], hardware = [], messages = [], address_table_max = None, association_table_max = None, options = None\<rparr>"

section \<open>Building the parts\<close>

definition parameter_type_text :: "string \<Rightarrow> u16 \<Rightarrow> ParameterType" where
  "parameter_type_text name bits = \<lparr>pt_name = name, pt_kind = KText bits\<rparr>"

definition parameter_type_number :: "string \<Rightarrow> u16 \<Rightarrow> string \<Rightarrow> 64 word \<Rightarrow> 64 word \<Rightarrow> ParameterType" where
  "parameter_type_number name bits number_type lo hi = \<lparr>pt_name = name, pt_kind = KNumber bits number_type lo hi\<rparr>"

definition parameter_type_enumeration :: "string \<Rightarrow> u16 \<Rightarrow> (string \<times> 64 word) list \<Rightarrow> ParameterType" where
  "parameter_type_enumeration name bits values = \<lparr>pt_name = name, pt_kind = KEnumeration bits values\<rparr>"

definition parameter_new :: "string \<Rightarrow> string \<Rightarrow> nat \<Rightarrow> string \<Rightarrow> string \<Rightarrow> nat \<Rightarrow> Parameter" where
  "parameter_new suffix name param_type label value offset =
     \<lparr>pa_suffix = suffix, pa_name = name, pa_type = param_type, pa_text = label, pa_value = value, pa_offset = offset\<rparr>"

definition com_object_new :: "string \<Rightarrow> string \<Rightarrow> u32 \<Rightarrow> string \<Rightarrow> string \<Rightarrow> string \<Rightarrow> DptId \<Rightarrow> ComFlags \<Rightarrow> ComObject" where
  "com_object_new suffix name number label function_text object_size dpt flags =
     \<lparr>co_suffix = suffix, co_name = name, co_number = number, co_text = label, co_function_text = function_text,
      co_object_size = object_size, co_dpt = dpt, co_flags = flags\<rparr>"

definition baggage_new :: "string \<Rightarrow> string \<Rightarrow> u8 list \<Rightarrow> Baggage" where
  "baggage_new target_path name octets =
     \<lparr>bg_target_path = target_path, bg_name = name, bg_bytes = octets, bg_time_info = None, bg_file_integrity = None\<rparr>"

definition with_time_info :: "string \<Rightarrow> Baggage \<Rightarrow> Baggage" where
  "with_time_info time b = b\<lparr>bg_time_info := Some time\<rparr>"

definition with_crc32 :: "u32 \<Rightarrow> Baggage \<Rightarrow> Baggage" where
  "with_crc32 crc b = b\<lparr>bg_file_integrity := Some crc\<rparr>"

definition load_procedure_new :: LoadProcedure where
  "load_procedure_new = \<lparr>lp_merge_id = None, lp_steps = []\<rparr>"

definition with_merge_id :: "u8 \<Rightarrow> LoadProcedure" where
  "with_merge_id merge_id = \<lparr>lp_merge_id = Some merge_id, lp_steps = []\<rparr>"

definition step_with :: "LoadControl \<Rightarrow> StepBase \<Rightarrow> LoadProcedure \<Rightarrow> LoadProcedure" where
  "step_with control base p = p\<lparr>lp_steps := lp_steps p @ [(control, base)]\<rparr>"

definition load_step :: "LoadControl \<Rightarrow> LoadProcedure \<Rightarrow> LoadProcedure" where
  "load_step control p = step_with control \<lparr>sb_applies_to = None, sb_on_error = []\<rparr> p"

definition product_new :: "string \<Rightarrow> string \<Rightarrow> string \<Rightarrow> Product" where
  "product_new order_number label default_language =
     \<lparr>pr_order_number = order_number, pr_text = label, pr_is_rail_mounted = False, pr_default_language = default_language\<rparr>"

definition rail_mounted :: "bool \<Rightarrow> Product \<Rightarrow> Product" where
  "rail_mounted yes p = p\<lparr>pr_is_rail_mounted := yes\<rparr>"

definition hardware_new :: "string \<Rightarrow> u32 \<Rightarrow> string \<Rightarrow> Hardware" where
  "hardware_new serial_number version_number name =
     \<lparr>hw_serial_number = serial_number, hw_version_number = version_number, hw_name = name, hw_bus_current = 0,
      hw_has_individual_address = True, hw_has_application_program = True, hw_products = [], hw_programs = []\<rparr>"

definition bus_current :: "u32 \<Rightarrow> Hardware \<Rightarrow> Hardware" where
  "bus_current ma hw = hw\<lparr>hw_bus_current := ma\<rparr>"

definition has_individual_address :: "bool \<Rightarrow> Hardware \<Rightarrow> Hardware" where
  "has_individual_address yes hw = hw\<lparr>hw_has_individual_address := yes\<rparr>"

definition has_application_program :: "bool \<Rightarrow> Hardware \<Rightarrow> Hardware" where
  "has_application_program yes hw = hw\<lparr>hw_has_application_program := yes\<rparr>"

definition with_product :: "Product \<Rightarrow> Hardware \<Rightarrow> Hardware" where
  "with_product product hw = hw\<lparr>hw_products := hw_products hw @ [product]\<rparr>"

definition with_program :: "Hardware2Program \<Rightarrow> Hardware \<Rightarrow> Hardware" where
  "with_program program hw = hw\<lparr>hw_programs := hw_programs hw @ [program]\<rparr>"

definition hardware2program_new :: "string \<Rightarrow> string \<Rightarrow> Hardware2Program" where
  "hardware2program_new medium_types registration_number =
     \<lparr>hp_medium_types = medium_types, hp_registration_number = registration_number\<rparr>"

definition catalog_item_new :: "string \<Rightarrow> string \<Rightarrow> string \<Rightarrow> u32 \<Rightarrow> string \<Rightarrow> string \<Rightarrow> CatalogItem" where
  "catalog_item_new name number serial_number version_number order_number default_language =
     \<lparr>ci_name = name, ci_number = number, ci_serial_number = serial_number, ci_version_number = version_number,
      ci_order_number = order_number, ci_default_language = default_language\<rparr>"

definition catalog_section_new :: "string \<Rightarrow> string \<Rightarrow> string \<Rightarrow> string \<Rightarrow> CatalogSection" where
  "catalog_section_new section_key name number default_language =
     \<lparr>cs_key = section_key, cs_name = name, cs_number = number, cs_default_language = default_language, cs_items = []\<rparr>"

definition with_item :: "CatalogItem \<Rightarrow> CatalogSection \<Rightarrow> CatalogSection" where
  "with_item item s = s\<lparr>cs_items := cs_items s @ [item]\<rparr>"

definition message_new :: "string \<Rightarrow> string \<Rightarrow> string \<Rightarrow> Message" where
  "message_new suffix name label = \<lparr>me_suffix = suffix, me_name = name, me_text = label\<rparr>"

definition options_new :: "string \<Rightarrow> bool \<Rightarrow> bool \<Rightarrow> Options" where
  "options_new encoding extended_memory extended_property =
     \<lparr>op_text_parameter_encoding = encoding, op_extended_memory = extended_memory, op_extended_property = extended_property\<rparr>"

section \<open>Identifiers\<close>

definition manufacturer :: "AppProgram \<Rightarrow> string" where
  "manufacturer app = (case split_app (app_prefix app) of None \<Rightarrow> app_prefix app | Some (m, tail) \<Rightarrow> m)"

definition app_tail :: "AppProgram \<Rightarrow> string" where
  "app_tail app = (case split_app (app_prefix app) of None \<Rightarrow> [] | Some (m, tail) \<Rightarrow> tail)"

definition baggage_id :: "AppProgram \<Rightarrow> Baggage \<Rightarrow> string" where
  "baggage_id app b = (let path = map (\<lambda>c. if c = CHR 0x5C then CHR ''/'' else c) (bg_target_path b)
     in manufacturer app @ ''_BG-'' @ encode_id_component path @ ''-'' @ encode_id_component (bg_name b))"

definition param_id :: "AppProgram \<Rightarrow> Parameter \<Rightarrow> string" where
  "param_id app p = app_prefix app @ ''_UP-'' @ pa_suffix p"

definition com_object_id :: "AppProgram \<Rightarrow> ComObject \<Rightarrow> string" where
  "com_object_id app co = app_prefix app @ ''_O-'' @ co_suffix co"

definition param_type_xml_id :: "AppProgram \<Rightarrow> ParameterType \<Rightarrow> string" where
  "param_type_xml_id app t = app_prefix app @ ''_PT-'' @ encode_id_component (pt_name t)"

definition param_ref_ref_id :: "AppProgram \<Rightarrow> nat \<Rightarrow> string option" where
  "param_ref_ref_id app r = map_option (\<lambda>p. let pid = param_id app p in pid @ ''_R-'' @ pid) (nth_opt (parameters app) r)"

definition com_object_ref_ref_id :: "AppProgram \<Rightarrow> nat \<Rightarrow> string option" where
  "com_object_ref_ref_id app r =
     map_option (\<lambda>co. com_object_id app co @ ''_R-'' @ show_word (co_number co)) (nth_opt (com_objects app) r)"

definition segment_id :: "AppProgram \<Rightarrow> nat \<Rightarrow> string option" where
  "segment_id app i = map_option (\<lambda>seg. case seg of
       Absolute _ _ _ _ _ \<Rightarrow> app_prefix app @ ''_AS-'' @ show_nat i
     | Relative _ _ lsm _ \<Rightarrow> app_prefix app @ ''_RS-'' @ pad_zeros 2 (show_word lsm) @ ''-'' @ pad_zeros 5 (show_nat i))
     (nth_opt (segments app) i)"

definition hardware_id :: "AppProgram \<Rightarrow> string \<Rightarrow> u32 \<Rightarrow> string" where
  "hardware_id app serial version = manufacturer app @ ''_H-'' @ encode_id_component serial @ ''-'' @ show_word version"

definition product_id :: "string \<Rightarrow> string \<Rightarrow> string" where
  "product_id hw_id order = hw_id @ ''_P-'' @ encode_id_component order"

section \<open>Registering\<close>

definition add_baggage :: "Baggage \<Rightarrow> AppProgram \<Rightarrow> AppProgram \<times> nat" where
  "add_baggage b app = (app\<lparr>baggages := baggages app @ [b]\<rparr>, length (baggages app))"

definition push_translation :: "string \<Rightarrow> string \<Rightarrow> string \<Rightarrow> string \<Rightarrow> AppProgram \<Rightarrow> AppProgram" where
  "push_translation language ref_id attribute text app =
     (let app = (if language \<notin> set (language_order app) then app\<lparr>language_order := language_order app @ [language]\<rparr> else app)
      in app\<lparr>translated := translated app @ [(language, \<lparr>tr_ref_id = ref_id, tr_attribute = attribute, tr_text = text\<rparr>)]\<rparr>)"

definition translate_param :: "string \<Rightarrow> nat \<Rightarrow> Attr \<Rightarrow> string \<Rightarrow> AppProgram \<Rightarrow> AppProgram option" where
  "translate_param language param attribute text app =
     map_option (\<lambda>p. push_translation language (param_id app p) (attr_as_str attribute) text app) (nth_opt (parameters app) param)"

definition translate_com_object :: "string \<Rightarrow> nat \<Rightarrow> Attr \<Rightarrow> string \<Rightarrow> AppProgram \<Rightarrow> AppProgram option" where
  "translate_com_object language com_object attribute text app =
     map_option (\<lambda>co. push_translation language (com_object_id app co) (attr_as_str attribute) text app) (nth_opt (com_objects app) com_object)"

definition translate_raw :: "string \<Rightarrow> string \<Rightarrow> Attr \<Rightarrow> string \<Rightarrow> AppProgram \<Rightarrow> AppProgram" where
  "translate_raw language ref_id attribute text app = push_translation language ref_id (attr_as_str attribute) text app"

definition add_param :: "Parameter \<Rightarrow> AppProgram \<Rightarrow> AppProgram \<times> nat \<times> nat" where
  "add_param p app = (app\<lparr>parameters := parameters app @ [p]\<rparr>, length (parameters app), length (parameters app))"

definition add_com_object :: "ComObject \<Rightarrow> AppProgram \<Rightarrow> AppProgram \<times> nat \<times> nat" where
  "add_com_object co app = (app\<lparr>com_objects := com_objects app @ [co]\<rparr>, length (com_objects app), length (com_objects app))"

definition add_parameter_type :: "ParameterType \<Rightarrow> AppProgram \<Rightarrow> AppProgram \<times> nat" where
  "add_parameter_type t app = (app\<lparr>parameter_types := parameter_types app @ [t]\<rparr>, length (parameter_types app))"

fun position :: "('a \<Rightarrow> bool) \<Rightarrow> 'a list \<Rightarrow> nat option" where
  "position P [] = None"
| "position P (x # xs) = (if P x then Some 0 else map_option Suc (position P xs))"

definition param_ref :: "string \<Rightarrow> AppProgram \<Rightarrow> nat option" where
  "param_ref suffix app = position (\<lambda>p. pa_suffix p = suffix) (parameters app)"

definition com_object_ref :: "string \<Rightarrow> AppProgram \<Rightarrow> nat option" where
  "com_object_ref suffix app = position (\<lambda>c. co_suffix c = suffix) (com_objects app)"

definition parameter_type_id :: "string \<Rightarrow> AppProgram \<Rightarrow> nat option" where
  "parameter_type_id name app = position (\<lambda>t. pt_name t = name) (parameter_types app)"

definition add_dynamic :: "Dyn \<Rightarrow> AppProgram \<Rightarrow> AppProgram" where
  "add_dynamic node app = app\<lparr>dynamic := dynamic app @ [node]\<rparr>"

definition add_segment :: "Segment \<Rightarrow> AppProgram \<Rightarrow> AppProgram \<times> nat" where
  "add_segment seg app = (app\<lparr>segments := segments app @ [seg]\<rparr>, length (segments app))"

definition set_parameter_segment :: "nat \<Rightarrow> AppProgram \<Rightarrow> AppProgram" where
  "set_parameter_segment seg app = app\<lparr>parameter_segment := Some seg\<rparr>"

definition add_load_procedure :: "LoadProcedure \<Rightarrow> AppProgram \<Rightarrow> AppProgram" where
  "add_load_procedure p app = app\<lparr>load_procedures := load_procedures app @ [p]\<rparr>"

definition add_catalog_section :: "CatalogSection \<Rightarrow> AppProgram \<Rightarrow> AppProgram" where
  "add_catalog_section s app = app\<lparr>catalog_sections := catalog_sections app @ [s]\<rparr>"

definition add_hardware :: "Hardware \<Rightarrow> AppProgram \<Rightarrow> AppProgram" where
  "add_hardware h app = app\<lparr>hardware := hardware app @ [h]\<rparr>"

definition add_message :: "Message \<Rightarrow> AppProgram \<Rightarrow> AppProgram" where
  "add_message m app = app\<lparr>messages := messages app @ [m]\<rparr>"

definition set_address_table :: "u32 \<Rightarrow> AppProgram \<Rightarrow> AppProgram" where
  "set_address_table n app = app\<lparr>address_table_max := Some n\<rparr>"

definition set_association_table :: "u32 \<Rightarrow> AppProgram \<Rightarrow> AppProgram" where
  "set_association_table n app = app\<lparr>association_table_max := Some n\<rparr>"

definition set_options :: "Options \<Rightarrow> AppProgram \<Rightarrow> AppProgram" where
  "set_options opts app = app\<lparr>options := Some opts\<rparr>"

datatype AuthorError = DuplicateComObjectNumber u32

fun validate_loop :: "u32 set \<Rightarrow> ComObject list \<Rightarrow> AuthorError + unit" where
  "validate_loop seen [] = Inr ()"
| "validate_loop seen (co # rest) =
     (if co_number co \<in> seen then Inl (DuplicateComObjectNumber (co_number co)) else validate_loop (insert (co_number co) seen) rest)"

definition validate :: "AppProgram \<Rightarrow> AuthorError + unit" where
  "validate app = validate_loop {} (com_objects app)"

lemma validate_ok: "validate app = Inr () \<longleftrightarrow> distinct (map co_number (com_objects app))"
proof -
  have "validate_loop seen xs = Inr () \<longleftrightarrow> distinct (map co_number xs) \<and> seen \<inter> co_number ` set xs = {}" for seen xs
    by (induction seen xs rule: validate_loop.induct) auto
  then show ?thesis by (simp add: validate_def)
qed

end
