(* ===== verification/Author_Write.thy ===== *)
theory Author_Write
  imports Author_Model
begin

text \<open>
  The writers of the product document (\<^verbatim>\<open>knx-rs-prod/src/author\<close>): one per section, the nodes of the
  user interface, the steps of the load procedures, and the document that holds them all.
\<close>

text \<open>A section of which nothing is written when there is nothing to hold.\<close>

definition section_of :: "nat \<Rightarrow> string \<Rightarrow> writer list \<Rightarrow> writer" where
  "section_of indent t body = write_all ([Some [Open indent t []]] @ body @ [Some [Close indent t]])"

definition opt_attr :: "string \<Rightarrow> string option \<Rightarrow> (string \<times> string) list" where
  "opt_attr k v = (case v of None \<Rightarrow> [] | Some s \<Rightarrow> [(k, s)])"

definition flag_attr :: "string \<Rightarrow> bool \<Rightarrow> (string \<times> string) list" where
  "flag_attr k b = (if b then [(k, ''true'')] else [])"

section \<open>Parameters and com objects\<close>

definition enumeration_lines :: "string \<Rightarrow> nat \<Rightarrow> (string \<times> 64 word) list \<Rightarrow> line list" where
  "enumeration_lines ident indent values = map (\<lambda>(i, text, value).
     Single indent ''Enumeration'' [(''Text'', escape_attr text), (''Value'', show_signed value), (''Id'', ident @ ''_EN-'' @ show_nat i)])
     (enumerate 0 values)"

definition parameter_type_lines :: "AppProgram \<Rightarrow> nat \<Rightarrow> ParameterType \<Rightarrow> line list" where
  "parameter_type_lines app indent t =
     (let ident = param_type_xml_id app t
      in [Open (indent + 2) ''ParameterType'' [(''Id'', ident), (''Name'', escape_attr (pt_name t))]]
         @ (case pt_kind t of
              KText n \<Rightarrow> [Single (indent + 4) ''TypeText'' [(''SizeInBit'', show_word n)]]
            | KNumber n number_type lo hi \<Rightarrow>
                [Single (indent + 4) ''TypeNumber'' [(''SizeInBit'', show_word n), (''Type'', escape_attr number_type),
                   (''minInclusive'', show_signed lo), (''maxInclusive'', show_signed hi)]]
            | KEnumeration n values \<Rightarrow>
                [Open (indent + 4) ''TypeRestriction'' [(''Base'', ''Value''), (''SizeInBit'', show_word n)]]
                @ enumeration_lines ident (indent + 6) values @ [Close (indent + 4) ''TypeRestriction''])
         @ [Close (indent + 2) ''ParameterType''])"

definition write_parameter_types :: "AppProgram \<Rightarrow> nat \<Rightarrow> writer" where
  "write_parameter_types app indent =
     (if parameter_types app = [] then Some []
      else section_of indent ''ParameterTypes'' (map (\<lambda>t. Some (parameter_type_lines app indent t)) (parameter_types app)))"

definition parameter_lines :: "AppProgram \<Rightarrow> nat \<Rightarrow> string \<Rightarrow> Parameter \<Rightarrow> writer" where
  "parameter_lines app indent code_segment p = map_option (\<lambda>ty.
     [Open (indent + 2) ''Union'' [(''SizeInBit'', show_word (size_bits (pt_kind ty)))],
      Single (indent + 4) ''Memory'' [(''CodeSegment'', code_segment), (''Offset'', show_nat (pa_offset p)), (''BitOffset'', ''0'')],
      Single (indent + 4) ''Parameter'' [(''Id'', param_id app p), (''Name'', escape_attr (pa_name p)), (''Offset'', ''0''),
        (''BitOffset'', ''0''), (''ParameterType'', param_type_xml_id app ty), (''Text'', escape_attr (pa_text p)),
        (''Value'', escape_attr (pa_value p))],
      Close (indent + 2) ''Union'']) (nth_opt (parameter_types app) (pa_type p))"

definition write_parameters :: "AppProgram \<Rightarrow> nat \<Rightarrow> writer" where
  "write_parameters app indent =
     Option.bind (case parameter_segment app of None \<Rightarrow> Some (app_prefix app @ ''_RS-04-00000'') | Some seg \<Rightarrow> segment_id app seg)
       (\<lambda>code_segment. section_of indent ''Parameters'' (map (parameter_lines app indent code_segment) (parameters app)))"

definition write_parameter_refs :: "AppProgram \<Rightarrow> nat \<Rightarrow> writer" where
  "write_parameter_refs app indent = section_of indent ''ParameterRefs'' (map (\<lambda>p. let ident = param_id app p in
     Some [Single (indent + 2) ''ParameterRef'' [(''Id'', ident @ ''_R-'' @ ident), (''RefId'', ident)]]) (parameters app))"

definition write_com_object_table :: "AppProgram \<Rightarrow> nat \<Rightarrow> writer" where
  "write_com_object_table app indent = section_of indent ''ComObjectTable'' (map (\<lambda>co.
     Some [Single (indent + 2) ''ComObject'' [(''Id'', com_object_id app co), (''Name'', escape_attr (co_name co)),
       (''Number'', show_word (co_number co)), (''Text'', escape_attr (co_text co)), (''FunctionText'', escape_attr (co_function_text co)),
       (''ObjectSize'', escape_attr (co_object_size co)), (''DatapointType'', dpst (co_dpt co)), (''Priority'', ''Low''),
       (''ReadFlag'', ets_flag (fl_read (co_flags co))), (''WriteFlag'', ets_flag (fl_write (co_flags co))),
       (''CommunicationFlag'', ''Enabled''), (''TransmitFlag'', ets_flag (fl_transmit (co_flags co))),
       (''UpdateFlag'', ets_flag (fl_update (co_flags co))), (''ReadOnInitFlag'', ''Disabled'')]]) (com_objects app))"

definition write_com_object_refs :: "AppProgram \<Rightarrow> nat \<Rightarrow> writer" where
  "write_com_object_refs app indent = section_of indent ''ComObjectRefs'' (map (\<lambda>co. let ident = com_object_id app co in
     Some [Single (indent + 2) ''ComObjectRef'' [(''Id'', ident @ ''_R-'' @ show_word (co_number co)), (''RefId'', ident)]]) (com_objects app))"

section \<open>The user interface\<close>

fun write_dyn_node :: "AppProgram \<Rightarrow> nat \<Rightarrow> Dyn \<Rightarrow> writer" and write_when :: "AppProgram \<Rightarrow> nat \<Rightarrow> When \<Rightarrow> writer" where
  "write_dyn_node app indent (ChannelIndependentBlock children) =
     section_of indent ''ChannelIndependentBlock'' (map (write_dyn_node app (indent + 2)) children)"
| "write_dyn_node app indent (Channel suffix number name text children) =
     write_all ([Some [Open indent ''Channel'' [(''Id'', app_prefix app @ ''_CH-'' @ suffix), (''Number'', escape_attr number),
        (''Name'', escape_attr name), (''Text'', escape_attr text)]]]
       @ map (write_dyn_node app (indent + 2)) children @ [Some [Close indent ''Channel'']])"
| "write_dyn_node app indent (ParameterBlock suffix name text text_param_ref show_in_tree children) =
     Option.bind (case text_param_ref of None \<Rightarrow> Some [] | Some r \<Rightarrow> map_option (\<lambda>i. [(''TextParameterRefId'', i)]) (param_ref_ref_id app r))
       (\<lambda>tracked. write_all ([Some [Open indent ''ParameterBlock'' ([(''Id'', app_prefix app @ ''_PB-'' @ suffix), (''Name'', escape_attr name),
            (''Text'', escape_attr text)] @ tracked @ flag_attr ''ShowInComObjectTree'' show_in_tree)]]
          @ map (write_dyn_node app (indent + 2)) children @ [Some [Close indent ''ParameterBlock'']]))"
| "write_dyn_node app indent (ParamRefRef r) =
     map_option (\<lambda>i. [Single indent ''ParameterRefRef'' [(''RefId'', i)]]) (param_ref_ref_id app r)"
| "write_dyn_node app indent (ComObjRefRef r) =
     map_option (\<lambda>i. [Single indent ''ComObjectRefRef'' [(''RefId'', i)]]) (com_object_ref_ref_id app r)"
| "write_dyn_node app indent (Separator suffix text ui_hint) =
     Some [Single indent ''ParameterSeparator'' [(''Id'', app_prefix app @ ''_PS-'' @ suffix), (''Text'', escape_attr text),
       (''UIHint'', escape_attr ui_hint)]]"
| "write_dyn_node app indent (Choose r whens) =
     Option.bind (param_ref_ref_id app r) (\<lambda>i. write_all ([Some [Open indent ''choose'' [(''ParamRefId'', i)]]]
       @ map (write_when app indent) whens @ [Some [Close indent ''choose'']]))"
| "write_when app indent (When test children) =
     write_all ([Some [Open (indent + 2) ''when'' [(''test'', escape_attr test)]]]
       @ map (write_dyn_node app (indent + 4)) children @ [Some [Close (indent + 2) ''when'']])"

definition write_dynamic :: "AppProgram \<Rightarrow> nat \<Rightarrow> writer" where
  "write_dynamic app indent = (if dynamic app = [] then Some []
     else section_of indent ''Dynamic'' (map (write_dyn_node app (indent + 2)) (dynamic app)))"

section \<open>Code and load procedures\<close>

fun segment_line :: "string \<Rightarrow> nat \<Rightarrow> Segment \<Rightarrow> line" where
  "segment_line ident indent (Absolute name sz address memory_type user_memory) =
     Single indent ''AbsoluteSegment'' ([(''Id'', ident)] @ opt_attr ''Name'' (map_option escape_attr name) @ [(''Size'', show_word sz)]
       @ opt_attr ''MemoryType'' (map_option mem_ets memory_type) @ [(''Address'', show_word address)] @ flag_attr ''UserMemory'' user_memory)"
| "segment_line ident indent (Relative name sz lsm offset) =
     Single indent ''RelativeSegment'' ([(''Id'', ident)] @ opt_attr ''Name'' (map_option escape_attr name)
       @ [(''Offset'', show_word offset), (''Size'', show_word sz), (''LoadStateMachine'', show_word lsm)])"

fun is_absolute :: "Segment \<Rightarrow> bool" where
  "is_absolute (Absolute _ _ _ _ _) = True" | "is_absolute (Relative _ _ _ _) = False"

definition write_code :: "AppProgram \<Rightarrow> nat \<Rightarrow> writer" where
  "write_code app indent = (if segments app = [] then Some []
     else section_of indent ''Code'' (map (\<lambda>(i, seg). map_option (\<lambda>ident. [segment_line ident (indent + 2) seg]) (segment_id app i))
       (filter (\<lambda>(i, seg). is_absolute seg) (enumerate 0 (segments app)) @ filter (\<lambda>(i, seg). \<not> is_absolute seg) (enumerate 0 (segments app)))))"

fun target_attrs :: "ObjTarget \<Rightarrow> (string \<times> string) list" where
  "target_attrs (TLsm n) = [(''LsmIdx'', show_word n)]"
| "target_attrs (TObject obj_type occ) = [(''ObjType'', show_word obj_type)] @ (if occ \<noteq> 0 then [(''Occurrence'', show_word occ)] else [])"
| "target_attrs (TObjIdx obj_idx occ) = [(''ObjIdx'', show_word obj_idx)] @ (if occ \<noteq> 0 then [(''Occurrence'', show_word occ)] else [])"

definition push_inline :: "u8 list option \<Rightarrow> (string \<times> string) list" where
  "push_inline data = opt_attr ''InlineData'' (map_option (\<lambda>bs. concat (map (\<lambda>b. hex_octet (unat b)) bs)) data)"

fun load_element :: "LoadControl \<Rightarrow> string \<times> (string \<times> string) list" where
  "load_element LcConnect = (''LdCtrlConnect'', [])"
| "load_element LcDisconnect = (''LdCtrlDisconnect'', [])"
| "load_element LcRestart = (''LdCtrlRestart'', [])"
| "load_element (LcUnload t) = (''LdCtrlUnload'', target_attrs t)"
| "load_element (LcLoad t) = (''LdCtrlLoad'', target_attrs t)"
| "load_element (LcLoadCompleted t) = (''LdCtrlLoadCompleted'', target_attrs t)"
| "load_element (LcAbsSegment t seg_type address sz access mem_type seg_flags) = (''LdCtrlAbsSegment'', target_attrs t
     @ [(''SegType'', show_word seg_type), (''Address'', show_word address), (''Size'', show_word sz), (''Access'', show_word access),
        (''MemType'', show_word mem_type), (''SegFlags'', show_word seg_flags)])"
| "load_element (LcRelSegment t sz mode fill) = (''LdCtrlRelSegment'', target_attrs t
     @ [(''Size'', show_word sz), (''Mode'', show_word mode), (''Fill'', show_word fill)])"
| "load_element (LcWriteMem address sz verify inline_data) = (''LdCtrlWriteMem'',
     [(''Address'', show_word address), (''Size'', show_word sz)] @ flag_attr ''Verify'' verify @ push_inline inline_data)"
| "load_element (LcLoadImageMem address sz) = (''LdCtrlLoadImageMem'', [(''Address'', show_word address), (''Size'', show_word sz)])"
| "load_element (LcWriteRelMem t offset sz verify inline_data) = (''LdCtrlWriteRelMem'', target_attrs t
     @ [(''Offset'', show_word offset), (''Size'', show_word sz)] @ flag_attr ''Verify'' verify @ push_inline inline_data)"
| "load_element (LcCompareProp t prop_id inline_data) = (''LdCtrlCompareProp'',
     push_inline inline_data @ target_attrs t @ [(''PropId'', show_word prop_id)])"
| "load_element (LcLoadImageProp t prop_id) = (''LdCtrlLoadImageProp'', target_attrs t @ [(''PropId'', show_word prop_id)])"
| "load_element (LcDelay milliseconds) = (''LdCtrlDelay'', [(''MilliSeconds'', show_word milliseconds)])"
| "load_element (LcProgressText text_id message_ref) = (''LdCtrlProgressText'',
     opt_attr ''TextId'' (map_option show_word text_id) @ opt_attr ''MessageRef'' (map_option escape_attr message_ref))"

definition on_error_line :: "nat \<Rightarrow> OnError \<Rightarrow> line" where
  "on_error_line indent e = Single indent ''OnError'' ([(''Cause'', cause_ets (oe_cause e))] @ flag_attr ''Ignore'' (oe_ignore e)
     @ opt_attr ''MessageRef'' (map_option escape_attr (oe_message_ref e)))"

definition write_step :: "nat \<Rightarrow> LoadControl \<times> StepBase \<Rightarrow> line list" where
  "write_step indent step = (case step of (control, base) \<Rightarrow>
     (let (name, attrs) = load_element control; attrs = attrs @ opt_attr ''AppliesTo'' (map_option proc_ets (sb_applies_to base))
      in if sb_on_error base = [] then [Single indent name attrs]
         else [Open indent name attrs] @ map (on_error_line (indent + 2)) (sb_on_error base) @ [Close indent name]))"

definition write_load_procedures :: "AppProgram \<Rightarrow> nat \<Rightarrow> writer" where
  "write_load_procedures app indent = (if load_procedures app = [] then Some []
     else section_of indent ''LoadProcedures'' (map (\<lambda>p.
       Some ([Open (indent + 2) ''LoadProcedure'' (opt_attr ''MergeId'' (map_option show_word (lp_merge_id p)))]
         @ concat (map (write_step (indent + 4)) (lp_steps p)) @ [Close (indent + 2) ''LoadProcedure''])) (load_procedures app)))"

section \<open>The product\<close>

definition write_baggages :: "AppProgram \<Rightarrow> nat \<Rightarrow> writer" where
  "write_baggages app indent = (if baggages app = [] then Some []
     else section_of indent ''Baggages'' (map (\<lambda>b.
       Some [Open (indent + 2) ''Baggage'' ([(''TargetPath'', escape_attr (bg_target_path b)), (''Name'', escape_attr (bg_name b))]
           @ opt_attr ''FileIntegrity'' (map_option (\<lambda>crc. concat (map (\<lambda>x. hex_octet (unat x)) (to_be32 crc))) (bg_file_integrity b))
           @ [(''Id'', baggage_id app b)]),
         Single (indent + 4) ''FileInfo'' (opt_attr ''TimeInfo'' (map_option escape_attr (bg_time_info b))),
         Close (indent + 2) ''Baggage'']) (baggages app)))"

definition first_seen :: "string list \<Rightarrow> string list" where
  "first_seen xs = fold (\<lambda>x acc. if x \<in> set acc then acc else acc @ [x]) xs []"

definition language_lines :: "AppProgram \<Rightarrow> nat \<Rightarrow> string \<Rightarrow> line list" where
  "language_lines app indent lang =
     (let mine = map snd (filter (\<lambda>(l, t). l = lang) (translated app))
      in [Open (indent + 2) ''Language'' [(''Identifier'', escape_attr lang)],
          Open (indent + 4) ''TranslationUnit'' [(''RefId'', app_prefix app)]]
         @ concat (map (\<lambda>ref_id. [Open (indent + 6) ''TranslationElement'' [(''RefId'', ref_id)]]
             @ map (\<lambda>t. Single (indent + 8) ''Translation'' [(''AttributeName'', tr_attribute t), (''Text'', escape_attr (tr_text t))])
                 (filter (\<lambda>t. tr_ref_id t = ref_id) mine)
             @ [Close (indent + 6) ''TranslationElement'']) (first_seen (map tr_ref_id mine)))
         @ [Close (indent + 4) ''TranslationUnit'', Close (indent + 2) ''Language''])"

definition write_languages :: "AppProgram \<Rightarrow> nat \<Rightarrow> writer" where
  "write_languages app indent = (if translated app = [] then Some []
     else section_of indent ''Languages'' (map (\<lambda>lang. Some (language_lines app indent lang)) (language_order app)))"

definition write_options :: "nat \<Rightarrow> Options \<Rightarrow> writer" where
  "write_options indent opts = Some [Single indent ''Options'' [(''TextParameterEncoding'', escape_attr (op_text_parameter_encoding opts)),
     (''SupportsExtendedMemoryServices'', xml_bool (op_extended_memory opts)),
     (''SupportsExtendedPropertyServices'', xml_bool (op_extended_property opts))]]"

definition write_address_table :: "nat \<Rightarrow> u32 \<Rightarrow> writer" where
  "write_address_table indent max_entries = Some [Single indent ''AddressTable'' [(''MaxEntries'', show_word max_entries)]]"

definition write_association_table :: "nat \<Rightarrow> u32 \<Rightarrow> writer" where
  "write_association_table indent max_entries = Some [Single indent ''AssociationTable'' [(''MaxEntries'', show_word max_entries)]]"

definition catalog_item_line :: "AppProgram \<Rightarrow> nat \<Rightarrow> CatalogItem \<Rightarrow> line" where
  "catalog_item_line app indent item =
     (let hw = hardware_id app (ci_serial_number item) (ci_version_number item)
      in Single indent ''CatalogItem''
        [(''Id'', hw @ ''_HP-'' @ app_tail app @ ''_CI-'' @ encode_id_component (ci_serial_number item) @ ''-'' @ show_word (ci_version_number item)),
         (''Name'', escape_attr (ci_name item)), (''Number'', escape_attr (ci_number item)),
         (''ProductRefId'', product_id hw (ci_order_number item)), (''Hardware2ProgramRefId'', hw @ ''_HP-'' @ app_tail app),
         (''DefaultLanguage'', escape_attr (ci_default_language item))])"

definition write_catalog :: "AppProgram \<Rightarrow> nat \<Rightarrow> writer" where
  "write_catalog app indent = (if catalog_sections app = [] then Some []
     else section_of indent ''Catalog'' (map (\<lambda>s.
       Some ([Open (indent + 2) ''CatalogSection'' [(''Id'', manufacturer app @ ''_CS-'' @ encode_id_component (cs_key s)),
           (''Name'', escape_attr (cs_name s)), (''Number'', escape_attr (cs_number s)), (''DefaultLanguage'', escape_attr (cs_default_language s))]]
         @ map (catalog_item_line app (indent + 4)) (cs_items s) @ [Close (indent + 2) ''CatalogSection''])) (catalog_sections app)))"

definition product_lines :: "string \<Rightarrow> nat \<Rightarrow> Product \<Rightarrow> line list" where
  "product_lines hw_id indent p =
     [Open (indent + 6) ''Product'' [(''Id'', product_id hw_id (pr_order_number p)), (''Text'', escape_attr (pr_text p)),
        (''OrderNumber'', escape_attr (pr_order_number p)), (''IsRailMounted'', xml_bool (pr_is_rail_mounted p)),
        (''DefaultLanguage'', escape_attr (pr_default_language p))],
      Single (indent + 8) ''RegistrationInfo'' [(''RegistrationStatus'', ''Registered'')],
      Close (indent + 6) ''Product'']"

definition program_lines :: "AppProgram \<Rightarrow> string \<Rightarrow> nat \<Rightarrow> Hardware2Program \<Rightarrow> line list" where
  "program_lines app hw_id indent prog =
     [Open (indent + 6) ''Hardware2Program'' [(''Id'', hw_id @ ''_HP-'' @ app_tail app), (''MediumTypes'', escape_attr (hp_medium_types prog))],
      Single (indent + 8) ''ApplicationProgramRef'' [(''RefId'', app_prefix app)],
      Single (indent + 8) ''RegistrationInfo'' [(''RegistrationStatus'', ''Registered''),
        (''RegistrationNumber'', escape_attr (hp_registration_number prog))],
      Close (indent + 6) ''Hardware2Program'']"

definition hardware_lines :: "AppProgram \<Rightarrow> nat \<Rightarrow> Hardware \<Rightarrow> line list" where
  "hardware_lines app indent hw =
     (let hw_id = hardware_id app (hw_serial_number hw) (hw_version_number hw)
      in [Open (indent + 2) ''Hardware'' [(''Id'', hw_id), (''Name'', escape_attr (hw_name hw)), (''SerialNumber'', escape_attr (hw_serial_number hw)),
           (''VersionNumber'', show_word (hw_version_number hw)), (''BusCurrent'', show_word (hw_bus_current hw)),
           (''HasIndividualAddress'', xml_bool (hw_has_individual_address hw)),
           (''HasApplicationProgram'', xml_bool (hw_has_application_program hw))],
          Open (indent + 4) ''Products'' []] @ concat (map (product_lines hw_id indent) (hw_products hw)) @ [Close (indent + 4) ''Products'',
          Open (indent + 4) ''Hardware2Programs'' []] @ concat (map (program_lines app hw_id indent) (hw_programs hw))
         @ [Close (indent + 4) ''Hardware2Programs'', Close (indent + 2) ''Hardware''])"

definition write_hardware :: "AppProgram \<Rightarrow> nat \<Rightarrow> writer" where
  "write_hardware app indent = (if hardware app = [] then Some []
     else section_of indent ''Hardware'' (map (\<lambda>hw. Some (hardware_lines app indent hw)) (hardware app)))"

definition write_messages :: "AppProgram \<Rightarrow> nat \<Rightarrow> writer" where
  "write_messages app indent = (if messages app = [] then Some []
     else section_of indent ''Messages'' (map (\<lambda>m. Some [Single (indent + 2) ''Message''
       [(''Id'', app_prefix app @ ''_M-'' @ me_suffix m), (''Name'', escape_attr (me_name m)), (''Text'', escape_attr (me_text m))]])
       (messages app)))"

section \<open>The document\<close>

record ProgramInfo =
  pi_name :: string
  pi_mask_version :: string
  pi_default_language :: string
  pi_application_number :: u32
  pi_application_version :: u32
  pi_program_type :: string
  pi_load_procedure_style :: string
  pi_pei_type :: string
  pi_dynamic_table_management :: bool
  pi_linkable :: bool
  pi_min_ets_version :: string
  pi_ip_config :: string

definition program_info_new :: "string \<Rightarrow> string \<Rightarrow> string \<Rightarrow> u32 \<Rightarrow> u32 \<Rightarrow> ProgramInfo" where
  "program_info_new name mask_version default_language application_number application_version =
     \<lparr>pi_name = name, pi_mask_version = mask_version, pi_default_language = default_language,
      pi_application_number = application_number, pi_application_version = application_version,
      pi_program_type = ''ApplicationProgram'', pi_load_procedure_style = ''MergedProcedure'', pi_pei_type = ''0'',
      pi_dynamic_table_management = False, pi_linkable = True, pi_min_ets_version = ''5.0'', pi_ip_config = ''Custom''\<rparr>"

definition program_type :: "string \<Rightarrow> ProgramInfo \<Rightarrow> ProgramInfo" where
  "program_type value info = info\<lparr>pi_program_type := value\<rparr>"

definition load_procedure_style :: "string \<Rightarrow> ProgramInfo \<Rightarrow> ProgramInfo" where
  "load_procedure_style value info = info\<lparr>pi_load_procedure_style := value\<rparr>"

definition pei_type :: "string \<Rightarrow> ProgramInfo \<Rightarrow> ProgramInfo" where
  "pei_type value info = info\<lparr>pi_pei_type := value\<rparr>"

definition dynamic_table_management :: "bool \<Rightarrow> ProgramInfo \<Rightarrow> ProgramInfo" where
  "dynamic_table_management value info = info\<lparr>pi_dynamic_table_management := value\<rparr>"

definition linkable :: "bool \<Rightarrow> ProgramInfo \<Rightarrow> ProgramInfo" where
  "linkable value info = info\<lparr>pi_linkable := value\<rparr>"

definition min_ets_version :: "string \<Rightarrow> ProgramInfo \<Rightarrow> ProgramInfo" where
  "min_ets_version value info = info\<lparr>pi_min_ets_version := value\<rparr>"

definition ip_config :: "string \<Rightarrow> ProgramInfo \<Rightarrow> ProgramInfo" where
  "ip_config value info = info\<lparr>pi_ip_config := value\<rparr>"

definition join_spaces :: "string list \<Rightarrow> string" where
  "join_spaces ws = (case ws of [] \<Rightarrow> [] | w # ws \<Rightarrow> w @ concat (map (\<lambda>w. '' '' @ w) ws))"

definition program_attrs :: "AppProgram \<Rightarrow> ProgramInfo \<Rightarrow> (string \<times> string) list" where
  "program_attrs app info =
     [(''Id'', app_prefix app), (''ProgramType'', escape_attr (pi_program_type info)), (''MaskVersion'', escape_attr (pi_mask_version info)),
      (''Name'', escape_attr (pi_name info)), (''LoadProcedureStyle'', escape_attr (pi_load_procedure_style info)),
      (''PeiType'', escape_attr (pi_pei_type info)), (''DefaultLanguage'', escape_attr (pi_default_language info)),
      (''DynamicTableManagement'', xml_bool (pi_dynamic_table_management info)), (''Linkable'', xml_bool (pi_linkable info)),
      (''MinEtsVersion'', escape_attr (pi_min_ets_version info)), (''IPConfig'', escape_attr (pi_ip_config info)),
      (''ApplicationNumber'', show_word (pi_application_number info)), (''ApplicationVersion'', show_word (pi_application_version info)),
      (''ReplacesVersions'', join_spaces (map show_nat [0 ..< unat (pi_application_version info)]))]"

definition write_static :: "AppProgram \<Rightarrow> nat \<Rightarrow> writer list" where
  "write_static app inner =
     [write_code app inner, write_parameter_types app inner, write_parameters app inner, write_parameter_refs app inner,
      write_com_object_table app inner, write_com_object_refs app inner,
      (case address_table_max app of None \<Rightarrow> Some [] | Some n \<Rightarrow> write_address_table inner n),
      (case association_table_max app of None \<Rightarrow> Some [] | Some n \<Rightarrow> write_association_table inner n),
      write_load_procedures app inner, write_messages app inner,
      (case options app of None \<Rightarrow> Some [] | Some opts \<Rightarrow> write_options inner opts)]"

definition write_application_program :: "AppProgram \<Rightarrow> ProgramInfo \<Rightarrow> nat \<Rightarrow> writer" where
  "write_application_program app info indent = write_all (
     [Some [Open indent ''ApplicationPrograms'' [], Open (indent + 2) ''ApplicationProgram'' (program_attrs app info),
        Open (indent + 4) ''Static'' []]]
     @ write_static app (indent + 6)
     @ [Some [Close (indent + 4) ''Static''], write_dynamic app (indent + 4),
        Some [Close (indent + 2) ''ApplicationProgram'', Close indent ''ApplicationPrograms'']])"

definition document_lines :: "AppProgram \<Rightarrow> ProgramInfo \<Rightarrow> string \<Rightarrow> string \<Rightarrow> writer" where
  "document_lines app info created_by tool_version = write_all
     [Some [Declaration, Open 0 ''KNX'' [(''xmlns'', ''http://knx.org/xml/project/20''), (''CreatedBy'', escape_attr created_by),
          (''ToolVersion'', escape_attr tool_version)],
        Open 2 ''ManufacturerData'' [], Open 4 ''Manufacturer'' [(''RefId'', manufacturer app)]],
      write_catalog app 6, write_application_program app info 6, write_baggages app 6, write_hardware app 6, write_languages app 6,
      Some [Close 4 ''Manufacturer'', Close 2 ''ManufacturerData'', Close 0 ''KNX'']]"

definition write_knx_document :: "AppProgram \<Rightarrow> ProgramInfo \<Rightarrow> string \<Rightarrow> string \<Rightarrow> string option" where
  "write_knx_document app info created_by tool_version =
     map_option (\<lambda>ls. concat (map render ls)) (document_lines app info created_by tool_version)"

end
