(* ===== verification/Author_Read.thy ===== *)
theory Author_Read
  imports Author_Model
begin

text \<open>
  Reading an authored document back (\<^verbatim>\<open>knx-rs-prod/src/author\<close> against \<^verbatim>\<open>xml_scan.rs\<close>): the scanner finds in
  the printed lines the attributes that were written, in their order.
\<close>

section \<open>Reading a line back\<close>

definition name_ok :: "string \<Rightarrow> bool" where
  "name_ok s \<longleftrightarrow> s \<noteq> [] \<and> list_all is_ascii_alphanumeric s"

fun line_ok :: "line \<Rightarrow> bool" where
  "line_ok (Open n t attrs) \<longleftrightarrow> name_ok t \<and> (\<forall>(k, v)\<in>set attrs. name_ok k \<and> DQ \<notin> set v)"
| "line_ok (Single n t attrs) \<longleftrightarrow> name_ok t \<and> (\<forall>(k, v)\<in>set attrs. name_ok k \<and> DQ \<notin> set v)"
| "line_ok (Close n t) \<longleftrightarrow> name_ok t"
| "line_ok Declaration \<longleftrightarrow> True"

fun line_attrs :: "line \<Rightarrow> (string \<times> string) list list" where
  "line_attrs (Open n t attrs) = [attrs]" | "line_attrs (Single n t attrs) = [attrs]" | "line_attrs _ = []"

lemma alnum_facts:
  assumes "is_ascii_alphanumeric c"
  shows "\<not> byte_is_whitespace c" "\<not> is_quote c" "c \<notin> {CHR ''='', CHR ''>'', CHR ''<'', CHR ''/'', CHR ''!'', CHR ''?'', CHR '' ''}"
    "\<not> continuation (of_char c)" "name_char c"
proof -
  define n where "n = (of_char c :: nat)"
  have n: "48 \<le> n \<and> n \<le> 57 \<or> 65 \<le> n \<and> n \<le> 90 \<or> 97 \<le> n \<and> n \<le> 122"
    using assms by (simp add: is_ascii_alphanumeric_def n_def Let_def)
  have c: "c = char_of n" by (simp add: n_def)
  have u: "unat (of_nat n :: u32) = n" using n by (simp add: unat_of_nat take_bit_nat_def) auto
  show ws: "\<not> byte_is_whitespace c"
    using n u unfolding byte_is_whitespace_def char_is_whitespace_def n_def [symmetric] word_le_nat_alt
    by (auto simp: word_unat_eq_iff)
  show "\<not> is_quote c" using n by (auto simp: is_quote_def DQ_def SQ_def n_def)
  show eq: "c \<notin> {CHR ''='', CHR ''>'', CHR ''<'', CHR ''/'', CHR ''!'', CHR ''?'', CHR '' ''}" using n by (auto simp: n_def)
  show "\<not> continuation (of_char c)" using n by (simp add: continuation_def n_def [symmetric]) auto
  show "name_char c" using ws eq by (simp add: name_char_def)
qed

lemma blank_facts: "byte_is_whitespace (CHR '' '')" "\<not> name_char (CHR ''='')" "\<not> byte_is_whitespace (CHR ''='')" "\<not> byte_is_whitespace DQ"
    "is_quote DQ" "\<not> is_quote (CHR '' '')" "\<not> is_quote (CHR ''/'')" "\<not> is_quote (CHR ''?'')" "\<not> is_quote (CHR ''='')"
  by code_simp+

lemma name_chars: "name_ok k \<Longrightarrow> \<forall>c\<in>set k. name_char c" "name_ok k \<Longrightarrow> \<forall>c\<in>set k. \<not> byte_is_whitespace c"
  by (auto simp: name_ok_def list_all_iff dest: alnum_facts)

lemma attrs_loop_step:
  assumes k: "name_ok k" and v: "DQ \<notin> set v"
  shows "attrs_loop ('' '' @ k @ ''='' @ [DQ] @ v @ [DQ] @ rest) = map_option ((#) (k, v)) (attrs_loop rest)"
proof -
  let ?tail = "''='' @ [DQ] @ v @ [DQ] @ rest"
  have ne: "k \<noteq> []" using k by (simp add: name_ok_def)
  have hd: "\<not> byte_is_whitespace (hd k)" "\<not> continuation (of_char (hd k))"
    using k hd_in_set [OF ne] alnum_facts by (auto simp: name_ok_def list_all_iff)
  have a: "dropWhile byte_is_whitespace ('' '' @ k @ ?tail) = k @ ?tail" using hd(1) ne blank_facts by (cases k) simp_all
  have b: "takeWhile name_char (k @ ?tail) = k" "dropWhile name_char (k @ ?tail) = ?tail"
    using name_chars [OF k] blank_facts by (simp_all add: takeWhile_append2 dropWhile_append2)
  have c: "at_boundary (k @ ?tail)" "at_boundary ?tail" using hd(2) ne by (cases k; simp add: at_boundary_def continuation_def)+
  have d: "dropWhile byte_is_whitespace ?tail = ?tail" "dropWhile byte_is_whitespace ([DQ] @ v @ [DQ] @ rest) = DQ # v @ [DQ] @ rest"
    using blank_facts by simp_all
  have e: "takeWhile (\<lambda>c. c \<noteq> DQ) (v @ [DQ] @ rest) = v" "dropWhile (\<lambda>c. c \<noteq> DQ) (v @ [DQ] @ rest) = DQ # rest"
    using v by (auto simp: takeWhile_append dropWhile_append)
  show ?thesis
    by (subst attrs_loop.simps) (use a b c d e ne blank_facts in \<open>simp add: Let_def\<close>)
qed

lemma attrs_loop_end: "attrs_loop [] = Some []" "attrs_loop '' '' = Some []"
  using blank_facts by (simp_all add: attrs_loop.simps at_boundary_def)

lemma render_attrs_Cons: "render_attrs ((k, v) # attrs) = '' '' @ k @ ''='' @ [DQ] @ v @ [DQ] @ render_attrs attrs"
  by (simp add: render_attrs_def)

lemma attrs_loop_rendered:
  "\<forall>(k, v)\<in>set attrs. name_ok k \<and> DQ \<notin> set v \<Longrightarrow> attrs_loop rest = Some [] \<Longrightarrow> attrs_loop (render_attrs attrs @ rest) = Some attrs"
proof (induction attrs)
  case Nil then show ?case by (simp add: render_attrs_def)
next
  case (Cons a attrs)
  obtain k v where a: "a = (k, v)" by (cases a)
  then show ?case using Cons attrs_loop_step [of k v "render_attrs attrs @ rest"] by (simp add: render_attrs_Cons)
qed

lemma render_attrs_start: "render_attrs attrs = [] \<or> (\<exists>r. render_attrs attrs = CHR '' '' # r @ [DQ])"
proof (cases attrs rule: rev_cases)
  case (snoc ys y)
  obtain k v where "y = (k, v)" by (cases y)
  then show ?thesis unfolding snoc by (cases ys) (auto simp: render_attrs_def)
qed (simp add: render_attrs_def)

lemma parse_rendered:
  assumes t: "name_ok t" and attrs: "\<forall>(k, v)\<in>set attrs. name_ok k \<and> DQ \<notin> set v"
  shows "parse_attrs (t @ render_attrs attrs) = Some attrs" "parse_attrs (t @ render_attrs attrs @ '' /'') = Some attrs"
proof -
  have ne: "t \<noteq> []" "last t \<noteq> CHR ''/''" using t alnum_facts(3) by (auto simp: name_ok_def list_all_iff)
  have "last (t @ render_attrs attrs) \<noteq> CHR ''/''"
    using render_attrs_start [of attrs] ne by (auto simp: DQ_def)
  then have s: "strip_slash (t @ render_attrs attrs) = t @ render_attrs attrs" by (simp add: strip_slash_def)
  have s': "strip_slash (t @ render_attrs attrs @ '' /'') = t @ render_attrs attrs @ '' ''"
    by (simp add: strip_slash_def butlast_append)
  have drop: "dropWhile (\<lambda>c. \<not> byte_is_whitespace c) (t @ CHR '' '' # r) = CHR '' '' # r" "dropWhile (\<lambda>c. \<not> byte_is_whitespace c) t = []" for r
    using name_chars(2) [OF t] blank_facts by (simp_all add: dropWhile_append2)
  note loop = attrs_loop_rendered [OF attrs, of "[]"] attrs_loop_rendered [OF attrs, of "'' ''"] attrs_loop_end
  show "parse_attrs (t @ render_attrs attrs) = Some attrs"
    unfolding parse_attrs_def s using render_attrs_start [of attrs] drop loop by auto
  show "parse_attrs (t @ render_attrs attrs @ '' /'') = Some attrs"
    unfolding parse_attrs_def s' using render_attrs_start [of attrs] drop loop by auto
qed

lemma closed_plain: "list_all (\<lambda>c. \<not> is_quote c \<and> c \<noteq> CHR ''>'') w \<Longrightarrow> closed_tag r \<Longrightarrow> closed_tag (w @ r)"
  by (induction w) (auto intro: closed_tag.plain)

lemma closed_name: "name_ok k \<Longrightarrow> closed_tag r \<Longrightarrow> closed_tag (k @ r)"
  by (rule closed_plain) (auto simp: name_ok_def list_all_iff dest: alnum_facts)

lemma closed_attrs: "\<forall>(k, v)\<in>set attrs. name_ok k \<and> DQ \<notin> set v \<Longrightarrow> closed_tag r \<Longrightarrow> closed_tag (render_attrs attrs @ r)"
proof (induction attrs)
  case (Cons a attrs)
  obtain k v where a: "a = (k, v)" by (cases a)
  have "closed_tag (DQ # v @ DQ # render_attrs attrs @ r)" using Cons a blank_facts by (intro closed_tag.quoted) auto
  then have eq: "closed_tag (''='' @ DQ # v @ DQ # render_attrs attrs @ r)" using blank_facts by (intro closed_plain) simp_all
  have "closed_tag (k @ ''='' @ DQ # v @ DQ # render_attrs attrs @ r)" using Cons.prems a by (intro closed_name [OF _ eq]) auto
  then have "closed_tag ('' '' @ k @ ''='' @ DQ # v @ DQ # render_attrs attrs @ r)" using blank_facts by (auto intro: closed_tag.plain)
  then show ?case by (simp add: a render_attrs_Cons)
qed (simp add: render_attrs_def)

lemma open_tags_blank: "open_tags (replicate n (CHR '' '') @ s) = open_tags s" "open_tags (LF # s) = open_tags s"
  by (induction n) (simp_all add: open_tags.simps LF_def)

lemma open_tags_open:
  assumes "closed_tag (body @ ''>'')" and "body \<noteq> []" and "hd body \<notin> {CHR ''/'', CHR ''!'', CHR ''?''}"
  shows "open_tags (CHR ''<'' # body @ CHR ''>'' # rest) = \<lparr>tag_of = tag_name body, body_of = body\<rparr> # open_tags rest"
proof -
  obtain c r where body: "body = c # r" using assms(2) by (cases body) simp_all
  have "tag_end None ((body @ ''>'') @ rest) = Some (length body)" using closed_tag_end [OF assms(1), of rest] by simp
  then have e: "find_tag_end (CHR ''<'' # body @ CHR ''>'' # rest) 0 = Some (length body + 1)" by (simp add: find_tag_end_def)
  have "skipped (CHR ''<'' # body @ CHR ''>'' # rest) = None" using assms(3) by (simp add: body skipped_tag)
  then show ?thesis using e by (simp add: open_tags.simps Let_def)
qed

lemma open_tags_skip:
  assumes "closed_tag (c # body @ ''>'')" and "c = CHR ''/'' \<or> c = CHR ''?''"
  shows "open_tags (CHR ''<'' # c # body @ CHR ''>'' # rest) = open_tags rest"
proof -
  have "tag_end None ((c # body @ ''>'') @ rest) = Some (length body + 1)" using closed_tag_end [OF assms(1), of rest] by simp
  then have "skipped (CHR ''<'' # c # body @ CHR ''>'' # rest) = Some (length body + 3)"
    using assms(2) by (auto simp: skipped_def starts_with_def find_tag_end_def)
  moreover have "drop (length body + 3) (CHR ''<'' # c # body @ CHR ''>'' # rest) = rest" by (simp add: eval_nat_numeral)
  ultimately show ?thesis by (simp only: open_tags.simps option.case simp_thms if_False)
qed

fun opened :: "line \<Rightarrow> OpenTag list" where
  "opened (Open n t attrs) = [\<lparr>tag_of = tag_name (t @ render_attrs attrs), body_of = t @ render_attrs attrs\<rparr>]"
| "opened (Single n t attrs) = [\<lparr>tag_of = tag_name (t @ render_attrs attrs @ '' /''), body_of = t @ render_attrs attrs @ '' /''\<rparr>]"
| "opened _ = []"

lemma open_tags_render: "line_ok l \<Longrightarrow> open_tags (render l @ rest) = opened l @ open_tags rest"
proof (cases l)
  case (Open n t attrs)
  assume ok: "line_ok l"
  then have t: "t \<noteq> []" "hd t \<notin> {CHR ''/'', CHR ''!'', CHR ''?''}" using alnum_facts(3) Open by (cases t; auto simp: name_ok_def)+
  have "closed_tag ((t @ render_attrs attrs) @ ''>'')" using ok Open by (auto intro: closed_name closed_attrs closed_tag.closing)
  from open_tags_open [OF this, of "LF # rest"] t show ?thesis by (simp add: Open open_tags_blank)
next
  case (Single n t attrs)
  assume ok: "line_ok l"
  then have t: "t \<noteq> []" "hd t \<notin> {CHR ''/'', CHR ''!'', CHR ''?''}" using alnum_facts(3) Single by (cases t; auto simp: name_ok_def)+
  have "closed_tag ('' /'' @ ''>'')" using blank_facts by (intro closed_plain) (simp_all add: closed_tag.closing)
  then have "closed_tag ((t @ render_attrs attrs @ '' /'') @ ''>'')" using ok Single by (auto intro: closed_name closed_attrs)
  from open_tags_open [OF this, of "LF # rest"] t show ?thesis by (simp add: Single open_tags_blank)
next
  case (Close n t)
  assume ok: "line_ok l"
  then have "closed_tag (t @ ''>'')" using Close by (auto intro: closed_name closed_tag.closing)
  then have "closed_tag (CHR ''/'' # t @ ''>'')" using blank_facts by (intro closed_tag.plain) simp_all
  from open_tags_skip [OF this, of "LF # rest"] show ?thesis by (simp add: Close open_tags_blank)
next
  case Declaration
  have attrs: "\<forall>(k, v)\<in>set [(''version'', ''1.0''), (''encoding'', ''utf-8'')]. name_ok k \<and> DQ \<notin> set v" by code_simp
  have "closed_tag (''?'' @ ''>'')" using blank_facts by (intro closed_plain) (simp_all add: closed_tag.closing)
  then have decl: "closed_tag (render_attrs [(''version'', ''1.0''), (''encoding'', ''utf-8'')] @ ''?'' @ ''>'')" using attrs by (rule closed_attrs [rotated])
  have "closed_tag (''?xml'' @ render_attrs [(''version'', ''1.0''), (''encoding'', ''utf-8'')] @ ''?'' @ ''>'')"
    using closed_plain [OF _ decl, of "''?xml''"] blank_facts by (simp add: is_quote_def DQ_def SQ_def)
  then have "closed_tag (CHR ''?'' # (''xml'' @ render_attrs [(''version'', ''1.0''), (''encoding'', ''utf-8'')] @ ''?'') @ ''>'')" by simp
  from open_tags_skip [OF this, of "LF # rest"] show ?thesis by (simp add: Declaration open_tags_blank)
qed

lemma document_read:
  "list_all line_ok ls \<Longrightarrow>
   \<exists>parsed. parse_tags (open_tags (concat (map render ls))) = Some parsed \<and> map snd parsed = concat (map line_attrs ls)"
proof (induction ls)
  case Nil then show ?case by (simp add: open_tags.simps)
next
  case (Cons l ls)
  then obtain parsed where p: "parse_tags (open_tags (concat (map render ls))) = Some parsed" "map snd parsed = concat (map line_attrs ls)" by auto
  have "open_tags (concat (map render (l # ls))) = opened l @ open_tags (concat (map render ls))" using Cons.prems open_tags_render by simp
  then show ?case using Cons.prems p by (cases l) (simp_all add: parse_rendered)
qed

end
