(* ===== verification/Authoring.thy ===== *)
theory Authoring
  imports Author_Write Author_Read
begin

text \<open>
  What the authored document is worth. The scanner reads every line back as the attributes that were
  written, and in the document of a program that was populated through the operations every
  reference into the program that was made from a handle names an identifier that the document
  declares. What remains are the identifiers the caller spells out himself and the default code
  segment of a program that pins none.
\<close>

section \<open>Values without quotes\<close>

lemma DQ_char [simp]: "(DQ = Char b0 b1 b2 b3 b4 b5 b6 b7) = (\<not> b0 \<and> b1 \<and> \<not> b2 \<and> \<not> b3 \<and> \<not> b4 \<and> b5 \<and> \<not> b6 \<and> \<not> b7)"
  by (simp add: DQ_def)

lemma hex_upper_plain: "n < 16 \<Longrightarrow> hex_upper n \<noteq> DQ"
proof -
  assume "n < 16"
  then have "n \<in> {0 ..< 16}" by simp
  moreover have "\<forall>n\<in>{0 ..< 16}. hex_upper n \<noteq> DQ" by code_simp
  ultimately show ?thesis by blast
qed

lemma hex_octet_plain: "n < 256 \<Longrightarrow> DQ \<notin> set (hex_octet n)"
  using hex_upper_plain [of "n div 16"] hex_upper_plain [of "n mod 16"] by (auto simp: hex_octet_def less_mult_imp_div_less)

lemma show_nat_plain: "DQ \<notin> set (show_nat n)"
  using digits_plain [OF digits_show] blank_facts(5) by blast

lemma escape_plain: "DQ \<notin> set (escape_attr s)"
  by (auto simp: escape_attr_def escape_char_def DQ_def)

lemma of_char_bound: "(of_char c :: nat) < 256"
  by simp

lemma encode_plain: "DQ \<notin> set (encode_id_component s)"
  using hex_octet_plain [OF of_char_bound] alnum_facts(2) blank_facts(5)
  by (auto simp: encode_id_component_def encode_id_char_def DQ_def)

lemma const_plain:
  "DQ \<notin> set (xml_bool b)" "DQ \<notin> set (ets_flag b)" "DQ \<notin> set (mem_ets m)" "DQ \<notin> set (proc_ets q)" "DQ \<notin> set (cause_ets e)" "DQ \<notin> set (attr_as_str a)"
  by (auto simp: xml_bool_def ets_flag_def DQ_def; cases m; cases q; cases e; cases a; auto simp: DQ_def)+

lemma show_plain: "DQ \<notin> set (show_word w)" "DQ \<notin> set (show_signed i)" "DQ \<notin> set (dpst d)"
  using show_nat_plain by (auto simp: show_word_def show_signed_def dpst_def DQ_def)

lemma octet_plain: "DQ \<notin> set (hex_octet (unat (b :: u8)))"
  using unsigned_less [of b, where 'a = nat] by (intro hex_octet_plain) simp

lemma pad_plain: "DQ \<notin> set s \<Longrightarrow> DQ \<notin> set (pad_zeros n s)"
  by (auto simp: pad_zeros_def DQ_def)

lemma join_plain: "(\<And>w. w \<in> set ws \<Longrightarrow> DQ \<notin> set w) \<Longrightarrow> DQ \<notin> set (join_spaces ws)"
  by (cases ws) (auto simp: join_spaces_def DQ_def)

lemmas plain_values = show_nat_plain escape_plain encode_plain const_plain show_plain octet_plain pad_plain

section \<open>What every line of the document satisfies\<close>

text \<open>
  The attributes by which the authored document refers to a part of the program: those the sanity
  check follows, and three it does not know.
\<close>

definition program_ref :: "string \<Rightarrow> bool" where
  "program_ref k \<longleftrightarrow> is_reference_attr k \<or> k = ''CodeSegment'' \<or> k = ''ParameterType'' \<or> k = ''MessageRef''"

text \<open>\<open>R k v\<close> is to say that the value \<open>v\<close> of a reference \<open>k\<close> is accounted for.\<close>

definition good_attr :: "(string \<Rightarrow> string \<Rightarrow> bool) \<Rightarrow> string \<Rightarrow> string \<times> string \<Rightarrow> bool" where
  "good_attr R prefix a \<longleftrightarrow> (case a of (k, v) \<Rightarrow>
     name_ok k \<and> DQ \<notin> set v \<and> (program_ref k \<longrightarrow> starts_with prefix v \<longrightarrow> R k v))"

fun good_line :: "(string \<Rightarrow> string \<Rightarrow> bool) \<Rightarrow> string \<Rightarrow> line \<Rightarrow> bool" where
  "good_line R prefix (Open n t attrs) \<longleftrightarrow> name_ok t \<and> list_all (good_attr R prefix) attrs"
| "good_line R prefix (Single n t attrs) \<longleftrightarrow> name_ok t \<and> list_all (good_attr R prefix) attrs"
| "good_line R prefix (Close n t) \<longleftrightarrow> name_ok t"
| "good_line R prefix Declaration \<longleftrightarrow> True"

lemma good_line_ok: "good_line R prefix l \<Longrightarrow> line_ok l"
  by (cases l) (auto simp: good_attr_def list_all_iff)

definition writes :: "(line \<Rightarrow> bool) \<Rightarrow> writer \<Rightarrow> bool" where
  "writes P w \<longleftrightarrow> (\<exists>ls. w = Some ls \<and> list_all P ls)"

lemma writes_Some: "writes P (Some ls) \<longleftrightarrow> list_all P ls"
  by (simp add: writes_def)

lemma writes_all: "writes P (write_all ws) \<longleftrightarrow> (\<forall>w\<in>set ws. writes P w)"
proof (induction ws)
  case (Cons w ws)
  then show ?case by (cases w; cases "write_all ws") (auto simp: writes_def write_all.simps)
qed (simp add: writes_def write_all.simps)

lemma writes_section: "writes P (section_of i t body) \<longleftrightarrow> P (Open i t []) \<and> P (Close i t) \<and> (\<forall>w\<in>set body. writes P w)"
  unfolding section_of_def writes_all by (auto simp: writes_Some)

lemma writes_map_option: "x = Some y \<Longrightarrow> writes P (map_option f x) \<longleftrightarrow> list_all P (f y)"
  by (simp add: writes_def)

text \<open>The names of elements and attributes, and the attributes that are not references.\<close>

lemma names_ok:
  "name_ok ''AbsoluteSegment''" "name_ok ''Access''" "name_ok ''Address''" "name_ok ''AddressTable''" "name_ok ''ApplicationNumber''"
  "name_ok ''ApplicationProgram''" "name_ok ''ApplicationProgramRef''" "name_ok ''ApplicationPrograms''" "name_ok ''ApplicationVersion''" "name_ok ''AppliesTo''"
  "name_ok ''AssociationTable''" "name_ok ''AttributeName''" "name_ok ''Baggage''" "name_ok ''Baggages''" "name_ok ''Base''"
  "name_ok ''BitOffset''" "name_ok ''BusCurrent''" "name_ok ''Catalog''" "name_ok ''CatalogItem''" "name_ok ''CatalogSection''"
  "name_ok ''Cause''" "name_ok ''Channel''" "name_ok ''ChannelIndependentBlock''" "name_ok ''Code''" "name_ok ''CodeSegment''"
  "name_ok ''ComObject''" "name_ok ''ComObjectRef''" "name_ok ''ComObjectRefRef''" "name_ok ''ComObjectRefs''" "name_ok ''ComObjectTable''"
  "name_ok ''CommunicationFlag''" "name_ok ''CreatedBy''" "name_ok ''DatapointType''" "name_ok ''DefaultLanguage''" "name_ok ''Dynamic''"
  "name_ok ''DynamicTableManagement''" "name_ok ''Enumeration''" "name_ok ''FileInfo''" "name_ok ''FileIntegrity''" "name_ok ''Fill''"
  "name_ok ''FunctionText''" "name_ok ''Hardware''" "name_ok ''Hardware2Program''" "name_ok ''Hardware2ProgramRefId''" "name_ok ''Hardware2Programs''"
  "name_ok ''HasApplicationProgram''" "name_ok ''HasIndividualAddress''" "name_ok ''IPConfig''" "name_ok ''Id''" "name_ok ''Identifier''"
  "name_ok ''Ignore''" "name_ok ''InlineData''" "name_ok ''IsRailMounted''" "name_ok ''KNX''" "name_ok ''Language''"
  "name_ok ''Languages''" "name_ok ''LdCtrlAbsSegment''" "name_ok ''LdCtrlCompareProp''" "name_ok ''LdCtrlConnect''" "name_ok ''LdCtrlDelay''"
  "name_ok ''LdCtrlDisconnect''" "name_ok ''LdCtrlLoad''" "name_ok ''LdCtrlLoadCompleted''" "name_ok ''LdCtrlLoadImageMem''" "name_ok ''LdCtrlLoadImageProp''"
  "name_ok ''LdCtrlProgressText''" "name_ok ''LdCtrlRelSegment''" "name_ok ''LdCtrlRestart''" "name_ok ''LdCtrlUnload''" "name_ok ''LdCtrlWriteMem''"
  "name_ok ''LdCtrlWriteRelMem''" "name_ok ''Linkable''" "name_ok ''LoadProcedure''" "name_ok ''LoadProcedureStyle''" "name_ok ''LoadProcedures''"
  "name_ok ''LoadStateMachine''" "name_ok ''LsmIdx''" "name_ok ''Manufacturer''" "name_ok ''ManufacturerData''" "name_ok ''MaskVersion''"
  "name_ok ''MaxEntries''" "name_ok ''MediumTypes''" "name_ok ''MemType''" "name_ok ''Memory''" "name_ok ''MemoryType''"
  "name_ok ''MergeId''" "name_ok ''Message''" "name_ok ''MessageRef''" "name_ok ''Messages''" "name_ok ''MilliSeconds''"
  "name_ok ''MinEtsVersion''" "name_ok ''Mode''" "name_ok ''Name''" "name_ok ''Number''" "name_ok ''ObjIdx''"
  "name_ok ''ObjType''" "name_ok ''ObjectSize''" "name_ok ''Occurrence''" "name_ok ''Offset''" "name_ok ''OnError''"
  "name_ok ''Options''" "name_ok ''OrderNumber''" "name_ok ''ParamRefId''" "name_ok ''Parameter''" "name_ok ''ParameterBlock''"
  "name_ok ''ParameterRef''" "name_ok ''ParameterRefRef''" "name_ok ''ParameterRefs''" "name_ok ''ParameterSeparator''" "name_ok ''ParameterType''"
  "name_ok ''ParameterTypes''" "name_ok ''Parameters''" "name_ok ''PeiType''" "name_ok ''Priority''" "name_ok ''Product''"
  "name_ok ''ProductRefId''" "name_ok ''Products''" "name_ok ''ProgramType''" "name_ok ''PropId''" "name_ok ''ReadFlag''"
  "name_ok ''ReadOnInitFlag''" "name_ok ''RefId''" "name_ok ''RegistrationInfo''" "name_ok ''RegistrationNumber''" "name_ok ''RegistrationStatus''"
  "name_ok ''RelativeSegment''" "name_ok ''ReplacesVersions''" "name_ok ''SegFlags''" "name_ok ''SegType''" "name_ok ''SerialNumber''"
  "name_ok ''ShowInComObjectTree''" "name_ok ''Size''" "name_ok ''SizeInBit''" "name_ok ''Static''" "name_ok ''SupportsExtendedMemoryServices''"
  "name_ok ''SupportsExtendedPropertyServices''" "name_ok ''TargetPath''" "name_ok ''Text''" "name_ok ''TextId''" "name_ok ''TextParameterEncoding''"
  "name_ok ''TextParameterRefId''" "name_ok ''TimeInfo''" "name_ok ''ToolVersion''" "name_ok ''Translation''" "name_ok ''TranslationElement''"
  "name_ok ''TranslationUnit''" "name_ok ''TransmitFlag''" "name_ok ''Type''" "name_ok ''TypeNumber''" "name_ok ''TypeRestriction''"
  "name_ok ''TypeText''" "name_ok ''UIHint''" "name_ok ''Union''" "name_ok ''UpdateFlag''" "name_ok ''UserMemory''"
  "name_ok ''Value''" "name_ok ''Verify''" "name_ok ''VersionNumber''" "name_ok ''WriteFlag''" "name_ok ''choose''"
  "name_ok ''maxInclusive''" "name_ok ''minInclusive''" "name_ok ''test''" "name_ok ''when''" "name_ok ''xmlns''"
  by (simp_all add: name_ok_def is_ascii_alphanumeric_def)

lemma names_plain:
  "\<not> program_ref ''Access''" "\<not> program_ref ''Address''" "\<not> program_ref ''ApplicationNumber''" "\<not> program_ref ''ApplicationVersion''" "\<not> program_ref ''AppliesTo''"
  "\<not> program_ref ''AttributeName''" "\<not> program_ref ''Base''" "\<not> program_ref ''BitOffset''" "\<not> program_ref ''BusCurrent''" "\<not> program_ref ''Cause''"
  "\<not> program_ref ''CommunicationFlag''" "\<not> program_ref ''CreatedBy''" "\<not> program_ref ''DatapointType''" "\<not> program_ref ''DefaultLanguage''"
  "\<not> program_ref ''DynamicTableManagement''" "\<not> program_ref ''FileIntegrity''" "\<not> program_ref ''Fill''" "\<not> program_ref ''FunctionText''" "\<not> program_ref ''HasApplicationProgram''"
  "\<not> program_ref ''HasIndividualAddress''" "\<not> program_ref ''IPConfig''" "\<not> program_ref ''Id''" "\<not> program_ref ''Identifier''" "\<not> program_ref ''Ignore''"
  "\<not> program_ref ''InlineData''" "\<not> program_ref ''IsRailMounted''" "\<not> program_ref ''Linkable''" "\<not> program_ref ''LoadProcedureStyle''" "\<not> program_ref ''LoadStateMachine''"
  "\<not> program_ref ''LsmIdx''" "\<not> program_ref ''MaskVersion''" "\<not> program_ref ''MaxEntries''" "\<not> program_ref ''MediumTypes''" "\<not> program_ref ''MemType''"
  "\<not> program_ref ''MemoryType''" "\<not> program_ref ''MergeId''" "\<not> program_ref ''MilliSeconds''" "\<not> program_ref ''MinEtsVersion''"
  "\<not> program_ref ''Mode''" "\<not> program_ref ''Name''" "\<not> program_ref ''Number''" "\<not> program_ref ''ObjIdx''" "\<not> program_ref ''ObjType''"
  "\<not> program_ref ''ObjectSize''" "\<not> program_ref ''Occurrence''" "\<not> program_ref ''Offset''" "\<not> program_ref ''OrderNumber''"
  "\<not> program_ref ''PeiType''" "\<not> program_ref ''Priority''" "\<not> program_ref ''ProgramType''" "\<not> program_ref ''PropId''" "\<not> program_ref ''ReadFlag''"
  "\<not> program_ref ''ReadOnInitFlag''" "\<not> program_ref ''RegistrationNumber''" "\<not> program_ref ''RegistrationStatus''" "\<not> program_ref ''ReplacesVersions''" "\<not> program_ref ''SegFlags''"
  "\<not> program_ref ''SegType''" "\<not> program_ref ''SerialNumber''" "\<not> program_ref ''ShowInComObjectTree''" "\<not> program_ref ''Size''" "\<not> program_ref ''SizeInBit''"
  "\<not> program_ref ''SupportsExtendedMemoryServices''" "\<not> program_ref ''SupportsExtendedPropertyServices''" "\<not> program_ref ''TargetPath''" "\<not> program_ref ''Text''" "\<not> program_ref ''TextId''"
  "\<not> program_ref ''TextParameterEncoding''" "\<not> program_ref ''TimeInfo''" "\<not> program_ref ''ToolVersion''" "\<not> program_ref ''TransmitFlag''" "\<not> program_ref ''Type''"
  "\<not> program_ref ''UIHint''" "\<not> program_ref ''UpdateFlag''" "\<not> program_ref ''UserMemory''" "\<not> program_ref ''Value''" "\<not> program_ref ''Verify''"
  "\<not> program_ref ''VersionNumber''" "\<not> program_ref ''WriteFlag''" "\<not> program_ref ''maxInclusive''" "\<not> program_ref ''minInclusive''" "\<not> program_ref ''test''"
  "\<not> program_ref ''xmlns''"
  by (simp_all add: program_ref_def is_reference_attr_def ends_with_def)

lemma good_plain: "\<not> program_ref k \<Longrightarrow> name_ok k \<Longrightarrow> DQ \<notin> set v \<Longrightarrow> good_attr R prefix (k, v)"
  by (simp add: good_attr_def)

lemma good_ref: "name_ok k \<Longrightarrow> DQ \<notin> set v \<Longrightarrow> \<not> starts_with prefix v \<or> R k v \<Longrightarrow> good_attr R prefix (k, v)"
  by (auto simp: good_attr_def)

lemmas good_simps = good_plain names_ok names_plain plain_values writes_all writes_Some writes_section

lemma opt_attr_good: "\<not> program_ref k \<Longrightarrow> name_ok k \<Longrightarrow> (\<And>s. v = Some s \<Longrightarrow> DQ \<notin> set s) \<Longrightarrow> list_all (good_attr R prefix) (opt_attr k v)"
  by (auto simp: opt_attr_def good_plain split: option.splits)

lemma flag_attr_good: "\<not> program_ref k \<Longrightarrow> name_ok k \<Longrightarrow> list_all (good_attr R prefix) (flag_attr k b)"
  by (auto simp: flag_attr_def good_plain DQ_def)

section \<open>The invariant of a populated program\<close>

fun dyn_ok :: "nat \<Rightarrow> nat \<Rightarrow> Dyn \<Rightarrow> bool" and when_ok :: "nat \<Rightarrow> nat \<Rightarrow> When \<Rightarrow> bool" where
  "dyn_ok np nc (ChannelIndependentBlock children) = list_all (dyn_ok np nc) children"
| "dyn_ok np nc (Channel suffix number name text children) = (DQ \<notin> set suffix \<and> list_all (dyn_ok np nc) children)"
| "dyn_ok np nc (ParameterBlock suffix name text r show_in_tree children) =
     (DQ \<notin> set suffix \<and> pred_option (\<lambda>i. i < np) r \<and> list_all (dyn_ok np nc) children)"
| "dyn_ok np nc (ParamRefRef r) = (r < np)"
| "dyn_ok np nc (ComObjRefRef r) = (r < nc)"
| "dyn_ok np nc (Separator suffix text ui_hint) = (DQ \<notin> set suffix)"
| "dyn_ok np nc (Choose r whens) = (r < np \<and> list_all (when_ok np nc) whens)"
| "when_ok np nc (When test children) = list_all (dyn_ok np nc) children"

lemma dyn_ok_mono:
  "dyn_ok np nc d \<Longrightarrow> np \<le> np' \<Longrightarrow> nc \<le> nc' \<Longrightarrow> dyn_ok np' nc' d"
  "when_ok np nc w \<Longrightarrow> np \<le> np' \<Longrightarrow> nc \<le> nc' \<Longrightarrow> when_ok np' nc' w"
  by (induction np nc d and np nc w rule: dyn_ok_when_ok.induct) (auto simp: list_all_iff pred_option_def)

text \<open>
  The identifiers the document declares for its parameters and com objects and the references to
  them, and those of the parameter types and code segments.
\<close>

definition element_ids :: "AppProgram \<Rightarrow> string set" where
  "element_ids app = (\<Union>p\<in>set (parameters app). {param_id app p, param_id app p @ ''_R-'' @ param_id app p}) \<union>
     (\<Union>co\<in>set (com_objects app). {com_object_id app co, com_object_id app co @ ''_R-'' @ show_word (co_number co)})"

definition declared_ids :: "AppProgram \<Rightarrow> string set" where
  "declared_ids app = element_ids app \<union> param_type_xml_id app ` set (parameter_types app) \<union>
     {s. \<exists>i < length (segments app). segment_id app i = Some s}"

definition default_segment :: "AppProgram \<Rightarrow> string" where
  "default_segment app = app_prefix app @ ''_RS-04-00000''"

text \<open>
  What accounts for a reference: a declaration, a caller who spelled it out, or, for the code segment
  of the parameters, that no segment was pinned.
\<close>

definition accounted :: "AppProgram \<Rightarrow> string list \<Rightarrow> string \<Rightarrow> string \<Rightarrow> bool" where
  "accounted app spelled k v \<longleftrightarrow> v \<in> declared_ids app \<or> v \<in> set spelled \<or>
     k = ''CodeSegment'' \<and> parameter_segment app = None \<and> v = default_segment app"

text \<open>The messages a load procedure refers to, as they are written.\<close>

definition control_refs :: "LoadControl \<Rightarrow> string list" where
  "control_refs c = (case c of LcProgressText _ (Some m) \<Rightarrow> [escape_attr m] | _ \<Rightarrow> [])"

definition error_refs :: "OnError \<Rightarrow> string list" where
  "error_refs e = (case oe_message_ref e of None \<Rightarrow> [] | Some m \<Rightarrow> [escape_attr m])"

definition step_refs :: "LoadControl \<times> StepBase \<Rightarrow> string list" where
  "step_refs step = control_refs (fst step) @ concat (map error_refs (sb_on_error (snd step)))"

definition message_refs :: "LoadProcedure \<Rightarrow> string list" where
  "message_refs lp = concat (map step_refs (lp_steps lp))"

definition translation_ok :: "AppProgram \<Rightarrow> string list \<Rightarrow> Translation \<Rightarrow> bool" where
  "translation_ok app spelled t \<longleftrightarrow> DQ \<notin> set (tr_ref_id t) \<and> DQ \<notin> set (tr_attribute t) \<and>
     (tr_ref_id t \<in> element_ids app \<or> tr_ref_id t \<in> set spelled)"

definition app_ok :: "AppProgram \<Rightarrow> string list \<Rightarrow> bool" where
  "app_ok app spelled \<longleftrightarrow> DQ \<notin> set (app_prefix app) \<and>
     (\<forall>p\<in>set (parameters app). DQ \<notin> set (pa_suffix p) \<and> pa_type p < length (parameter_types app)) \<and>
     (\<forall>co\<in>set (com_objects app). DQ \<notin> set (co_suffix co)) \<and> (\<forall>m\<in>set (messages app). DQ \<notin> set (me_suffix m)) \<and>
     pred_option (\<lambda>i. i < length (segments app)) (parameter_segment app) \<and>
     list_all (dyn_ok (length (parameters app)) (length (com_objects app))) (dynamic app) \<and>
     (\<forall>lp\<in>set (load_procedures app). set (message_refs lp) \<subseteq> set spelled) \<and>
     (\<forall>(l, t)\<in>set (translated app). translation_ok app spelled t)"

text \<open>
  The programs the operations populate, with the identifiers the caller spelled out instead of using
  a handle: the element of a raw translation and the messages of a load procedure. Suffixes and
  identifiers are free of quotes, and a handle is one the program gave.
\<close>

inductive built :: "AppProgram \<Rightarrow> string list \<Rightarrow> bool" where
  built_new: "DQ \<notin> set prefix \<Longrightarrow> built (app_new prefix) []"
| built_type: "built app spelled \<Longrightarrow> built (fst (add_parameter_type t app)) spelled"
| built_param: "built app spelled \<Longrightarrow> DQ \<notin> set (pa_suffix p) \<Longrightarrow> pa_type p < length (parameter_types app) \<Longrightarrow> built (fst (add_param p app)) spelled"
| built_object: "built app spelled \<Longrightarrow> DQ \<notin> set (co_suffix co) \<Longrightarrow> built (fst (add_com_object co app)) spelled"
| built_dynamic: "built app spelled \<Longrightarrow> dyn_ok (length (parameters app)) (length (com_objects app)) d \<Longrightarrow> built (add_dynamic d app) spelled"
| built_segment: "built app spelled \<Longrightarrow> built (fst (add_segment seg app)) spelled"
| built_placement: "built app spelled \<Longrightarrow> i < length (segments app) \<Longrightarrow> built (set_parameter_segment i app) spelled"
| built_procedure: "built app spelled \<Longrightarrow> built (add_load_procedure lp app) (message_refs lp @ spelled)"
| built_baggage: "built app spelled \<Longrightarrow> built (fst (add_baggage b app)) spelled"
| built_tr_param: "built app spelled \<Longrightarrow> translate_param language i attribute new_text app = Some app' \<Longrightarrow> built app' spelled"
| built_tr_object: "built app spelled \<Longrightarrow> translate_com_object language i attribute new_text app = Some app' \<Longrightarrow> built app' spelled"
| built_tr_raw: "built app spelled \<Longrightarrow> DQ \<notin> set ref_id \<Longrightarrow>
    built (translate_raw language ref_id attribute new_text app) (ref_id # spelled)"
| built_catalog: "built app spelled \<Longrightarrow> built (add_catalog_section cs app) spelled"
| built_hardware: "built app spelled \<Longrightarrow> built (add_hardware h app) spelled"
| built_message: "built app spelled \<Longrightarrow> DQ \<notin> set (me_suffix m) \<Longrightarrow> built (add_message m app) spelled"
| built_address: "built app spelled \<Longrightarrow> built (set_address_table n app) spelled"
| built_association: "built app spelled \<Longrightarrow> built (set_association_table n app) spelled"
| built_options: "built app spelled \<Longrightarrow> built (set_options opts app) spelled"

lemma elements_grow:
  "app_prefix app' = app_prefix app \<Longrightarrow> set (parameters app) \<subseteq> set (parameters app') \<Longrightarrow> set (com_objects app) \<subseteq> set (com_objects app') \<Longrightarrow>
   element_ids app \<subseteq> element_ids app'"
  by (auto simp: element_ids_def param_id_def com_object_id_def)

lemma translation_grow:
  "translation_ok app spelled t \<Longrightarrow> element_ids app \<subseteq> element_ids app' \<Longrightarrow> set spelled \<subseteq> set spelled' \<Longrightarrow> translation_ok app' spelled' t"
  by (auto simp: translation_ok_def)

lemma app_ok_grow:
  assumes "app_ok app spelled" and "app_prefix app' = app_prefix app"
    and "\<forall>p\<in>set (parameters app') - set (parameters app). DQ \<notin> set (pa_suffix p) \<and> pa_type p < length (parameter_types app')"
    and "\<forall>co\<in>set (com_objects app') - set (com_objects app). DQ \<notin> set (co_suffix co)"
    and "\<forall>m\<in>set (messages app') - set (messages app). DQ \<notin> set (me_suffix m)"
    and "set (parameters app) \<subseteq> set (parameters app')" "set (com_objects app) \<subseteq> set (com_objects app')"
    and "length (parameters app) \<le> length (parameters app')" "length (com_objects app) \<le> length (com_objects app')"
    and "length (parameter_types app) \<le> length (parameter_types app')" "length (segments app) \<le> length (segments app')"
    and "parameter_segment app' = parameter_segment app \<or> pred_option (\<lambda>i. i < length (segments app')) (parameter_segment app')"
    and "\<forall>d\<in>set (dynamic app') - set (dynamic app). dyn_ok (length (parameters app')) (length (com_objects app')) d"
    and "\<forall>(l, t)\<in>set (translated app') - set (translated app). translation_ok app' spelled' t"
    and "set spelled \<subseteq> set spelled'"
    and "\<forall>lp\<in>set (load_procedures app') - set (load_procedures app). set (message_refs lp) \<subseteq> set spelled'"
  shows "app_ok app' spelled'"
proof -
  have decl: "element_ids app \<subseteq> element_ids app'" using assms(2,6,7) by (rule elements_grow)
  have dyn: "dyn_ok (length (parameters app')) (length (com_objects app')) d" if "d \<in> set (dynamic app')" for d
  proof (cases "d \<in> set (dynamic app)")
    case True
    then have "dyn_ok (length (parameters app)) (length (com_objects app)) d" using assms(1) by (simp add: app_ok_def list_all_iff)
    then show ?thesis using assms(8,9) by (rule dyn_ok_mono(1))
  next
    case False then show ?thesis using that assms(13) by blast
  qed
  have tr: "translation_ok app' spelled' t" if "(l, t) \<in> set (translated app')" for l t
  proof (cases "(l, t) \<in> set (translated app)")
    case True
    then have "translation_ok app spelled t" using assms(1) by (auto simp: app_ok_def)
    then show ?thesis using decl assms(15) by (rule translation_grow)
  next
    case False then show ?thesis using that assms(14) by blast
  qed
  have par: "DQ \<notin> set (pa_suffix p) \<and> pa_type p < length (parameter_types app')" if "p \<in> set (parameters app')" for p
    using that assms(1,3,10) by (fastforce simp: app_ok_def)
  have seg: "pred_option (\<lambda>i. i < length (segments app')) (parameter_segment app')"
    using assms(1,11,12) by (auto simp: app_ok_def pred_option_def)
  have lps: "set (message_refs lp) \<subseteq> set spelled'" if "lp \<in> set (load_procedures app')" for lp
    using that assms(1,15,16) unfolding app_ok_def by blast
  have "DQ \<notin> set (app_prefix app')" "\<forall>co\<in>set (com_objects app'). DQ \<notin> set (co_suffix co)" "\<forall>m\<in>set (messages app'). DQ \<notin> set (me_suffix m)"
    using assms(1,2,4,5) by (auto simp: app_ok_def)
  then show ?thesis using dyn tr par seg lps unfolding app_ok_def by (auto simp: list_all_iff)
qed

lemma push_translation_ok:
  assumes "app_ok app spelled" and "DQ \<notin> set ref_id" and "ref_id \<in> element_ids app \<or> ref_id \<in> set spelled'" and "set spelled \<subseteq> set spelled'"
  shows "app_ok (push_translation language ref_id (attr_as_str a) new_text app) spelled'"
  by (rule app_ok_grow [OF assms(1)])
    (use assms(2-4) const_plain in \<open>auto simp: push_translation_def translation_ok_def element_ids_def param_id_def com_object_id_def Let_def\<close>)

lemma nth_opt_Some: "nth_opt xs i = Some x \<Longrightarrow> x \<in> set xs"
  by (auto simp: nth_opt_def split: if_splits)

lemma param_id_plain: "app_ok app spelled \<Longrightarrow> p \<in> set (parameters app) \<Longrightarrow> DQ \<notin> set (param_id app p) \<and> param_id app p \<in> element_ids app"
  by (auto simp: app_ok_def param_id_def element_ids_def DQ_def)

lemma com_object_id_plain: "app_ok app spelled \<Longrightarrow> co \<in> set (com_objects app) \<Longrightarrow> DQ \<notin> set (com_object_id app co) \<and> com_object_id app co \<in> element_ids app"
  by (auto simp: app_ok_def com_object_id_def element_ids_def DQ_def)

lemmas register_defs = add_parameter_type_def add_param_def add_com_object_def add_dynamic_def add_segment_def
  set_parameter_segment_def add_load_procedure_def add_baggage_def add_catalog_section_def add_hardware_def add_message_def
  set_address_table_def set_association_table_def set_options_def

lemma built_ok: "built app spelled \<Longrightarrow> app_ok app spelled"
proof (induction rule: built.induct)
  case (built_new prefix)
  then show ?case by (simp add: app_ok_def app_new_def)
next
  case (built_tr_param app spelled lang i a new_text app')
  then obtain p where "nth_opt (parameters app) i = Some p" "app' = push_translation lang (param_id app p) (attr_as_str a) new_text app"
    by (auto simp: translate_param_def)
  then show ?case using push_translation_ok [OF built_tr_param.IH] param_id_plain [OF built_tr_param.IH] nth_opt_Some by (metis order_refl)
next
  case (built_tr_object app spelled lang i a new_text app')
  then obtain co where "nth_opt (com_objects app) i = Some co" "app' = push_translation lang (com_object_id app co) (attr_as_str a) new_text app"
    by (auto simp: translate_com_object_def)
  then show ?case using push_translation_ok [OF built_tr_object.IH] com_object_id_plain [OF built_tr_object.IH] nth_opt_Some by (metis order_refl)
next
  case (built_tr_raw app spelled ref_id lang a new_text)
  then show ?case unfolding translate_raw_def by (intro push_translation_ok) auto
qed ((erule app_ok_grow; auto simp: register_defs)+)

section \<open>Every section is well-formed and its references resolve\<close>

lemma not_longer: "\<not> starts_with (s @ ''_'') s" "length m \<le> length s \<Longrightarrow> \<not> starts_with (s @ ''_'') m"
  by (auto simp: starts_with_def dest: arg_cong [of _ _ length])

lemma split_app_whole: "split_app s = Some (m, tail) \<Longrightarrow> s = m @ ''_A-'' @ tail"
  using str_find_split [of "''_A-''" s] by (auto simp: split_app_def numeral_3_eq_3)

lemma foreign_id:
  assumes "split_app (app_prefix app) \<noteq> None"
  shows "\<not> starts_with (app_prefix app @ ''_'') (manufacturer app @ ''_H-'' @ x)"
proof -
  obtain m tail where m: "split_app (app_prefix app) = Some (m, tail)" using assms by (cases "split_app (app_prefix app)") auto
  then have "app_prefix app = m @ ''_A-'' @ tail" "manufacturer app = m" using split_app_whole by (simp_all add: manufacturer_def)
  then have m: "app_prefix app @ ''_'' = manufacturer app @ CHR ''_'' # CHR ''A'' # CHR ''-'' # tail @ ''_''" by simp
  show ?thesis unfolding m by (simp add: starts_with_def eval_nat_numeral)
qed

lemma manufacturer_plain: "DQ \<notin> set (app_prefix app) \<Longrightarrow> DQ \<notin> set (manufacturer app) \<and> DQ \<notin> set (app_tail app)"
  by (auto simp: manufacturer_def app_tail_def split_app_def dest: in_set_takeD in_set_dropD split: option.splits)

lemma manufacturer_short: "\<not> starts_with (app_prefix app @ ''_'') (manufacturer app)"
  by (rule not_longer) (auto simp: manufacturer_def split_app_def split: option.splits)

lemma segment_ids: "i < length (segments app) \<Longrightarrow> \<exists>s. segment_id app i = Some s \<and> (DQ \<notin> set (app_prefix app) \<longrightarrow> DQ \<notin> set s)"
  by (cases "segments app ! i") (auto simp: segment_id_def nth_opt_def plain_values)

lemma param_refs:
  assumes "app_ok app spelled" and "r < length (parameters app)"
  shows "\<exists>i. param_ref_ref_id app r = Some i \<and> DQ \<notin> set i \<and> i \<in> element_ids app"
proof -
  have p: "parameters app ! r \<in> set (parameters app)" using assms(2) by simp
  then show ?thesis using param_id_plain [OF assms(1) p] assms(2)
    by (auto simp: param_ref_ref_id_def nth_opt_def element_ids_def Let_def intro!: bexI [OF _ p])
qed

lemma object_refs:
  assumes "app_ok app spelled" and "r < length (com_objects app)"
  shows "\<exists>i. com_object_ref_ref_id app r = Some i \<and> DQ \<notin> set i \<and> i \<in> element_ids app"
proof -
  have p: "com_objects app ! r \<in> set (com_objects app)" using assms(2) by simp
  then show ?thesis using com_object_id_plain [OF assms(1) p] assms(2) show_plain(1)
    by (auto simp: com_object_ref_ref_id_def nth_opt_def element_ids_def Let_def intro!: bexI [OF _ p])
qed

lemma accounted_element: "v \<in> element_ids app \<Longrightarrow> accounted app spelled k v"
  by (simp add: accounted_def declared_ids_def)

lemma good_element: "name_ok k \<Longrightarrow> DQ \<notin> set v \<Longrightarrow> v \<in> element_ids app \<Longrightarrow> good_attr (accounted app spelled) prefix (k, v)"
  by (rule good_ref) (simp_all add: accounted_element)

text \<open>In what follows the references are those into the program of \<open>app\<close>.\<close>

abbreviation good :: "AppProgram \<Rightarrow> string list \<Rightarrow> line \<Rightarrow> bool" where
  "good app spelled \<equiv> good_line (accounted app spelled) (app_prefix app @ ''_'')"

lemma app_plain: "app_ok app spelled \<Longrightarrow> DQ \<notin> set (app_prefix app)"
  by (simp add: app_ok_def)

lemma good_dynamic_nodes:
  "app_ok app spelled \<Longrightarrow> dyn_ok (length (parameters app)) (length (com_objects app)) d \<Longrightarrow> writes (good app spelled) (write_dyn_node app indent d)"
  "app_ok app spelled \<Longrightarrow> when_ok (length (parameters app)) (length (com_objects app)) w \<Longrightarrow> writes (good app spelled) (write_when app indent w)"
proof (induction app indent d and app indent w rule: write_dyn_node_write_when.induct)
  case (1 app indent children)
  then show ?case by (auto simp: good_simps list_all_iff)
next
  case (2 app indent suffix number name label children)
  then show ?case using app_plain by (auto simp: good_simps list_all_iff)
next
  case (3 app indent suffix name label r tree children)
  have flag: "good_attr R prefix (k, v)" if "(k, v) \<in> set (flag_attr ''ShowInComObjectTree'' tree)" for R prefix k v
    using that flag_attr_good [of "''ShowInComObjectTree''" R prefix tree] by (auto simp: list_all_iff names_ok names_plain)
  show ?case
  proof (cases r)
    case None
    then show ?thesis using 3 app_plain by (auto simp: good_simps list_all_iff flag)
  next
    case (Some i)
    then obtain s where "param_ref_ref_id app i = Some s" "DQ \<notin> set s" "s \<in> element_ids app" using 3(2,3) param_refs [of app spelled i] by auto
    then show ?thesis using 3 app_plain Some by (auto simp: good_simps good_element list_all_iff flag)
  qed
next
  case (4 app indent r)
  then show ?case using param_refs [of app spelled r] by (auto simp: good_simps good_element)
next
  case (5 app indent r)
  then show ?case using object_refs [of app spelled r] by (auto simp: good_simps good_element)
next
  case (6 app indent suffix label ui_hint)
  then show ?case using app_plain by (auto simp: good_simps)
next
  case (7 app indent r whens)
  then obtain s where s: "param_ref_ref_id app r = Some s" "DQ \<notin> set s" "s \<in> element_ids app" using param_refs [of app spelled r] by auto
  then show ?case using 7 by (auto simp: good_simps good_element list_all_iff)
next
  case (8 app indent test children)
  then show ?case by (auto simp: good_simps list_all_iff)
qed

lemma attr_cases: "list_all P (opt_attr k v) \<longleftrightarrow> (\<forall>s. v = Some s \<longrightarrow> P (k, s))" "list_all P (flag_attr k b) \<longleftrightarrow> (b \<longrightarrow> P (k, ''true''))"
  by (auto simp: opt_attr_def flag_attr_def split: option.splits)

lemma load_names: "name_ok (fst (load_element c))"
  by (cases c) (simp_all add: names_ok)

lemma load_attrs:
  assumes "\<forall>v\<in>set (control_refs c). R ''MessageRef'' v"
  shows "list_all (good_attr R prefix) (snd (load_element c))"
proof -
  have t: "list_all (good_attr R prefix) (target_attrs t)" for t by (cases t) (simp_all add: good_simps)
  have i: "list_all (good_attr R prefix) (push_inline data)" for data by (auto simp: push_inline_def attr_cases good_simps)
  show ?thesis using t i assms by (cases c) (simp_all add: good_simps attr_cases, auto simp: good_simps good_ref control_refs_def)
qed

lemma good_step:
  assumes "set (step_refs step) \<subseteq> set spelled"
  shows "list_all (good app spelled) (write_step indent step)"
proof -
  obtain control base where step: "step = (control, base)" by (cases step)
  have refs: "\<forall>v\<in>set (control_refs control). accounted app spelled ''MessageRef'' v"
    using assms by (auto simp: step step_refs_def accounted_def)
  have "good app spelled (on_error_line i e)" if "e \<in> set (sb_on_error base)" for i e
  proof -
    have "accounted app spelled ''MessageRef'' v" if "v \<in> set (error_refs e)" for v
      using that \<open>e \<in> set (sb_on_error base)\<close> assms unfolding step step_refs_def accounted_def by auto
    then show ?thesis
      by (auto simp: on_error_line_def good_simps good_ref opt_attr_def flag_attr_def error_refs_def split: option.splits)
  qed
  then show ?thesis using load_names [of control] load_attrs [of control "accounted app spelled", OF refs]
    by (auto simp: step write_step_def case_prod_beta Let_def attr_cases good_simps list_all_iff [of _ "map _ _"])
qed

lemma set_first_seen: "set (first_seen xs) = set xs"
proof -
  have "set (fold (\<lambda>x acc. if x \<in> set acc then acc else acc @ [x]) xs acc) = set acc \<union> set xs" for acc
    by (induction xs arbitrary: acc) auto
  then show ?thesis by (simp add: first_seen_def)
qed

lemma good_parts:
  assumes ok: "app_ok app spelled" and split: "split_app (app_prefix app) \<noteq> None"
  shows "writes (good app spelled) (write_code app n)" and "writes (good app spelled) (write_parameter_types app n)"
    and "writes (good app spelled) (write_parameters app n)" and "writes (good app spelled) (write_parameter_refs app n)"
    and "writes (good app spelled) (write_com_object_table app n)" and "writes (good app spelled) (write_com_object_refs app n)"
    and "writes (good app spelled) (write_load_procedures app n)" and "writes (good app spelled) (write_messages app n)"
    and "writes (good app spelled) (write_dynamic app n)" and "writes (good app spelled) (write_baggages app n)"
    and "writes (good app spelled) (write_languages app n)"
proof -
  note plain = app_plain [OF ok] manufacturer_plain [OF app_plain [OF ok]]
  note params = param_id_plain [OF ok] and objects = com_object_id_plain [OF ok]
  have segline: "good app spelled (segment_line s i seg)" if "DQ \<notin> set s" for s i seg
    using that by (cases seg) (auto simp: good_simps attr_cases)
  show "writes (good app spelled) (write_code app n)"
    unfolding write_code_def
  proof (auto simp: writes_section names_ok writes_Some in_set_enumerate_eq)
    fix i assume "i < length (segments app)"
    then obtain s where "segment_id app i = Some s" "DQ \<notin> set s" using segment_ids plain by blast
    then show "writes (good app spelled) (map_option (\<lambda>ident. [segment_line ident (Suc (Suc n)) (segments app ! i)]) (segment_id app i))"
      "writes (good app spelled) (map_option (\<lambda>ident. [segment_line ident (Suc (Suc n)) (segments app ! i)]) (segment_id app i))"
      using segline by (simp_all add: writes_Some)
  qed
  show "writes (good app spelled) (write_parameter_types app n)"
    using plain by (auto simp: write_parameter_types_def parameter_type_lines_def enumeration_lines_def param_type_xml_id_def good_simps
        list_all_iff Let_def split: ParamTypeKind.splits)
  show "writes (good app spelled) (write_parameters app n)"
  proof -
    obtain cs where cs: "(case parameter_segment app of None \<Rightarrow> Some (app_prefix app @ ''_RS-04-00000'') | Some seg \<Rightarrow> segment_id app seg) = Some cs"
      "DQ \<notin> set cs" "accounted app spelled ''CodeSegment'' cs"
    proof (cases "parameter_segment app")
      case None
      then show ?thesis using that plain by (simp add: DQ_char accounted_def default_segment_def)
    next
      case (Some i)
      then have "i < length (segments app)" using ok by (simp add: app_ok_def)
      then obtain s where "segment_id app i = Some s" "DQ \<notin> set s" "accounted app spelled ''CodeSegment'' s"
        using segment_ids plain unfolding accounted_def declared_ids_def by blast
      then show ?thesis using that Some by simp
    qed
    have "writes (good app spelled) (parameter_lines app n cs p)" if "p \<in> set (parameters app)" for p
    proof -
      obtain ty where ty: "nth_opt (parameter_types app) (pa_type p) = Some ty" "ty \<in> set (parameter_types app)"
      proof (rule that)
        have "pa_type p < length (parameter_types app)" using ok \<open>p \<in> set (parameters app)\<close> by (simp add: app_ok_def)
        then show "nth_opt (parameter_types app) (pa_type p) = Some (parameter_types app ! pa_type p)"
          "parameter_types app ! pa_type p \<in> set (parameter_types app)" by (simp_all add: nth_opt_def)
      qed
      then have "accounted app spelled ''ParameterType'' (param_type_xml_id app ty)" by (simp add: accounted_def declared_ids_def)
      moreover have "DQ \<notin> set (param_type_xml_id app ty)" using plain by (simp add: param_type_xml_id_def plain_values)
      ultimately show ?thesis using params [OF that] cs(2,3) by (simp add: parameter_lines_def ty(1) good_simps good_ref)
    qed
    then show ?thesis by (auto simp: write_parameters_def cs(1) good_simps)
  qed
  show "writes (good app spelled) (write_parameter_refs app n)"
    using params by (auto simp: write_parameter_refs_def good_simps good_element Let_def)
  show "writes (good app spelled) (write_com_object_table app n)"
    using objects by (auto simp: write_com_object_table_def good_simps)
  show "writes (good app spelled) (write_com_object_refs app n)"
    using objects by (auto simp: write_com_object_refs_def good_simps good_element Let_def)
  show "writes (good app spelled) (write_load_procedures app n)"
  proof -
    have steps: "list_all (good app spelled) (concat (map (write_step i) (lp_steps lp)))" if "lp \<in> set (load_procedures app)" for i lp
    proof -
      have "set (step_refs st) \<subseteq> set spelled" if "st \<in> set (lp_steps lp)" for st
        using ok that \<open>lp \<in> set (load_procedures app)\<close> by (fastforce simp: app_ok_def message_refs_def)
      then have "list_all (good app spelled) (write_step i st)" if "st \<in> set (lp_steps lp)" for st
        using good_step that by blast
      then show ?thesis by (simp only: list_all_iff set_concat set_map) blast
    qed
    have merge: "list_all (good_attr R prefix) (opt_attr ''MergeId'' (map_option show_word (m :: u8 option)))" for R prefix m
      by (cases m) (simp_all add: attr_cases good_simps)
    show ?thesis using steps merge by (simp add: write_load_procedures_def good_simps)
  qed
  show "writes (good app spelled) (write_messages app n)"
    using ok plain by (auto simp: write_messages_def good_simps app_ok_def)
  show "writes (good app spelled) (write_dynamic app n)"
    using ok good_dynamic_nodes(1) by (auto simp: write_dynamic_def good_simps app_ok_def list_all_iff)
  show "writes (good app spelled) (write_baggages app n)"
    using plain by (auto simp: write_baggages_def good_simps attr_cases baggage_id_def Let_def)
  have element: "good_attr (accounted app spelled) (app_prefix app @ ''_'') (''RefId'', tr_ref_id t)" "DQ \<notin> set (tr_attribute t)"
    if "(l, t) \<in> set (translated app)" for l t
    using ok that by (auto simp: app_ok_def translation_ok_def accounted_def declared_ids_def intro!: good_ref names_ok)
  have unit: "good_attr (accounted app spelled) (app_prefix app @ ''_'') (''RefId'', app_prefix app)"
    using plain not_longer(1) by (intro good_ref) (simp_all add: names_ok)
  have "list_all (good app spelled) (language_lines app n lang)" for lang
    using element unit by (auto simp: language_lines_def list_all_iff good_simps Let_def set_first_seen)
  then show "writes (good app spelled) (write_languages app n)"
    by (auto simp: write_languages_def good_simps)
qed

lemma good_hardware:
  assumes ok: "app_ok app spelled" and split: "split_app (app_prefix app) \<noteq> None"
  shows "list_all (good app spelled) (hardware_lines app n hw)"
proof -
  note plain = app_plain [OF ok] manufacturer_plain [OF app_plain [OF ok]]
  define hw_id where "hw_id = hardware_id app (hw_serial_number hw) (hw_version_number hw)"
  have hw: "DQ \<notin> set hw_id" using plain by (simp add: hw_id_def hardware_id_def plain_values)
  have unit: "good_attr (accounted app spelled) (app_prefix app @ ''_'') (''RefId'', app_prefix app)"
    using plain not_longer(1) by (intro good_ref) (simp_all add: names_ok)
  have "list_all (good app spelled) (product_lines hw_id n p)" for p
    using hw by (simp add: product_lines_def good_simps product_id_def)
  moreover have "list_all (good app spelled) (program_lines app hw_id n prog)" for prog
    using hw plain unit by (simp add: program_lines_def good_simps)
  ultimately have "list_all (good app spelled) (concat (map (product_lines hw_id n) ps))" "list_all (good app spelled) (concat (map (program_lines app hw_id n) qs))" for ps qs
    by (auto simp: list_all_iff)
  then show ?thesis using hw by (simp add: hardware_lines_def hw_id_def [symmetric] Let_def good_simps)
qed

lemma good_catalog_item:
  assumes ok: "app_ok app spelled" and split: "split_app (app_prefix app) \<noteq> None"
  shows "good app spelled (catalog_item_line app n item)"
proof -
  note plain = app_plain [OF ok] manufacturer_plain [OF app_plain [OF ok]]
  define hw where "hw = hardware_id app (ci_serial_number item) (ci_version_number item)"
  have hw: "DQ \<notin> set hw" using plain by (simp add: hw_def hardware_id_def plain_values)
  have foreign: "\<not> starts_with (app_prefix app @ ''_'') (hw @ x)" for x
    using foreign_id [OF split, of "encode_id_component (ci_serial_number item) @ ''-'' @ show_word (ci_version_number item) @ x"]
    by (simp add: hw_def hardware_id_def)
  have "good_attr (accounted app spelled) (app_prefix app @ ''_'') (''ProductRefId'', product_id hw (ci_order_number item))"
    using hw foreign by (intro good_ref) (simp_all add: names_ok product_id_def plain_values)
  moreover have "good_attr (accounted app spelled) (app_prefix app @ ''_'') (''Hardware2ProgramRefId'', hw @ ''_HP-'' @ app_tail app)"
    using hw plain foreign by (intro good_ref) (simp_all add: names_ok)
  ultimately show ?thesis using hw plain by (simp add: catalog_item_line_def hw_def [symmetric] Let_def good_simps)
qed

lemma good_product:
  assumes ok: "app_ok app spelled" and split: "split_app (app_prefix app) \<noteq> None"
  shows "writes (good app spelled) (write_hardware app n)" and "writes (good app spelled) (write_catalog app n)"
proof -
  show "writes (good app spelled) (write_hardware app n)"
    using good_hardware [OF ok split] by (simp add: write_hardware_def good_simps)
  have "list_all (good app spelled) (map (catalog_item_line app i) items)" for i items
    using good_catalog_item [OF ok split] by (simp add: list_all_iff)
  then show "writes (good app spelled) (write_catalog app n)"
    using manufacturer_plain [OF app_plain [OF ok]] by (simp add: write_catalog_def good_simps)
qed

lemma good_static:
  assumes "app_ok app spelled" and "split_app (app_prefix app) \<noteq> None" and "w \<in> set (write_static app n)"
  shows "writes (good app spelled) w"
proof -
  have "writes (good app spelled) (write_address_table n k)" "writes (good app spelled) (write_association_table n k)" "writes (good app spelled) (write_options n opts)" for k opts
    by (simp_all add: write_address_table_def write_association_table_def write_options_def good_simps)
  then show ?thesis using good_parts [OF assms(1,2), of n] assms(3)
    by (auto simp: write_static_def writes_Some split: option.splits)
qed

lemma good_program_attrs:
  assumes "app_ok app spelled"
  shows "list_all (good_attr R prefix) (program_attrs app info)"
proof -
  have "DQ \<notin> set (join_spaces (map show_nat ns))" for ns
    by (rule join_plain) (auto simp: show_nat_plain)
  then show ?thesis using app_plain [OF assms] by (simp add: program_attrs_def good_simps)
qed

lemma good_document:
  assumes ok: "app_ok app spelled" and split: "split_app (app_prefix app) \<noteq> None"
  shows "writes (good app spelled) (document_lines app info created_by tool_version)"
proof -
  have "writes (good app spelled) (write_application_program app info 6)"
    using good_static [OF ok split] good_parts(9) [OF ok split] good_program_attrs [OF ok]
    by (auto simp: write_application_program_def good_simps)
  moreover have "good_attr (accounted app spelled) (app_prefix app @ ''_'') (''RefId'', manufacturer app)"
    using manufacturer_plain [OF app_plain [OF ok]] manufacturer_short by (intro good_ref) (simp_all add: names_ok)
  ultimately show ?thesis using good_product [OF ok split] good_parts(10,11) [OF ok split]
    by (simp add: document_lines_def good_simps)
qed

section \<open>Every declared identifier is written\<close>

lemma write_all_has: "write_all ws = Some ls \<Longrightarrow> Some xs \<in> set ws \<Longrightarrow> set xs \<subseteq> set ls"
proof (induction ws arbitrary: ls)
  case (Cons w ws)
  then show ?case by (fastforce simp: write_all.simps bind_eq_Some_conv)
qed simp

lemma write_all_part: "write_all ws = Some ls \<Longrightarrow> w \<in> set ws \<Longrightarrow> \<exists>xs. w = Some xs \<and> set xs \<subseteq> set ls"
proof (induction ws arbitrary: ls)
  case (Cons v ws)
  then show ?case by (fastforce simp: write_all.simps bind_eq_Some_conv)
qed simp

definition declares :: "string \<Rightarrow> line list \<Rightarrow> bool" where
  "declares ident ls \<longleftrightarrow> (\<exists>l\<in>set ls. \<exists>attrs\<in>set (line_attrs l). (''Id'', ident) \<in> set attrs)"

lemma declares_part:
  assumes "write_all ws = Some ls" and "w \<in> set ws" and "\<And>xs. w = Some xs \<Longrightarrow> declares ident xs"
  shows "declares ident ls"
  using write_all_part [OF assms(1,2)] assms(3) unfolding declares_def by blast

lemma declares_section:
  assumes "section_of n t body = Some ls" and "w \<in> set body" and "\<And>xs. w = Some xs \<Longrightarrow> declares ident xs"
  shows "declares ident ls"
  using assms unfolding section_of_def by (auto intro: declares_part)

lemma declares_line: "l \<in> set ls \<Longrightarrow> line_attrs l = [attrs] \<Longrightarrow> (''Id'', ident) \<in> set attrs \<Longrightarrow> declares ident ls"
  unfolding declares_def by force

lemma parameter_declared:
  assumes "p \<in> set (parameters app)"
  shows "write_parameters app n = Some ls \<Longrightarrow> declares (param_id app p) ls"
    and "write_parameter_refs app n = Some ls \<Longrightarrow> declares (param_id app p @ ''_R-'' @ param_id app p) ls"
proof -
  show "write_parameters app n = Some ls \<Longrightarrow> declares (param_id app p) ls"
  proof -
    assume "write_parameters app n = Some ls"
    then obtain cs where "section_of n ''Parameters'' (map (parameter_lines app n cs) (parameters app)) = Some ls"
      by (auto simp: write_parameters_def bind_eq_Some_conv)
    then show ?thesis
    proof (rule declares_section)
      show "parameter_lines app n cs p \<in> set (map (parameter_lines app n cs) (parameters app))" using assms by simp
      show "declares (param_id app p) xs" if "parameter_lines app n cs p = Some xs" for xs
        using that by (auto simp: parameter_lines_def declares_def)
    qed
  qed
  show "write_parameter_refs app n = Some ls \<Longrightarrow> declares (param_id app p @ ''_R-'' @ param_id app p) ls"
    unfolding write_parameter_refs_def by (erule declares_section, rule image_eqI [OF refl assms, folded set_map]) (auto simp: Let_def declares_def)
qed

lemma object_declared:
  assumes "co \<in> set (com_objects app)"
  shows "write_com_object_table app n = Some ls \<Longrightarrow> declares (com_object_id app co) ls"
    and "write_com_object_refs app n = Some ls \<Longrightarrow> declares (com_object_id app co @ ''_R-'' @ show_word (co_number co)) ls"
proof -
  show "write_com_object_table app n = Some ls \<Longrightarrow> declares (com_object_id app co) ls"
    unfolding write_com_object_table_def by (erule declares_section, rule image_eqI [OF refl assms, folded set_map]) (auto simp: declares_def)
  show "write_com_object_refs app n = Some ls \<Longrightarrow> declares (com_object_id app co @ ''_R-'' @ show_word (co_number co)) ls"
    unfolding write_com_object_refs_def by (erule declares_section, rule image_eqI [OF refl assms, folded set_map]) (auto simp: Let_def declares_def)
qed

lemma type_declared:
  assumes "t \<in> set (parameter_types app)" and "write_parameter_types app n = Some ls"
  shows "declares (param_type_xml_id app t) ls"
proof -
  have "section_of n ''ParameterTypes'' (map (\<lambda>t. Some (parameter_type_lines app n t)) (parameter_types app)) = Some ls"
    using assms by (auto simp: write_parameter_types_def split: if_splits)
  then show ?thesis
    by (rule declares_section [where w = "Some (parameter_type_lines app n t)"])
      (use assms(1) in \<open>auto simp: parameter_type_lines_def declares_def Let_def\<close>)
qed

lemma segment_declared:
  assumes "i < length (segments app)" and "segment_id app i = Some ident" and "write_code app n = Some ls"
  shows "declares ident ls"
proof -
  let ?w = "\<lambda>(i, seg). map_option (\<lambda>ident. [segment_line ident (n + 2) seg]) (segment_id app i)"
  let ?body = "map ?w (filter (\<lambda>(i, seg). is_absolute seg) (enumerate 0 (segments app)) @ filter (\<lambda>(i, seg). \<not> is_absolute seg) (enumerate 0 (segments app)))"
  have "section_of n ''Code'' ?body = Some ls"
    using assms by (auto simp: write_code_def split: if_splits)
  moreover have "?w (i, segments app ! i) \<in> set ?body"
    unfolding set_map by (rule imageI) (use assms(1) in \<open>auto simp: in_set_enumerate_eq\<close>)
  ultimately show ?thesis
  proof (rule declares_section)
    show "declares ident xs" if "?w (i, segments app ! i) = Some xs" for xs
      using that assms(2) by (cases "segments app ! i") (auto simp: declares_def)
  qed
qed

lemma declared_written:
  assumes "ident \<in> declared_ids app" and doc: "document_lines app info created_by tool_version = Some ls"
  shows "declares ident ls"
proof -
  obtain w where w: "w \<in> set (write_static app 12)" "\<And>xs. w = Some xs \<Longrightarrow> declares ident xs"
  proof -
    have mem: "write_parameters app 12 \<in> set (write_static app 12)" "write_parameter_refs app 12 \<in> set (write_static app 12)"
      "write_com_object_table app 12 \<in> set (write_static app 12)" "write_com_object_refs app 12 \<in> set (write_static app 12)"
      "write_parameter_types app 12 \<in> set (write_static app 12)" "write_code app 12 \<in> set (write_static app 12)"
      by (simp_all add: write_static_def)
    from assms(1) consider p where "p \<in> set (parameters app)" "ident = param_id app p"
      | p where "p \<in> set (parameters app)" "ident = param_id app p @ ''_R-'' @ param_id app p"
      | co where "co \<in> set (com_objects app)" "ident = com_object_id app co"
      | co where "co \<in> set (com_objects app)" "ident = com_object_id app co @ ''_R-'' @ show_word (co_number co)"
      | t where "t \<in> set (parameter_types app)" "ident = param_type_xml_id app t"
      | i where "i < length (segments app)" "segment_id app i = Some ident"
      unfolding declared_ids_def element_ids_def by blast
    then show ?thesis
    proof cases
      case (5 t) then show ?thesis using that [OF mem(5)] type_declared by blast
    next
      case (6 i) then show ?thesis using that [OF mem(6)] segment_declared by blast
    qed (use that [OF mem(1)] that [OF mem(2)] that [OF mem(3)] that [OF mem(4)] parameter_declared object_declared in metis)+
  qed
  have app: "declares ident xs" if "write_application_program app info 6 = Some xs" for xs
    using that unfolding write_application_program_def by (rule declares_part [where w = w]) (use w in simp_all)
  show ?thesis using doc unfolding document_lines_def
    by (rule declares_part [where w = "write_application_program app info 6"]) (use app in simp_all)
qed

text \<open>A reference the lines account for is one they declare, or one of the exceptions.\<close>

lemma lines_resolve:
  assumes "list_all (good_line (\<lambda>k v. v \<in> D \<or> E k v) prefix) ls" and "\<forall>v\<in>D. declares v ls"
  defines "attrs \<equiv> in_scope prefix (concat (concat (map line_attrs ls)))"
  shows "\<forall>(k, v)\<in>set attrs. program_ref k \<longrightarrow> v \<in> set (ids_of attrs) \<or> E k v"
proof clarify
  fix k v assume a: "(k, v) \<in> set attrs" "program_ref k" "\<not> E k v"
  then obtain l as where l: "l \<in> set ls" "as \<in> set (line_attrs l)" "(k, v) \<in> set as" "starts_with prefix v"
    by (auto simp: attrs_def in_scope_def)
  have "good_line (\<lambda>k v. v \<in> D \<or> E k v) prefix l" using assms(1) l(1) by (simp add: list_all_iff)
  then have "good_attr (\<lambda>k v. v \<in> D \<or> E k v) prefix (k, v)" using l(2,3) by (cases l) (auto simp: list_all_iff)
  then have "v \<in> D" using l(4) a(2,3) by (simp add: good_attr_def)
  then obtain l' as' where "l' \<in> set ls" "as' \<in> set (line_attrs l')" "(''Id'', v) \<in> set as'" using assms(2) unfolding declares_def by blast
  then show "v \<in> set (ids_of attrs)" using l(4) by (force simp: attrs_def ids_of_def in_scope_def)
qed

section \<open>Product identifiers\<close>

lemma hex_octet_inj: "m < 256 \<Longrightarrow> n < 256 \<Longrightarrow> hex_octet m = hex_octet n \<longleftrightarrow> m = n"
proof -
  assume b: "m < 256" "n < 256"
  have inj: "i = j" if "hex_upper i = hex_upper j" "i < 16" "j < 16" for i j
  proof -
    have "\<forall>i\<in>{0 ..< 16}. \<forall>j\<in>{0 ..< 16}. hex_upper i = hex_upper j \<longrightarrow> i = j" by code_simp
    then show ?thesis using that by simp
  qed
  have "m div 16 < 16" "n div 16 < 16" using b by (simp_all add: less_mult_imp_div_less)
  then have "hex_octet m = hex_octet n \<longrightarrow> m div 16 = n div 16 \<and> m mod 16 = n mod 16"
    unfolding hex_octet_def using inj by simp
  then show ?thesis by (metis div_mult_mod_eq)
qed

lemma encode_id_char_inj: "encode_id_char c @ s = encode_id_char d @ t \<Longrightarrow> c = d \<and> s = t"
proof -
  assume eq: "encode_id_char c @ s = encode_id_char d @ t"
  have dot: "\<not> is_ascii_alphanumeric (CHR ''.'')" by code_simp
  have len: "length (hex_octet n) = 2" for n by (simp add: hex_octet_def)
  show ?thesis
  proof (cases "is_ascii_alphanumeric c \<or> is_ascii_alphanumeric d")
    case True then show ?thesis using eq dot by (auto simp: encode_id_char_def split: if_splits)
  next
    case False
    then have "hex_octet (of_char c) = hex_octet (of_char d) \<and> s = t" using eq len by (simp add: encode_id_char_def)
    then show ?thesis using hex_octet_inj [OF of_char_bound of_char_bound] by simp
  qed
qed

lemma encode_inj: "encode_id_component s = encode_id_component t \<longleftrightarrow> s = t"
proof -
  have ne: "encode_id_char c \<noteq> []" for c by (simp add: encode_id_char_def)
  have "concat (map encode_id_char s) = concat (map encode_id_char t) \<Longrightarrow> s = t"
  proof (induction s arbitrary: t)
    case Nil then show ?case using ne by (cases t) auto
  next
    case (Cons c s)
    then obtain d t' where t: "t = d # t'" using ne by (cases t) auto
    have "c = d \<and> concat (map encode_id_char s) = concat (map encode_id_char t')" using Cons.prems t by (intro encode_id_char_inj) simp
    then show ?case using Cons.IH t by blast
  qed
  then show ?thesis unfolding encode_id_component_def by blast
qed

lemma hex_upper_alnum: "n < 16 \<Longrightarrow> is_ascii_alphanumeric (hex_upper n)"
proof -
  assume "n < 16"
  then have "hex_upper n \<in> set ''0123456789ABCDEF''" unfolding hex_upper_def by (intro nth_mem) simp
  moreover have "list_all is_ascii_alphanumeric ''0123456789ABCDEF''" by (simp add: is_ascii_alphanumeric_def)
  ultimately show ?thesis unfolding list_all_iff by blast
qed

lemma encode_chars: "c \<in> set (encode_id_component s) \<Longrightarrow> is_ascii_alphanumeric c \<or> c = CHR ''.''"
proof -
  have b: "(of_char d :: nat) div 16 < 16" for d using of_char_bound [of d] by (simp add: less_mult_imp_div_less)
  then show "c \<in> set (encode_id_component s) \<Longrightarrow> is_ascii_alphanumeric c \<or> c = CHR ''.''"
    using hex_upper_alnum by (auto simp: encode_id_component_def encode_id_char_def hex_octet_def split: if_splits)
qed

lemma split_at: "x \<notin> set a \<Longrightarrow> x \<notin> set b \<Longrightarrow> a @ x # s = b @ x # t \<longleftrightarrow> a = b \<and> s = t"
proof (induction a arbitrary: b)
  case Nil then show ?case by (cases b) auto
next
  case (Cons c a) then show ?case by (cases b) auto
qed

lemma show_word_inj: "show_word (v :: 'a::len word) = show_word w \<longleftrightarrow> v = w"
proof -
  have "show_nat m = show_nat n \<Longrightarrow> m = n" for m n
    by (metis option.inject max.cobounded1 max.cobounded2 parse_show_nat)
  then show ?thesis by (auto simp: show_word_def word_unat_eq_iff)
qed

text \<open>
  C27: the catalog names exactly the product it means: the identifier that is built
  from a serial number, a version and an order number, whatever characters these hold, is that of a
  product of the hardware section exactly when all three are equal.
\<close>
theorem product_ids_exact:
  "product_id (hardware_id app serial version) order_no = product_id (hardware_id app serial' version') order_no' \<longleftrightarrow>
     serial = serial' \<and> version = version' \<and> order_no = order_no'"
proof -
  have dash: "CHR ''-'' \<notin> set (encode_id_component s)" for s
    using encode_chars [of "CHR ''-''" s] by (auto simp: is_ascii_alphanumeric_def)
  have under: "CHR ''_'' \<notin> set (show_word v)" for v :: u32
    using show_nat_digits by (fastforce simp: show_word_def is_digit_def)
  show ?thesis
    by (simp add: product_id_def hardware_id_def split_at [OF dash dash] split_at [OF under under] encode_inj show_word_inj)
qed

text \<open>
  C26: a program populated through the operations of the authoring
  interface, with handles those operations gave and an identifier of the expected form, writes its
  document without a panic, and the scanner reads that document. Every reference into the program
  that it finds there, to a parameter, a com object, a parameter type, a code segment or a message,
  names an identifier the document declares, or one the caller spelled out instead of using a handle
  (the element of a raw translation, the message of a load procedure), or is the default code
  segment of a program for which none was pinned.
\<close>
theorem authored_references_resolve:
  assumes "built app spelled" and "split_app (app_prefix app) \<noteq> None"
  shows "\<exists>doc parsed. write_knx_document app info created_by tool_version = Some doc \<and> parse_tags (open_tags doc) = Some parsed \<and>
     (let attrs = in_scope (app_prefix app @ ''_'') (concat (map snd parsed))
      in \<forall>(k, v)\<in>set attrs. program_ref k \<longrightarrow> v \<in> set (ids_of attrs) \<or> v \<in> set spelled \<or>
           k = ''CodeSegment'' \<and> parameter_segment app = None \<and> v = app_prefix app @ ''_RS-04-00000'')"
proof -
  have ok: "app_ok app spelled" using assms(1) by (rule built_ok)
  obtain ls where ls: "document_lines app info created_by tool_version = Some ls" "list_all (good app spelled) ls"
    using good_document [OF ok assms(2)] unfolding writes_def by blast
  then obtain parsed where parsed: "parse_tags (open_tags (concat (map render ls))) = Some parsed" "map snd parsed = concat (map line_attrs ls)"
    using document_read [OF list.pred_mono_strong [OF ls(2)]] good_line_ok by blast
  have "\<forall>v\<in>declared_ids app. declares v ls" using declared_written ls(1) by blast
  from lines_resolve [OF ls(2) [unfolded accounted_def] this] show ?thesis
    using ls(1) parsed unfolding Let_def write_knx_document_def default_segment_def by auto
qed

text \<open>
  A program with a parameter that drives the visibility of a com object, and a code segment that
  holds the parameters: there is nothing that could dangle.
\<close>

definition sample_parameter :: Parameter where
  "sample_parameter = \<lparr>pa_suffix = ''1'', pa_name = ''mode'', pa_type = 0, pa_text = ''a < b'', pa_value = ''1'', pa_offset = 0\<rparr>"

definition sample_object :: ComObject where
  "sample_object = \<lparr>co_suffix = ''7'', co_name = ''switch'', co_number = 7, co_text = ''say '' @ [DQ] @ ''on'', co_function_text = [], co_object_size = ''1 Bit'',
     co_dpt = \<lparr>dpt_main_no = 1, dpt_sub_no = 1\<rparr>, co_flags = \<lparr>fl_read = True, fl_write = True, fl_transmit = False, fl_update = False\<rparr>\<rparr>"

definition sample_app :: AppProgram where
  "sample_app = set_parameter_segment 0 (fst (add_segment (Relative None 32 4 0)
     (add_dynamic (ChannelIndependentBlock [ParamRefRef 0, Choose 0 [When ''1'' [ComObjRefRef 0]]])
       (fst (add_com_object sample_object (fst (add_param sample_parameter
         (fst (add_parameter_type \<lparr>pt_name = ''Mode'', pt_kind = KNumber 8 ''unsignedInt'' 0 3\<rparr> (app_new ''M-00FA_A-0001-01-0000''))))))))))"

lemma sample_built: "built sample_app []"
  unfolding sample_app_def
  by (intro built_placement built_segment built_dynamic built_object built_param built_type built_new)
    (simp_all add: sample_parameter_def sample_object_def register_defs app_new_def)

lemma authored_references_resolve_witness:
  "\<exists>doc parsed. write_knx_document sample_app (program_info_new ''demo'' ''MV-07B0'' ''en-US'' 1 1) ''me'' ''1'' = Some doc \<and>
     parse_tags (open_tags doc) = Some parsed \<and>
     (let attrs = in_scope (app_prefix sample_app @ ''_'') (concat (map snd parsed))
      in \<forall>(k, v)\<in>set attrs. program_ref k \<longrightarrow> v \<in> set (ids_of attrs))"
proof -
  have "split_app (app_prefix sample_app) \<noteq> None" by code_simp
  note resolve = authored_references_resolve [OF sample_built this, of "program_info_new ''demo'' ''MV-07B0'' ''en-US'' 1 1" "''me''" "''1''"]
  have "parameter_segment sample_app \<noteq> None" by (simp add: sample_app_def set_parameter_segment_def)
  with resolve show ?thesis by (simp only: list.set empty_iff simp_thms)
qed

end
